(* ===== verification/Prelude.thy ===== *)
theory Prelude
  imports Main "HOL-Library.Sublist"
begin

text \<open>
  What every component theory shares: the type of byte strings, the outcome of a C
  function that may stop the process in \<open>ASSERT_MSG\<close>, the control characters the
  sources compare with, and generic lemmas on lists (splitting at a character, stripping
  a suffix, taking a bounded prefix) that the component proofs use through the
  collections \<open>clist_simps\<close> and \<open>outcome_simps\<close>.
\<close>

named_theorems clist_simps \<open>splitting and stripping of byte strings\<close>
named_theorems outcome_simps \<open>running code that may stop in an assertion\<close>

section \<open>Bytes and C strings\<close>

text \<open>
  A \<open>char\<close> of HOL is exactly one byte, so \<open>string\<close> is the type of byte sequences: the
  content of a file, or of a \<open>char\<close> buffer up to (and without) its terminating NUL.
\<close>

abbreviation (input) nul :: char where "nul \<equiv> CHR 0x00"
abbreviation (input) nl :: char where "nl \<equiv> CHR 0x0A"
abbreviation (input) cr :: char where "cr \<equiv> CHR 0x0D"
abbreviation (input) sp :: char where "sp \<equiv> CHR 0x20"

type_synonym path = string

text \<open>The C string a buffer holds: the bytes before the first NUL.\<close>

definition cstr :: "string \<Rightarrow> string" where
  "cstr s = takeWhile (\<lambda>c. c \<noteq> nul) s"

definition no_nul :: "string \<Rightarrow> bool" where
  "no_nul s \<longleftrightarrow> nul \<notin> set s"

lemma cstr_id [clist_simps]: "no_nul s \<Longrightarrow> cstr s = s"
  unfolding cstr_def no_nul_def by (rule takeWhile_eq_all_conv [THEN iffD2]) auto

lemma no_nul_cstr [simp]: "no_nul (cstr s)"
  by (auto simp: cstr_def no_nul_def dest: set_takeWhileD)

lemma no_nul_append [simp]: "no_nul (xs @ ys) \<longleftrightarrow> no_nul xs \<and> no_nul ys"
  by (auto simp: no_nul_def)

lemma no_nul_Nil [simp]: "no_nul []"
  by (simp add: no_nul_def)

lemma no_nul_Cons [simp]: "no_nul (c # s) \<longleftrightarrow> c \<noteq> nul \<and> no_nul s"
  by (auto simp: no_nul_def)

lemma cstr_length_le: "length (cstr s) \<le> length s"
  by (simp add: cstr_def length_takeWhile_le)

lemma cstr_length_eq_iff: "length (cstr s) = length s \<longleftrightarrow> no_nul s"
proof
  assume "length (cstr s) = length s"
  then have "takeWhile (\<lambda>c. c \<noteq> nul) s = s"
    unfolding cstr_def by (metis append_eq_conv_conj append_self_conv takeWhile_eq_take take_all_iff dual_order.refl)
  then show "no_nul s"
    unfolding no_nul_def by (metis set_takeWhileD)
next
  assume "no_nul s"
  then show "length (cstr s) = length s" by (simp add: cstr_id)
qed

section \<open>Stopping in an assertion\<close>

text \<open>
  \<open>ASSERT_MSG\<close> (src/src/nbs-common/nbs_assert.h) prints and calls \<open>abort()\<close>, in every
  build. A function that may do so returns an outcome: \<open>Ret\<close> of its value, or \<open>Abort\<close>.
\<close>

datatype 'a outcome = Ret 'a | Abort

definition ASSERT_MSG :: "bool \<Rightarrow> 'a outcome \<Rightarrow> 'a outcome" where
  "ASSERT_MSG cond k = (if cond then k else Abort)"

fun and_then :: "'a outcome \<Rightarrow> ('a \<Rightarrow> 'b outcome) \<Rightarrow> 'b outcome" where
  "and_then (Ret a) k = k a"
| "and_then Abort k = Abort"

lemma ASSERT_MSG_True [simp]: "ASSERT_MSG True k = k"
  and ASSERT_MSG_False [simp]: "ASSERT_MSG False k = Abort"
  by (simp_all add: ASSERT_MSG_def)

lemma ASSERT_MSG_Ret [outcome_simps]: "ASSERT_MSG b k = Ret x \<longleftrightarrow> b \<and> k = Ret x"
  by (simp add: ASSERT_MSG_def)

lemma ASSERT_MSG_Abort [outcome_simps]: "ASSERT_MSG b k = Abort \<longleftrightarrow> \<not> b \<or> k = Abort"
  by (simp add: ASSERT_MSG_def)

lemma and_then_Ret [outcome_simps]: "and_then m k = Ret x \<longleftrightarrow> (\<exists>a. m = Ret a \<and> k a = Ret x)"
  by (cases m) auto

lemma and_then_Abort [outcome_simps]:
  "and_then m k = Abort \<longleftrightarrow> m = Abort \<or> (\<exists>a. m = Ret a \<and> k a = Abort)"
  by (cases m) auto

section \<open>Lists\<close>

lemma takeWhile_before [clist_simps]:
  "c \<notin> set xs \<Longrightarrow> takeWhile (\<lambda>x. x \<noteq> c) (xs @ c # ys) = xs"
  by (induction xs) auto

lemma dropWhile_before [clist_simps]:
  "c \<notin> set xs \<Longrightarrow> dropWhile (\<lambda>x. x \<noteq> c) (xs @ c # ys) = c # ys"
  by (induction xs) auto

lemma split_at_char: "c \<in> set s \<Longrightarrow> \<exists>r. s = takeWhile (\<lambda>x. x \<noteq> c) s @ c # r"
  by (induction s) auto

lemma takeWhile_none: "(\<And>x. x \<in> set xs \<Longrightarrow> P x) \<Longrightarrow> takeWhile P xs = xs"
  by (simp add: takeWhile_eq_all_conv)

lemma takeWhile_stop:
  "(\<And>x. x \<in> set xs \<Longrightarrow> P x) \<Longrightarrow> \<not> P y \<Longrightarrow> takeWhile P (xs @ y # ys) = xs"
  by (induction xs) auto

lemma dropWhile_stop:
  "(\<And>x. x \<in> set xs \<Longrightarrow> P x) \<Longrightarrow> \<not> P y \<Longrightarrow> dropWhile P (xs @ y # ys) = y # ys"
  by (induction xs) auto

text \<open>Removing the longest suffix of characters that satisfy a predicate.\<close>

definition rstrip :: "(char \<Rightarrow> bool) \<Rightarrow> string \<Rightarrow> string" where
  "rstrip P s = rev (dropWhile P (rev s))"

lemma rstrip_Nil [simp]: "rstrip P [] = []"
  by (simp add: rstrip_def)

lemma rstrip_snoc: "rstrip P (s @ [c]) = (if P c then rstrip P s else s @ [c])"
  by (simp add: rstrip_def)

lemma rstrip_id: "s = [] \<or> \<not> P (last s) \<Longrightarrow> rstrip P s = s"
  by (cases s rule: rev_cases) (auto simp: rstrip_snoc)

lemma rstrip_idem_set: "(\<And>c. c \<in> set s \<Longrightarrow> \<not> P c) \<Longrightarrow> rstrip P s = s"
  by (rule rstrip_id) auto

lemma rstrip_length: "length (rstrip P s) \<le> length s"
  unfolding rstrip_def by (metis length_dropWhile_le length_rev)

lemma rstrip_last: "rstrip P s \<noteq> [] \<Longrightarrow> \<not> P (last (rstrip P s))"
  unfolding rstrip_def by (metis hd_dropWhile last_rev rev.simps(1))

lemma set_rstrip: "set (rstrip P s) \<subseteq> set s"
  unfolding rstrip_def by (auto dest: set_dropWhileD)

lemma concat_map_append_nl_length:
  "length (concat (map (\<lambda>l. l @ [c]) ls)) = sum_list (map (\<lambda>l. length l + 1) ls)"
  by (induction ls) auto

lemma take_append_length: "length xs \<le> n \<Longrightarrow> take n (xs @ ys) = xs @ take (n - length xs) ys"
  by simp

end
