(* ===== verification/CStd.thy ===== *)
theory CStd
  imports Prelude
begin

text \<open>
  The part of the C standard library the sources rely on, in the C locale and on an LP64
  platform: \<open>isspace\<close>, \<open>isdigit\<close>, \<open>isalnum\<close>, the \<open>%d\<close> and \<open>%lld\<close> conversions,
  \<open>strtol\<close>/\<open>strtoll\<close>, \<open>strstr\<close>, \<open>snprintf\<close> into a bounded buffer and \<open>fgets\<close> over the
  content of a file.  The central facts are that parsing a printed integer gives it back
  (\<open>strtoll_dec\<close>) and that \<open>fgets\<close> returns the lines of a file whose lines are shorter
  than the buffer (\<open>fgets_all_lines\<close>).
\<close>

section \<open>Character classes\<close>

definition isspace :: "char \<Rightarrow> bool" where
  "isspace c \<longleftrightarrow> c \<in> {CHR 0x20, CHR 0x09, CHR 0x0A, CHR 0x0B, CHR 0x0C, CHR 0x0D}"

definition isdigit :: "char \<Rightarrow> bool" where
  "isdigit c \<longleftrightarrow> c \<in> set ''0123456789''"

definition isalnum :: "char \<Rightarrow> bool" where
  "isalnum c \<longleftrightarrow> isdigit c
     \<or> c \<in> set ''ABCDEFGHIJKLMNOPQRSTUVWXYZ'' \<or> c \<in> set ''abcdefghijklmnopqrstuvwxyz''"

definition digit_val :: "char \<Rightarrow> nat" where
  "digit_val c = of_char c - 48"

definition digit_char :: "nat \<Rightarrow> char" where
  "digit_char d = ''0123456789'' ! d"

lemma less_10_cases: "(d::nat) < 10 \<Longrightarrow> d \<in> {0,1,2,3,4,5,6,7,8,9}"
  by auto

lemma isdigit_digit_char [simp]: "d < 10 \<Longrightarrow> isdigit (digit_char d)"
  by (auto simp: isdigit_def digit_char_def dest!: less_10_cases)

lemma digit_val_digit_char [simp]: "d < 10 \<Longrightarrow> digit_val (digit_char d) = d"
  by (auto simp: digit_val_def digit_char_def dest!: less_10_cases)

lemma isdigit_not_isspace: "isdigit c \<Longrightarrow> \<not> isspace c"
  by (auto simp: isdigit_def isspace_def)

section \<open>Printing integers\<close>

fun dec_nat :: "nat \<Rightarrow> string" where
  "dec_nat n = (if n < 10 then [digit_char n] else dec_nat (n div 10) @ [digit_char (n mod 10)])"

declare dec_nat.simps [simp del]

definition dec :: "int \<Rightarrow> string" where
  "dec i = (if i < 0 then CHR ''-'' # dec_nat (nat (- i)) else dec_nat (nat i))"

lemma dec_nat_nonempty [simp]: "dec_nat n \<noteq> []"
  by (subst dec_nat.simps) simp

lemma dec_nonempty [simp]: "dec i \<noteq> []"
  by (simp add: dec_def)

lemma dec_nat_digits: "c \<in> set (dec_nat n) \<Longrightarrow> isdigit c"
proof (induction n rule: dec_nat.induct)
  case (1 n)
  then show ?case by (subst (asm) (2) dec_nat.simps) (auto split: if_splits)
qed

lemma dec_digits: "0 \<le> i \<Longrightarrow> c \<in> set (dec i) \<Longrightarrow> isdigit c"
  by (auto simp: dec_def dec_nat_digits split: if_splits)

lemma dec_chars: "c \<in> set (dec i) \<Longrightarrow> isdigit c \<or> c = CHR ''-''"
  by (auto simp: dec_def dec_nat_digits split: if_splits)

lemma dec_no_nul [simp]: "no_nul (dec i)"
  unfolding no_nul_def by (auto dest!: dec_chars simp: isdigit_def)

lemma dec_not_in:
  "\<not> isdigit c \<Longrightarrow> c \<noteq> CHR ''-'' \<Longrightarrow> c \<notin> set (dec i)"
  by (auto dest: dec_chars)

text \<open>How many digits a number has: \<open>k\<close> digits exactly from \<open>10^(k-1)\<close> up to \<open>10^k\<close>.\<close>

lemma length_dec_nat_bounds:
  "n < 10 ^ length (dec_nat n) \<and> (0 < n \<longrightarrow> 10 ^ (length (dec_nat n) - 1) \<le> n)"
proof (induction n rule: dec_nat.induct)
  case (1 n)
  show ?case
  proof (cases "n < 10")
    case True
    then show ?thesis by (subst (1 2) dec_nat.simps) auto
  next
    case False
    let ?l = "length (dec_nat (n div 10))"
    from 1 False have IH: "n div 10 < 10 ^ ?l" "10 ^ (?l - 1) \<le> n div 10"
      by auto
    have l: "length (dec_nat n) = Suc ?l" using False by (subst dec_nat.simps) simp
    have pos: "0 < ?l" by simp
    have "n < 10 ^ Suc ?l" using IH(1) by simp
    moreover have "10 ^ ?l \<le> n"
    proof -
      have "10 * 10 ^ (?l - 1) \<le> 10 * (n div 10)" using IH(2) by (rule mult_le_mono2)
      also have "\<dots> \<le> n" by simp
      finally show ?thesis using pos by (simp flip: power_Suc)
    qed
    ultimately show ?thesis unfolding l by simp
  qed
qed

lemma length_dec_nat_eqI:
  assumes "10 ^ k \<le> n" "n < 10 ^ Suc k"
  shows "length (dec_nat n) = Suc k"
proof -
  have b: "n < 10 ^ length (dec_nat n)" "10 ^ (length (dec_nat n) - 1) \<le> n"
    using length_dec_nat_bounds[of n] assms(1) by (auto simp: Suc_le_eq order.strict_trans2)
  have "(10::nat) ^ k < 10 ^ length (dec_nat n)" "(10::nat) ^ (length (dec_nat n) - 1) < 10 ^ Suc k"
    using assms b by linarith+
  then have "k < length (dec_nat n)" "length (dec_nat n) - 1 < Suc k"
    using power_less_imp_less_exp by (metis one_less_numeral_iff semiring_norm(76))+
  then show ?thesis by simp
qed

lemma length_dec_nat_mono: "m \<le> n \<Longrightarrow> length (dec_nat m) \<le> length (dec_nat n)"
proof (cases "m = 0")
  case True
  then show ?thesis by (subst dec_nat.simps) (simp add: Suc_le_eq)
next
  case False
  assume "m \<le> n"
  have "(10::nat) ^ (length (dec_nat m) - 1) < 10 ^ length (dec_nat n)"
    using length_dec_nat_bounds[of m] length_dec_nat_bounds[of n] False \<open>m \<le> n\<close> by linarith
  then have "length (dec_nat m) - 1 < length (dec_nat n)"
    using power_less_imp_less_exp by (metis one_less_numeral_iff semiring_norm(76))
  then show ?thesis by simp
qed

section \<open>Parsing integers\<close>

fun digits_val :: "nat \<Rightarrow> string \<Rightarrow> nat \<times> string" where
  "digits_val acc [] = (acc, [])"
| "digits_val acc (c # cs) =
     (if isdigit c then digits_val (10 * acc + digit_val c) cs else (acc, c # cs))"

lemma digits_val_dec_nat:
  "digits_val acc (dec_nat n @ r) = digits_val (acc * 10 ^ length (dec_nat n) + n) r"
proof (induction n arbitrary: acc r rule: dec_nat.induct)
  case (1 n)
  show ?case
  proof (cases "n < 10")
    case True
    then show ?thesis by (subst (1 2) dec_nat.simps) (simp add: mult.commute)
  next
    case False
    have l: "length (dec_nat n) = Suc (length (dec_nat (n div 10)))"
      using False by (subst dec_nat.simps) simp
    have e: "dec_nat n = dec_nat (n div 10) @ [digit_char (n mod 10)]"
      using False by (subst dec_nat.simps) simp
    have "digits_val acc (dec_nat n @ r)
        = digits_val (acc * 10 ^ length (dec_nat (n div 10)) + n div 10) (digit_char (n mod 10) # r)"
      using 1[OF False] by (simp add: e)
    also have "\<dots> = digits_val (10 * (acc * 10 ^ length (dec_nat (n div 10)) + n div 10) + n mod 10) r"
      by simp
    also have "10 * (acc * 10 ^ length (dec_nat (n div 10)) + n div 10) + n mod 10
        = acc * 10 ^ length (dec_nat n) + n"
      unfolding l by (simp add: algebra_simps)
    finally show ?thesis .
  qed
qed

abbreviation (input) LLONG_MAX :: int where "LLONG_MAX \<equiv> 9223372036854775807"
abbreviation (input) LLONG_MIN :: int where "LLONG_MIN \<equiv> - 9223372036854775808"
abbreviation (input) INT_MAX :: int where "INT_MAX \<equiv> 2147483647"
abbreviation (input) INT_MIN :: int where "INT_MIN \<equiv> - 2147483648"

lemma length_dec_bound: "0 \<le> n \<Longrightarrow> n < 10 ^ k \<Longrightarrow> 0 < k \<Longrightarrow> length (dec n) \<le> k"
proof (rule ccontr)
  assume n: "0 \<le> n" "n < 10 ^ k" "0 < k" and "\<not> length (dec n) \<le> k"
  then have l: "k \<le> length (dec_nat (nat n)) - 1" and "0 < nat n"
    by (auto simp: dec_def, cases "n = 0", auto simp: dec_nat.simps)
  have "(10::nat) ^ k \<le> 10 ^ (length (dec_nat (nat n)) - 1)" using l by (intro power_increasing) auto
  also have "\<dots> \<le> nat n" using length_dec_nat_bounds[of "nat n"] \<open>0 < nat n\<close> by simp
  finally have "int (10 ^ k) \<le> n" using n(1) by linarith
  then show False using n(2) by simp
qed

lemma length_dec_int64: "0 \<le> n \<Longrightarrow> n \<le> LLONG_MAX \<Longrightarrow> length (dec n) \<le> 19"
  by (rule length_dec_bound) simp_all

text \<open>
  \<open>strtoll(s, &endp, 10)\<close>: skip white space, one sign, then digits.  Without a digit nothing
  is converted and \<open>endp = s\<close>; out of range the value is clamped and \<open>errno = ERANGE\<close>.
\<close>

record strtol_result =
  st_val :: int
  st_end :: string
  st_noconv :: bool
  st_erange :: bool

definition strtoll :: "string \<Rightarrow> strtol_result" where
  "strtoll s =
     (let s1 = dropWhile isspace s;
          neg = (case s1 of c # _ \<Rightarrow> c = CHR ''-'' | [] \<Rightarrow> False);
          s2 = (case s1 of c # r \<Rightarrow> if c = CHR ''-'' \<or> c = CHR ''+'' then r else s1 | [] \<Rightarrow> [])
      in case s2 of
           [] \<Rightarrow> \<lparr>st_val = 0, st_end = s, st_noconv = True, st_erange = False\<rparr>
         | d # _ \<Rightarrow>
             if \<not> isdigit d then \<lparr>st_val = 0, st_end = s, st_noconv = True, st_erange = False\<rparr>
             else let (n, r) = digits_val 0 s2;
                      v = (if neg then - int n else int n)
                  in if v > LLONG_MAX
                       then \<lparr>st_val = LLONG_MAX, st_end = r, st_noconv = False, st_erange = True\<rparr>
                     else if v < LLONG_MIN
                       then \<lparr>st_val = LLONG_MIN, st_end = r, st_noconv = False, st_erange = True\<rparr>
                     else \<lparr>st_val = v, st_end = r, st_noconv = False, st_erange = False\<rparr>)"

definition no_digit_head :: "string \<Rightarrow> bool" where
  "no_digit_head r = (case r of [] \<Rightarrow> True | c # _ \<Rightarrow> \<not> isdigit c)"

lemma no_digit_head_simps [simp]:
  "no_digit_head []" "no_digit_head (c # r) \<longleftrightarrow> \<not> isdigit c"
  by (simp_all add: no_digit_head_def)

lemma digits_val_stop: "no_digit_head r \<Longrightarrow> digits_val acc r = (acc, r)"
  by (cases r) simp_all

lemma hd_dec_nat_digit: "isdigit (hd (dec_nat n))"
  by (rule dec_nat_digits [of _ n]) simp

lemma strtoll_dec:
  assumes "LLONG_MIN \<le> i" "i \<le> LLONG_MAX" "no_digit_head r"
  shows "strtoll (dec i @ r) = \<lparr>st_val = i, st_end = r, st_noconv = False, st_erange = False\<rparr>"
proof -
  let ?n = "nat \<bar>i\<bar>"
  obtain d ds where d: "dec_nat ?n = d # ds" by (cases "dec_nat ?n") auto
  have dig: "isdigit d" using hd_dec_nat_digit[of ?n] d by simp
  then have nsp: "\<not> isspace d" and nsgn: "d \<noteq> CHR ''-''" "d \<noteq> CHR ''+''"
    by (auto simp: isdigit_def isspace_def)
  have val: "digits_val 0 (d # ds @ r) = (?n, r)"
    using digits_val_dec_nat[of 0 ?n r] assms(3) by (simp add: d digits_val_stop)
  show ?thesis
  proof (cases "i < 0")
    case True
    then have e: "dec i @ r = CHR ''-'' # d # ds @ r" using d by (simp add: dec_def)
    have "\<not> isspace (CHR ''-'')" by (simp add: isspace_def)
    then show ?thesis using True assms dig val
      unfolding strtoll_def Let_def e by simp
  next
    case False
    then have e: "dec i @ r = d # ds @ r" using d by (simp add: dec_def)
    show ?thesis using False assms dig val nsp nsgn
      unfolding strtoll_def Let_def e by simp
  qed
qed

section \<open>Searching\<close>

text \<open>
  \<open>strstr(s, pat)\<close>: the text before the first occurrence of the pattern and the text from
  it on, or \<open>None\<close>.
\<close>

fun strstr :: "string \<Rightarrow> string \<Rightarrow> (string \<times> string) option" where
  "strstr pat [] = (if pat = [] then Some ([], []) else None)"
| "strstr pat (c # s) =
     (if prefix pat (c # s) then Some ([], c # s)
      else map_option (\<lambda>(a, b). (c # a, b)) (strstr pat s))"

lemma strstr_split: "strstr pat s = Some (a, b) \<Longrightarrow> s = a @ b \<and> prefix pat b"
  by (induction s arbitrary: a) (auto split: if_splits)

lemma strstr_first:
  assumes "p \<notin> set a"
  shows "strstr (p # ps) (a @ p # ps @ b) = Some (a, p # ps @ b)"
  using assms by (induction a) auto

text \<open>\<open>snprintf(buf, size, \<dots>)\<close> keeps the first \<open>size - 1\<close> bytes.\<close>

definition snprintf :: "nat \<Rightarrow> string \<Rightarrow> string" where
  "snprintf bufsz s = take (bufsz - 1) s"

lemma snprintf_id [clist_simps]: "length s < bufsz \<Longrightarrow> snprintf bufsz s = s"
  by (simp add: snprintf_def)

lemma no_nul_snprintf [simp]: "no_nul s \<Longrightarrow> no_nul (snprintf bufsz s)"
  by (auto simp: snprintf_def no_nul_def dest: in_set_takeD)

section \<open>Reading a file line by line\<close>

text \<open>
  One \<open>fgets\<close> with room for \<open>room\<close> bytes takes bytes up to and including a newline, at most
  \<open>room\<close> of them.  A \<open>while (fgets(buf, size, f))\<close> loop sees the chunks in order; a line that
  does not fit is seen in several chunks.  (\<open>fgets\<close> with \<open>size \<le> 1\<close> makes no progress; the
  sources never use it.)
\<close>

fun fgets_chunk :: "nat \<Rightarrow> string \<Rightarrow> string \<times> string" where
  "fgets_chunk room [] = ([], [])"
| "fgets_chunk room (c # cs) =
     (if room = 0 then ([], c # cs)
      else if c = nl then ([c], cs)
      else (let (l, r) = fgets_chunk (room - 1) cs in (c # l, r)))"

lemma fgets_chunk_split: "fgets_chunk room s = (l, r) \<Longrightarrow> s = l @ r"
  by (induction room s arbitrary: l r rule: fgets_chunk.induct) (auto split: if_splits prod.splits)

lemma fgets_chunk_length: "fgets_chunk room s = (l, r) \<Longrightarrow> length l \<le> room"
proof (induction room s arbitrary: l r rule: fgets_chunk.induct)
  case (2 room c cs)
  obtain l' r' where e: "fgets_chunk (room - 1) cs = (l', r')" by fastforce
  show ?case
  proof (cases "room = 0 \<or> c = nl")
    case True
    then show ?thesis using "2.prems" by (auto split: if_splits)
  next
    case False
    then have "length l' \<le> room - 1" using "2.IH" e by blast
    then show ?thesis using False "2.prems" e by auto
  qed
qed simp

lemma fgets_chunk_progress:
  "0 < room \<Longrightarrow> s \<noteq> [] \<Longrightarrow> length (snd (fgets_chunk room s)) < length s"
proof -
  assume a: "0 < room" "s \<noteq> []"
  obtain l r where lr: "fgets_chunk room s = (l, r)" by fastforce
  then have "s = l @ r" by (rule fgets_chunk_split)
  moreover have "l \<noteq> []" using a lr by (cases s) (auto split: if_splits prod.splits)
  ultimately show ?thesis using lr by simp
qed

function fgets_all :: "nat \<Rightarrow> string \<Rightarrow> string list" where
  "fgets_all bufsz s =
     (if s = [] \<or> bufsz \<le> 1 then []
      else (let (l, r) = fgets_chunk (bufsz - 1) s in l # fgets_all bufsz r))"
  by pat_completeness auto
termination
  by (relation "measure (\<lambda>(bufsz, s). length s)")
     (auto, metis fgets_chunk_progress diff_is_0_eq length_0_conv not_less_eq_eq less_nat_zero_code
        zero_less_diff not_le_imp_less One_nat_def snd_conv)

declare fgets_all.simps [simp del]

lemma fgets_all_Nil [simp]: "fgets_all bufsz [] = []"
  by (subst fgets_all.simps) simp

lemma fgets_chunk_line:
  "nl \<notin> set l \<Longrightarrow> length l < room \<Longrightarrow> fgets_chunk room (l @ nl # r) = (l @ [nl], r)"
proof (induction l arbitrary: room)
  case Nil
  then show ?case by (cases room) auto
next
  case (Cons c l)
  from Cons.prems have "fgets_chunk (room - 1) (l @ nl # r) = (l @ [nl], r)"
    by (intro Cons.IH) auto
  then show ?case using Cons.prems by auto
qed

lemma fgets_all_line:
  assumes "nl \<notin> set l" "length l + 1 < bufsz"
  shows "fgets_all bufsz (l @ nl # r) = (l @ [nl]) # fgets_all bufsz r"
proof -
  have "fgets_chunk (bufsz - 1) (l @ nl # r) = (l @ [nl], r)"
    using assms by (intro fgets_chunk_line) auto
  then show ?thesis using assms by (subst fgets_all.simps) simp
qed

lemma fgets_chunk_butlast: "fgets_chunk room s = (l, r) \<Longrightarrow> nl \<notin> set (butlast l)"
proof (induction room s arbitrary: l r rule: fgets_chunk.induct)
  case (2 room c cs)
  obtain l' r' where e: "fgets_chunk (room - 1) cs = (l', r')" by fastforce
  show ?case
  proof (cases "room = 0 \<or> c = nl")
    case True
    then show ?thesis using "2.prems" by (auto split: if_splits)
  next
    case False
    then have "nl \<notin> set (butlast l')" using "2.IH" e by blast
    then show ?thesis using False "2.prems" e by (auto split: if_splits)
  qed
qed simp

lemma fgets_all_chunks:
  "c \<in> set (fgets_all bufsz s) \<Longrightarrow> \<exists>t l r. fgets_chunk (bufsz - 1) t = (l, r) \<and> c = l"
proof (induction bufsz s rule: fgets_all.induct)
  case (1 bufsz s)
  obtain l r where lr: "fgets_chunk (bufsz - 1) s = (l, r)" by fastforce
  from "1.prems" have ne: "\<not> (s = [] \<or> bufsz \<le> 1)"
    by (subst (asm) fgets_all.simps) (auto split: if_splits)
  then have "fgets_all bufsz s = l # fgets_all bufsz r"
    using lr by (subst fgets_all.simps) simp
  with "1.prems" consider "c = l" | "c \<in> set (fgets_all bufsz r)" by auto
  then show ?case
  proof cases
    case 1
    then show ?thesis using lr by blast
  next
    case 2
    then show ?thesis using "1.IH"[OF ne refl] lr by simp
  qed
qed

lemma fgets_all_butlast: "c \<in> set (fgets_all bufsz s) \<Longrightarrow> nl \<notin> set (butlast c)"
  using fgets_all_chunks fgets_chunk_butlast by blast

definition unlines :: "string list \<Rightarrow> string" where
  "unlines ls = concat (map (\<lambda>l. l @ [nl]) ls)"

lemma unlines_simps [simp]:
  "unlines [] = []" "unlines (l # ls) = l @ nl # unlines ls"
  "unlines (ls @ ms) = unlines ls @ unlines ms"
  by (simp_all add: unlines_def)

lemma length_unlines: "length (unlines ls) = sum_list (map (\<lambda>l. length l + 1) ls)"
  by (simp add: unlines_def concat_map_append_nl_length)

lemma no_nul_unlines [simp]: "no_nul (unlines ls) \<longleftrightarrow> (\<forall>l \<in> set ls. no_nul l)"
  by (induction ls) auto

text \<open>A line as the loops expect it: no newline inside, and it fits in the buffer.\<close>

definition fits_line :: "nat \<Rightarrow> string \<Rightarrow> bool" where
  "fits_line bufsz l \<longleftrightarrow> nl \<notin> set l \<and> length l + 1 < bufsz"

lemma fgets_all_lines:
  "(\<And>l. l \<in> set ls \<Longrightarrow> fits_line bufsz l) \<Longrightarrow>
   fgets_all bufsz (unlines ls @ r) = map (\<lambda>l. l @ [nl]) ls @ fgets_all bufsz r"
proof (induction ls)
  case (Cons l ls)
  from Cons.prems[of l] have "fits_line bufsz l" by simp
  then show ?case using Cons by (simp add: fits_line_def fgets_all_line)
qed simp

lemma fgets_all_concat:
  "1 < bufsz \<Longrightarrow> concat (fgets_all bufsz s) = s"
proof (induction bufsz s rule: fgets_all.induct)
  case (1 bufsz s)
  show ?case
  proof (cases "s = []")
    case True
    then show ?thesis by simp
  next
    case False
    obtain l r where lr: "fgets_chunk (bufsz - 1) s = (l, r)" by fastforce
    then have "s = l @ r" by (rule fgets_chunk_split)
    moreover have "concat (fgets_all bufsz r) = r"
      using "1.IH"[of "(l, r)"] False lr "1.prems" by simp
    ultimately show ?thesis using False "1.prems" lr by (subst fgets_all.simps) simp
  qed
qed

lemma fgets_all_length_le: "c \<in> set (fgets_all bufsz s) \<Longrightarrow> length c < bufsz"
proof (induction bufsz s rule: fgets_all.induct)
  case (1 bufsz s)
  obtain l r where lr: "fgets_chunk (bufsz - 1) s = (l, r)" by fastforce
  then have len: "length l \<le> bufsz - 1" by (rule fgets_chunk_length)
  from "1.prems" have ne: "\<not> (s = [] \<or> bufsz \<le> 1)"
    by (subst (asm) fgets_all.simps) (auto split: if_splits)
  then have "fgets_all bufsz s = l # fgets_all bufsz r"
    using lr by (subst fgets_all.simps) simp
  with "1.prems" consider "c = l" | "c \<in> set (fgets_all bufsz r)" by auto
  then show ?case
  proof cases
    case 1
    then show ?thesis using len ne by auto
  next
    case 2
    then show ?thesis using "1.IH"[OF ne refl] lr by simp
  qed
qed

text \<open>The loops strip the line terminator with the same inner \<open>while\<close>.\<close>

definition chomp :: "string \<Rightarrow> string" where
  "chomp line = rstrip (\<lambda>c. c = nl \<or> c = cr) (cstr line)"

lemma chomp_line:
  assumes "no_nul l" "l = [] \<or> last l \<noteq> cr" "nl \<notin> set l"
  shows "chomp (l @ [nl]) = l"
proof -
  have "cstr (l @ [nl]) = l @ [nl]" using assms by (simp add: cstr_id)
  moreover have "rstrip (\<lambda>c. c = nl \<or> c = cr) l = l"
    using assms by (intro rstrip_id) (metis last_in_set)
  ultimately show ?thesis by (simp add: chomp_def rstrip_snoc)
qed

lemma no_nul_chomp [simp]: "no_nul (chomp s)"
  using no_nul_cstr[of s] set_rstrip unfolding chomp_def no_nul_def by blast

end
