(* ===== verification/BusEvent.thy ===== *)
theory BusEvent
  imports CStd "HOL-Library.Multiset" "HOL-Library.Product_Lexorder"
begin

text \<open>
  Events of the bus (src/src/nbs-bus/bus.c, bus.h): priorities, the event file name and its
  timestamp, the event file's text and the two readers of it, ages, and the comparison
  functions given to \<open>qsort\<close>.  The locale \<open>comparator\<close> is what sorting relies on.
\<close>

abbreviation (input) BUS_MAX_HANDLE :: nat where "BUS_MAX_HANDLE \<equiv> 128"
abbreviation (input) BUS_MAX_TYPE :: nat where "BUS_MAX_TYPE \<equiv> 128"
abbreviation (input) BUS_MAX_EVENTS :: nat where "BUS_MAX_EVENTS \<equiv> 256"
abbreviation (input) BUS_MAX_FILENAME :: nat where "BUS_MAX_FILENAME \<equiv> 512"
abbreviation (input) BUS_MAX_FULLPATH :: nat where "BUS_MAX_FULLPATH \<equiv> 4672"

section \<open>Priorities\<close>

text \<open>The four levels; \<open>priority_num\<close> is the number the sources define for each.\<close>

datatype bus_priority = Critical | High | Normal | Low

fun priority_num :: "bus_priority \<Rightarrow> int" where
  "priority_num Critical = 0"
| "priority_num High = 1"
| "priority_num Normal = 2"
| "priority_num Low = 3"

lemma priority_num_inj [simp]: "priority_num a = priority_num b \<longleftrightarrow> a = b"
  by (cases a; cases b) simp_all

instantiation bus_priority :: linorder
begin

definition less_eq_bus_priority :: "bus_priority \<Rightarrow> bus_priority \<Rightarrow> bool" where
  "less_eq_bus_priority a b \<longleftrightarrow> priority_num a \<le> priority_num b"

definition less_bus_priority :: "bus_priority \<Rightarrow> bus_priority \<Rightarrow> bool" where
  "less_bus_priority a b \<longleftrightarrow> priority_num a < priority_num b"

instance
  by standard (auto simp: less_eq_bus_priority_def less_bus_priority_def)

end

definition priority_names :: "(string \<times> bus_priority) list" where
  "priority_names = [(''critical'', Critical), (''high'', High), (''normal'', Normal), (''low'', Low)]"

text \<open>\<open>None\<close> is the return value -1.\<close>

definition bus_priority_from_str :: "string \<Rightarrow> bus_priority option" where
  "bus_priority_from_str s = map_of priority_names s"

text \<open>A priority argument is an \<open>int\<close> in C; outside 0 to 3 the code aborts.\<close>

definition priority_of_int :: "int \<Rightarrow> bus_priority option" where
  "priority_of_int p = (if p = 0 then Some Critical else if p = 1 then Some High
                        else if p = 2 then Some Normal else if p = 3 then Some Low else None)"

fun bus_priority_to_str :: "bus_priority \<Rightarrow> string" where
  "bus_priority_to_str Critical = ''critical''"
| "bus_priority_to_str High = ''high''"
| "bus_priority_to_str Normal = ''normal''"
| "bus_priority_to_str Low = ''low''"

lemma priority_from_to [simp]: "bus_priority_from_str (bus_priority_to_str p) = Some p"
  by (cases p) (simp_all add: bus_priority_from_str_def priority_names_def)

lemma priority_of_num [simp]: "priority_of_int (priority_num p) = Some p"
  by (cases p) (simp_all add: priority_of_int_def)

section \<open>Names\<close>

definition has_whitespace :: "string \<Rightarrow> bool" where
  "has_whitespace s \<longleftrightarrow> list_ex isspace s"

definition is_event_name :: "string \<Rightarrow> bool" where
  "is_event_name name \<longleftrightarrow> length name \<ge> 7 \<and> drop (length name - 6) name = ''.event''"

text \<open>\<open>Ret None\<close> is the return value -1; a number that is not positive aborts.\<close>

definition parse_event_filename_timestamp :: "string \<Rightarrow> int option outcome" where
  "parse_event_filename_timestamp filename =
     (let ts = takeWhile (\<lambda>c. c \<noteq> CHR ''-'') filename in
      if CHR ''-'' \<notin> set filename \<or> ts = [] then Ret None
      else if length ts \<ge> 32 then Ret None
      else if \<not> list_all isdigit ts then Ret None
      else (let r = strtoll ts in
        if st_erange r \<or> st_end r \<noteq> [] then Ret None
        else ASSERT_MSG (st_val r > 0) (Ret (Some (st_val r)))))"

definition event_filename :: "int \<Rightarrow> string \<Rightarrow> string \<Rightarrow> int \<Rightarrow> string" where
  "event_filename ts_us source ty pid =
     dec ts_us @ ''-'' @ source @ ''-'' @ ty @ ''-'' @ dec pid @ ''.event''"

definition tmp_filename :: "int \<Rightarrow> int \<Rightarrow> string" where
  "tmp_filename ts_us pid = ''.tmp-'' @ dec ts_us @ ''-'' @ dec pid @ ''.event''"

text \<open>Event names given by a caller: no path, the right suffix, not too long.\<close>

definition validate_event_filename :: "string \<Rightarrow> bool" where
  "validate_event_filename event_file \<longleftrightarrow>
     event_file \<noteq> []
     \<and> \<not> (CHR ''/'' \<in> set event_file \<or> take 2 event_file = ''..'' \<or> event_file = ''.'')
     \<and> length event_file < BUS_MAX_FILENAME
     \<and> is_event_name event_file"

section \<open>The text of an event\<close>

text \<open>The payload is written with two spaces before every line.\<close>

function indent_payload :: "string \<Rightarrow> string" where
  "indent_payload p =
     (if p = [] then []
      else if nl \<in> set p then
        '' '' @ '' '' @ takeWhile (\<lambda>c. c \<noteq> nl) p @ [nl] @ indent_payload (drop (length (takeWhile (\<lambda>c. c \<noteq> nl) p) + 1) p)
      else '' '' @ '' '' @ p @ [nl])"
  by pat_completeness auto
termination
  by (relation "measure length") (auto simp: less_Suc_eq_le)

declare indent_payload.simps [simp del]

definition event_header :: "string \<Rightarrow> string \<Rightarrow> bus_priority \<Rightarrow> string \<Rightarrow> string list" where
  "event_header source ty p iso_time =
     [''source: '' @ source, ''type: '' @ ty, ''priority: '' @ bus_priority_to_str p,
      ''timestamp: '' @ iso_time, ''dedup-key: '' @ source @ '':'' @ ty]"

definition event_text :: "string \<Rightarrow> string \<Rightarrow> bus_priority \<Rightarrow> string \<Rightarrow> string option \<Rightarrow> string" where
  "event_text source ty p iso_time payload =
     unlines (event_header source ty p iso_time)
     @ (case payload of None \<Rightarrow> []
        | Some t \<Rightarrow> if t = [] then [] else ''payload: |'' @ [nl] @ indent_payload t)"

section \<open>Reading an event\<close>

record event_fields =
  ef_priority :: bus_priority
  ef_source :: string
  ef_type :: string
  has_priority :: bool
  has_source :: bool
  has_type :: bool

definition no_fields :: event_fields where
  "no_fields = \<lparr>ef_priority = Normal, ef_source = [], ef_type = [],
                has_priority = False, has_source = False, has_type = False\<rparr>"

definition field_value :: "nat \<Rightarrow> string \<Rightarrow> string" where
  "field_value n line = takeWhile (\<lambda>c. c \<noteq> nl) (drop n line)"

definition fields_step :: "string \<Rightarrow> event_fields \<Rightarrow> event_fields" where
  "fields_step chunk f =
     (let line = cstr chunk in
      if \<not> has_priority f \<and> take 10 line = ''priority: '' then
        f\<lparr>ef_priority := (case bus_priority_from_str (field_value 10 line) of Some p \<Rightarrow> p | None \<Rightarrow> ef_priority f),
          has_priority := True\<rparr>
      else if \<not> has_source f \<and> take 8 line = ''source: '' then
        f\<lparr>ef_source := take (BUS_MAX_HANDLE - 1) (field_value 8 line), has_source := True\<rparr>
      else if \<not> has_type f \<and> take 6 line = ''type: '' then
        f\<lparr>ef_type := take (BUS_MAX_TYPE - 1) (field_value 6 line), has_type := True\<rparr>
      else f)"

definition all_found :: "event_fields \<Rightarrow> bool" where
  "all_found f \<longleftrightarrow> has_priority f \<and> has_source f \<and> has_type f"

fun fields_loop :: "string list \<Rightarrow> event_fields \<Rightarrow> event_fields" where
  "fields_loop [] f = f"
| "fields_loop (chunk # cs) f = (if all_found f then f else fields_loop cs (fields_step chunk f))"

text \<open>\<open>None\<close> is the return value -1: a field is missing, or (the flag) reading failed.\<close>

definition read_event_fields :: "bool \<Rightarrow> string \<Rightarrow> (bus_priority \<times> string \<times> string) option" where
  "read_event_fields io_error content =
     (let f = fields_loop (fgets_all 512 content) no_fields in
      if io_error \<or> \<not> all_found f then None else Some (ef_priority f, ef_source f, ef_type f))"

text \<open>
  The dedup key.  A chunk without a newline that did not end at the end of the file is an
  overlong line: the rest of it is skipped.  \<open>fgets\<close> has seen the end of the file exactly when
  it filled less than its buffer without finding a newline.
\<close>

function find_dedup_key :: "string \<Rightarrow> string option" where
  "find_dedup_key s =
     (if s = [] then None
      else (let chunk = fst (fgets_chunk 511 s); rest = snd (fgets_chunk 511 s); line = cstr chunk in
         if nl \<notin> set line \<and> \<not> (length chunk < 511 \<and> nl \<notin> set chunk)
         then find_dedup_key (drop 1 (dropWhile (\<lambda>c. c \<noteq> nl) rest))
         else if take 11 line = ''dedup-key: '' then Some (field_value 11 line)
         else find_dedup_key rest))"
  by pat_completeness auto
termination
proof (relation "measure length", goal_cases)
  case (2 s chunk rest line)
  have "length rest < length s" using fgets_chunk_progress[of 511 s] 2 by simp
  moreover have "length (drop 1 (dropWhile (\<lambda>c. c \<noteq> nl) rest)) \<le> length rest"
    using length_dropWhile_le[of "\<lambda>c. c \<noteq> nl" rest] by simp
  ultimately show ?case by simp
next
  case (3 s chunk rest line)
  then show ?case using fgets_chunk_progress[of 511 s] by simp
qed simp

declare find_dedup_key.simps [simp del]

definition read_event_dedup_key :: "bool \<Rightarrow> nat \<Rightarrow> string \<Rightarrow> string option" where
  "read_event_dedup_key io_error key_len content =
     (if io_error then None else map_option (take (key_len - 1)) (find_dedup_key content))"

section \<open>Ages\<close>

text \<open>C division truncates towards zero.\<close>

definition format_age :: "int \<Rightarrow> nat \<Rightarrow> string outcome" where
  "format_age delta_us len =
     ASSERT_MSG (len \<ge> 16)
      (let quot = (if delta_us < 0 then - ((- delta_us) div 1000000) else delta_us div 1000000);
           seconds = (if quot < 0 then 0 else quot);
           out = (if seconds < 60 then dec seconds @ ''s ago''
                  else if seconds < 3600 then dec (seconds div 60) @ ''m ago''
                  else if seconds < 86400 then dec (seconds div 3600) @ ''h ago''
                  else dec (seconds div 86400) @ ''d ago'')
       in ASSERT_MSG (length out < len) (Ret out))"

section \<open>Comparison functions\<close>

record bus_event =
  ev_filename :: string
  ev_source :: string
  ev_type :: string
  ev_priority :: bus_priority
  ev_timestamp :: int

definition event_compare :: "bus_event \<Rightarrow> bus_event \<Rightarrow> int" where
  "event_compare ea eb =
     (if ev_priority ea \<noteq> ev_priority eb then priority_num (ev_priority ea) - priority_num (ev_priority eb)
      else if ev_timestamp ea < ev_timestamp eb then -1
      else if ev_timestamp ea > ev_timestamp eb then 1
      else 0)"

record prune_entry =
  pe_filename :: string
  pe_timestamp :: int
  pe_size :: int

definition prune_compare :: "prune_entry \<Rightarrow> prune_entry \<Rightarrow> int" where
  "prune_compare ea eb =
     (if pe_timestamp ea < pe_timestamp eb then -1
      else if pe_timestamp ea > pe_timestamp eb then 1
      else 0)"

text \<open>
  \<open>qsort\<close> is a parameter of the model: it returns a permutation in which no element is greater
  than a later one, provided the comparison is a total preorder.
\<close>

definition qsort_ok :: "(('a \<Rightarrow> 'a \<Rightarrow> int) \<Rightarrow> 'a list \<Rightarrow> 'a list) \<Rightarrow> ('a \<Rightarrow> 'a \<Rightarrow> int) \<Rightarrow> bool" where
  "qsort_ok qsort cmp \<longleftrightarrow> (\<forall>xs. mset (qsort cmp xs) = mset xs \<and> sorted_wrt (\<lambda>a b. cmp a b \<le> 0) (qsort cmp xs))"

text \<open>The contract of a comparison function: it orders by a key.\<close>

locale comparator =
  fixes cmp :: "'a \<Rightarrow> 'a \<Rightarrow> int" and key :: "'a \<Rightarrow> 'k::linorder"
  assumes cmp_neg: "cmp a b < 0 \<longleftrightarrow> key a < key b"
    and cmp_zero: "cmp a b = 0 \<longleftrightarrow> key a = key b"
begin

lemma cmp_le: "cmp a b \<le> 0 \<longleftrightarrow> key a \<le> key b"
  using cmp_neg[of a b] cmp_zero[of a b] by (auto simp: le_less)

lemma cmp_pos: "cmp a b > 0 \<longleftrightarrow> key b < key a"
  using cmp_le[of a b] by (simp add: not_le[symmetric])

lemma cmp_total: "cmp a b \<le> 0 \<or> cmp b a \<le> 0"
  unfolding cmp_le by (rule linear)

lemma cmp_trans: "cmp a b \<le> 0 \<Longrightarrow> cmp b c \<le> 0 \<Longrightarrow> cmp a c \<le> 0"
  unfolding cmp_le by (rule order.trans)

lemma sorted_key: "sorted_wrt (\<lambda>a b. cmp a b \<le> 0) xs \<longleftrightarrow> sorted (map key xs)"
  by (simp add: cmp_le sorted_wrt_map)

lemma insort_ok: "qsort_ok (\<lambda>_. sort_key key) cmp"
  by (simp add: qsort_ok_def sorted_key)

lemma qsort_sorted: "qsort_ok qsort cmp \<Longrightarrow> sorted (map key (qsort cmp xs)) \<and> mset (qsort cmp xs) = mset xs"
  by (simp add: qsort_ok_def sorted_key)

lemma qsort_set: "qsort_ok qsort cmp \<Longrightarrow> set (qsort cmp xs) = set xs \<and> length (qsort cmp xs) = length xs"
  unfolding qsort_ok_def by (metis mset_eq_setD mset_eq_length)

end

interpretation by_priority: comparator event_compare "\<lambda>e. (ev_priority e, ev_timestamp e)"
  by unfold_locales (auto simp: event_compare_def less_bus_priority_def less_eq_bus_priority_def le_less)

interpretation by_age: comparator prune_compare pe_timestamp
  by unfold_locales (auto simp: prune_compare_def)

section \<open>Names and text of a published event\<close>

lemma dec_pos_digits: "0 < n \<Longrightarrow> c \<in> set (dec n) \<Longrightarrow> isdigit c"
  using dec_digits[of n] by simp

lemma parse_timestamp_name:
  assumes "0 < ts" "ts \<le> LLONG_MAX"
  shows "parse_event_filename_timestamp (dec ts @ CHR ''-'' # r) = Ret (Some ts)"
proof -
  have nd: "CHR ''-'' \<notin> set (dec ts)" using dec_pos_digits[OF assms(1)] by (auto simp: isdigit_def)
  have tw: "takeWhile (\<lambda>c. c \<noteq> CHR ''-'') (dec ts @ CHR ''-'' # r) = dec ts" by (rule takeWhile_before[OF nd])
  have "list_all isdigit (dec ts)" using dec_pos_digits[OF assms(1)] by (simp add: list_all_iff)
  moreover have "strtoll (dec ts) = \<lparr>st_val = ts, st_end = [], st_noconv = False, st_erange = False\<rparr>"
    using strtoll_dec[of ts "[]"] assms by simp
  moreover have "length (dec ts) < 32" using length_dec_int64[of ts] assms by simp
  ultimately show ?thesis using assms(1) unfolding parse_event_filename_timestamp_def tw by simp
qed

lemma parse_event_filename: "0 < ts \<Longrightarrow> ts \<le> LLONG_MAX \<Longrightarrow>
    parse_event_filename_timestamp (event_filename ts source ty pid) = Ret (Some ts)"
  using parse_timestamp_name[of ts "source @ ''-'' @ ty @ ''-'' @ dec pid @ ''.event''"] by (simp add: event_filename_def)

lemma parse_tmp_filename: "parse_event_filename_timestamp (tmp_filename ts pid) = Ret None"
  by (simp add: tmp_filename_def parse_event_filename_timestamp_def isdigit_def)

lemma is_event_name_suffix: "is_event_name (s @ ''.event'') \<longleftrightarrow> s \<noteq> []"
  by (cases s) (simp_all add: is_event_name_def)

lemma event_filename_is_event: "is_event_name (event_filename ts source ty pid)"
  using is_event_name_suffix[of "dec ts @ ''-'' @ source @ ''-'' @ ty @ ''-'' @ dec pid"]
  by (simp add: event_filename_def)

text \<open>What a published event's fields must be: no white space, no NUL, and short enough to fit
  the readers' buffers.\<close>

definition event_word :: "string \<Rightarrow> bool" where
  "event_word w \<longleftrightarrow> w \<noteq> [] \<and> \<not> has_whitespace w \<and> no_nul w \<and> length w < 128"

lemma event_word_chars: "event_word w \<Longrightarrow> nl \<notin> set w"
  by (auto simp: event_word_def has_whitespace_def list_ex_iff isspace_def)

lemma take_line:
  assumes "nl \<notin> set pre" "length pre = n"
  shows "take n (l @ [nl]) = pre \<longleftrightarrow> take n l = pre"
proof (cases "n \<le> length l")
  case False
  then have "take n (l @ [nl]) = l @ [nl]" "take n l = l" by simp_all
  moreover have "l @ [nl] \<noteq> pre" using assms(1) by auto
  moreover have "l \<noteq> pre" using False assms(2) by auto
  ultimately show ?thesis by simp
qed simp

lemma field_value_line: "nl \<notin> set l \<Longrightarrow> n \<le> length l \<Longrightarrow> field_value n (l @ [nl]) = drop n l"
proof -
  assume a: "nl \<notin> set l" "n \<le> length l"
  have "nl \<notin> set (drop n l)" using a(1) by (meson in_set_dropD)
  then show ?thesis using a(2) takeWhile_before[of nl "drop n l" "[]"] by (simp add: field_value_def)
qed

lemma cstr_line: "no_nul l \<Longrightarrow> cstr (l @ [nl]) = l @ [nl]"
  by (simp add: cstr_id)

lemma fields_loop_done: "all_found f \<Longrightarrow> fields_loop cs f = f"
  by (cases cs) simp_all

lemma fields_loop_three:
  assumes "fields_step (l1 @ [nl]) f = f1" "fields_step (l2 @ [nl]) f1 = f2" "fields_step (l3 @ [nl]) f2 = f3"
    and "\<not> all_found f" "\<not> all_found f1" "\<not> all_found f2" "all_found f3"
  shows "fields_loop (map (\<lambda>l. l @ [nl]) [l1, l2, l3] @ cs) f = f3"
  using assms fields_loop_done[OF assms(7)] by simp

lemma event_lines_fit:
  assumes "event_word source" "event_word ty"
  shows "fits_line 512 (''source: '' @ source)" "fits_line 512 (''type: '' @ ty)"
    "fits_line 512 (''priority: '' @ bus_priority_to_str p)" "fits_line 512 (''dedup-key: '' @ source @ '':'' @ ty)"
  using assms event_word_chars[of source] event_word_chars[of ty]
  by (cases p; simp add: fits_line_def event_word_def)+

lemma read_event_text:
  assumes "event_word source" "event_word ty"
  shows "read_event_fields False (event_text source ty p stamp payload) = Some (p, source, ty)"
proof -
  let ?r = "unlines [''timestamp: '' @ stamp, ''dedup-key: '' @ source @ '':'' @ ty]
     @ (case payload of None \<Rightarrow> [] | Some t \<Rightarrow> if t = [] then [] else ''payload: |'' @ [nl] @ indent_payload t)"
  let ?ls = "[''source: '' @ source, ''type: '' @ ty, ''priority: '' @ bus_priority_to_str p]"
  have t: "event_text source ty p stamp payload = unlines ?ls @ ?r"
    by (simp add: event_text_def event_header_def)
  have fits: "\<And>l. l \<in> set ?ls \<Longrightarrow> fits_line 512 l"
    using event_lines_fit(1,2)[OF assms] event_lines_fit(3)[OF assms, of p] by (simp only: list.set) blast
  have chunks: "fgets_all 512 (unlines ?ls @ ?r) = map (\<lambda>l. l @ [nl]) ?ls @ fgets_all 512 ?r"
    by (rule fgets_all_lines) (rule fits)
  have nn: "no_nul source" "no_nul ty" "length source \<le> 127" "length ty \<le> 127"
    using assms by (auto simp: event_word_def)
  have nln: "nl \<notin> set source" "nl \<notin> set ty" using assms event_word_chars by auto
  have "no_nul (bus_priority_to_str p)" "nl \<notin> set (bus_priority_to_str p)"
    by (cases p; simp add: no_nul_def)+
  note cs = cstr_line[of "''source: '' @ source", simplified] cstr_line[of "''type: '' @ ty", simplified]
    cstr_line[of "''priority: '' @ bus_priority_to_str p", simplified]
  have fv: "field_value 8 (''source: '' @ source @ [nl]) = source" "field_value 6 (''type: '' @ ty @ [nl]) = ty"
    "field_value 10 (''priority: '' @ bus_priority_to_str p @ [nl]) = bus_priority_to_str p"
    using nln \<open>nl \<notin> set (bus_priority_to_str p)\<close>
      field_value_line[of "''source: '' @ source" 8] field_value_line[of "''type: '' @ ty" 6]
      field_value_line[of "''priority: '' @ bus_priority_to_str p" 10] by simp_all
  let ?f1 = "no_fields\<lparr>ef_source := source, has_source := True\<rparr>"
  let ?f2 = "?f1\<lparr>ef_type := ty, has_type := True\<rparr>"
  let ?f3 = "?f2\<lparr>ef_priority := p, has_priority := True\<rparr>"
  have s1: "fields_step ((''source: '' @ source) @ [nl]) no_fields = ?f1"
    using nn cs(1) fv(1) by (simp add: fields_step_def no_fields_def)
  have s2: "fields_step ((''type: '' @ ty) @ [nl]) ?f1 = ?f2"
    using nn cs(2) fv(2) by (simp add: fields_step_def no_fields_def)
  have s3: "fields_step ((''priority: '' @ bus_priority_to_str p) @ [nl]) ?f2 = ?f3"
    using \<open>no_nul (bus_priority_to_str p)\<close> cs(3) fv(3) by (simp add: fields_step_def no_fields_def)
  have nf: "\<not> all_found no_fields" "\<not> all_found ?f1" "\<not> all_found ?f2" "all_found ?f3"
    by (simp_all add: all_found_def no_fields_def)
  have "fields_loop (fgets_all 512 (event_text source ty p stamp payload)) no_fields = ?f3"
    unfolding t chunks by (rule fields_loop_three[OF s1 s2 s3 nf])
  then show ?thesis using nf(4) by (simp add: read_event_fields_def Let_def)
qed

lemma find_dedup_line:
  assumes "fits_line 512 l" "no_nul l"
  shows "find_dedup_key (l @ nl # r)
    = (if take 11 l = ''dedup-key: '' then Some (drop 11 l) else find_dedup_key r)"
proof -
  have l: "nl \<notin> set l" "length l < 511" using assms(1) by (auto simp: fits_line_def)
  have c: "fgets_chunk 511 (l @ nl # r) = (l @ [nl], r)" by (rule fgets_chunk_line[OF l])
  have tk: "take 11 (l @ [nl]) = ''dedup-key: '' \<longleftrightarrow> take 11 l = ''dedup-key: ''"
    by (rule take_line) simp_all
  have fv: "field_value 11 (l @ [nl]) = drop 11 l" if "take 11 l = ''dedup-key: ''"
  proof (rule field_value_line[OF l(1)])
    have "length (take 11 l) = 11" using that by simp
    then show "11 \<le> length l" by simp
  qed
  show ?thesis
    by (subst find_dedup_key.simps)
       (simp add: c cstr_line[OF assms(2)] tk fv Let_def del: take_append)
qed

lemma find_dedup_event_text:
  assumes "event_word source" "event_word ty" "fits_line 512 (''timestamp: '' @ stamp)" "no_nul stamp"
  shows "find_dedup_key (event_text source ty p stamp payload) = Some (source @ '':'' @ ty)"
proof -
  have nn: "no_nul source" "no_nul ty" using assms by (auto simp: event_word_def)
  have np: "no_nul (bus_priority_to_str p)" by (cases p) (simp_all add: no_nul_def)
  note f = event_lines_fit(1,2)[OF assms(1,2)] event_lines_fit(3)[OF assms(1,2), of p] event_lines_fit(4)[OF assms(1,2)]
  have t: "event_text source ty p stamp payload = (''source: '' @ source) @ nl # (''type: '' @ ty) @ nl #
      (''priority: '' @ bus_priority_to_str p) @ nl # (''timestamp: '' @ stamp) @ nl #
      (''dedup-key: '' @ source @ '':'' @ ty) @ nl # (case payload of None \<Rightarrow> []
        | Some t \<Rightarrow> if t = [] then [] else ''payload: |'' @ [nl] @ indent_payload t)"
    by (simp add: event_text_def event_header_def)
  show ?thesis
    unfolding t
    by (subst find_dedup_line[OF f(1)], simp add: nn, subst find_dedup_line[OF f(2)], simp add: nn,
        subst find_dedup_line[OF f(3)], simp add: np, subst find_dedup_line[OF assms(3)], simp add: assms(4),
        subst find_dedup_line[OF f(4)], simp add: nn) simp
qed

end
