(* ===== verification/BusQueue.thy ===== *)
theory BusQueue
  imports BusEvent "HOL-Library.AList"
begin

text \<open>
  The operations of the bus (src/src/nbs-bus/bus.c) on an events directory: scanning, listing,
  reading, acknowledging, pruning, status, configuration, publishing with and without
  deduplication.  A directory is the list of its entries in the order \<open>readdir\<close> gives them.
  Calls that may fail are fields of the environment; what is printed is part of the result.
\<close>

section \<open>Directories\<close>

text \<open>\<open>Subdir\<close> is any entry that is not a regular file.\<close>

datatype node = File string | Subdir

type_synonym dir = "(string \<times> node) list"

record bus =
  pending :: dir
  processed :: "dir option"

abbreviation put_entry :: "string \<Rightarrow> node \<Rightarrow> dir \<Rightarrow> dir" where
  "put_entry \<equiv> AList.update"

abbreviation remove_entry :: "string \<Rightarrow> dir \<Rightarrow> dir" where
  "remove_entry \<equiv> AList.delete"

lemmas dir_simps = update_conv' delete_conv' distinct_update distinct_delete

declare update_conv' [simp] delete_conv' [simp]

lemma update_entries: "e \<in> set (put_entry n x d) \<Longrightarrow> e = (n, x) \<or> e \<in> set d"
  by (induction d) (auto split: if_splits)

lemma keep_entries: "e \<in> set d \<Longrightarrow> fst e \<noteq> n \<Longrightarrow> e \<in> set (put_entry n x d)"
  by (induction d) auto

lemma new_entry: "(n, x) \<in> set (put_entry n x d)"
  by (induction d) auto

lemma delete_entries: "e \<in> set (remove_entry n d) \<longleftrightarrow> e \<in> set d \<and> fst e \<noteq> n"
  by (auto simp: AList.delete_eq)

record bus_env =
  be_isdir :: bool
  be_processed_open :: bool
  be_opendir :: bool
  be_alloc :: "nat \<Rightarrow> bool"
  be_open :: "string \<Rightarrow> bool"
  be_ioerr :: "string \<Rightarrow> bool"
  be_mkdir :: bool
  be_now :: "int option"
  be_scan_now :: "int option"
  be_time :: "string option"
  be_pid :: int
  be_create :: bool
  be_written :: bool
  be_partial :: string
  be_gmtime :: "int \<Rightarrow> string option"
  be_rename :: "string \<Rightarrow> bool"
  be_unlink :: "string \<Rightarrow> bool"
  be_print :: "nat \<Rightarrow> bool"
  be_lock_open :: bool
  be_lock_wait :: bool

text \<open>\<open>snprintf\<close> of the two kinds of paths must not be truncated.\<close>

definition pending_path_ok :: "string \<Rightarrow> string \<Rightarrow> bool" where
  "pending_path_ok events_dir name \<longleftrightarrow> length events_dir + 1 + length name < BUS_MAX_FULLPATH"

definition processed_path_ok :: "string \<Rightarrow> string \<Rightarrow> bool" where
  "processed_path_ok events_dir name \<longleftrightarrow> length events_dir + 11 + length name < BUS_MAX_FULLPATH"

definition processed_dir_ok :: "string \<Rightarrow> bool" where
  "processed_dir_ok events_dir \<longleftrightarrow> length events_dir + 10 < BUS_MAX_FULLPATH"

section \<open>Scanning\<close>

text \<open>An entry up to the parsed timestamp: \<open>None\<close> when the scan skips it.\<close>

definition scan_name :: "string \<Rightarrow> string \<times> node \<Rightarrow> (int \<times> string) option outcome" where
  "scan_name events_dir entry =
     (if \<not> is_event_name (fst entry) then Ret None
      else ASSERT_MSG (pending_path_ok events_dir (fst entry))
       (case snd entry of
          Subdir \<Rightarrow> Ret None
        | File content \<Rightarrow>
            and_then (parse_event_filename_timestamp (fst entry)) (\<lambda>r. Ret (map_option (\<lambda>ts. (ts, content)) r))))"

definition scan_read :: "bus_env \<Rightarrow> string \<Rightarrow> int \<Rightarrow> string \<Rightarrow> bus_event option outcome" where
  "scan_read e name ts content =
     (case (if be_open e name then read_event_fields (be_ioerr e name) content else None) of
        None \<Rightarrow> Ret None
      | Some (p, source, ty) \<Rightarrow>
          ASSERT_MSG (length name < BUS_MAX_FILENAME)
            (Ret (Some \<lparr>ev_filename = name, ev_source = source, ev_type = ty, ev_priority = p, ev_timestamp = ts\<rparr>)))"

definition scan_entry :: "bus_env \<Rightarrow> string \<Rightarrow> string \<times> node \<Rightarrow> bus_event option outcome" where
  "scan_entry e events_dir entry =
     and_then (scan_name events_dir entry) (\<lambda>r. case r of
       None \<Rightarrow> Ret None | Some (ts, content) \<Rightarrow> scan_read e (fst entry) ts content)"

fun scan_loop :: "bus_env \<Rightarrow> string \<Rightarrow> nat \<Rightarrow> dir \<Rightarrow> bus_event list \<Rightarrow> bus_event list outcome" where
  "scan_loop e events_dir max_events [] acc = Ret acc"
| "scan_loop e events_dir max_events (entry # rest) acc =
     (if length acc \<ge> max_events then Ret acc
      else and_then (scan_entry e events_dir entry) (\<lambda>r.
        scan_loop e events_dir max_events rest (case r of None \<Rightarrow> acc | Some ev \<Rightarrow> acc @ [ev])))"

text \<open>\<open>Ret None\<close> is the return value -1 of both scans.\<close>

definition scan_events :: "bus_env \<Rightarrow> string \<Rightarrow> nat \<Rightarrow> dir \<Rightarrow> bus_event list option outcome" where
  "scan_events e events_dir max_events d =
     (if \<not> be_opendir e then Ret None
      else and_then (scan_loop e events_dir max_events d []) (\<lambda>evs. Ret (Some evs)))"

fun dynamic_loop :: "bus_env \<Rightarrow> string \<Rightarrow> nat \<Rightarrow> dir \<Rightarrow> bus_event list \<Rightarrow> bus_event list option outcome" where
  "dynamic_loop e events_dir capacity [] acc = Ret (Some acc)"
| "dynamic_loop e events_dir capacity (entry # rest) acc =
     and_then (scan_name events_dir entry) (\<lambda>r. case r of
       None \<Rightarrow> dynamic_loop e events_dir capacity rest acc
     | Some (ts, content) \<Rightarrow>
         (if length acc \<ge> capacity \<and> \<not> be_alloc e (length acc) then Ret None
          else and_then (scan_read e (fst entry) ts content) (\<lambda>r2.
            dynamic_loop e events_dir (if length acc \<ge> capacity then capacity * 2 else capacity) rest
              (case r2 of None \<Rightarrow> acc | Some ev \<Rightarrow> acc @ [ev]))))"

definition scan_events_dynamic :: "bus_env \<Rightarrow> string \<Rightarrow> dir \<Rightarrow> bus_event list option outcome" where
  "scan_events_dynamic e events_dir d =
     (if \<not> be_opendir e then Ret None
      else if \<not> be_alloc e 0 then Ret None
      else dynamic_loop e events_dir BUS_MAX_EVENTS d [])"

section \<open>Listing and reading\<close>

definition skip_source :: "string option \<Rightarrow> bus_event \<Rightarrow> bool" where
  "skip_source handle ev = (case handle of None \<Rightarrow> False | Some h \<Rightarrow> h \<noteq> [] \<and> ev_source ev \<noteq> h)"

definition event_line :: "string \<Rightarrow> bus_event \<Rightarrow> string" where
  "event_line age ev = ''['' @ bus_priority_to_str (ev_priority ev) @ ''] '' @ ev_filename ev @ '' ('' @ age @ '')''"

fun print_events :: "bus_env \<Rightarrow> int \<Rightarrow> string option \<Rightarrow> bus_event list \<Rightarrow> string list \<Rightarrow> (int \<times> string list) outcome" where
  "print_events e now handle [] out = Ret (0, out)"
| "print_events e now handle (ev # evs) out =
     (if skip_source handle ev then print_events e now handle evs out
      else and_then (format_age (now - ev_timestamp ev) 32) (\<lambda>age.
        if \<not> be_print e (length out) then Ret (-1, out)
        else print_events e now handle evs (out @ [event_line age ev])))"

definition now_us :: "bus_env \<Rightarrow> int outcome" where
  "now_us e = (case be_now e of None \<Rightarrow> Abort | Some t \<Rightarrow> Ret t)"

definition bus_check ::
  "((bus_event \<Rightarrow> bus_event \<Rightarrow> int) \<Rightarrow> bus_event list \<Rightarrow> bus_event list) \<Rightarrow> bus_env \<Rightarrow> string \<Rightarrow> string option \<Rightarrow> bus
   \<Rightarrow> (int \<times> string list) outcome" where
  "bus_check qsort e events_dir handle b =
     (if \<not> be_isdir e then Ret (-1, [])
      else and_then (scan_events_dynamic e events_dir (pending b)) (\<lambda>r. case r of
        None \<Rightarrow> Ret (-1, [])
      | Some evs \<Rightarrow>
          if evs = [] then Ret (0, [])
          else and_then (now_us e) (\<lambda>now. print_events e now handle (qsort event_compare evs) [])))"

text \<open>\<open>fread\<close> and \<open>fwrite\<close> in pieces of 4096 bytes.\<close>

function copy_out :: "bus_env \<Rightarrow> nat \<Rightarrow> string \<Rightarrow> string \<Rightarrow> bool \<times> string" where
  "copy_out e k out s =
     (if s = [] then (True, out)
      else if \<not> be_print e k then (False, out)
      else copy_out e (k + 1) (out @ take 4096 s) (drop 4096 s))"
  by pat_completeness auto
termination by (relation "measure (\<lambda>(e, k, out, s). length s)") auto

declare copy_out.simps [simp del]

definition bus_read :: "bus_env \<Rightarrow> string \<Rightarrow> string \<Rightarrow> bus \<Rightarrow> (int \<times> string) outcome" where
  "bus_read e events_dir event_file b =
     (if \<not> validate_event_filename event_file then Ret (-1, [])
      else ASSERT_MSG (pending_path_ok events_dir event_file)
       (case (if be_open e event_file then map_of (pending b) event_file else None) of
          None \<Rightarrow> Ret (-2, [])
        | Some Subdir \<Rightarrow> Ret (-1, [])
        | Some (File content) \<Rightarrow>
            (case copy_out e 0 [] content of
               (False, out) \<Rightarrow> Ret (-1, out)
             | (True, out) \<Rightarrow> if be_ioerr e event_file then Ret (-1, out) else Ret (0, out))))"

section \<open>Acknowledging\<close>

definition ensure_processed :: "bus_env \<Rightarrow> bus \<Rightarrow> bus option" where
  "ensure_processed e b =
     (case processed b of Some _ \<Rightarrow> Some b
      | None \<Rightarrow> if be_mkdir e then Some (b\<lparr>processed := Some []\<rparr>) else None)"

definition move_to_processed :: "string \<Rightarrow> node \<Rightarrow> bus \<Rightarrow> bus" where
  "move_to_processed name x b =
     b\<lparr>pending := remove_entry name (pending b),
       processed := map_option (put_entry name x) (processed b)\<rparr>"

definition bus_ack :: "bus_env \<Rightarrow> string \<Rightarrow> string \<Rightarrow> bus \<Rightarrow> int outcome \<times> bus" where
  "bus_ack e events_dir event_file b =
     (if \<not> validate_event_filename event_file then (Ret (-1), b)
      else if \<not> pending_path_ok events_dir event_file then (Abort, b)
      else if \<not> processed_path_ok events_dir event_file then (Abort, b)
      else if \<not> processed_dir_ok events_dir then (Abort, b)
      else (case ensure_processed e b of
        None \<Rightarrow> (Ret (-1), b)
      | Some b1 \<Rightarrow>
        (case map_of (pending b1) event_file of
           None \<Rightarrow> (Ret (-2), b1)
         | Some x \<Rightarrow>
             if \<not> be_rename e event_file then (Ret (-1), b1)
             else (Ret 0, move_to_processed event_file x b1))))"

fun ack_loop :: "bus_env \<Rightarrow> string \<Rightarrow> string option \<Rightarrow> bus_event list \<Rightarrow> nat \<Rightarrow> bus \<Rightarrow> nat outcome \<times> bus" where
  "ack_loop e events_dir handle [] acked b = (Ret acked, b)"
| "ack_loop e events_dir handle (ev # evs) acked b =
     (if skip_source handle ev then ack_loop e events_dir handle evs acked b
      else (case bus_ack e events_dir (ev_filename ev) b of
              (Abort, b1) \<Rightarrow> (Abort, b1)
            | (Ret rc, b1) \<Rightarrow> ack_loop e events_dir handle evs (if rc = 0 then acked + 1 else acked) b1))"

text \<open>The result with the number printed.\<close>

definition bus_ack_all :: "bus_env \<Rightarrow> string \<Rightarrow> string option \<Rightarrow> bus \<Rightarrow> (int \<times> nat) outcome \<times> bus" where
  "bus_ack_all e events_dir handle b =
     (if \<not> be_isdir e then (Ret (-1, 0), b)
      else (case scan_events e events_dir BUS_MAX_EVENTS (pending b) of
        Abort \<Rightarrow> (Abort, b)
      | Ret None \<Rightarrow> (Ret (-1, 0), b)
      | Ret (Some evs) \<Rightarrow>
         (case ack_loop e events_dir handle evs 0 b of
            (Abort, b1) \<Rightarrow> (Abort, b1)
          | (Ret acked, b1) \<Rightarrow> (Ret (if be_print e 0 then 0 else -1, acked), b1))))"

end
