(* ===== verification/BusStore.thy ===== *)
theory BusStore
  imports BusQueue
begin

text \<open>
  The rest of the bus (src/src/nbs-bus/bus.c): configuration, publishing with and without
  deduplication, pruning and status.  The configuration file and the dedup lock are entries of
  the events directory, as they are on disk.  \<open>printf\<close>'s rendering of sizes in KB is not
  modelled: the numbers printed are part of the result.
\<close>

section \<open>Configuration\<close>

record bus_config =
  retention_max_bytes :: int
  dedup_window_s :: int
  ack_timeout_s :: int

definition default_config :: bus_config where
  "default_config = \<lparr>retention_max_bytes = 16 * 1024 * 1024, dedup_window_s = 0, ack_timeout_s = 0\<rparr>"

text \<open>A value is accepted when the whole of it is a number in range.\<close>

definition config_number :: "string \<Rightarrow> int option" where
  "config_number val =
     (let r = strtoll val in if \<not> st_erange r \<and> st_end r = [] then Some (st_val r) else None)"

definition config_set :: "string \<Rightarrow> string \<Rightarrow> bus_config \<Rightarrow> bus_config" where
  "config_set key val cfg =
     (if key = ''retention-max-bytes'' then
        (case config_number val of
           Some v \<Rightarrow> if v > 0 then cfg\<lparr>retention_max_bytes := v\<rparr> else cfg | None \<Rightarrow> cfg)
      else if key = ''dedup-window'' then
        (case config_number val of
           Some v \<Rightarrow> if v \<ge> 0 \<and> v \<le> LLONG_MAX div 1000000 then cfg\<lparr>dedup_window_s := v\<rparr> else cfg | None \<Rightarrow> cfg)
      else if key = ''ack-timeout'' then
        (case config_number val of
           Some v \<Rightarrow> if v \<ge> 0 \<and> v \<le> LLONG_MAX div 1000000 then cfg\<lparr>ack_timeout_s := v\<rparr> else cfg | None \<Rightarrow> cfg)
      else cfg)"

definition config_line :: "string \<Rightarrow> bus_config \<Rightarrow> bus_config" where
  "config_line chunk cfg =
     (let line = cstr chunk in
      if take 1 line = ''#'' \<or> take 1 line = [nl] \<or> take 1 line = [cr] then cfg
      else if CHR '':'' \<notin> set line then cfg
      else (let key = rstrip isspace (takeWhile (\<lambda>c. c \<noteq> CHR '':'') line);
                val = rstrip isspace (dropWhile isspace (drop 1 (dropWhile (\<lambda>c. c \<noteq> CHR '':'') line)))
            in if val = [] then cfg else config_set key val cfg))"

text \<open>A directory named \<open>config.yaml\<close> opens but cannot be read.\<close>

definition bus_load_config :: "bus_env \<Rightarrow> string \<Rightarrow> dir \<Rightarrow> (int \<times> bus_config) outcome" where
  "bus_load_config e events_dir d =
     ASSERT_MSG (length events_dir + 12 < BUS_MAX_FULLPATH)
      (case (if be_open e ''config.yaml'' then map_of d ''config.yaml'' else None) of
         None \<Rightarrow> Ret (0, default_config)
       | Some Subdir \<Rightarrow> Ret (-1, default_config)
       | Some (File content) \<Rightarrow>
           Ret (if be_ioerr e ''config.yaml'' then -1 else 0, fold config_line (fgets_all 512 content) default_config))"

section \<open>Publishing\<close>

text \<open>The result of publishing: the return value and the file name printed.\<close>

definition tmp_path_ok :: "string \<Rightarrow> string \<Rightarrow> bool" where
  "tmp_path_ok events_dir name \<longleftrightarrow> length events_dir + 1 + length name < BUS_MAX_FULLPATH"

definition publish_args_ok :: "string \<Rightarrow> string \<Rightarrow> int \<Rightarrow> bool" where
  "publish_args_ok source ty priority \<longleftrightarrow>
     source \<noteq> [] \<and> ty \<noteq> [] \<and> 0 \<le> priority \<and> priority \<le> 3 \<and> \<not> has_whitespace source \<and> \<not> has_whitespace ty"

definition drop_tmp :: "bus_env \<Rightarrow> string \<Rightarrow> bus \<Rightarrow> bus" where
  "drop_tmp e tmp b = (if be_unlink e tmp then b\<lparr>pending := remove_entry tmp (pending b)\<rparr> else b)"

text \<open>
  From the opening of the temporary file on.  A write error leaves \<open>be_partial\<close> in it.  A name
  with a slash names an entry of a directory that does not exist, so the rename fails.
\<close>

definition publish_write :: "bus_env \<Rightarrow> string \<Rightarrow> string \<Rightarrow> string \<Rightarrow> bus \<Rightarrow> (int \<times> string list) \<times> bus" where
  "publish_write e tmp filename text b =
     (if \<not> be_create e then ((-1, []), b)
      else if \<not> be_written e then
        ((-1, []), drop_tmp e tmp (b\<lparr>pending := put_entry tmp (File (be_partial e)) (pending b)\<rparr>))
      else (let b1 = b\<lparr>pending := put_entry tmp (File text) (pending b)\<rparr> in
        if \<not> be_rename e tmp \<or> CHR ''/'' \<in> set filename then ((-1, []), drop_tmp e tmp b1)
        else (let b2 = b\<lparr>pending := put_entry filename (File text) (remove_entry tmp (pending b1))\<rparr> in
          if \<not> be_print e 0 then ((-1, []), b2) else ((0, [filename]), b2))))"

definition bus_publish ::
  "bus_env \<Rightarrow> string \<Rightarrow> string \<Rightarrow> string \<Rightarrow> int \<Rightarrow> string option \<Rightarrow> bus \<Rightarrow> (int \<times> string list) outcome \<times> bus" where
  "bus_publish e events_dir source ty priority payload b =
     (if \<not> publish_args_ok source ty priority then (Abort, b)
      else if \<not> be_isdir e then (Ret (-1, []), b)
      else if \<not> processed_dir_ok events_dir then (Abort, b)
      else (case ensure_processed e b of
        None \<Rightarrow> (Ret (-1, []), b)
      | Some b1 \<Rightarrow>
        (case (be_now e, be_time e, priority_of_int priority) of
           (Some ts, Some iso_time, Some p) \<Rightarrow>
             (let filename = event_filename ts source ty (be_pid e); tmp = tmp_filename ts (be_pid e) in
              if \<not> length filename < BUS_MAX_FILENAME then (Abort, b1)
              else if \<not> tmp_path_ok events_dir tmp then (Abort, b1)
              else if \<not> pending_path_ok events_dir filename then (Abort, b1)
              else (let r = publish_write e tmp filename (event_text source ty p iso_time payload) b1
                    in (Ret (fst r), snd r)))
         | _ \<Rightarrow> (Abort, b1))))"

section \<open>Deduplication\<close>

abbreviation (input) BUS_EXIT_DEDUP :: int where "BUS_EXIT_DEDUP \<equiv> 5"

definition dedup_entry :: "bus_env \<Rightarrow> string \<Rightarrow> int \<Rightarrow> string \<Rightarrow> string \<times> node \<Rightarrow> bool outcome" where
  "dedup_entry e events_dir cutoff_us proposed_key entry =
     (if \<not> is_event_name (fst entry) then Ret False
      else and_then (parse_event_filename_timestamp (fst entry)) (\<lambda>r. case r of
        None \<Rightarrow> Ret False
      | Some ts_us \<Rightarrow>
          if ts_us < cutoff_us then Ret False
          else ASSERT_MSG (pending_path_ok events_dir (fst entry))
            (case snd entry of
               Subdir \<Rightarrow> Ret False
             | File content \<Rightarrow>
                 Ret (be_open e (fst entry)
                      \<and> read_event_dedup_key (be_ioerr e (fst entry)) 258 content = Some proposed_key))))"

fun dedup_scan :: "bus_env \<Rightarrow> string \<Rightarrow> int \<Rightarrow> string \<Rightarrow> dir \<Rightarrow> bool outcome" where
  "dedup_scan e events_dir cutoff_us proposed_key [] = Ret False"
| "dedup_scan e events_dir cutoff_us proposed_key (entry # rest) =
     and_then (dedup_entry e events_dir cutoff_us proposed_key entry) (\<lambda>dup.
       if dup then Ret True else dedup_scan e events_dir cutoff_us proposed_key rest)"

definition with_dedup_lock :: "bus \<Rightarrow> bus" where
  "with_dedup_lock b =
     (if map_of (pending b) ''.dedup.lock'' = None then b\<lparr>pending := pending b @ [(''.dedup.lock'', File [])]\<rparr> else b)"

definition dedup_cutoff :: "int \<Rightarrow> int \<Rightarrow> int" where
  "dedup_cutoff current_us dedup_window_us = (if current_us - dedup_window_us < 0 then 0 else current_us - dedup_window_us)"

definition bus_publish_dedup ::
  "bus_env \<Rightarrow> string \<Rightarrow> string \<Rightarrow> string \<Rightarrow> int \<Rightarrow> string option \<Rightarrow> int \<Rightarrow> bus \<Rightarrow> (int \<times> string list) outcome \<times> bus" where
  "bus_publish_dedup e events_dir source ty priority payload dedup_window_us b =
     (if source = [] \<or> ty = [] \<or> \<not> (0 \<le> priority \<and> priority \<le> 3) \<or> \<not> dedup_window_us > 0 then (Abort, b)
      else (let proposed_key = source @ '':'' @ ty in
       if \<not> length proposed_key < 258 then (Abort, b)
       else if \<not> length events_dir + 12 < BUS_MAX_FULLPATH then (Abort, b)
       else if \<not> be_lock_open e then bus_publish e events_dir source ty priority payload b
       else (let b1 = with_dedup_lock b in
        if \<not> be_lock_wait e then bus_publish e events_dir source ty priority payload b1
        else (case be_scan_now e of
           None \<Rightarrow> (Abort, b1)
         | Some current_us \<Rightarrow>
             if \<not> be_opendir e then bus_publish e events_dir source ty priority payload b1
             else (case dedup_scan e events_dir (dedup_cutoff current_us dedup_window_us) proposed_key (pending b1) of
                     Abort \<Rightarrow> (Abort, b1)
                   | Ret True \<Rightarrow> (Ret (BUS_EXIT_DEDUP, []), b1)
                   | Ret False \<Rightarrow> bus_publish e events_dir source ty priority payload b1)))))"

section \<open>Pruning\<close>

text \<open>The entries found so far with their total size.\<close>

definition prune_scan_entry :: "string \<Rightarrow> string \<times> node \<Rightarrow> prune_entry list \<times> int \<Rightarrow> (prune_entry list \<times> int) outcome" where
  "prune_scan_entry events_dir entry acc =
     (if \<not> is_event_name (fst entry) then Ret acc
      else ASSERT_MSG (processed_path_ok events_dir (fst entry))
       (case snd entry of
          Subdir \<Rightarrow> Ret acc
        | File content \<Rightarrow>
            and_then (parse_event_filename_timestamp (fst entry)) (\<lambda>r. case r of
              None \<Rightarrow> Ret acc
            | Some ts_us \<Rightarrow>
                ASSERT_MSG (length (fst entry) < 256)
                 (ASSERT_MSG (snd acc \<le> LLONG_MAX - int (length content))
                   (Ret (fst acc @ [\<lparr>pe_filename = fst entry, pe_timestamp = ts_us, pe_size = int (length content)\<rparr>],
                         snd acc + int (length content)))))))"

fun prune_scan :: "string \<Rightarrow> dir \<Rightarrow> prune_entry list \<times> int \<Rightarrow> (prune_entry list \<times> int) outcome" where
  "prune_scan events_dir [] acc = Ret acc"
| "prune_scan events_dir (entry # rest) acc =
     (if length (fst acc) \<ge> BUS_MAX_EVENTS then Ret acc
      else and_then (prune_scan_entry events_dir entry acc) (\<lambda>acc1. prune_scan events_dir rest acc1))"

text \<open>What is pruned, what size remains, and the processed directory afterwards.\<close>

fun prune_delete :: "bus_env \<Rightarrow> string \<Rightarrow> int \<Rightarrow> prune_entry list \<Rightarrow> nat \<Rightarrow> int \<Rightarrow> dir \<Rightarrow> (nat \<times> int) outcome \<times> dir" where
  "prune_delete e events_dir max_bytes [] pruned total_size d = (Ret (pruned, total_size), d)"
| "prune_delete e events_dir max_bytes (pe # pes) pruned total_size d =
     (if \<not> total_size > max_bytes then (Ret (pruned, total_size), d)
      else if \<not> processed_path_ok events_dir (pe_filename pe) then (Abort, d)
      else if be_unlink e (pe_filename pe) then
        prune_delete e events_dir max_bytes pes (pruned + 1) (total_size - pe_size pe) (remove_entry (pe_filename pe) d)
      else prune_delete e events_dir max_bytes pes pruned total_size d)"

text \<open>The return value with the number of events pruned and the bytes that remain.\<close>

definition bus_prune ::
  "((prune_entry \<Rightarrow> prune_entry \<Rightarrow> int) \<Rightarrow> prune_entry list \<Rightarrow> prune_entry list) \<Rightarrow> bus_env \<Rightarrow> string \<Rightarrow> int \<Rightarrow> bus
   \<Rightarrow> (int \<times> nat \<times> int) outcome \<times> bus" where
  "bus_prune qsort e events_dir max_bytes b =
     (if \<not> max_bytes > 0 then (Abort, b)
      else if \<not> processed_dir_ok events_dir then (Abort, b)
      else (case processed b of
        None \<Rightarrow> (Ret (if be_print e 0 then 0 else -1, 0, 0), b)
      | Some d \<Rightarrow>
          if \<not> be_processed_open e then (Ret (-1, 0, 0), b)
          else (case prune_scan events_dir d ([], 0) of
            Abort \<Rightarrow> (Abort, b)
          | Ret (entries, total_size) \<Rightarrow>
              if total_size \<le> max_bytes then (Ret (if be_print e 0 then 0 else -1, 0, total_size), b)
              else (case prune_delete e events_dir max_bytes (qsort prune_compare entries) 0 total_size d of
                (Abort, d1) \<Rightarrow> (Abort, b\<lparr>processed := Some d1\<rparr>)
              | (Ret (pruned, remaining), d1) \<Rightarrow>
                  (Ret (if be_print e 0 then 0 else -1, pruned, remaining), b\<lparr>processed := Some d1\<rparr>)))))"

section \<open>Status\<close>

record status_counts =
  sc_critical :: nat
  sc_high :: nat
  sc_normal :: nat
  sc_low :: nat
  sc_oldest :: int

definition no_counts :: status_counts where
  "no_counts = \<lparr>sc_critical = 0, sc_high = 0, sc_normal = 0, sc_low = 0, sc_oldest = 0\<rparr>"

definition count_event :: "bus_event \<Rightarrow> status_counts \<Rightarrow> status_counts" where
  "count_event ev c =
     (let c1 = (case ev_priority ev of
                  Critical \<Rightarrow> c\<lparr>sc_critical := sc_critical c + 1\<rparr>
                | High \<Rightarrow> c\<lparr>sc_high := sc_high c + 1\<rparr>
                | Normal \<Rightarrow> c\<lparr>sc_normal := sc_normal c + 1\<rparr>
                | Low \<Rightarrow> c\<lparr>sc_low := sc_low c + 1\<rparr>)
      in if sc_oldest c1 = 0 \<or> ev_timestamp ev < sc_oldest c1 then c1\<lparr>sc_oldest := ev_timestamp ev\<rparr> else c1)"

definition processed_entry :: "string \<Rightarrow> string \<times> node \<Rightarrow> nat \<times> int \<Rightarrow> (nat \<times> int) outcome" where
  "processed_entry events_dir entry acc =
     (if \<not> is_event_name (fst entry) then Ret acc
      else ASSERT_MSG (processed_path_ok events_dir (fst entry))
       (case snd entry of
          Subdir \<Rightarrow> Ret acc
        | File content \<Rightarrow>
            ASSERT_MSG (snd acc \<le> LLONG_MAX - int (length content))
              (Ret (fst acc + 1, snd acc + int (length content)))))"

fun processed_totals :: "string \<Rightarrow> dir \<Rightarrow> nat \<times> int \<Rightarrow> (nat \<times> int) outcome" where
  "processed_totals events_dir [] acc = Ret acc"
| "processed_totals events_dir (entry # rest) acc =
     and_then (processed_entry events_dir entry acc) (\<lambda>acc1. processed_totals events_dir rest acc1)"

text \<open>The pieces of text printed, in order; printing stops at the first that fails.\<close>

datatype status_line =
    PendingTotal nat
  | ByPriority nat nat nat nat
  | EndLine
  | OldestPending string
  | ProcessedTotal nat int
  | StaleWarning nat int

fun print_lines :: "bus_env \<Rightarrow> status_line list \<Rightarrow> status_line list \<Rightarrow> bool \<times> status_line list" where
  "print_lines e [] out = (True, out)"
| "print_lines e (l # ls) out =
     (if be_print e (length out) then print_lines e ls (out @ [l]) else (False, out))"

definition stale_count :: "int \<Rightarrow> int \<Rightarrow> bus_event list \<Rightarrow> nat" where
  "stale_count current_us timeout_us evs = length (filter (\<lambda>ev. current_us - ev_timestamp ev > timeout_us) evs)"

definition status_summary :: "nat \<Rightarrow> status_counts \<Rightarrow> status_line list" where
  "status_summary n c =
     PendingTotal n
     # (if n > 0 then [ByPriority (sc_critical c) (sc_high c) (sc_normal c) (sc_low c)] else []) @ [EndLine]"

definition status_stale ::
  "bus_env \<Rightarrow> string \<Rightarrow> dir \<Rightarrow> bus_event list \<Rightarrow> status_line list \<Rightarrow> (int \<times> status_line list) outcome" where
  "status_stale e events_dir d evs out =
     and_then (bus_load_config e events_dir d) (\<lambda>(cfg_rc, cfg).
       if cfg_rc \<noteq> 0 then Ret (0, out)
       else if ack_timeout_s cfg > 0 \<and> evs \<noteq> [] then
         ASSERT_MSG (ack_timeout_s cfg \<le> LLONG_MAX div 1000000)
          (and_then (now_us e) (\<lambda>current_us.
            (let stale = stale_count current_us (ack_timeout_s cfg * 1000000) evs in
             if stale > 0 then
               (case print_lines e [StaleWarning stale (ack_timeout_s cfg)] out of
                  (ok, out1) \<Rightarrow> Ret (if ok then 0 else -1, out1))
             else Ret (0, out))))
       else Ret (0, out))"

definition status_report ::
  "bus_env \<Rightarrow> string \<Rightarrow> dir \<Rightarrow> bus_event list \<Rightarrow> nat \<times> int \<Rightarrow> (int \<times> status_line list) outcome" where
  "status_report e events_dir d evs totals =
     (let c = fold count_event evs no_counts in
      case print_lines e (status_summary (length evs) c) [] of
        (False, out) \<Rightarrow> Ret (-1, out)
      | (True, out) \<Rightarrow>
         and_then (if sc_oldest c > 0 then
                     (case be_gmtime e (sc_oldest c div 1000000) of None \<Rightarrow> Abort | Some s \<Rightarrow> Ret [OldestPending s])
                   else Ret [])
          (\<lambda>old. case print_lines e (old @ [ProcessedTotal (fst totals) (snd totals)]) out of
             (False, out1) \<Rightarrow> Ret (-1, out1)
           | (True, out1) \<Rightarrow> status_stale e events_dir d evs out1))"

definition bus_status :: "bus_env \<Rightarrow> string \<Rightarrow> bus \<Rightarrow> (int \<times> status_line list) outcome" where
  "bus_status e events_dir b =
     (if \<not> be_isdir e then Ret (-1, [])
      else and_then (scan_events e events_dir BUS_MAX_EVENTS (pending b)) (\<lambda>r. case r of
        None \<Rightarrow> Ret (-1, [])
      | Some evs \<Rightarrow>
          ASSERT_MSG (processed_dir_ok events_dir)
           (and_then (case processed b of
                        Some d \<Rightarrow> if be_processed_open e then processed_totals events_dir d (0, 0) else Ret (0, 0)
                      | None \<Rightarrow> Ret (0, 0))
             (\<lambda>totals. status_report e events_dir (pending b) evs totals))))"

end
