(* ===== verification/BusScan.thy ===== *)
theory BusScan
  imports BusStore
begin

text \<open>
  What the two directory scans of the bus find: \<open>events_of\<close> is the list of all readable events in
  directory order, the scans are related to it and to each other, and printing and ages are
  evaluated on it.
\<close>

section \<open>The events of a directory\<close>

text \<open>A directory the scans get through without an assertion failing.\<close>

definition clean_name :: "string \<Rightarrow> string \<Rightarrow> bool" where
  "clean_name events_dir name \<longleftrightarrow>
     pending_path_ok events_dir name \<and> length name < BUS_MAX_FILENAME
     \<and> parse_event_filename_timestamp name \<noteq> Abort"

definition clean_dir :: "string \<Rightarrow> dir \<Rightarrow> bool" where
  "clean_dir events_dir d \<longleftrightarrow> (\<forall>entry \<in> set d. is_event_name (fst entry) \<longrightarrow> clean_name events_dir (fst entry))"

fun found :: "bus_event option outcome \<Rightarrow> bus_event option" where
  "found (Ret r) = r"
| "found Abort = None"

definition events_of :: "bus_env \<Rightarrow> string \<Rightarrow> dir \<Rightarrow> bus_event list" where
  "events_of e events_dir d = List.map_filter (\<lambda>entry. found (scan_entry e events_dir entry)) d"

lemma events_of_simps [simp]:
  "events_of e events_dir [] = []"
  "events_of e events_dir (entry # d) =
     (case found (scan_entry e events_dir entry) of None \<Rightarrow> [] | Some ev \<Rightarrow> [ev]) @ events_of e events_dir d"
  "events_of e events_dir (d @ d') = events_of e events_dir d @ events_of e events_dir d'"
  by (simp_all add: events_of_def List.map_filter_def split: option.splits)

lemma found_eq [simp]: "found r = Some ev \<longleftrightarrow> r = Ret (Some ev)"
  by (cases r) simp_all

lemma events_of_iff: "ev \<in> set (events_of e events_dir d) \<longleftrightarrow> (\<exists>entry \<in> set d. scan_entry e events_dir entry = Ret (Some ev))"
proof (induction d)
  case (Cons entry d)
  show ?case
  proof (cases "found (scan_entry e events_dir entry)")
    case None
    then have "scan_entry e events_dir entry \<noteq> Ret (Some ev)" by auto
    then show ?thesis using Cons None by simp
  next
    case (Some x)
    then have "scan_entry e events_dir entry = Ret (Some x)" by simp
    then show ?thesis using Cons by auto
  qed
qed simp

lemma length_events_of: "length (events_of e events_dir d) \<le> length d"
  by (simp add: events_of_def List.map_filter_def)

lemma clean_dir_simps [simp]:
  "clean_dir events_dir []"
  "clean_dir events_dir (entry # d) \<longleftrightarrow> (is_event_name (fst entry) \<longrightarrow> clean_name events_dir (fst entry)) \<and> clean_dir events_dir d"
  "clean_dir events_dir (d @ d') \<longleftrightarrow> clean_dir events_dir d \<and> clean_dir events_dir d'"
  by (auto simp: clean_dir_def)

lemma scan_read_clean: "length name < BUS_MAX_FILENAME \<Longrightarrow> scan_read e name ts content \<noteq> Abort"
  by (simp add: scan_read_def split: option.splits prod.splits)

lemma scan_name_clean: "(is_event_name (fst entry) \<Longrightarrow> clean_name events_dir (fst entry)) \<Longrightarrow> scan_name events_dir entry \<noteq> Abort"
  by (simp add: scan_name_def clean_name_def outcome_simps split: node.splits)

lemma scan_name_event: "scan_name events_dir entry = Ret (Some r) \<Longrightarrow> is_event_name (fst entry)"
  by (simp add: scan_name_def split: if_splits)

lemma scan_entry_clean:
  assumes "is_event_name (fst entry) \<Longrightarrow> clean_name events_dir (fst entry)"
  shows "scan_entry e events_dir entry \<noteq> Abort"
proof (cases "scan_name events_dir entry")
  case Abort
  then show ?thesis using scan_name_clean[OF assms] by simp
next
  case (Ret r)
  show ?thesis
  proof (cases r)
    case (Some x)
    have "length (fst entry) < BUS_MAX_FILENAME"
      using assms scan_name_event[of events_dir entry x] Ret Some by (simp add: clean_name_def)
    then show ?thesis using Ret Some scan_read_clean by (cases x) (simp add: scan_entry_def)
  qed (simp add: scan_entry_def Ret)
qed

lemma scan_entry_found:
  "(is_event_name (fst entry) \<Longrightarrow> clean_name events_dir (fst entry)) \<Longrightarrow>
   scan_entry e events_dir entry = Ret (found (scan_entry e events_dir entry))"
  using scan_entry_clean[of entry events_dir e] by (cases "scan_entry e events_dir entry") simp_all

section \<open>The bounded scan\<close>

lemma scan_loop_take:
  assumes "clean_dir events_dir d" "length acc \<le> m"
  shows "scan_loop e events_dir m d acc = Ret (take m (acc @ events_of e events_dir d))"
  using assms
proof (induction d arbitrary: acc)
  case (Cons entry d)
  have s: "scan_entry e events_dir entry = Ret (found (scan_entry e events_dir entry))"
    using Cons.prems(1) by (intro scan_entry_found) simp
  show ?case
  proof (cases "length acc \<ge> m")
    case True
    then show ?thesis using Cons.prems by simp
  next
    case False
    then show ?thesis
      using Cons by (subst scan_loop.simps, subst s) (auto split: option.splits)
  qed
qed simp

lemma scan_events_take:
  "clean_dir events_dir d \<Longrightarrow> be_opendir e \<Longrightarrow>
   scan_events e events_dir m d = Ret (Some (take m (events_of e events_dir d)))"
  by (simp add: scan_events_def scan_loop_take)

section \<open>The unbounded scan\<close>

text \<open>It agrees with the bounded scan whose bound is never reached, assertion failures included.\<close>

lemma dynamic_is_scan:
  assumes "\<And>n. be_alloc e n" "length acc + length d \<le> m"
  shows "dynamic_loop e events_dir capacity d acc
    = and_then (scan_loop e events_dir m d acc) (\<lambda>evs. Ret (Some evs))"
  using assms(2)
proof (induction d arbitrary: acc capacity)
  case (Cons entry d)
  have m: "\<not> length acc \<ge> m" using Cons.prems by simp
  show ?case
  proof (cases "scan_name events_dir entry")
    case Abort
    then show ?thesis using m by (simp add: scan_entry_def)
  next
    case (Ret r)
    show ?thesis
    proof (cases r)
      case None
      then show ?thesis using Cons Ret m by (simp add: scan_entry_def)
    next
      case (Some x)
      then show ?thesis
        using Cons Ret m assms(1)
        by (cases x; cases "scan_read e (fst entry) (fst x) (snd x)") (simp_all add: scan_entry_def split: option.splits)
    qed
  qed
qed simp

lemma scan_events_dynamic_eq:
  assumes "\<And>n. be_alloc e n" "length d \<le> m"
  shows "scan_events_dynamic e events_dir d = scan_events e events_dir m d"
  using dynamic_is_scan[of e "[]" d m events_dir 256] assms
  by (simp add: scan_events_dynamic_def scan_events_def)

lemma scan_events_dynamic_all:
  assumes "clean_dir events_dir d" "be_opendir e" "\<And>n. be_alloc e n"
  shows "scan_events_dynamic e events_dir d = Ret (Some (events_of e events_dir d))"
proof -
  have "length (events_of e events_dir d) \<le> length d" by (rule length_events_of)
  then show ?thesis
    using scan_events_dynamic_eq[of e d "length d" events_dir] scan_events_take[OF assms(1,2), of "length d"] assms(3)
    by simp
qed

section \<open>What a scanned event looks like\<close>

lemma strtoll_max: "st_val (strtoll s) \<le> LLONG_MAX"
proof -
  obtain s1 where s1: "dropWhile isspace s = s1" by simp
  show ?thesis unfolding strtoll_def Let_def s1 by (cases s1) (simp_all split: list.split prod.split)
qed

lemma parse_timestamp_range: "parse_event_filename_timestamp name = Ret (Some ts) \<Longrightarrow> 0 < ts \<and> ts \<le> LLONG_MAX"
proof -
  assume a: "parse_event_filename_timestamp name = Ret (Some ts)"
  let ?s = "takeWhile (\<lambda>c. c \<noteq> CHR ''-'') name"
  have "ts = st_val (strtoll ?s)" "0 < ts" "\<not> st_erange (strtoll ?s)"
    using a by (auto simp: parse_event_filename_timestamp_def Let_def outcome_simps split: if_splits)
  moreover have "st_val (strtoll ?s) \<le> LLONG_MAX" by (rule strtoll_max)
  ultimately show ?thesis by simp
qed

definition event_fits :: "bus_event \<Rightarrow> bool" where
  "event_fits ev \<longleftrightarrow> length (ev_filename ev) < BUS_MAX_FILENAME \<and> length (ev_source ev) < BUS_MAX_HANDLE
     \<and> length (ev_type ev) < BUS_MAX_TYPE \<and> 0 < ev_timestamp ev \<and> ev_timestamp ev \<le> LLONG_MAX
     \<and> no_nul (ev_source ev) \<and> no_nul (ev_type ev) \<and> nl \<notin> set (ev_source ev) \<and> nl \<notin> set (ev_type ev)"

definition fields_fit :: "event_fields \<Rightarrow> bool" where
  "fields_fit f \<longleftrightarrow> length (ef_source f) < 128 \<and> length (ef_type f) < 128
     \<and> no_nul (ef_source f) \<and> no_nul (ef_type f) \<and> nl \<notin> set (ef_source f) \<and> nl \<notin> set (ef_type f)"

lemma field_value_chars: "nl \<notin> set (take k (field_value n line)) \<and> (no_nul line \<longrightarrow> no_nul (take k (field_value n line)))"
proof -
  have "nl \<notin> set (field_value n line)" by (auto simp: field_value_def dest: set_takeWhileD)
  moreover have "set (field_value n line) \<subseteq> set line"
    by (auto simp: field_value_def dest!: set_takeWhileD in_set_dropD)
  ultimately show ?thesis by (auto simp: no_nul_def dest!: in_set_takeD)
qed

lemma fields_step_fit: "fields_fit f \<Longrightarrow> fields_fit (fields_step chunk f)"
  using field_value_chars[of 127 8 "cstr chunk"] field_value_chars[of 127 6 "cstr chunk"]
  by (simp add: fields_step_def fields_fit_def Let_def min_less_iff_disj)

lemma fields_loop_fit: "fields_fit f \<Longrightarrow> fields_fit (fields_loop cs f)"
  by (induction cs f rule: fields_loop.induct) (simp_all add: fields_step_fit)

lemma read_event_fields_fit:
  "read_event_fields err content = Some (p, source, ty) \<Longrightarrow>
   length source < 128 \<and> length ty < 128 \<and> no_nul source \<and> no_nul ty \<and> nl \<notin> set source \<and> nl \<notin> set ty"
  using fields_loop_fit[of no_fields "fgets_all 512 content"]
  by (auto simp: read_event_fields_def Let_def fields_fit_def no_fields_def split: if_splits)

lemma scan_entry_fits:
  assumes "scan_entry e events_dir entry = Ret (Some ev)"
  shows "event_fits ev" "ev_filename ev = fst entry" "is_event_name (fst entry)"
proof -
  obtain ts content where n: "scan_name events_dir entry = Ret (Some (ts, content))"
      and r: "scan_read e (fst entry) ts content = Ret (Some ev)"
    using assms by (auto simp: scan_entry_def outcome_simps split: option.splits)
  have ts: "parse_event_filename_timestamp (fst entry) = Ret (Some ts)"
    using n by (auto simp: scan_name_def outcome_simps split: if_splits node.splits)
  obtain p source ty where f: "read_event_fields (be_ioerr e (fst entry)) content = Some (p, source, ty)"
      and ev: "ev = \<lparr>ev_filename = fst entry, ev_source = source, ev_type = ty, ev_priority = p, ev_timestamp = ts\<rparr>"
      and l: "length (fst entry) < BUS_MAX_FILENAME"
    using r by (auto simp: scan_read_def outcome_simps split: option.splits if_splits prod.splits)
  show "event_fits ev" using read_event_fields_fit[OF f] parse_timestamp_range[OF ts] l by (simp add: ev event_fits_def)
  show "ev_filename ev = fst entry" by (simp add: ev)
  show "is_event_name (fst entry)" using scan_name_event[OF n] .
qed

lemma events_of_fit: "ev \<in> set (events_of e events_dir d) \<Longrightarrow> event_fits ev"
  using scan_entry_fits(1) unfolding events_of_iff by blast

section \<open>Ages and printing\<close>

lemma dec_short: "0 \<le> n \<Longrightarrow> n < 10 ^ 18 \<Longrightarrow> length (dec n) \<le> 18"
  using length_dec_bound[of n 18] by simp

lemma age_seconds:
  "d \<le> LLONG_MAX \<Longrightarrow> s = (if d < 0 then - ((- d) div 1000000) else d div 1000000) \<Longrightarrow>
   t = (if s < 0 then 0 else s) \<Longrightarrow> 0 \<le> t \<and> t \<le> 9223372036854"
  by auto

lemma format_age_ok:
  assumes "d \<le> LLONG_MAX"
  shows "\<exists>s. format_age d 32 = Ret s"
proof -
  define s where "s = (if d < 0 then - ((- d) div 1000000) else d div 1000000)"
  define t where "t = (if s < 0 then 0 else s)"
  have t: "0 \<le> t" "t \<le> 9223372036854" using age_seconds[OF assms s_def t_def] by simp_all
  have l: "length (dec (t div k)) \<le> 18" if "0 < k" for k
  proof (rule dec_short)
    show "0 \<le> t div k" using t(1) that by (simp add: pos_imp_zdiv_nonneg_iff)
    have "t div k \<le> t" using zdiv_mono2[of t 1 k] t(1) that by simp
    then show "t div k < 10 ^ 18" using t(2) by simp
  qed
  show ?thesis
    unfolding format_age_def s_def[symmetric] Let_def t_def[symmetric]
    using l[of 1] l[of 60] l[of 3600] l[of 86400] by simp
qed

definition age_line :: "int \<Rightarrow> bus_event \<Rightarrow> string" where
  "age_line now ev = (case format_age (now - ev_timestamp ev) 32 of Ret a \<Rightarrow> event_line a ev | Abort \<Rightarrow> [])"

lemma print_events_all:
  assumes "\<And>k. be_print e k" "now \<le> LLONG_MAX" "\<And>ev. ev \<in> set evs \<Longrightarrow> 0 < ev_timestamp ev"
  shows "print_events e now handle evs out = Ret (0, out @ map (age_line now) (filter (\<lambda>ev. \<not> skip_source handle ev) evs))"
  using assms(3)
proof (induction evs arbitrary: out)
  case (Cons ev evs)
  have "now - ev_timestamp ev \<le> LLONG_MAX" using assms(2) Cons.prems[of ev] by simp
  then obtain a where "format_age (now - ev_timestamp ev) 32 = Ret a" using format_age_ok by blast
  then show ?case using Cons assms(1) by (simp add: age_line_def)
qed simp

end
