(* ===== verification/BusLaws.thy ===== *)
theory BusLaws
  imports BusScan
begin

text \<open>
  How each operation of the bus changes the events directory: the outcomes of publishing (with
  and without deduplication), of acknowledging and of pruning, and the locale \<open>item_store\<close>,
  the contract that no operation but pruning loses an event.
\<close>

section \<open>Names the scans ignore\<close>

lemma found_unlisted: "parse_event_filename_timestamp n = Ret None \<Longrightarrow> found (scan_entry e events_dir (n, y)) = None"
  by (cases "pending_path_ok events_dir n"; cases y) (simp_all add: scan_entry_def scan_name_def ASSERT_MSG_def)

lemma scan_unlisted: "parse_event_filename_timestamp n = Ret None \<Longrightarrow> scan_entry e events_dir (n, y) \<noteq> Ret (Some ev)"
  using found_unlisted[of n e events_dir y] by auto

lemma update_fresh: "n \<notin> fst ` set d \<Longrightarrow> put_entry n x d = d @ [(n, x)]"
  by (induction d) auto

lemma events_of_put_unlisted:
  "parse_event_filename_timestamp n = Ret None \<Longrightarrow> events_of e events_dir (put_entry n x d) = events_of e events_dir d"
  by (induction d) (auto simp: found_unlisted scan_unlisted split: option.splits)

lemma events_of_remove_unlisted:
  "parse_event_filename_timestamp n = Ret None \<Longrightarrow> events_of e events_dir (remove_entry n d) = events_of e events_dir d"
  by (induction d) (auto simp: found_unlisted scan_unlisted split: option.splits)

lemmas unlisted_simps = events_of_put_unlisted events_of_remove_unlisted found_unlisted

section \<open>Publishing\<close>

text \<open>At most the processed directory is made.\<close>

definition same_or_mkdir :: "bus \<Rightarrow> bus \<Rightarrow> bool" where
  "same_or_mkdir b b1 \<longleftrightarrow> pending b1 = pending b
     \<and> (processed b1 = processed b \<or> processed b = None \<and> processed b1 = Some [])"

lemma same_or_mkdir_refl [simp]: "same_or_mkdir b b"
  by (simp add: same_or_mkdir_def)

lemma ensure_processed_same: "ensure_processed e b = Some b1 \<Longrightarrow> same_or_mkdir b b1"
  by (auto simp: ensure_processed_def same_or_mkdir_def split: option.splits if_splits)

text \<open>What a publish that fails may leave: its temporary file.\<close>

definition tmp_left :: "string \<Rightarrow> dir \<Rightarrow> dir \<Rightarrow> bool" where
  "tmp_left tmp d d' \<longleftrightarrow> d' = d \<or> (\<exists>x. d' = put_entry tmp x d \<or> d' = remove_entry tmp (put_entry tmp x d))"

definition renamed :: "string \<Rightarrow> string \<Rightarrow> string \<Rightarrow> dir \<Rightarrow> dir" where
  "renamed tmp name text d = put_entry name (File text) (remove_entry tmp (put_entry tmp (File text) d))"

lemma publish_write_cases:
  obtains (failed) d where "publish_write e tmp filename text b = ((-1, []), b\<lparr>pending := d\<rparr>)" "tmp_left tmp (pending b) d"
  | (written) "publish_write e tmp filename text b
        = ((if be_print e 0 then (0, [filename]) else (-1, [])), b\<lparr>pending := renamed tmp filename text (pending b)\<rparr>)"
      "be_create e" "be_written e" "be_rename e tmp" "CHR ''/'' \<notin> set filename"
proof (cases "be_create e \<and> be_written e \<and> be_rename e tmp \<and> CHR ''/'' \<notin> set filename")
  case True
  then show ?thesis by (intro written) (simp_all add: publish_write_def renamed_def Let_def)
next
  case False
  have "\<exists>d. publish_write e tmp filename text b = ((-1, []), b\<lparr>pending := d\<rparr>) \<and> tmp_left tmp (pending b) d"
  proof (cases "be_create e")
    case False
    then show ?thesis by (intro exI[of _ "pending b"]) (simp add: publish_write_def tmp_left_def)
  next
    case True
    define x where "x = (if be_written e then File text else File (be_partial e))"
    define d where "d = (if be_unlink e tmp then remove_entry tmp (put_entry tmp x (pending b)) else put_entry tmp x (pending b))"
    have "publish_write e tmp filename text b = ((-1, []), b\<lparr>pending := d\<rparr>)"
      using True False by (auto simp: publish_write_def drop_tmp_def d_def x_def Let_def)
    moreover have "tmp_left tmp (pending b) d" by (auto simp: tmp_left_def d_def)
    ultimately show ?thesis by blast
  qed
  then show ?thesis using failed by blast
qed

lemma bus_publish_cases:
  obtains (failed) r b1 ts d where "bus_publish e events_dir source ty priority payload b = (r, b1\<lparr>pending := d\<rparr>)"
      "r = Abort \<or> r = Ret (-1, [])" "same_or_mkdir b b1" "tmp_left (tmp_filename ts (be_pid e)) (pending b) d" "d = pending b \<or> be_now e = Some ts"
  | (published) b1 ts iso_time p where
      "bus_publish e events_dir source ty priority payload b
        = (Ret (if be_print e 0 then (0, [event_filename ts source ty (be_pid e)]) else (-1, [])),
           b1\<lparr>pending := renamed (tmp_filename ts (be_pid e)) (event_filename ts source ty (be_pid e))
                        (event_text source ty p iso_time payload) (pending b)\<rparr>)"
      "same_or_mkdir b b1" "be_now e = Some ts" "be_time e = Some iso_time" "priority_of_int priority = Some p"
      "length (event_filename ts source ty (be_pid e)) < BUS_MAX_FILENAME"
      "pending_path_ok events_dir (event_filename ts source ty (be_pid e))"
      "CHR ''/'' \<notin> set (event_filename ts source ty (be_pid e))"
      "publish_args_ok source ty priority"
proof -
  let ?p = "bus_publish e events_dir source ty priority payload b"
  have triv: thesis if "?p = (r, b1)" "r = Abort \<or> r = Ret (-1, [])" "same_or_mkdir b b1" for r b1
    using that by (intro failed[where r = r and d = "pending b" and ?b1.0 = b1]) (simp_all add: tmp_left_def same_or_mkdir_def)
  show thesis
  proof (cases "publish_args_ok source ty priority \<and> be_isdir e \<and> processed_dir_ok events_dir")
    case False
    then have "?p = (Abort, b) \<or> ?p = (Ret (-1, []), b)" by (auto simp: bus_publish_def)
    then show thesis using triv[of _ b] by auto
  next
    case args: True
    show thesis
    proof (cases "ensure_processed e b")
      case None
      then show thesis using args triv[of "Ret (-1, [])" b] by (simp add: bus_publish_def)
    next
      case (Some b1)
      have b1: "same_or_mkdir b b1" by (rule ensure_processed_same[OF Some])
      then have pend: "pending b1 = pending b" by (simp add: same_or_mkdir_def)
      show thesis
      proof (cases "be_now e = None \<or> be_time e = None \<or> priority_of_int priority = None")
        case True
        then show thesis using args Some b1 triv[of Abort b1] by (auto simp: bus_publish_def split: option.splits)
      next
        case False
        then obtain ts iso_time p where env: "be_now e = Some ts" "be_time e = Some iso_time" "priority_of_int priority = Some p"
          by auto
        let ?f = "event_filename ts source ty (be_pid e)" and ?t = "tmp_filename ts (be_pid e)"
        show thesis
        proof (cases "length ?f < BUS_MAX_FILENAME \<and> tmp_path_ok events_dir ?t \<and> pending_path_ok events_dir ?f")
          case False
          then have "?p = (Abort, b1)" using args Some env by (auto simp: bus_publish_def Let_def)
          then show thesis using b1 triv[of Abort b1] by simp
        next
          case True
          then have eq: "?p = (Ret (fst r), snd r)" if "publish_write e ?t ?f (event_text source ty p iso_time payload) b1 = r" for r
            using args Some env that by (simp add: bus_publish_def Let_def)
          show thesis
          proof (cases rule: publish_write_cases[of e ?t ?f "event_text source ty p iso_time payload" b1])
            case (failed d)
            have "?p = (Ret (-1, []), b1\<lparr>pending := d\<rparr>)" using eq[OF failed(1)] by simp
            moreover have "tmp_left ?t (pending b) d" using failed(2) by (simp add: pend)
            ultimately show thesis using that(1)[of "Ret (-1, [])"] b1 env(1) by blast
          next
            case written
            show thesis
              by (rule that(2)[OF _ b1 env]) (use eq[OF written(1)] True args written(5) in \<open>simp_all add: pend\<close>)
          qed
        qed
      qed
    qed
  qed
qed

lemma event_filename_not_tmp:
  assumes "0 < ts" "ts \<le> LLONG_MAX"
  shows "event_filename ts source ty pid \<noteq> tmp_filename ts' pid'"
  using parse_event_filename[OF assms, of source ty pid] parse_tmp_filename[of ts' pid'] by auto

lemma map_of_renamed: "map_of (renamed tmp name text d) = (map_of d)(tmp := None, name \<mapsto> File text)"
  by (simp add: renamed_def)

lemma tmp_left_events:
  "tmp_left (tmp_filename ts pid) d d' \<Longrightarrow> events_of e events_dir d' = events_of e events_dir d"
  by (auto simp: tmp_left_def parse_tmp_filename unlisted_simps)

lemma tmp_left_other: "tmp_left tmp d d' \<Longrightarrow> n \<noteq> tmp \<Longrightarrow> map_of d' n = map_of d n"
  by (auto simp: tmp_left_def)

lemma renamed_events:
  assumes "name \<notin> fst ` set d" "name \<noteq> tmp_filename ts pid"
  shows "events_of e events_dir (renamed (tmp_filename ts pid) name text d)
    = events_of e events_dir d @ events_of e events_dir [(name, File text)]"
proof -
  let ?t = "tmp_filename ts pid"
  let ?d = "remove_entry ?t (put_entry ?t (File text) d)"
  have "name \<notin> fst ` set ?d"
  proof
    assume "name \<in> fst ` set ?d"
    then obtain x where "(name, x) \<in> set (put_entry ?t (File text) d)" by (auto simp: delete_entries)
    then show False using update_entries[of "(name, x)" ?t "File text" d] assms by (auto intro: rev_image_eqI)
  qed
  then show ?thesis
    unfolding renamed_def update_fresh[OF \<open>name \<notin> fst ` set ?d\<close>] events_of_simps(3)
    by (simp add: parse_tmp_filename unlisted_simps)
qed

text \<open>A reader that can open the file finds exactly the published event.\<close>

lemma scan_published:
  assumes "event_word source" "event_word ty" "0 < ts" "ts \<le> LLONG_MAX"
    and "pending_path_ok events_dir f" "length f < BUS_MAX_FILENAME" "f = event_filename ts source ty pid"
    and "be_open e f" "\<not> be_ioerr e f"
  shows "scan_entry e events_dir (f, File (event_text source ty p stamp payload))
    = Ret (Some \<lparr>ev_filename = f, ev_source = source, ev_type = ty, ev_priority = p, ev_timestamp = ts\<rparr>)"
  using assms read_event_text[OF assms(1,2), of p stamp payload]
    parse_event_filename[OF assms(3,4), of source ty pid] event_filename_is_event[of ts source ty pid]
  by (simp add: scan_entry_def scan_name_def scan_read_def)

section \<open>Deduplication\<close>

lemma dedup_entry_clean:
  "(is_event_name (fst entry) \<Longrightarrow> clean_name events_dir (fst entry)) \<Longrightarrow> dedup_entry e events_dir cutoff key entry \<noteq> Abort"
  by (auto simp: dedup_entry_def clean_name_def outcome_simps split: option.splits node.splits)

lemma dedup_scan_clean:
  "clean_dir events_dir d \<Longrightarrow>
   dedup_scan e events_dir cutoff key d = Ret (\<exists>entry \<in> set d. dedup_entry e events_dir cutoff key entry = Ret True)"
proof (induction d)
  case (Cons entry d)
  have "dedup_entry e events_dir cutoff key entry \<noteq> Abort" using Cons.prems by (intro dedup_entry_clean) simp
  then obtain dup where "dedup_entry e events_dir cutoff key entry = Ret dup" by (cases "dedup_entry e events_dir cutoff key entry") simp_all
  then show ?case using Cons by (cases dup) simp_all
qed simp

lemma dedup_entry_published:
  assumes "event_word source" "event_word ty" "0 < ts" "ts \<le> LLONG_MAX" "cutoff \<le> ts"
    and "fits_line 512 (''timestamp: '' @ stamp)" "no_nul stamp"
    and "pending_path_ok events_dir f" "f = event_filename ts source ty pid" "be_open e f" "\<not> be_ioerr e f"
  shows "dedup_entry e events_dir cutoff (source @ '':'' @ ty) (f, File (event_text source ty p stamp payload)) = Ret True"
proof -
  have "length (source @ '':'' @ ty) \<le> 257" using assms(1,2) by (simp add: event_word_def)
  then have "read_event_dedup_key False 258 (event_text source ty p stamp payload) = Some (source @ '':'' @ ty)"
    using find_dedup_event_text[OF assms(1,2,6,7), of p payload] by (simp add: read_event_dedup_key_def)
  then show ?thesis
    using assms parse_event_filename[OF assms(3,4), of source ty pid] event_filename_is_event[of ts source ty pid]
    by (simp add: dedup_entry_def)
qed

lemma with_dedup_lock_pending:
  "pending (with_dedup_lock b) = pending b \<or> pending (with_dedup_lock b) = pending b @ [(''.dedup.lock'', File [])]"
  by (simp add: with_dedup_lock_def)

lemma with_dedup_lock_simps [simp]:
  "processed (with_dedup_lock b) = processed b"
  "n \<noteq> ''.dedup.lock'' \<Longrightarrow> map_of (pending (with_dedup_lock b)) n = map_of (pending b) n"
  "events_of e events_dir (pending (with_dedup_lock b)) = events_of e events_dir (pending b)"
  "clean_dir events_dir (pending (with_dedup_lock b)) \<longleftrightarrow> clean_dir events_dir (pending b)"
proof -
  have n: "\<not> is_event_name ''.dedup.lock''" by (simp add: is_event_name_def)
  then show "clean_dir events_dir (pending (with_dedup_lock b)) \<longleftrightarrow> clean_dir events_dir (pending b)"
    by (simp add: with_dedup_lock_def)
  show "events_of e events_dir (pending (with_dedup_lock b)) = events_of e events_dir (pending b)"
    using n by (simp add: with_dedup_lock_def scan_entry_def scan_name_def)
qed (auto simp: with_dedup_lock_def map_add_def split: option.split)

text \<open>Apart from the drop, deduplication is publishing, with or without the lock file.\<close>

lemma bus_publish_dedup_cases:
  obtains (stopped) b1 where "bus_publish_dedup e events_dir source ty priority payload window b = (Abort, b1)"
      "b1 = b \<or> b1 = with_dedup_lock b"
  | (dropped) now where "bus_publish_dedup e events_dir source ty priority payload window b = (Ret (BUS_EXIT_DEDUP, []), with_dedup_lock b)"
      "be_scan_now e = Some now"
      "dedup_scan e events_dir (dedup_cutoff now window) (source @ '':'' @ ty) (pending (with_dedup_lock b)) = Ret True"
  | (passed) b1 where "bus_publish_dedup e events_dir source ty priority payload window b
        = bus_publish e events_dir source ty priority payload b1" "b1 = b \<or> b1 = with_dedup_lock b"
proof -
  let ?p = "bus_publish_dedup e events_dir source ty priority payload window b" and ?b = "with_dedup_lock b"
  show thesis
  proof (cases "source = [] \<or> ty = [] \<or> \<not> (0 \<le> priority \<and> priority \<le> 3) \<or> \<not> window > 0
      \<or> \<not> length (source @ '':'' @ ty) < 258 \<or> \<not> length events_dir + 12 < BUS_MAX_FULLPATH")
    case True
    then have "?p = (Abort, b)" by (auto simp: bus_publish_dedup_def Let_def)
    then show thesis using stopped by blast
  next
    case args: False
    show thesis
    proof (cases "be_lock_open e \<and> be_lock_wait e")
      case False
      then have "?p = bus_publish e events_dir source ty priority payload (if be_lock_open e then ?b else b)"
        using args by (auto simp: bus_publish_dedup_def Let_def)
      then show thesis using passed by (cases "be_lock_open e") simp_all
    next
      case locked: True
      show thesis
      proof (cases "be_scan_now e")
        case None
        then have "?p = (Abort, ?b)" using args locked by (simp add: bus_publish_dedup_def Let_def)
        then show thesis using stopped by blast
      next
        case (Some now)
        let ?s = "dedup_scan e events_dir (dedup_cutoff now window) (source @ '':'' @ ty) (pending ?b)"
        have eq: "?p = (if \<not> be_opendir e then bus_publish e events_dir source ty priority payload ?b
            else case ?s of Abort \<Rightarrow> (Abort, ?b) | Ret True \<Rightarrow> (Ret (BUS_EXIT_DEDUP, []), ?b)
               | Ret False \<Rightarrow> bus_publish e events_dir source ty priority payload ?b)"
          using args locked Some by (simp add: bus_publish_dedup_def Let_def)
        show thesis
        proof (cases "be_opendir e")
          case False
          then show thesis using eq passed by simp
        next
          case True
          then show thesis using eq stopped passed dropped[OF _ Some] by (cases ?s) (auto split: bool.splits)
        qed
      qed
    qed
  qed
qed

section \<open>Acknowledging\<close>

definition done_map :: "bus \<Rightarrow> string \<Rightarrow> node option" where
  "done_map b = (case processed b of None \<Rightarrow> Map.empty | Some d \<Rightarrow> map_of d)"

lemma same_or_mkdir_maps: "same_or_mkdir b b1 \<Longrightarrow> pending b1 = pending b \<and> done_map b1 = done_map b"
  by (auto simp: same_or_mkdir_def done_map_def)

lemma bus_ack_cases:
  obtains (kept) r b1 where "bus_ack e events_dir f b = (r, b1)" "r = Abort \<or> r = Ret (-1) \<or> r = Ret (-2)" "same_or_mkdir b b1"
      "r = Ret (-2) \<Longrightarrow> map_of (pending b) f = None"
  | (moved) b1 x d where "bus_ack e events_dir f b = (Ret 0, move_to_processed f x b1)" "same_or_mkdir b b1"
      "map_of (pending b) f = Some x" "processed b1 = Some d" "validate_event_filename f"
proof -
  let ?p = "bus_ack e events_dir f b"
  show thesis
  proof (cases "validate_event_filename f \<and> pending_path_ok events_dir f \<and> processed_path_ok events_dir f \<and> processed_dir_ok events_dir")
    case False
    then have "?p = (Ret (-1), b) \<or> ?p = (Abort, b)" by (auto simp: bus_ack_def)
    then show thesis using kept[of _ b] by auto
  next
    case args: True
    show thesis
    proof (cases "ensure_processed e b")
      case None
      then show thesis using args kept[of "Ret (-1)" b] by (simp add: bus_ack_def)
    next
      case (Some b1)
      have b1: "same_or_mkdir b b1" by (rule ensure_processed_same[OF Some])
      then have pend: "pending b1 = pending b" by (simp add: same_or_mkdir_def)
      obtain d where d: "processed b1 = Some d"
        using Some by (auto simp: ensure_processed_def split: option.splits if_splits)
      show thesis
      proof (cases "map_of (pending b) f")
        case None
        then have "?p = (Ret (-2), b1)" using args Some pend by (simp add: bus_ack_def)
        then show thesis using kept[of "Ret (-2)" b1] b1 None by simp
      next
        case x: (Some x)
        then show thesis
          using args Some pend b1 d kept[of "Ret (-1)" b1] moved[of x b1 d]
          by (cases "be_rename e f") (simp_all add: bus_ack_def)
      qed
    qed
  qed
qed

lemma move_to_processed_maps:
  assumes "processed b = Some d"
  shows "map_of (pending (move_to_processed f x b)) = (map_of (pending b))(f := None)"
    and "done_map (move_to_processed f x b) = (done_map b)(f \<mapsto> x)"
  using assms by (simp_all add: move_to_processed_def done_map_def)

text \<open>An environment in which no system call of acknowledging fails.\<close>

definition ack_good :: "bus_env \<Rightarrow> string \<Rightarrow> string \<Rightarrow> bool" where
  "ack_good e events_dir f \<longleftrightarrow> be_mkdir e \<and> be_rename e f \<and> validate_event_filename f
     \<and> pending_path_ok events_dir f \<and> processed_path_ok events_dir f \<and> processed_dir_ok events_dir"

lemma bus_ack_good:
  assumes "ack_good e events_dir f" "map_of (pending b) f = Some x"
  shows "\<exists>b'. bus_ack e events_dir f b = (Ret 0, b') \<and> map_of (pending b') = (map_of (pending b))(f := None)
    \<and> done_map b' = (done_map b)(f \<mapsto> x)"
proof -
  obtain b1 d where b1: "ensure_processed e b = Some b1" "processed b1 = Some d"
    using assms(1) by (cases "processed b") (simp_all add: ensure_processed_def ack_good_def)
  note same = same_or_mkdir_maps[OF ensure_processed_same[OF b1(1)]]
  have "bus_ack e events_dir f b = (Ret 0, move_to_processed f x b1)"
    using assms b1 same by (simp add: bus_ack_def ack_good_def)
  then show ?thesis using move_to_processed_maps[OF b1(2)] same by simp
qed

lemma ack_loop_good:
  assumes "\<And>ev. ev \<in> set evs \<Longrightarrow> \<not> skip_source handle ev \<Longrightarrow>
      ack_good e events_dir (ev_filename ev) \<and> ev_filename ev \<in> dom (map_of (pending b))"
    and "distinct (map ev_filename evs)"
  shows "\<exists>b'. ack_loop e events_dir handle evs acked b = (Ret (acked + length (filter (\<lambda>ev. \<not> skip_source handle ev) evs)), b')
    \<and> map_of (pending b') = map_of (pending b) |` (- (ev_filename ` set (filter (\<lambda>ev. \<not> skip_source handle ev) evs)))
    \<and> done_map b' = done_map b ++ (map_of (pending b) |` (ev_filename ` set (filter (\<lambda>ev. \<not> skip_source handle ev) evs)))"
  using assms
proof (induction evs arbitrary: acked b)
  case (Cons ev evs)
  show ?case
  proof (cases "skip_source handle ev")
    case True
    then show ?thesis using Cons.IH[of b acked] Cons.prems by simp
  next
    case False
    let ?f = "ev_filename ev" and ?N = "ev_filename ` set (filter (\<lambda>ev. \<not> skip_source handle ev) evs)"
    obtain x where x: "map_of (pending b) ?f = Some x" and g: "ack_good e events_dir ?f"
      using Cons.prems(1)[of ev] False by auto
    obtain b1 where b1: "bus_ack e events_dir ?f b = (Ret 0, b1)" "map_of (pending b1) = (map_of (pending b))(?f := None)"
        "done_map b1 = (done_map b)(?f \<mapsto> x)"
      using bus_ack_good[OF g x] by blast
    have nf: "?f \<notin> ?N" using Cons.prems(2) by auto
    have "\<exists>b'. ack_loop e events_dir handle evs (acked + 1) b1 = (Ret (acked + 1 + length (filter (\<lambda>ev. \<not> skip_source handle ev) evs)), b')
      \<and> map_of (pending b') = map_of (pending b1) |` (- ?N) \<and> done_map b' = done_map b1 ++ (map_of (pending b1) |` ?N)"
    proof (rule Cons.IH)
      show "ack_good e events_dir (ev_filename y) \<and> ev_filename y \<in> dom (map_of (pending b1))"
        if y: "y \<in> set evs" "\<not> skip_source handle y" for y
      proof -
        have "ev_filename y \<noteq> ?f" using y(1) Cons.prems(2) by (auto simp: image_iff)
        then show ?thesis using Cons.prems(1)[of y] y b1(2) by simp
      qed
    qed (use Cons.prems(2) in simp)
    then obtain b' where b': "ack_loop e events_dir handle evs (acked + 1) b1 = (Ret (acked + 1 + length (filter (\<lambda>ev. \<not> skip_source handle ev) evs)), b')"
        "map_of (pending b') = map_of (pending b1) |` (- ?N)" "done_map b' = done_map b1 ++ (map_of (pending b1) |` ?N)" by blast
    have "map_of (pending b') = map_of (pending b) |` (- insert ?f ?N)"
      by (rule ext) (simp add: b'(2) b1(2) restrict_map_def)
    moreover have "done_map b' = done_map b ++ (map_of (pending b) |` insert ?f ?N)"
      by (rule ext) (use x nf in \<open>simp add: b'(3) b1(2,3) restrict_map_def map_add_def split: option.splits\<close>)
    ultimately show ?thesis using False b1(1) b'(1) by simp
  qed
qed (simp add: restrict_map_def)

section \<open>Configuration\<close>

text \<open>Every window converted to microseconds stays within a \<open>long long\<close>.\<close>

definition config_ok :: "bus_config \<Rightarrow> bool" where
  "config_ok cfg \<longleftrightarrow> 0 < retention_max_bytes cfg \<and> retention_max_bytes cfg \<le> LLONG_MAX
     \<and> 0 \<le> dedup_window_s cfg \<and> dedup_window_s cfg * 1000000 \<le> LLONG_MAX
     \<and> 0 \<le> ack_timeout_s cfg \<and> ack_timeout_s cfg * 1000000 \<le> LLONG_MAX"

lemma config_number_max: "config_number val = Some v \<Longrightarrow> v \<le> LLONG_MAX"
  using strtoll_max[of val] by (auto simp: config_number_def Let_def split: if_splits)

lemma config_set_ok: "config_ok cfg \<Longrightarrow> config_ok (config_set key val cfg)"
  using config_number_max[of val] by (auto simp: config_set_def config_ok_def split: option.splits)

lemma config_line_ok: "config_ok cfg \<Longrightarrow> config_ok (config_line chunk cfg)"
  by (simp add: config_line_def Let_def config_set_ok)

lemma config_lines_ok: "config_ok cfg \<Longrightarrow> config_ok (fold config_line cs cfg)"
  by (induction cs arbitrary: cfg) (simp_all add: config_line_ok)

lemma default_config_ok: "config_ok default_config"
  by (simp add: default_config_def config_ok_def)

lemma bus_load_config_ok: "bus_load_config e events_dir d = Ret (rc, cfg) \<Longrightarrow> config_ok cfg"
  using default_config_ok config_lines_ok[OF default_config_ok]
  by (auto simp: bus_load_config_def outcome_simps split: option.splits node.splits if_splits)

section \<open>Status\<close>

definition counts_total :: "status_counts \<Rightarrow> nat" where
  "counts_total c = sc_critical c + sc_high c + sc_normal c + sc_low c"

lemma count_event_total: "counts_total (count_event ev c) = counts_total c + 1"
  by (cases "ev_priority ev") (simp_all add: count_event_def counts_total_def Let_def)

lemma counts_fold_total: "counts_total (fold count_event evs c) = counts_total c + length evs"
  by (induction evs arbitrary: c) (simp_all add: count_event_total)

fun count_of :: "bus_priority \<Rightarrow> status_counts \<Rightarrow> nat" where
  "count_of Critical c = sc_critical c"
| "count_of High c = sc_high c"
| "count_of Normal c = sc_normal c"
| "count_of Low c = sc_low c"

lemma count_event_of: "count_of p (count_event ev c) = count_of p c + (if ev_priority ev = p then 1 else 0)"
  by (cases "ev_priority ev"; cases p) (simp_all add: count_event_def Let_def)

lemma counts_fold_of: "count_of p (fold count_event evs c) = count_of p c + length (filter (\<lambda>ev. ev_priority ev = p) evs)"
  by (induction evs arbitrary: c) (simp_all add: count_event_of)

lemma count_event_oldest:
  "sc_oldest (count_event ev c) = (if sc_oldest c = 0 \<or> ev_timestamp ev < sc_oldest c then ev_timestamp ev else sc_oldest c)"
  by (cases "ev_priority ev") (simp_all add: count_event_def Let_def)

lemma counts_fold_oldest:
  assumes "\<And>ev. ev \<in> set evs \<Longrightarrow> 0 < ev_timestamp ev" "0 \<le> sc_oldest c"
  shows "sc_oldest (fold count_event evs c)
    = (if evs = [] then sc_oldest c
       else if sc_oldest c = 0 then Min (ev_timestamp ` set evs)
       else Min (insert (sc_oldest c) (ev_timestamp ` set evs)))"
  using assms
proof (induction evs arbitrary: c)
  case (Cons ev evs)
  have "0 < ev_timestamp ev" using Cons.prems by simp
  then have p: "0 < sc_oldest (count_event ev c)" using Cons.prems(2) by (simp add: count_event_oldest)
  have "sc_oldest (fold count_event evs (count_event ev c))
      = (if evs = [] then sc_oldest (count_event ev c) else Min (insert (sc_oldest (count_event ev c)) (ev_timestamp ` set evs)))"
    using Cons.IH[of "count_event ev c"] Cons.prems(1) p by simp
  then show ?case
    by (cases "evs = []") (auto simp: count_event_oldest min_def)
qed simp

section \<open>No event is lost\<close>

text \<open>
  The contract of a store of items: an allowed operation keeps every item, and what makes the
  next operation allowed.
\<close>

locale item_store =
  fixes run :: "'op \<Rightarrow> 's \<Rightarrow> 's" and items :: "'s \<Rightarrow> 'i set"
    and inv :: "'s \<Rightarrow> bool" and allowed :: "'op \<Rightarrow> 's \<Rightarrow> bool"
  assumes items_kept: "inv s \<Longrightarrow> allowed op s \<Longrightarrow> items s \<subseteq> items (run op s)"
    and inv_run: "inv s \<Longrightarrow> allowed op s \<Longrightarrow> inv (run op s)"
begin

lemma run_all:
  "inv s \<Longrightarrow> (\<And>i. i < length ops \<Longrightarrow> allowed (ops ! i) (fold run (take i ops) s)) \<Longrightarrow>
   items s \<subseteq> items (fold run ops s) \<and> inv (fold run ops s)"
proof (induction ops rule: rev_induct)
  case (snoc op ops)
  have a: "allowed op (fold run ops s)" using snoc.prems(2)[of "length ops"] by simp
  have "allowed (ops ! i) (fold run (take i ops) s)" if "i < length ops" for i
    using snoc.prems(2)[of i] that by (simp add: nth_append)
  then have ih: "items s \<subseteq> items (fold run ops s)" "inv (fold run ops s)"
    using snoc.IH snoc.prems(1) by blast+
  then show ?case using items_kept[OF ih(2) a] inv_run[OF ih(2) a] by auto
qed simp

lemma run_any: "inv s \<Longrightarrow> (\<And>op s. allowed op s) \<Longrightarrow> items s \<subseteq> items (fold run ops s)"
  using run_all by blast

end

section \<open>Sequences of operations\<close>

datatype bus_op =
    Publish bus_env string string int "string option"
  | PublishDedup bus_env string string int "string option" int
  | Ack bus_env string
  | AckAll bus_env "string option"

fun bus_run :: "string \<Rightarrow> bus_op \<Rightarrow> bus \<Rightarrow> bus" where
  "bus_run events_dir (Publish e source ty p payload) b = snd (bus_publish e events_dir source ty p payload b)"
| "bus_run events_dir (PublishDedup e source ty p payload window) b =
     snd (bus_publish_dedup e events_dir source ty p payload window b)"
| "bus_run events_dir (Ack e f) b = snd (bus_ack e events_dir f b)"
| "bus_run events_dir (AckAll e handle) b = snd (bus_ack_all e events_dir handle b)"

text \<open>The name a publisher is about to use is taken by no other event.\<close>

definition name_unused :: "bus_env \<Rightarrow> string \<Rightarrow> string \<Rightarrow> bus \<Rightarrow> bool" where
  "name_unused e source ty b \<longleftrightarrow> (\<forall>ts. be_now e = Some ts \<longrightarrow>
     event_filename ts source ty (be_pid e) \<notin> dom (map_of (pending b)) \<union> dom (done_map b))"

fun op_allowed :: "bus_op \<Rightarrow> bus \<Rightarrow> bool" where
  "op_allowed (Publish e source ty p payload) b = name_unused e source ty b"
| "op_allowed (PublishDedup e source ty p payload window) b = name_unused e source ty b"
| "op_allowed (Ack e f) b = True"
| "op_allowed (AckAll e handle) b = True"

text \<open>The events the bus holds: pending or processed, temporary files left out.\<close>

definition is_item :: "string \<Rightarrow> bool" where
  "is_item n \<longleftrightarrow> is_event_name n \<and> take 5 n \<noteq> ''.tmp-''"

definition bus_items :: "bus \<Rightarrow> (string \<times> node) set" where
  "bus_items b = {(n, x). is_item n \<and> (map_of (pending b) n = Some x \<or> done_map b n = Some x)}"

definition bus_inv :: "bus \<Rightarrow> bool" where
  "bus_inv b \<longleftrightarrow> (\<forall>n. is_item n \<longrightarrow> map_of (pending b) n = None \<or> done_map b n = None)"

definition bus_keeps :: "bus \<Rightarrow> bus \<Rightarrow> bool" where
  "bus_keeps b b' \<longleftrightarrow> bus_items b \<subseteq> bus_items b' \<and> bus_inv b'"

lemma bus_keeps_trans: "bus_keeps a b \<Longrightarrow> bus_keeps b c \<Longrightarrow> bus_keeps a c"
  by (auto simp: bus_keeps_def)

lemma bus_keeps_same:
  assumes "bus_inv b" "\<And>n. is_item n \<Longrightarrow> map_of (pending b') n = map_of (pending b) n" "done_map b' = done_map b"
  shows "bus_keeps b b'"
  using assms by (auto simp: bus_keeps_def bus_items_def bus_inv_def)

lemma not_item: "\<not> is_item (tmp_filename ts pid)" "\<not> is_item ''.dedup.lock''"
  by (simp_all add: is_item_def tmp_filename_def is_event_name_def)

lemma bus_publish_keeps:
  assumes "bus_inv b" "name_unused e source ty b"
  shows "bus_keeps b (snd (bus_publish e events_dir source ty p payload b))"
proof (cases rule: bus_publish_cases[of e events_dir source ty p payload b])
  case (failed r b1 ts d)
  show ?thesis
  proof (rule bus_keeps_same[OF assms(1)])
    show "map_of (pending (snd (bus_publish e events_dir source ty p payload b))) n = map_of (pending b) n" if "is_item n" for n
    proof -
      have "n \<noteq> tmp_filename ts (be_pid e)" using that not_item(1) by blast
      then show ?thesis using tmp_left_other[OF failed(4)] failed(1) by simp
    qed
    show "done_map (snd (bus_publish e events_dir source ty p payload b)) = done_map b"
      using same_or_mkdir_maps[OF failed(3)] failed(1) by (simp add: done_map_def)
  qed
next
  case (published b1 ts iso_time pr)
  let ?f = "event_filename ts source ty (be_pid e)" and ?t = "tmp_filename ts (be_pid e)"
  let ?x = "File (event_text source ty pr iso_time payload)"
  let ?b = "snd (bus_publish e events_dir source ty p payload b)"
  have m: "map_of (pending ?b) = (map_of (pending b))(?t := None, ?f \<mapsto> ?x)"
    by (simp add: published(1) map_of_renamed)
  have dm: "done_map ?b = done_map b"
    using same_or_mkdir_maps[OF published(2)] by (simp add: published(1) done_map_def)
  have fresh: "map_of (pending b) ?f = None" "done_map b ?f = None"
    using assms(2) published(3) by (auto simp: name_unused_def)
  have ne: "n \<noteq> ?t" if "is_item n" for n using that not_item(1) by blast
  have "bus_items b \<subseteq> bus_items ?b"
    using fresh ne by (auto simp: bus_items_def m dm)
  moreover have "bus_inv ?b"
    using assms(1) fresh ne by (simp add: bus_inv_def m dm)
  ultimately show ?thesis by (simp add: bus_keeps_def)
qed

lemma with_dedup_lock_keeps:
  assumes "bus_inv b"
  shows "bus_keeps b (with_dedup_lock b)"
proof (rule bus_keeps_same[OF assms])
  show "map_of (pending (with_dedup_lock b)) n = map_of (pending b) n" if "is_item n" for n
    using that not_item(2) by (intro with_dedup_lock_simps(2)) blast
qed (simp add: done_map_def)

lemma name_unused_lock: "name_unused e source ty b \<Longrightarrow> name_unused e source ty (with_dedup_lock b)"
proof -
  assume a: "name_unused e source ty b"
  have "event_filename ts source ty (be_pid e) \<noteq> ''.dedup.lock''" for ts
    using event_filename_is_event[of ts source ty "be_pid e"] by (auto simp: is_event_name_def)
  then show ?thesis using a by (simp add: name_unused_def done_map_def domIff)
qed

lemma bus_publish_dedup_keeps:
  assumes "bus_inv b" "name_unused e source ty b"
  shows "bus_keeps b (snd (bus_publish_dedup e events_dir source ty p payload window b))"
proof -
  have r: "bus_keeps b b" using assms(1) by (simp add: bus_keeps_def)
  note l = with_dedup_lock_keeps[OF assms(1)]
  show ?thesis
  proof (cases rule: bus_publish_dedup_cases[of e events_dir source ty p payload window b])
    case (stopped b1)
    then show ?thesis using r l by auto
  next
    case (dropped now)
    then show ?thesis using l by simp
  next
    case (passed b1)
    then have b1: "bus_keeps b b1" "name_unused e source ty b1" using r l assms(2) name_unused_lock by auto
    then have "bus_keeps b1 (snd (bus_publish e events_dir source ty p payload b1))"
      by (intro bus_publish_keeps) (simp_all add: bus_keeps_def)
    then show ?thesis using bus_keeps_trans[OF b1(1)] passed(1) by simp
  qed
qed

lemma bus_ack_keeps:
  assumes "bus_inv b"
  shows "bus_keeps b (snd (bus_ack e events_dir f b))"
proof (cases rule: bus_ack_cases[of e events_dir f b])
  case (kept r b1)
  then show ?thesis using bus_keeps_same[OF assms, of b1] same_or_mkdir_maps[OF kept(3)] by simp
next
  case (moved b1 x d)
  note same = same_or_mkdir_maps[OF moved(2)]
  let ?b = "move_to_processed f x b1"
  have m: "map_of (pending ?b) = (map_of (pending b))(f := None)" "done_map ?b = (done_map b)(f \<mapsto> x)"
    using move_to_processed_maps[OF moved(4), of f x] same by simp_all
  have "done_map b f = None" if "is_item f" using assms moved(3) that by (auto simp: bus_inv_def)
  then have "bus_keeps b ?b"
    using assms moved(3) by (auto simp: bus_keeps_def bus_items_def bus_inv_def m)
  then show ?thesis using moved(1) by simp
qed

lemma ack_loop_keeps:
  "bus_inv b \<Longrightarrow> bus_keeps b (snd (ack_loop e events_dir handle evs acked b))"
proof (induction evs arbitrary: acked b)
  case (Cons ev evs)
  obtain r b1 where a: "bus_ack e events_dir (ev_filename ev) b = (r, b1)" by (cases "bus_ack e events_dir (ev_filename ev) b")
  have k: "bus_keeps b b1" using bus_ack_keeps[OF Cons.prems, of e events_dir "ev_filename ev"] a by simp
  then have "bus_keeps b1 (snd (ack_loop e events_dir handle evs n b1))" for n
    using Cons.IH by (simp add: bus_keeps_def)
  then show ?case
    using Cons k a bus_keeps_trans[OF k] by (cases r) simp_all
qed (simp add: bus_keeps_def)

lemma bus_ack_all_keeps:
  assumes "bus_inv b"
  shows "bus_keeps b (snd (bus_ack_all e events_dir handle b))"
proof -
  have r: "bus_keeps b b" using assms by (simp add: bus_keeps_def)
  show ?thesis
    using r ack_loop_keeps[OF assms, of e events_dir handle _ 0]
    by (auto simp: bus_ack_all_def split: outcome.splits option.splits prod.splits) (metis snd_conv)+
qed

lemma bus_run_keeps: "bus_inv b \<Longrightarrow> op_allowed op b \<Longrightarrow> bus_keeps b (bus_run events_dir op b)"
  by (cases op) (simp_all add: bus_publish_keeps bus_publish_dedup_keeps bus_ack_keeps bus_ack_all_keeps)

interpretation event_bus: item_store "bus_run events_dir" bus_items bus_inv op_allowed for events_dir
  using bus_run_keeps by unfold_locales (simp_all add: bus_keeps_def)

section \<open>Pruning\<close>

text \<open>The entries a scan of the processed directory collects.\<close>

definition prunable :: "string \<times> node \<Rightarrow> prune_entry option" where
  "prunable entry =
     (case snd entry of
        Subdir \<Rightarrow> None
      | File content \<Rightarrow>
         (case parse_event_filename_timestamp (fst entry) of
            Ret (Some ts) \<Rightarrow>
              if is_event_name (fst entry)
              then Some \<lparr>pe_filename = fst entry, pe_timestamp = ts, pe_size = int (length content)\<rparr> else None
          | _ \<Rightarrow> None))"

definition prune_entries :: "dir \<Rightarrow> prune_entry list" where
  "prune_entries d = List.map_filter prunable d"

lemma prune_entries_simps [simp]:
  "prune_entries [] = []"
  "prune_entries (entry # d) = (case prunable entry of None \<Rightarrow> [] | Some pe \<Rightarrow> [pe]) @ prune_entries d"
  by (simp_all add: prune_entries_def List.map_filter_def split: option.splits)

lemma prunable_Some: "prunable entry = Some pe \<Longrightarrow>
    pe_filename pe = fst entry \<and> 0 \<le> pe_size pe \<and> is_event_name (fst entry)
    \<and> (\<exists>content. snd entry = File content \<and> pe_size pe = int (length content))"
  by (auto simp: prunable_def split: node.splits outcome.splits option.splits if_splits)

lemma prune_entries_names: "pe \<in> set (prune_entries d) \<Longrightarrow> \<exists>entry \<in> set d. prunable entry = Some pe"
  by (induction d) (auto split: option.splits)

lemma prune_entries_filenames: "pe_filename ` set (prune_entries d) \<subseteq> fst ` set d"
proof (induction d)
  case (Cons entry d)
  show ?case
  proof (cases "prunable entry")
    case (Some pe)
    have "pe_filename pe = fst entry" using prunable_Some[OF Some] by simp
    then show ?thesis using Cons Some by (simp add: le_supI2 subset_insertI2)
  qed (use Cons in \<open>simp add: subset_insertI2\<close>)
qed simp

lemma distinct_prune_entries: "distinct (map fst d) \<Longrightarrow> distinct (map pe_filename (prune_entries d))"
proof (induction d)
  case (Cons entry d)
  show ?case
  proof (cases "prunable entry")
    case (Some pe)
    have "pe_filename pe = fst entry" using prunable_Some[OF Some] by simp
    moreover have "fst entry \<notin> pe_filename ` set (prune_entries d)"
      using Cons.prems prune_entries_filenames[of d] by auto
    ultimately show ?thesis using Cons Some by simp
  qed (use Cons in simp)
qed simp

definition total_bytes :: "prune_entry list \<Rightarrow> int" where
  "total_bytes pes = sum_list (map pe_size pes)"

lemma total_bytes_simps [simp]:
  "total_bytes [] = 0" "total_bytes (pe # pes) = pe_size pe + total_bytes pes"
  "total_bytes (xs @ ys) = total_bytes xs + total_bytes ys"
  by (simp_all add: total_bytes_def)

definition done_name_ok :: "string \<Rightarrow> string \<Rightarrow> bool" where
  "done_name_ok events_dir n \<longleftrightarrow>
     processed_path_ok events_dir n \<and> length n < 256 \<and> parse_event_filename_timestamp n \<noteq> Abort"

definition done_dir_ok :: "string \<Rightarrow> dir \<Rightarrow> bool" where
  "done_dir_ok events_dir d \<longleftrightarrow> (\<forall>entry \<in> set d. is_event_name (fst entry) \<longrightarrow> done_name_ok events_dir (fst entry))"

lemma total_bytes_nonneg: "0 \<le> total_bytes (prune_entries d)"
  by (induction d) (auto dest: prunable_Some split: option.splits)

lemma prune_scan_entry_ok:
  assumes "is_event_name (fst entry) \<Longrightarrow> done_name_ok events_dir (fst entry)"
    and "\<And>pe. prunable entry = Some pe \<Longrightarrow> snd acc + pe_size pe \<le> LLONG_MAX"
  shows "prune_scan_entry events_dir entry acc
    = Ret (case prunable entry of None \<Rightarrow> acc | Some pe \<Rightarrow> (fst acc @ [pe], snd acc + pe_size pe))"
proof (cases "is_event_name (fst entry)")
  case True
  then have ok: "processed_path_ok events_dir (fst entry)" "length (fst entry) < 256"
      "parse_event_filename_timestamp (fst entry) \<noteq> Abort"
    using assms(1) by (simp_all add: done_name_ok_def)
  show ?thesis
  proof (cases "snd entry")
    case (File content)
    obtain r where r: "parse_event_filename_timestamp (fst entry) = Ret r"
      using ok(3) by (cases "parse_event_filename_timestamp (fst entry)") simp_all
    show ?thesis
    proof (cases r)
      case (Some ts)
      let ?pe = "\<lparr>pe_filename = fst entry, pe_timestamp = ts, pe_size = int (length content)\<rparr>"
      have pe: "prunable entry = Some ?pe" using True File r Some by (simp add: prunable_def)
      have "snd acc \<le> LLONG_MAX - int (length content)" using assms(2)[OF pe] by simp
      then show ?thesis using True ok(1,2) File r Some pe by (simp add: prune_scan_entry_def)
    qed (use True ok(1,2) File r in \<open>simp add: prune_scan_entry_def prunable_def\<close>)
  qed (use True ok in \<open>simp add: prune_scan_entry_def prunable_def\<close>)
qed (auto simp: prune_scan_entry_def prunable_def split: node.splits outcome.splits option.splits)

lemma prune_scan_ok:
  assumes "done_dir_ok events_dir d" "length (fst acc) \<le> 256" "snd acc = total_bytes (fst acc)"
    and "total_bytes (fst acc) + total_bytes (prune_entries d) \<le> LLONG_MAX"
  shows "prune_scan events_dir d acc
    = Ret (take 256 (fst acc @ prune_entries d), total_bytes (take 256 (fst acc @ prune_entries d)))"
  using assms
proof (induction d arbitrary: acc)
  case (Cons entry d)
  show ?case
  proof (cases "length (fst acc) \<ge> 256")
    case True
    then have "length (fst acc) = 256" using Cons.prems(2) by simp
    then show ?thesis using Cons.prems(3) by simp (metis prod.collapse)
  next
    case False
    have nn: "0 \<le> total_bytes (prune_entries d)" by (rule total_bytes_nonneg)
    have s: "prune_scan_entry events_dir entry acc
        = Ret (case prunable entry of None \<Rightarrow> acc | Some pe \<Rightarrow> (fst acc @ [pe], snd acc + pe_size pe))"
      using Cons.prems nn by (intro prune_scan_entry_ok) (auto simp: done_dir_ok_def)
    show ?thesis
    proof (cases "prunable entry")
      case None
      then show ?thesis using False s Cons.IH[of acc] Cons.prems by (simp add: done_dir_ok_def)
    next
      case (Some pe)
      then show ?thesis
        using False s Cons.IH[of "(fst acc @ [pe], snd acc + pe_size pe)"] Cons.prems
        by (simp add: done_dir_ok_def)
    qed
  qed
qed (simp add: prod_eq_iff)

text \<open>With every unlink succeeding, a prefix of the sorted entries goes, and no longer one than needed.\<close>

lemma prune_delete_ok:
  assumes "\<And>pe. pe \<in> set pes \<Longrightarrow> processed_path_ok events_dir (pe_filename pe) \<and> be_unlink e (pe_filename pe)"
  shows "\<exists>k \<le> length pes. prune_delete e events_dir max_bytes pes pruned t d
      = (Ret (pruned + k, t - total_bytes (take k pes)), filter (\<lambda>entry. fst entry \<notin> pe_filename ` set (take k pes)) d)
    \<and> (k = length pes \<or> t - total_bytes (take k pes) \<le> max_bytes)
    \<and> (\<forall>j < k. t - total_bytes (take j pes) > max_bytes)"
  using assms
proof (induction pes arbitrary: pruned t d)
  case (Cons pe pes)
  show ?case
  proof (cases "t > max_bytes")
    case False
    then show ?thesis by (intro exI[of _ 0]) simp
  next
    case True
    let ?d = "remove_entry (pe_filename pe) d"
    obtain k where k: "k \<le> length pes"
      "prune_delete e events_dir max_bytes pes (pruned + 1) (t - pe_size pe) ?d
        = (Ret (pruned + 1 + k, t - pe_size pe - total_bytes (take k pes)),
           filter (\<lambda>entry. fst entry \<notin> pe_filename ` set (take k pes)) ?d)"
      "k = length pes \<or> t - pe_size pe - total_bytes (take k pes) \<le> max_bytes"
      "\<forall>j < k. t - pe_size pe - total_bytes (take j pes) > max_bytes"
      using Cons.IH[of "pruned + 1" "t - pe_size pe" ?d] Cons.prems by auto
    have f: "filter (\<lambda>entry. fst entry \<notin> pe_filename ` set (take k pes)) ?d
        = filter (\<lambda>entry. fst entry \<notin> pe_filename ` set (take (Suc k) (pe # pes))) d"
      by (auto simp: AList.delete_eq intro: filter_cong)
    have "prune_delete e events_dir max_bytes (pe # pes) pruned t d
        = (Ret (pruned + Suc k, t - total_bytes (take (Suc k) (pe # pes))),
           filter (\<lambda>entry. fst entry \<notin> pe_filename ` set (take (Suc k) (pe # pes))) d)"
      using True Cons.prems k(2) unfolding f by (simp add: algebra_simps)
    moreover have "\<forall>j < Suc k. t - total_bytes (take j (pe # pes)) > max_bytes"
      using k(4) True by (auto simp: less_Suc_eq_0_disj algebra_simps)
    ultimately show ?thesis using k(1,3) by (intro exI[of _ "Suc k"]) (auto simp: algebra_simps)
  qed
qed simp

end
