(* ===== verification/BusProps.thy ===== *)
theory BusProps
  imports BusLaws
begin

text \<open>
  The properties of the event bus, each with a witness: publishing is atomic and its event is
  read back whatever the payload, the listing is the sorted permutation of all readable events,
  the two scans agree, events move but are never lost, pruning removes the oldest, duplicates
  are dropped exactly within the window, the configuration keeps its windows in range.
\<close>

section \<open>A bus for the witnesses\<close>

definition demo_stamp :: string where
  "demo_stamp = ''2026-01-01T00:00:00Z''"

definition demo_bus_env :: "int \<Rightarrow> bus_env" where
  "demo_bus_env t = \<lparr>be_isdir = True, be_processed_open = True, be_opendir = True, be_alloc = \<lambda>_. True,
     be_open = \<lambda>_. True, be_ioerr = \<lambda>_. False, be_mkdir = True, be_now = Some t, be_scan_now = Some t,
     be_time = Some demo_stamp, be_pid = 7, be_create = True, be_written = True, be_partial = [],
     be_gmtime = \<lambda>_. Some demo_stamp, be_rename = \<lambda>_. True, be_unlink = \<lambda>_. True, be_print = \<lambda>_. True,
     be_lock_open = True, be_lock_wait = True\<rparr>"

lemma demo_bus_env_simps [simp]:
  "be_isdir (demo_bus_env t)" "be_processed_open (demo_bus_env t)" "be_opendir (demo_bus_env t)" "be_alloc (demo_bus_env t) n"
  "be_open (demo_bus_env t) f" "\<not> be_ioerr (demo_bus_env t) f" "be_mkdir (demo_bus_env t)"
  "be_now (demo_bus_env t) = Some t" "be_scan_now (demo_bus_env t) = Some t" "be_time (demo_bus_env t) = Some demo_stamp"
  "be_pid (demo_bus_env t) = 7" "be_create (demo_bus_env t)" "be_written (demo_bus_env t)"
  "be_gmtime (demo_bus_env t) s = Some demo_stamp" "be_rename (demo_bus_env t) f" "be_unlink (demo_bus_env t) f" "be_print (demo_bus_env t) k"
  "be_lock_open (demo_bus_env t)" "be_lock_wait (demo_bus_env t)"
  by (simp_all add: demo_bus_env_def)

definition demo_event :: "int \<Rightarrow> bus_priority \<Rightarrow> string \<times> node" where
  "demo_event t p = (event_filename t ''ann'' ''ping'' 7, File (event_text ''ann'' ''ping'' p demo_stamp None))"

definition demo_bus :: bus where
  "demo_bus = \<lparr>pending = [demo_event 30 Normal, (''notes.txt'', File ''x''), demo_event 20 Critical],
              processed = Some [demo_event 10 Low, demo_event 5 Low]\<rparr>"

lemma demo_words [simp]: "event_word ''ann''" "event_word ''ping''"
  by code_simp+

lemma demo_clean: "clean_dir ''ev'' (pending demo_bus)" "done_dir_ok ''ev'' (the (processed demo_bus))"
  by code_simp+

lemma demo_distinct: "distinct (map fst (pending demo_bus))" "distinct (map fst (the (processed demo_bus)))"
  by code_simp+

section \<open>Publishing\<close>

definition published_event :: "bus_env \<Rightarrow> int \<Rightarrow> string \<Rightarrow> string \<Rightarrow> bus_priority \<Rightarrow> bus_event" where
  "published_event e ts source ty p =
     \<lparr>ev_filename = event_filename ts source ty (be_pid e), ev_source = source, ev_type = ty,
      ev_priority = p, ev_timestamp = ts\<rparr>"

lemma publish_events:
  assumes "bus_publish e events_dir source ty priority payload b = (r, b')"
    and "event_word source" "event_word ty" "be_now e = Some ts" "0 < ts" "ts \<le> LLONG_MAX"
    and "priority_of_int priority = Some p" "event_filename ts source ty (be_pid e) \<notin> fst ` set (pending b)"
    and "\<And>n. be_open e2 n \<and> \<not> be_ioerr e2 n"
  shows "(r = Abort \<or> r = Ret (-1, [])) \<and> events_of e2 events_dir (pending b') = events_of e2 events_dir (pending b)
    \<or> r = Ret (if be_print e 0 then (0, [event_filename ts source ty (be_pid e)]) else (-1, []))
      \<and> events_of e2 events_dir (pending b') = events_of e2 events_dir (pending b) @ [published_event e ts source ty p]"
proof (cases rule: bus_publish_cases[of e events_dir source ty priority payload b])
  case (failed r' b1 ts' d)
  then show ?thesis using assms(1) tmp_left_events[OF failed(4), of e2 events_dir] by simp
next
  case (published b1 ts' iso_time p')
  have eq: "ts' = ts" "p' = p" using published(3,5) assms(4,7) by simp_all
  let ?f = "event_filename ts source ty (be_pid e)"
  have pend: "pending b' = renamed (tmp_filename ts (be_pid e)) ?f (event_text source ty p iso_time payload) (pending b)"
    using assms(1) published(1) eq by auto
  have "scan_entry e2 events_dir (?f, File (event_text source ty p iso_time payload)) = Ret (Some (published_event e ts source ty p))"
    using assms(9) scan_published[OF assms(2,3,5,6) _ _ refl] published(6,7) unfolding eq by (simp add: published_event_def)
  then have "events_of e2 events_dir (pending b') = events_of e2 events_dir (pending b) @ [published_event e ts source ty p]"
    using renamed_events[OF assms(8) event_filename_not_tmp[OF assms(5,6)]] by (simp add: pend)
  then show ?thesis using assms(1) published(1) eq by auto
qed

text \<open>C4: Publishing is atomic: whatever fails, every reader sees the events as before, or with
  exactly the published event added; it is added only when the publisher returned 0, or -1
  because printing its name failed.
\<close>

theorem bus_publish_atomic:
  assumes "bus_publish e events_dir source ty priority payload b = (r, b')"
    and "event_word source" "event_word ty" "be_now e = Some ts" "0 < ts" "ts \<le> LLONG_MAX"
    and "priority_of_int priority = Some p" "event_filename ts source ty (be_pid e) \<notin> fst ` set (pending b)"
    and "\<And>n. be_open e2 n \<and> \<not> be_ioerr e2 n"
  shows "(r = Abort \<or> r = Ret (-1, [])) \<and> events_of e2 events_dir (pending b') = events_of e2 events_dir (pending b)
    \<or> r = Ret (if be_print e 0 then (0, [event_filename ts source ty (be_pid e)]) else (-1, []))
      \<and> events_of e2 events_dir (pending b') = events_of e2 events_dir (pending b) @ [published_event e ts source ty p]"
  by (rule publish_events[OF assms])

lemma demo_fresh: "event_filename 40 ''ann'' ''ping'' 7 \<notin> fst ` set (pending demo_bus)"
  by code_simp

text \<open>The rename fails: the reader sees what was there.\<close>

definition demo_no_rename :: bus_env where
  "demo_no_rename = (demo_bus_env 40)\<lparr>be_rename := \<lambda>_. False\<rparr>"

theorem bus_publish_atomic_witness:
  "events_of (demo_bus_env 50) ''ev'' (pending (snd (bus_publish demo_no_rename ''ev'' ''ann'' ''ping'' 1 (Some ''hello'') demo_bus)))
   = events_of (demo_bus_env 50) ''ev'' (pending demo_bus)"
proof -
  have "fst (bus_publish demo_no_rename ''ev'' ''ann'' ''ping'' 1 (Some ''hello'') demo_bus) = Ret (-1, [])" by code_simp
  then obtain b' where p: "bus_publish demo_no_rename ''ev'' ''ann'' ''ping'' 1 (Some ''hello'') demo_bus = (Ret (-1, []), b')"
    by (metis prod.collapse)
  show ?thesis
    using bus_publish_atomic[OF p, of 40 High "demo_bus_env 50"] demo_fresh p
    by (simp add: demo_no_rename_def priority_of_int_def)
qed


definition spoof :: string where
  "spoof = ''x'' @ [nl] @ ''priority: critical'' @ [nl] @ ''source: root''"


section \<open>Listing\<close>

text \<open>C6: \<open>bus_check\<close> prints every readable event of the directory exactly once (those of the given
  source when one is given), the most urgent first and among equals the oldest first.
\<close>

theorem bus_check_sorted:
  assumes "qsort_ok qsort event_compare" "be_isdir e" "be_opendir e" "\<And>n. be_alloc e n" "\<And>k. be_print e k"
    and "be_now e = Some now" "now \<le> LLONG_MAX" "clean_dir events_dir (pending b)"
  shows "\<exists>evs. mset evs = mset (events_of e events_dir (pending b))
    \<and> sorted (map (\<lambda>ev. (ev_priority ev, ev_timestamp ev)) evs)
    \<and> bus_check qsort e events_dir handle b = Ret (0, map (age_line now) (filter (\<lambda>ev. \<not> skip_source handle ev) evs))"
proof -
  let ?evs = "events_of e events_dir (pending b)"
  have s: "scan_events_dynamic e events_dir (pending b) = Ret (Some ?evs)"
    by (rule scan_events_dynamic_all[OF assms(8,3,4)])
  have q: "mset (qsort event_compare ?evs) = mset ?evs"
      "sorted (map (\<lambda>ev. (ev_priority ev, ev_timestamp ev)) (qsort event_compare ?evs))"
    using by_priority.qsort_sorted[OF assms(1)] by simp_all
  have "0 < ev_timestamp ev" if "ev \<in> set (qsort event_compare ?evs)" for ev
    using that by_priority.qsort_set[OF assms(1), of ?evs] events_of_fit[of ev e events_dir "pending b"] by (simp add: event_fits_def)
  then have p: "print_events e now handle (qsort event_compare ?evs) []
      = Ret (0, map (age_line now) (filter (\<lambda>ev. \<not> skip_source handle ev) (qsort event_compare ?evs)))"
    using print_events_all[OF assms(5,7), of "qsort event_compare ?evs" handle "[]"] by simp
  show ?thesis
  proof (cases "?evs = []")
    case True
    then show ?thesis using s assms(2) by (intro exI[of _ "[]"]) (simp add: bus_check_def)
  next
    case False
    then show ?thesis
      using s p q assms(2,6) by (intro exI[of _ "qsort event_compare ?evs"]) (simp add: bus_check_def now_us_def)
  qed
qed

theorem bus_check_sorted_witness:
  "\<exists>out. bus_check (\<lambda>_. sort_key (\<lambda>ev. (ev_priority ev, ev_timestamp ev))) (demo_bus_env 40) ''ev'' None demo_bus = Ret (0, out)"
  using bus_check_sorted[where b = demo_bus and handle = None, OF by_priority.insort_ok _ _ _ _ _ _ demo_clean(1), of "demo_bus_env 40" 40]
  by auto

text \<open>The scan that grows its array and the scan with a fixed array are the same function as long
  as memory lasts and the fixed array is large enough: the same events, the same failures.
\<close>

theorem scans_agree:
  assumes "\<And>n. be_alloc e n" "length d \<le> m"
  shows "scan_events_dynamic e events_dir d = scan_events e events_dir m d"
  by (rule scan_events_dynamic_eq[OF assms])

theorem scans_agree_witness:
  "scan_events_dynamic (demo_bus_env 9) ''ev'' (pending demo_bus) = scan_events (demo_bus_env 9) ''ev'' 3 (pending demo_bus)"
  by (rule scans_agree) (simp_all add: demo_bus_def)

text \<open>Every event a scan returns fits the record of the C code: its strings are shorter than their
  buffers and without NUL or newline, its time is positive and within a \<open>long long\<close>.
\<close>

theorem scanned_event_type:
  assumes "scan_events e events_dir m d = Ret (Some evs)" "ev \<in> set evs"
  shows "event_fits ev"
proof -
  have "list_all event_fits r" if "scan_loop e events_dir m d acc = Ret r" "list_all event_fits acc" for r acc
    using that
  proof (induction d arbitrary: acc)
    case (Cons entry d)
    show ?case
    proof (cases "length acc \<ge> m")
      case False
      then obtain x where x: "scan_entry e events_dir entry = Ret x"
          "scan_loop e events_dir m d (case x of None \<Rightarrow> acc | Some ev \<Rightarrow> acc @ [ev]) = Ret r"
        using Cons.prems(1) by (auto simp: outcome_simps)
      then show ?thesis using Cons.IH[OF x(2)] Cons.prems(2) scan_entry_fits(1) by (cases x) auto
    qed (use Cons.prems in simp)
  qed simp
  then show ?thesis using assms by (auto simp: scan_events_def outcome_simps list_all_iff split: if_splits)
qed

theorem scanned_event_type_witness:
  "list_all event_fits (take 3 (events_of (demo_bus_env 9) ''ev'' (pending demo_bus)))"
  unfolding list_all_iff
  using scanned_event_type[OF scan_events_take[OF demo_clean(1)], of "demo_bus_env 9" _ 3] by simp

section \<open>Reading and acknowledging\<close>

lemma copy_out_all: "(\<And>k. be_print e k) \<Longrightarrow> copy_out e k out s = (True, out @ s)"
proof (induction e k out s rule: copy_out.induct)
  case (1 e k out s)
  then show ?case by (subst copy_out.simps) simp
qed

text \<open>A published event can be read back under the name that was printed, exactly as it was
  written; acknowledging it succeeds once, moves it unchanged to the processed events, and from
  then on reading it or acknowledging it again reports that it is not there.
\<close>

theorem publish_read_ack:
  assumes "bus_publish e events_dir source ty priority payload b = (Ret (0, [f]), b1)"
    and "\<And>n. be_open e2 n \<and> \<not> be_ioerr e2 n" "\<And>k. be_print e2 k" "ack_good e2 events_dir f"
  shows "\<exists>text b2. bus_read e2 events_dir f b1 = Ret (0, text)
    \<and> bus_ack e2 events_dir f b1 = (Ret 0, b2) \<and> done_map b2 f = Some (File text)
    \<and> bus_read e2 events_dir f b2 = Ret (-2, []) \<and> fst (bus_ack e2 events_dir f b2) = Ret (-2)"
proof (cases rule: bus_publish_cases[of e events_dir source ty priority payload b])
  case (failed r' b1' ts d)
  then show ?thesis using assms(1) by auto
next
  case (published b1' ts iso_time p)
  let ?text = "event_text source ty p iso_time payload"
  have f: "f = event_filename ts source ty (be_pid e)" using assms(1) published(1) by (auto split: if_splits)
  have "map_of (pending b1) f = Some (File ?text)"
    using assms(1) published(1) by (auto simp: f map_of_renamed)
  then obtain b2 where b2: "bus_ack e2 events_dir f b1 = (Ret 0, b2)"
      "map_of (pending b2) = (map_of (pending b1))(f := None)" "done_map b2 = (done_map b1)(f \<mapsto> File ?text)"
    using bus_ack_good[OF assms(4)] by blast
  have ok: "validate_event_filename f" "pending_path_ok events_dir f" "processed_path_ok events_dir f"
      "processed_dir_ok events_dir" "be_mkdir e2"
    using assms(4) by (simp_all add: ack_good_def)
  have "bus_read e2 events_dir f b1 = Ret (0, ?text)"
    using ok \<open>map_of (pending b1) f = _\<close> assms(2) copy_out_all[OF assms(3), of 0 "[]" ?text] by (simp add: bus_read_def)
  moreover have "bus_read e2 events_dir f b2 = Ret (-2, [])" using ok b2(2) by (simp add: bus_read_def)
  moreover have "fst (bus_ack e2 events_dir f b2) = Ret (-2)"
    using ok b2(2) by (cases "processed b2") (simp_all add: bus_ack_def ensure_processed_def)
  ultimately show ?thesis using b2 by simp
qed

lemma demo_ack_good: "ack_good (demo_bus_env 50) ''ev'' (event_filename 40 ''ann'' ''ping'' 7)"
  by code_simp

theorem publish_read_ack_witness:
  "\<exists>text b1 b2. bus_read (demo_bus_env 50) ''ev'' (event_filename 40 ''ann'' ''ping'' 7) b1 = Ret (0, text)
    \<and> bus_ack (demo_bus_env 50) ''ev'' (event_filename 40 ''ann'' ''ping'' 7) b1 = (Ret 0, b2)"
proof -
  have "fst (bus_publish (demo_bus_env 40) ''ev'' ''ann'' ''ping'' 1 None demo_bus) = Ret (0, [event_filename 40 ''ann'' ''ping'' 7])"
    by code_simp
  then obtain b1 where p: "bus_publish (demo_bus_env 40) ''ev'' ''ann'' ''ping'' 1 None demo_bus
      = (Ret (0, [event_filename 40 ''ann'' ''ping'' 7]), b1)"
    by (metis prod.collapse)
  show ?thesis using publish_read_ack[OF p _ _ demo_ack_good] by auto
qed

lemma events_of_filenames: "ev_filename ` set (events_of e events_dir d) \<subseteq> fst ` set d"
proof (induction d)
  case (Cons entry d)
  show ?case
  proof (cases "found (scan_entry e events_dir entry)")
    case (Some ev)
    then have "ev_filename ev = fst entry" using scan_entry_fits(2)[of e events_dir entry ev] by simp
    then show ?thesis using Cons Some by (simp add: subset_insertI2)
  qed (use Cons in \<open>simp add: subset_insertI2\<close>)
qed simp

lemma distinct_events_of: "distinct (map fst d) \<Longrightarrow> distinct (map ev_filename (events_of e events_dir d))"
proof (induction d)
  case (Cons entry d)
  have ih: "distinct (map ev_filename (events_of e events_dir d))" using Cons by simp
  show ?case
  proof (cases "found (scan_entry e events_dir entry)")
    case (Some ev)
    then have "ev_filename ev = fst entry" using scan_entry_fits(2)[of e events_dir entry ev] by simp
    moreover have "fst entry \<notin> ev_filename ` set (events_of e events_dir d)"
      using Cons.prems events_of_filenames[of e events_dir d] by auto
    ultimately show ?thesis using ih Some by simp
  qed (use ih in simp)
qed simp

text \<open>With at most 256 events pending, \<open>bus_ack_all\<close> moves every event of the given source (of
  every source when none is given) to the processed events, prints how many these are, and
  touches nothing else.
\<close>

theorem bus_ack_all_moves:
  assumes "be_isdir e" "be_opendir e" "be_print e 0" "clean_dir events_dir (pending b)" "distinct (map fst (pending b))"
    and "length (events_of e events_dir (pending b)) \<le> 256"
    and "\<And>ev. ev \<in> set (events_of e events_dir (pending b)) \<Longrightarrow> ack_good e events_dir (ev_filename ev)"
  shows "let N = ev_filename ` set (filter (\<lambda>ev. \<not> skip_source handle ev) (events_of e events_dir (pending b))) in
    \<exists>b'. bus_ack_all e events_dir handle b = (Ret (0, card N), b')
      \<and> map_of (pending b') = map_of (pending b) |` (- N)
      \<and> done_map b' = done_map b ++ (map_of (pending b) |` N)"
proof -
  let ?evs = "events_of e events_dir (pending b)" and ?P = "\<lambda>ev. \<not> skip_source handle ev"
  let ?N = "ev_filename ` set (filter ?P ?evs)"
  have s: "scan_events e events_dir 256 (pending b) = Ret (Some ?evs)"
    using scan_events_take[OF assms(4,2), of 256] assms(6) by simp
  have d: "distinct (map ev_filename ?evs)" by (rule distinct_events_of[OF assms(5)])
  have dom: "ev_filename ev \<in> dom (map_of (pending b))" if "ev \<in> set ?evs" for ev
    using that events_of_filenames[of e events_dir "pending b"] by (auto simp: dom_map_of_conv_image_fst)
  have "card ?N = length (map ev_filename (filter ?P ?evs))"
    using distinct_card[OF distinct_map_filter[OF d, of ?P]] by simp
  moreover have "\<exists>b'. ack_loop e events_dir handle ?evs 0 b = (Ret (0 + length (filter ?P ?evs)), b')
      \<and> map_of (pending b') = map_of (pending b) |` (- ?N) \<and> done_map b' = done_map b ++ (map_of (pending b) |` ?N)"
    by (rule ack_loop_good[OF _ d]) (simp add: assms(7) dom)
  ultimately show ?thesis
    using s assms(1,3) by (auto simp: bus_ack_all_def Let_def)
qed

theorem bus_ack_all_moves_witness:
  "\<exists>b' n. bus_ack_all (demo_bus_env 40) ''ev'' (Some ''ann'') demo_bus = (Ret (0, n), b')"
proof -
  have g: "list_all (\<lambda>ev. ack_good (demo_bus_env 40) ''ev'' (ev_filename ev)) (events_of (demo_bus_env 40) ''ev'' (pending demo_bus))"
    by code_simp
  have l: "length (events_of (demo_bus_env 40) ''ev'' (pending demo_bus)) \<le> 256" by code_simp
  show ?thesis
    using bus_ack_all_moves[of "demo_bus_env 40" "''ev''" demo_bus "Some ''ann''", OF _ _ _ demo_clean(1) demo_distinct(1) l] g
    by (auto simp: list_all_iff Let_def)
qed

text \<open>C5: Nothing is lost: however often events are published (with or without deduplication) and
  acknowledged (one or all), whatever fails or is asserted on the way, every event that was on
  the bus is still on it with its content, pending or processed, as long as no publisher uses a
  name that is taken.
\<close>

theorem bus_no_loss:
  assumes "bus_inv b" "\<And>i. i < length ops \<Longrightarrow> op_allowed (ops ! i) (fold (bus_run events_dir) (take i ops) b)"
  shows "bus_items b \<subseteq> bus_items (fold (bus_run events_dir) ops b) \<and> bus_inv (fold (bus_run events_dir) ops b)"
  by (rule event_bus.run_all[OF assms])

definition demo_ops :: "bus_op list" where
  "demo_ops = [Publish (demo_bus_env 40) ''ann'' ''ping'' 0 None, AckAll (demo_bus_env 41) None,
               PublishDedup (demo_bus_env 42) ''bob'' ''ping'' 2 None 100]"

lemma demo_inv: "bus_inv demo_bus"
proof -
  have "list_all (\<lambda>n. done_map demo_bus n = None) (map fst (pending demo_bus))" by code_simp
  then have "\<forall>n \<in> fst ` set (pending demo_bus). done_map demo_bus n = None" by (simp add: list_all_iff)
  then show ?thesis unfolding bus_inv_def by (metis map_of_eq_None_iff)
qed

theorem bus_no_loss_witness:
  "demo_event 20 Critical \<in> bus_items (fold (bus_run ''ev'') demo_ops demo_bus)"
proof -
  have "is_item (fst (demo_event 20 Critical))"
      "map_of (pending demo_bus) (fst (demo_event 20 Critical)) = Some (snd (demo_event 20 Critical))" by code_simp+
  then have item: "demo_event 20 Critical \<in> bus_items demo_bus"
    unfolding bus_items_def by (cases "demo_event 20 Critical") simp
  have fr: "map_of (pending demo_bus) (event_filename 40 ''ann'' ''ping'' 7) = None"
      "done_map demo_bus (event_filename 40 ''ann'' ''ping'' 7) = None" by code_simp+
  let ?b2 = "bus_run ''ev'' (demo_ops ! 1) (bus_run ''ev'' (demo_ops ! 0) demo_bus)"
  have fr2: "map_of (pending ?b2) (event_filename 42 ''bob'' ''ping'' 7) = None"
      "done_map ?b2 (event_filename 42 ''bob'' ''ping'' 7) = None" by code_simp+
  have l: "length demo_ops = 3" by (simp add: demo_ops_def)
  have "op_allowed (demo_ops ! i) (fold (bus_run ''ev'') (take i demo_ops) demo_bus)" if "i < length demo_ops" for i
  proof -
    have "i \<in> {0, 1, 2}" using that l by auto
    then show ?thesis using fr fr2 by (auto simp: demo_ops_def name_unused_def numeral_2_eq_2 domIff)
  qed
  then show ?thesis using bus_no_loss[OF demo_inv, of demo_ops "''ev''"] item by blast
qed

section \<open>Pruning\<close>

text \<open>C13: With at most 256 processed events, pruning deletes the oldest events and no more than
  needed: what remains is within the limit, and one deletion fewer would have left it above.
  Pending events are untouched.
\<close>

theorem bus_prune_oldest:
  assumes "qsort_ok qsort prune_compare" "0 < max_bytes" "processed_dir_ok events_dir" "be_processed_open e"
    and "be_print e 0" "\<And>n. be_unlink e n" "processed b = Some d" "done_dir_ok events_dir d" "length (prune_entries d) \<le> 256"
    and "total_bytes (prune_entries d) \<le> LLONG_MAX"
  shows "\<exists>pes k. mset pes = mset (prune_entries d) \<and> sorted (map pe_timestamp pes) \<and> k \<le> length pes
    \<and> bus_prune qsort e events_dir max_bytes b
      = (Ret (0, k, total_bytes (drop k pes)), b\<lparr>processed := Some (filter (\<lambda>entry. fst entry \<notin> pe_filename ` set (take k pes)) d)\<rparr>)
    \<and> total_bytes (drop k pes) \<le> max_bytes \<and> (\<forall>j < k. total_bytes (drop j pes) > max_bytes)"
proof -
  let ?es = "prune_entries d" and ?pes = "qsort prune_compare (prune_entries d)"
  have s: "prune_scan events_dir d ([], 0) = Ret (?es, total_bytes ?es)"
    using prune_scan_ok[of events_dir d "([], 0)"] assms(8-10) by simp
  have q: "mset ?pes = mset ?es" "sorted (map pe_timestamp ?pes)" using by_age.qsort_sorted[OF assms(1)] by simp_all
  have "total_bytes ?es = total_bytes ?pes"
    using arg_cong[OF q(1), of "\<lambda>m. sum_mset (image_mset pe_size m)"]
    by (simp add: total_bytes_def sum_mset_sum_list[symmetric] flip: mset_map)
  then have tot: "total_bytes ?es = total_bytes (take j ?pes) + total_bytes (drop j ?pes)" for j
    by (metis append_take_drop_id total_bytes_simps(3))
  have paths: "processed_path_ok events_dir (pe_filename pe)" if "pe \<in> set ?pes" for pe
  proof -
    have "pe \<in> set ?es" using that by_age.qsort_set[OF assms(1)] by simp
    then obtain entry where en: "entry \<in> set d" "prunable entry = Some pe" using prune_entries_names by blast
    then show ?thesis using prunable_Some[OF en(2)] assms(8) by (simp add: done_dir_ok_def done_name_ok_def)
  qed
  show ?thesis
  proof (cases "total_bytes ?es \<le> max_bytes")
    case True
    have "bus_prune qsort e events_dir max_bytes b = (Ret (0, 0, total_bytes ?es), b)"
      using True s assms by (simp add: bus_prune_def)
    moreover have "b\<lparr>processed := Some d\<rparr> = b" using assms(7) by simp
    ultimately show ?thesis using q True tot[of 0] by (intro exI[of _ ?pes] exI[of _ 0]) simp
  next
    case False
    obtain k where k: "k \<le> length ?pes"
        "prune_delete e events_dir max_bytes ?pes 0 (total_bytes ?es) d
          = (Ret (0 + k, total_bytes ?es - total_bytes (take k ?pes)), filter (\<lambda>entry. fst entry \<notin> pe_filename ` set (take k ?pes)) d)"
        "k = length ?pes \<or> total_bytes ?es - total_bytes (take k ?pes) \<le> max_bytes"
        "\<forall>j < k. total_bytes ?es - total_bytes (take j ?pes) > max_bytes"
      using prune_delete_ok[of ?pes events_dir e max_bytes 0 "total_bytes ?es" d] paths assms(6) by blast
    have "total_bytes ?es - total_bytes (take j ?pes) = total_bytes (drop j ?pes)" for j using tot[of j] by simp
    then show ?thesis
      using False s assms k q by (intro exI[of _ ?pes] exI[of _ k]) (auto simp: bus_prune_def)
  qed
qed

theorem bus_prune_oldest_witness:
  "\<exists>k r b'. bus_prune (\<lambda>_. sort_key pe_timestamp) (demo_bus_env 40) ''ev'' 100 demo_bus = (Ret (0, k, r), b') \<and> r \<le> 100"
proof -
  have p: "processed demo_bus = Some (the (processed demo_bus))" by (simp add: demo_bus_def)
  have l: "length (prune_entries (the (processed demo_bus))) \<le> 256"
      "total_bytes (prune_entries (the (processed demo_bus))) \<le> LLONG_MAX" "processed_dir_ok ''ev''" by code_simp+
  show ?thesis
    using bus_prune_oldest[OF by_age.insort_ok _ l(3) _ _ _ p demo_clean(2) l(1,2), of 100 "demo_bus_env 40"] by auto
qed

section \<open>Deduplication\<close>

lemma dedup_scan_True: "dedup_scan e events_dir cutoff key d = Ret True \<Longrightarrow> \<exists>entry \<in> set d. dedup_entry e events_dir cutoff key entry = Ret True"
proof (induction d)
  case (Cons entry d)
  then show ?case by (cases "dedup_entry e events_dir cutoff key entry") (auto split: if_splits)
qed simp

text \<open>When \<open>bus_publish_dedup\<close> reports a duplicate, nothing was published, and a pending event of
  the window with the same dedup key is really there.
\<close>

theorem dedup_sound:
  assumes "fst (bus_publish_dedup e events_dir source ty priority payload window b) = Ret (5, out)"
  shows "snd (bus_publish_dedup e events_dir source ty priority payload window b) = with_dedup_lock b \<and> out = []
    \<and> (\<exists>now n content ts. be_scan_now e = Some now \<and> (n, File content) \<in> set (pending b)
        \<and> parse_event_filename_timestamp n = Ret (Some ts) \<and> now - window \<le> ts
        \<and> read_event_dedup_key False 258 content = Some (source @ '':'' @ ty))"
proof (cases rule: bus_publish_dedup_cases[of e events_dir source ty priority payload window b])
  case (stopped b1)
  then show ?thesis using assms by simp
next
  case (dropped now)
  obtain entry where en: "entry \<in> set (pending (with_dedup_lock b))"
      "dedup_entry e events_dir (dedup_cutoff now window) (source @ '':'' @ ty) entry = Ret True"
    using dedup_scan_True[OF dropped(3)] by blast
  obtain ts content where ts: "parse_event_filename_timestamp (fst entry) = Ret (Some ts)" "snd entry = File content"
      "dedup_cutoff now window \<le> ts" "is_event_name (fst entry)"
      "read_event_dedup_key (be_ioerr e (fst entry)) 258 content = Some (source @ '':'' @ ty)"
    using en(2) by (auto simp: dedup_entry_def outcome_simps split: if_splits option.splits node.splits)
  have "fst entry \<noteq> ''.dedup.lock''" using ts(4) by (auto simp: is_event_name_def)
  then have "entry \<in> set (pending b)" using en(1) with_dedup_lock_pending[of b] by auto
  moreover have "read_event_dedup_key False 258 content = Some (source @ '':'' @ ty)" "now - window \<le> ts"
    using ts(3,5) by (auto simp: read_event_dedup_key_def dedup_cutoff_def split: if_splits)
  moreover obtain n where "entry = (n, File content)" using ts(2) by (cases entry) simp
  ultimately have "\<exists>n content ts. (n, File content) \<in> set (pending b) \<and> parse_event_filename_timestamp n = Ret (Some ts)
      \<and> now - window \<le> ts \<and> read_event_dedup_key False 258 content = Some (source @ '':'' @ ty)"
    using ts(1) by (metis fst_conv)
  then show ?thesis using assms dropped(1,2) by simp
next
  case (passed b1)
  show ?thesis
    using assms passed(1)
    by (cases rule: bus_publish_cases[of e events_dir source ty priority payload b1]) (auto split: if_splits)
qed

theorem dedup_sound_witness:
  "snd (bus_publish_dedup (demo_bus_env 40) ''ev'' ''ann'' ''ping'' 1 None 100 demo_bus) = with_dedup_lock demo_bus"
proof -
  have "fst (bus_publish_dedup (demo_bus_env 40) ''ev'' ''ann'' ''ping'' 1 None 100 demo_bus) = Ret (5, [])" by code_simp
  from dedup_sound[OF this] show ?thesis by simp
qed

text \<open>After an event has been published, publishing with deduplication within the window is
  dropped whenever source and type give the same key, so also for another source and type whose
  names join to the same text.
\<close>

theorem dedup_after_publish:
  assumes "bus_publish e events_dir source ty priority payload b = (Ret (0, out), b1)"
    and "event_word source" "event_word ty" "be_now e = Some ts" "0 < ts" "ts \<le> LLONG_MAX"
    and "be_time e = Some stamp" "fits_line 512 (''timestamp: '' @ stamp)" "no_nul stamp"
    and "be_lock_open e2" "be_lock_wait e2" "be_opendir e2" "\<And>n. be_open e2 n \<and> \<not> be_ioerr e2 n"
    and "be_scan_now e2 = Some now" "now - window \<le> ts" "0 < window"
    and "clean_dir events_dir (pending b1)" "length events_dir + 12 < BUS_MAX_FULLPATH"
    and "source2 \<noteq> []" "ty2 \<noteq> []" "source2 @ '':'' @ ty2 = source @ '':'' @ ty" "0 \<le> priority2" "priority2 \<le> 3"
  shows "bus_publish_dedup e2 events_dir source2 ty2 priority2 payload2 window b1 = (Ret (5, []), with_dedup_lock b1)"
proof (cases rule: bus_publish_cases[of e events_dir source ty priority payload b])
  case (failed r' b1' ts d)
  then show ?thesis using assms(1) by auto
next
  case (published b1' ts' stamp' p)
  let ?f = "event_filename ts source ty (be_pid e)" and ?text = "event_text source ty p stamp payload"
  have eq: "ts' = ts" "stamp' = stamp" using published(3,4) assms(4,7) by simp_all
  have "(?f, File ?text) \<in> set (pending b1)" using assms(1) published(1) by (auto simp: eq renamed_def new_entry)
  moreover have "set (pending b1) \<subseteq> set (pending (with_dedup_lock b1))" using with_dedup_lock_pending[of b1] by auto
  ultimately have mem: "(?f, File ?text) \<in> set (pending (with_dedup_lock b1))" by blast
  have "dedup_cutoff now window \<le> ts" using assms(5,15) by (simp add: dedup_cutoff_def)
  then have "dedup_entry e2 events_dir (dedup_cutoff now window) (source @ '':'' @ ty) (?f, File ?text) = Ret True"
    using dedup_entry_published[OF assms(2,3,5,6) _ assms(8,9)] published(7) assms(13) eq by simp
  then have "dedup_scan e2 events_dir (dedup_cutoff now window) (source @ '':'' @ ty) (pending (with_dedup_lock b1)) = Ret True"
    using mem assms(17) dedup_scan_clean[of events_dir "pending (with_dedup_lock b1)"] by auto
  moreover have "length (source2 @ '':'' @ ty2) < 258" unfolding assms(21) using assms(2,3) by (simp add: event_word_def)
  ultimately show ?thesis
    using assms(10-12,14,16,18-20,22,23) unfolding bus_publish_dedup_def Let_def assms(21) by simp
qed

text \<open>Two different events, one key: the second is dropped.\<close>

theorem dedup_after_publish_witness:
  "fst (bus_publish_dedup (demo_bus_env 60) ''ev'' ''build'' ''x:done'' 0 None 100
     (snd (bus_publish (demo_bus_env 40) ''ev'' ''build:x'' ''done'' 2 None demo_bus))) = Ret (5, [])"
proof -
  have "fst (bus_publish (demo_bus_env 40) ''ev'' ''build:x'' ''done'' 2 None demo_bus)
      = Ret (0, [event_filename 40 ''build:x'' ''done'' 7])" by code_simp
  then obtain b1 where p: "bus_publish (demo_bus_env 40) ''ev'' ''build:x'' ''done'' 2 None demo_bus
      = (Ret (0, [event_filename 40 ''build:x'' ''done'' 7]), b1)" by (metis prod.collapse)
  have c: "clean_dir ''ev'' (pending (snd (bus_publish (demo_bus_env 40) ''ev'' ''build:x'' ''done'' 2 None demo_bus)))" by code_simp
  have w: "event_word ''build:x''" "event_word ''done''" "fits_line 512 (''timestamp: '' @ demo_stamp)" "no_nul demo_stamp"
    by code_simp+
  show ?thesis
    using dedup_after_publish[OF p w(1,2), of 40 demo_stamp "demo_bus_env 60" 60 100 "''build''" "''x:done''" 0 None] c w(3,4) p
    by simp
qed

section \<open>Configuration and status\<close>

text \<open>Whatever the configuration file holds, the configuration loaded is in range: a positive
  retention, and windows that do not overflow when they are converted to microseconds.
\<close>

theorem bus_config_in_range:
  assumes "bus_load_config e events_dir d = Ret (rc, cfg)"
  shows "config_ok cfg"
  by (rule bus_load_config_ok[OF assms])

definition demo_config :: string where
  "demo_config = unlines [''# bus'', ''dedup-window: 30'', ''ack-timeout : -5'', ''retention-max-bytes: 12x'']"

theorem bus_config_in_range_witness:
  "\<exists>cfg. bus_load_config (demo_bus_env 1) ''ev'' [(''config.yaml'', File demo_config)] = Ret (0, cfg)
    \<and> config_ok cfg \<and> dedup_window_s cfg = 30 \<and> ack_timeout_s cfg = 0"
proof -
  have "bus_load_config (demo_bus_env 1) ''ev'' [(''config.yaml'', File demo_config)]
      = Ret (0, default_config\<lparr>dedup_window_s := 30\<rparr>)" by code_simp
  then show ?thesis
    using bus_config_in_range[of "demo_bus_env 1" "''ev''" "[(''config.yaml'', File demo_config)]"] by (simp add: default_config_def)
qed

lemma print_lines_out: "print_lines e xs ls = (ok, out) \<Longrightarrow> \<exists>rest. out = ls @ rest \<and> (ok \<longrightarrow> rest = xs)"
proof (induction xs arbitrary: ls)
  case (Cons x xs)
  show ?case
  proof (cases "be_print e (length ls)")
    case True
    then have "\<exists>rest. out = (ls @ [x]) @ rest \<and> (ok \<longrightarrow> rest = xs)" using Cons.prems by (intro Cons.IH) simp
    then show ?thesis by auto
  qed (use Cons.prems in simp)
qed simp

lemma status_stale_out: "status_stale e events_dir d evs out1 = Ret (0, out2) \<Longrightarrow> \<exists>rest. out2 = out1 @ rest"
proof -
  assume a: "status_stale e events_dir d evs out1 = Ret (0, out2)"
  then show ?thesis
    by (auto simp: status_stale_def outcome_simps Let_def split: if_splits prod.splits)
qed

lemma status_report_done:
  assumes "status_report e events_dir d evs totals = Ret (0, out)" "0 < sc_oldest (fold count_event evs no_counts)"
  shows "\<exists>s rest. be_gmtime e (sc_oldest (fold count_event evs no_counts) div 1000000) = Some s
    \<and> out = status_summary (length evs) (fold count_event evs no_counts) @ OldestPending s # rest"
proof -
  let ?c = "fold count_event evs no_counts"
  obtain ok out0 where p0: "print_lines e (status_summary (length evs) ?c) [] = (ok, out0)"
    by (cases "print_lines e (status_summary (length evs) ?c) []")
  have ok: "ok" using assms(1) p0 by (cases ok) (simp_all add: status_report_def)
  have out0: "out0 = status_summary (length evs) ?c" using print_lines_out[OF p0] ok by simp
  obtain s where s: "be_gmtime e (sc_oldest ?c div 1000000) = Some s"
    using assms p0 ok by (cases "be_gmtime e (sc_oldest ?c div 1000000)") (simp_all add: status_report_def)
  obtain ok1 out1 where p1: "print_lines e ([OldestPending s] @ [ProcessedTotal (fst totals) (snd totals)]) out0 = (ok1, out1)"
    by (cases "print_lines e ([OldestPending s] @ [ProcessedTotal (fst totals) (snd totals)]) out0")
  have ok1: "ok1" using assms p0 ok s p1 by (cases ok1) (simp_all add: status_report_def del: print_lines.simps)
  have "status_stale e events_dir d evs out1 = Ret (0, out)"
    using assms p0 ok s p1 ok1 by (simp add: status_report_def del: print_lines.simps)
  then obtain rest where "out = out1 @ rest" using status_stale_out by blast
  moreover have "out1 = out0 @ [OldestPending s] @ [ProcessedTotal (fst totals) (snd totals)]"
    using print_lines_out[OF p1] ok1 by auto
  ultimately show ?thesis using s out0 by simp
qed

text \<open>A status report starts with the number of pending events and the number of each priority,
  which are those of the first 256 readable events, and names the time of the oldest of them.
\<close>

theorem bus_status_counts:
  assumes "bus_status e events_dir b = Ret (0, out)" "be_isdir e" "be_opendir e" "clean_dir events_dir (pending b)"
    and "evs = take 256 (events_of e events_dir (pending b))" "evs \<noteq> []"
  shows "\<exists>rest s. out = [PendingTotal (length evs),
        ByPriority (length (filter (\<lambda>ev. ev_priority ev = Critical) evs)) (length (filter (\<lambda>ev. ev_priority ev = High) evs))
                   (length (filter (\<lambda>ev. ev_priority ev = Normal) evs)) (length (filter (\<lambda>ev. ev_priority ev = Low) evs)),
        EndLine, OldestPending s] @ rest
    \<and> be_gmtime e (Min (ev_timestamp ` set evs) div 1000000) = Some s"
proof -
  let ?c = "fold count_event evs no_counts"
  have cnt: "count_of p ?c = length (filter (\<lambda>ev. ev_priority ev = p) evs)" for p
    by (cases p) (simp_all add: counts_fold_of no_counts_def)
  have pos: "0 < ev_timestamp ev" if "ev \<in> set evs" for ev
    using that events_of_fit[of ev e events_dir "pending b"] unfolding assms(5) by (auto simp: event_fits_def dest: in_set_takeD)
  have old: "sc_oldest ?c = Min (ev_timestamp ` set evs)"
    using counts_fold_oldest[of evs no_counts] pos assms(6) by (simp add: no_counts_def)
  have "0 < sc_oldest ?c" unfolding old using pos assms(6) by simp
  obtain totals where r: "status_report e events_dir (pending b) evs totals = Ret (0, out)"
    using assms(1-3) scan_events_take[OF assms(4,3), of 256] unfolding assms(5)[symmetric]
    by (auto simp: bus_status_def outcome_simps split: option.splits if_splits)
  obtain s rest where s: "be_gmtime e (sc_oldest ?c div 1000000) = Some s"
      "out = status_summary (length evs) ?c @ OldestPending s # rest"
    using status_report_done[OF r \<open>0 < sc_oldest ?c\<close>] by blast
  then show ?thesis
    using assms(6) cnt[of Critical] cnt[of High] cnt[of Normal] cnt[of Low] old by (simp add: status_summary_def)
qed

theorem bus_status_counts_witness:
  "\<exists>out rest. bus_status (demo_bus_env 40) ''ev'' demo_bus = Ret (0, out) \<and> out = [PendingTotal 2, ByPriority 1 0 1 0] @ rest"
proof -
  obtain out where o: "bus_status (demo_bus_env 40) ''ev'' demo_bus = Ret (0, out)"
  proof -
    have "(case bus_status (demo_bus_env 40) ''ev'' demo_bus of Ret (rc, out) \<Rightarrow> rc = 0 | Abort \<Rightarrow> False)" by code_simp
    then show thesis using that by (auto split: outcome.splits)
  qed
  let ?evs = "take 256 (events_of (demo_bus_env 40) ''ev'' (pending demo_bus))"
  have c: "?evs \<noteq> []" "length ?evs = 2" "length (filter (\<lambda>ev. ev_priority ev = Critical) ?evs) = 1"
      "length (filter (\<lambda>ev. ev_priority ev = High) ?evs) = 0" "length (filter (\<lambda>ev. ev_priority ev = Normal) ?evs) = 1"
      "length (filter (\<lambda>ev. ev_priority ev = Low) ?evs) = 0" by code_simp+
  show ?thesis using bus_status_counts[OF o _ _ demo_clean(1) refl c(1)] c o by auto
qed

section \<open>Files that stop a scan\<close>

lemma parse_zero: "parse_event_filename_timestamp (''0-'' @ rest) = Abort"
  by (simp add: parse_event_filename_timestamp_def isdigit_def strtoll_def isspace_def digit_val_def ASSERT_MSG_def)

lemma scan_loop_stops:
  assumes "clean_dir events_dir d1" "length acc + length d1 < m" "scan_entry e events_dir entry = Abort"
  shows "scan_loop e events_dir m (d1 @ entry # d2) acc = Abort"
  using assms(1,2)
proof (induction d1 arbitrary: acc)
  case (Cons x d1)
  have "scan_entry e events_dir x = Ret (found (scan_entry e events_dir x))"
    using Cons.prems(1) by (intro scan_entry_found) simp
  then obtain r where "scan_entry e events_dir x = Ret r" by blast
  then show ?case using Cons by (cases r) simp_all
qed (simp add: assms(3))

text \<open>A file whose name starts with \<open>0-\<close> and ends in \<open>.event\<close> makes the listing of the whole
  directory stop in an assertion, whatever the file holds, although other malformed names are
  skipped.
\<close>

theorem zero_timestamp_stops_check:
  assumes "be_isdir e" "be_opendir e" "\<And>n. be_alloc e n" "clean_dir events_dir d1"
    and "is_event_name (''0-'' @ rest)" "pending_path_ok events_dir (''0-'' @ rest)"
    and "pending b = d1 @ (''0-'' @ rest, File content) # d2"
  shows "bus_check qsort e events_dir handle b = Abort"
proof -
  have "scan_entry e events_dir (''0-'' @ rest, File content) = Abort"
    using assms(5,6) parse_zero[of rest] by (simp add: scan_entry_def scan_name_def)
  then have "scan_loop e events_dir (length (pending b)) (pending b) [] = Abort"
    unfolding assms(7) by (intro scan_loop_stops[OF assms(4)]) simp_all
  then have "scan_events_dynamic e events_dir (pending b) = Abort"
    using scan_events_dynamic_eq[of e "pending b" "length (pending b)" events_dir] assms(2,3) by (simp add: scan_events_def)
  then show ?thesis using assms(1) by (simp add: bus_check_def)
qed

theorem zero_timestamp_stops_check_witness:
  "bus_check (\<lambda>_. sort_key (\<lambda>ev. (ev_priority ev, ev_timestamp ev))) (demo_bus_env 40) ''ev'' None
     (demo_bus\<lparr>pending := pending demo_bus @ [(''0-a.event'', File [])]\<rparr>) = Abort"
  using zero_timestamp_stops_check[OF _ _ _ demo_clean(1), of "demo_bus_env 40" "''a.event''"] by (simp add: is_event_name_def pending_path_ok_def)

section \<open>The abstract queue\<close>

text \<open>
  What a client may think of: two finite maps from names to events, those waiting and those done.
  Temporary files, the configuration and the lock are no events.
\<close>

type_synonym queue = "(string \<Rightarrow> node option) \<times> (string \<Rightarrow> node option)"

definition items_only :: "(string \<Rightarrow> node option) \<Rightarrow> string \<Rightarrow> node option" where
  "items_only m = (\<lambda>n. if is_item n then m n else None)"

definition abs_bus :: "bus \<Rightarrow> queue" where
  "abs_bus b = (items_only (map_of (pending b)), items_only (done_map b))"

definition q_post :: "string \<Rightarrow> node \<Rightarrow> queue \<Rightarrow> queue" where
  "q_post n x q = ((fst q)(n \<mapsto> x), snd q)"

definition q_take :: "string \<Rightarrow> queue \<Rightarrow> queue" where
  "q_take n q = (case fst q n of None \<Rightarrow> q | Some x \<Rightarrow> ((fst q)(n := None), (snd q)(n \<mapsto> x)))"

lemma abs_bus_eqI:
  "(\<And>n. is_item n \<Longrightarrow> map_of (pending b') n = map_of (pending b) n) \<Longrightarrow> done_map b' = done_map b \<Longrightarrow> abs_bus b' = abs_bus b"
  by (auto simp: abs_bus_def items_only_def fun_eq_iff)

lemma event_filename_item: "is_item (event_filename ts source ty pid)"
proof -
  have "hd (dec ts) \<noteq> CHR ''.''" using dec_chars[of "hd (dec ts)" ts] by (auto simp: isdigit_def)
  then show ?thesis
    using event_filename_is_event[of ts source ty pid]
    by (cases "dec ts") (simp_all add: is_item_def event_filename_def)
qed

text \<open>C8: Publishing refines posting to the abstract queue: the queue is either unchanged, when the
  code aborted or returned -1, or has exactly the new event posted under the name made from the
  time, source, type and process, when it returned 0 or printing failed.
\<close>

theorem bus_publish_refines:
  "abs_bus (snd (bus_publish e events_dir source ty priority payload b)) = abs_bus b
      \<and> fst (bus_publish e events_dir source ty priority payload b) \<in> {Abort, Ret (-1, [])}
   \<or> (\<exists>ts stamp p. be_now e = Some ts \<and> be_time e = Some stamp \<and> priority_of_int priority = Some p
      \<and> abs_bus (snd (bus_publish e events_dir source ty priority payload b))
        = q_post (event_filename ts source ty (be_pid e)) (File (event_text source ty p stamp payload)) (abs_bus b)
      \<and> fst (bus_publish e events_dir source ty priority payload b)
        = Ret (if be_print e 0 then (0, [event_filename ts source ty (be_pid e)]) else (-1, [])))"
proof (cases rule: bus_publish_cases[of e events_dir source ty priority payload b])
  case (failed r b1 ts d)
  have "abs_bus (b1\<lparr>pending := d\<rparr>) = abs_bus b"
  proof (rule abs_bus_eqI)
    show "map_of (pending (b1\<lparr>pending := d\<rparr>)) n = map_of (pending b) n" if "is_item n" for n
    proof -
      have "n \<noteq> tmp_filename ts (be_pid e)" using that not_item(1) by blast
      then show ?thesis using tmp_left_other[OF failed(4)] by simp
    qed
    show "done_map (b1\<lparr>pending := d\<rparr>) = done_map b"
      using same_or_mkdir_maps[OF failed(3)] by (simp add: done_map_def)
  qed
  then show ?thesis using failed(1,2) by auto
next
  case (published b1 ts stamp p)
  let ?f = "event_filename ts source ty (be_pid e)" and ?x = "File (event_text source ty p stamp payload)"
  let ?b = "b1\<lparr>pending := renamed (tmp_filename ts (be_pid e)) ?f (event_text source ty p stamp payload) (pending b)\<rparr>"
  have "map_of (pending ?b) n = (if n = ?f then Some ?x else map_of (pending b) n)" if "is_item n" for n
    using that not_item(1)[of ts "be_pid e"] by (auto simp: map_of_renamed)
  moreover have "done_map ?b = done_map b"
    using same_or_mkdir_maps[OF published(2)] by (simp add: done_map_def)
  ultimately have "abs_bus ?b = q_post ?f ?x (abs_bus b)"
    using event_filename_item[of ts source ty "be_pid e"]
    by (auto simp: abs_bus_def q_post_def items_only_def fun_eq_iff)
  then show ?thesis using published(1,3-5) by auto
qed

text \<open>C9: Acknowledging refines taking from the abstract queue: with return value 0 the event moves
  from waiting to done, and with any other outcome the queue is unchanged.
\<close>

theorem bus_ack_refines:
  "abs_bus (snd (bus_ack e events_dir f b))
   = (if fst (bus_ack e events_dir f b) = Ret 0 then q_take f (abs_bus b) else abs_bus b)"
proof (cases rule: bus_ack_cases[of e events_dir f b])
  case (kept r b1)
  have "abs_bus b1 = abs_bus b" using same_or_mkdir_maps[OF kept(3)] by (intro abs_bus_eqI) simp_all
  then show ?thesis using kept(1,2) by auto
next
  case (moved b1 x d)
  note same = same_or_mkdir_maps[OF moved(2)]
  have m: "map_of (pending (move_to_processed f x b1)) = (map_of (pending b))(f := None)"
      "done_map (move_to_processed f x b1) = (done_map b)(f \<mapsto> x)"
    using move_to_processed_maps[OF moved(4), of f x] same by simp_all
  have "abs_bus (move_to_processed f x b1) = q_take f (abs_bus b)"
    using moved(3) by (auto simp: abs_bus_def q_take_def items_only_def m fun_eq_iff)
  then show ?thesis using moved(1) by simp
qed

end
