(* ===== verification/BusMain.thy ===== *)
theory BusMain
  imports BusProps
begin

text \<open>
  The command line of the bus (src/src/nbs-bus/main.c): option parsing, the validation of every
  argument, and the exit code of each command.  What a command prints is what the operation of
  the bus it calls prints; here only the exit code and the state of the directory are followed.
  Properties: the validation implies the preconditions the operations assert, so that a publish
  from the command line never stops in an assertion, and the exit codes mean what the usage text
  says.
\<close>

abbreviation (input) BUS_EXIT_OK :: int where "BUS_EXIT_OK \<equiv> 0"
abbreviation (input) BUS_EXIT_ERROR :: int where "BUS_EXIT_ERROR \<equiv> 1"
abbreviation (input) BUS_EXIT_DIR_NOT_FOUND :: int where "BUS_EXIT_DIR_NOT_FOUND \<equiv> 2"
abbreviation (input) BUS_EXIT_NOT_FOUND :: int where "BUS_EXIT_NOT_FOUND \<equiv> 3"
abbreviation (input) BUS_EXIT_BAD_ARGS :: int where "BUS_EXIT_BAD_ARGS \<equiv> 4"
abbreviation (input) BUS_MAX_PATH :: nat where "BUS_MAX_PATH \<equiv> 4096"
abbreviation (input) BUS_MAX_PAYLOAD :: nat where "BUS_MAX_PAYLOAD \<equiv> 16384"

section \<open>Options\<close>

text \<open>\<open>Inl ()\<close> is the error flag.\<close>

fun parse_handle_opt :: "string list \<Rightarrow> unit + string option" where
  "parse_handle_opt [] = Inr None"
| "parse_handle_opt (a # as) =
     (if take 9 a = ''--handle='' then (if drop 9 a = [] then Inl () else Inr (Some (drop 9 a)))
      else parse_handle_opt as)"

fun parse_max_bytes_opt :: "string list \<Rightarrow> int \<Rightarrow> int" where
  "parse_max_bytes_opt [] cfg_default = cfg_default"
| "parse_max_bytes_opt (a # as) cfg_default =
     (if take 12 a = ''--max-bytes='' then
        (let r = strtoll (drop 12 a) in
         if st_erange r \<or> st_end r \<noteq> [] \<or> st_val r \<le> 0 then -1 else st_val r)
      else parse_max_bytes_opt as cfg_default)"

fun parse_dedup_window_opt :: "string list \<Rightarrow> int \<Rightarrow> int" where
  "parse_dedup_window_opt [] cfg_default_us = cfg_default_us"
| "parse_dedup_window_opt (a # as) cfg_default_us =
     (if take 15 a = ''--dedup-window='' then
        (let r = strtoll (drop 15 a) in
         if st_erange r \<or> st_end r \<noteq> [] \<or> st_val r < 0 then -1
         else if st_val r > LLONG_MAX div 1000000 then -1
         else st_val r * 1000000)
      else parse_dedup_window_opt as cfg_default_us)"

definition verify_events_dir :: "bus_env \<Rightarrow> string \<Rightarrow> int" where
  "verify_events_dir e d =
     (if length d \<ge> BUS_MAX_PATH then BUS_EXIT_BAD_ARGS
      else if \<not> be_isdir e then BUS_EXIT_DIR_NOT_FOUND
      else 0)"

definition validate_non_empty_no_whitespace :: "string \<Rightarrow> bool" where
  "validate_non_empty_no_whitespace s \<longleftrightarrow> s \<noteq> [] \<and> \<not> list_ex isspace s"

definition validate_handle :: "string option \<Rightarrow> bool" where
  "validate_handle handle =
     (case handle of None \<Rightarrow> True
      | Some h \<Rightarrow> validate_non_empty_no_whitespace h \<and> CHR ''/'' \<notin> set h)"

definition validate_event_file :: "string \<Rightarrow> bool" where
  "validate_event_file event_file \<longleftrightarrow>
     event_file \<noteq> [] \<and> CHR ''/'' \<notin> set event_file
     \<and> \<not> (take 2 event_file = ''..'' \<or> event_file = ''.'')
     \<and> length event_file < BUS_MAX_FILENAME \<and> is_event_name event_file"

section \<open>Commands\<close>

definition publish_payload :: "string list \<Rightarrow> string option" where
  "publish_payload argv = (if length argv > 6 \<and> take 2 (argv ! 6) \<noteq> ''--'' then Some (argv ! 6) else None)"

definition publish_run :: "bus_env \<Rightarrow> string list \<Rightarrow> bus_priority \<Rightarrow> bus \<Rightarrow> int outcome \<times> bus" where
  "publish_run e argv priority b =
     (case bus_load_config e (argv ! 2) (pending b) of
        Abort \<Rightarrow> (Abort, b)
      | Ret (cfg_rc, cfg) \<Rightarrow>
          if cfg_rc \<noteq> 0 then (Ret BUS_EXIT_ERROR, b)
          else if \<not> dedup_window_s cfg \<le> LLONG_MAX div 1000000 then (Abort, b)
          else (let dedup_window_us = parse_dedup_window_opt (drop 6 argv) (dedup_window_s cfg * 1000000) in
            if dedup_window_us < 0 then (Ret BUS_EXIT_BAD_ARGS, b)
            else if dedup_window_us > 0 then
              (case bus_publish_dedup e (argv ! 2) (argv ! 3) (argv ! 4) (priority_num priority) (publish_payload argv) dedup_window_us b of
                 (Abort, b1) \<Rightarrow> (Abort, b1)
               | (Ret (rc, out), b1) \<Rightarrow>
                   (Ret (if rc = BUS_EXIT_DEDUP then BUS_EXIT_DEDUP else if rc \<noteq> 0 then BUS_EXIT_ERROR else BUS_EXIT_OK), b1))
            else
              (case bus_publish e (argv ! 2) (argv ! 3) (argv ! 4) (priority_num priority) (publish_payload argv) b of
                 (Abort, b1) \<Rightarrow> (Abort, b1)
               | (Ret (rc, out), b1) \<Rightarrow> (Ret (if rc \<noteq> 0 then BUS_EXIT_ERROR else BUS_EXIT_OK), b1))))"

definition cmd_publish :: "bus_env \<Rightarrow> string list \<Rightarrow> bus \<Rightarrow> int outcome \<times> bus" where
  "cmd_publish e argv b =
     (if length argv < 6 then (Ret BUS_EXIT_BAD_ARGS, b)
      else if \<not> validate_non_empty_no_whitespace (argv ! 3) then (Ret BUS_EXIT_BAD_ARGS, b)
      else if \<not> validate_non_empty_no_whitespace (argv ! 4) then (Ret BUS_EXIT_BAD_ARGS, b)
      else if length (argv ! 3) \<ge> BUS_MAX_HANDLE then (Ret BUS_EXIT_BAD_ARGS, b)
      else if length (argv ! 4) \<ge> BUS_MAX_TYPE then (Ret BUS_EXIT_BAD_ARGS, b)
      else if (case publish_payload argv of None \<Rightarrow> False | Some p \<Rightarrow> length p \<ge> BUS_MAX_PAYLOAD) then (Ret BUS_EXIT_BAD_ARGS, b)
      else if verify_events_dir e (argv ! 2) \<noteq> 0 then (Ret (verify_events_dir e (argv ! 2)), b)
      else (case bus_priority_from_str (argv ! 5) of
              None \<Rightarrow> (Ret BUS_EXIT_BAD_ARGS, b)
            | Some priority \<Rightarrow> publish_run e argv priority b))"

fun exit_code :: "(int \<times> 'a) outcome \<Rightarrow> int outcome" where
  "exit_code Abort = Abort"
| "exit_code (Ret (rc, out)) = Ret (if rc \<noteq> 0 then BUS_EXIT_ERROR else BUS_EXIT_OK)"

definition not_found_code :: "int \<Rightarrow> int" where
  "not_found_code rc = (if rc \<noteq> 0 then (if rc = -2 then BUS_EXIT_NOT_FOUND else BUS_EXIT_ERROR) else BUS_EXIT_OK)"

definition cmd_check ::
  "((bus_event \<Rightarrow> bus_event \<Rightarrow> int) \<Rightarrow> bus_event list \<Rightarrow> bus_event list) \<Rightarrow> bus_env \<Rightarrow> string list \<Rightarrow> bus \<Rightarrow> int outcome \<times> bus" where
  "cmd_check qsort e argv b =
     (if length argv < 3 then (Ret BUS_EXIT_BAD_ARGS, b)
      else if verify_events_dir e (argv ! 2) \<noteq> 0 then (Ret (verify_events_dir e (argv ! 2)), b)
      else (case parse_handle_opt (drop 3 argv) of
              Inl _ \<Rightarrow> (Ret BUS_EXIT_BAD_ARGS, b)
            | Inr handle \<Rightarrow>
                if \<not> validate_handle handle then (Ret BUS_EXIT_BAD_ARGS, b)
                else (exit_code (bus_check qsort e (argv ! 2) handle b), b)))"

definition cmd_read :: "bus_env \<Rightarrow> string list \<Rightarrow> bus \<Rightarrow> int outcome \<times> bus" where
  "cmd_read e argv b =
     (if length argv < 4 then (Ret BUS_EXIT_BAD_ARGS, b)
      else if \<not> validate_event_file (argv ! 3) then (Ret BUS_EXIT_BAD_ARGS, b)
      else if verify_events_dir e (argv ! 2) \<noteq> 0 then (Ret (verify_events_dir e (argv ! 2)), b)
      else (case bus_read e (argv ! 2) (argv ! 3) b of
              Abort \<Rightarrow> (Abort, b)
            | Ret (rc2, out) \<Rightarrow> (Ret (not_found_code rc2), b)))"

definition cmd_ack :: "bus_env \<Rightarrow> string list \<Rightarrow> bus \<Rightarrow> int outcome \<times> bus" where
  "cmd_ack e argv b =
     (if length argv < 4 then (Ret BUS_EXIT_BAD_ARGS, b)
      else if \<not> validate_event_file (argv ! 3) then (Ret BUS_EXIT_BAD_ARGS, b)
      else if verify_events_dir e (argv ! 2) \<noteq> 0 then (Ret (verify_events_dir e (argv ! 2)), b)
      else (case bus_ack e (argv ! 2) (argv ! 3) b of
              (Abort, b1) \<Rightarrow> (Abort, b1)
            | (Ret rc2, b1) \<Rightarrow> (Ret (not_found_code rc2), b1)))"

definition cmd_ack_all :: "bus_env \<Rightarrow> string list \<Rightarrow> bus \<Rightarrow> int outcome \<times> bus" where
  "cmd_ack_all e argv b =
     (if length argv < 3 then (Ret BUS_EXIT_BAD_ARGS, b)
      else if verify_events_dir e (argv ! 2) \<noteq> 0 then (Ret (verify_events_dir e (argv ! 2)), b)
      else (case parse_handle_opt (drop 3 argv) of
              Inl _ \<Rightarrow> (Ret BUS_EXIT_BAD_ARGS, b)
            | Inr handle \<Rightarrow>
                if \<not> validate_handle handle then (Ret BUS_EXIT_BAD_ARGS, b)
                else (case bus_ack_all e (argv ! 2) handle b of (r, b1) \<Rightarrow> (exit_code r, b1))))"

definition cmd_prune ::
  "((prune_entry \<Rightarrow> prune_entry \<Rightarrow> int) \<Rightarrow> prune_entry list \<Rightarrow> prune_entry list) \<Rightarrow> bus_env \<Rightarrow> string list \<Rightarrow> bus \<Rightarrow> int outcome \<times> bus" where
  "cmd_prune qsort e argv b =
     (if length argv < 3 then (Ret BUS_EXIT_BAD_ARGS, b)
      else if verify_events_dir e (argv ! 2) \<noteq> 0 then (Ret (verify_events_dir e (argv ! 2)), b)
      else (case bus_load_config e (argv ! 2) (pending b) of
              Abort \<Rightarrow> (Abort, b)
            | Ret (cfg_rc, cfg) \<Rightarrow>
                if cfg_rc \<noteq> 0 then (Ret BUS_EXIT_ERROR, b)
                else (let max_bytes = parse_max_bytes_opt (drop 3 argv) (retention_max_bytes cfg) in
                  if max_bytes < 0 then (Ret BUS_EXIT_BAD_ARGS, b)
                  else if max_bytes = 0 then (Ret BUS_EXIT_BAD_ARGS, b)
                  else (case bus_prune qsort e (argv ! 2) max_bytes b of (r, b1) \<Rightarrow> (exit_code r, b1)))))"

definition cmd_status :: "bus_env \<Rightarrow> string list \<Rightarrow> bus \<Rightarrow> int outcome \<times> bus" where
  "cmd_status e argv b =
     (if length argv < 3 then (Ret BUS_EXIT_BAD_ARGS, b)
      else if verify_events_dir e (argv ! 2) \<noteq> 0 then (Ret (verify_events_dir e (argv ! 2)), b)
      else (exit_code (bus_status e (argv ! 2) b), b))"

definition bus_main ::
  "((bus_event \<Rightarrow> bus_event \<Rightarrow> int) \<Rightarrow> bus_event list \<Rightarrow> bus_event list) \<Rightarrow>
   ((prune_entry \<Rightarrow> prune_entry \<Rightarrow> int) \<Rightarrow> prune_entry list \<Rightarrow> prune_entry list) \<Rightarrow>
   bus_env \<Rightarrow> string list \<Rightarrow> bus \<Rightarrow> int outcome \<times> bus" where
  "bus_main qsort_events qsort_entries e argv b =
     (if argv = [] then (Abort, b)
      else if length argv < 2 then (Ret BUS_EXIT_BAD_ARGS, b)
      else if argv ! 1 = ''publish'' then cmd_publish e argv b
      else if argv ! 1 = ''check'' then cmd_check qsort_events e argv b
      else if argv ! 1 = ''read'' then cmd_read e argv b
      else if argv ! 1 = ''ack'' then cmd_ack e argv b
      else if argv ! 1 = ''ack-all'' then cmd_ack_all e argv b
      else if argv ! 1 = ''prune'' then cmd_prune qsort_entries e argv b
      else if argv ! 1 = ''status'' then cmd_status e argv b
      else if argv ! 1 = ''help'' then (Ret BUS_EXIT_OK, b)
      else (Ret BUS_EXIT_BAD_ARGS, b))"

section \<open>What the command line guarantees\<close>

lemma length_event_filename:
  "length (event_filename ts source ty pid) = length (dec ts) + length source + length ty + length (dec pid) + 9"
  by (simp add: event_filename_def)

lemma length_tmp_filename: "length (tmp_filename ts pid) = length (dec ts) + length (dec pid) + 12"
  by (simp add: tmp_filename_def)

text \<open>A clock between the epoch and the end of a \<open>long long\<close>, and a process id of Linux.\<close>

definition bus_clock_ok :: "bus_env \<Rightarrow> bool" where
  "bus_clock_ok e \<longleftrightarrow> (\<exists>ts. be_now e = Some ts \<and> 0 \<le> ts \<and> ts \<le> LLONG_MAX) \<and> be_scan_now e \<noteq> None
     \<and> be_time e \<noteq> None \<and> 0 \<le> be_pid e \<and> be_pid e \<le> 4194304"

lemma bus_publish_no_abort:
  assumes "bus_clock_ok e" "length events_dir < 4096" "publish_args_ok source ty (priority_num p)"
    and "length source < 128" "length ty < 128"
  shows "fst (bus_publish e events_dir source ty (priority_num p) payload b) \<noteq> Abort"
proof -
  obtain ts stamp where env: "be_now e = Some ts" "0 \<le> ts" "ts \<le> LLONG_MAX" "be_time e = Some stamp"
    using assms(1) by (auto simp: bus_clock_ok_def)
  have "length (dec ts) \<le> 19" by (rule length_dec_int64[OF env(2,3)])
  moreover have "length (dec (be_pid e)) \<le> 19"
    using assms(1) by (intro length_dec_int64) (simp_all add: bus_clock_ok_def)
  ultimately have "length (event_filename ts source ty (be_pid e)) < 512"
      "tmp_path_ok events_dir (tmp_filename ts (be_pid e))"
      "pending_path_ok events_dir (event_filename ts source ty (be_pid e))" "processed_dir_ok events_dir"
    using assms(2,4,5)
    by (simp_all add: length_event_filename length_tmp_filename tmp_path_ok_def pending_path_ok_def processed_dir_ok_def)
  then show ?thesis
    using assms(3) env by (auto simp: bus_publish_def Let_def split: option.splits)
qed

lemma bus_publish_dedup_no_abort:
  assumes "bus_clock_ok e" "length events_dir < 4096" "publish_args_ok source ty (priority_num p)"
    and "length source < 128" "length ty < 128" "0 < window" "clean_dir events_dir (pending b)"
  shows "fst (bus_publish_dedup e events_dir source ty (priority_num p) payload window b) \<noteq> Abort"
proof -
  note pub = bus_publish_no_abort[OF assms(1-5)]
  have "length (source @ '':'' @ ty) < 258" "length events_dir + 12 < BUS_MAX_FULLPATH" using assms(2,4,5) by simp_all
  moreover obtain now where "be_scan_now e = Some now" using assms(1) by (auto simp: bus_clock_ok_def)
  moreover have "dedup_scan e events_dir cutoff key (pending (with_dedup_lock b)) \<noteq> Abort" for cutoff key
    using dedup_scan_clean[of events_dir "pending (with_dedup_lock b)"] assms(7) by simp
  ultimately show ?thesis
    using assms(3,6) pub unfolding bus_publish_dedup_def Let_def publish_args_ok_def
    by (auto split: outcome.splits bool.splits)
qed

lemma publish_run_no_abort:
  assumes "bus_clock_ok e" "length (argv ! 2) < 4096" "publish_args_ok (argv ! 3) (argv ! 4) (priority_num p)"
    and "length (argv ! 3) < 128" "length (argv ! 4) < 128" "clean_dir (argv ! 2) (pending b)"
  shows "fst (publish_run e argv p b) \<noteq> Abort"
proof -
  have "bus_load_config e (argv ! 2) (pending b) \<noteq> Abort"
    using assms(2) by (simp add: bus_load_config_def split: option.splits node.splits)
  then obtain rc cfg where cfg: "bus_load_config e (argv ! 2) (pending b) = Ret (rc, cfg)"
    by (cases "bus_load_config e (argv ! 2) (pending b)") auto
  have "dedup_window_s cfg \<le> LLONG_MAX div 1000000" using bus_load_config_ok[OF cfg] by (simp add: config_ok_def)
  then show ?thesis
    using cfg bus_publish_no_abort[OF assms(1-5)] bus_publish_dedup_no_abort[OF assms(1-5) _ assms(6)]
    unfolding publish_run_def Let_def
    by (auto split: prod.splits outcome.splits) (metis fst_conv)+
qed

text \<open>The validation of the command line implies what the bus asserts: with a sane clock, and a
  directory whose event files have well-formed names, \<open>nbs-bus publish\<close> never stops in an
  assertion, whatever its arguments and whatever fails.
\<close>

theorem cli_publish_no_abort:
  assumes "bus_clock_ok e" "clean_dir (argv ! 2) (pending b)"
  shows "fst (cmd_publish e argv b) \<noteq> Abort"
proof (cases "length argv < 6 \<or> \<not> validate_non_empty_no_whitespace (argv ! 3)
    \<or> \<not> validate_non_empty_no_whitespace (argv ! 4) \<or> length (argv ! 3) \<ge> 128 \<or> length (argv ! 4) \<ge> 128
    \<or> (case publish_payload argv of None \<Rightarrow> False | Some p \<Rightarrow> length p \<ge> BUS_MAX_PAYLOAD) \<or> verify_events_dir e (argv ! 2) \<noteq> 0")
  case True
  then show ?thesis by (auto simp: cmd_publish_def)
next
  case False
  have dir: "length (argv ! 2) < 4096" using False by (auto simp: verify_events_dir_def split: if_splits)
  have args: "publish_args_ok (argv ! 3) (argv ! 4) (priority_num p)" for p
    using False by (cases p) (auto simp: publish_args_ok_def validate_non_empty_no_whitespace_def has_whitespace_def)
  have "fst (publish_run e argv p b) \<noteq> Abort" for p
    using False by (intro publish_run_no_abort[OF assms(1) dir args _ _ assms(2)]) auto
  then show ?thesis using False by (auto simp: cmd_publish_def split: option.splits)
qed

theorem cli_publish_no_abort_witness:
  "fst (cmd_publish (demo_bus_env 40) [''nbs-bus'', ''publish'', ''ev'', ''ann'', ''ping'', ''high''] demo_bus) \<noteq> Abort"
  by (rule cli_publish_no_abort) (simp_all add: bus_clock_ok_def demo_clean)

section \<open>Exit codes\<close>

lemma bus_publish_rc: "bus_publish e events_dir source ty p payload b = (Ret (rc, out), b') \<Longrightarrow> rc = 0 \<or> rc = -1"
  by (cases rule: bus_publish_cases[of e events_dir source ty p payload b]) (auto split: if_splits)

lemma verify_events_dir_codes: "verify_events_dir e d \<in> {0, 2, 4}"
  by (simp add: verify_events_dir_def)

lemma exit_code_codes: "exit_code r = Ret c \<Longrightarrow> c = 0 \<or> c = 1"
  by (cases r) (auto split: if_splits)

lemma publish_run_codes:
  "publish_run e argv p b = (Ret c, b') \<Longrightarrow> c \<in> {0, 1, 4, 5} \<and> (c = 4 \<longrightarrow> b' = b)"
  by (auto simp: publish_run_def Let_def split: outcome.splits prod.splits if_splits)

lemma cmd_codes:
  "cmd_publish e argv b = (Ret c, b') \<Longrightarrow> c \<in> {0, 1, 2, 4, 5} \<and> (c \<in> {2, 4} \<longrightarrow> b' = b)"
  "cmd_check qsort e argv b = (Ret c, b') \<Longrightarrow> c \<in> {0, 1, 2, 4} \<and> b' = b"
  "cmd_read e argv b = (Ret c, b') \<Longrightarrow> c \<in> {0, 1, 2, 3, 4} \<and> b' = b"
  "cmd_status e argv b = (Ret c, b') \<Longrightarrow> c \<in> {0, 1, 2, 4} \<and> b' = b"
  subgoal using verify_events_dir_codes[of e "argv ! 2"]
    by (auto simp: cmd_publish_def dest!: publish_run_codes split: if_splits option.splits)
  subgoal using verify_events_dir_codes[of e "argv ! 2"]
    by (auto simp: cmd_check_def dest!: exit_code_codes split: if_splits sum.splits)
  subgoal using verify_events_dir_codes[of e "argv ! 2"]
    by (auto simp: cmd_read_def not_found_code_def split: if_splits outcome.splits)
  subgoal using verify_events_dir_codes[of e "argv ! 2"]
    by (auto simp: cmd_status_def dest!: exit_code_codes split: if_splits)
  done

lemma cmd_codes_moving:
  "cmd_ack e argv b = (Ret c, b') \<Longrightarrow> c \<in> {0, 1, 2, 3, 4} \<and> (c \<in> {2, 4} \<longrightarrow> b' = b)"
  "cmd_ack_all e argv b = (Ret c, b') \<Longrightarrow> c \<in> {0, 1, 2, 4} \<and> (c \<in> {2, 4} \<longrightarrow> b' = b)"
  "cmd_prune qsortp e argv b = (Ret c, b') \<Longrightarrow> c \<in> {0, 1, 2, 4} \<and> (c \<in> {2, 4} \<longrightarrow> b' = b)"
  subgoal using verify_events_dir_codes[of e "argv ! 2"]
    by (auto simp: cmd_ack_def not_found_code_def split: if_splits outcome.splits prod.splits)
  subgoal using verify_events_dir_codes[of e "argv ! 2"]
    by (auto simp: cmd_ack_all_def dest!: exit_code_codes split: if_splits sum.splits prod.splits)
  subgoal using verify_events_dir_codes[of e "argv ! 2"]
    by (auto simp: cmd_prune_def Let_def dest!: exit_code_codes split: if_splits outcome.splits prod.splits)
  done

lemma bus_main_codes:
  assumes "bus_main qe qp e argv b = (Ret c, b')"
  shows "c \<in> {0, 1, 2, 3, 4, 5}" "c \<in> {2, 4} \<Longrightarrow> b' = b"
proof -
  have "c \<in> {0, 1, 2, 3, 4, 5} \<and> (c \<in> {2, 4} \<longrightarrow> b' = b)"
    using assms cmd_codes(1)[of e argv b c b'] cmd_codes(2)[of qe e argv b c b'] cmd_codes(3,4)[of e argv b c b']
      cmd_codes_moving(1,2)[of e argv b c b'] cmd_codes_moving(3)[of qp e argv b c b']
    unfolding bus_main_def by (auto split: if_splits)
  then show "c \<in> {0, 1, 2, 3, 4, 5}" "c \<in> {2, 4} \<Longrightarrow> b' = b" by blast+
qed

text \<open>Every run of \<open>nbs-bus\<close> that does not stop in an assertion ends with one of the six
  documented exit codes, and the codes for bad arguments and for a missing directory mean that
  nothing on the bus was changed.
\<close>

theorem cli_exit_codes:
  assumes "bus_main qsort_events qsort_entries e argv b = (Ret code, b')"
  shows "code \<in> {0, 1, 2, 3, 4, 5} \<and> (if code = 2 \<or> code = 4 then b' = b else True)"
  using bus_main_codes[OF assms] by simp

theorem cli_exit_codes_witness:
  "snd (bus_main (\<lambda>_ xs. xs) (\<lambda>_ xs. xs) (demo_bus_env 40) [''nbs-bus'', ''publish'', ''ev'', ''a b'', ''ping'', ''high''] demo_bus) = demo_bus"
proof -
  have "fst (bus_main (\<lambda>_ xs. xs) (\<lambda>_ xs. xs) (demo_bus_env 40) [''nbs-bus'', ''publish'', ''ev'', ''a b'', ''ping'', ''high''] demo_bus) = Ret 4"
    by code_simp
  then obtain b' where m: "bus_main (\<lambda>_ xs. xs) (\<lambda>_ xs. xs) (demo_bus_env 40) [''nbs-bus'', ''publish'', ''ev'', ''a b'', ''ping'', ''high''] demo_bus
      = (Ret 4, b')" by (metis prod.collapse)
  from cli_exit_codes[OF m] m show ?thesis by simp
qed

text \<open>
  An empty \<open>--dedup-window=\<close> is taken as a window of zero, which turns deduplication off,
  although an empty \<open>--max-bytes=\<close> is refused.
\<close>

lemma empty_dedup_window:
  "parse_dedup_window_opt (''--dedup-window='' # as) cfg_default_us = 0
   \<and> parse_max_bytes_opt (''--max-bytes='' # as) cfg_default = -1"
  by (simp add: strtoll_def)

end
