(* ===== verification/Base64.thy ===== *)
theory Base64
  imports CStd "HOL-Library.Word"
begin

text \<open>
  The message encoding of the chat file: src/src/nbs-chat/base64.c and base64.h.  Bytes are
  \<open>char\<close>s, the C \<open>unsigned int\<close> arithmetic is on \<open>32 word\<close>s with the source's shifts and
  masks.  The buffer argument \<open>output\<close> is the returned string, \<open>output_size\<close> stays an
  argument.  The lemmas show that no assertion of either function can fire within the
  documented sizes, what each error return means, and that decoding inverts encoding.
\<close>

unbundle bit_operations_syntax

section \<open>Tables and sizes\<close>

abbreviation (input) SIZE_MAX :: nat where "SIZE_MAX \<equiv> 18446744073709551615"

definition encode_table :: string where
  "encode_table = ''ABCDEFGHIJKLMNOPQRSTUVWXYZabcdefghijklmnopqrstuvwxyz0123456789+/''"

definition decode_table :: "nat list" where
  "decode_table =
     [
      255, 255, 255, 255, 255, 255, 255, 255, 255, 255, 255, 255, 255, 255, 255, 255,
      255, 255, 255, 255, 255, 255, 255, 255, 255, 255, 255, 255, 255, 255, 255, 255,
      255, 255, 255, 255, 255, 255, 255, 255, 255, 255, 255,  62, 255, 255, 255,  63,
       52,  53,  54,  55,  56,  57,  58,  59,  60,  61, 255, 255, 255,  64, 255, 255,
      255,   0,   1,   2,   3,   4,   5,   6,   7,   8,   9,  10,  11,  12,  13,  14,
       15,  16,  17,  18,  19,  20,  21,  22,  23,  24,  25, 255, 255, 255, 255, 255,
      255,  26,  27,  28,  29,  30,  31,  32,  33,  34,  35,  36,  37,  38,  39,  40,
       41,  42,  43,  44,  45,  46,  47,  48,  49,  50,  51, 255, 255, 255, 255, 255,
      255, 255, 255, 255, 255, 255, 255, 255, 255, 255, 255, 255, 255, 255, 255, 255,
      255, 255, 255, 255, 255, 255, 255, 255, 255, 255, 255, 255, 255, 255, 255, 255,
      255, 255, 255, 255, 255, 255, 255, 255, 255, 255, 255, 255, 255, 255, 255, 255,
      255, 255, 255, 255, 255, 255, 255, 255, 255, 255, 255, 255, 255, 255, 255, 255,
      255, 255, 255, 255, 255, 255, 255, 255, 255, 255, 255, 255, 255, 255, 255, 255,
      255, 255, 255, 255, 255, 255, 255, 255, 255, 255, 255, 255, 255, 255, 255, 255,
      255, 255, 255, 255, 255, 255, 255, 255, 255, 255, 255, 255, 255, 255, 255, 255,
      255, 255, 255, 255, 255, 255, 255, 255, 255, 255, 255, 255, 255, 255, 255, 255]"

definition base64_is_valid_char :: "char \<Rightarrow> bool" where
  "base64_is_valid_char c =
     (if c = CHR ''='' \<or> c = CHR ''+'' \<or> c = CHR ''/'' then True
      else if 65 \<le> (of_char c :: nat) \<and> (of_char c :: nat) \<le> 90 then True
      else if 97 \<le> (of_char c :: nat) \<and> (of_char c :: nat) \<le> 122 then True
      else if 48 \<le> (of_char c :: nat) \<and> (of_char c :: nat) \<le> 57 then True
      else False)"

definition base64_encoded_size :: "nat \<Rightarrow> nat outcome" where
  "base64_encoded_size input_len =
     ASSERT_MSG (input_len \<le> (SIZE_MAX - 4) div 4 * 3)
       (Ret (((input_len + 2) div 3) * 4 + 1))"

definition base64_decoded_size :: "nat \<Rightarrow> nat outcome" where
  "base64_decoded_size input_len =
     ASSERT_MSG (input_len mod 4 = 0 \<or> input_len = 0)
      (ASSERT_MSG (input_len \<le> SIZE_MAX - 3)
        (Ret ((input_len div 4) * 3 + 3)))"

section \<open>Encoding\<close>

text \<open>\<open>encode_table[(triple >> k) & 0x3F]\<close>\<close>

definition sextet_char :: "32 word \<Rightarrow> nat \<Rightarrow> char" where
  "sextet_char triple k = encode_table ! unat (drop_bit k triple AND 0x3F)"

text \<open>
  The group loop with the tail case: three bytes become four characters, one or two bytes
  left at the end become two or three characters and padding.
\<close>

fun encode_groups :: "string \<Rightarrow> string" where
  "encode_groups (a # b # c # rest) =
     (let triple = push_bit 16 (of_char a) OR push_bit 8 (of_char b) OR (of_char c)
      in sextet_char triple 18 # sextet_char triple 12 # sextet_char triple 6
           # sextet_char triple 0 # encode_groups rest)"
| "encode_groups [a, b] =
     (let triple = push_bit 16 (of_char a) OR push_bit 8 (of_char b)
      in [sextet_char triple 18, sextet_char triple 12, sextet_char triple 6, CHR ''=''])"
| "encode_groups [a] =
     (let triple = push_bit 16 (of_char a)
      in [sextet_char triple 18, sextet_char triple 12, CHR ''='', CHR ''=''])"
| "encode_groups [] = []"

text \<open>\<open>None\<close> is the return value -1 (output buffer too small).\<close>

definition base64_encode :: "string \<Rightarrow> nat \<Rightarrow> string option outcome" where
  "base64_encode input output_size =
     ASSERT_MSG (length input \<le> (SIZE_MAX - 4) div 4 * 3)
      (ASSERT_MSG (length input \<le> 2147483647 div 4 * 3)
        (and_then (base64_encoded_size (length input)) (\<lambda>needed.
          if output_size < needed then Ret None
          else (let out = encode_groups input in
            ASSERT_MSG (length out = needed - 1)
             (ASSERT_MSG (length out \<le> 2147483647)
               (ASSERT_MSG (list_all base64_is_valid_char out)
                 (Ret (Some out))))))))"

section \<open>Decoding\<close>

datatype b64_error =
    NotMultipleOf4
  | InvalidChar nat
  | PaddingNotInFinalBlock nat
  | PaddingTooEarly nat
  | DataAfterPadding nat
  | OutputTooSmall

text \<open>
  The validation loop at index \<open>i\<close> of \<open>input_len\<close> characters, with the characters from
  \<open>i\<close> on: \<open>None\<close> when the loop ends without an error.
\<close>

fun validate_from :: "nat \<Rightarrow> nat \<Rightarrow> string \<Rightarrow> b64_error option" where
  "validate_from input_len i [] = None"
| "validate_from input_len i (c # cs) =
     (if \<not> base64_is_valid_char c then Some (InvalidChar i)
      else if c = CHR ''='' then
        (let block_start = (i div 4) * 4 in
         if block_start + 4 \<noteq> input_len then Some (PaddingNotInFinalBlock i)
         else if i - block_start < 2 then Some (PaddingTooEarly i)
         else if \<exists>k \<in> set cs. k \<noteq> CHR ''='' then Some (DataAfterPadding i)
         else None)
      else validate_from input_len (Suc i) cs)"

definition table_sextet :: "char \<Rightarrow> 32 word" where
  "table_sextet c = of_nat (decode_table ! of_char c) AND 0x3F"

definition byte_of :: "32 word \<Rightarrow> nat \<Rightarrow> char" where
  "byte_of triple k = char_of (unat (drop_bit k triple AND 0xFF))"

text \<open>
  The decoding loop: \<open>room\<close> is \<open>out_len - j\<close>, so each \<open>if (j < out_len) output[j++] = \<dots>\<close>
  takes one unit of it.
\<close>

fun decode_groups :: "nat \<Rightarrow> string \<Rightarrow> string outcome" where
  "decode_groups room (a # b # c # d # rest) =
     ASSERT_MSG (decode_table ! of_char a \<noteq> 0xFF)
      (ASSERT_MSG (decode_table ! of_char b \<noteq> 0xFF)
       (ASSERT_MSG (decode_table ! of_char c \<noteq> 0xFF)
        (ASSERT_MSG (decode_table ! of_char d \<noteq> 0xFF)
         (let triple = push_bit 18 (table_sextet a) OR push_bit 12 (table_sextet b)
                         OR push_bit 6 (table_sextet c) OR table_sextet d;
              bytes = take room [byte_of triple 16, byte_of triple 8, byte_of triple 0]
          in and_then (decode_groups (room - length bytes) rest) (\<lambda>out. Ret (bytes @ out))))))"
| "decode_groups room cs = Ret []"

definition decoded_len :: "string \<Rightarrow> nat" where
  "decoded_len input =
     (let input_len = length input in
      (input_len div 4) * 3
        - (if input ! (input_len - 1) = CHR ''='' then 1 else 0)
        - (if input ! (input_len - 2) = CHR ''='' then 1 else 0))"

definition is_trailing_ws :: "char \<Rightarrow> bool" where
  "is_trailing_ws c \<longleftrightarrow> c = nl \<or> c = cr \<or> c = sp"

definition base64_decode :: "string \<Rightarrow> nat \<Rightarrow> (b64_error + string) outcome" where
  "base64_decode input0 output_size =
     ASSERT_MSG (length input0 \<le> 2147483647 div 3 * 4 + 4)
      (let input = rstrip is_trailing_ws input0; input_len = length input in
       if input_len = 0 then ASSERT_MSG (output_size \<ge> 1) (Ret (Inr []))
       else if input_len mod 4 \<noteq> 0 then Ret (Inl NotMultipleOf4)
       else (case validate_from input_len 0 input of
          Some e \<Rightarrow> Ret (Inl e)
        | None \<Rightarrow>
            (let out_len = decoded_len input
             in if output_size < out_len then Ret (Inl OutputTooSmall)
                else and_then (decode_groups out_len input) (\<lambda>out.
                  ASSERT_MSG (length out = out_len)
                   (ASSERT_MSG (out_len \<le> 2147483647)
                     (Ret (Inr out)))))))"

section \<open>The tables\<close>

text \<open>\<open>valid_code\<close> is the alphabet as byte codes, so that one case split covers both tables.\<close>


definition valid_code :: "nat \<Rightarrow> bool" where
  "valid_code n \<longleftrightarrow> n = 61 \<or> n = 43 \<or> n = 47 \<or> 65 \<le> n \<and> n \<le> 90 \<or> 97 \<le> n \<and> n \<le> 122 \<or> 48 \<le> n \<and> n \<le> 57"

lemma valid_char_code: "base64_is_valid_char c \<longleftrightarrow> valid_code (of_char c)"
proof -
  have "c = CHR ''='' \<longleftrightarrow> (of_char c :: nat) = of_char (CHR ''='')"
    "c = CHR ''+'' \<longleftrightarrow> (of_char c :: nat) = of_char (CHR ''+'')"
    "c = CHR ''/'' \<longleftrightarrow> (of_char c :: nat) = of_char (CHR ''/'')"
    by (simp_all only: of_char_eq_iff)
  then show ?thesis by (auto simp: base64_is_valid_char_def valid_code_def)
qed

lemma decode_table_runs:
  "decode_table = replicate 43 255 @ [62, 255, 255, 255, 63] @ [52..<62]
     @ [255, 255, 255, 64, 255, 255, 255] @ [0..<26] @ replicate 6 255 @ [26..<52] @ replicate 133 255"
  unfolding decode_table_def by code_simp

lemma decode_table_sextet:
  "n < 256 \<Longrightarrow> valid_code n \<longleftrightarrow> decode_table ! n \<noteq> 255"
  "n < 256 \<Longrightarrow> valid_code n \<and> n \<noteq> 61 \<longleftrightarrow> decode_table ! n < 64"
  by (auto simp: decode_table_runs nth_append nth_Cons' valid_code_def split: if_splits)

lemma decode_encode_table: "map (\<lambda>c. decode_table ! of_char c) encode_table = [0..<64]"
  by (simp add: decode_table_def encode_table_def upt_conv_Cons)

lemma encode_table_valid: "list_all (\<lambda>c. base64_is_valid_char c \<and> c \<noteq> CHR ''='') encode_table"
  by (simp add: encode_table_def valid_char_code valid_code_def)
section \<open>Sextets and bytes of a triple\<close>


lemma bit_of_char: "bit (of_char c :: 32 word) n \<Longrightarrow> n < 8"
proof -
  assume "bit (of_char c :: 32 word) n"
  then have "bit (of_nat (of_char c) :: 32 word) n" by (simp only: of_nat_of_char)
  then have b: "bit (of_char c :: nat) n" by (simp add: bit_of_nat_iff)
  have "take_bit 8 (of_char c :: nat) = of_char c" by (simp add: take_bit_eq_mod)
  with b show ?thesis by (metis bit_take_bit_iff)
qed

lemma unat_of_char: "unat (of_char c :: 32 word) = of_char c"
proof -
  have "unat (of_nat (of_char c) :: 32 word) = of_char c"
    by (simp add: unat_of_nat take_bit_nat_eq_self order.strict_trans [OF nat_of_char_less_256])
  then show ?thesis by (simp only: of_nat_of_char)
qed

lemma sextet_lt: "unat (w AND 63 :: 32 word) < 64"
proof -
  have "unat (w AND 63) \<le> unat (63 :: 32 word)"
    by (rule word_and_le1 [THEN word_le_nat_alt [THEN iffD1]])
  then show ?thesis by simp
qed

lemma table_sextet_char: "table_sextet (sextet_char t k) = drop_bit k t AND 63"
proof -
  let ?m = "unat (drop_bit k t AND 63)"
  have lt: "?m < 64" by (rule sextet_lt)
  have len: "length encode_table = 64" by (simp add: encode_table_def)
  have "map (\<lambda>c. decode_table ! of_char c) encode_table ! ?m = ?m"
    using lt by (simp add: decode_encode_table)
  then have "decode_table ! of_char (encode_table ! ?m) = ?m" using lt len by simp
  then show ?thesis by (simp add: table_sextet_def sextet_char_def)
qed

lemma sextet_char_valid: "base64_is_valid_char (sextet_char t k) \<and> sextet_char t k \<noteq> CHR ''=''"
proof -
  have "encode_table ! unat (drop_bit k t AND 63) \<in> set encode_table"
    by (rule nth_mem) (use sextet_lt[of "drop_bit k t"] in \<open>simp add: encode_table_def\<close>)
  then show ?thesis using encode_table_valid by (auto simp: sextet_char_def list_all_iff)
qed

lemma regroup_sextets:
  fixes t :: "32 word"
  assumes "\<And>n. bit t n \<Longrightarrow> n < 24"
  shows "push_bit 18 (drop_bit 18 t AND 63) OR push_bit 12 (drop_bit 12 t AND 63)
       OR push_bit 6 (drop_bit 6 t AND 63) OR (drop_bit 0 t AND 63) = t"
proof (rule bit_word_eqI)
  fix n assume n: "n < LENGTH(32)"
  have m: "(63 :: 32 word) = mask 6" by (simp add: mask_eq_exp_minus_1)
  show "bit (push_bit 18 (drop_bit 18 t AND 63) OR push_bit 12 (drop_bit 12 t AND 63)
       OR push_bit 6 (drop_bit 6 t AND 63) OR (drop_bit 0 t AND 63)) n = bit t n"
  proof -
    consider "n < 6" | "6 \<le> n" "n < 12" | "12 \<le> n" "n < 18" | "18 \<le> n" "n < 24" | "24 \<le> n"
      by linarith
    then show ?thesis using assms[of n] n unfolding m
      by cases (auto simp: bit_simps)
  qed
qed

lemma triple_bits:
  "bit (push_bit 16 (of_char a) OR push_bit 8 (of_char b) OR (of_char c) :: 32 word) n \<Longrightarrow> n < 24"
  by (auto simp: bit_simps dest!: bit_of_char)

lemma byte_of_triple:
  "byte_of (push_bit 16 (of_char a) OR push_bit 8 (of_char b) OR (of_char c)) 16 = a"
  "byte_of (push_bit 16 (of_char a) OR push_bit 8 (of_char b) OR (of_char c)) 8 = b"
  "byte_of (push_bit 16 (of_char a) OR push_bit 8 (of_char b) OR (of_char c)) 0 = c"
proof -
  let ?t = "push_bit 16 (of_char a) OR push_bit 8 (of_char b) OR (of_char c) :: 32 word"
  have m: "(255 :: 32 word) = mask 8" by (simp add: mask_eq_exp_minus_1)
  have "drop_bit 16 ?t AND 255 = of_char a" "drop_bit 8 ?t AND 255 = of_char b" "drop_bit 0 ?t AND 255 = of_char c"
    unfolding m by (rule bit_word_eqI; auto simp: bit_simps dest: bit_of_char)+
  then show "byte_of ?t 16 = a" "byte_of ?t 8 = b" "byte_of ?t 0 = c"
    by (simp_all add: byte_of_def unat_of_char)
qed

section \<open>What the two loops do\<close>

lemma length_encode_groups: "length (encode_groups s) = ((length s + 2) div 3) * 4"
proof (induction s rule: encode_groups.induct)
  case (1 a b c rest)
  have "(length (a # b # c # rest) + 2) div 3 = Suc ((length rest + 2) div 3)"
    by simp
  with 1 show ?case by (simp add: Let_def)
qed (auto simp: Let_def)

lemma valid_pad [simp]: "base64_is_valid_char (CHR ''='')"
  by (simp add: base64_is_valid_char_def)

lemma encode_groups_valid: "c \<in> set (encode_groups s) \<Longrightarrow> base64_is_valid_char c"
proof (induction s rule: encode_groups.induct)
qed (auto simp: Let_def sextet_char_valid)

lemma decode_encode_groups: "decode_groups (length s) (encode_groups s) = Ret s"
proof -
  have tab: "decode_table ! of_char (sextet_char t k) \<noteq> 255" for t k
    using sextet_char_valid[of t k] decode_table_sextet(1)[of "of_char (sextet_char t k)"]
    by (simp add: valid_char_code)
  have pad: "table_sextet (CHR ''='') = 0" "decode_table ! of_char (CHR ''='') \<noteq> 255"
    by (simp_all add: table_sextet_def decode_table_def)
  have z: "of_char (CHR 0x00) = (0 :: 32 word)" by simp
  have m: "(63 :: 32 word) = mask 6" by (simp add: mask_eq_exp_minus_1)
  have low0: "push_bit 16 (of_char a) OR push_bit 8 (of_char b) AND 63 = push_bit 16 (of_char a :: 32 word)" for a b
    unfolding m by (rule bit_word_eqI) (auto simp: bit_simps)
  have t2: "(push_bit 16 (of_char a) OR push_bit 8 (of_char b)) AND 63 = (0 :: 32 word)" for a b
    unfolding m by (rule bit_word_eqI) (auto simp: bit_simps)
  have t1: "drop_bit k (push_bit 16 (of_char a)) AND 63 = (0 :: 32 word)" if "k = 0 \<or> k = 6" for a k
    unfolding m using that by (intro bit_word_eqI) (auto simp: bit_simps)
  show ?thesis
  proof (induction s rule: encode_groups.induct)
    case (1 a b c rest)
    let ?t = "push_bit 16 (of_char a) OR push_bit 8 (of_char b) OR of_char c :: 32 word"
    have r: "push_bit 18 (drop_bit 18 ?t AND 63) OR push_bit 12 (drop_bit 12 ?t AND 63)
       OR push_bit 6 (drop_bit 6 ?t AND 63) OR (drop_bit 0 ?t AND 63) = ?t"
      by (rule regroup_sextets) (rule triple_bits)
    show ?case using 1 tab
      by (simp only: encode_groups.simps decode_groups.simps Let_def table_sextet_char r)
         (simp add: byte_of_triple)
  next
    case (2 a b)
    let ?t = "push_bit 16 (of_char a) OR push_bit 8 (of_char b) :: 32 word"
    have r: "push_bit 18 (drop_bit 18 ?t AND 63) OR push_bit 12 (drop_bit 12 ?t AND 63)
       OR push_bit 6 (drop_bit 6 ?t AND 63) OR 0 = ?t"
      using regroup_sextets[of ?t] triple_bits[of a b "CHR 0x00"] by (simp add: t2)
    show ?case using tab pad byte_of_triple[of a b "CHR 0x00"]
      by (simp only: encode_groups.simps decode_groups.simps Let_def table_sextet_char pad r)
         (simp add: z)
  next
    case (3 a)
    let ?t = "push_bit 16 (of_char a) :: 32 word"
    have r: "push_bit 18 (drop_bit 18 ?t AND 63) OR push_bit 12 (drop_bit 12 ?t AND 63)
       OR push_bit 6 0 OR 0 = ?t"
      using regroup_sextets[of ?t] triple_bits[of a "CHR 0x00" "CHR 0x00"] t1[of 0 a] t1[of 6 a] by simp
    show ?case using tab pad byte_of_triple[of a "CHR 0x00" "CHR 0x00"]
      by (simp only: encode_groups.simps decode_groups.simps Let_def table_sextet_char pad r)
         (simp add: z)
  qed simp
qed

section \<open>Validation\<close>

text \<open>A data character is one of the 64; a well-formed text is data and at most two \<open>=\<close>.\<close>

definition is_data :: "char \<Rightarrow> bool" where
  "is_data c \<longleftrightarrow> base64_is_valid_char c \<and> c \<noteq> CHR ''=''"

definition b64_wellformed :: "string \<Rightarrow> bool" where
  "b64_wellformed t \<longleftrightarrow> length t mod 4 = 0 \<and>
     (let d = takeWhile is_data t; p = dropWhile is_data t
      in length p \<le> 2 \<and> list_all (\<lambda>c. c = CHR ''='') p)"

lemma pad_block:
  assumes "n mod 4 = (0::nat)" "i < n"
  shows "(i div 4) * 4 + 4 = n \<and> \<not> i - (i div 4) * 4 < 2 \<longleftrightarrow> n - i \<le> 2"
proof -
  obtain q where q: "n = 4 * q" using assms(1) by (metis mod_0_imp_dvd dvdE)
  obtain d m where i: "i = 4 * d + m" "m < 4"
    by (metis mod_less_divisor mult_div_mod_eq zero_less_numeral)
  then have "i div 4 = d" by simp
  then show ?thesis using q i assms(2) by simp presburger
qed

lemma validate_from_None:
  assumes "n mod 4 = 0" "n = i + length cs"
  shows "validate_from n i cs = None \<longleftrightarrow>
     (let p = dropWhile is_data cs in length p \<le> 2 \<and> list_all (\<lambda>c. c = CHR ''='') p)"
  using assms(2)
proof (induction cs arbitrary: i)
  case Nil
  then show ?case by simp
next
  case (Cons c cs)
  show ?case
  proof (cases "is_data c")
    case True
    then show ?thesis using Cons.IH[of "Suc i"] Cons.prems by (simp add: is_data_def)
  next
    case False
    show ?thesis
    proof (cases "c = CHR ''=''")
      case True
      have "i < n" "n - i = Suc (length cs)" using Cons.prems by simp_all
      then show ?thesis using pad_block[OF assms(1), of i] True False
        by (auto simp: Let_def list_all_iff)
    next
      case neq: False
      then show ?thesis using False by (simp add: is_data_def)
    qed
  qed
qed

lemma validate_wellformed:
  "length t mod 4 = 0 \<Longrightarrow> validate_from (length t) 0 t = None \<longleftrightarrow> b64_wellformed t"
  using validate_from_None[of "length t" 0 t] by (simp add: b64_wellformed_def Let_def)

lemma wellformed_valid: "b64_wellformed t \<Longrightarrow> c \<in> set t \<Longrightarrow> base64_is_valid_char c"
proof -
  assume w: "b64_wellformed t" and "c \<in> set t"
  then have "c \<in> set (takeWhile is_data t) \<or> c \<in> set (dropWhile is_data t)"
    by (metis UnE set_append takeWhile_dropWhile_id)
  then show ?thesis
  proof
    assume "c \<in> set (takeWhile is_data t)"
    then show ?thesis by (auto dest: set_takeWhileD simp: is_data_def)
  next
    assume "c \<in> set (dropWhile is_data t)"
    moreover have "list_all (\<lambda>c. c = CHR ''='') (dropWhile is_data t)"
      using w by (simp add: b64_wellformed_def Let_def)
    ultimately have "c = CHR ''=''" by (simp add: list_all_iff)
    then show ?thesis by simp
  qed
qed

lemma decode_groups_total:
  assumes "length cs mod 4 = 0" "\<And>c. c \<in> set cs \<Longrightarrow> base64_is_valid_char c"
  shows "\<exists>out. decode_groups room cs = Ret out \<and> length out = min room (3 * (length cs div 4))"
  using assms
proof (induction room cs rule: decode_groups.induct)
  case (1 room a b c d rest)
  let ?t = "push_bit 18 (table_sextet a) OR push_bit 12 (table_sextet b)
              OR push_bit 6 (table_sextet c) OR table_sextet d"
  let ?bytes = "take room [byte_of ?t 16, byte_of ?t 8, byte_of ?t 0]"
  have tab: "decode_table ! of_char x \<noteq> 255" if "x \<in> {a, b, c, d}" for x
    using that "1.prems"(2)[of x] decode_table_sextet(1)[of "of_char x"]
    by (auto simp: valid_char_code)
  have "length rest mod 4 = 0" using "1.prems"(1) by simp
  then obtain out where out: "decode_groups (room - length ?bytes) rest = Ret out"
      "length out = min (room - length ?bytes) (3 * (length rest div 4))"
    using "1.IH"[OF refl refl] tab "1.prems"(2) by auto
  have "decode_groups room (a # b # c # d # rest) = Ret (?bytes @ out)"
    using tab out(1) by (simp add: Let_def)
  moreover have "length (a # b # c # d # rest) div 4 = Suc (length rest div 4)" by simp
  moreover have lb: "length ?bytes = min room 3" by (simp add: numeral_3_eq_3 min.commute)
  have "length (?bytes @ out) = min room (3 * Suc (length rest div 4))"
    using out(2) unfolding length_append lb by (auto simp: min_def)
  ultimately show ?case by metis
qed auto

lemma decoded_len_bound: "length t mod 4 = 0 \<Longrightarrow> t \<noteq> [] \<Longrightarrow> decoded_len t \<le> 3 * (length t div 4)"
  by (simp add: decoded_len_def Let_def)


section \<open>The two functions\<close>

lemma rstrip_encode: "rstrip is_trailing_ws (encode_groups s) = encode_groups s"
proof (rule rstrip_idem_set)
  fix c assume "c \<in> set (encode_groups s)"
  then have "valid_code (of_char c)"
    using encode_groups_valid valid_char_code by blast
  then show "\<not> is_trailing_ws c"
    by (auto simp: is_trailing_ws_def valid_code_def)
qed

lemma encode_groups_tail:
  "encode_groups s = [] \<or> (\<exists>d p. encode_groups s = d @ replicate p (CHR ''='') \<and> p \<le> 2 \<and>
      (\<forall>c \<in> set d. is_data c) \<and> 2 \<le> length d \<and> length s + p = 3 * (length (encode_groups s) div 4))"
proof (induction s rule: encode_groups.induct)
  case (1 a b c rest)
  let ?t = "push_bit 16 (of_char a) OR push_bit 8 (of_char b) OR (of_char c) :: 32 word"
  let ?q = "[sextet_char ?t 18, sextet_char ?t 12, sextet_char ?t 6, sextet_char ?t 0]"
  have e: "encode_groups (a # b # c # rest) = ?q @ encode_groups rest" by (simp add: Let_def)
  have q: "\<forall>x \<in> set ?q. is_data x" using sextet_char_valid by (auto simp: is_data_def)
  from 1[OF refl] show ?case
  proof
    assume n: "encode_groups rest = []"
    then have "rest = []" using length_encode_groups[of rest] by (cases rest) auto
    then show ?thesis using e q n by (intro disjI2 exI[of _ ?q] exI[of _ 0]) simp
  next
    assume "\<exists>d p. encode_groups rest = d @ replicate p (CHR ''='') \<and> p \<le> 2 \<and>
      (\<forall>c \<in> set d. is_data c) \<and> 2 \<le> length d \<and> length rest + p = 3 * (length (encode_groups rest) div 4)"
    then obtain d p where d: "encode_groups rest = d @ replicate p (CHR ''='')" "p \<le> 2"
      "\<forall>c \<in> set d. is_data c" "2 \<le> length d" "length rest + p = 3 * (length (encode_groups rest) div 4)"
      by blast
    have "length (?q @ encode_groups rest) div 4 = Suc (length (encode_groups rest) div 4)" by simp
    then show ?thesis using d q unfolding e by (intro disjI2 exI[of _ "?q @ d"] exI[of _ p]) auto
  qed
next
  case (2 a b)
  let ?t = "push_bit 16 (of_char a) OR push_bit 8 (of_char b) :: 32 word"
  show ?case
    by (intro disjI2 exI[of _ "[sextet_char ?t 18, sextet_char ?t 12, sextet_char ?t 6]"] exI[of _ 1])
       (simp add: Let_def is_data_def sextet_char_valid)
next
  case (3 a)
  let ?t = "push_bit 16 (of_char a) :: 32 word"
  show ?case
    by (intro disjI2 exI[of _ "[sextet_char ?t 18, sextet_char ?t 12]"] exI[of _ 2])
       (simp add: Let_def is_data_def sextet_char_valid numeral_2_eq_2)
qed simp

lemma wellformed_data_pad:
  assumes "\<forall>c \<in> set d. is_data c" "p \<le> 2" "length (d @ replicate p (CHR ''='')) mod 4 = 0"
  shows "b64_wellformed (d @ replicate p (CHR ''=''))"
proof -
  have np: "\<not> is_data (CHR ''='')" by (simp add: is_data_def)
  have "dropWhile is_data (d @ replicate p (CHR ''='')) = replicate p (CHR ''='')"
    using assms(1) np by (cases p) (simp_all add: dropWhile_append2)
  then show ?thesis using assms(2,3) by (simp add: b64_wellformed_def list_all_iff)
qed

lemma encode_groups_wellformed: "b64_wellformed (encode_groups s)"
proof -
  have "length (encode_groups s) mod 4 = 0" by (simp add: length_encode_groups)
  then show ?thesis using encode_groups_tail[of s] wellformed_data_pad
    by (elim disjE exE conjE) (simp add: b64_wellformed_def, metis)
qed

lemma decoded_len_data_pad:
  assumes "\<forall>c \<in> set d. is_data c" "2 \<le> length d" "p \<le> 2"
  shows "decoded_len (d @ replicate p (CHR ''='')) = 3 * ((length d + p) div 4) - p"
proof -
  obtain d1 y where d1: "d = d1 @ [y]" using assms(2) by (cases d rule: rev_cases) auto
  obtain d' x where d': "d1 = d' @ [x]" using assms(2) d1 by (cases d1 rule: rev_cases) auto
  have d: "d = d' @ [x, y]" using d1 d' by simp
  have neq: "x \<noteq> CHR ''=''" "y \<noteq> CHR ''=''" using assms(1) d by (auto simp: is_data_def)
  consider "p = 0" | "p = 1" | "p = 2" using assms(3) by linarith
  then show ?thesis
  proof cases
    case 1
    have "(d' @ [x, y]) ! (length d' + 1) = y" "(d' @ [x, y]) ! (length d' + 0) = x"
      by (simp_all only: nth_append_length_plus) simp_all
    then show ?thesis using 1 neq by (simp add: d decoded_len_def)
  next
    case 2
    have "(d' @ [x, y, CHR ''='']) ! (length d' + 2) = CHR ''=''" "(d' @ [x, y, CHR ''='']) ! (length d' + 1) = y"
      by (simp_all only: nth_append_length_plus) simp_all
    then show ?thesis using 2 neq by (simp add: d decoded_len_def)
  next
    case 3
    have "(d' @ [x, y, CHR ''='', CHR ''='']) ! (length d' + 3) = CHR ''=''"
      "(d' @ [x, y, CHR ''='', CHR ''='']) ! (length d' + 2) = CHR ''=''"
      by (simp_all only: nth_append_length_plus) simp_all
    moreover have "(d' @ [x, y, CHR ''='', CHR ''='']) ! Suc (Suc (Suc (length d'))) = CHR ''=''"
      by (simp add: nth_append)
    moreover have "d @ replicate p (CHR ''='') = d' @ [x, y, CHR ''='', CHR ''='']"
      using 3 d by (simp add: numeral_2_eq_2)
    moreover have "length d + p = length d' + 4" using 3 d by simp
    ultimately show ?thesis using 3 by (simp add: decoded_len_def)
  qed
qed

lemma decoded_len_encode: "s \<noteq> [] \<Longrightarrow> decoded_len (encode_groups s) = length s"
proof -
  assume "s \<noteq> []"
  then have "encode_groups s \<noteq> []" by (cases s rule: encode_groups.cases) (auto simp: Let_def)
  then obtain d p where d: "encode_groups s = d @ replicate p (CHR ''='')" "p \<le> 2"
      "\<forall>c \<in> set d. is_data c" "2 \<le> length d" "length s + p = 3 * (length (encode_groups s) div 4)"
    using encode_groups_tail[of s] by blast
  then have "decoded_len (encode_groups s) = 3 * ((length d + p) div 4) - p"
    using decoded_len_data_pad by simp
  then show ?thesis using d by simp
qed

lemma base64_encode_ret:
  assumes "length s \<le> 1610612733"
  shows "base64_encode s n =
    (if n < ((length s + 2) div 3) * 4 + 1 then Ret None else Ret (Some (encode_groups s)))"
proof -
  have v: "list_all base64_is_valid_char (encode_groups s)"
    using encode_groups_valid by (auto simp: list_all_iff)
  have "length (encode_groups s) \<le> 2147483647" using assms by (simp add: length_encode_groups)
  then show ?thesis using assms v
    by (simp add: base64_encode_def base64_encoded_size_def length_encode_groups)
qed

lemma base64_decode_cases:
  assumes "length s \<le> 2863311528" "1 \<le> n"
  defines "t \<equiv> rstrip is_trailing_ws s"
  shows "base64_decode s n =
    (if t = [] then Ret (Inr [])
     else if length t mod 4 \<noteq> 0 then Ret (Inl NotMultipleOf4)
     else case validate_from (length t) 0 t of Some e \<Rightarrow> Ret (Inl e)
       | None \<Rightarrow> if n < decoded_len t then Ret (Inl OutputTooSmall)
                 else and_then (decode_groups (decoded_len t) t) (\<lambda>out. Ret (Inr out)))
   \<and> (t \<noteq> [] \<and> b64_wellformed t \<longrightarrow>
        (\<exists>out. decode_groups (decoded_len t) t = Ret out \<and> length out = decoded_len t))"
proof -
  have tot: "\<exists>out. decode_groups (decoded_len t) t = Ret out \<and> length out = decoded_len t"
    if "t \<noteq> []" "b64_wellformed t"
  proof -
    have m: "length t mod 4 = 0" using that(2) by (simp add: b64_wellformed_def)
    show ?thesis
      using decode_groups_total[OF m, of "decoded_len t"] wellformed_valid[OF that(2)]
        decoded_len_bound[OF m that(1)] by (auto simp: min_def)
  qed
  have small: "decoded_len t \<le> 2147483647" if "t \<noteq> []" "length t mod 4 = 0"
  proof -
    have "length t \<le> length s" unfolding t_def by (rule rstrip_length)
    then have "length t \<le> 2863311528" using assms(1) by simp
    then show ?thesis using that by (auto simp: decoded_len_def Let_def)
  qed
  show ?thesis
  proof (cases "t = [] \<or> length t mod 4 \<noteq> 0")
    case True
    then show ?thesis using assms tot by (auto simp: base64_decode_def Let_def)
  next
    case False
    then show ?thesis using assms(1,2) tot small validate_wellformed[of t]
      by (auto simp: base64_decode_def Let_def t_def[symmetric] split: option.splits)
  qed
qed

lemma base64_decode_encode:
  assumes "length s \<le> 1610612733" "length s \<le> n" "1 \<le> n"
  shows "base64_decode (encode_groups s) n = Ret (Inr s)"
proof -
  have "length (encode_groups s) \<le> 2147483644" using assms(1) by (simp add: length_encode_groups)
  then have b: "length (encode_groups s) \<le> 2863311528" by simp
  have m: "length (encode_groups s) mod 4 = 0" by (simp add: length_encode_groups)
  have v: "validate_from (length (encode_groups s)) 0 (encode_groups s) = None"
    using validate_wellformed[OF m] encode_groups_wellformed by simp
  show ?thesis
  proof (cases "s = []")
    case True
    then show ?thesis using base64_decode_cases[OF b assms(3)] by (simp add: rstrip_encode)
  next
    case False
    have "encode_groups s \<noteq> []" using False by (cases s rule: encode_groups.cases) (auto simp: Let_def)
    then show ?thesis using base64_decode_cases[OF b assms(3)] m v assms(2) False
      by (simp add: rstrip_encode decoded_len_encode decode_encode_groups)
  qed
qed

lemma base64_decode_outcome:
  assumes "length s \<le> 2863311528" "1 \<le> n"
  defines "t \<equiv> rstrip is_trailing_ws s"
  shows "base64_decode s n \<noteq> Abort
    \<and> ((\<exists>out. base64_decode s n = Ret (Inr out)) \<longleftrightarrow> t = [] \<or> b64_wellformed t \<and> decoded_len t \<le> n)
    \<and> (\<forall>out. base64_decode s n = Ret (Inr out) \<longrightarrow> length out = (if t = [] then 0 else decoded_len t))"
proof -
  note c = base64_decode_cases[OF assms(1,2), folded t_def]
  show ?thesis
  proof (cases "t = [] \<or> length t mod 4 \<noteq> 0")
    case True
    then show ?thesis using c by (auto simp: b64_wellformed_def)
  next
    case False
    then show ?thesis
      using c validate_wellformed[of t] by (cases "validate_from (length t) 0 t") auto
  qed
qed

text \<open>Bytes beyond the first NUL do not occur in an encoding, so it is a line of the file.\<close>

lemma encode_groups_chars:
  "c \<in> set (encode_groups s) \<Longrightarrow> c \<noteq> nul \<and> c \<noteq> nl \<and> c \<noteq> cr \<and> c \<noteq> sp \<and> c \<noteq> CHR ''-''"
  by (drule encode_groups_valid) (auto simp: valid_char_code valid_code_def)

lemma encode_groups_nonempty: "s \<noteq> [] \<Longrightarrow> encode_groups s \<noteq> []"
  by (cases s rule: encode_groups.cases) (auto simp: Let_def)

section \<open>Properties\<close>

text \<open>C12: Decoding the encoding of any byte string of at most \<open>(INT_MAX / 4) * 3\<close> bytes gives the
  string back, for every buffer that \<open>base64_encoded_size\<close> resp. the string's length allows;
  neither function stops in an assertion.\<close>

theorem base64_roundtrip:
  assumes "length s \<le> 1610612733" and "base64_encoded_size (length s) = Ret esz" and "esz \<le> osz"
    and "length s \<le> dsz" and "1 \<le> dsz"
  shows "\<exists>e. base64_encode s osz = Ret (Some e) \<and> length e = esz - 1 \<and> base64_decode e dsz = Ret (Inr s)"
proof -
  have "esz = ((length s + 2) div 3) * 4 + 1"
    using assms(1,2) by (simp add: base64_encoded_size_def)
  then have "base64_encode s osz = Ret (Some (encode_groups s))"
    using base64_encode_ret[OF assms(1)] assms(3) by simp
  then show ?thesis
    using base64_decode_encode[OF assms(1,4,5)] \<open>esz = _\<close> length_encode_groups[of s] by auto
qed

theorem base64_roundtrip_witness:
  "base64_encode ''hi!x'' 9 = Ret (Some ''aGkheA=='') \<and> base64_decode ''aGkheA=='' 6 = Ret (Inr ''hi!x'')"
proof -
  have e: "encode_groups ''hi!x'' = ''aGkheA==''"
    by (simp add: sextet_char_def encode_table_def)
  have "base64_encode ''hi!x'' 9 = Ret (Some (encode_groups ''hi!x''))"
    by (subst base64_encode_ret) simp_all
  moreover have "\<exists>e. base64_encode ''hi!x'' 9 = Ret (Some e) \<and> length e = 9 - 1
      \<and> base64_decode e 6 = Ret (Inr ''hi!x'')"
    by (rule base64_roundtrip) (simp_all add: base64_encoded_size_def)
  ultimately show ?thesis unfolding e by auto
qed

text \<open>For input lengths up to 2863311528 and any non-empty output buffer \<open>base64_decode\<close> never
  stops in an assertion; after trailing white space is stripped it succeeds exactly on the empty text
  and on texts made of whole blocks of alphabet characters with at most two \<open>=\<close> at the very end whose
  decoded length fits the buffer, and then the number of bytes it writes is that length.\<close>

theorem base64_decode_accepts:
  assumes "length s \<le> 2863311528" and "1 \<le> n"
  shows "base64_decode s n \<noteq> Abort
    \<and> ((\<exists>out. base64_decode s n = Ret (Inr out)) \<longleftrightarrow>
         rstrip is_trailing_ws s = []
         \<or> b64_wellformed (rstrip is_trailing_ws s) \<and> decoded_len (rstrip is_trailing_ws s) \<le> n)
    \<and> (\<forall>out. base64_decode s n = Ret (Inr out) \<longrightarrow>
         length out = (if rstrip is_trailing_ws s = [] then 0 else decoded_len (rstrip is_trailing_ws s)))"
  by (rule base64_decode_outcome [OF assms])

theorem base64_decode_accepts_witness:
  "base64_decode ''QQ== '' 1 \<noteq> Abort \<and> (\<exists>out. base64_decode ''QQ== '' 1 = Ret (Inr out))
   \<and> base64_decode ''Q=Q='' 9 \<noteq> Abort \<and> \<not> (\<exists>out. base64_decode ''Q=Q='' 9 = Ret (Inr out))"
proof -
  have "rstrip is_trailing_ws ''QQ== '' = ''QQ==''" "rstrip is_trailing_ws ''Q=Q='' = ''Q=Q=''"
    by (simp_all add: rstrip_def is_trailing_ws_def)
  moreover have "b64_wellformed ''QQ==''" "\<not> b64_wellformed ''Q=Q=''" "decoded_len ''QQ=='' = 1"
    by (simp_all add: b64_wellformed_def is_data_def valid_char_code valid_code_def decoded_len_def)
  ultimately show ?thesis
    using base64_decode_accepts[of "''QQ== ''" 1] base64_decode_accepts[of "''Q=Q=''" 9] by simp
qed

text \<open>The documented maximum \<open>(INT_MAX / 3) * 4 + 4\<close> for the input of \<open>base64_decode\<close> is too
  large: an input of exactly that many data characters passes the precondition, is decoded in full
  and then stops in the postcondition, because its 2147483649 decoded bytes exceed \<open>INT_MAX\<close>.\<close>

theorem base64_decode_bound_too_large:
  "base64_decode (replicate 2863311532 (CHR ''A'')) 2147483649 = Abort"
proof -
  let ?t = "replicate 2863311532 (CHR ''A'')"
  have A: "is_data (CHR ''A'')" "\<not> is_trailing_ws (CHR ''A'')"
    by (simp_all add: is_data_def valid_char_code valid_code_def is_trailing_ws_def)
  have r: "rstrip is_trailing_ws ?t = ?t" using A(2) by (intro rstrip_idem_set) auto
  have tw: "takeWhile is_data ?t = ?t" "dropWhile is_data ?t = []" using A(1) by auto
  have w: "b64_wellformed ?t" by (simp only: b64_wellformed_def tw Let_def length_replicate) simp
  have len: "length ?t = 2863311532" by (rule length_replicate)
  have v: "validate_from (length ?t) 0 ?t = None"
    using validate_wellformed[of ?t] w by (simp only: len) simp
  have n: "?t ! i \<noteq> CHR ''=''" if "i < 2863311532" for i
    using nth_replicate[OF that, of "CHR ''A''"] by simp
  have d: "decoded_len ?t = 2147483649"
    using n[of "2863311532 - 1"] n[of "2863311532 - 2"] by (simp only: decoded_len_def Let_def len) simp
  obtain out where "decode_groups 2147483649 ?t = Ret out" "length out = 2147483649"
    using decode_groups_total[of ?t 2147483649] wellformed_valid[OF w] by (auto simp only: len) auto
  then show ?thesis
    by (simp only: base64_decode_def r Let_def len v[unfolded len] d) simp
qed

end
