(* ===== verification/ChatWire.thy ===== *)
theory ChatWire
  imports Base64
begin

text \<open>
  The text formats of a chat file (src/src/nbs-chat/chat_file.c): bounded integer parsing,
  the self-referential \<open>file-length\<close> header, the participants header, the wire format of
  one message and the layout of the whole file.
\<close>

abbreviation (input) MAX_HANDLE_LEN :: nat where "MAX_HANDLE_LEN \<equiv> 64"
abbreviation (input) MAX_MESSAGE_LEN :: nat where "MAX_MESSAGE_LEN \<equiv> 1048576"
abbreviation (input) MAX_MESSAGES :: nat where "MAX_MESSAGES \<equiv> 10000"
abbreviation (input) MAX_PARTICIPANTS :: nat where "MAX_PARTICIPANTS \<equiv> 256"
abbreviation (input) MAX_PATH_LEN :: nat where "MAX_PATH_LEN \<equiv> 4096"

section \<open>Bounded integer parsing\<close>

text \<open>\<open>long\<close> is 64 bits wide on the platforms the sources target, so \<open>strtol\<close> is \<open>strtoll\<close>.\<close>

definition parse_ok :: "strtol_result \<Rightarrow> bool" where
  "parse_ok r \<longleftrightarrow> \<not> st_erange r \<and> \<not> st_noconv r
     \<and> (case st_end r of [] \<Rightarrow> True | c # _ \<Rightarrow> c = nl \<or> c = cr)"

definition safe_parse_int :: "string \<Rightarrow> int option" where
  "safe_parse_int str =
     (let r = strtoll str in
      if \<not> parse_ok r then None
      else if st_val r < INT_MIN \<or> st_val r > INT_MAX then None
      else Some (st_val r))"

definition safe_parse_int64 :: "string \<Rightarrow> int option" where
  "safe_parse_int64 str =
     (let r = strtoll str in
      if \<not> parse_ok r then None
      else if st_val r < LLONG_MIN \<or> st_val r > LLONG_MAX then None
      else Some (st_val r))"

lemma safe_parse_int_dec:
  "INT_MIN \<le> i \<Longrightarrow> i \<le> INT_MAX \<Longrightarrow> r = [] \<or> hd r = nl \<Longrightarrow> safe_parse_int (dec i @ r) = Some i"
  using strtoll_dec[of i r]
  by (cases r) (auto simp: safe_parse_int_def parse_ok_def isdigit_def Let_def)

lemma safe_parse_int64_dec:
  "LLONG_MIN \<le> i \<Longrightarrow> i \<le> LLONG_MAX \<Longrightarrow> safe_parse_int64 (dec i) = Some i"
  using strtoll_dec[of i "[]"] by (simp add: safe_parse_int64_def parse_ok_def)

lemma safe_parse_int_range: "safe_parse_int s = Some i \<Longrightarrow> INT_MIN \<le> i \<and> i \<le> INT_MAX"
  by (auto simp: safe_parse_int_def Let_def split: if_splits)

section \<open>The file-length header\<close>

text \<open>
  The line \<open>file-length: N\<close> states the size of the file that contains it; the code guesses
  the digit count from the size without the line and corrects the guess once.
\<close>

definition ndigits :: "int \<Rightarrow> int" where
  "ndigits i = int (length (dec i))"

definition compute_file_length :: "string \<Rightarrow> int outcome" where
  "compute_file_length content_without_length =
     (let base_size = int (length (cstr content_without_length));
          digits = ndigits base_size;
          candidate0 = base_size + 14 + digits;
          candidate = (if ndigits candidate0 \<noteq> digits
                       then base_size + 14 + ndigits candidate0 else candidate0);
          final_digits = ndigits candidate
      in ASSERT_MSG (candidate = base_size + 14 + final_digits)
          (ASSERT_MSG (candidate > 0)
            (Ret candidate)))"

lemma ndigits_nat: "ndigits (int n) = int (length (dec_nat n))"
  by (simp add: ndigits_def dec_def)

lemma ndigits_ge_1: "1 \<le> ndigits i"
proof -
  have "0 < length (dec i)" by simp
  then show ?thesis unfolding ndigits_def by linarith
qed

lemma pow10_dominates: "(k::nat) \<ge> 1 \<Longrightarrow> 14 + k < 9 * 10 ^ k"
proof (induction k rule: nat_induct_at_least)
  case (Suc k)
  have "(9::nat) * 10 ^ Suc k = 10 * (9 * 10 ^ k)" by simp
  then show ?case using Suc.IH by linarith
qed simp

text \<open>Adding the line changes the digit count by at most one, and correcting it once is enough.\<close>

lemma digits_step:
  fixes b :: nat
  defines "k \<equiv> length (dec_nat b)"
  defines "c \<equiv> b + 14 + k"
  shows "length (dec_nat c) = k \<or>
         length (dec_nat c) = Suc k \<and> length (dec_nat (b + 14 + Suc k)) = Suc k"
proof -
  have k1: "1 \<le> k" unfolding k_def by (simp add: Suc_le_eq)
  have bk: "b < 10 ^ k" using length_dec_nat_bounds[of b] by (simp add: k_def)
  have mono: "k \<le> length (dec_nat c)" unfolding k_def c_def by (rule length_dec_nat_mono) simp
  have up: "b + 14 + Suc k < 10 ^ Suc k"
  proof -
    have "(10::nat) ^ Suc k = 10 ^ k + 9 * 10 ^ k" by simp
    then show ?thesis using bk pow10_dominates[OF k1] by linarith
  qed
  have "length (dec_nat x) \<le> Suc k" if "x < 10 ^ Suc k" "0 < x" for x
  proof -
    have "(10::nat) ^ (length (dec_nat x) - 1) < 10 ^ Suc k"
      using length_dec_nat_bounds[of x] that by linarith
    then have "length (dec_nat x) - 1 < Suc k"
      using power_less_imp_less_exp by (metis one_less_numeral_iff semiring_norm(76))
    then show ?thesis by simp
  qed
  then have le: "length (dec_nat c) \<le> Suc k" "length (dec_nat (b + 14 + Suc k)) \<le> Suc k"
    using up by (auto simp: c_def)
  have "length (dec_nat c) \<le> length (dec_nat (b + 14 + Suc k))"
    unfolding c_def by (rule length_dec_nat_mono) simp
  then show ?thesis using mono le by linarith
qed

lemma compute_file_length_ret:
  "\<exists>n. compute_file_length s = Ret n \<and> n = int (length (cstr s)) + 14 + ndigits n \<and> 0 < n"
proof -
  let ?b = "length (cstr s)"
  let ?k = "length (dec_nat ?b)"
  have c: "ndigits (int ?b) = int ?k" by (rule ndigits_nat)
  have c': "ndigits (int ?b + 14 + int ?k) = int (length (dec_nat (?b + 14 + ?k)))"
    using ndigits_nat[of "?b + 14 + ?k"] by simp
  have c'': "ndigits (int ?b + 14 + int (Suc ?k)) = int (length (dec_nat (?b + 14 + Suc ?k)))"
    using ndigits_nat[of "?b + 14 + Suc ?k"] by (simp only: of_nat_add of_nat_numeral)
  show ?thesis using digits_step[of ?b]
  proof
    assume "length (dec_nat (?b + 14 + ?k)) = ?k"
    then show ?thesis using c c' by (simp add: compute_file_length_def Let_def)
  next
    assume "length (dec_nat (?b + 14 + ?k)) = Suc ?k \<and> length (dec_nat (?b + 14 + Suc ?k)) = Suc ?k"
    then show ?thesis using c c' c'' by (simp add: compute_file_length_def Let_def)
  qed
qed

section \<open>The participants header\<close>

record participant =
  p_handle :: string
  p_count :: int

definition is_handle_end :: "char \<Rightarrow> bool" where
  "is_handle_end c \<longleftrightarrow> c = CHR ''('' \<or> c = CHR '','' \<or> c = nl"

text \<open>The count in brackets after a handle: the parsed count and the rest of the line.\<close>

definition parse_count :: "string \<Rightarrow> int \<times> string" where
  "parse_count p1 =
     (case p1 of
        [] \<Rightarrow> (0, [])
      | c # q \<Rightarrow>
          if c = CHR ''('' then
            (let num = takeWhile (\<lambda>c. c \<noteq> CHR '')'') q;
                 rest = dropWhile (\<lambda>c. c \<noteq> CHR '')'') q;
                 count = (if 0 < length num \<and> length num < 16
                          then (case safe_parse_int num of Some n \<Rightarrow> n | None \<Rightarrow> 0) else 0)
             in (count, drop 1 rest))
          else (0, p1))"

lemma parse_count_length: "length (snd (parse_count p)) \<le> length p"
proof (cases p)
  case (Cons c q)
  have "length (dropWhile (\<lambda>c. c \<noteq> CHR '')'') q) \<le> length q" by (rule length_dropWhile_le)
  then show ?thesis using Cons by (auto simp: parse_count_def Let_def)
qed (simp add: parse_count_def)

text \<open>\<open>room\<close> is \<open>max_parts - count\<close>.\<close>

function parse_participants :: "string \<Rightarrow> nat \<Rightarrow> participant list" where
  "parse_participants line room =
     (if line = [] \<or> room = 0 then []
      else (let p = dropWhile (\<lambda>c. c = sp \<or> c = CHR '','') line in
        (case p of
           [] \<Rightarrow> []
         | c # _ \<Rightarrow>
             if c = nl then []
             else (let handle = takeWhile (\<lambda>c. \<not> is_handle_end c) p;
                       (cnt, rest) = parse_count (dropWhile (\<lambda>c. \<not> is_handle_end c) p)
                   in if length handle = 0 \<or> length handle \<ge> MAX_HANDLE_LEN then []
                      else \<lparr>p_handle = handle, p_count = cnt\<rparr> # parse_participants rest (room - 1)))))"
  by pat_completeness auto
termination
  by (relation "measure snd") auto

declare parse_participants.simps [simp del]

definition format_participant :: "participant \<Rightarrow> string" where
  "format_participant q = p_handle q @ CHR ''('' # dec (p_count q) @ '')''"

text \<open>
  The loop of \<open>format_participants\<close>: \<open>buf\<close> holds what is written so far; an entry or a
  separator that does not fit is cut at the end of the buffer and ends the loop.
\<close>

fun format_loop :: "nat \<Rightarrow> bool \<Rightarrow> string \<Rightarrow> participant list \<Rightarrow> string" where
  "format_loop buf_size first buf [] = buf"
| "format_loop buf_size first buf (q # qs) =
     (if \<not> first \<and> \<not> length buf + 2 < buf_size then snprintf buf_size (buf @ '', '')
      else (let buf1 = (if first then buf else buf @ '', '') in
        if length buf1 + length (format_participant q) < buf_size
        then format_loop buf_size False (buf1 @ format_participant q) qs
        else snprintf buf_size (buf1 @ format_participant q)))"

definition format_participants :: "participant list \<Rightarrow> nat \<Rightarrow> string" where
  "format_participants parts buf_size = format_loop buf_size True [] parts"

fun bump_participant :: "participant list \<Rightarrow> string \<Rightarrow> participant list option" where
  "bump_participant [] handle = None"
| "bump_participant (q # qs) handle =
     (if p_handle q = handle then Some (q\<lparr>p_count := p_count q + 1\<rparr> # qs)
      else map_option ((#) q) (bump_participant qs handle))"

definition update_participants :: "participant list \<Rightarrow> string \<Rightarrow> nat \<Rightarrow> participant list" where
  "update_participants parts handle max_parts =
     (case bump_participant parts handle of
        Some parts' \<Rightarrow> parts'
      | None \<Rightarrow>
          if length parts \<ge> max_parts then parts
          else parts @ [\<lparr>p_handle = take (MAX_HANDLE_LEN - 1) handle, p_count = 1\<rparr>])"

section \<open>One message\<close>

record chat_message =
  m_handle :: string
  m_content :: string
  m_timestamp :: int

definition wire_epoch :: "string \<Rightarrow> int" where
  "wire_epoch e =
     (if 0 < length e \<and> length e < 20
      then (case safe_parse_int64 e of Some v \<Rightarrow> if v > 0 then v else 0 | None \<Rightarrow> 0) else 0)"

text \<open>The prefix before the first \<open>": "\<close>: \<open>handle\<close>, \<open>handle|EPOCH\<close> or \<open>handle|EPOCH|SIG\<close>.\<close>

definition parse_prefix :: "string \<Rightarrow> string \<times> int" where
  "parse_prefix pre =
     (if CHR ''|'' \<in> set pre then
        (let handle = takeWhile (\<lambda>c. c \<noteq> CHR ''|'') pre;
             after = drop (length handle + 1) pre
         in if CHR ''|'' \<in> set after
            then (handle, wire_epoch (takeWhile (\<lambda>c. c \<noteq> CHR ''|'') after))
            else (handle, wire_epoch after))
      else (pre, 0))"

text \<open>
  \<open>NoMessage\<close>: no separator, or a handle that is empty or too long (the line is dropped
  without counting it); \<open>EmbeddedNul\<close>: the content-length assertion fails.
\<close>

datatype wire_result = NoMessage | EmbeddedNul | Message chat_message

definition parse_wire :: "string \<Rightarrow> wire_result" where
  "parse_wire decoded =
     (case strstr '': '' (cstr decoded) of
        None \<Rightarrow> NoMessage
      | Some (pre, _) \<Rightarrow>
          (let (handle, ts) = parse_prefix pre in
           if length handle < MAX_HANDLE_LEN \<and> length handle > 0 then
             (let raw_content = drop (length pre + 2) decoded in
              if length raw_content = length (cstr raw_content)
              then Message \<lparr>m_handle = handle, m_content = cstr raw_content, m_timestamp = ts\<rparr>
              else EmbeddedNul)
           else NoMessage))"

definition send_wire :: "string \<Rightarrow> int \<Rightarrow> string \<Rightarrow> string" where
  "send_wire handle now message = handle @ CHR ''|'' # dec now @ '': '' @ message"

section \<open>The file\<close>

definition header_no_length :: "string \<Rightarrow> string \<Rightarrow> string \<Rightarrow> string" where
  "header_no_length last_writer last_write parts_str =
     unlines [''=== nbs-chat ==='', ''last-writer: '' @ last_writer, ''last-write: '' @ last_write,
              ''participants: '' @ parts_str, ''---'']"

text \<open>The lines that the chain of \<open>fprintf\<close> calls writes, each ended by a newline.\<close>

definition file_lines :: "string \<Rightarrow> string \<Rightarrow> int \<Rightarrow> string \<Rightarrow> string list \<Rightarrow> string list" where
  "file_lines last_writer last_write file_len parts_str body =
     [''=== nbs-chat ==='', ''last-writer: '' @ last_writer, ''last-write: '' @ last_write,
      ''file-length: '' @ dec file_len, ''participants: '' @ parts_str, ''---''] @ body"

section \<open>Facts about the formats\<close>

text \<open>A handle as the tools create them: it survives every text format of the chat file.\<close>

definition clean_handle :: "string \<Rightarrow> bool" where
  "clean_handle h \<longleftrightarrow> h \<noteq> [] \<and> length h < MAX_HANDLE_LEN \<and>
     set h \<inter> {nul, nl, cr, sp, CHR ''('', CHR '','', CHR ''|'', CHR '':'', CHR ''=''} = {} \<and> hd h \<noteq> CHR ''#''"

definition clean_participant :: "participant \<Rightarrow> bool" where
  "clean_participant q \<longleftrightarrow> clean_handle (p_handle q) \<and> 0 \<le> p_count q \<and> p_count q \<le> INT_MAX"

lemma clean_handle_chars:
  assumes "clean_handle h" "c \<in> set h"
  shows "c \<noteq> nul" "c \<noteq> nl" "c \<noteq> cr" "c \<noteq> sp" "c \<noteq> CHR ''(''" "c \<noteq> CHR '',''"
    "c \<noteq> CHR ''|''" "c \<noteq> CHR '':''" "c \<noteq> CHR ''=''"
  using assms by (auto simp: clean_handle_def)

lemma clean_handle_no_nul [simp]: "clean_handle h \<Longrightarrow> no_nul h"
  by (auto simp: no_nul_def dest: clean_handle_chars)

fun join_participants :: "participant list \<Rightarrow> string" where
  "join_participants [] = []"
| "join_participants [q] = format_participant q"
| "join_participants (q # qs) = format_participant q @ '', '' @ join_participants qs"

lemma join_participants_Cons:
  "join_participants (q # qs)
     = format_participant q @ (if qs = [] then [] else '', '' @ join_participants qs)"
  by (cases qs) simp_all

lemma format_loop_join:
  assumes "length buf < n"
  shows "format_loop n first buf ps
    = take (n - 1) (buf @ (if ps = [] \<or> first then [] else '', '') @ join_participants ps)"
  using assms
proof (induction ps arbitrary: buf first)
  case Nil
  then show ?case by simp
next
  case (Cons q qs)
  show ?case
  proof (cases "\<not> first \<and> \<not> length buf + 2 < n")
    case True
    then have "n \<le> length buf + 2" by auto
    then have "n - 1 \<le> length (buf @ '', '')" by simp
    then have "take (n - 1) (buf @ '', '' @ join_participants (q # qs)) = take (n - 1) (buf @ '', '')"
      by (metis append.assoc take_all_iff take_append append_Nil2 diff_is_0_eq take0)
    then show ?thesis using True by (simp add: snprintf_def)
  next
    case False
    let ?buf1 = "if first then buf else buf @ '', ''"
    show ?thesis
    proof (cases "length ?buf1 + length (format_participant q) < n")
      case True
      then have "format_loop n False (?buf1 @ format_participant q) qs
        = take (n - 1) ((?buf1 @ format_participant q) @ (if qs = [] then [] else '', '') @ join_participants qs)"
        by (subst Cons.IH) simp_all
      then show ?thesis using True False
        by (auto simp: Let_def join_participants_Cons simp del: take_append)
    next
      case over: False
      then have "n - 1 \<le> length (?buf1 @ format_participant q)" by simp
      then have "take (n - 1) ((?buf1 @ format_participant q) @ xs) = take (n - 1) (?buf1 @ format_participant q)" for xs
        by (metis take_all_iff take_append append_Nil2 diff_is_0_eq take0)
      then have "take (n - 1) (?buf1 @ format_participant q)
          = take (n - 1) (buf @ (if first then [] else '', '') @ join_participants (q # qs))"
        by (auto simp: join_participants_Cons simp del: take_append)
      then show ?thesis using over False by (auto simp: Let_def snprintf_def simp del: take_append)
    qed
  qed
qed

lemma format_participants_join:
  "0 < n \<Longrightarrow> format_participants ps n = take (n - 1) (join_participants ps)"
  unfolding format_participants_def using format_loop_join[of "[]" n True ps] by simp

lemma parse_count_dec:
  assumes "0 \<le> n" "n \<le> INT_MAX"
  shows "parse_count (CHR ''('' # dec n @ CHR '')'' # r) = (n, r)"
proof -
  have ne: "CHR '')'' \<notin> set (dec n)" by (rule dec_not_in) (simp_all add: isdigit_def)
  have "nat n < 10 ^ 15" using assms(2) by simp
  have "length (dec_nat (nat n)) < 16"
  proof (rule ccontr)
    assume "\<not> length (dec_nat (nat n)) < 16"
    then have "(10::nat) ^ 15 \<le> 10 ^ (length (dec_nat (nat n)) - 1)" by (intro power_increasing) auto
    moreover have "0 < nat n"
      using \<open>\<not> length (dec_nat (nat n)) < 16\<close> by (cases "nat n") (auto simp: dec_nat.simps)
    then have "10 ^ (length (dec_nat (nat n)) - 1) \<le> nat n" using length_dec_nat_bounds[of "nat n"] by simp
    ultimately show False using \<open>nat n < 10 ^ 15\<close> by linarith
  qed
  then have "length (dec n) < 16" using assms by (simp add: dec_def)
  moreover have "safe_parse_int (dec n) = Some n" using safe_parse_int_dec[of n "[]"] assms by simp
  moreover have "dropWhile (\<lambda>c. c \<noteq> CHR '')'') (dec n @ CHR '')'' # r) = CHR '')'' # r"
      "takeWhile (\<lambda>c. c \<noteq> CHR '')'') (dec n @ CHR '')'' # r) = dec n"
    using ne by (simp_all add: takeWhile_before dropWhile_before)
  ultimately show ?thesis by (simp add: parse_count_def Let_def)
qed

lemma parse_participant_step:
  assumes "clean_participant q" "pre = [] \<or> pre = '', ''" "0 < room"
  shows "parse_participants (pre @ format_participant q @ r) room = q # parse_participants r (room - 1)"
proof -
  let ?h = "p_handle q"
  have h: "clean_handle ?h" and cnt: "0 \<le> p_count q" "p_count q \<le> INT_MAX"
    using assms(1) by (auto simp: clean_participant_def)
  obtain c hs where c: "?h = c # hs" using h by (cases ?h) (auto simp: clean_handle_def)
  have cc: "c \<noteq> sp" "c \<noteq> CHR '',''" "c \<noteq> nl" using h clean_handle_chars[OF h, of c] c by auto
  have len: "length ?h < 64" using h by (simp add: clean_handle_def)
  let ?t = "format_participant q @ r"
  have t: "?t = ?h @ CHR ''('' # dec (p_count q) @ CHR '')'' # r" by (simp add: format_participant_def)
  have dw: "dropWhile (\<lambda>c. c = sp \<or> c = CHR '','') (pre @ ?t) = ?t"
    using assms(2) cc by (auto simp: t c)
  have nend: "\<And>x. x \<in> set ?h \<Longrightarrow> \<not> is_handle_end x"
    using clean_handle_chars[OF h] by (auto simp: is_handle_end_def)
  have e: "is_handle_end (CHR ''('')" by (simp add: is_handle_end_def)
  have tk: "takeWhile (\<lambda>c. \<not> is_handle_end c) ?t = ?h"
    "dropWhile (\<lambda>c. \<not> is_handle_end c) ?t = CHR ''('' # dec (p_count q) @ CHR '')'' # r"
    unfolding t using nend e by (auto simp: takeWhile_stop dropWhile_stop)
  have hd: "?t = c # hs @ CHR ''('' # dec (p_count q) @ CHR '')'' # r" by (simp add: t c)
  show ?thesis using assms(3) dw tk parse_count_dec[OF cnt] len cc c
    by (subst parse_participants.simps) (simp add: Let_def hd)
qed

lemma parse_format_participants:
  "list_all clean_participant ps \<Longrightarrow> length ps \<le> room \<Longrightarrow>
   parse_participants (join_participants ps) room = ps"
proof (induction ps arbitrary: room)
  case Nil
  then show ?case by (subst parse_participants.simps) simp
next
  case (Cons q qs)
  then have room: "0 < room" and q: "clean_participant q" by auto
  show ?case
  proof (cases qs)
    case Nil
    then show ?thesis using parse_participant_step[OF q, of "[]" room "[]"] room
      by (simp, subst parse_participants.simps, simp)
  next
    case c: (Cons q' qs')
    have step: "parse_participants ('', '' @ join_participants qs) n = parse_participants (join_participants qs) n" for n
    proof -
      let ?R = "if qs' = [] then [] else '', '' @ join_participants qs'"
      have e: "join_participants qs = format_participant q' @ ?R" using c join_participants_Cons by simp
      have q': "clean_participant q'" using Cons.prems(1) c by simp
      show ?thesis
      proof (cases n)
        case 0
        then show ?thesis by (simp add: parse_participants.simps [of _ 0])
      next
        case (Suc m)
        then show ?thesis unfolding e
          using parse_participant_step[OF q', of "'', ''" n ?R] parse_participant_step[OF q', of "[]" n ?R]
          by simp
      qed
    qed
    have "parse_participants (join_participants (q # qs)) room
        = q # parse_participants ('', '' @ join_participants qs) (room - 1)"
      using parse_participant_step[OF q, of "[]" room] room c by (simp add: join_participants_Cons)
    then show ?thesis using step Cons by simp
  qed
qed

lemma parse_wire_send_wire:
  assumes "clean_handle h" "0 < now" "now \<le> LLONG_MAX" "no_nul msg"
  shows "parse_wire (send_wire h now msg) = Message \<lparr>m_handle = h, m_content = msg, m_timestamp = now\<rparr>"
proof -
  let ?pre = "h @ CHR ''|'' # dec now"
  have w: "send_wire h now msg = ?pre @ CHR '':'' # '' '' @ msg" by (simp add: send_wire_def)
  have nn: "no_nul (send_wire h now msg)" using assms by (simp add: w)
  have colon: "CHR '':'' \<notin> set ?pre"
    using clean_handle_chars(8)[OF assms(1)] dec_not_in[of "CHR '':''" now] by (auto simp: isdigit_def)
  have ss: "strstr '': '' (send_wire h now msg) = Some (?pre, '': '' @ msg)"
    unfolding w using strstr_first[OF colon, of "'' ''" msg] by simp
  have pipe: "CHR ''|'' \<notin> set h" "CHR ''|'' \<notin> set (dec now)"
    using clean_handle_chars(7)[OF assms(1)] dec_not_in[of "CHR ''|''" now] by (auto simp: isdigit_def)
  have len: "0 < length (dec now)" "length (dec now) < 20"
  proof -
    show "0 < length (dec now)" by simp
    have "length (dec now) = length (dec_nat (nat now))" using assms(2) by (simp add: dec_def)
    moreover have "\<not> 20 \<le> length (dec_nat (nat now))"
    proof
      assume "20 \<le> length (dec_nat (nat now))"
      then have "(10::nat) ^ 19 \<le> 10 ^ (length (dec_nat (nat now)) - 1)" by (intro power_increasing) auto
      also have "\<dots> \<le> nat now" using length_dec_nat_bounds[of "nat now"] assms(2) by simp
      finally show False using assms(3) by simp
    qed
    ultimately show "length (dec now) < 20" by simp
  qed
  have ep: "wire_epoch (dec now) = now"
    using len assms(2,3) safe_parse_int64_dec[of now] by (simp add: wire_epoch_def)
  have pp: "parse_prefix ?pre = (h, now)"
    using pipe ep by (simp add: parse_prefix_def takeWhile_before)
  have w': "send_wire h now msg = (?pre @ '': '') @ msg" by (simp add: w)
  have "length ?pre + 2 = length (?pre @ '': '')" by simp
  then have d: "drop (length ?pre + 2) (send_wire h now msg) = msg"
    unfolding w' by (metis append_eq_conv_conj)
  have hl: "length h < 64" "0 < length h" using assms(1) by (auto simp: clean_handle_def)
  show ?thesis unfolding parse_wire_def cstr_id[OF nn] ss
    using pp d hl assms(4) by (simp add: Let_def cstr_id)
qed

lemma header_lines_length:
  "length (unlines (file_lines lw lt n ps body))
     = length (header_no_length lw lt ps @ unlines body) + 14 + length (dec n)"
  by (simp add: file_lines_def header_no_length_def)

text \<open>What the postcondition \<open>st.st_size == file_len\<close> of every writer compares.\<close>

lemma file_length_exact:
  assumes "compute_file_length (header_no_length lw lt ps @ unlines body) = Ret n"
    and "no_nul lw" "no_nul lt" "no_nul ps" "\<forall>l \<in> set body. no_nul l"
  shows "int (length (unlines (file_lines lw lt n ps body))) = n"
proof -
  have nn: "no_nul (header_no_length lw lt ps @ unlines body)"
    using assms(2-5) by (simp add: header_no_length_def)
  show ?thesis
    using assms(1) compute_file_length_ret[of "header_no_length lw lt ps @ unlines body"]
    unfolding header_lines_length by (auto simp: cstr_id[OF nn] ndigits_def)
qed

lemma no_nul_header [simp]:
  "no_nul (header_no_length lw lt ps) \<longleftrightarrow> no_nul lw \<and> no_nul lt \<and> no_nul ps"
  by (auto simp: header_no_length_def)

end
