(* ===== verification/ChatFile.thy ===== *)
theory ChatFile
  imports ChatWire
begin

text \<open>
  The files the chat tools work on, the companion lock (src/src/nbs-chat/lock.c) and reading:
  \<open>chat_state_check_invariants\<close>, \<open>chat_create\<close> and \<open>chat_read\<close> of
  src/src/nbs-chat/chat_file.c.  Every system call and allocation that may fail is a field of
  an environment record, so that each error return is a branch of the model.
\<close>

section \<open>Files and locks of one process\<close>

text \<open>
  \<open>held\<close> are the chat files whose lock this process holds.  An operation returns its result
  and the state it leaves; after \<open>Abort\<close> that is the state at the moment of \<open>abort()\<close>.
\<close>

record fs =
  files :: "path \<Rightarrow> string option"
  held :: "path set"

definition put_file :: "path \<Rightarrow> string \<Rightarrow> fs \<Rightarrow> fs" where
  "put_file p c s = s\<lparr>files := (files s)(p \<mapsto> c)\<rparr>"

definition remove_file :: "path \<Rightarrow> fs \<Rightarrow> fs" where
  "remove_file p s = s\<lparr>files := (files s)(p := None)\<rparr>"

lemma fs_simps [simp]:
  "files (put_file p c s) = (files s)(p \<mapsto> c)" "held (put_file p c s) = held s"
  "files (remove_file p s) = (files s)(p := None)" "held (remove_file p s) = held s"
  by (simp_all add: put_file_def remove_file_def)

datatype lock_try = Granted | Contended | LockError

text \<open>
  \<open>rl_getlk\<close>: \<open>None\<close> when \<open>F_GETLK\<close> itself fails, else whether it reports this process as
  the holder.
\<close>

record lock_env =
  lk_open :: bool
  lk_try :: lock_try
  lk_wait :: bool
  rl_unlock :: bool
  rl_getlk :: "bool option"
  rl_close :: bool

definition lock_path :: "path \<Rightarrow> path" where
  "lock_path p = p @ ''.lock''"

definition chat_lock_acquire :: "lock_env \<Rightarrow> path \<Rightarrow> fs \<Rightarrow> bool outcome \<times> fs" where
  "chat_lock_acquire e chat_path s =
     (if chat_path = [] then (Abort, s)
      else if \<not> length chat_path + 6 \<le> MAX_PATH_LEN then (Abort, s)
      else if \<not> lk_open e then (Ret False, s)
      else (let s1 = (if files s (lock_path chat_path) = None
                      then put_file (lock_path chat_path) [] s else s)
            in case lk_try e of
                 Granted \<Rightarrow> (Ret True, s1\<lparr>held := insert chat_path (held s1)\<rparr>)
               | LockError \<Rightarrow> (Ret False, s1)
               | Contended \<Rightarrow>
                   if lk_wait e then (Ret True, s1\<lparr>held := insert chat_path (held s1)\<rparr>)
                   else (Ret False, s1)))"

definition chat_lock_release :: "lock_env \<Rightarrow> path \<Rightarrow> fs \<Rightarrow> unit outcome \<times> fs" where
  "chat_lock_release e chat_path s =
     (if \<not> rl_unlock e then (Abort, s)
      else (let s1 = s\<lparr>held := held s - {chat_path}\<rparr>
            in if rl_getlk e = Some True then (Abort, s1)
               else if \<not> rl_close e then (Abort, s1)
               else (Ret (), s1)))"

text \<open>The cleanup at every return under the lock: release it, then return \<open>v\<close>.\<close>

definition release_and_return :: "lock_env \<Rightarrow> path \<Rightarrow> 'a \<Rightarrow> fs \<Rightarrow> 'a outcome \<times> fs" where
  "release_and_return e p v s =
     (case chat_lock_release e p s of (Ret _, s1) \<Rightarrow> (Ret v, s1) | (Abort, s1) \<Rightarrow> (Abort, s1))"

definition lock_env_sound :: "lock_env \<Rightarrow> bool" where
  "lock_env_sound e \<longleftrightarrow> rl_unlock e \<and> rl_getlk e \<noteq> Some True \<and> rl_close e"

lemma acquire_cases:
  assumes "chat_lock_acquire e p s = (r, s1)"
  obtains (abort) "r = Abort" "s1 = s" "p = [] \<or> \<not> length p + 6 \<le> 4096"
  | (failed) "r = Ret False" "held s1 = held s" "\<And>q. q \<noteq> lock_path p \<Longrightarrow> files s1 q = files s q"
  | (locked) "r = Ret True" "held s1 = insert p (held s)" "\<And>q. q \<noteq> lock_path p \<Longrightarrow> files s1 q = files s q"
proof -
  have "r = Abort \<and> s1 = s \<and> (p = [] \<or> \<not> length p + 6 \<le> 4096)
    \<or> r = Ret False \<and> held s1 = held s \<and> (\<forall>q. q \<noteq> lock_path p \<longrightarrow> files s1 q = files s q)
    \<or> r = Ret True \<and> held s1 = insert p (held s) \<and> (\<forall>q. q \<noteq> lock_path p \<longrightarrow> files s1 q = files s q)"
    using assms unfolding chat_lock_acquire_def Let_def
    by (auto split: if_splits lock_try.splits)
  then show thesis using that by blast
qed

lemma release_sound:
  "lock_env_sound e \<Longrightarrow> release_and_return e p v s = (Ret v, s\<lparr>held := held s - {p}\<rparr>)"
  by (simp add: release_and_return_def chat_lock_release_def lock_env_sound_def)

lemma release_files [simp]: "files (snd (release_and_return e p v s)) = files s"
  by (simp add: release_and_return_def chat_lock_release_def Let_def)

lemma release_result: "fst (release_and_return e p v s) \<in> {Ret v, Abort}"
  by (simp add: release_and_return_def chat_lock_release_def Let_def)

lemma release_held: "release_and_return e p v s = (Ret w, s1) \<Longrightarrow> p \<notin> held s1 \<and> w = v"
  by (auto simp: release_and_return_def chat_lock_release_def Let_def split: if_splits)

section \<open>Reading a chat file\<close>

record chat_state =
  last_writer :: string
  last_write :: string
  file_length :: int
  participants :: "participant list"
  messages :: "chat_message list"
  skipped_count :: int

definition empty_state :: chat_state where
  "empty_state = \<lparr>last_writer = [], last_write = [], file_length = 0, participants = [],
                  messages = [], skipped_count = 0\<rparr>"

definition chat_state_check_invariants :: "chat_state \<Rightarrow> bool" where
  "chat_state_check_invariants st \<longleftrightarrow>
     length (messages st) \<le> MAX_MESSAGES \<and> length (participants st) \<le> MAX_PARTICIPANTS
     \<and> list_all (\<lambda>q. 0 \<le> p_count q) (participants st)"

text \<open>What one stripped, non-empty line after the header gives.\<close>

datatype body_line = Padding | Corrupt | Ignored | Stop | NulContent | Msg chat_message

definition decode_line :: "string \<Rightarrow> body_line" where
  "decode_line line =
     (if list_all (\<lambda>c. c = sp) line then Padding
      else if length line mod 4 \<noteq> 0 then Corrupt
      else (case and_then (base64_decoded_size (length line)) (base64_decode line) of
              Abort \<Rightarrow> Stop
            | Ret (Inl _) \<Rightarrow> Corrupt
            | Ret (Inr decoded) \<Rightarrow>
                (case parse_wire decoded of
                   NoMessage \<Rightarrow> Ignored | EmbeddedNul \<Rightarrow> NulContent | Message m \<Rightarrow> Msg m)))"

record read_env =
  rd_open :: bool
  rd_alloc :: bool
  rd_line_alloc :: "nat \<Rightarrow> bool"
  rd_strdup :: "nat \<Rightarrow> bool"
  rd_ferror :: bool
  rd_close :: bool

record reader =
  in_header :: bool
  past_header :: bool
  line_number :: nat
  rd_state :: chat_state

definition header_field :: "string \<Rightarrow> chat_state \<Rightarrow> chat_state" where
  "header_field line st =
     (if take 13 line = ''last-writer: '' then
        st\<lparr>last_writer := snprintf MAX_HANDLE_LEN (drop 13 line)\<rparr>
      else if take 12 line = ''last-write: '' then
        st\<lparr>last_write := snprintf 64 (drop 12 line)\<rparr>
      else if take 13 line = ''file-length: '' then
        (case safe_parse_int64 (drop 13 line) of Some n \<Rightarrow> st\<lparr>file_length := n\<rparr> | None \<Rightarrow> st)
      else if take 14 line = ''participants: '' then
        st\<lparr>participants := parse_participants (drop 14 line) MAX_PARTICIPANTS\<rparr>
      else st)"

definition skip_line :: "chat_state \<Rightarrow> chat_state" where
  "skip_line st = st\<lparr>skipped_count := skipped_count st + 1\<rparr>"

text \<open>
  The part of the loop after the header: the allocation of the decode buffer comes before
  decoding, the copy of the content after parsing.
\<close>

definition read_body :: "read_env \<Rightarrow> nat \<Rightarrow> string \<Rightarrow> chat_state \<Rightarrow> chat_state outcome" where
  "read_body e k line st =
     (if list_all (\<lambda>c. c = sp) line then Ret st
      else if length line mod 4 \<noteq> 0 then Ret (skip_line st)
      else if \<not> rd_line_alloc e k then Ret (skip_line st)
      else (case decode_line line of
              Padding \<Rightarrow> Ret st
            | Corrupt \<Rightarrow> Ret (skip_line st)
            | Ignored \<Rightarrow> Ret st
            | Stop \<Rightarrow> Abort
            | NulContent \<Rightarrow> if \<not> rd_strdup e k then Ret (skip_line st) else Abort
            | Msg m \<Rightarrow> if \<not> rd_strdup e k then Ret (skip_line st)
                       else Ret (st\<lparr>messages := messages st @ [m]\<rparr>)))"

definition read_step :: "read_env \<Rightarrow> string \<Rightarrow> reader \<Rightarrow> reader outcome" where
  "read_step e chunk r0 =
     (let line = chomp chunk; r = r0\<lparr>line_number := line_number r0 + 1\<rparr> in
      if line = ''=== nbs-chat ==='' then Ret (r\<lparr>in_header := True\<rparr>)
      else if in_header r \<and> line = ''---'' then Ret (r\<lparr>in_header := False, past_header := True\<rparr>)
      else if in_header r then Ret (r\<lparr>rd_state := header_field line (rd_state r)\<rparr>)
      else if past_header r \<and> length line > 0 \<and> length (messages (rd_state r)) < MAX_MESSAGES
        then and_then (read_body e (line_number r) line (rd_state r)) (\<lambda>st. Ret (r\<lparr>rd_state := st\<rparr>))
      else Ret r)"

fun read_loop :: "read_env \<Rightarrow> string list \<Rightarrow> reader \<Rightarrow> reader outcome" where
  "read_loop e [] r = Ret r"
| "read_loop e (chunk # cs) r = and_then (read_step e chunk r) (read_loop e cs)"

definition start_reader :: reader where
  "start_reader = \<lparr>in_header = False, past_header = False, line_number = 0, rd_state = empty_state\<rparr>"

text \<open>\<open>None\<close> is the return value -1.\<close>

definition chat_read :: "read_env \<Rightarrow> path \<Rightarrow> fs \<Rightarrow> chat_state option outcome" where
  "chat_read e p s =
     (case (if rd_open e then files s p else None) of
        None \<Rightarrow> Ret None
      | Some content \<Rightarrow>
          if \<not> rd_alloc e then Ret None
          else and_then (read_loop e (fgets_all MAX_MESSAGE_LEN content) start_reader) (\<lambda>r.
            ASSERT_MSG (length (messages (rd_state r)) \<le> MAX_MESSAGES)
              (if rd_ferror e then Ret None
               else if \<not> rd_close e then Ret None
               else Ret (Some (rd_state r)))))"

definition read_env_ok :: "read_env \<Rightarrow> bool" where
  "read_env_ok e \<longleftrightarrow> rd_open e \<and> rd_alloc e \<and> \<not> rd_ferror e \<and> rd_close e
     \<and> (\<forall>k. rd_line_alloc e k) \<and> (\<forall>k. rd_strdup e k)"

section \<open>Writing files\<close>

text \<open>
  \<open>w_line k\<close>: whether the \<open>k\<close>-th \<open>fprintf\<close> succeeds; \<open>w_flushed\<close>: how many bytes reach the file
  when the final flush in \<open>fclose\<close> fails.  \<open>write_tmp\<close> is the sequence the writers
  share: open a temporary file, write the lines, close it; every failure after the open
  unlinks the temporary file again (\<open>unlink_on_fdopen\<close>: whether a failed \<open>fdopen\<close> does).
\<close>

record write_env =
  w_open :: bool
  w_fdopen :: bool
  w_line :: "nat \<Rightarrow> bool"
  w_close :: bool
  w_flushed :: nat
  w_stat :: bool
  w_rename :: bool

datatype write_result = WOpen | WFdopen | WLine | WClose | WDone

definition write_ok :: "write_env \<Rightarrow> string list \<Rightarrow> bool" where
  "write_ok w ls = list_all (w_line w) [0..<length ls]"

definition write_tmp :: "write_env \<Rightarrow> bool \<Rightarrow> path \<Rightarrow> string list \<Rightarrow> fs \<Rightarrow> write_result \<times> fs" where
  "write_tmp w unlink_on_fdopen tmp ls s =
     (if \<not> w_open w then (WOpen, s)
      else if \<not> w_fdopen w
        then (WFdopen, if unlink_on_fdopen then remove_file tmp s else put_file tmp [] s)
      else if \<not> write_ok w ls then (WLine, remove_file tmp s)
      else if \<not> w_close w then (WClose, remove_file tmp s)
      else (WDone, put_file tmp (unlines ls) s))"

text \<open>\<open>stat(p)\<close> succeeds and reports \<open>n\<close> bytes.\<close>

definition size_is :: "path \<Rightarrow> int \<Rightarrow> fs \<Rightarrow> bool" where
  "size_is p n s = (case files s p of None \<Rightarrow> False | Some c \<Rightarrow> int (length c) = n)"

definition rename_file :: "path \<Rightarrow> path \<Rightarrow> fs \<Rightarrow> fs" where
  "rename_file a b s = s\<lparr>files := (files s)(b := files s a, a := None)\<rparr>"

lemma rename_file_simps [simp]:
  "held (rename_file a b s) = held s"
  "files (rename_file a b s) = (files s)(b := files s a, a := None)"
  by (simp_all add: rename_file_def)

lemma write_tmp_others:
  "write_tmp w u tmp ls s = (r, s1) \<Longrightarrow> held s1 = held s \<and> (\<forall>q. q \<noteq> tmp \<longrightarrow> files s1 q = files s q)"
  by (auto simp: write_tmp_def split: if_splits)

lemma write_tmp_done:
  "write_tmp w u tmp ls s = (WDone, s1) \<Longrightarrow> s1 = put_file tmp (unlines ls) s"
  by (auto simp: write_tmp_def split: if_splits)

section \<open>Creating a chat file\<close>

text \<open>
  \<open>clock\<close> is the formatted local time, \<open>None\<close> when one of the assertions on the clock fails; every
  caller's buffer has 64 bytes.
\<close>

definition get_timestamp :: "string option \<Rightarrow> string outcome" where
  "get_timestamp clock = (case clock of None \<Rightarrow> Abort | Some ts \<Rightarrow> Ret (snprintf 64 ts))"

text \<open>
  The file is created with \<open>O_EXCL\<close>; a failed \<open>fdopen\<close> or \<open>fclose\<close> leaves it.
\<close>

definition chat_create :: "write_env \<Rightarrow> string option \<Rightarrow> path \<Rightarrow> fs \<Rightarrow> int outcome \<times> fs" where
  "chat_create w clock p s =
     (case get_timestamp clock of Abort \<Rightarrow> (Abort, s)
      | Ret timestamp \<Rightarrow>
        (let content = header_no_length ''system'' timestamp [] in
         if length content \<ge> 1024 then (Ret (-2), s)
         else (case compute_file_length content of Abort \<Rightarrow> (Abort, s)
           | Ret file_len \<Rightarrow>
              if files s p \<noteq> None then (Ret (-1), s)
              else if \<not> w_open w then (Ret (-2), s)
              else if \<not> w_fdopen w then (Ret (-2), put_file p [] s)
              else (let ls = file_lines ''system'' timestamp file_len [] [] in
                if \<not> write_ok w ls then (Ret (-2), remove_file p s)
                else if \<not> w_close w then (Ret (-2), put_file p (take (w_flushed w) (unlines ls)) s)
                else (let s1 = put_file p (unlines ls) s in
                  if \<not> w_stat w \<or> \<not> size_is p file_len s1 then (Abort, s1)
                  else (Ret 0, s1))))))"

end
