(* ===== verification/ChatCursor.thy ===== *)
theory ChatCursor
  imports ChatFile
begin

text \<open>
  Read cursors (src/src/nbs-chat/chat_file.c): the file \<open><chat>.cursors\<close> with one line
  \<open>handle=index\<close> per reader, \<open>chat_cursor_read\<close> and \<open>chat_cursor_write\<close>.  The locale
  \<open>kv_store\<close> is the contract a reader of cursors relies on; it is interpreted on the pure
  core of the two functions.
\<close>

section \<open>The cursor file\<close>

definition cursor_path :: "path \<Rightarrow> path outcome" where
  "cursor_path chat_path =
     (let out = chat_path @ ''.cursors'' in
      ASSERT_MSG (length out > 0 \<and> length out < MAX_PATH_LEN) (Ret out))"

text \<open>
  One line of the file as \<open>fgets\<close> with a 256-byte buffer sees it: \<open>None\<close> for comments, blank
  lines, lines without \<open>=\<close> and handles that are too long; else the key and the parsed index.
\<close>

definition cursor_entry :: "string \<Rightarrow> (string \<times> int option) option" where
  "cursor_entry chunk =
     (let line = cstr chunk in
      if line \<noteq> [] \<and> (hd line = CHR ''#'' \<or> hd line = nl) then None
      else if CHR ''='' \<notin> set line then None
      else (let key = takeWhile (\<lambda>c. c \<noteq> CHR ''='') line in
        if length key \<ge> MAX_HANDLE_LEN then None
        else Some (key, safe_parse_int (drop (length key + 1) line))))"

definition cursor_entries :: "string \<Rightarrow> (string \<times> int option) list" where
  "cursor_entries content = List.map_filter cursor_entry (fgets_all 256 content)"

definition cursor_header :: string where
  "cursor_header = ''# Read cursors '' @ [CHR 0xE2, CHR 0x80, CHR 0x94]
                     @ '' last-read message index per handle''"

definition cursor_line :: "string \<times> int \<Rightarrow> string" where
  "cursor_line e = fst e @ CHR ''='' # dec (snd e)"

definition cursor_content :: "(string \<times> int) list \<Rightarrow> string list" where
  "cursor_content es = cursor_header # map cursor_line es"

text \<open>The first entry with the handle's key decides; \<open>-1\<close> without one, \<open>-2\<close> if it does not parse.\<close>

definition lookup_cursor :: "string \<Rightarrow> string \<Rightarrow> int" where
  "lookup_cursor handle content =
     (case List.find (\<lambda>e. fst e = handle) (cursor_entries content) of
        None \<Rightarrow> -1
      | Some (_, Some i) \<Rightarrow> i
      | Some (_, None) \<Rightarrow> -2)"

definition chat_cursor_read :: "bool \<Rightarrow> path \<Rightarrow> string \<Rightarrow> fs \<Rightarrow> int outcome" where
  "chat_cursor_read can_open chat_path handle s =
     ASSERT_MSG (handle \<noteq> [])
      (and_then (cursor_path chat_path) (\<lambda>cpath.
        case (if can_open then files s cpath else None) of
          None \<Rightarrow> Ret (-1)
        | Some content \<Rightarrow> Ret (lookup_cursor handle content)))"

text \<open>
  Writing: at most 256 entries are read back (a value that does not parse becomes 0), every
  entry of the handle is set, and a new entry is added only if there is room.
\<close>

definition read_cursors :: "string \<Rightarrow> (string \<times> int) list" where
  "read_cursors content =
     map (\<lambda>(k, v). (k, case v of Some i \<Rightarrow> i | None \<Rightarrow> 0)) (take MAX_PARTICIPANTS (cursor_entries content))"

definition set_cursor :: "string \<Rightarrow> int \<Rightarrow> (string \<times> int) list \<Rightarrow> (string \<times> int) list" where
  "set_cursor handle index es =
     (let es' = map (\<lambda>(k, v). if k = handle then (k, index) else (k, v)) es in
      if handle \<notin> fst ` set es \<and> length es < MAX_PARTICIPANTS
      then es' @ [(snprintf MAX_HANDLE_LEN handle, index)]
      else es')"

definition chat_cursor_write ::
  "lock_env \<Rightarrow> bool \<Rightarrow> write_env \<Rightarrow> path \<Rightarrow> string \<Rightarrow> int \<Rightarrow> fs \<Rightarrow> int outcome \<times> fs" where
  "chat_cursor_write l can_read w chat_path handle index s =
     (if handle = [] \<or> index < 0 then (Abort, s)
      else (case cursor_path chat_path of Abort \<Rightarrow> (Abort, s)
        | Ret cpath \<Rightarrow>
          (case chat_lock_acquire l chat_path s of
             (Abort, s1) \<Rightarrow> (Abort, s1)
           | (Ret False, s1) \<Rightarrow> (Ret (-1), s1)
           | (Ret True, s1) \<Rightarrow>
              (let old = (case (if can_read then files s1 cpath else None) of
                            Some content \<Rightarrow> read_cursors content | None \<Rightarrow> []);
                   new = set_cursor handle index old;
                   tmp = cpath @ ''.tmp''
               in case write_tmp w False tmp (cursor_content new) s1 of
                    (WDone, s2) \<Rightarrow>
                      if w_rename w then release_and_return l chat_path 0 (rename_file tmp cpath s2)
                      else release_and_return l chat_path (-1) (remove_file tmp s2)
                  | (_, s2) \<Rightarrow> release_and_return l chat_path (-1) s2))))"

section \<open>The contract of a keyed store\<close>

text \<open>
  \<open>room k s\<close>: the store can take the key.  The client lemmas say that a sequence of writes is
  read back as the last value of each key.
\<close>

locale kv_store =
  fixes get :: "'k \<Rightarrow> 's \<Rightarrow> 'v"
    and put :: "'k \<Rightarrow> 'v \<Rightarrow> 's \<Rightarrow> 's"
    and good :: "'k \<Rightarrow> 'v \<Rightarrow> bool"
    and room :: "'k \<Rightarrow> 's \<Rightarrow> bool"
    and inv :: "'s \<Rightarrow> bool"
  assumes get_put_same: "inv s \<Longrightarrow> good k v \<Longrightarrow> room k s \<Longrightarrow> get k (put k v s) = v"
    and get_put_other: "inv s \<Longrightarrow> good k v \<Longrightarrow> room k s \<Longrightarrow> k' \<noteq> k \<Longrightarrow> get k' (put k v s) = get k' s"
    and inv_put: "inv s \<Longrightarrow> good k v \<Longrightarrow> room k s \<Longrightarrow> inv (put k v s)"
    and room_put: "inv s \<Longrightarrow> good k v \<Longrightarrow> room k s \<Longrightarrow> room k (put k v s)"
begin

fun puts :: "('k \<times> 'v) list \<Rightarrow> 's \<Rightarrow> 's" where
  "puts [] s = s"
| "puts ((k, v) # ps) s = puts ps (put k v s)"

fun all_good :: "('k \<times> 'v) list \<Rightarrow> 's \<Rightarrow> bool" where
  "all_good [] s \<longleftrightarrow> True"
| "all_good ((k, v) # ps) s \<longleftrightarrow> good k v \<and> room k s \<and> all_good ps (put k v s)"

lemma inv_puts: "inv s \<Longrightarrow> all_good ps s \<Longrightarrow> inv (puts ps s)"
  by (induction ps s rule: puts.induct) (auto intro: inv_put)

lemma get_puts:
  "inv s \<Longrightarrow> all_good ps s \<Longrightarrow>
   get k (puts ps s) = (case map_of (rev ps) k of Some v \<Rightarrow> v | None \<Rightarrow> get k s)"
proof (induction ps s rule: puts.induct)
  case (2 k' v ps s)
  then have IH: "get k (puts ps (put k' v s))
      = (case map_of (rev ps) k of Some v \<Rightarrow> v | None \<Rightarrow> get k (put k' v s))"
    by (auto intro: inv_put)
  show ?case
  proof (cases "map_of (rev ps) k")
    case None
    then show ?thesis using IH "2.prems" get_put_same[of s k' v] get_put_other[of s k' v k]
      by (cases "k = k'") (auto simp: map_add_def)
  next
    case (Some a)
    then show ?thesis using IH by (simp add: map_add_def)
  qed
qed simp

lemma put_put_same: "inv s \<Longrightarrow> good k v \<Longrightarrow> room k s \<Longrightarrow> good k w \<Longrightarrow> get k (put k w (put k v s)) = w"
  by (simp add: get_put_same inv_put room_put)

end

section \<open>The cursor file keeps the contract\<close>

definition clean_key :: "string \<Rightarrow> bool" where
  "clean_key k \<longleftrightarrow> length k < MAX_HANDLE_LEN \<and> set k \<inter> {nul, nl, CHR ''=''} = {}
                    \<and> (k = [] \<or> hd k \<noteq> CHR ''#'')"

definition clean_entry :: "string \<times> int \<Rightarrow> bool" where
  "clean_entry e \<longleftrightarrow> clean_key (fst e) \<and> INT_MIN \<le> snd e \<and> snd e \<le> INT_MAX"

definition put_cursor :: "string \<Rightarrow> int \<Rightarrow> string \<Rightarrow> string" where
  "put_cursor handle index content = unlines (cursor_content (set_cursor handle index (read_cursors content)))"

definition cursors_wf :: "string \<Rightarrow> bool" where
  "cursors_wf content \<longleftrightarrow> length (cursor_entries content) \<le> MAX_PARTICIPANTS
     \<and> list_all (\<lambda>e. snd e \<noteq> None) (cursor_entries content)"

definition cursor_room :: "string \<Rightarrow> string \<Rightarrow> bool" where
  "cursor_room handle content \<longleftrightarrow> handle \<in> fst ` set (cursor_entries content)
     \<or> length (cursor_entries content) < MAX_PARTICIPANTS"

definition good_cursor :: "string \<Rightarrow> int \<Rightarrow> bool" where
  "good_cursor handle index \<longleftrightarrow> handle \<noteq> [] \<and> clean_key handle \<and> 0 \<le> index \<and> index \<le> INT_MAX"

lemma clean_handle_key: "clean_handle h \<Longrightarrow> clean_key h"
  by (auto simp: clean_handle_def clean_key_def)

lemma length_dec_int32: "INT_MIN \<le> i \<Longrightarrow> i \<le> INT_MAX \<Longrightarrow> length (dec i) \<le> 11"
proof -
  assume i: "INT_MIN \<le> i" "i \<le> INT_MAX"
  have "length (dec \<bar>i\<bar>) \<le> 10" by (rule length_dec_bound) (use i in simp_all)
  then show ?thesis by (cases "i < 0") (simp_all add: dec_def)
qed

lemma cursor_entry_line:
  assumes "clean_entry e"
  shows "cursor_entry (cursor_line e @ [nl]) = Some (fst e, Some (snd e))"
proof -
  obtain k i where e: "e = (k, i)" by fastforce
  have k: "clean_key k" "INT_MIN \<le> i" "i \<le> INT_MAX" using assms e by (auto simp: clean_entry_def)
  have ne: "CHR ''='' \<notin> set k" and nn: "no_nul k" and nonl: "nl \<notin> set k"
    and hd: "k = [] \<or> hd k \<noteq> CHR ''#''" and len: "length k < 64"
    using k(1) by (auto simp: clean_key_def no_nul_def)
  let ?line = "k @ CHR ''='' # dec i @ [nl]"
  have c: "cstr ?line = ?line" using nn by (simp add: cstr_id)
  have h: "\<not> (?line \<noteq> [] \<and> (hd ?line = CHR ''#'' \<or> hd ?line = nl))"
    using hd nonl by (cases k) auto
  have "safe_parse_int (dec i @ [nl]) = Some i" using safe_parse_int_dec[of i "[nl]"] k by simp
  moreover have "drop (length k + 1) ?line = dec i @ [nl]" by simp
  ultimately show ?thesis
    using c h len takeWhile_before[OF ne, of "dec i @ [nl]"]
    by (simp add: e cursor_line_def cursor_entry_def Let_def)
qed

lemma cursor_line_fits: "clean_entry e \<Longrightarrow> fits_line 256 (cursor_line e)"
  using length_dec_int32[of "snd e"] dec_not_in[of nl "snd e"]
  by (auto simp: clean_entry_def clean_key_def cursor_line_def fits_line_def isdigit_def)

lemma cursor_entries_content:
  assumes "list_all clean_entry es"
  shows "cursor_entries (unlines (cursor_content es)) = map (\<lambda>(k, i). (k, Some i)) es"
proof -
  have h: "fits_line 256 cursor_header" by (simp add: cursor_header_def fits_line_def)
  have he: "cursor_entry (cursor_header @ [nl]) = None"
    by (simp add: cursor_entry_def cursor_header_def Let_def cstr_def)
  have "fgets_all 256 (unlines (cursor_content es) @ []) = map (\<lambda>l. l @ [nl]) (cursor_content es) @ fgets_all 256 []"
    using assms h cursor_line_fits
    by (intro fgets_all_lines) (auto simp: cursor_content_def list_all_iff)
  then have "cursor_entries (unlines (cursor_content es))
      = List.map_filter cursor_entry ((cursor_header @ [nl]) # map (\<lambda>l. l @ [nl]) (map cursor_line es))"
    by (simp add: cursor_entries_def cursor_content_def)
  also have "\<dots> = List.map_filter cursor_entry (map (\<lambda>l. l @ [nl]) (map cursor_line es))"
    using he by (simp add: List.map_filter_simps)
  also have "\<dots> = map (\<lambda>(k, i). (k, Some i)) es"
    using assms by (induction es) (auto simp: List.map_filter_simps cursor_entry_line)
  finally show ?thesis .
qed

text \<open>Whatever the file holds, the entries read from it can be written back unchanged.\<close>

lemma cursor_entry_clean:
  assumes "cursor_entry c = Some (k, v)" "nl \<notin> set (butlast c)"
  shows "clean_key k \<and> (\<forall>i. v = Some i \<longrightarrow> INT_MIN \<le> i \<and> i \<le> INT_MAX)"
proof -
  let ?l = "cstr c"
  have k: "k = takeWhile (\<lambda>c. c \<noteq> CHR ''='') ?l" "length k < 64" "CHR ''='' \<in> set ?l"
    and v: "v = safe_parse_int (drop (length k + 1) ?l)"
    and hd: "?l \<noteq> [] \<Longrightarrow> hd ?l \<noteq> CHR ''#''"
    using assms(1) by (auto simp: cursor_entry_def Let_def split: if_splits)
  obtain r where r: "?l = k @ CHR ''='' # r"
    using split_at_char[OF k(3)] k(1) by metis
  have "nl \<notin> set k"
  proof
    assume "nl \<in> set k"
    obtain t where t: "c = ?l @ t" unfolding cstr_def by (metis takeWhile_dropWhile_id)
    have c: "c = k @ CHR ''='' # r @ t" using t r by (metis append.assoc append_Cons)
    have "set k \<subseteq> set (butlast c)" by (subst c) (auto simp: butlast_append)
    then show False using assms(2) \<open>nl \<in> set k\<close> by blast
  qed
  moreover have "no_nul (k @ CHR ''='' # r)" using no_nul_cstr[of c] r by metis
  then have "nul \<notin> set k" by (simp add: no_nul_def)
  moreover have "CHR ''='' \<notin> set k" using k(1) by (metis (full_types) set_takeWhileD)
  moreover have "k = [] \<or> hd k \<noteq> CHR ''#''" using hd r by (cases k) auto
  ultimately show ?thesis using k(2) v by (auto simp: clean_key_def dest: safe_parse_int_range)
qed

lemma cursor_entries_clean:
  assumes "(k, v) \<in> set (cursor_entries content)"
  shows "clean_key k \<and> (\<forall>i. v = Some i \<longrightarrow> INT_MIN \<le> i \<and> i \<le> INT_MAX)"
proof -
  obtain c where "c \<in> set (fgets_all 256 content)" "cursor_entry c = Some (k, v)"
    using assms by (force simp: cursor_entries_def List.map_filter_def)
  then show ?thesis using cursor_entry_clean fgets_all_butlast by blast
qed

lemma read_cursors_clean: "list_all clean_entry (read_cursors content)"
  using cursor_entries_clean[of _ _ content]
  by (fastforce simp: read_cursors_def list_all_iff clean_entry_def dest: in_set_takeD split: option.splits)

lemma set_cursor_clean:
  "list_all clean_entry es \<Longrightarrow> good_cursor h i \<Longrightarrow> list_all clean_entry (set_cursor h i es)"
  by (auto simp: set_cursor_def good_cursor_def clean_entry_def list_all_iff clean_key_def snprintf_id Let_def
      split: if_splits)

lemma entries_put_cursor:
  assumes "good_cursor h i"
  shows "cursor_entries (put_cursor h i content)
    = map (\<lambda>(k, i). (k, Some i)) (set_cursor h i (read_cursors content))"
  unfolding put_cursor_def
  by (rule cursor_entries_content) (rule set_cursor_clean [OF read_cursors_clean assms])

lemma find_map_key:
  "List.find (\<lambda>e. fst e = h) (map (\<lambda>(k, i). (k, f i)) es)
     = map_option (\<lambda>(k, i). (k, f i)) (List.find (\<lambda>e. fst e = h) es)"
  by (induction es) auto

lemma find_set_cursor:
  assumes "h \<in> fst ` set es \<or> length es < 256" "length h < 64"
  shows "List.find (\<lambda>e. fst e = h') (set_cursor h i es)
    = (if h' = h then Some (h, i) else List.find (\<lambda>e. fst e = h') es)"
proof -
  let ?m = "map (\<lambda>(k, v). if k = h then (k, i) else (k, v)) es"
  have other: "List.find (\<lambda>e. fst e = h') ?m = List.find (\<lambda>e. fst e = h') es" if "h' \<noteq> h"
    using that by (induction es) auto
  have same: "List.find (\<lambda>e. fst e = h) ?m = (if h \<in> fst ` set es then Some (h, i) else None)"
    by (induction es) (auto split: if_splits)
  have app: "List.find P (xs @ ys) = (case List.find P xs of None \<Rightarrow> List.find P ys | r \<Rightarrow> r)"
    for P :: "string \<times> int \<Rightarrow> bool" and xs ys
    by (induction xs) auto
  show ?thesis
    using assms other same
    by (cases "h' = h") (auto simp: set_cursor_def Let_def app snprintf_id split: option.splits)
qed

lemma read_cursors_wf:
  "cursors_wf content \<Longrightarrow> cursor_entries content = map (\<lambda>(k, i). (k, Some i)) (read_cursors content)"
  unfolding cursors_wf_def read_cursors_def list_all_iff
  by (auto simp: o_def split_beta intro!: map_idI [symmetric] prod_eqI)

interpretation cursors: kv_store lookup_cursor put_cursor good_cursor cursor_room cursors_wf
proof
  fix s k i
  assume wf: "cursors_wf s" and g: "good_cursor k i" and rm: "cursor_room k s"
  note e = read_cursors_wf[OF wf] and p = entries_put_cursor[OF g, of s]
  have len: "length k < 64" using g by (simp add: good_cursor_def clean_key_def)
  have r: "k \<in> fst ` set (read_cursors s) \<or> length (read_cursors s) < 256"
    using rm unfolding cursor_room_def e by (auto simp: image_iff split_beta)
  note f = find_set_cursor[OF r len]
  show "lookup_cursor k (put_cursor k i s) = i"
    by (simp add: lookup_cursor_def p find_map_key f)
  show "lookup_cursor k' (put_cursor k i s) = lookup_cursor k' s" if "k' \<noteq> k" for k'
    using that by (simp add: lookup_cursor_def p e find_map_key f)
  have n: "length (set_cursor k i (read_cursors s)) \<le> 256"
    using wf by (auto simp: set_cursor_def cursors_wf_def e Let_def)
  then show "cursors_wf (put_cursor k i s)"
    by (auto simp: cursors_wf_def p list_all_iff)
  have "k \<in> fst ` set (set_cursor k i (read_cursors s))"
    using f[of k i] by (metis (mono_tags, lifting) find_Some_iff fst_conv image_eqI nth_mem)
  then show "cursor_room k (put_cursor k i s)"
    unfolding cursor_room_def p by (force simp: image_iff)
qed

end
