(* ===== verification/ChatSend.thy ===== *)
theory ChatSend
  imports ChatCursor
begin

text \<open>
  The writers of src/src/nbs-chat/chat_file.c: \<open>chat_auto_archive\<close>, \<open>chat_send\<close>,
  \<open>chat_truncate\<close>, and \<open>chat_poll\<close>.  Each is the whole function, cut where the source is cut
  by its comments (build the message, collect the old lines, write and rename, archive,
  move the cursor), every failing call being a field of the environment.
\<close>

abbreviation (input) ARCHIVE_THRESHOLD :: nat where "ARCHIVE_THRESHOLD \<equiv> 2000"
abbreviation (input) ARCHIVE_CLEAVE :: nat where "ARCHIVE_CLEAVE \<equiv> 1000"

section \<open>Collecting the stored lines\<close>

text \<open>
  The loop of \<open>chat_send\<close> over the raw file: lines after the header, without empty lines and
  space-padded repair lines.  \<open>None\<close>: an allocation failed.
\<close>

fun send_collect :: "(nat \<Rightarrow> bool) \<Rightarrow> string list \<Rightarrow> bool \<Rightarrow> bool \<Rightarrow> string list \<Rightarrow> string list option outcome" where
  "send_collect alloc [] seen past acc = Ret (Some acc)"
| "send_collect alloc (chunk # cs) seen past acc =
     (let l = chomp chunk in
      if \<not> past then
        (if l = ''=== nbs-chat ==='' then send_collect alloc cs True past acc
         else if l = ''---'' \<and> seen then send_collect alloc cs seen True acc
         else send_collect alloc cs seen past acc)
      else if length l > 0 \<and> list_all (\<lambda>c. c = sp) l then send_collect alloc cs seen past acc
      else if length l > 0 then
        ASSERT_MSG (length acc < MAX_MESSAGES)
          (if \<not> alloc (length acc) then Ret None
           else send_collect alloc cs seen past (acc @ [l]))
      else send_collect alloc cs seen past acc)"

text \<open>The loop of \<open>chat_truncate\<close>: it keeps repair lines, and stores the first \<open>keep\<close> lines.\<close>

fun truncate_collect :: "(nat \<Rightarrow> bool) \<Rightarrow> nat \<Rightarrow> string list \<Rightarrow> bool \<Rightarrow> bool \<Rightarrow> string list \<Rightarrow> string list option" where
  "truncate_collect alloc keep [] seen past acc = Some acc"
| "truncate_collect alloc keep (chunk # cs) seen past acc =
     (let l = chomp chunk in
      if \<not> past then
        (if l = ''=== nbs-chat ==='' then truncate_collect alloc keep cs True past acc
         else if l = ''---'' \<and> seen then truncate_collect alloc keep cs seen True acc
         else truncate_collect alloc keep cs seen past acc)
      else if length l > 0 then
        (if length acc \<ge> keep then truncate_collect alloc keep cs seen past acc
         else if \<not> alloc (length acc) then None
         else truncate_collect alloc keep cs seen past (acc @ [l]))
      else truncate_collect alloc keep cs seen past acc)"

section \<open>Archiving\<close>

record archive_env =
  ar_stamp :: "string option"
  ar_clock :: "string option"
  ar_alloc :: bool
  ar_write :: write_env
  ar_main_alloc :: bool
  ar_main :: write_env
  ar_cur_read :: bool
  ar_cur :: write_env

text \<open>\<open>strrchr(path, '.')\<close> compared with \<open>".chat"\<close>; \<open>None\<close> when the result does not fit.\<close>

definition archive_name :: "path \<Rightarrow> string \<Rightarrow> path option" where
  "archive_name p stamp =
     (let dot = CHR ''.'' # rev (takeWhile (\<lambda>c. c \<noteq> CHR ''.'') (rev p));
          base = (if CHR ''.'' \<in> set p \<and> dot = ''.chat'' then take (length p - length dot) p else p);
          name = base @ ''-'' @ stamp @ ''-archive.chat''
      in if length name \<ge> MAX_PATH_LEN then None else Some name)"

text \<open>Writing one of the two files: open, write, close, rename, without a size check.\<close>

definition archive_file :: "write_env \<Rightarrow> path \<Rightarrow> string list \<Rightarrow> fs \<Rightarrow> bool \<times> fs" where
  "archive_file w dst ls s =
     (let tmp = dst @ ''.tmp'' in
      case write_tmp w True tmp ls s of
        (WDone, s1) \<Rightarrow> if w_rename w then (True, rename_file tmp dst s1) else (False, remove_file tmp s1)
      | (_, s1) \<Rightarrow> (False, s1))"

definition shift_cursor :: "int \<Rightarrow> int" where
  "shift_cursor i = (if i - int ARCHIVE_CLEAVE < 0 then 0 else i - int ARCHIVE_CLEAVE)"

text \<open>
  Adjusting the cursors: a failed \<open>fprintf\<close> makes the whole archive fail, a failed open, close
  or rename does not.
\<close>

definition archive_cursors :: "archive_env \<Rightarrow> path \<Rightarrow> fs \<Rightarrow> int outcome \<times> fs" where
  "archive_cursors e p s =
     (case cursor_path p of Abort \<Rightarrow> (Abort, s)
      | Ret cpath \<Rightarrow>
        (case (if ar_cur_read e then files s cpath else None) of
           None \<Rightarrow> (Ret 0, s)
         | Some content \<Rightarrow>
           (let es = map (\<lambda>(k, i). (k, shift_cursor i)) (read_cursors content); tmp = cpath @ ''.tmp'' in
            case write_tmp (ar_cur e) False tmp (cursor_content es) s of
              (WDone, s1) \<Rightarrow>
                if w_rename (ar_cur e) then (Ret 0, rename_file tmp cpath s1) else (Ret 0, remove_file tmp s1)
            | (WLine, s1) \<Rightarrow> (Ret (-1), s1)
            | (_, s1) \<Rightarrow> (Ret 0, s1))))"

definition archive_lines :: "string \<Rightarrow> string list \<Rightarrow> string list outcome" where
  "archive_lines ts body =
     and_then (compute_file_length (header_no_length ''system'' ts ''(archived)'' @ unlines body)) (\<lambda>n.
       Ret (file_lines ''system'' ts n ''(archived)'' body))"

definition chat_lines :: "string \<Rightarrow> string \<Rightarrow> string \<Rightarrow> string list \<Rightarrow> string list outcome" where
  "chat_lines lw lt parts_str body =
     and_then (compute_file_length (header_no_length lw lt parts_str @ unlines body)) (\<lambda>n.
       Ret (file_lines lw lt n parts_str body))"

text \<open>Rewriting the main file with the lines that stay, then the cursors.\<close>

definition archive_trim :: "archive_env \<Rightarrow> path \<Rightarrow> string list \<Rightarrow> chat_state \<Rightarrow> fs \<Rightarrow> int outcome \<times> fs" where
  "archive_trim e p all_lines st s =
     (let parts_str = format_participants (participants st) 4096;
          kept = drop ARCHIVE_CLEAVE all_lines
      in if length (header_no_length (last_writer st) (last_write st) parts_str) \<ge> 4096 then (Ret (-1), s)
         else if \<not> ar_main_alloc e then (Ret (-1), s)
         else (case chat_lines (last_writer st) (last_write st) parts_str kept of
                 Abort \<Rightarrow> (Abort, s)
               | Ret ls \<Rightarrow>
                  (case archive_file (ar_main e) p ls s of
                     (False, s1) \<Rightarrow> (Ret (-1), s1)
                   | (True, s1) \<Rightarrow> archive_cursors e p s1)))"

definition chat_auto_archive ::
  "archive_env \<Rightarrow> path \<Rightarrow> string list \<Rightarrow> chat_state \<Rightarrow> fs \<Rightarrow> int outcome \<times> fs" where
  "chat_auto_archive e p all_lines st s =
     (if \<not> length all_lines > ARCHIVE_THRESHOLD then (Abort, s)
      else if \<not> length all_lines - ARCHIVE_CLEAVE > 0 then (Abort, s)
      else (case ar_stamp e of None \<Rightarrow> (Ret (-1), s)
       | Some stamp \<Rightarrow>
         (case archive_name p stamp of None \<Rightarrow> (Ret (-1), s)
          | Some archive_path \<Rightarrow>
            (case get_timestamp (ar_clock e) of Abort \<Rightarrow> (Abort, s)
             | Ret ts \<Rightarrow>
               if length (header_no_length ''system'' ts ''(archived)'') \<ge> 4096 then (Ret (-1), s)
               else if \<not> ar_alloc e then (Ret (-1), s)
               else (case archive_lines ts (take ARCHIVE_CLEAVE all_lines) of
                  Abort \<Rightarrow> (Abort, s)
                | Ret ls \<Rightarrow>
                   (case archive_file (ar_write e) archive_path ls s of
                      (False, s1) \<Rightarrow> (Ret (-1), s1)
                    | (True, s1) \<Rightarrow> archive_trim e p all_lines st s1))))))"

section \<open>Sending\<close>

record send_env =
  se_lock :: lock_env
  se_read :: read_env
  se_now :: int
  se_raw_alloc :: bool
  se_enc_alloc :: bool
  se_clock :: "string option"
  se_reopen :: bool
  se_line_alloc :: "nat \<Rightarrow> bool"
  se_ferror :: bool
  se_close :: bool
  se_content_alloc :: bool
  se_write :: write_env
  se_arch_alloc :: bool
  se_arch :: archive_env
  se_cur_lock :: lock_env
  se_cur_read :: bool
  se_cur_write :: write_env

text \<open>
  The new message: the wire text, encoded.  \<open>None\<close>: an allocation failed.  (The encoder
  cannot return -1 here, its buffer has the size it asks for; \<open>send_encode_ret\<close>.)
\<close>

definition send_encode :: "send_env \<Rightarrow> string \<Rightarrow> string \<Rightarrow> string option outcome" where
  "send_encode e handle message =
     ASSERT_MSG (se_now e \<noteq> -1)
      (if \<not> se_raw_alloc e then Ret None
       else (let raw = send_wire handle (se_now e) message in
         ASSERT_MSG (length raw > 0)
          (and_then (base64_encoded_size (length raw)) (\<lambda>encoded_size.
            if \<not> se_enc_alloc e then Ret None
            else (case base64_encode raw encoded_size of
                    Ret (Some encoded) \<Rightarrow> Ret (Some encoded)
                  | Ret None \<Rightarrow> Abort
                  | Abort \<Rightarrow> Abort)))))"

text \<open>The new header fields, with the two size assertions on them.\<close>

definition send_header :: "send_env \<Rightarrow> string \<Rightarrow> chat_state \<Rightarrow> (chat_state \<times> string) outcome" where
  "send_header e handle st =
     (case get_timestamp (se_clock e) of Abort \<Rightarrow> Abort
      | Ret ts \<Rightarrow>
        (let st1 = st\<lparr>participants := update_participants (participants st) handle MAX_PARTICIPANTS,
                      last_writer := snprintf MAX_HANDLE_LEN handle, last_write := snprintf 64 ts\<rparr>
         in ASSERT_MSG (length (participants st1) * (MAX_HANDLE_LEN + 14) < 4096)
             (let parts_str = format_participants (participants st1) 4096;
                  header = header_no_length (last_writer st1) (last_write st1) parts_str
              in ASSERT_MSG (length header > 0 \<and> length header < 8192)
                  (Ret (st1, parts_str)))))"

text \<open>Write to the temporary file, check its size, rename: the return value (0 when it is in place).\<close>

definition send_commit :: "write_env \<Rightarrow> path \<Rightarrow> int \<Rightarrow> string list \<Rightarrow> fs \<Rightarrow> int outcome \<times> fs" where
  "send_commit w p file_len ls s =
     (let tmp = p @ ''.tmp'' in
      case write_tmp w True tmp ls s of
        (WOpen, s1) \<Rightarrow> (Ret (-1), s1)
      | (WFdopen, s1) \<Rightarrow> (Ret (-1), s1)
      | (WLine, s1) \<Rightarrow> (Ret (-1), s1)
      | (WClose, s1) \<Rightarrow> (Ret (-2), s1)
      | (WDone, s1) \<Rightarrow>
          if \<not> w_stat w \<or> \<not> size_is tmp file_len s1 then (Abort, s1)
          else if \<not> w_rename w then (Ret (-1), remove_file tmp s1)
          else (Ret 0, rename_file tmp p s1))"

text \<open>
  After the new file is in place: archive when it has more lines than the threshold, and
  compute the sender's cursor index.
\<close>

definition send_archive ::
  "send_env \<Rightarrow> path \<Rightarrow> string list \<Rightarrow> nat \<Rightarrow> chat_state \<Rightarrow> fs \<Rightarrow> (int \<times> int) outcome \<times> fs" where
  "send_archive e p all_lines encoded_line_count st s =
     (if length all_lines > ARCHIVE_THRESHOLD \<and> se_arch_alloc e then
        (case chat_auto_archive (se_arch e) p all_lines st s of
           (Abort, s1) \<Rightarrow> (Abort, s1)
         | (Ret arc_rc, s1) \<Rightarrow>
            (Ret (0, if arc_rc = 0
                     then max 0 (int encoded_line_count - int ARCHIVE_CLEAVE)
                     else int encoded_line_count), s1))
      else (Ret (0, int encoded_line_count), s))"

text \<open>
  Under the lock, with the state read: the result is the return code, and for a message that
  was written the cursor index to store.
\<close>

definition send_locked ::
  "send_env \<Rightarrow> path \<Rightarrow> string \<Rightarrow> string \<Rightarrow> chat_state \<Rightarrow> fs \<Rightarrow> (int \<times> int) outcome \<times> fs" where
  "send_locked e p handle message st s =
     (case send_encode e handle message of Abort \<Rightarrow> (Abort, s)
      | Ret None \<Rightarrow> (Ret (-1, 0), s)
      | Ret (Some encoded) \<Rightarrow>
     (case send_header e handle st of Abort \<Rightarrow> (Abort, s)
      | Ret (st1, parts_str) \<Rightarrow>
     (case (if se_reopen e then files s p else None) of None \<Rightarrow> (Ret (-1, 0), s)
      | Some content \<Rightarrow>
     (case send_collect (se_line_alloc e) (fgets_all MAX_MESSAGE_LEN content) False False [] of
        Abort \<Rightarrow> (Abort, s)
      | Ret None \<Rightarrow> (Ret (-1, 0), s)
      | Ret (Some encoded_lines) \<Rightarrow>
        if se_ferror e then (Ret (-1, 0), s)
        else if \<not> se_close e then (Ret (-1, 0), s)
        else if \<not> se_content_alloc e then (Ret (-1, 0), s)
        else (let all_lines = encoded_lines @ [encoded] in
     case compute_file_length (header_no_length (last_writer st1) (last_write st1) parts_str @ unlines all_lines) of
        Abort \<Rightarrow> (Abort, s)
      | Ret file_len \<Rightarrow>
     (case send_commit (se_write e) p file_len
             (file_lines (last_writer st1) (last_write st1) file_len parts_str all_lines) s of
        (Abort, s1) \<Rightarrow> (Abort, s1)
      | (Ret rc, s1) \<Rightarrow>
        if rc \<noteq> 0 then (Ret (rc, 0), s1)
        else send_archive e p all_lines (length encoded_lines) st1 s1))))))"

definition chat_send :: "send_env \<Rightarrow> path \<Rightarrow> string \<Rightarrow> string \<Rightarrow> fs \<Rightarrow> int outcome \<times> fs" where
  "chat_send e p handle message s =
     (if handle = [] \<or> \<not> length handle < MAX_HANDLE_LEN then (Abort, s)
      else (case chat_lock_acquire (se_lock e) p s of
        (Abort, s1) \<Rightarrow> (Abort, s1)
      | (Ret False, s1) \<Rightarrow> (Ret (-1), s1)
      | (Ret True, s1) \<Rightarrow>
        (case chat_read (se_read e) p s1 of
           Abort \<Rightarrow> (Abort, s1)
         | Ret None \<Rightarrow> release_and_return (se_lock e) p (-1) s1
         | Ret (Some st) \<Rightarrow>
           (case send_locked e p handle message st s1 of
              (Abort, s2) \<Rightarrow> (Abort, s2)
            | (Ret (rc, cursor_index), s2) \<Rightarrow>
              (case release_and_return (se_lock e) p rc s2 of
                 (Abort, s3) \<Rightarrow> (Abort, s3)
               | (Ret rc', s3) \<Rightarrow>
                   if rc' \<noteq> 0 then (Ret rc', s3)
                   else (case chat_cursor_write (se_cur_lock e) (se_cur_read e) (se_cur_write e) p handle cursor_index s3 of
                           (Abort, s4) \<Rightarrow> (Abort, s4)
                         | (Ret _, s4) \<Rightarrow> (Ret 0, s4)))))))"

section \<open>Truncating\<close>

text \<open>\<open>tr_local t\<close>: the local time of a message's timestamp, \<open>None\<close> when \<open>localtime_r\<close> fails.\<close>

record truncate_env =
  tr_lock :: lock_env
  tr_read :: read_env
  tr_reopen :: bool
  tr_line_alloc :: "nat \<Rightarrow> bool"
  tr_ferror :: bool
  tr_close :: bool
  tr_local :: "int \<Rightarrow> string option"
  tr_clock :: "string option"
  tr_alloc :: bool
  tr_write :: write_env

definition kept_participants :: "chat_message list \<Rightarrow> participant list" where
  "kept_participants ms = foldl (\<lambda>ps m. update_participants ps (m_handle m) MAX_PARTICIPANTS) [] ms"

text \<open>Last writer and time of last write after keeping \<open>keep\<close> messages.\<close>

definition truncate_last :: "truncate_env \<Rightarrow> nat \<Rightarrow> chat_message list \<Rightarrow> (string \<times> string) outcome" where
  "truncate_last e keep ms =
     (if keep > 0 \<and> keep \<le> length ms then
        (let m = ms ! (keep - 1) in
         and_then (if m_timestamp m > 0
                   then (case tr_local e (m_timestamp m) of
                           Some t \<Rightarrow> Ret (snprintf 64 t) | None \<Rightarrow> get_timestamp (tr_clock e))
                   else get_timestamp (tr_clock e))
           (\<lambda>lt. Ret (snprintf MAX_HANDLE_LEN (m_handle m), lt)))
      else and_then (get_timestamp (tr_clock e)) (\<lambda>lt. Ret ([], lt)))"

text \<open>As in a send, but every failure is -1.\<close>

definition truncate_commit :: "truncate_env \<Rightarrow> path \<Rightarrow> int \<Rightarrow> string list \<Rightarrow> fs \<Rightarrow> int outcome \<times> fs" where
  "truncate_commit e p file_len ls s =
     (case send_commit (tr_write e) p file_len ls s of
        (Abort, s1) \<Rightarrow> (Abort, s1)
      | (Ret rc, s1) \<Rightarrow> (Ret (if rc = 0 then 0 else -1), s1))"

definition truncate_locked ::
  "truncate_env \<Rightarrow> path \<Rightarrow> nat \<Rightarrow> chat_state \<Rightarrow> fs \<Rightarrow> int outcome \<times> fs" where
  "truncate_locked e p keep st s =
     (if keep \<ge> length (messages st) then (Ret 0, s)
      else (case (if tr_reopen e then files s p else None) of None \<Rightarrow> (Ret (-1), s)
      | Some content \<Rightarrow>
     (case truncate_collect (tr_line_alloc e) keep (fgets_all MAX_MESSAGE_LEN content) False False [] of
        None \<Rightarrow> (Ret (-1), s)
      | Some encoded_lines \<Rightarrow>
        if tr_ferror e then (Ret (-1), s)
        else if \<not> tr_close e then (Ret (-1), s)
        else (case truncate_last e keep (messages st) of Abort \<Rightarrow> (Abort, s)
      | Ret (lw, lt) \<Rightarrow>
        (let parts_str = format_participants (kept_participants (take keep (messages st))) 4096;
             header = header_no_length lw lt parts_str
         in if \<not> (length header > 0 \<and> length header < 8192) then (Abort, s)
            else if \<not> tr_alloc e then (Ret (-1), s)
            else (case compute_file_length (header @ unlines encoded_lines) of Abort \<Rightarrow> (Abort, s)
      | Ret file_len \<Rightarrow>
        truncate_commit e p file_len (file_lines lw lt file_len parts_str encoded_lines) s))))))"

definition chat_truncate :: "truncate_env \<Rightarrow> path \<Rightarrow> int \<Rightarrow> fs \<Rightarrow> int outcome \<times> fs" where
  "chat_truncate e p keep_count s =
     (if keep_count < 0 then (Abort, s)
      else (case chat_lock_acquire (tr_lock e) p s of
        (Abort, s1) \<Rightarrow> (Abort, s1)
      | (Ret False, s1) \<Rightarrow> (Ret (-1), s1)
      | (Ret True, s1) \<Rightarrow>
        (case chat_read (tr_read e) p s1 of
           Abort \<Rightarrow> (Abort, s1)
         | Ret None \<Rightarrow> release_and_return (tr_lock e) p (-1) s1
         | Ret (Some st) \<Rightarrow>
           (case truncate_locked e p (nat keep_count) st s1 of
              (Abort, s2) \<Rightarrow> (Abort, s2)
            | (Ret rc, s2) \<Rightarrow> release_and_return (tr_lock e) p rc s2))))"

section \<open>Polling\<close>

text \<open>\<open>ticks k\<close> is what the \<open>k\<close>-th wake-up of the loop finds: the files, and how reading goes.\<close>

definition has_new_from_other :: "nat \<Rightarrow> string \<Rightarrow> chat_state \<Rightarrow> bool" where
  "has_new_from_other initial handle st \<longleftrightarrow>
     length (messages st) > initial
     \<and> list_ex (\<lambda>m. m_handle m \<noteq> handle) (drop initial (messages st))"

fun poll_loop :: "path \<Rightarrow> string \<Rightarrow> nat \<Rightarrow> (read_env \<times> fs) list \<Rightarrow> int outcome" where
  "poll_loop p handle initial [] = Ret 3"
| "poll_loop p handle initial ((e, s) # rest) =
     (case chat_read e p s of
        Abort \<Rightarrow> Abort
      | Ret None \<Rightarrow> Ret (-1)
      | Ret (Some st) \<Rightarrow>
          if has_new_from_other initial handle st then Ret 0 else poll_loop p handle initial rest)"

definition chat_poll ::
  "read_env \<Rightarrow> fs \<Rightarrow> (nat \<Rightarrow> read_env \<times> fs) \<Rightarrow> path \<Rightarrow> string \<Rightarrow> int \<Rightarrow> int outcome" where
  "chat_poll e s ticks p handle timeout_secs =
     (if timeout_secs < 0 then Abort
      else (case chat_read e p s of
              Abort \<Rightarrow> Abort
            | Ret None \<Rightarrow> Ret (-1)
            | Ret (Some st) \<Rightarrow>
                poll_loop p handle (length (messages st)) (map ticks [0..<nat timeout_secs])))"

end
