(* ===== verification/ChatLog.thy ===== *)
theory ChatLog
  imports ChatSend
begin

text \<open>
  The chat file as an append-only log.  \<open>chat_content_wf\<close> is the invariant of the file's
  bytes: a header whose \<open>file-length\<close> is the size of the file, and lines that reading
  accepts.  The lemmas compute what reading and collecting find in such a file, and what
  sending, creating and truncating leave.
\<close>

section \<open>The invariant of the file\<close>

definition field_ok :: "string \<Rightarrow> bool" where
  "field_ok f \<longleftrightarrow> no_nul f \<and> nl \<notin> set f \<and> (f = [] \<or> last f \<noteq> cr) \<and> length f \<le> 8192"

definition stored_line :: "string \<Rightarrow> bool" where
  "stored_line l \<longleftrightarrow> fits_line MAX_MESSAGE_LEN l \<and> no_nul l \<and> l \<noteq> [] \<and> last l \<noteq> cr
     \<and> \<not> list_all (\<lambda>c. c = sp) l \<and> l \<noteq> ''=== nbs-chat ===''
     \<and> decode_line l \<noteq> Stop \<and> decode_line l \<noteq> NulContent"

definition header_ok :: "string \<Rightarrow> string \<Rightarrow> string \<Rightarrow> bool" where
  "header_ok lw lt ps \<longleftrightarrow> field_ok lw \<and> length lw < MAX_HANDLE_LEN \<and> field_ok lt \<and> length lt < 64 \<and> field_ok ps"

definition is_chat_content :: "string \<Rightarrow> string \<Rightarrow> string \<Rightarrow> string \<Rightarrow> string list \<Rightarrow> bool" where
  "is_chat_content c lw lt ps body \<longleftrightarrow>
     c = unlines (file_lines lw lt (int (length c)) ps body) \<and> int (length c) \<le> LLONG_MAX
     \<and> header_ok lw lt ps \<and> list_all stored_line body"

definition chat_content_wf :: "string \<Rightarrow> bool" where
  "chat_content_wf c \<longleftrightarrow> (\<exists>lw lt qs body. list_all clean_participant qs
     \<and> is_chat_content c lw lt (join_participants qs) body)"

definition line_message :: "string \<Rightarrow> chat_message option" where
  "line_message l = (case decode_line l of Msg m \<Rightarrow> Some m | _ \<Rightarrow> None)"

definition body_messages :: "string list \<Rightarrow> chat_message list" where
  "body_messages ls = List.map_filter line_message ls"

definition body_skipped :: "string list \<Rightarrow> int" where
  "body_skipped ls = int (length (filter (\<lambda>l. decode_line l = Corrupt) ls))"

lemma body_messages_simps [simp]:
  "body_messages [] = []"
  "body_messages (l # ls) = (case line_message l of None \<Rightarrow> [] | Some m \<Rightarrow> [m]) @ body_messages ls"
  "body_messages (ls @ ms) = body_messages ls @ body_messages ms"
  by (simp_all add: body_messages_def List.map_filter_def split: option.splits)

lemma length_body_messages: "length (body_messages ls) \<le> length ls"
  by (induction ls) (auto split: option.splits)

section \<open>Reading a well-formed file\<close>

lemma stored_line_chomp: "stored_line l \<Longrightarrow> chomp (l @ [nl]) = l"
  by (rule chomp_line) (auto simp: stored_line_def fits_line_def)

lemma decode_line_mod4: "length l mod 4 \<noteq> 0 \<Longrightarrow> \<not> list_all (\<lambda>c. c = sp) l \<Longrightarrow> decode_line l = Corrupt"
  by (simp add: decode_line_def)

lemma read_body_stored:
  assumes "read_env_ok e" "stored_line l"
  shows "read_body e k l st =
    Ret (case decode_line l of Msg m \<Rightarrow> st\<lparr>messages := messages st @ [m]\<rparr> | Corrupt \<Rightarrow> skip_line st | _ \<Rightarrow> st)"
proof -
  have "\<not> list_all (\<lambda>c. c = sp) l" "decode_line l \<noteq> Stop" "decode_line l \<noteq> NulContent"
    using assms(2) by (auto simp: stored_line_def)
  then show ?thesis
    using assms(1) decode_line_mod4[of l] by (auto simp: read_body_def read_env_ok_def split: body_line.splits)
qed

text \<open>What the lines after the header do to the state, when every call succeeds.\<close>

definition add_body :: "string list \<Rightarrow> chat_state \<Rightarrow> chat_state" where
  "add_body ls st = st\<lparr>messages := messages st @ body_messages ls,
                       skipped_count := skipped_count st + body_skipped ls\<rparr>"

lemma add_body_simps:
  "add_body [] st = st"
  "add_body (l # ls) st = add_body ls (case decode_line l of Msg m \<Rightarrow> st\<lparr>messages := messages st @ [m]\<rparr>
                                        | Corrupt \<Rightarrow> skip_line st | _ \<Rightarrow> st)"
  by (auto simp: add_body_def body_skipped_def skip_line_def line_message_def split: body_line.splits)

lemma read_loop_body:
  assumes "read_env_ok e"
  shows "list_all stored_line ls \<Longrightarrow> past_header r \<Longrightarrow> \<not> in_header r \<Longrightarrow>
    length (messages (rd_state r)) + length ls \<le> MAX_MESSAGES \<Longrightarrow>
    read_loop e (map (\<lambda>l. l @ [nl]) ls) r
      = Ret (r\<lparr>line_number := line_number r + length ls, rd_state := add_body ls (rd_state r)\<rparr>)"
proof (induction ls arbitrary: r)
  case Nil
  then show ?case by (simp add: add_body_simps)
next
  case (Cons l ls)
  let ?st = "case decode_line l of Msg m \<Rightarrow> (rd_state r)\<lparr>messages := messages (rd_state r) @ [m]\<rparr>
                | Corrupt \<Rightarrow> skip_line (rd_state r) | _ \<Rightarrow> rd_state r"
  let ?r = "r\<lparr>line_number := line_number r + 1, rd_state := ?st\<rparr>"
  have l: "stored_line l" "chomp (l @ [nl]) = l" "l \<noteq> ''=== nbs-chat ===''" "l \<noteq> []"
    using Cons.prems(1) stored_line_chomp by (auto simp: stored_line_def)
  have s: "read_step e (l @ [nl]) r = Ret ?r"
    using l Cons.prems read_body_stored[OF assms l(1)]
    by (simp add: read_step_def Let_def)
  have len: "length (messages ?st) \<le> length (messages (rd_state r)) + 1"
    by (simp add: skip_line_def split: body_line.splits)
  have "read_loop e (map (\<lambda>l. l @ [nl]) ls) ?r
      = Ret (?r\<lparr>line_number := line_number ?r + length ls, rd_state := add_body ls (rd_state ?r)\<rparr>)"
  proof (rule Cons.IH)
    show "list_all stored_line ls" using Cons.prems(1) by simp
    show "past_header ?r" "\<not> in_header ?r" using Cons.prems(2,3) by simp_all
    have "length (messages (rd_state ?r)) = length (messages ?st)" by simp
    then show "length (messages (rd_state ?r)) + length ls \<le> 10000" using len Cons.prems(4) by simp
  qed
  then show ?case using s by (simp add: add_body_simps)
qed

lemma chomp_field:
  assumes "field_ok f" "no_nul k" "k \<noteq> []" "nl \<notin> set k" "last k \<noteq> cr"
  shows "chomp ((k @ f) @ [nl]) = k @ f"
  using assms by (intro chomp_line) (auto simp: field_ok_def last_append)

lemma field_ok_dec: "0 \<le> n \<Longrightarrow> n \<le> LLONG_MAX \<Longrightarrow> field_ok (dec n)"
proof -
  assume n: "0 \<le> n" "n \<le> LLONG_MAX"
  have d: "\<And>c. c \<in> set (dec n) \<Longrightarrow> isdigit c" using n dec_digits by blast
  have "length (dec n) \<le> 8192" using length_dec_int64[OF n] by simp
  moreover have "isdigit (last (dec n))" using d last_in_set[of "dec n"] by simp
  then have "last (dec n) \<noteq> cr" by (auto simp: isdigit_def)
  moreover have "nl \<notin> set (dec n)" using d by (auto simp: isdigit_def)
  ultimately show ?thesis by (simp add: field_ok_def)
qed

definition header_state :: "string \<Rightarrow> string \<Rightarrow> int \<Rightarrow> string \<Rightarrow> chat_state" where
  "header_state lw lt n ps = empty_state\<lparr>last_writer := lw, last_write := lt, file_length := n,
       participants := parse_participants ps MAX_PARTICIPANTS\<rparr>"

lemma read_loop_header:
  assumes "header_ok lw lt ps" "0 \<le> n" "n \<le> LLONG_MAX"
  shows "read_loop e (map (\<lambda>l. l @ [nl]) (file_lines lw lt n ps []) @ cs) start_reader
    = read_loop e cs \<lparr>in_header = False, past_header = True, line_number = Suc (Suc (Suc (Suc (Suc (Suc 0))))), rd_state = header_state lw lt n ps\<rparr>"
proof -
  have f: "field_ok lw" "field_ok lt" "field_ok ps" "field_ok (dec n)"
    and len: "length lw < 64" "length lt < 64"
    using assms field_ok_dec by (auto simp: header_ok_def)
  have c: "chomp ((''last-writer: '' @ lw) @ [nl]) = ''last-writer: '' @ lw"
    "chomp ((''last-write: '' @ lt) @ [nl]) = ''last-write: '' @ lt"
    "chomp ((''file-length: '' @ dec n) @ [nl]) = ''file-length: '' @ dec n"
    "chomp ((''participants: '' @ ps) @ [nl]) = ''participants: '' @ ps"
    "chomp (''=== nbs-chat ==='' @ [nl]) = ''=== nbs-chat ===''"
    "chomp (''---'' @ [nl]) = ''---''"
    by (rule chomp_field[OF f(1)] chomp_field[OF f(2)] chomp_field[OF f(3)] chomp_field[OF f(4)] chomp_line; simp)+
  have p: "safe_parse_int64 (dec n) = Some n" using safe_parse_int64_dec assms(2,3) by simp
  show ?thesis
    unfolding file_lines_def append_Nil2 list.map append_Cons append_Nil read_loop.simps
      read_step_def c[unfolded append_Cons append_Nil]
    using len p
    by (simp add: Let_def start_reader_def header_field_def header_state_def empty_state_def snprintf_id
          read_step_def c[simplified])
qed

lemma chat_lines_fit:
  assumes "header_ok lw lt ps" "0 \<le> n" "n \<le> LLONG_MAX" "list_all stored_line body"
  shows "l \<in> set (file_lines lw lt n ps body) \<Longrightarrow> fits_line MAX_MESSAGE_LEN l"
proof -
  have f: "field_ok lw" "field_ok lt" "field_ok ps" "field_ok (dec n)"
    using assms field_ok_dec by (auto simp: header_ok_def)
  have h: "fits_line MAX_MESSAGE_LEN (''last-writer: '' @ lw)" "fits_line MAX_MESSAGE_LEN (''last-write: '' @ lt)"
    "fits_line MAX_MESSAGE_LEN (''file-length: '' @ dec n)" "fits_line MAX_MESSAGE_LEN (''participants: '' @ ps)"
    "fits_line MAX_MESSAGE_LEN ''=== nbs-chat ==='' " "fits_line MAX_MESSAGE_LEN ''---''"
    using f by (simp_all add: fits_line_def field_ok_def)
  have b: "\<And>l. l \<in> set body \<Longrightarrow> fits_line MAX_MESSAGE_LEN l"
    using assms(4) by (simp add: list_all_iff stored_line_def)
  assume "l \<in> set (file_lines lw lt n ps body)"
  then have "l \<in> {''=== nbs-chat ==='', ''last-writer: '' @ lw, ''last-write: '' @ lt,
      ''file-length: '' @ dec n, ''participants: '' @ ps, ''---''} \<union> set body"
    by (simp add: file_lines_def)
  then show ?thesis using h b by blast
qed

lemma file_lines_body: "file_lines lw lt n ps body = file_lines lw lt n ps [] @ body"
  by (simp add: file_lines_def)

lemma chat_chunks:
  assumes "is_chat_content c lw lt ps body"
  shows "fgets_all MAX_MESSAGE_LEN c
    = map (\<lambda>l. l @ [nl]) (file_lines lw lt (int (length c)) ps []) @ map (\<lambda>l. l @ [nl]) body"
proof -
  let ?n = "int (length c)"
  have a: "c = unlines (file_lines lw lt ?n ps body)" "?n \<le> LLONG_MAX" "header_ok lw lt ps" "list_all stored_line body"
    using assms by (auto simp: is_chat_content_def)
  have "fgets_all MAX_MESSAGE_LEN (unlines (file_lines lw lt ?n ps body) @ [])
      = map (\<lambda>l. l @ [nl]) (file_lines lw lt ?n ps body) @ fgets_all MAX_MESSAGE_LEN []"
    by (rule fgets_all_lines) (use chat_lines_fit[OF a(3) _ a(2,4)] in auto)
  then show ?thesis using a(1) by (subst a(1)) (simp add: file_lines_body[of _ _ _ _ body])
qed

lemma chat_read_wf:
  assumes "read_env_ok e" "files s p = Some c" "is_chat_content c lw lt ps body" "length body \<le> MAX_MESSAGES"
  shows "chat_read e p s = Ret (Some (add_body body (header_state lw lt (int (length c)) ps)))"
proof -
  have a: "int (length c) \<le> LLONG_MAX" "header_ok lw lt ps" "list_all stored_line body"
    using assms(3) by (auto simp: is_chat_content_def)
  let ?r = "\<lparr>in_header = False, past_header = True, line_number = Suc (Suc (Suc (Suc (Suc (Suc 0))))),
             rd_state = header_state lw lt (int (length c)) ps\<rparr>"
  have m0: "messages (header_state lw lt (int (length c)) ps) = []"
    by (simp add: header_state_def empty_state_def)
  have b: "read_loop e (map (\<lambda>l. l @ [nl]) body) ?r = Ret (?r\<lparr>line_number := line_number ?r + length body,
      rd_state := add_body body (rd_state ?r)\<rparr>)"
    by (rule read_loop_body) (use assms(1,4) a m0 in auto)
  have l: "read_loop e (fgets_all MAX_MESSAGE_LEN c) start_reader = Ret (?r\<lparr>line_number := line_number ?r + length body,
      rd_state := add_body body (rd_state ?r)\<rparr>)"
    unfolding chat_chunks[OF assms(3)] using read_loop_header[OF a(2) _ a(1)] b by simp
  have "length (messages (add_body body (rd_state ?r))) \<le> 10000"
    using length_body_messages[of body] assms(4) m0 by (simp add: add_body_def)
  then show ?thesis using assms(1,2) l by (simp add: chat_read_def read_env_ok_def)
qed

lemma messages_read [simp]:
  "messages (add_body body (header_state lw lt n ps)) = body_messages body"
  "participants (add_body body (header_state lw lt n ps)) = parse_participants ps MAX_PARTICIPANTS"
  "last_writer (add_body body (header_state lw lt n ps)) = lw"
  "last_write (add_body body (header_state lw lt n ps)) = lt"
  "file_length (add_body body (header_state lw lt n ps)) = n"
  "skipped_count (add_body body (header_state lw lt n ps)) = body_skipped body"
  by (simp_all add: add_body_def header_state_def empty_state_def)

section \<open>Collecting the lines of a well-formed file\<close>

lemma send_collect_body:
  "(\<And>k. alloc k) \<Longrightarrow> list_all stored_line ls \<Longrightarrow> length acc + length ls \<le> MAX_MESSAGES \<Longrightarrow>
   send_collect alloc (map (\<lambda>l. l @ [nl]) ls) seen True acc = Ret (Some (acc @ ls))"
proof (induction ls arbitrary: acc)
  case (Cons l ls)
  then have "chomp (l @ [nl]) = l" "l \<noteq> []" "\<not> list_all (\<lambda>c. c = sp) l"
    using stored_line_chomp by (auto simp: stored_line_def)
  then show ?case using Cons by simp
qed simp

lemma chomp_header:
  assumes "header_ok lw lt ps" "0 \<le> n" "n \<le> LLONG_MAX"
  shows "map chomp (map (\<lambda>l. l @ [nl]) (file_lines lw lt n ps [])) = file_lines lw lt n ps []"
proof -
  have f: "field_ok lw" "field_ok lt" "field_ok ps" "field_ok (dec n)"
    using assms field_ok_dec by (auto simp: header_ok_def)
  have "chomp ((''last-writer: '' @ lw) @ [nl]) = ''last-writer: '' @ lw"
    "chomp ((''last-write: '' @ lt) @ [nl]) = ''last-write: '' @ lt"
    "chomp ((''file-length: '' @ dec n) @ [nl]) = ''file-length: '' @ dec n"
    "chomp ((''participants: '' @ ps) @ [nl]) = ''participants: '' @ ps"
    "chomp (''=== nbs-chat ==='' @ [nl]) = ''=== nbs-chat ===''"
    "chomp (''---'' @ [nl]) = ''---''"
    by (rule chomp_field[OF f(1)] chomp_field[OF f(2)] chomp_field[OF f(3)] chomp_field[OF f(4)] chomp_line; simp)+
  then show ?thesis unfolding file_lines_def by simp
qed

text \<open>Both collecting loops skip exactly the six header lines.\<close>

lemma collect_header:
  assumes "header_ok lw lt ps" "0 \<le> n" "n \<le> LLONG_MAX"
  shows "send_collect alloc (map (\<lambda>l. l @ [nl]) (file_lines lw lt n ps []) @ cs) False False []
      = send_collect alloc cs True True []"
    and "truncate_collect alloc' keep (map (\<lambda>l. l @ [nl]) (file_lines lw lt n ps []) @ cs) False False []
      = truncate_collect alloc' keep cs True True []"
  using chomp_header[OF assms] by (auto simp: file_lines_def Let_def)

lemma send_collect_wf:
  assumes "\<And>k. alloc k" "is_chat_content c lw lt ps body" "length body \<le> MAX_MESSAGES"
  shows "send_collect alloc (fgets_all MAX_MESSAGE_LEN c) False False [] = Ret (Some body)"
proof -
  have a: "int (length c) \<le> LLONG_MAX" "header_ok lw lt ps" "list_all stored_line body"
    using assms(2) by (auto simp: is_chat_content_def)
  show ?thesis unfolding chat_chunks[OF assms(2)]
    using collect_header(1)[OF a(2) _ a(1)] send_collect_body[OF assms(1) a(3), of "[]"] assms(3) by simp
qed

lemma truncate_collect_body:
  assumes "\<And>k. alloc k"
  shows "list_all stored_line ls \<Longrightarrow> length acc \<le> keep \<Longrightarrow>
   truncate_collect alloc keep (map (\<lambda>l. l @ [nl]) ls) seen True acc = Some (acc @ take (keep - length acc) ls)"
proof (induction ls arbitrary: acc)
  case (Cons l ls)
  have sl: "stored_line l" and ls: "list_all stored_line ls" using Cons.prems(1) by simp_all
  have l: "chomp (l @ [nl]) = l" "l \<noteq> []" "list_all stored_line ls"
    using stored_line_chomp[OF sl] sl ls by (simp_all add: stored_line_def)
  show ?case
  proof (cases "length acc < keep")
    case True
    then obtain k where k: "keep = length acc + Suc k" using less_imp_Suc_add by fastforce
    have "truncate_collect alloc keep (map (\<lambda>l. l @ [nl]) ls) seen True (acc @ [l])
        = Some ((acc @ [l]) @ take (keep - length (acc @ [l])) ls)"
      using Cons.IH[OF l(3)] k by simp
    then show ?thesis using l True assms[of "length acc"] by (simp add: k Let_def)
  next
    case False
    then have "length acc = keep" using Cons.prems(2) by simp
    moreover have "truncate_collect alloc keep (map (\<lambda>l. l @ [nl]) ls) seen True acc
        = Some (acc @ take (keep - length acc) ls)"
      using Cons.IH[OF l(3) Cons.prems(2)] .
    ultimately show ?thesis using l False by (simp add: Let_def)
  qed
qed simp

lemma truncate_collect_wf:
  assumes "\<And>k. alloc k" "is_chat_content c lw lt ps body"
  shows "truncate_collect alloc keep (fgets_all MAX_MESSAGE_LEN c) False False [] = Some (take keep body)"
proof -
  have a: "int (length c) \<le> LLONG_MAX" "header_ok lw lt ps" "list_all stored_line body"
    using assms(2) by (auto simp: is_chat_content_def)
  show ?thesis unfolding chat_chunks[OF assms(2)]
    using collect_header(2)[OF a(2) _ a(1)] truncate_collect_body[of alloc body "[]" keep] assms(1) a(3) by simp
qed

section \<open>The participants header of a well-formed file\<close>

lemma format_participant_length: "clean_participant q \<Longrightarrow> length (format_participant q) \<le> 76"
  using length_dec_int32[of "p_count q"]
  by (auto simp: clean_participant_def clean_handle_def format_participant_def)

lemma join_participants_length:
  "list_all clean_participant qs \<Longrightarrow> length (join_participants qs) \<le> 78 * length qs"
proof (induction qs)
  case (Cons q qs)
  then show ?case using format_participant_length[of q] by (auto simp: join_participants_Cons)
qed simp

lemma format_participants_exact:
  "list_all clean_participant qs \<Longrightarrow> length qs * 78 < 4096 \<Longrightarrow> format_participants qs 4096 = join_participants qs"
  using join_participants_length[of qs] by (simp add: format_participants_join)

lemma format_participant_chars:
  assumes "clean_participant q" "c \<in> set (format_participant q)"
  shows "c \<noteq> nul \<and> c \<noteq> nl \<and> c \<noteq> cr"
proof -
  have q: "clean_handle (p_handle q)" "0 \<le> p_count q" using assms(1) by (auto simp: clean_participant_def)
  have "c \<in> set (p_handle q) \<or> c = CHR ''('' \<or> c \<in> set (dec (p_count q)) \<or> c = CHR '')''"
    using assms(2) by (auto simp: format_participant_def)
  then show ?thesis
  proof (elim disjE)
    assume "c \<in> set (p_handle q)"
    then show ?thesis using clean_handle_chars[OF q(1)] by blast
  next
    assume "c \<in> set (dec (p_count q))"
    then have "isdigit c" using dec_digits[OF q(2)] by blast
    then show ?thesis by (auto simp: isdigit_def)
  qed simp_all
qed

lemma join_participants_chars:
  "list_all clean_participant qs \<Longrightarrow> c \<in> set (join_participants qs) \<Longrightarrow> c \<noteq> nul \<and> c \<noteq> nl \<and> c \<noteq> cr"
proof (induction qs)
  case (Cons q qs)
  then have "c \<in> set (format_participant q) \<or> c \<in> set '', '' \<or> c \<in> set (join_participants qs)"
    by (auto simp: join_participants_Cons split: if_splits)
  moreover have "c \<in> set '', '' \<Longrightarrow> c \<noteq> nul \<and> c \<noteq> nl \<and> c \<noteq> cr" by auto
  moreover have "list_all clean_participant qs" "clean_participant q" using Cons.prems(1) by simp_all
  ultimately show ?case using Cons.IH format_participant_chars[of q c] by blast
qed simp

lemma join_participants_field:
  assumes "list_all clean_participant qs" "length qs * 78 < 4096"
  shows "field_ok (join_participants qs)"
proof -
  have "length (join_participants qs) \<le> 8192" using join_participants_length[OF assms(1)] assms(2) by simp
  moreover have "no_nul (join_participants qs)" "nl \<notin> set (join_participants qs)"
    "cr \<notin> set (join_participants qs)"
    using join_participants_chars[OF assms(1)] by (auto simp: no_nul_def)
  moreover have "join_participants qs = [] \<or> last (join_participants qs) \<noteq> cr"
    using \<open>cr \<notin> set (join_participants qs)\<close> last_in_set by metis
  ultimately show ?thesis by (simp add: field_ok_def)
qed

lemma bump_participant_clean:
  "list_all clean_participant qs \<Longrightarrow> list_all (\<lambda>q. p_count q < INT_MAX) qs \<Longrightarrow>
   bump_participant qs h = Some qs' \<Longrightarrow> list_all clean_participant qs' \<and> length qs' = length qs"
  by (induction qs arbitrary: qs') (auto simp: clean_participant_def split: if_splits)

lemma update_participants_clean:
  assumes "list_all clean_participant qs" "list_all (\<lambda>q. p_count q < INT_MAX) qs" "clean_handle h"
  shows "list_all clean_participant (update_participants qs h n)"
proof (cases "bump_participant qs h")
  case None
  have "take 63 h = h" using assms(3) by (simp add: clean_handle_def)
  then show ?thesis using None assms by (simp add: update_participants_def clean_participant_def)
next
  case (Some qs')
  then show ?thesis using bump_participant_clean[OF assms(1,2)] by (simp add: update_participants_def)
qed

lemma length_update_participants: "length qs \<le> length (update_participants qs h n)"
proof -
  have "bump_participant qs h = Some qs' \<Longrightarrow> length qs' = length qs" for qs'
    by (induction qs arbitrary: qs') (auto split: if_splits)
  then show ?thesis by (auto simp: update_participants_def split: option.splits)
qed

end
