(* ===== verification/ChatStore.thy ===== *)
theory ChatStore
  imports ChatLog
begin

text \<open>
  The chat file under its writers, whatever fails on the way.  For a file that satisfies the
  invariant of ChatLog, a sender leaves either the old bytes or a complete new file; the
  lemmas here follow the writers step by step and say which files each step can touch.
\<close>

section \<open>The files a writer touches\<close>

definition side_files :: "path \<Rightarrow> path set" where
  "side_files p = {p @ ''.tmp'', lock_path p, p @ ''.cursors'', p @ ''.cursors.tmp''}"

definition same_but :: "path set \<Rightarrow> fs \<Rightarrow> fs \<Rightarrow> bool" where
  "same_but A s t \<longleftrightarrow> (\<forall>q. q \<notin> A \<longrightarrow> files t q = files s q)"

lemma same_but_refl [simp, intro]: "same_but A s s"
  by (simp add: same_but_def)

lemma same_but_held [simp]:
  "same_but A s (t\<lparr>held := h\<rparr>) \<longleftrightarrow> same_but A s t"
  by (simp add: same_but_def)

lemma same_but_trans: "same_but A s t \<Longrightarrow> same_but B t u \<Longrightarrow> A \<subseteq> C \<Longrightarrow> B \<subseteq> C \<Longrightarrow> same_but C s u"
  unfolding same_but_def by (metis subsetD)

lemma same_but_mono: "same_but A s t \<Longrightarrow> A \<subseteq> B \<Longrightarrow> same_but B s t"
  unfolding same_but_def by blast

lemma same_butD: "same_but A s t \<Longrightarrow> q \<notin> A \<Longrightarrow> files t q = files s q"
  by (simp add: same_but_def)

lemma same_but_fs [simp]:
  "q \<in> A \<Longrightarrow> same_but A s (put_file q c t) = same_but A s t"
  "q \<in> A \<Longrightarrow> same_but A s (remove_file q t) = same_but A s t"
  by (auto simp: same_but_def)

lemma side_files_self [simp]: "p \<notin> side_files p" "p @ ''.tmp'' \<in> side_files p"
  "lock_path p \<in> side_files p" "p @ ''.cursors'' \<in> side_files p" "p @ ''.cursors.tmp'' \<in> side_files p"
  by (auto simp: side_files_def lock_path_def)

lemma acquire_same: "chat_lock_acquire e p s = (r, s1) \<Longrightarrow> same_but (side_files p) s s1"
  by (erule acquire_cases) (auto simp: same_but_def side_files_def)

lemma release_same: "release_and_return e p v s = (r, s1) \<Longrightarrow> files s1 = files s"
  using release_files[of e p v s] by simp

lemma cursor_path_ret: "cursor_path p = Ret c \<Longrightarrow> c = p @ ''.cursors''"
  by (auto simp: cursor_path_def Let_def ASSERT_MSG_def split: if_splits)

lemma write_tmp_same: "write_tmp w u tmp ls s = (r, s1) \<Longrightarrow> same_but {tmp} s s1 \<and> held s1 = held s"
  using write_tmp_others by (auto simp: same_but_def)

lemma write_tmp_side:
  "write_tmp w u tmp ls s = (r, s1) \<Longrightarrow> tmp \<in> A \<Longrightarrow> same_but A s s1 \<and> held s1 = held s"
  using write_tmp_same same_but_mono by blast

lemma cursor_write_same: "same_but (side_files p) s (snd (chat_cursor_write l can_read w p h i s))"
proof -
  let ?tmp = "p @ ''.cursors.tmp''"
  have r: "same_but (side_files p) s (snd (release_and_return l p v b))"
    if "same_but (side_files p) s b" for v :: int and b
    using that release_files[of l p v b] by (simp add: same_but_def)
  have w: "same_but (side_files p) s b" if "chat_lock_acquire l p s = (x, a)" "write_tmp w False ?tmp ls a = (wr, b)"
    for a b ls wr x
    using acquire_same[OF that(1)] write_tmp_same[OF that(2)] by (auto intro: same_but_trans)
  have rn: "same_but (side_files p) s (rename_file ?tmp (p @ ''.cursors'') b)" if "same_but (side_files p) s b" for b
    using that by (auto simp: same_but_def)
  show ?thesis
    unfolding chat_cursor_write_def Let_def
    by (auto split: outcome.splits prod.splits bool.splits write_result.splits
        dest!: cursor_path_ret dest: acquire_same intro!: r rn intro: w)
qed

section \<open>A complete file\<close>

text \<open>The bytes a writer puts down for a header and the stored lines.\<close>

definition chat_bytes :: "string \<Rightarrow> string \<Rightarrow> string \<Rightarrow> string list \<Rightarrow> string" where
  "chat_bytes lw lt ps body = (case chat_lines lw lt ps body of Ret ls \<Rightarrow> unlines ls | Abort \<Rightarrow> [])"

lemma chat_lines_ret:
  obtains n where "compute_file_length (header_no_length lw lt ps @ unlines body) = Ret n"
    "chat_lines lw lt ps body = Ret (file_lines lw lt n ps body)"
    "chat_bytes lw lt ps body = unlines (file_lines lw lt n ps body)"
  using compute_file_length_ret[of "header_no_length lw lt ps @ unlines body"]
  by (auto simp: chat_lines_def chat_bytes_def)

lemma length_dec_nat_le: "length (dec_nat k) \<le> 1 + k div 10"
proof (induction k rule: dec_nat.induct)
  case (1 n)
  then show ?case by (cases "n < 10") (auto simp: dec_nat.simps[of n])
qed

lemma ndigits_le: "ndigits (int k) \<le> 1 + int k div 10"
  using length_dec_nat_le[of k] by (simp add: ndigits_nat)

lemma length_unlines_fits:
  "list_all stored_line body \<Longrightarrow> length (unlines body) \<le> 1048576 * length body"
proof (induction body)
  case (Cons l body)
  have "length l < 1048576" using Cons.prems by (simp add: stored_line_def fits_line_def)
  then show ?case using Cons by simp
qed simp

text \<open>A rendered file satisfies the invariant: its \<open>file-length\<close> is its size.\<close>

lemma chat_bytes_content:
  assumes "header_ok lw lt ps" "list_all stored_line body" "length body \<le> MAX_MESSAGES"
  shows "is_chat_content (chat_bytes lw lt ps body) lw lt ps body"
proof -
  obtain n where n: "compute_file_length (header_no_length lw lt ps @ unlines body) = Ret n"
    "chat_bytes lw lt ps body = unlines (file_lines lw lt n ps body)" by (rule chat_lines_ret)
  have nn: "no_nul lw" "no_nul lt" "no_nul ps" "\<forall>l \<in> set body. no_nul l"
    using assms by (auto simp: header_ok_def field_ok_def stored_line_def list_all_iff)
  have len: "int (length (unlines (file_lines lw lt n ps body))) = n" by (rule file_length_exact[OF n(1) nn])
  have b: "length (unlines body) \<le> 1048576 * 10000"
    using length_unlines_fits[OF assms(2)] assms(3) by simp
  have h: "length (header_no_length lw lt ps) \<le> 20000"
    using assms(1) by (simp add: header_ok_def field_ok_def header_no_length_def)
  have "no_nul (header_no_length lw lt ps @ unlines body)" using nn by simp
  then have c: "n = int (length (header_no_length lw lt ps @ unlines body)) + 14 + ndigits n" "0 < n"
    using compute_file_length_ret[of "header_no_length lw lt ps @ unlines body"] n(1)
    by (auto simp: cstr_id simp del: no_nul_append)
  moreover have "ndigits n \<le> 1 + n div 10"
    using ndigits_le[of "nat n"] c(2) by simp
  ultimately have "n \<le> LLONG_MAX" using b h by simp
  then show ?thesis
    using n(2) len assms(1,2) by (simp add: is_chat_content_def)
qed

section \<open>The new line\<close>

text \<open>What the sender's input must be for its message to come back as it went in.\<close>

definition sendable :: "string \<Rightarrow> int \<Rightarrow> string \<Rightarrow> bool" where
  "sendable h now msg \<longleftrightarrow> clean_handle h \<and> 0 < now \<and> now \<le> LLONG_MAX \<and> no_nul msg \<and> length msg \<le> 786000"

definition new_line :: "string \<Rightarrow> int \<Rightarrow> string \<Rightarrow> string" where
  "new_line h now msg = encode_groups (send_wire h now msg)"

definition new_message :: "string \<Rightarrow> int \<Rightarrow> string \<Rightarrow> chat_message" where
  "new_message h now msg = \<lparr>m_handle = h, m_content = msg, m_timestamp = now\<rparr>"

lemma send_wire_length:
  "sendable h now msg \<Longrightarrow> length (send_wire h now msg) \<le> 786085 \<and> send_wire h now msg \<noteq> []"
  using length_dec_int64[of now] by (simp add: sendable_def send_wire_def clean_handle_def)

lemma decode_new_line:
  assumes "sendable h now msg"
  shows "decode_line (new_line h now msg) = Msg (new_message h now msg)"
proof -
  let ?w = "send_wire h now msg" and ?l = "new_line h now msg"
  have w: "length ?w \<le> 786085" "?w \<noteq> []" using send_wire_length[OF assms] by auto
  have ne: "?l \<noteq> []" using encode_groups_nonempty[OF w(2)] by (simp add: new_line_def)
  have nsp: "\<not> list_all (\<lambda>c. c = sp) ?l"
    using ne encode_groups_chars[of "hd ?l" ?w] by (cases ?l) (auto simp: new_line_def)
  have len: "length ?l = (length ?w + 2) div 3 * 4" by (simp add: new_line_def length_encode_groups)
  have sz: "base64_decoded_size (length ?l) = Ret (length ?l div 4 * 3 + 3)"
    using len w(1) by (simp add: base64_decoded_size_def ASSERT_MSG_def)
  have "length ?w \<le> length ?l div 4 * 3 + 3" using len by simp
  then have d: "base64_decode ?l (length ?l div 4 * 3 + 3) = Ret (Inr ?w)"
    unfolding new_line_def by (intro base64_decode_encode) (use w(1) in auto)
  have "parse_wire ?w = Message (new_message h now msg)"
    unfolding new_message_def using assms by (intro parse_wire_send_wire) (auto simp: sendable_def)
  then show ?thesis
    using nsp len sz d by (simp add: decode_line_def)
qed

lemma stored_new_line:
  assumes "sendable h now msg"
  shows "stored_line (new_line h now msg)"
proof -
  let ?w = "send_wire h now msg" and ?l = "new_line h now msg"
  have w: "length ?w \<le> 786085" "?w \<noteq> []" using send_wire_length[OF assms] by auto
  have ne: "?l \<noteq> []" using encode_groups_nonempty[OF w(2)] by (simp add: new_line_def)
  have ch: "c \<in> set ?l \<Longrightarrow> c \<noteq> nul \<and> c \<noteq> nl \<and> c \<noteq> cr \<and> c \<noteq> sp \<and> c \<noteq> CHR ''-''" for c
    using encode_groups_chars unfolding new_line_def by blast
  have "length ?l < 1048575" using w(1) by (simp add: new_line_def length_encode_groups)
  then have "fits_line MAX_MESSAGE_LEN ?l" using ch by (auto simp: fits_line_def)
  moreover have "no_nul ?l" using ch by (auto simp: no_nul_def)
  moreover have "last ?l \<noteq> cr" using ch last_in_set[OF ne] by blast
  moreover have "hd ?l \<noteq> sp" using ch hd_in_set[OF ne] by blast
  then have "\<not> list_all (\<lambda>c. c = sp) ?l" using ne by (cases ?l) auto
  moreover have "?l \<noteq> ''=== nbs-chat ==='' "
  proof
    assume "?l = ''=== nbs-chat ==='' "
    then have "CHR ''-'' \<in> set ?l" by simp
    then show False using ch by blast
  qed
  ultimately show ?thesis using ne decode_new_line[OF assms] by (simp add: stored_line_def)
qed

lemma body_messages_new_line:
  "sendable h now msg \<Longrightarrow> body_messages (ls @ [new_line h now msg]) = body_messages ls @ [new_message h now msg]"
  by (simp add: line_message_def decode_new_line)

lemma send_encode_cases:
  assumes "sendable h (se_now e) msg"
  shows "send_encode e h msg = Ret None \<or> send_encode e h msg = Ret (Some (new_line h (se_now e) msg))"
proof -
  let ?w = "send_wire h (se_now e) msg"
  have w: "length ?w \<le> 786085" "?w \<noteq> []" using send_wire_length[OF assms] by auto
  have "se_now e \<noteq> -1" using assms by (simp add: sendable_def)
  moreover have "base64_encoded_size (length ?w) = Ret ((length ?w + 2) div 3 * 4 + 1)"
    using w(1) by (simp add: base64_encoded_size_def ASSERT_MSG_def)
  moreover have "base64_encode ?w ((length ?w + 2) div 3 * 4 + 1) = Ret (Some (encode_groups ?w))"
    using base64_encode_ret[of ?w] w(1) by simp
  ultimately show ?thesis using w(2) by (simp add: send_encode_def new_line_def ASSERT_MSG_def Let_def)
qed

section \<open>Reading a well-formed file when calls may fail\<close>

lemma read_body_any:
  assumes "stored_line l"
  shows "\<exists>st. read_body e k l st0 = Ret st \<and> participants st = participants st0
    \<and> length (messages st) \<le> Suc (length (messages st0))"
  using assms
  by (cases "decode_line l"; cases "rd_line_alloc e k"; cases "rd_strdup e k"; cases "length l mod 4 = 0")
     (simp_all add: read_body_def stored_line_def skip_line_def)

lemma read_loop_body_any:
  "list_all stored_line ls \<Longrightarrow> past_header r \<Longrightarrow> \<not> in_header r \<Longrightarrow>
    length (messages (rd_state r)) + length ls \<le> MAX_MESSAGES \<Longrightarrow>
    \<exists>r'. read_loop e (map (\<lambda>l. l @ [nl]) ls) r = Ret r'
      \<and> participants (rd_state r') = participants (rd_state r)
      \<and> length (messages (rd_state r')) \<le> length (messages (rd_state r)) + length ls"
proof (induction ls arbitrary: r)
  case (Cons l ls)
  have sl: "stored_line l" and ls: "list_all stored_line ls" using Cons.prems(1) by simp_all
  have l: "chomp (l @ [nl]) = l" "l \<noteq> ''=== nbs-chat ==='' " "l \<noteq> []"
    using stored_line_chomp[OF sl] sl by (simp_all add: stored_line_def)
  obtain st where st: "read_body e (line_number r + 1) l (rd_state r) = Ret st"
      "participants st = participants (rd_state r)"
      "length (messages st) \<le> Suc (length (messages (rd_state r)))"
    using read_body_any[OF sl] by blast
  let ?r = "r\<lparr>line_number := line_number r + 1, rd_state := st\<rparr>"
  have "read_step e (l @ [nl]) r = Ret ?r"
    using l Cons.prems(2-4) st by (simp add: read_step_def Let_def)
  moreover have "\<exists>r'. read_loop e (map (\<lambda>l. l @ [nl]) ls) ?r = Ret r'
      \<and> participants (rd_state r') = participants (rd_state ?r)
      \<and> length (messages (rd_state r')) \<le> length (messages (rd_state ?r)) + length ls"
    using Cons.IH[OF ls, of ?r] Cons.prems(2-4) st by simp
  ultimately show ?case using st by auto
qed simp

lemma chat_read_wf_any:
  assumes "files s p = Some c" "is_chat_content c lw lt ps body" "length body \<le> MAX_MESSAGES"
  obtains (failed) "chat_read e p s = Ret None"
  | (state) st where "chat_read e p s = Ret (Some st)" "participants st = parse_participants ps MAX_PARTICIPANTS"
proof -
  have a: "int (length c) \<le> LLONG_MAX" "header_ok lw lt ps" "list_all stored_line body"
    using assms(2) by (auto simp: is_chat_content_def)
  let ?r = "\<lparr>in_header = False, past_header = True, line_number = Suc (Suc (Suc (Suc (Suc (Suc 0))))),
             rd_state = header_state lw lt (int (length c)) ps\<rparr>"
  have m0: "messages (header_state lw lt (int (length c)) ps) = []"
    by (simp add: header_state_def empty_state_def)
  obtain r' where r': "read_loop e (map (\<lambda>l. l @ [nl]) body) ?r = Ret r'"
      "participants (rd_state r') = parse_participants ps MAX_PARTICIPANTS"
      "length (messages (rd_state r')) \<le> 10000"
    using read_loop_body_any[OF a(3), of ?r e] m0 assms(3)
    by (auto simp: header_state_def)
  have l: "read_loop e (fgets_all MAX_MESSAGE_LEN c) start_reader = Ret r'"
    unfolding chat_chunks[OF assms(2)] using read_loop_header[OF a(2) _ a(1)] r'(1) by simp
  show thesis
  proof (cases "rd_open e \<and> rd_alloc e \<and> \<not> rd_ferror e \<and> rd_close e")
    case True
    then show ?thesis using assms(1) l r' state by (simp add: chat_read_def ASSERT_MSG_def)
  next
    case False
    then show ?thesis using assms(1) l r' failed by (auto simp: chat_read_def ASSERT_MSG_def)
  qed
qed

lemma send_collect_any:
  "list_all stored_line ls \<Longrightarrow> length acc + length ls \<le> MAX_MESSAGES \<Longrightarrow>
   send_collect alloc (map (\<lambda>l. l @ [nl]) ls) seen True acc \<in> {Ret None, Ret (Some (acc @ ls))}"
proof (induction ls arbitrary: acc)
  case (Cons l ls)
  have sl: "stored_line l" and ls: "list_all stored_line ls" using Cons.prems(1) by simp_all
  have l: "chomp (l @ [nl]) = l" "l \<noteq> []" "\<not> list_all (\<lambda>c. c = sp) l"
    using stored_line_chomp[OF sl] sl by (simp_all add: stored_line_def)
  have "send_collect alloc (map (\<lambda>l. l @ [nl]) ls) seen True (acc @ [l]) \<in> {Ret None, Ret (Some ((acc @ [l]) @ ls))}"
    by (rule Cons.IH[OF ls]) (use Cons.prems(2) in simp)
  then show ?case using l Cons.prems(2) by (simp add: ASSERT_MSG_def Let_def)
qed simp

lemma send_collect_content:
  assumes "is_chat_content c lw lt ps body" "length body \<le> MAX_MESSAGES"
  shows "send_collect alloc (fgets_all MAX_MESSAGE_LEN c) False False [] \<in> {Ret None, Ret (Some body)}"
proof -
  have a: "int (length c) \<le> LLONG_MAX" "header_ok lw lt ps" "list_all stored_line body"
    using assms(1) by (auto simp: is_chat_content_def)
  show ?thesis unfolding chat_chunks[OF assms(1)]
    using collect_header(1)[OF a(2) _ a(1)] send_collect_any[OF a(3), of "[]"] assms(2) by simp
qed

end
