(* ===== verification/ChatAtomic.thy ===== *)
theory ChatAtomic
  imports ChatStore
begin

text \<open>
  What \<open>chat_send\<close>, \<open>chat_truncate\<close> and \<open>chat_create\<close> leave on disk, for every combination of
  failing calls: the chat file is replaced by a complete new file or keeps its bytes.
\<close>

section \<open>The steps of a send\<close>

definition clock_ok :: "string option \<Rightarrow> bool" where
  "clock_ok c \<longleftrightarrow> (\<forall>ts. c = Some ts \<longrightarrow> field_ok ts \<and> length ts < 64)"

definition room_for :: "string \<Rightarrow> participant list \<Rightarrow> bool" where
  "room_for h qs \<longleftrightarrow> length (update_participants qs h MAX_PARTICIPANTS) \<le> 52 \<and> list_all clean_participant qs \<and> list_all (\<lambda>q. p_count q < INT_MAX) qs"

lemma clean_handle_field: "clean_handle h \<Longrightarrow> field_ok h \<and> length h < 64"
  using clean_handle_chars[of h "last h"] clean_handle_chars[of h nl]
  by (auto simp: field_ok_def clean_handle_def last_in_set)

lemma room_for_length: "room_for h qs \<Longrightarrow> length qs \<le> 52"
  using length_update_participants[of qs h MAX_PARTICIPANTS] by (simp add: room_for_def)

lemma send_header_cases:
  assumes "clock_ok (se_clock e)" "clean_handle h" "room_for h (participants st)"
  obtains (abort) "send_header e h st = Abort"
  | (header) st1 ts where
      "send_header e h st = Ret (st1, join_participants (participants st1))"
      "participants st1 = update_participants (participants st) h MAX_PARTICIPANTS"
      "last_writer st1 = h" "last_write st1 = ts" "se_clock e = Some ts"
      "header_ok h ts (join_participants (participants st1))"
      "format_participants (participants st1) 4096 = join_participants (participants st1)"
proof (cases "se_clock e")
  case None
  then show thesis using abort by (simp add: send_header_def get_timestamp_def)
next
  case (Some ts)
  let ?qs = "update_participants (participants st) h MAX_PARTICIPANTS"
  have ts: "field_ok ts" "length ts < 64" using assms(1) Some by (auto simp: clock_ok_def)
  have q: "list_all clean_participant ?qs" "length ?qs \<le> 52"
    using assms(3) update_participants_clean[OF _ _ assms(2)]
    by (auto simp: room_for_def)
  have h: "field_ok h" "length h < 64" using clean_handle_field[OF assms(2)] by auto
  have hk: "header_ok h ts (join_participants ?qs)"
    using ts h join_participants_field[OF q(1)] q(2) by (simp add: header_ok_def)
  have j: "length (join_participants ?qs) \<le> 78 * 52"
    using join_participants_length[OF q(1)] q(2) by simp
  have f: "format_participants ?qs 4096 = join_participants ?qs"
    using format_participants_exact[OF q(1)] q(2) by simp
  have s: "snprintf MAX_HANDLE_LEN h = h" "snprintf 64 ts = ts" using ts h by (simp_all add: snprintf_id)
  let ?st = "st\<lparr>participants := ?qs, last_writer := h, last_write := ts\<rparr>"
  have "send_header e h st = Ret (?st, join_participants ?qs)"
    using Some q(2) f s ts h j
    by (simp add: send_header_def get_timestamp_def Let_def ASSERT_MSG_def header_no_length_def)
  then show thesis using header[of ?st ts] Some hk f by simp
qed

lemma send_commit_cases:
  assumes "send_commit w p n ls s = (r, s1)"
  obtains (failed) "r \<noteq> Ret 0" "same_but (side_files p) s s1" "held s1 = held s"
  | (written) "r = Ret 0" "files s1 p = Some (unlines ls)" "same_but (insert p (side_files p)) s s1" "held s1 = held s"
proof (cases "r = Ret 0")
  case True
  then have w: "write_tmp w True (p @ ''.tmp'') ls s = (WDone, put_file (p @ ''.tmp'') (unlines ls) s)"
    and s1: "s1 = rename_file (p @ ''.tmp'') p (put_file (p @ ''.tmp'') (unlines ls) s)"
    using assms by (auto simp: send_commit_def Let_def dest: write_tmp_done
        split: prod.splits write_result.splits if_splits)
  then show thesis using True written by (auto simp: same_but_def)
next
  case False
  obtain wr a where w: "write_tmp w True (p @ ''.tmp'') ls s = (wr, a)" by fastforce
  have "same_but (side_files p) s a" "held a = held s" using write_tmp_side[OF w, of "side_files p"] by simp_all
  moreover have "s1 = a \<or> s1 = remove_file (p @ ''.tmp'') a"
    using assms False w by (cases wr) (auto simp: send_commit_def Let_def split: if_splits)
  ultimately have "same_but (side_files p) s s1 \<and> held s1 = held s" by (elim disjE) simp_all
  then show thesis using False failed by blast
qed

lemma archive_file_cases:
  assumes "archive_file w dst ls s = (ok, s1)"
  shows "same_but (insert dst {dst @ ''.tmp''}) s s1 \<and> held s1 = held s
    \<and> (ok \<longrightarrow> files s1 dst = Some (unlines ls)) \<and> (\<not> ok \<longrightarrow> files s1 dst = files s dst)"
  using assms write_tmp_same[of w True "dst @ ''.tmp''" ls s] write_tmp_done[of w True "dst @ ''.tmp''" ls s]
  by (auto simp: archive_file_def Let_def same_but_def split: prod.splits write_result.splits if_splits)

lemma archive_cursors_same:
  assumes "archive_cursors e p s = (r, s1)"
  shows "same_but (side_files p) s s1 \<and> held s1 = held s"
proof -
  let ?c = "p @ ''.cursors''" and ?tmp = "p @ ''.cursors.tmp''"
  consider "s1 = s"
    | ls wr b where "write_tmp (ar_cur e) False ?tmp ls s = (wr, b)"
      "s1 \<in> {b, rename_file ?tmp ?c b, remove_file ?tmp b}"
  proof (cases "cursor_path p")
    case Abort
    then show thesis using that(1) assms by (simp add: archive_cursors_def)
  next
    case (Ret c)
    then have c: "c = ?c" by (rule cursor_path_ret)
    show thesis
    proof (cases "if ar_cur_read e then files s ?c else None")
      case None
      then show thesis using that(1) assms Ret c by (simp add: archive_cursors_def)
    next
      case (Some content)
      let ?ls = "cursor_content (map (\<lambda>(k, i). (k, shift_cursor i)) (read_cursors content))"
      obtain wr b where w: "write_tmp (ar_cur e) False ?tmp ?ls s = (wr, b)" by fastforce
      have "s1 \<in> {b, rename_file ?tmp ?c b, remove_file ?tmp b}"
        using assms Ret Some w c by (cases wr) (simp_all add: archive_cursors_def Let_def split: if_splits)
      then show thesis using that(2) w by blast
    qed
  qed
  then show ?thesis
  proof cases
    case 1
    then show ?thesis by simp
  next
    case (2 ls wr b)
    have b: "same_but (side_files p) s b" "held b = held s"
      using write_tmp_side[OF 2(1), of "side_files p"] by simp_all
    moreover have "same_but (side_files p) s (rename_file ?tmp ?c b)"
      using b(1) by (auto simp: same_but_def)
    ultimately show ?thesis using 2(2) by (elim insertE) simp_all
  qed
qed

section \<open>Archiving\<close>

lemma archive_name_shape:
  assumes "archive_name p stamp = Some a"
  shows "length p < length a \<and> last a = CHR ''t'' \<and> a \<noteq> []"
proof -
  obtain base where a: "a = base @ ''-'' @ stamp @ ''-archive.chat''" "length p \<le> length base + 5"
    using assms by (auto simp: archive_name_def Let_def split: if_splits)
  then show ?thesis by simp
qed

lemma archive_name_fresh:
  assumes "archive_name p stamp = Some a"
  shows "a \<noteq> p" "a \<notin> side_files p" "a @ ''.tmp'' \<noteq> p" "p \<noteq> a @ ''.tmp''" "a \<noteq> p @ ''.tmp''"
proof -
  note s = archive_name_shape[OF assms]
  then show "a \<noteq> p" "a @ ''.tmp'' \<noteq> p" "p \<noteq> a @ ''.tmp''" by auto
  show *: "a \<notin> side_files p"
  proof
    assume "a \<in> side_files p"
    then have "last a \<noteq> CHR ''t''" by (auto simp: side_files_def lock_path_def)
    then show False using s by simp
  qed
  then show "a \<noteq> p @ ''.tmp''" using side_files_self(2) by metis
qed

lemma archive_trim_cases:
  assumes "archive_trim e p ls st s = (r, s1)" "ps = format_participants (participants st) 4096"
  obtains (kept) "files s1 p = files s p" "r \<noteq> Ret 0" "same_but (insert p (side_files p)) s s1" "held s1 = held s"
  | (trimmed) "files s1 p = Some (chat_bytes (last_writer st) (last_write st) ps (drop ARCHIVE_CLEAVE ls))"
      "same_but (insert p (side_files p)) s s1" "held s1 = held s"
proof -
  obtain n where n: "chat_lines (last_writer st) (last_write st) ps (drop ARCHIVE_CLEAVE ls)
      = Ret (file_lines (last_writer st) (last_write st) n ps (drop ARCHIVE_CLEAVE ls))"
    "chat_bytes (last_writer st) (last_write st) ps (drop ARCHIVE_CLEAVE ls)
      = unlines (file_lines (last_writer st) (last_write st) n ps (drop ARCHIVE_CLEAVE ls))"
    by (rule chat_lines_ret)
  let ?L = "file_lines (last_writer st) (last_write st) n ps (drop ARCHIVE_CLEAVE ls)"
  obtain ok a where f: "archive_file (ar_main e) p ?L s = (ok, a)" by fastforce
  have fa: "same_but (insert p {p @ ''.tmp''}) s a" "held a = held s"
    "ok \<Longrightarrow> files a p = Some (unlines ?L)" "\<not> ok \<Longrightarrow> files a p = files s p"
    using archive_file_cases[OF f] by simp_all
  have sa: "same_but (insert p (side_files p)) s a"
    by (rule same_but_mono[OF fa(1)]) simp
  consider "s1 = s" "r \<noteq> Ret 0" | "s1 = a" "\<not> ok" "r \<noteq> Ret 0" | "ok" "archive_cursors e p a = (r, s1)"
    using assms(1) f n(1) unfolding archive_trim_def Let_def assms(2)[symmetric]
    by (cases ok) (auto split: if_splits)
  then show thesis
  proof cases
    case 1
    then show thesis using kept by simp
  next
    case 2
    then show thesis using kept fa sa by simp
  next
    case 3
    have c: "same_but (side_files p) a s1" "held s1 = held a" using archive_cursors_same[OF 3(2)] by simp_all
    have "files s1 p = files a p" by (rule same_butD[OF c(1)]) simp
    moreover have "same_but (insert p (side_files p)) s s1"
      by (rule same_but_trans[OF sa c(1)]) auto
    ultimately show thesis using trimmed 3(1) fa n(2) c(2) by simp
  qed
qed

lemma auto_archive_cases:
  assumes "chat_auto_archive e p ls st s = (r, s1)" "ps = format_participants (participants st) 4096"
  obtains (kept) "files s1 p = files s p" "r \<noteq> Ret 0" "held s1 = held s"
  | (archived) ts stamp a where
      "files s1 p = Some (chat_bytes (last_writer st) (last_write st) ps (drop ARCHIVE_CLEAVE ls))"
      "archive_name p stamp = Some a" "ar_clock e = Some ts"
      "files s1 a = Some (chat_bytes ''system'' (snprintf 64 ts) ''(archived)'' (take ARCHIVE_CLEAVE ls))"
      "held s1 = held s" "ARCHIVE_THRESHOLD < length ls"
proof (cases "ar_stamp e")
  case None
  then show thesis using assms(1) kept by (auto simp: chat_auto_archive_def split: if_splits)
next
  case (Some stamp)
  note st = Some
  show thesis
  proof (cases "archive_name p stamp")
    case None
    then show thesis using assms(1) kept st by (auto simp: chat_auto_archive_def split: if_splits)
  next
    case (Some a)
    note fresh = archive_name_fresh[OF Some]
    show thesis
    proof (cases "ar_clock e")
      case None
      then show thesis using assms(1) kept st Some
        by (auto simp: chat_auto_archive_def get_timestamp_def split: if_splits)
    next
      case (Some ts)
      let ?ts = "snprintf 64 ts"
      obtain n where n: "chat_lines ''system'' ?ts ''(archived)'' (take ARCHIVE_CLEAVE ls)
          = Ret (file_lines ''system'' ?ts n ''(archived)'' (take ARCHIVE_CLEAVE ls))"
        "chat_bytes ''system'' ?ts ''(archived)'' (take ARCHIVE_CLEAVE ls)
          = unlines (file_lines ''system'' ?ts n ''(archived)'' (take ARCHIVE_CLEAVE ls))"
        by (rule chat_lines_ret)
      let ?L = "file_lines ''system'' ?ts n ''(archived)'' (take ARCHIVE_CLEAVE ls)"
      have al: "archive_lines ?ts (take ARCHIVE_CLEAVE ls) = Ret ?L"
        using n(1) by (simp add: archive_lines_def chat_lines_def)
      obtain ok b where f: "archive_file (ar_write e) a ?L s = (ok, b)" by fastforce
      have fb: "files b p = files s p" "held b = held s" "ok \<Longrightarrow> files b a = Some (unlines ?L)"
        using archive_file_cases[OF f] fresh by (simp_all add: same_but_def)
      consider "s1 = s" "r \<noteq> Ret 0" | "s1 = b" "r \<noteq> Ret 0"
        | "ok" "archive_trim e p ls st b = (r, s1)" "ARCHIVE_THRESHOLD < length ls"
        using assms(1) st \<open>archive_name p stamp = Some a\<close> Some al f
        unfolding chat_auto_archive_def Let_def get_timestamp_def
        by (cases ok) (auto split: if_splits)
      then show thesis
      proof cases
        case 1
        then show thesis using kept by simp
      next
        case 2
        then show thesis using kept fb by simp
      next
        case 3
        show thesis using 3(2) assms(2)
        proof (cases rule: archive_trim_cases)
          case k: kept
          then show thesis using kept fb by simp
        next
          case t: trimmed
          have "files s1 a = files b a"
            by (rule same_butD[OF t(2)]) (use fresh in simp)
          then show thesis using archived[OF t(1) \<open>archive_name p stamp = Some a\<close> Some] fb 3 n(2) t(3) by simp
        qed
      qed
    qed
  qed
qed

section \<open>Sending\<close>

text \<open>The two complete files a send can leave.\<close>

definition appended :: "string \<Rightarrow> string \<Rightarrow> participant list \<Rightarrow> string list \<Rightarrow> string" where
  "appended h ts qs ls = chat_bytes h ts (join_participants (update_participants qs h MAX_PARTICIPANTS)) ls"

definition archive_copy :: "string option \<Rightarrow> string list \<Rightarrow> string" where
  "archive_copy clock ls = chat_bytes ''system'' (case clock of Some ts \<Rightarrow> snprintf 64 ts | None \<Rightarrow> []) ''(archived)''
     (take ARCHIVE_CLEAVE ls)"

text \<open>
  \<open>send_done e p h qs ls s\<close>: the chat file holds the lines \<open>ls\<close>, or the lines from
  \<open>ARCHIVE_CLEAVE\<close> on with the others in an archive file beside it.
\<close>

definition send_done :: "send_env \<Rightarrow> path \<Rightarrow> string \<Rightarrow> participant list \<Rightarrow> string list \<Rightarrow> fs \<Rightarrow> bool" where
  "send_done e p h qs ls s \<longleftrightarrow> (\<exists>ts. se_clock e = Some ts \<and>
     (files s p = Some (appended h ts qs ls)
      \<or> ARCHIVE_THRESHOLD < length ls \<and> files s p = Some (appended h ts qs (drop ARCHIVE_CLEAVE ls))
        \<and> (\<exists>stamp a. archive_name p stamp = Some a \<and> files s a = Some (archive_copy (ar_clock (se_arch e)) ls))))"

lemma send_done_same:
  assumes "send_done e p h qs ls s" "same_but (side_files p) s t"
  shows "send_done e p h qs ls t"
proof -
  have "files t p = files s p" by (rule same_butD[OF assms(2)]) simp
  moreover have "files t a = files s a" if "archive_name p stamp = Some a" for stamp a
    by (rule same_butD[OF assms(2) archive_name_fresh(2)[OF that]])
  ultimately show ?thesis using assms(1) unfolding send_done_def by metis
qed

lemma held_irrelevant: "send_done e p h qs ls (s\<lparr>held := x\<rparr>) = send_done e p h qs ls s"
  by (simp add: send_done_def)

lemma send_locked_cases:
  assumes "send_locked e p h msg st s = (r, s1)"
    and "files s p = Some c" "is_chat_content c lw lt ps body" "length body < MAX_MESSAGES"
    and "room_for h (participants st)" "sendable h (se_now e) msg" "clock_ok (se_clock e)"
  obtains (kept) "files s1 p = Some c" "\<And>i. r \<noteq> Ret (0, i)" "held s1 = held s"
  | (sent) "send_done e p h (participants st) (body @ [new_line h (se_now e) msg]) s1"
      "r = Abort \<or> (\<exists>i. r = Ret (0, i))" "held s1 = held s"
proof (cases "send_encode e h msg = Ret None")
  case True
  then show thesis using kept assms(1,2) by (auto simp: send_locked_def)
next
  case False
  let ?l = "new_line h (se_now e) msg" and ?all = "body @ [new_line h (se_now e) msg]"
  have enc: "send_encode e h msg = Ret (Some ?l)" using False send_encode_cases[OF assms(6)] by blast
  have ch: "clean_handle h" using assms(6) by (simp add: sendable_def)
  show thesis
  proof (rule send_header_cases[OF assms(7) ch assms(5)])
    assume "send_header e h st = Abort"
    then show thesis using kept assms(1,2) enc by (auto simp: send_locked_def)
  next
    fix st1 ts
    let ?qs = "update_participants (participants st) h MAX_PARTICIPANTS"
    assume hd: "send_header e h st = Ret (st1, join_participants (participants st1))"
      "participants st1 = ?qs" "last_writer st1 = h" "last_write st1 = ts" "se_clock e = Some ts"
      "header_ok h ts (join_participants (participants st1))" "format_participants (participants st1) 4096 = join_participants (participants st1)"
    obtain n where n: "compute_file_length (header_no_length h ts (join_participants ?qs) @ unlines ?all) = Ret n"
      "chat_bytes h ts (join_participants ?qs) ?all = unlines (file_lines h ts n (join_participants ?qs) ?all)"
      by (rule chat_lines_ret)
    let ?L = "file_lines h ts n (join_participants ?qs) ?all"
    obtain x a where cm: "send_commit (se_write e) p n ?L s = (x, a)" by fastforce
    have col: "send_collect (se_line_alloc e) (fgets_all MAX_MESSAGE_LEN c) False False [] \<in> {Ret None, Ret (Some body)}"
      using send_collect_content[OF assms(3)] assms(4) by simp
    have app: "appended h ts (participants st) ?all = unlines ?L" by (simp add: appended_def n(2))
    obtain y b where ar: "chat_auto_archive (se_arch e) p ?all st1 a = (y, b)" by fastforce
    have "length ?all > 0" by simp
    consider (early) "s1 = s" "\<And>i. r \<noteq> Ret (0, i)"
      | (commit) "s1 = a" "x \<noteq> Ret 0" "\<And>i. r \<noteq> Ret (0, i)"
      | (plain) "s1 = a" "x = Ret 0" "\<exists>i. r = Ret (0, i)"
      | (arch) "s1 = b" "x = Ret 0" "r = Abort \<or> (\<exists>i. r = Ret (0, i))"
    proof (cases "(if se_reopen e then files s p else None) = None
        \<or> send_collect (se_line_alloc e) (fgets_all MAX_MESSAGE_LEN c) False False [] = Ret None
        \<or> se_ferror e \<or> \<not> se_close e \<or> \<not> se_content_alloc e")
      case True
      then have "s1 = s \<and> (\<forall>i. r \<noteq> Ret (0, i))"
        using assms(1,2) enc hd(1-4) col
        by (auto simp: send_locked_def split: if_splits)
      then show thesis using early by blast
    next
      case False
      then have f: "se_reopen e" "send_collect (se_line_alloc e) (fgets_all MAX_MESSAGE_LEN c) False False [] = Ret (Some body)"
        "\<not> se_ferror e" "se_close e" "se_content_alloc e" using assms(2) col by (auto split: if_splits)
      have sl: "send_locked e p h msg st s = (case (x, a) of
          (Abort, s1) \<Rightarrow> (Abort, s1)
        | (Ret rc, s1) \<Rightarrow>
          if rc \<noteq> 0 then (Ret (rc, 0), s1)
          else if length ?all > ARCHIVE_THRESHOLD \<and> se_arch_alloc e then
            (case (y, b) of (Abort, s2) \<Rightarrow> (Abort, s2)
             | (Ret arc_rc, s2) \<Rightarrow>
                (Ret (0, if arc_rc = 0 then max 0 (int (length body) - int ARCHIVE_CLEAVE) else int (length body)), s2))
          else (Ret (0, int (length body)), s1))"
        unfolding send_locked_def send_archive_def Let_def enc hd(1) outcome.case option.case prod.case hd(2-4) assms(2)
          if_P[OF f(1)] f(2) if_not_P[OF f(3)] n(1) cm ar
        using f(4,5) by simp
      show thesis
        using assms(1) sl early commit plain arch
        by (cases x; cases y) (auto split: if_splits)
    qed
    then show thesis
    proof cases
      case early
      then show thesis using kept assms(2) by simp
    next
      case commit
      have k: "files a p = files s p" "held a = held s"
        using cm commit(2) by (auto elim!: send_commit_cases simp: same_but_def)
      then show thesis using kept commit assms(2) by simp
    next
      case plain
      have k: "files a p = Some (unlines ?L)" "held a = held s"
        using cm plain(2) by (auto elim!: send_commit_cases)
      have "send_done e p h (participants st) ?all a"
        unfolding send_done_def using k(1) app hd(5) by auto
      then show thesis using sent plain k(2) by simp
    next
      case arch
      have k: "files a p = Some (unlines ?L)" "held a = held s"
        using cm arch(2) by (auto elim!: send_commit_cases)
      have fp: "join_participants ?qs = format_participants (participants st1) 4096"
        using hd(2,7) by simp
      show thesis using ar fp
      proof (cases rule: auto_archive_cases)
        case k2: kept
        have "send_done e p h (participants st) ?all b"
          unfolding send_done_def using k(1) k2(1) app hd(5) by auto
        then show thesis using sent arch k(2) k2(3) by simp
      next
        case (archived ts' stamp ap)
        have "files b ap = Some (archive_copy (ar_clock (se_arch e)) ?all)"
          using archived(3,4) by (simp add: archive_copy_def)
        then have "send_done e p h (participants st) ?all b"
          unfolding send_done_def using archived hd(2-5) by (auto simp: appended_def)
        then show thesis using sent arch k(2) archived(5) by simp
      qed
    qed
  qed
qed

lemma cursor_write_held:
  assumes "chat_cursor_write l can_read w p h i s = (Ret rc, s1)" "p \<notin> held s"
  shows "p \<notin> held s1"
proof -
  have h: "p \<notin> held (snd (release_and_return l p v b))"
    if "release_and_return l p v b = (Ret rc, s1)" for v :: int and b
    using release_held[OF that] that by simp
  obtain c x a where "cursor_path p = Ret c" "chat_lock_acquire l p s = (Ret x, a)"
    using assms(1) by (auto simp: chat_cursor_write_def split: if_splits outcome.splits prod.splits)
  then show ?thesis
    using assms
    by (cases x)
       (auto simp: chat_cursor_write_def Let_def elim: acquire_cases dest: release_held
         split: if_splits prod.splits write_result.splits)
qed

text \<open>Every run of \<open>chat_send\<close> on a well-formed file, whatever fails.\<close>

lemma chat_send_outcome:
  assumes "chat_send e p h msg s = (r, s1)"
    and "files s p = Some c" "is_chat_content c lw lt (join_participants qs) body"
    and "length body < MAX_MESSAGES" "room_for h qs" "sendable h (se_now e) msg" "clock_ok (se_clock e)"
    and "p \<notin> held s"
  shows "files s1 p = Some c \<and> r \<noteq> Ret 0
      \<or> send_done e p h qs (body @ [new_line h (se_now e) msg]) s1 \<and> (\<forall>rc. r = Ret rc \<longrightarrow> rc = 0)"
    and "r = Ret rc \<Longrightarrow> p \<notin> held s1"
proof -
  let ?D = "send_done e p h qs (body @ [new_line h (se_now e) msg])"
  have goal: "(files s1 p = Some c \<and> r \<noteq> Ret 0 \<or> ?D s1 \<and> (\<forall>rc. r = Ret rc \<longrightarrow> rc = 0))
      \<and> ((\<exists>rc. r = Ret rc) \<longrightarrow> p \<notin> held s1)"
  proof -
    have ch: "h \<noteq> []" "length h < 64" using assms(6) by (auto simp: sendable_def clean_handle_def)
    obtain x a where la: "chat_lock_acquire (se_lock e) p s = (x, a)" by fastforce
    have pa: "files a p = Some c" using same_butD[OF acquire_same[OF la]] assms(2) by simp
    show ?thesis using la
    proof (cases rule: acquire_cases)
      case abort
      then show ?thesis using assms(1,2) la ch by (auto simp: chat_send_def)
    next
      case failed
      then show ?thesis using assms(1,2,8) la ch pa by (auto simp: chat_send_def)
    next
      case locked
      have cs: "chat_send e p h msg s = (case chat_read (se_read e) p a of
           Abort \<Rightarrow> (Abort, a)
         | Ret None \<Rightarrow> release_and_return (se_lock e) p (-1) a
         | Ret (Some st) \<Rightarrow>
           (case send_locked e p h msg st a of
              (Abort, s2) \<Rightarrow> (Abort, s2)
            | (Ret (rc, i), s2) \<Rightarrow>
              (case release_and_return (se_lock e) p rc s2 of
                 (Abort, s3) \<Rightarrow> (Abort, s3)
               | (Ret rc', s3) \<Rightarrow>
                   if rc' \<noteq> 0 then (Ret rc', s3)
                   else (case chat_cursor_write (se_cur_lock e) (se_cur_read e) (se_cur_write e) p h i s3 of
                           (Abort, s4) \<Rightarrow> (Abort, s4)
                         | (Ret _, s4) \<Rightarrow> (Ret 0, s4)))))"
        unfolding chat_send_def using ch la locked(1) by simp
      have lb: "length body \<le> MAX_MESSAGES" using assms(4) by simp
      show ?thesis using pa assms(3) lb
      proof (cases rule: chat_read_wf_any[where e = "se_read e"])
        case failed
        then have "release_and_return (se_lock e) p (-1) a = (r, s1)" using cs assms(1) by simp
        then show ?thesis using pa release_same[of "se_lock e" p "-1" a r s1] release_held[of "se_lock e" p "-1" a _ s1]
          by (cases r) auto
      next
        case (state st)
        have ps: "participants st = qs"
          using state(2) parse_format_participants[of qs 256] assms(5) room_for_length[OF assms(5)]
            by (simp add: room_for_def)
        obtain y b where sl: "send_locked e p h msg st a = (y, b)" by fastforce
        note sc = send_locked_cases[OF sl pa assms(3,4) _ assms(6,7), unfolded ps, OF assms(5)]
        show ?thesis
        proof (cases y)
          case Abort
          then have "r = Abort" "s1 = b" using cs state(1) sl assms(1) by simp_all
          then show ?thesis using sc by (auto elim: sc)
        next
          case (Ret ri)
          obtain rc i where ri: "ri = (rc, i)" by fastforce
          obtain z d where rl: "release_and_return (se_lock e) p rc b = (z, d)" by fastforce
          have fd: "files d = files b" using release_same[OF rl] .
          have cs2: "chat_send e p h msg s = (case (z, d) of
                 (Abort, s3) \<Rightarrow> (Abort, s3)
               | (Ret rc', s3) \<Rightarrow>
                   if rc' \<noteq> 0 then (Ret rc', s3)
                   else (case chat_cursor_write (se_cur_lock e) (se_cur_read e) (se_cur_write e) p h i s3 of
                           (Abort, s4) \<Rightarrow> (Abort, s4)
                         | (Ret _, s4) \<Rightarrow> (Ret 0, s4)))"
            using cs state(1) sl Ret ri rl by simp
          show ?thesis
          proof (cases z)
            case Abort
            then have "r = Abort" "s1 = d" using cs2 assms(1) by simp_all
            moreover have "files b p = Some c \<or> ?D b" using sc by blast
            ultimately show ?thesis using fd by (auto simp: send_done_def)
          next
            case (Ret rc')
            have z: "rc' = rc" "p \<notin> held d" using release_held[of "se_lock e" p rc b rc' d] rl Ret by auto
            show ?thesis
            proof (cases "rc = 0")
              case False
              have "r = Ret rc" "s1 = d" using cs2 assms(1) Ret z False by simp_all
              moreover have "files b p = Some c" using sc False \<open>y = Ret ri\<close> ri by auto
              ultimately show ?thesis using fd z False by simp
            next
              case True
              obtain u k where cw: "chat_cursor_write (se_cur_lock e) (se_cur_read e) (se_cur_write e) p h i d = (u, k)"
                by fastforce
              have "?D b" using sc True \<open>y = Ret ri\<close> ri by auto
              then have "?D d" using fd by (simp add: send_done_def)
              moreover have "same_but (side_files p) d k" using cursor_write_same[of p d] cw by (metis snd_conv)
              ultimately have D: "?D k" by (rule send_done_same)
              show ?thesis
              proof (cases u)
                case Abort
                then show ?thesis using cs2 assms(1) \<open>z = Ret rc'\<close> z True cw D by simp
              next
                case (Ret v)
                then have "p \<notin> held k" using cursor_write_held[of _ _ _ p h i d v k] cw z(2) by blast
                then show ?thesis using cs2 assms(1) \<open>z = Ret rc'\<close> z True cw D Ret by simp
              qed
            qed
          qed
        qed
      qed
    qed
  qed
  show "files s1 p = Some c \<and> r \<noteq> Ret 0 \<or> ?D s1 \<and> (\<forall>rc. r = Ret rc \<longrightarrow> rc = 0)"
    using goal by blast
  show "r = Ret rc \<Longrightarrow> p \<notin> held s1" using goal by blast
qed

section \<open>When nothing fails\<close>

definition lock_ok :: "lock_env \<Rightarrow> bool" where
  "lock_ok l \<longleftrightarrow> lk_open l \<and> (lk_try l = Granted \<or> lk_try l = Contended \<and> lk_wait l) \<and> lock_env_sound l"

definition write_env_ok :: "write_env \<Rightarrow> bool" where
  "write_env_ok w \<longleftrightarrow> w_open w \<and> w_fdopen w \<and> (\<forall>k. w_line w k) \<and> w_close w \<and> w_stat w \<and> w_rename w"

definition send_env_ok :: "send_env \<Rightarrow> bool" where
  "send_env_ok e \<longleftrightarrow> lock_ok (se_lock e) \<and> read_env_ok (se_read e) \<and> se_raw_alloc e \<and> se_enc_alloc e
     \<and> se_clock e \<noteq> None \<and> se_reopen e \<and> (\<forall>k. se_line_alloc e k) \<and> \<not> se_ferror e \<and> se_close e
     \<and> se_content_alloc e \<and> write_env_ok (se_write e) \<and> ar_clock (se_arch e) \<noteq> None
     \<and> lock_env_sound (se_cur_lock e)"

definition path_ok :: "path \<Rightarrow> bool" where
  "path_ok p \<longleftrightarrow> p \<noteq> [] \<and> length p + 8 < MAX_PATH_LEN"

lemma lock_ok_acquire:
  assumes "lock_ok l" "path_ok p"
  obtains a where "chat_lock_acquire l p s = (Ret True, a)" "held a = insert p (held s)"
proof -
  obtain a where "chat_lock_acquire l p s = (Ret True, a)"
    using assms by (auto simp: chat_lock_acquire_def lock_ok_def path_ok_def Let_def)
  then show thesis using that by (auto elim: acquire_cases)
qed

lemma write_tmp_ok: "write_env_ok w \<Longrightarrow> write_tmp w u tmp ls s = (WDone, put_file tmp (unlines ls) s)"
  by (simp add: write_env_ok_def write_tmp_def write_ok_def list_all_iff)

lemma cursor_write_ret:
  assumes "lock_env_sound l" "path_ok p" "h \<noteq> []" "0 \<le> i"
  shows "\<exists>v s1. chat_cursor_write l can_read w p h i s = (Ret v, s1)"
proof -
  have c: "cursor_path p = Ret (p @ ''.cursors'')"
    using assms(2) by (simp add: cursor_path_def path_ok_def ASSERT_MSG_def)
  obtain x a where la: "chat_lock_acquire l p s = (x, a)" by fastforce
  have "x \<noteq> Abort" using la assms(2) by (auto elim!: acquire_cases simp: path_ok_def)
  then obtain y where y: "x = Ret y" by (cases x) auto
  show ?thesis
  proof (cases y)
    case False
    then show ?thesis using assms la y c by (simp add: chat_cursor_write_def)
  next
    case True
    obtain wr b where w: "write_tmp w False (p @ ''.cursors.tmp'')
        (cursor_content (set_cursor h i (case if can_read then files a (p @ ''.cursors'') else None of
            Some content \<Rightarrow> read_cursors content | None \<Rightarrow> []))) a = (wr, b)" by fastforce
    show ?thesis using assms la y c True w
      by (cases wr) (simp_all add: chat_cursor_write_def Let_def release_sound)
  qed
qed

lemma send_commit_ok:
  assumes "write_env_ok w" "n = int (length (unlines ls))"
  shows "\<exists>s1. send_commit w p n ls s = (Ret 0, s1)"
  using assms write_tmp_ok[OF assms(1)]
  by (simp add: send_commit_def Let_def write_env_ok_def size_is_def)

lemma auto_archive_ret:
  assumes "ar_clock e \<noteq> None" "ARCHIVE_THRESHOLD < length ls" "path_ok p"
  shows "\<exists>rc s1. chat_auto_archive e p ls st s = (Ret rc, s1)"
proof -
  obtain ts where ts: "ar_clock e = Some ts" using assms(1) by blast
  have c: "cursor_path p = Ret (p @ ''.cursors'')"
    using assms(3) by (simp add: cursor_path_def path_ok_def ASSERT_MSG_def)
  have cur: "\<exists>rc s1. archive_cursors e p a = (Ret rc, s1)" for a
  proof (cases "if ar_cur_read e then files a (p @ ''.cursors'') else None")
    case None
    then show ?thesis using c by (simp add: archive_cursors_def)
  next
    case (Some content)
    obtain wr b where "write_tmp (ar_cur e) False (p @ ''.cursors.tmp'')
        (cursor_content (map (\<lambda>(k, i). (k, shift_cursor i)) (read_cursors content))) a = (wr, b)" by fastforce
    then show ?thesis using c Some by (cases wr) (simp_all add: archive_cursors_def Let_def)
  qed
  have trim: "\<exists>rc s1. archive_trim e p ls st a = (Ret rc, s1)" for a
  proof -
    obtain L where "chat_lines (last_writer st) (last_write st)
      (format_participants (participants st) 4096) (drop ARCHIVE_CLEAVE ls) = Ret L"
      using chat_lines_ret by metis
    moreover obtain ok b where "archive_file (ar_main e) p L a = (ok, b)" by fastforce
    ultimately show ?thesis using cur[of b] by (cases ok) (simp_all add: archive_trim_def Let_def)
  qed
  obtain L where L: "archive_lines (snprintf 64 ts) (take ARCHIVE_CLEAVE ls) = Ret L"
    using compute_file_length_ret by (metis archive_lines_def and_then.simps(1))
  show ?thesis
  proof (cases "ar_stamp e")
    case None
    then show ?thesis using assms(2) by (simp add: chat_auto_archive_def)
  next
    case (Some stamp)
    note st = Some
    show ?thesis
    proof (cases "archive_name p stamp")
      case None
      then show ?thesis using assms(2) st by (simp add: chat_auto_archive_def)
    next
      case (Some a)
      obtain ok b where f: "archive_file (ar_write e) a L s = (ok, b)" by fastforce
      obtain rc t where t: "archive_trim e p ls st b = (Ret rc, t)" using trim[of b] by blast
      have "chat_auto_archive e p ls st s = (if length (header_no_length ''system'' (snprintf 64 ts) ''(archived)'') \<ge> 4096
          then (Ret (-1), s) else if \<not> ar_alloc e then (Ret (-1), s)
          else case (ok, b) of (False, s1) \<Rightarrow> (Ret (-1), s1) | (True, s1) \<Rightarrow> archive_trim e p ls st s1)"
        unfolding chat_auto_archive_def st Some ts option.case get_timestamp_def outcome.case L f
        using assms(2) by simp
      then show ?thesis using t by (cases ok) auto
    qed
  qed
qed

lemma send_locked_ok:
  assumes "send_env_ok e" "path_ok p" "files s p = Some c" "is_chat_content c lw lt ps body"
    and "length body < MAX_MESSAGES" "room_for h (participants st)" "sendable h (se_now e) msg" "clock_ok (se_clock e)"
  shows "\<exists>i s1. send_locked e p h msg st s = (Ret (0, i), s1) \<and> 0 \<le> i"
proof -
  let ?l = "new_line h (se_now e) msg" and ?all = "body @ [new_line h (se_now e) msg]"
  have al: "\<And>k. se_line_alloc e k" and fl: "se_reopen e" "\<not> se_ferror e" "se_close e" "se_content_alloc e"
    using assms(1) by (auto simp: send_env_ok_def)
  obtain ts where clk: "se_clock e = Some ts" using assms(1) by (auto simp: send_env_ok_def)
  have ch: "clean_handle h" using assms(7) by (simp add: sendable_def)
  have en: "send_encode e h msg \<noteq> Ret None"
    using assms(1,7) send_wire_length[OF assms(7)] base64_encode_ret[of "send_wire h (se_now e) msg"]
    by (auto simp: send_encode_def send_env_ok_def sendable_def Let_def ASSERT_MSG_def base64_encoded_size_def)
  then have enc: "send_encode e h msg = Ret (Some ?l)" using send_encode_cases[OF assms(7)] by blast
  obtain st1 where hd: "send_header e h st = Ret (st1, join_participants (participants st1))"
      "last_writer st1 = h" "last_write st1 = ts" "header_ok h ts (join_participants (participants st1))"
  proof (rule send_header_cases[OF assms(8) ch assms(6)])
    assume "send_header e h st = Abort"
    moreover have "ts = snprintf 64 ts" using assms(8) clk by (simp add: clock_ok_def snprintf_id)
    moreover have "length (update_participants (participants st) h 256) * 78 < 4096"
      using assms(6) by (simp add: room_for_def)
    moreover have "length (header_no_length (snprintf 64 h) (snprintf 64 (snprintf 64 ts))
        (format_participants (update_participants (participants st) h 256) 4096)) < 8192"
      by (simp add: header_no_length_def snprintf_def format_participants_join)
    moreover have "0 < length (header_no_length (snprintf 64 h) (snprintf 64 (snprintf 64 ts))
        (format_participants (update_participants (participants st) h 256) 4096))"
      by (simp add: header_no_length_def)
    ultimately have False by (simp add: send_header_def clk get_timestamp_def Let_def)
    then show thesis ..
  qed (use clk that in auto)
  obtain n where n: "compute_file_length (header_no_length h ts (join_participants (participants st1)) @ unlines ?all) = Ret n"
    "chat_bytes h ts (join_participants (participants st1)) ?all = unlines (file_lines h ts n (join_participants (participants st1)) ?all)"
    by (rule chat_lines_ret)
  let ?L = "file_lines h ts n (join_participants (participants st1)) ?all"
  have body: "list_all stored_line ?all"
    using assms(4) stored_new_line[OF assms(7)] by (simp add: is_chat_content_def)
  have len: "int (length (unlines ?L)) = n"
    by (rule file_length_exact[OF n(1)])
       (use hd(4) body in \<open>auto simp: header_ok_def field_ok_def stored_line_def list_all_iff\<close>)
  obtain a where cm: "send_commit (se_write e) p n ?L s = (Ret 0, a)"
    using send_commit_ok[of "se_write e" n ?L p s] assms(1) len unfolding send_env_ok_def by metis
  have lb: "length body \<le> MAX_MESSAGES" using assms(5) by simp
  have sl: "send_locked e p h msg st s = (if length ?all > ARCHIVE_THRESHOLD \<and> se_arch_alloc e then
            (case chat_auto_archive (se_arch e) p ?all st1 a of (Abort, s2) \<Rightarrow> (Abort, s2)
             | (Ret arc_rc, s2) \<Rightarrow>
                (Ret (0, if arc_rc = 0 then max 0 (int (length body) - int ARCHIVE_CLEAVE) else int (length body)), s2))
          else (Ret (0, int (length body)), a))"
    unfolding send_locked_def send_archive_def Let_def enc hd(1) outcome.case option.case prod.case hd(2,3) assms(3)
      if_P[OF fl(1)] send_collect_wf[OF al assms(4) lb] if_not_P[OF fl(2)] n(1) cm
    using fl(3,4) by simp
  show ?thesis
  proof (cases "length ?all > ARCHIVE_THRESHOLD \<and> se_arch_alloc e")
    case True
    obtain rc b where "chat_auto_archive (se_arch e) p ?all st1 a = (Ret rc, b)"
      using auto_archive_ret[of "se_arch e" ?all p st1 a] assms(1,2) True by (auto simp: send_env_ok_def)
    then show ?thesis using sl True by simp
  next
    case False
    then show ?thesis using sl by (metis of_nat_0_le_iff)
  qed
qed

lemma chat_send_ok:
  assumes "send_env_ok e" "path_ok p"
    and "files s p = Some c" "is_chat_content c lw lt (join_participants qs) body"
    and "length body < MAX_MESSAGES" "room_for h qs" "sendable h (se_now e) msg" "clock_ok (se_clock e)"
  shows "\<exists>s1. chat_send e p h msg s = (Ret 0, s1)"
proof -
  have ok: "lock_ok (se_lock e)" "lock_env_sound (se_lock e)" "read_env_ok (se_read e)" "lock_env_sound (se_cur_lock e)"
    using assms(1) by (auto simp: send_env_ok_def lock_ok_def)
  have ch: "h \<noteq> []" "length h < 64" using assms(7) by (auto simp: sendable_def clean_handle_def)
  obtain a where la: "chat_lock_acquire (se_lock e) p s = (Ret True, a)"
    using lock_ok_acquire[OF ok(1) assms(2)] by metis
  have pa: "files a p = Some c" using same_butD[OF acquire_same[OF la]] assms(3) by simp
  let ?st = "add_body body (header_state lw lt (int (length c)) (join_participants qs))"
  have rd: "chat_read (se_read e) p a = Ret (Some ?st)"
    using chat_read_wf[OF ok(3) pa assms(4)] assms(5) by simp
  have ps: "participants ?st = qs"
    using parse_format_participants[of qs 256] assms(6) room_for_length[OF assms(6)] by (simp add: room_for_def)
  have rm: "room_for h (participants ?st)" using ps assms(6) by simp
  obtain i b where sl: "send_locked e p h msg ?st a = (Ret (0, i), b)" "0 \<le> i"
    using send_locked_ok[OF assms(1,2) pa assms(4,5) rm assms(7,8)] by blast
  obtain v d where cw: "chat_cursor_write (se_cur_lock e) (se_cur_read e) (se_cur_write e) p h i
      (b\<lparr>held := held b - {p}\<rparr>) = (Ret v, d)"
    using cursor_write_ret[OF ok(4) assms(2) ch(1) sl(2)] by metis
  have r: "release_and_return (se_lock e) p 0 b = (Ret 0, b\<lparr>held := held b - {p}\<rparr>)"
    for v by (rule release_sound[OF ok(2)])
  have "chat_send e p h msg s = (Ret 0, d)"
    unfolding chat_send_def la outcome.case prod.case bool.case rd option.case sl(1) r cw
    using ch by simp
  then show ?thesis by blast
qed

end
