(* ===== verification/ChatContract.thy ===== *)
theory ChatContract
  imports ChatAtomic
begin

text \<open>
  What a client of the chat file may rely on: the locale \<open>append_log\<close> states the contract of
  an append-only log, its client lemmas are about sequences of additions, and it is
  interpreted on \<open>chat_send\<close> and \<open>chat_read\<close>.  Then the properties of the chat file.
\<close>

section \<open>The contract of an append-only log\<close>

text \<open>
  \<open>inv n s\<close>: the log is sound and has room for \<open>n\<close> more entries.
\<close>

locale append_log =
  fixes add :: "'m \<Rightarrow> 's \<Rightarrow> 's"
    and view :: "'s \<Rightarrow> 'm list"
    and good :: "'m \<Rightarrow> bool"
    and inv :: "nat \<Rightarrow> 's \<Rightarrow> bool"
  assumes view_add: "inv (Suc n) s \<Longrightarrow> good m \<Longrightarrow> view (add m s) = view s @ [m]"
    and inv_add: "inv (Suc n) s \<Longrightarrow> good m \<Longrightarrow> inv n (add m s)"
begin

definition adds :: "'m list \<Rightarrow> 's \<Rightarrow> 's" where
  "adds ms s = fold add ms s"

lemma adds_simps [simp]: "adds [] s = s" "adds (m # ms) s = adds ms (add m s)"
  by (simp_all add: adds_def)

lemma view_adds: "inv (length ms + n) s \<Longrightarrow> list_all good ms \<Longrightarrow> view (adds ms s) = view s @ ms \<and> inv n (adds ms s)"
proof (induction ms arbitrary: s)
  case (Cons m ms)
  have i: "inv (Suc (length ms + n)) s" and g: "good m" using Cons.prems by simp_all
  then show ?case using Cons inv_add[OF i g] view_add[OF i g] by simp
qed simp

text \<open>What a reader that has seen the first \<open>length (view s)\<close> entries finds new, and in which order.\<close>

lemma unread_adds:
  "inv (length ms) s \<Longrightarrow> list_all good ms \<Longrightarrow> drop (length (view s)) (view (adds ms s)) = ms"
  using view_adds[of ms 0 s] by simp

lemma view_prefix: "inv (length ms) s \<Longrightarrow> list_all good ms \<Longrightarrow> i < length (view s) \<Longrightarrow> view (adds ms s) ! i = view s ! i"
  using view_adds[of ms 0 s] by (simp add: nth_append)

lemma adds_twice:
  "inv (length ms + length ns) s \<Longrightarrow> list_all good (ms @ ns) \<Longrightarrow>
   view (adds ns (adds ms s)) = view s @ ms @ ns"
  using view_adds[of ms "length ns" s] view_adds[of ns 0 "adds ms s"] by simp

end

section \<open>The chat file as such a log\<close>

definition read_good :: read_env where
  "read_good = \<lparr>rd_open = True, rd_alloc = True, rd_line_alloc = \<lambda>_. True, rd_strdup = \<lambda>_. True,
                rd_ferror = False, rd_close = True\<rparr>"

definition lock_good :: lock_env where
  "lock_good = \<lparr>lk_open = True, lk_try = Granted, lk_wait = True, rl_unlock = True,
                rl_getlk = Some False, rl_close = True\<rparr>"

definition write_good :: write_env where
  "write_good = \<lparr>w_open = True, w_fdopen = True, w_line = \<lambda>_. True, w_close = True, w_flushed = 0,
                 w_stat = True, w_rename = True\<rparr>"

definition archive_good :: "string \<Rightarrow> string \<Rightarrow> archive_env" where
  "archive_good ts stamp = \<lparr>ar_stamp = Some stamp, ar_clock = Some ts, ar_alloc = True, ar_write = write_good,
     ar_main_alloc = True, ar_main = write_good, ar_cur_read = True, ar_cur = write_good\<rparr>"

definition send_good :: "int \<Rightarrow> string \<Rightarrow> send_env" where
  "send_good now ts = \<lparr>se_lock = lock_good, se_read = read_good, se_now = now, se_raw_alloc = True,
     se_enc_alloc = True, se_clock = Some ts, se_reopen = True, se_line_alloc = \<lambda>_. True, se_ferror = False,
     se_close = True, se_content_alloc = True, se_write = write_good, se_arch_alloc = True,
     se_arch = archive_good ts ''20260101-000000'', se_cur_lock = lock_good, se_cur_read = True,
     se_cur_write = write_good\<rparr>"

lemma good_envs [simp]:
  "read_env_ok read_good" "lock_ok lock_good" "lock_env_sound lock_good" "write_env_ok write_good"
  "send_env_ok (send_good now ts)"
  by (simp_all add: read_env_ok_def read_good_def lock_ok_def lock_good_def lock_env_sound_def
      write_env_ok_def write_good_def send_env_ok_def send_good_def archive_good_def)

definition chat_view :: "path \<Rightarrow> fs \<Rightarrow> chat_message list" where
  "chat_view p s = (case chat_read read_good p s of Ret (Some st) \<Rightarrow> messages st | _ \<Rightarrow> [])"

definition chat_add :: "path \<Rightarrow> string \<Rightarrow> chat_message \<Rightarrow> fs \<Rightarrow> fs" where
  "chat_add p ts m s = snd (chat_send (send_good (m_timestamp m) ts) p (m_handle m) (m_content m) s)"

definition good_message :: "string set \<Rightarrow> chat_message \<Rightarrow> bool" where
  "good_message H m \<longleftrightarrow> m_handle m \<in> H \<and> sendable (m_handle m) (m_timestamp m) (m_content m)"

text \<open>
  The invariant of the file for \<open>n\<close> further messages by writers in \<open>H\<close>: at most 52 writers (a
  53rd makes the sender abort), counts and lines below their limits.
\<close>

definition log_file :: "string set \<Rightarrow> path \<Rightarrow> nat \<Rightarrow> fs \<Rightarrow> participant list \<Rightarrow> string list \<Rightarrow> bool" where
  "log_file H p n s qs body \<longleftrightarrow> (\<exists>c lw lt. files s p = Some c \<and> is_chat_content c lw lt (join_participants qs) body)
     \<and> distinct (map p_handle qs) \<and> p_handle ` set qs \<subseteq> H \<and> list_all clean_participant qs
     \<and> list_all (\<lambda>q. p_count q + int n \<le> INT_MAX) qs \<and> int n + 1 \<le> INT_MAX \<and> length body + n \<le> ARCHIVE_THRESHOLD"

definition log_inv :: "string set \<Rightarrow> path \<Rightarrow> string \<Rightarrow> nat \<Rightarrow> fs \<Rightarrow> bool" where
  "log_inv H p ts n s \<longleftrightarrow> finite H \<and> card H \<le> 52 \<and> path_ok p \<and> field_ok ts \<and> length ts < 64 \<and> p \<notin> held s
     \<and> (\<exists>qs body. log_file H p n s qs body)"

lemma bump_participant_handles:
  "bump_participant qs h = Some qs' \<Longrightarrow> map p_handle qs' = map p_handle qs"
  "bump_participant qs h = None \<longleftrightarrow> h \<notin> p_handle ` set qs"
  by (induction qs arbitrary: qs') (auto split: if_splits)

lemma bump_participant_counts:
  "bump_participant qs h = Some qs' \<Longrightarrow> q \<in> set qs' \<Longrightarrow> \<exists>r \<in> set qs. p_count q \<le> p_count r + 1"
proof (induction qs arbitrary: qs')
  case (Cons a qs)
  have self: "p_count q \<le> p_count q + 1" by simp
  show ?case
  proof (cases "p_handle a = h")
    case True
    then have "q = a\<lparr>p_count := p_count a + 1\<rparr> \<or> q \<in> set qs" using Cons.prems by auto
    then show ?thesis
    proof
      assume "q \<in> set qs"
      then show ?thesis by (intro bexI[of _ q]) simp_all
    qed auto
  next
    case False
    then obtain qs2 where b: "bump_participant qs h = Some qs2" "qs' = a # qs2" using Cons.prems(1) by auto
    then show ?thesis using Cons.IH[OF b(1)] Cons.prems(2) self by auto
  qed
qed simp

lemma update_participants_handles:
  assumes "distinct (map p_handle qs)" "length h < 64"
  shows "distinct (map p_handle (update_participants qs h n))"
    and "p_handle ` set (update_participants qs h n) \<subseteq> insert h (p_handle ` set qs)"
proof -
  have t: "take 63 h = h" using assms(2) by simp
  have s: "p_handle ` set xs = set (map p_handle xs)" for xs by simp
  show "distinct (map p_handle (update_participants qs h n))"
    using assms bump_participant_handles[of qs h] t
    by (auto simp: update_participants_def split: option.splits)
  show "p_handle ` set (update_participants qs h n) \<subseteq> insert h (p_handle ` set qs)"
    unfolding s using bump_participant_handles(1)[of qs h] t
    by (cases "bump_participant qs h") (auto simp: update_participants_def)
qed

lemma update_participants_counts:
  assumes "list_all (\<lambda>q. p_count q + int (Suc n) \<le> INT_MAX) qs" "int (Suc n) + 1 \<le> INT_MAX"
  shows "list_all (\<lambda>q. p_count q + int n \<le> INT_MAX) (update_participants qs h k)"
proof (cases "bump_participant qs h")
  case None
  then show ?thesis using assms by (auto simp: update_participants_def list_all_iff)
next
  case (Some qs')
  have "p_count q + int n \<le> INT_MAX" if "q \<in> set qs'" for q
    using bump_participant_counts[OF Some that] assms(1) by (fastforce simp: list_all_iff)
  then show ?thesis using Some by (simp add: update_participants_def list_all_iff)
qed

lemma card_handles:
  assumes "distinct (map p_handle qs)" "p_handle ` set qs \<subseteq> H" "finite H"
  shows "length qs \<le> card H"
proof -
  have "length qs = card (p_handle ` set qs)" using distinct_card[OF assms(1)] by simp
  then show ?thesis using card_mono[OF assms(3,2)] by simp
qed

lemma chat_view_content:
  "files s p = Some c \<Longrightarrow> is_chat_content c lw lt ps body \<Longrightarrow> length body \<le> MAX_MESSAGES \<Longrightarrow>
   chat_view p s = body_messages body"
  by (simp add: chat_view_def chat_read_wf[OF good_envs(1)])

lemma chat_bytes_appended:
  assumes "clean_handle h" "field_ok ts" "length ts < 64" "room_for h qs" "list_all stored_line ls"
    "length ls \<le> MAX_MESSAGES"
  shows "is_chat_content (appended h ts qs ls) h ts (join_participants (update_participants qs h MAX_PARTICIPANTS)) ls"
proof -
  let ?qs = "update_participants qs h MAX_PARTICIPANTS"
  have q: "list_all clean_participant ?qs" "length ?qs \<le> 52"
    using assms(4) update_participants_clean[OF _ _ assms(1)] by (auto simp: room_for_def)
  have "header_ok h ts (join_participants ?qs)"
    using clean_handle_field[OF assms(1)] assms(2,3) join_participants_field[OF q(1)] q(2)
    by (simp add: header_ok_def)
  then show ?thesis unfolding appended_def by (rule chat_bytes_content) (use assms in auto)
qed

lemma log_inv_room:
  assumes "distinct (map p_handle qs)" "p_handle ` set qs \<subseteq> H" "finite H" "card H \<le> 52" "h \<in> H" "length h < 64"
    "list_all clean_participant qs" "list_all (\<lambda>q. p_count q + int (Suc n) \<le> INT_MAX) qs"
  shows "room_for h qs"
proof -
  let ?qs = "update_participants qs h MAX_PARTICIPANTS"
  have "distinct (map p_handle ?qs)" "p_handle ` set ?qs \<subseteq> H"
    using update_participants_handles[OF assms(1,6)] assms(2,5) by blast+
  then have "length ?qs \<le> 52" using card_handles[of ?qs H] assms(3,4) by simp
  then show ?thesis using assms(7,8) by (auto simp: room_for_def list_all_iff)
qed

lemma log_file_room:
  assumes "log_file H p (Suc n) s qs body" "finite H" "card H \<le> 52" "h \<in> H" "clean_handle h"
  shows "room_for h qs" "length body < ARCHIVE_THRESHOLD"
  using assms log_inv_room[of qs H h n] by (auto simp: log_file_def clean_handle_def)

lemma log_file_view: "log_file H p n s qs body \<Longrightarrow> chat_view p s = body_messages body"
  using chat_view_content by (fastforce simp: log_file_def)

lemma log_file_appended:
  assumes "log_file H p (Suc n) s qs body" "finite H" "card H \<le> 52" "h \<in> H" "sendable h now msg"
    and "field_ok ts" "length ts < 64" "files s1 p = Some (appended h ts qs (body @ [new_line h now msg]))"
  shows "log_file H p n s1 (update_participants qs h MAX_PARTICIPANTS) (body @ [new_line h now msg])"
proof -
  have ch: "clean_handle h" "length h < 64" using assms(5) by (auto simp: sendable_def clean_handle_def)
  note room = log_file_room[OF assms(1-4) ch(1)]
  have i: "distinct (map p_handle qs)" "p_handle ` set qs \<subseteq> H" "list_all clean_participant qs"
      "list_all (\<lambda>q. p_count q + int (Suc n) \<le> INT_MAX) qs" "int (Suc n) + 1 \<le> INT_MAX"
      "length body + Suc n \<le> ARCHIVE_THRESHOLD" "list_all stored_line body"
    using assms(1) unfolding log_file_def is_chat_content_def by blast+
  let ?qs = "update_participants qs h MAX_PARTICIPANTS" and ?b = "body @ [new_line h now msg]"
  have ls: "list_all stored_line ?b" "length ?b \<le> MAX_MESSAGES"
    using i(6,7) stored_new_line[OF assms(5)] by simp_all
  note cc = chat_bytes_appended[OF ch(1) assms(6,7) room(1) ls]
  have c: "\<exists>c lw lt. files s1 p = Some c \<and> is_chat_content c lw lt (join_participants ?qs) ?b"
    using assms(8) cc by blast
  have q: "distinct (map p_handle ?qs)" "p_handle ` set ?qs \<subseteq> H" "list_all clean_participant ?qs"
    "list_all (\<lambda>q. p_count q + int n \<le> INT_MAX) ?qs"
  proof -
    show "distinct (map p_handle ?qs)" by (rule update_participants_handles(1)[OF i(1) ch(2)])
    show "p_handle ` set ?qs \<subseteq> H"
      by (rule subset_trans[OF update_participants_handles(2)[OF i(1) ch(2)]]) (use i(2) assms(4) in simp)
    have "list_all (\<lambda>q. p_count q < INT_MAX) qs" using i(4) by (auto simp: list_all_iff)
    then show "list_all clean_participant ?qs" by (rule update_participants_clean[OF i(3) _ ch(1)])
    show "list_all (\<lambda>q. p_count q + int n \<le> INT_MAX) ?qs" by (rule update_participants_counts[OF i(4,5)])
  qed
  have x: "int n + 1 \<le> INT_MAX" "length ?b + n \<le> ARCHIVE_THRESHOLD" using i(5,6) by simp_all
  show ?thesis unfolding log_file_def by (intro conjI) (rule c q x)+
qed

lemma chat_add_sent:
  assumes "log_inv H p ts (Suc n) s" "good_message H m"
  shows "chat_view p (chat_add p ts m s) = chat_view p s @ [m]" "log_inv H p ts n (chat_add p ts m s)"
proof -
  let ?h = "m_handle m" and ?e = "send_good (m_timestamp m) ts"
  have g: "?h \<in> H" "sendable ?h (m_timestamp m) (m_content m)" using assms(2) by (auto simp: good_message_def)
  have ch: "clean_handle ?h" using g(2) by (simp add: sendable_def)
  obtain qs body where lf: "log_file H p (Suc n) s qs body"
    and j: "finite H" "card H \<le> 52" "path_ok p" "field_ok ts" "length ts < 64" "p \<notin> held s"
    using assms(1) unfolding log_inv_def by blast
  obtain c lw lt where i: "files s p = Some c" "is_chat_content c lw lt (join_participants qs) body"
    using lf unfolding log_file_def by blast
  note room = log_file_room[OF lf j(1,2) g(1) ch]
  let ?l = "new_line ?h (m_timestamp m) (m_content m)"
  have e: "clock_ok (se_clock ?e)" "se_now ?e = m_timestamp m" "se_clock ?e = Some ts"
    using j(4,5) by (simp_all add: clock_ok_def send_good_def)
  obtain s1 where s1: "chat_send ?e p ?h (m_content m) s = (Ret 0, s1)"
    using chat_send_ok[OF _ j(3) i(1,2) _ room(1) _ e(1)] g(2) e(2) room(2) by auto
  have "send_done ?e p ?h qs (body @ [?l]) s1" "p \<notin> held s1"
    using chat_send_outcome[OF s1 i(1,2) _ room(1) _ e(1) j(6)] g(2) e(2) room(2) by auto
  then have f: "files s1 p = Some (appended ?h ts qs (body @ [?l]))" "p \<notin> held s1"
    using e(3) room(2) by (auto simp: send_done_def)
  note lf1 = log_file_appended[OF lf j(1,2) g j(4,5) f(1)]
  have add: "chat_add p ts m s = s1" using s1 by (simp add: chat_add_def)
  have "body_messages (body @ [?l]) = body_messages body @ [m]"
    using body_messages_new_line[OF g(2)] by (simp add: new_message_def)
  then show "chat_view p (chat_add p ts m s) = chat_view p s @ [m]"
    using log_file_view[OF lf1] log_file_view[OF lf] add by simp
  show "log_inv H p ts n (chat_add p ts m s)"
    unfolding log_inv_def add using j f lf1 by blast
qed

interpretation chat: append_log "chat_add p ts" "chat_view p" "good_message H" "log_inv H p ts" for p ts H
  by unfold_locales (rule chat_add_sent; assumption)+

end
