(* ===== verification/ChatTools.thy ===== *)
theory ChatTools
  imports ChatContract
begin

text \<open>
  Creating, truncating and polling a chat file: what \<open>chat_create\<close> and \<open>chat_truncate\<close> leave on
  disk for every combination of failing calls, and when \<open>chat_poll\<close> reports news.
\<close>

section \<open>Creating\<close>

lemma chat_create_cases:
  assumes "chat_create w clock p s = (r, s1)" "clock_ok clock"
  obtains (unchanged) "s1 = s" "r \<noteq> Ret 0"
  | (failed) "files s p = None" "r = Ret (-2)" "same_but {p} s s1"
  | (created) ts where "files s p = None" "clock = Some ts" "r = Ret 0 \<or> r = Abort"
      "s1 = put_file p (chat_bytes ''system'' ts [] []) s"
      "is_chat_content (chat_bytes ''system'' ts [] []) ''system'' ts [] []"
proof (cases clock)
  case None
  then show thesis using assms(1) unchanged by (auto simp: chat_create_def get_timestamp_def)
next
  case (Some ts)
  have ts: "field_ok ts" "length ts < 64" "snprintf 64 ts = ts"
    using assms(2) Some by (auto simp: clock_ok_def snprintf_id)
  obtain n where n: "compute_file_length (header_no_length ''system'' ts [] @ unlines []) = Ret n"
    "chat_bytes ''system'' ts [] [] = unlines (file_lines ''system'' ts n [] [])" by (rule chat_lines_ret)
  have "header_ok ''system'' ts []" using ts by (simp add: header_ok_def field_ok_def no_nul_def)
  then have c: "is_chat_content (chat_bytes ''system'' ts [] []) ''system'' ts [] []"
    by (rule chat_bytes_content) simp_all
  have len: "length (header_no_length ''system'' ts []) < 1024" using ts(2) by (simp add: header_no_length_def)
  let ?L = "file_lines ''system'' ts n [] []"
  have eq: "chat_create w clock p s = (if files s p \<noteq> None then (Ret (-1), s)
      else if \<not> w_open w then (Ret (-2), s)
      else if \<not> w_fdopen w then (Ret (-2), put_file p [] s)
      else if \<not> write_ok w ?L then (Ret (-2), remove_file p s)
      else if \<not> w_close w then (Ret (-2), put_file p (take (w_flushed w) (unlines ?L)) s)
      else if \<not> w_stat w \<or> \<not> size_is p n (put_file p (unlines ?L) s) then (Abort, put_file p (unlines ?L) s)
      else (Ret 0, put_file p (unlines ?L) s))"
    using Some ts(3) len n(1) by (simp add: chat_create_def get_timestamp_def Let_def)
  show thesis
  proof (cases "files s p")
    case None
    have sb: "same_but {p} s (put_file p x s)" "same_but {p} s (remove_file p s)" for x by simp_all
    show thesis using assms(1) eq None n(2) sb
      by (cases "w_open w"; cases "w_fdopen w"; cases "write_ok w ?L"; cases "w_close w")
         (auto split: if_splits intro: unchanged failed created[OF None Some _ _ c])
  next
    case (Some x)
    then show thesis using assms(1) eq unchanged by auto
  qed
qed

lemma chat_create_ok:
  assumes "write_env_ok w" "field_ok ts" "length ts < 64" "files s p = None"
  shows "chat_create w (Some ts) p s = (Ret 0, put_file p (chat_bytes ''system'' ts [] []) s)
    \<and> is_chat_content (chat_bytes ''system'' ts [] []) ''system'' ts [] []"
proof -
  obtain n where n: "compute_file_length (header_no_length ''system'' ts [] @ unlines []) = Ret n"
    "chat_bytes ''system'' ts [] [] = unlines (file_lines ''system'' ts n [] [])" by (rule chat_lines_ret)
  have h: "header_ok ''system'' ts []" using assms(2,3) by (simp add: header_ok_def field_ok_def no_nul_def)
  have c: "is_chat_content (chat_bytes ''system'' ts [] []) ''system'' ts [] []"
    by (rule chat_bytes_content[OF h]) simp_all
  have len: "int (length (unlines (file_lines ''system'' ts n [] []))) = n"
    by (rule file_length_exact[OF n(1)]) (use h in \<open>auto simp: header_ok_def field_ok_def\<close>)
  have "length (header_no_length ''system'' ts []) < 1024" using assms(3) by (simp add: header_no_length_def)
  moreover have "snprintf 64 ts = ts" using assms(3) by (simp add: snprintf_id)
  moreover have "write_ok w (file_lines ''system'' ts n [] [])"
    using assms(1) by (simp add: write_env_ok_def write_ok_def list_all_iff)
  ultimately show ?thesis
    using assms(1,4) n c len by (simp add: chat_create_def get_timestamp_def Let_def write_env_ok_def size_is_def)
qed

section \<open>Truncating\<close>

lemma kept_participants_snoc:
  "kept_participants (ms @ [m]) = update_participants (kept_participants ms) (m_handle m) MAX_PARTICIPANTS"
  by (simp add: kept_participants_def)

lemma update_counts_bound:
  assumes "list_all (\<lambda>q. p_count q \<le> k) qs" "0 \<le> k"
  shows "list_all (\<lambda>q. p_count q \<le> k + 1) (update_participants qs h n)"
proof (cases "bump_participant qs h")
  case None
  then show ?thesis using assms by (auto simp: update_participants_def list_all_iff)
next
  case (Some qs')
  have "p_count q \<le> k + 1" if "q \<in> set qs'" for q
    using bump_participant_counts[OF Some that] assms(1) by (fastforce simp: list_all_iff)
  then show ?thesis using Some by (simp add: update_participants_def list_all_iff)
qed

lemma kept_participants_clean:
  assumes "list_all (\<lambda>m. clean_handle (m_handle m)) ms" "length ms \<le> MAX_MESSAGES"
  shows "list_all clean_participant (kept_participants ms)
    \<and> list_all (\<lambda>q. p_count q \<le> int (length ms)) (kept_participants ms)"
  using assms
proof (induction ms rule: rev_induct)
  case (snoc m ms)
  then have IH: "list_all clean_participant (kept_participants ms)"
    "list_all (\<lambda>q. p_count q \<le> int (length ms)) (kept_participants ms)" by simp_all
  have ch: "clean_handle (m_handle m)" using snoc.prems(1) by simp
  have "list_all (\<lambda>q. p_count q < INT_MAX) (kept_participants ms)"
    using IH(2) snoc.prems(2) by (auto simp: list_all_iff)
  then show ?case
    using update_participants_clean[OF IH(1) _ ch, of MAX_PARTICIPANTS] update_counts_bound[OF IH(2), of "m_handle m" MAX_PARTICIPANTS]
    by (simp add: kept_participants_snoc add.commute)
qed (simp add: kept_participants_def)

lemma format_participants_field:
  assumes "list_all clean_participant qs"
  shows "field_ok (format_participants qs 4096)"
proof -
  have f: "format_participants qs 4096 = take 4095 (join_participants qs)" by (simp add: format_participants_join)
  have ch: "c \<in> set (format_participants qs 4096) \<Longrightarrow> c \<noteq> nul \<and> c \<noteq> nl \<and> c \<noteq> cr" for c
    using join_participants_chars[OF assms, of c] unfolding f by (meson in_set_takeD)
  have "length (format_participants qs 4096) \<le> 4095" unfolding f by simp
  moreover have "format_participants qs 4096 = [] \<or> last (format_participants qs 4096) \<noteq> cr"
    using ch last_in_set by blast
  moreover have "no_nul (format_participants qs 4096)" "nl \<notin> set (format_participants qs 4096)"
    using ch by (auto simp: no_nul_def)
  ultimately show ?thesis by (simp add: field_ok_def)
qed

definition truncate_clock_ok :: "truncate_env \<Rightarrow> bool" where
  "truncate_clock_ok e \<longleftrightarrow> clock_ok (tr_clock e) \<and> (\<forall>t. clock_ok (tr_local e t))"

lemma truncate_last_ok:
  assumes "truncate_last e k ms = Ret (lw, lt)" "truncate_clock_ok e"
    "list_all (\<lambda>m. clean_handle (m_handle m)) ms"
  shows "field_ok lw \<and> length lw < 64 \<and> field_ok lt \<and> length lt < 64
    \<and> lw = (if 0 < k \<and> k \<le> length ms then m_handle (ms ! (k - 1)) else [])"
proof -
  have gt: "get_timestamp c = Ret t \<Longrightarrow> clock_ok c \<Longrightarrow> field_ok t \<and> length t < 64" for c t
    by (auto simp: get_timestamp_def clock_ok_def snprintf_id split: option.splits)
  have lc: "tr_local e i = Some t \<Longrightarrow> field_ok (snprintf 64 t) \<and> length (snprintf 64 t) < 64" for i t
    using assms(2) by (auto simp: truncate_clock_ok_def clock_ok_def snprintf_id)
  have ck: "clock_ok (tr_clock e)" using assms(2) by (simp add: truncate_clock_ok_def)
  show ?thesis
  proof (cases "0 < k \<and> k \<le> length ms")
    case True
    have "ms ! (k - 1) \<in> set ms" by (rule nth_mem) (use True in linarith)
    then have ch: "clean_handle (m_handle (ms ! (k - 1)))" using assms(3) by (simp only: list_all_iff)
    then have lw: "lw = m_handle (ms ! (k - 1))" "field_ok lw" "length lw < 64"
      using assms(1) True clean_handle_field[OF ch]
      by (auto simp: truncate_last_def Let_def snprintf_id outcome_simps)
    have "field_ok lt \<and> length lt < 64"
      using assms(1) True gt[OF _ ck] lc
      by (auto simp: truncate_last_def Let_def outcome_simps split: if_splits option.splits)
    then show ?thesis using lw True by simp
  next
    case False
    then show ?thesis using assms(1) gt[OF _ ck] by (auto simp: truncate_last_def outcome_simps field_ok_def no_nul_def)
  qed
qed

lemma truncate_collect_body_any:
  "list_all stored_line ls \<Longrightarrow> length acc \<le> keep \<Longrightarrow>
   truncate_collect alloc keep (map (\<lambda>l. l @ [nl]) ls) seen True acc
     \<in> {None, Some (acc @ take (keep - length acc) ls)}"
proof (induction ls arbitrary: acc)
  case (Cons l ls)
  have sl: "stored_line l" and ls: "list_all stored_line ls" using Cons.prems(1) by simp_all
  have l: "chomp (l @ [nl]) = l" "l \<noteq> []"
    using stored_line_chomp[OF sl] sl by (simp_all add: stored_line_def)
  show ?case
  proof (cases "length acc < keep")
    case True
    then obtain k where k: "keep = length acc + Suc k" using less_imp_Suc_add by fastforce
    show ?thesis using Cons.IH[OF ls, of "acc @ [l]"] l True by (simp add: k Let_def)
  next
    case False
    then have "length acc = keep" using Cons.prems(2) by simp
    then show ?thesis using Cons.IH[OF ls Cons.prems(2)] l False by (simp add: Let_def)
  qed
qed simp

lemma truncate_collect_any:
  assumes "is_chat_content c lw lt ps body"
  shows "truncate_collect alloc keep (fgets_all MAX_MESSAGE_LEN c) False False [] \<in> {None, Some (take keep body)}"
proof -
  have a: "int (length c) \<le> LLONG_MAX" "header_ok lw lt ps" "list_all stored_line body"
    using assms by (auto simp: is_chat_content_def)
  show ?thesis unfolding chat_chunks[OF assms]
    using collect_header(2)[OF a(2) _ a(1)] truncate_collect_body_any[OF a(3), of "[]" keep alloc] by simp
qed

text \<open>\<open>truncate_done\<close>: the file holds exactly the first \<open>k\<close> stored lines, under a header made from the
  messages that stay.\<close>

definition truncate_done :: "path \<Rightarrow> nat \<Rightarrow> chat_message list \<Rightarrow> string list \<Rightarrow> fs \<Rightarrow> bool" where
  "truncate_done p k ms body s \<longleftrightarrow> (\<exists>lw lt c.
     files s p = Some c
     \<and> is_chat_content c lw lt (format_participants (kept_participants (take k ms)) 4096) (take k body)
     \<and> lw = (if 0 < k then m_handle (ms ! (k - 1)) else []))"

lemma truncate_locked_cases:
  assumes "truncate_locked e p k st s = (r, s1)"
    and "files s p = Some c" "is_chat_content c lw lt ps body" "length body \<le> MAX_MESSAGES"
    and "list_all (\<lambda>m. clean_handle (m_handle m)) (messages st)" "length (messages st) \<le> MAX_MESSAGES"
    and "truncate_clock_ok e"
  obtains (kept) "files s1 p = Some c" "r = Ret 0 \<Longrightarrow> length (messages st) \<le> k" "held s1 = held s"
  | (truncated) "truncate_done p k (messages st) body s1" "k < length (messages st)" "r = Ret 0" "held s1 = held s"
proof (cases "length (messages st) \<le> k \<or> (if tr_reopen e then files s p else None) = None")
  case True
  then show thesis using assms(1,2) kept by (auto simp: truncate_locked_def split: if_splits)
next
  case False
  then have k: "k < length (messages st)" "tr_reopen e" using assms(2) by (auto split: if_splits)
  obtain T where T: "truncate_collect (tr_line_alloc e) k (fgets_all MAX_MESSAGE_LEN c) False False [] = T" by blast
  have eq1: "truncate_locked e p k st s = (case T of None \<Rightarrow> (Ret (-1), s)
      | Some ls \<Rightarrow> if tr_ferror e then (Ret (-1), s) else if \<not> tr_close e then (Ret (-1), s)
        else (case truncate_last e k (messages st) of Abort \<Rightarrow> (Abort, s)
      | Ret (lw, lt) \<Rightarrow>
        (let parts_str = format_participants (kept_participants (take k (messages st))) 4096;
             header = header_no_length lw lt parts_str
         in if \<not> (length header > 0 \<and> length header < 8192) then (Abort, s)
            else if \<not> tr_alloc e then (Ret (-1), s)
            else (case compute_file_length (header @ unlines ls) of Abort \<Rightarrow> (Abort, s)
      | Ret file_len \<Rightarrow>
        (case send_commit (tr_write e) p file_len (file_lines lw lt file_len parts_str ls) s of
           (Abort, s1) \<Rightarrow> (Abort, s1)
         | (Ret rc, s1) \<Rightarrow> (Ret (if rc = 0 then 0 else -1), s1))))))"
    unfolding truncate_locked_def truncate_commit_def using k assms(2) T by simp
  show thesis
  proof (cases "T = None \<or> tr_ferror e \<or> \<not> tr_close e \<or> truncate_last e k (messages st) = Abort")
    case True
    then show thesis using eq1 assms(1,2) kept by (auto split: option.splits if_splits)
  next
    case False
    then obtain lw1 lt1 where tl: "truncate_last e k (messages st) = Ret (lw1, lt1)"
      by (cases "truncate_last e k (messages st)") auto
    have Ts: "T = Some (take k body)"
      using truncate_collect_any[OF assms(3), of "tr_line_alloc e" k] T False by auto
    let ?ps = "format_participants (kept_participants (take k (messages st))) 4096"
    have cl: "list_all (\<lambda>m. clean_handle (m_handle m)) (take k (messages st))"
      using assms(5) by (auto simp: list_all_iff dest: in_set_takeD)
    have tk: "length (take k (messages st)) \<le> MAX_MESSAGES" using assms(6) by simp
    have qs: "list_all clean_participant (kept_participants (take k (messages st)))"
      using kept_participants_clean[OF cl tk] by blast
    note l = truncate_last_ok[OF tl assms(7,5)]
    have h: "header_ok lw1 lt1 ?ps" using l format_participants_field[OF qs] unfolding header_ok_def by blast
    obtain n where n: "compute_file_length (header_no_length lw1 lt1 ?ps @ unlines (take k body)) = Ret n"
      "chat_bytes lw1 lt1 ?ps (take k body) = unlines (file_lines lw1 lt1 n ?ps (take k body))"
      by (rule chat_lines_ret)
    have cc: "is_chat_content (chat_bytes lw1 lt1 ?ps (take k body)) lw1 lt1 ?ps (take k body)"
      by (rule chat_bytes_content[OF h])
         (use assms(3,4) in \<open>auto simp: is_chat_content_def list_all_iff dest: in_set_takeD\<close>)
    obtain x a where cm: "send_commit (tr_write e) p n (file_lines lw1 lt1 n ?ps (take k body)) s = (x, a)" by fastforce
    have eq2: "truncate_locked e p k st s = (
         if \<not> (length (header_no_length lw1 lt1 ?ps) > 0 \<and> length (header_no_length lw1 lt1 ?ps) < 8192) then (Abort, s)
         else if \<not> tr_alloc e then (Ret (-1), s)
         else (case (x, a) of (Abort, s1) \<Rightarrow> (Abort, s1) | (Ret rc, s1) \<Rightarrow> (Ret (if rc = 0 then 0 else -1), s1)))"
      unfolding eq1 Ts option.case tl outcome.case prod.case Let_def n(1) cm using False by simp
    show thesis using cm
    proof (cases rule: send_commit_cases)
      case failed
      have "files a p = files s p" by (rule same_butD[OF failed(2)]) simp
      then show thesis using eq2 assms(1,2) failed kept by (cases x) (auto split: if_splits)
    next
      case written
      have "truncate_done p k (messages st) body a"
        unfolding truncate_done_def using written(2) n(2) cc l k(1) by (auto split: if_splits)
      then show thesis using eq2 assms(1,2) written kept truncated k(1) by (auto split: if_splits)
    qed
  qed
qed

text \<open>Every run of \<open>chat_truncate\<close> on a well-formed file, whatever fails.\<close>

lemma chat_truncate_outcome:
  assumes "chat_truncate e p k s = (r, s1)"
    and "files s p = Some c" "is_chat_content c lw lt ps body" "length body \<le> MAX_MESSAGES"
    and "list_all (\<lambda>m. clean_handle (m_handle m)) (body_messages body)" "read_env_ok (tr_read e)"
    and "truncate_clock_ok e" "p \<notin> held s"
  shows "files s1 p = Some c \<and> (r = Ret 0 \<longrightarrow> int (length (body_messages body)) \<le> k)
      \<or> truncate_done p (nat k) (body_messages body) body s1 \<and> (\<forall>rc. r = Ret rc \<longrightarrow> rc = 0)"
    and "r = Ret rc \<Longrightarrow> p \<notin> held s1"
proof -
  let ?D = "truncate_done p (nat k) (body_messages body) body"
  have goal: "(files s1 p = Some c \<and> (r = Ret 0 \<longrightarrow> int (length (body_messages body)) \<le> k)
      \<or> ?D s1 \<and> (\<forall>rc. r = Ret rc \<longrightarrow> rc = 0)) \<and> ((\<exists>rc. r = Ret rc) \<longrightarrow> p \<notin> held s1)"
  proof (cases "k < 0")
    case True
    then show ?thesis using assms(1,2) by (auto simp: chat_truncate_def)
  next
    case k: False
    obtain x a where la: "chat_lock_acquire (tr_lock e) p s = (x, a)" by fastforce
    have pa: "files a p = Some c" using same_butD[OF acquire_same[OF la]] assms(2) by simp
    show ?thesis using la
    proof (cases rule: acquire_cases)
      case abort
      then show ?thesis using assms(1,2) la k by (auto simp: chat_truncate_def)
    next
      case failed
      then show ?thesis using assms(1,2,8) la k pa by (auto simp: chat_truncate_def)
    next
      case locked
      let ?st = "add_body body (header_state lw lt (int (length c)) ps)"
      have rd: "chat_read (tr_read e) p a = Ret (Some ?st)"
        using chat_read_wf[OF assms(6) pa assms(3,4)] .
      obtain y b where tl: "truncate_locked e p (nat k) ?st a = (y, b)" by fastforce
      have lm: "length (body_messages body) \<le> MAX_MESSAGES"
        using length_body_messages[of body] assms(4) by simp
      note tc = truncate_locked_cases[OF tl pa assms(3,4) _ _ assms(7), unfolded messages_read, OF assms(5) lm]
      show ?thesis
      proof (cases y)
        case Abort
        then have "r = Abort" "s1 = b"
          using assms(1) k la locked(1) rd tl by (simp_all add: chat_truncate_def)
        then show ?thesis using tc by (auto elim: tc)
      next
        case (Ret rc)
        obtain z d where rl: "release_and_return (tr_lock e) p rc b = (z, d)" by fastforce
        have fd: "files d = files b" using release_same[OF rl] .
        have rs: "r = z" "s1 = d"
          using assms(1) k la locked(1) rd tl Ret rl by (simp_all add: chat_truncate_def)
        have h: "z = Ret v \<Longrightarrow> v = rc \<and> p \<notin> held d" for v using release_held[of "tr_lock e" p rc b v d] rl by blast
        have D: "?D d = ?D b" using fd by (simp add: truncate_done_def)
        show ?thesis
        proof (rule tc)
          assume "files b p = Some c" "y = Ret 0 \<Longrightarrow> length (body_messages body) \<le> nat k"
          then show ?thesis using rs fd h Ret k by auto
        next
          assume "?D b" "y = Ret 0"
          then show ?thesis using rs fd h Ret D by auto
        qed
      qed
    qed
  qed
  show "files s1 p = Some c \<and> (r = Ret 0 \<longrightarrow> int (length (body_messages body)) \<le> k)
      \<or> ?D s1 \<and> (\<forall>rc. r = Ret rc \<longrightarrow> rc = 0)" using goal by blast
  show "r = Ret rc \<Longrightarrow> p \<notin> held s1" using goal by blast
qed

section \<open>Polling\<close>

text \<open>What one wake-up finds: an error, news, or nothing new.\<close>

definition tick_news :: "path \<Rightarrow> string \<Rightarrow> nat \<Rightarrow> read_env \<times> fs \<Rightarrow> bool option" where
  "tick_news p h n t = (case chat_read (fst t) p (snd t) of
     Ret (Some st) \<Rightarrow> Some (has_new_from_other n h st) | _ \<Rightarrow> None)"

lemma poll_loop_tick:
  "poll_loop p h n (t # ts) = Ret 0 \<longleftrightarrow>
     tick_news p h n t = Some True \<or> tick_news p h n t = Some False \<and> poll_loop p h n ts = Ret 0"
  "poll_loop p h n (t # ts) = Ret 3 \<longleftrightarrow> tick_news p h n t = Some False \<and> poll_loop p h n ts = Ret 3"
  by (cases t; auto simp: tick_news_def split: outcome.splits option.splits)+

lemma poll_loop_iff:
  "poll_loop p h n ts = Ret 0 \<longleftrightarrow>
     (\<exists>k < length ts. tick_news p h n (ts ! k) = Some True \<and> (\<forall>j < k. tick_news p h n (ts ! j) = Some False))"
  "poll_loop p h n ts = Ret 3 \<longleftrightarrow> (\<forall>j < length ts. tick_news p h n (ts ! j) = Some False)"
proof (induction ts)
  case (Cons t ts)
  { case 1
    show ?case unfolding poll_loop_tick Cons.IH(1)
      by (auto simp: Ex_less_Suc2 All_less_Suc2)
  next
    case 2
    show ?case unfolding poll_loop_tick Cons.IH(2) by (simp add: All_less_Suc2) }
qed simp_all

lemma news_of_append:
  assumes "messages st = ms @ ns" "length ms = n"
  shows "has_new_from_other n h st \<longleftrightarrow> list_ex (\<lambda>m. m_handle m \<noteq> h) ns"
  using assms by (cases ns) (auto simp: has_new_from_other_def)

end
