(* ===== verification/ChatProps.thy ===== *)
theory ChatProps
  imports ChatTools
begin

text \<open>
  The properties of the chat file: atomic sends, no message lost by a send or by archiving,
  order of messages, exclusive creation, truncation, polling, the round trips of the formats
  and the cursors.  The witnesses run on a small chat file made by \<open>chat_create\<close>.
\<close>

section \<open>The example file of the witnesses\<close>

definition demo_path :: path where
  "demo_path = ''a.chat''"

definition demo_time :: string where
  "demo_time = ''2026-01-02T03:04:05+0000''"

definition demo_fs :: fs where
  "demo_fs = snd (chat_create write_good (Some demo_time) demo_path \<lparr>files = \<lambda>_. None, held = {}\<rparr>)"

definition demo_bytes :: string where
  "demo_bytes = chat_bytes ''system'' demo_time [] []"

lemma demo_time_ok: "field_ok demo_time" "length demo_time < 64" "clock_ok (Some demo_time)"
  by (simp_all add: demo_time_def field_ok_def no_nul_def clock_ok_def)

lemma demo_content:
  "files demo_fs demo_path = Some demo_bytes"
  "is_chat_content demo_bytes ''system'' demo_time (join_participants []) []"
  "demo_path \<notin> held demo_fs"
  using chat_create_ok[of write_good demo_time "\<lparr>files = \<lambda>_. None, held = {}\<rparr>" demo_path] demo_time_ok
  by (simp_all add: demo_fs_def demo_bytes_def)

lemma demo_path_ok: "path_ok demo_path"
  by (simp add: demo_path_def path_ok_def)

lemma demo_sendable: "sendable ''bob'' 1000 ''hi''" "sendable ''amy'' 1001 ''yo''"
  by (simp_all add: sendable_def clean_handle_def no_nul_def)

lemma demo_room: "room_for ''bob'' []"
  by (simp add: room_for_def update_participants_def)

lemma demo_env: "se_now (send_good n t) = n" "clock_ok (se_clock (send_good n demo_time))"
    "clock_ok (ar_clock (se_arch (send_good n demo_time)))"
  using demo_time_ok by (simp_all add: send_good_def archive_good_def)

section \<open>Sending\<close>

text \<open>C1: \<open>chat_send\<close> on a well-formed chat file is atomic, whichever calls fail or abort the
  process on the way: the file keeps its old bytes, and then the result is not 0; or it is a
  complete new file that holds the old lines and the new one (the first
  \<open>ARCHIVE_CLEAVE\<close> of them possibly moved to an archive file), and then the result is 0 unless
  the process aborted afterwards.  A result other than an abort leaves the lock released.\<close>

theorem chat_send_atomic:
  assumes "chat_send e p h msg s = (r, s1)"
    and "files s p = Some c" and "is_chat_content c lw lt (join_participants qs) body"
    and "length body < 10000" and "room_for h qs" and "sendable h (se_now e) msg" and "clock_ok (se_clock e)"
    and "p \<notin> held s"
  shows "(files s1 p = Some c \<and> r \<noteq> Ret 0
      \<or> send_done e p h qs (body @ [new_line h (se_now e) msg]) s1 \<and> r \<in> {Ret 0, Abort})
    \<and> (r \<noteq> Abort \<longrightarrow> p \<notin> held s1)"
  using chat_send_outcome[OF assms] by (cases r) auto

theorem chat_send_atomic_witness:
  "let (r, s1) = chat_send (send_good 1000 demo_time) demo_path ''bob'' ''hi'' demo_fs in
    (files s1 demo_path = Some demo_bytes \<and> r \<noteq> Ret 0
      \<or> send_done (send_good 1000 demo_time) demo_path ''bob'' [] [new_line ''bob'' 1000 ''hi''] s1
        \<and> r \<in> {Ret 0, Abort})
    \<and> (r \<noteq> Abort \<longrightarrow> demo_path \<notin> held s1)"
proof -
  obtain r s1 where r: "chat_send (send_good 1000 demo_time) demo_path ''bob'' ''hi'' demo_fs = (r, s1)" by fastforce
  show ?thesis
    using chat_send_atomic[OF r demo_content(1,2) _ demo_room _ demo_env(2) demo_content(3)] demo_sendable(1)
    unfolding r demo_env(1) by simp
qed

lemma body_messages_split: "body_messages (take k ls) @ body_messages (drop k ls) = body_messages ls"
  by (metis append_take_drop_id body_messages_simps(3))

lemma send_done_view:
  assumes "send_done e p h qs (body @ [l]) s1" "l = new_line h now msg" "sendable h now msg"
    and "list_all stored_line body" "length body < MAX_MESSAGES" "room_for h qs"
    and "clock_ok (se_clock e)" "clock_ok (ar_clock (se_arch e))"
  shows "chat_view p s1 = body_messages body @ [new_message h now msg]
    \<or> (\<exists>stamp a. archive_name p stamp = Some a
        \<and> chat_view a s1 @ chat_view p s1 = body_messages body @ [new_message h now msg])"
proof -
  let ?ls = "body @ [l]"
  have ls: "list_all stored_line ?ls" "length ?ls \<le> MAX_MESSAGES"
    using assms(2-5) stored_new_line[OF assms(3)] by simp_all
  have bm: "body_messages ?ls = body_messages body @ [new_message h now msg]"
    unfolding assms(2) by (rule body_messages_new_line[OF assms(3)])
  have ch: "clean_handle h" using assms(3) by (simp add: sendable_def)
  obtain ts where ts: "se_clock e = Some ts" using assms(1) by (auto simp: send_done_def)
  have t: "field_ok ts" "length ts < 64" using assms(7) ts by (auto simp: clock_ok_def)
  consider "files s1 p = Some (appended h ts qs ?ls)"
    | stamp a where "files s1 p = Some (appended h ts qs (drop ARCHIVE_CLEAVE ?ls))"
      "archive_name p stamp = Some a" "files s1 a = Some (archive_copy (ar_clock (se_arch e)) ?ls)"
    using assms(1) ts unfolding send_done_def by auto
  then show ?thesis
  proof cases
    case 1
    have "chat_view p s1 = body_messages ?ls"
      by (rule chat_view_content[OF 1 chat_bytes_appended[OF ch t assms(6) ls] ls(2)])
    then show ?thesis using bm by simp
  next
    case 2
    have d: "list_all stored_line (drop ARCHIVE_CLEAVE ?ls)" "length (drop ARCHIVE_CLEAVE ?ls) \<le> MAX_MESSAGES"
      and k: "list_all stored_line (take ARCHIVE_CLEAVE ?ls)" "length (take ARCHIVE_CLEAVE ?ls) \<le> MAX_MESSAGES"
      using ls unfolding list_all_iff by (auto dest: in_set_dropD in_set_takeD)
    have p: "chat_view p s1 = body_messages (drop ARCHIVE_CLEAVE ?ls)"
      by (rule chat_view_content[OF 2(1) chat_bytes_appended[OF ch t assms(6) d] d(2)])
    let ?at = "case ar_clock (se_arch e) of Some ts \<Rightarrow> snprintf 64 ts | None \<Rightarrow> []"
    have "field_ok ?at \<and> length ?at < 64"
      using assms(8) by (auto simp: clock_ok_def field_ok_def no_nul_def snprintf_id split: option.splits)
    then have "header_ok ''system'' ?at ''(archived)''" by (simp add: header_ok_def field_ok_def no_nul_def)
    then have "is_chat_content (archive_copy (ar_clock (se_arch e)) ?ls) ''system'' ?at ''(archived)''
        (take ARCHIVE_CLEAVE ?ls)"
      unfolding archive_copy_def by (rule chat_bytes_content[OF _ k])
    then have "chat_view a s1 = body_messages (take ARCHIVE_CLEAVE ?ls)"
      by (rule chat_view_content[OF 2(3) _ k(2)])
    then have "chat_view a s1 @ chat_view p s1 = body_messages ?ls"
      by (simp only: p body_messages_split)
    then show ?thesis using bm 2(2) by auto
  qed
qed



text \<open>C11: When no call fails, \<open>chat_send\<close> returns 0; so with \<open>chat_send_no_loss\<close> the message is
  in the file.  The writer list of the file may have up to 52 participants afterwards.\<close>

theorem chat_send_returns:
  assumes "send_env_ok e" and "path_ok p"
    and "files s p = Some c" and "is_chat_content c lw lt (join_participants qs) body"
    and "length body < 10000" and "room_for h qs" and "sendable h (se_now e) msg" and "clock_ok (se_clock e)"
  shows "\<exists>s1. chat_send e p h msg s = (Ret 0, s1)"
  using chat_send_ok[OF assms] .

theorem chat_send_returns_witness:
  "\<exists>s1. chat_send (send_good 1000 demo_time) demo_path ''bob'' ''hi'' demo_fs = (Ret 0, s1)"
  using chat_send_returns[OF good_envs(5) demo_path_ok demo_content(1,2) _ demo_room _ demo_env(2)] demo_sendable(1)
  by (simp add: demo_env)


lemma demo_log_inv: "log_inv {''bob'', ''amy''} demo_path demo_time 2 demo_fs"
proof -
  have c: "card {''bob'', ''amy''} \<le> 52" by (simp add: card_insert_if)
  have "\<exists>c lw lt. files demo_fs demo_path = Some c \<and> is_chat_content c lw lt (join_participants []) []"
    using demo_content(1,2) by blast
  then have "log_file {''bob'', ''amy''} demo_path 2 demo_fs [] []" unfolding log_file_def by simp
  then show ?thesis unfolding log_inv_def using demo_content(3) demo_path_ok demo_time_ok c by blast
qed


text \<open>Every chat file a send leaves is well formed again: reading it finds a header whose
  \<open>file-length\<close> is the number of bytes of the file, the sender as last writer, and the
  participants with the sender's count raised by one.\<close>

theorem chat_send_header:
  assumes "chat_send e p h msg s = (Ret 0, s1)"
    and "files s p = Some c" and "is_chat_content c lw lt (join_participants qs) body"
    and "length body < 2000" and "room_for h qs" and "sendable h (se_now e) msg"
    and "clock_ok (se_clock e)" and "p \<notin> held s"
  shows "\<exists>c1 st. files s1 p = Some c1 \<and> chat_read read_good p s1 = Ret (Some st)
    \<and> file_length st = int (length c1) \<and> last_writer st = h
    \<and> participants st = update_participants qs h 256 \<and> chat_state_check_invariants st"
proof -
  let ?l = "new_line h (se_now e) msg" and ?qs = "update_participants qs h MAX_PARTICIPANTS"
  have lb: "length body < 10000" using assms(4) by simp
  have "send_done e p h qs (body @ [?l]) s1"
    using chat_send_outcome(1)[OF assms(1-3) lb assms(5-8)] by blast
  then obtain ts where ts: "se_clock e = Some ts" "files s1 p = Some (appended h ts qs (body @ [?l]))"
    using assms(4) by (auto simp: send_done_def)
  have t: "field_ok ts" "length ts < 64" using assms(7) ts(1) by (auto simp: clock_ok_def)
  have ls: "list_all stored_line (body @ [?l])" "length (body @ [?l]) \<le> MAX_MESSAGES"
    using assms(3,4) stored_new_line[OF assms(6)] by (simp_all add: is_chat_content_def)
  have ch: "clean_handle h" using assms(6) by (simp add: sendable_def)
  note cc = chat_bytes_appended[OF ch t assms(5) ls]
  have q: "list_all clean_participant ?qs" "length ?qs \<le> 52"
    using assms(5) update_participants_clean[OF _ _ ch] by (auto simp: room_for_def)
  have pq: "parse_participants (join_participants ?qs) 256 = ?qs"
    by (rule parse_format_participants[OF q(1)]) (use q(2) in simp)
  let ?st = "add_body (body @ [?l]) (header_state h ts (int (length (appended h ts qs (body @ [?l])))) (join_participants ?qs))"
  have "chat_read read_good p s1 = Ret (Some ?st)"
    by (rule chat_read_wf[OF good_envs(1) ts(2) cc ls(2)])
  moreover have "participants ?st = ?qs" "last_writer ?st = h"
    "file_length ?st = int (length (appended h ts qs (body @ [?l])))" using pq by simp_all
  moreover have "chat_state_check_invariants ?st"
    unfolding chat_state_check_invariants_def messages_read pq
    using q length_body_messages[of "body @ [?l]"] ls(2) by (auto simp: list_all_iff clean_participant_def)
  ultimately show ?thesis using ts(2) by blast
qed

theorem chat_send_header_witness:
  "\<exists>s1 c1 st. chat_send (send_good 1000 demo_time) demo_path ''bob'' ''hi'' demo_fs = (Ret 0, s1)
    \<and> files s1 demo_path = Some c1 \<and> chat_read read_good demo_path s1 = Ret (Some st)
    \<and> file_length st = int (length c1) \<and> last_writer st = ''bob''
    \<and> participants st = [\<lparr>p_handle = ''bob'', p_count = 1\<rparr>] \<and> chat_state_check_invariants st"
proof -
  obtain s1 where r: "chat_send (send_good 1000 demo_time) demo_path ''bob'' ''hi'' demo_fs = (Ret 0, s1)"
    using chat_send_ok[OF good_envs(5) demo_path_ok demo_content(1,2) _ demo_room _ demo_env(2)] demo_sendable(1)
    by (auto simp: demo_env)
  have "update_participants [] ''bob'' 256 = [\<lparr>p_handle = ''bob'', p_count = 1\<rparr>]"
    by (simp add: update_participants_def)
  then show ?thesis
    using chat_send_header[OF r demo_content(1,2) _ demo_room _ demo_env(2) demo_content(3)] demo_sendable(1) r
    by (auto simp: demo_env)
qed

section \<open>Creating and truncating\<close>

text \<open>\<open>chat_create\<close> never touches a file that exists, for every combination of failing calls:
  it then aborts or returns an error and leaves all files as they were.  When it returns 0,
  the file did not exist, and it is now a chat file without messages whose reading succeeds.\<close>

theorem chat_create_exclusive:
  assumes "chat_create w clock p s = (r, s1)" and "clock_ok clock"
  shows "(files s p \<noteq> None \<longrightarrow> s1 = s \<and> r \<noteq> Ret 0)
    \<and> (r = Ret 0 \<longrightarrow> files s p = None \<and> chat_view p s1 = []
         \<and> (\<exists>st. chat_read read_good p s1 = Ret (Some st) \<and> last_writer st = ''system'' \<and> messages st = []))"
proof (rule chat_create_cases[OF assms])
  fix ts
  assume c: "files s p = None" "clock = Some ts" "s1 = put_file p (chat_bytes ''system'' ts [] []) s"
    "is_chat_content (chat_bytes ''system'' ts [] []) ''system'' ts [] []"
  have "chat_read read_good p s1 = Ret (Some (add_body [] (header_state ''system'' ts
      (int (length (chat_bytes ''system'' ts [] []))) [])))"
    by (rule chat_read_wf[OF good_envs(1) _ c(4)]) (simp_all add: c(3))
  then show ?thesis using c(1) by (simp add: chat_view_def)
qed simp_all

theorem chat_create_exclusive_witness:
  "let (r, s1) = chat_create write_good (Some demo_time) demo_path demo_fs in s1 = demo_fs \<and> r \<noteq> Ret 0"
proof -
  obtain r s1 where r: "chat_create write_good (Some demo_time) demo_path demo_fs = (r, s1)" by fastforce
  show ?thesis using chat_create_exclusive[OF r demo_time_ok(3)] demo_content(1) by (simp add: r)
qed

text \<open>\<open>chat_truncate\<close> is atomic and keeps a prefix: whichever calls fail, the file keeps its old
  bytes (and a result 0 means it had no more than \<open>k\<close> messages), or it holds exactly the first
  \<open>k\<close> stored lines; when every line of the old file is a message these are its first \<open>k\<close>
  messages.  A result other than an abort leaves the lock released.\<close>

theorem chat_truncate_prefix:
  assumes "chat_truncate e p k s = (r, s1)"
    and "files s p = Some c" and "is_chat_content c lw lt ps body" and "length body \<le> 10000"
    and "list_all (\<lambda>m. clean_handle (m_handle m)) (body_messages body)" and "read_env_ok (tr_read e)"
    and "truncate_clock_ok e" and "p \<notin> held s"
  shows "(files s1 p = Some c \<and> (r = Ret 0 \<longrightarrow> int (length (chat_view p s)) \<le> k)
      \<or> chat_view p s1 = body_messages (take (nat k) body) \<and> r \<in> {Ret 0, Abort}
        \<and> (length (body_messages body) = length body \<longrightarrow> chat_view p s1 = take (nat k) (chat_view p s)))
    \<and> (r \<noteq> Abort \<longrightarrow> p \<notin> held s1)"
proof -
  have v: "chat_view p s = body_messages body" by (rule chat_view_content[OF assms(2-4)])
  have tk: "length (body_messages body) = length body \<Longrightarrow> body_messages (take n body) = take n (body_messages body)" for n
  proof (induction body arbitrary: n)
    case (Cons l ls)
    have "length (body_messages ls) \<le> length ls" by (rule length_body_messages)
    then have "\<exists>m. line_message l = Some m" "length (body_messages ls) = length ls"
      using Cons.prems by (auto split: option.splits)
    then show ?case using Cons.IH by (cases n) auto
  qed simp
  consider "files s1 p = Some c" "r = Ret 0 \<longrightarrow> int (length (body_messages body)) \<le> k"
    | "truncate_done p (nat k) (body_messages body) body s1" "\<forall>rc. r = Ret rc \<longrightarrow> rc = 0"
    using chat_truncate_outcome(1)[OF assms] by blast
  then have "files s1 p = Some c \<and> (r = Ret 0 \<longrightarrow> int (length (chat_view p s)) \<le> k)
      \<or> chat_view p s1 = body_messages (take (nat k) body) \<and> r \<in> {Ret 0, Abort}
        \<and> (length (body_messages body) = length body \<longrightarrow> chat_view p s1 = take (nat k) (chat_view p s))"
  proof cases
    case 1
    then show ?thesis using v by simp
  next
    case 2
    have "chat_view p s1 = body_messages (take (nat k) body)"
      using 2(1) assms(4) chat_view_content[of s1 p] unfolding truncate_done_def by fastforce
    then show ?thesis using 2(2) v tk by (cases r) auto
  qed
  then show ?thesis using chat_truncate_outcome(2)[OF assms] by (cases r) auto
qed

definition truncate_good :: truncate_env where
  "truncate_good = \<lparr>tr_lock = lock_good, tr_read = read_good, tr_reopen = True, tr_line_alloc = \<lambda>_. True,
     tr_ferror = False, tr_close = True, tr_local = \<lambda>_. None, tr_clock = Some demo_time, tr_alloc = True,
     tr_write = write_good\<rparr>"

theorem chat_truncate_prefix_witness:
  "\<exists>r s1. chat_truncate truncate_good demo_path 0 demo_fs = (r, s1)
    \<and> (files s1 demo_path = Some demo_bytes \<or> chat_view demo_path s1 = []) \<and> (r \<noteq> Abort \<longrightarrow> demo_path \<notin> held s1)"
proof -
  obtain r s1 where r: "chat_truncate truncate_good demo_path 0 demo_fs = (r, s1)" by fastforce
  have "read_env_ok (tr_read truncate_good)" "truncate_clock_ok truncate_good"
    using demo_time_ok by (simp_all add: truncate_good_def truncate_clock_ok_def clock_ok_def)
  then show ?thesis
    using chat_truncate_prefix[OF r demo_content(1,2) _ _ _ _ demo_content(3)] r by auto
qed

section \<open>Polling\<close>

text \<open>\<open>chat_poll\<close> returns 0 exactly when some wake-up before the timeout is the first to find,
  beyond the messages present at the start, a message of another handle, all earlier
  wake-ups having read the file without finding one; it returns 3 exactly when every wake-up
  reads the file and none finds one.\<close>

theorem chat_poll_reports:
  assumes "chat_read e p s = Ret (Some st)" and "0 \<le> timeout" and "n = length (messages st)"
  shows "(chat_poll e s ticks p h timeout = Ret 0 \<longleftrightarrow>
      (\<exists>k < nat timeout. tick_news p h n (ticks k) = Some True \<and> (\<forall>j < k. tick_news p h n (ticks j) = Some False)))
    \<and> (chat_poll e s ticks p h timeout = Ret 3 \<longleftrightarrow> (\<forall>k < nat timeout. tick_news p h n (ticks k) = Some False))"
proof -
  have "chat_poll e s ticks p h timeout = poll_loop p h n (map ticks [0..<nat timeout])"
    using assms by (simp add: chat_poll_def)
  then show ?thesis using poll_loop_iff[of p h n "map ticks [0..<nat timeout]"] by auto
qed

theorem chat_poll_reports_witness:
  "chat_poll read_good demo_fs (\<lambda>_. (read_good, demo_fs)) demo_path ''bob'' 5 = Ret 3"
proof -
  obtain st where st: "chat_read read_good demo_path demo_fs = Ret (Some st)" "messages st = []"
    using chat_read_wf[OF good_envs(1) demo_content(1,2)] by simp
  have "tick_news demo_path ''bob'' 0 (read_good, demo_fs) = Some False"
    using st by (simp add: tick_news_def has_new_from_other_def)
  then show ?thesis
    using chat_poll_reports[OF st(1), of 5 0 "\<lambda>_. (read_good, demo_fs)" "''bob''"] st(2) by simp
qed

text \<open>A poller misses messages when the file is archived meanwhile: if at every wake-up the
  file has no more messages than at the start, \<open>chat_poll\<close> times out, whoever wrote them.\<close>

theorem chat_poll_misses_archived:
  assumes "chat_read e p s = Ret (Some st)" and "0 \<le> timeout"
    and "\<And>k. \<exists>stk. chat_read (fst (ticks k)) p (snd (ticks k)) = Ret (Some stk)
              \<and> length (messages stk) \<le> length (messages st)"
  shows "chat_poll e s ticks p h timeout = Ret 3"
proof -
  have "tick_news p h (length (messages st)) (ticks k) = Some False" for k
    using assms(3)[of k] by (auto simp: tick_news_def has_new_from_other_def)
  then show ?thesis
    using assms(1,2) poll_loop_iff(2)[of p h "length (messages st)" "map ticks [0..<nat timeout]"]
    by (simp add: chat_poll_def)
qed

theorem chat_poll_misses_archived_witness:
  "chat_poll read_good demo_fs (\<lambda>_. (read_good, demo_fs)) demo_path ''amy'' 9 = Ret 3"
proof -
  obtain st where st: "chat_read read_good demo_path demo_fs = Ret (Some st)"
    using chat_read_wf[OF good_envs(1) demo_content(1,2)] by simp
  show ?thesis by (rule chat_poll_misses_archived[OF st]) (use st in auto)
qed

section \<open>Formats\<close>

text \<open>The header's \<open>file-length\<close> is right whatever the header and the lines are:
  \<open>compute_file_length\<close> never aborts, and the file with that number written into it has exactly
  that many bytes (the number of digits of the length is part of the length).\<close>

theorem file_length_is_size:
  assumes "no_nul lw" and "no_nul lt" and "no_nul ps" and "\<forall>l \<in> set body. no_nul l"
  shows "\<exists>n. compute_file_length (header_no_length lw lt ps @ unlines body) = Ret n
    \<and> int (length (unlines (file_lines lw lt n ps body))) = n"
  using compute_file_length_ret[of "header_no_length lw lt ps @ unlines body"] file_length_exact[OF _ assms]
  by blast

theorem file_length_is_size_witness:
  "\<exists>n. compute_file_length (header_no_length ''bob'' ''t'' ''bob(1)'' @ unlines [''QQ=='']) = Ret n
    \<and> int (length (unlines (file_lines ''bob'' ''t'' n ''bob(1)'' [''QQ==''] ))) = n"
  by (rule file_length_is_size) (simp_all add: no_nul_def)

text \<open>The participants header round-trips: parsing what \<open>format_participants\<close> writes for at
  most 52 participants with proper handles and counts gives them back, in order.\<close>

theorem participants_roundtrip:
  assumes "list_all clean_participant qs" and "length qs \<le> 52"
  shows "parse_participants (format_participants qs 4096) 256 = qs"
  using format_participants_exact[OF assms(1)] parse_format_participants[OF assms(1), of 256] assms(2) by simp

theorem participants_roundtrip_witness:
  "parse_participants (format_participants [\<lparr>p_handle = ''bob'', p_count = 3\<rparr>, \<lparr>p_handle = ''amy'', p_count = 12\<rparr>] 4096) 256
    = [\<lparr>p_handle = ''bob'', p_count = 3\<rparr>, \<lparr>p_handle = ''amy'', p_count = 12\<rparr>]"
  by (rule participants_roundtrip) (simp_all add: clean_participant_def clean_handle_def)



section \<open>Cursors\<close>

lemma cursor_write_content:
  assumes "chat_cursor_write l True w p h i s = (Ret 0, s1)"
  shows "files s1 (p @ ''.cursors'') = Some (put_cursor h i (case files s (p @ ''.cursors'') of Some c \<Rightarrow> c | None \<Rightarrow> []))"
proof -
  let ?c = "p @ ''.cursors''"
  have cp: "cursor_path p = Ret ?c"
    using assms cursor_path_ret[of p] by (cases "cursor_path p") (auto simp: chat_cursor_write_def split: if_splits)
  obtain x a where la: "chat_lock_acquire l p s = (x, a)" by fastforce
  have x: "x = Ret True"
    using assms cp la by (auto simp: chat_cursor_write_def split: if_splits outcome.splits bool.splits)
  have fa: "files a ?c = files s ?c"
    using la by (rule acquire_cases) (auto simp: lock_path_def)
  have r0: "read_cursors [] = []" by (simp add: read_cursors_def cursor_entries_def List.map_filter_def)
  let ?new = "set_cursor h i (case files s ?c of Some content \<Rightarrow> read_cursors content | None \<Rightarrow> [])"
  obtain wr b where w: "write_tmp w False (?c @ ''.tmp'') (cursor_content ?new) a = (wr, b)" by fastforce
  have rel: "release_and_return l p (-1 :: int) t \<noteq> (Ret 0, s1)" for t
    using release_held[of l p "-1 :: int" t 0 s1] by auto
  have h: "h \<noteq> []" "0 \<le> i" using assms by (auto simp: chat_cursor_write_def split: if_splits)
  have eq: "chat_cursor_write l True w p h i s = (case wr of
        WDone \<Rightarrow> if w_rename w then release_and_return l p 0 (rename_file (?c @ ''.tmp'') ?c b)
                 else release_and_return l p (-1) (remove_file (?c @ ''.tmp'') b)
      | _ \<Rightarrow> release_and_return l p (-1) b)"
    unfolding chat_cursor_write_def cp la x outcome.case prod.case bool.case Let_def if_True fa
    using h w by (cases wr) simp_all
  have wd: "wr = WDone" "release_and_return l p (0::int) (rename_file (?c @ ''.tmp'') ?c b) = (Ret 0, s1)"
  proof -
    note r = trans[OF eq[symmetric] assms]
    have d: "wr = WDone \<and> w_rename w"
    proof (rule ccontr)
      assume "\<not> (wr = WDone \<and> w_rename w)"
      then have "\<exists>t. release_and_return l p (-1 :: int) t = (Ret 0, s1)"
        using r by (cases wr; cases "w_rename w") (simp_all only: write_result.case if_True if_False; blast)+
      then show False using rel by blast
    qed
    then show "wr = WDone" by blast
    show "release_and_return l p (0::int) (rename_file (?c @ ''.tmp'') ?c b) = (Ret 0, s1)"
      using r d by (simp only: write_result.case if_True)
  qed
  have "files s1 = files (rename_file (?c @ ''.tmp'') ?c b)" by (rule release_same[OF wd(2)])
  moreover have "b = put_file (?c @ ''.tmp'') (unlines (cursor_content ?new)) a"
    using write_tmp_done w wd(1) by blast
  ultimately show ?thesis by (auto simp: put_cursor_def r0 split: option.splits)
qed

text \<open>After \<open>chat_cursor_write\<close> returned 0 for a handle, \<open>chat_cursor_read\<close> finds the index that was
  written under this handle, and every other handle reads what it read before, as long as
  the file has room for the handle.\<close>

theorem cursor_read_after_write:
  assumes "chat_cursor_write l True w p h i s = (Ret 0, s1)" and "good_cursor h i"
    and "cursors_wf (case files s (p @ ''.cursors'') of Some c \<Rightarrow> c | None \<Rightarrow> [])"
    and "cursor_room h (case files s (p @ ''.cursors'') of Some c \<Rightarrow> c | None \<Rightarrow> [])"
    and "h' \<noteq> []"
  shows "chat_cursor_read True p h' s1 = (if h' = h then Ret i else chat_cursor_read True p h' s)"
proof -
  let ?c = "case files s (p @ ''.cursors'') of Some c \<Rightarrow> c | None \<Rightarrow> []"
  have cp: "cursor_path p = Ret (p @ ''.cursors'')"
    using assms(1) cursor_path_ret[of p] by (cases "cursor_path p") (auto simp: chat_cursor_write_def split: if_splits)
  have l0: "lookup_cursor h' [] = -1" by (simp add: lookup_cursor_def cursor_entries_def List.map_filter_def)
  have old: "chat_cursor_read True p h' s = Ret (lookup_cursor h' ?c)"
    using assms(5) cp l0 by (simp add: chat_cursor_read_def split: option.splits)
  have "chat_cursor_read True p h' s1 = Ret (lookup_cursor h' (put_cursor h i ?c))"
    using assms(5) cp cursor_write_content[OF assms(1)] by (simp add: chat_cursor_read_def)
  then show ?thesis
    using old cursors.get_put_same[OF assms(3,2,4)] cursors.get_put_other[OF assms(3,2,4), of h'] by simp
qed

theorem cursor_read_after_write_witness:
  "\<exists>s1. chat_cursor_write lock_good True write_good demo_path ''bob'' 7 demo_fs = (Ret 0, s1)
    \<and> chat_cursor_read True demo_path ''bob'' s1 = Ret 7"
proof -
  have n: "files demo_fs ''a.chat.cursors'' = None"
    using chat_create_ok[of write_good demo_time "\<lparr>files = \<lambda>_. None, held = {}\<rparr>" demo_path] demo_time_ok
    by (simp add: demo_fs_def demo_path_def)
  have acq: "chat_lock_acquire lock_good demo_path demo_fs
      = (Ret True, (if files demo_fs (lock_path demo_path) = None then put_file (lock_path demo_path) [] demo_fs else demo_fs)
           \<lparr>held := insert demo_path (held demo_fs)\<rparr>)"
    by (simp add: chat_lock_acquire_def lock_good_def demo_path_def put_file_def)
  have cp: "cursor_path demo_path = Ret ''a.chat.cursors''"
    by (simp add: cursor_path_def demo_path_def)
  obtain s1 where r: "chat_cursor_write lock_good True write_good demo_path ''bob'' 7 demo_fs = (Ret 0, s1)"
    unfolding chat_cursor_write_def acq cp Let_def
    by (simp add: write_tmp_ok release_sound write_good_def[THEN arg_cong[where f = w_rename]])
  have e: "cursor_entries [] = []" by (simp add: cursor_entries_def List.map_filter_def)
  have "chat_cursor_read True demo_path ''bob'' s1 = (if ''bob'' = ''bob'' then Ret 7 else chat_cursor_read True demo_path ''bob'' demo_fs)"
    by (rule cursor_read_after_write[OF r])
       (simp_all add: good_cursor_def clean_key_def demo_path_def n[unfolded demo_path_def] cursors_wf_def cursor_room_def e)
  then show ?thesis using r by auto
qed

end
