(* ===== verification/Mentions.thy ===== *)
theory Mentions
  imports CStd
begin

text \<open>
  Mentions in a message (src/src/nbs-common/nbs_mention.h and \<open>bus_extract_mentions\<close> of
  src/src/nbs-chat/bus_bridge.c): the scan of the C code, and that it computes what the header
  describes: the distinct handles of the occurrences, in order, with the strongest suffix.
\<close>

abbreviation (input) MAX_MENTIONS :: nat where "MAX_MENTIONS \<equiv> 16"
abbreviation (input) MAX_MENTION_HANDLE_LEN :: nat where "MAX_MENTION_HANDLE_LEN \<equiv> 64"

section \<open>The scan\<close>

definition is_handle_char :: "char \<Rightarrow> bool" where
  "is_handle_char c \<longleftrightarrow> isalnum c \<or> c = CHR ''_'' \<or> c = CHR ''-''"

definition is_email_prefix_char :: "char \<Rightarrow> bool" where
  "is_email_prefix_char c \<longleftrightarrow> isalnum c \<or> c = CHR ''.'' \<or> c = CHR ''_'' \<or> c = CHR ''-'' \<or> c = CHR ''+''"

text \<open>1: interrupt, 2: query, 0: plain mention.\<close>

definition suffix_flag :: "string \<Rightarrow> nat" where
  "suffix_flag rest =
     (if take 1 rest = ''!'' \<or> take 2 rest = [CHR 0x5C, CHR ''!''] then 1
      else if take 1 rest = ''?'' \<or> take 2 rest = [CHR 0x5C, CHR ''?''] then 2
      else 0)"

text \<open>A handle found before keeps its place and takes the larger flag.\<close>

fun add_mention :: "string \<Rightarrow> nat \<Rightarrow> (string \<times> nat) list \<Rightarrow> (string \<times> nat) list" where
  "add_mention h flag [] = [(h, flag)]"
| "add_mention h flag ((h', f) # found) =
     (if h' = h then (h', if flag > f then flag else f) # found else (h', f) # add_mention h flag found)"

text \<open>\<open>prev\<close>: the character before \<open>p\<close>, if any.\<close>

function extract_loop :: "nat \<Rightarrow> char option \<Rightarrow> string \<Rightarrow> (string \<times> nat) list \<Rightarrow> (string \<times> nat) list" where
  "extract_loop max_handles prev p found =
     (case p of [] \<Rightarrow> found
      | c # start \<Rightarrow>
          if \<not> length found < max_handles then found
          else if c \<noteq> CHR ''@'' then extract_loop max_handles (Some c) start found
          else if (case prev of None \<Rightarrow> False | Some b \<Rightarrow> is_email_prefix_char b)
            then extract_loop max_handles (Some c) start found
          else (let candidate = takeWhile is_handle_char start; rest = dropWhile is_handle_char start in
            if candidate = [] then extract_loop max_handles (Some c) start found
            else if length candidate \<ge> MAX_MENTION_HANDLE_LEN
              then extract_loop max_handles (Some (last candidate)) rest found
            else extract_loop max_handles (Some (last candidate)) rest
                   (add_mention candidate (suffix_flag rest) found)))"
  by pat_completeness auto
termination
  by (relation "measure (\<lambda>(m, prev, p, found). length p)") (auto simp: less_Suc_eq_le length_dropWhile_le)

declare extract_loop.simps [simp del]

definition bus_extract_mentions :: "string \<Rightarrow> nat \<Rightarrow> (string \<times> nat) list outcome" where
  "bus_extract_mentions message max_handles =
     ASSERT_MSG (max_handles > 0)
      (let found = extract_loop max_handles None message [] in
       ASSERT_MSG (length found \<le> max_handles) (Ret found))"

section \<open>What a mention is\<close>

text \<open>
  The occurrences of mentions, position by position: an \<open>@\<close> that does not follow a character
  of an email address, the maximal run of handle characters after it, and what follows it.
\<close>

fun mention_occurrences :: "char option \<Rightarrow> string \<Rightarrow> (string \<times> nat) list" where
  "mention_occurrences prev [] = []"
| "mention_occurrences prev (c # s) =
     (let h = takeWhile is_handle_char s in
      if c = CHR ''@'' \<and> (case prev of None \<Rightarrow> True | Some b \<Rightarrow> \<not> is_email_prefix_char b)
         \<and> h \<noteq> [] \<and> length h < MAX_MENTION_HANDLE_LEN
      then [(h, suffix_flag (dropWhile is_handle_char s))] else [])
     @ mention_occurrences (Some c) s"

text \<open>Collecting stops as soon as the array is full.\<close>

fun collect_mentions :: "nat \<Rightarrow> (string \<times> nat) list \<Rightarrow> (string \<times> nat) list \<Rightarrow> (string \<times> nat) list" where
  "collect_mentions max_handles [] found = found"
| "collect_mentions max_handles ((h, flag) # occ) found =
     (if \<not> length found < max_handles then found
      else collect_mentions max_handles occ (add_mention h flag found))"

lemma collect_full [simp]: "\<not> length found < n \<Longrightarrow> collect_mentions n occ found = found"
  by (cases occ) auto

lemma at_not_handle: "\<not> is_handle_char (CHR ''@'')"
  by (simp add: is_handle_char_def isalnum_def isdigit_def)

text \<open>Inside a run of handle characters there is no \<open>@\<close>, so nothing is found there.\<close>

lemma occurrences_run:
  "list_all is_handle_char run \<Longrightarrow> run \<noteq> [] \<Longrightarrow>
   mention_occurrences prev (run @ s) = mention_occurrences (Some (last run)) s"
proof (induction run arbitrary: prev)
  case (Cons c run)
  then have "c \<noteq> CHR ''@''" using at_not_handle by auto
  then show ?case using Cons by (cases "run = []") (auto simp: Let_def)
qed simp

lemma extract_is_collect:
  "extract_loop n prev p found = collect_mentions n (mention_occurrences prev p) found"
proof (induction n prev p found rule: extract_loop.induct)
  case (1 n prev p found)
  show ?case
  proof (cases p)
    case Nil
    then show ?thesis by (subst extract_loop.simps) simp
  next
    case (Cons c start)
    let ?h = "takeWhile is_handle_char start" and ?r = "dropWhile is_handle_char start"
    have run: "mention_occurrences (Some c) start = mention_occurrences (Some (last ?h)) ?r" if "?h \<noteq> []"
      using occurrences_run[of ?h "Some c" ?r] that by (auto simp: list_all_iff dest: set_takeWhileD)
    consider (full) "\<not> length found < n" | (skip) "length found < n" "c \<noteq> CHR ''@'' \<or> (\<exists>b. prev = Some b \<and> is_email_prefix_char b) \<or> ?h = []"
      | (long) "length found < n" "c = CHR ''@''" "\<not> (\<exists>b. prev = Some b \<and> is_email_prefix_char b)" "?h \<noteq> []" "length ?h \<ge> 64"
      | (hit) "length found < n" "c = CHR ''@''" "\<not> (\<exists>b. prev = Some b \<and> is_email_prefix_char b)" "?h \<noteq> []" "length ?h < 64"
      by fastforce
    then show ?thesis
    proof cases
      case full
      then show ?thesis using Cons by (subst extract_loop.simps) simp
    next
      case skip
      have "extract_loop n prev p found = extract_loop n (Some c) start found"
        using skip Cons by (subst extract_loop.simps) (auto split: option.splits)
      also have "\<dots> = collect_mentions n (mention_occurrences (Some c) start) found"
      proof (cases "c \<noteq> CHR ''@''")
        case True
        then show ?thesis using "1.IH"(1)[OF Cons] skip(1) by simp
      next
        case False
        show ?thesis
        proof (cases "case prev of None \<Rightarrow> False | Some b \<Rightarrow> is_email_prefix_char b")
          case True
          then show ?thesis using "1.IH"(2)[OF Cons] skip(1) False by simp
        next
          case f: False
          then have "?h = []" using skip(2) False by (auto split: option.splits)
          then show ?thesis using "1.IH"(3)[OF Cons] skip(1) False f by simp
        qed
      qed
      finally show ?thesis using skip(2) Cons by (auto simp: Let_def split: option.splits)
    next
      case long
      have f: "\<not> (case prev of None \<Rightarrow> False | Some b \<Rightarrow> is_email_prefix_char b)" using long(3) by (auto split: option.splits)
      have "extract_loop n prev p found = extract_loop n (Some (last ?h)) ?r found"
        using long f Cons by (subst extract_loop.simps) simp
      also have "\<dots> = collect_mentions n (mention_occurrences (Some (last ?h)) ?r) found"
        using "1.IH"(4)[OF Cons] long f by simp
      finally show ?thesis using run[OF long(4)] Cons long by (simp add: Let_def)
    next
      case hit
      have f: "\<not> (case prev of None \<Rightarrow> False | Some b \<Rightarrow> is_email_prefix_char b)" using hit(3) by (auto split: option.splits)
      then have t: "case prev of None \<Rightarrow> True | Some b \<Rightarrow> \<not> is_email_prefix_char b" by (auto split: option.splits)
      let ?found = "add_mention ?h (suffix_flag ?r) found"
      have "extract_loop n prev p found = extract_loop n (Some (last ?h)) ?r ?found"
        using hit f Cons by (subst extract_loop.simps) (simp add: Let_def)
      also have "\<dots> = collect_mentions n (mention_occurrences (Some (last ?h)) ?r) ?found"
        using "1.IH"(5)[OF Cons] hit f by simp
      finally show ?thesis using run[OF hit(4)] Cons hit t by (simp add: Let_def)
    qed
  qed
qed

text \<open>Each occurrence in terms of the text before and after it.\<close>

definition mention_at :: "char option \<Rightarrow> string \<Rightarrow> string \<Rightarrow> string \<Rightarrow> bool" where
  "mention_at prev a h b \<longleftrightarrow>
     (if a = [] then (case prev of None \<Rightarrow> True | Some x \<Rightarrow> \<not> is_email_prefix_char x) else \<not> is_email_prefix_char (last a))
     \<and> h \<noteq> [] \<and> length h < MAX_MENTION_HANDLE_LEN \<and> list_all is_handle_char h
     \<and> (b = [] \<or> \<not> is_handle_char (hd b))"

lemma run_split:
  "list_all is_handle_char h \<Longrightarrow> b = [] \<or> \<not> is_handle_char (hd b) \<Longrightarrow>
   takeWhile is_handle_char (h @ b) = h \<and> dropWhile is_handle_char (h @ b) = b"
  by (induction h) (cases b; auto)+

lemma mention_occurrences_iff:
  "(h, f) \<in> set (mention_occurrences prev s) \<longleftrightarrow>
     (\<exists>a b. s = a @ CHR ''@'' # h @ b \<and> mention_at prev a h b \<and> f = suffix_flag b)"
proof (induction s arbitrary: prev)
  case (Cons c s)
  let ?h = "takeWhile is_handle_char s" and ?b = "dropWhile is_handle_char s"
  have hd: "?b = [] \<or> \<not> is_handle_char (hd ?b)" using hd_dropWhile by blast
  have all: "list_all is_handle_char ?h" by (auto simp: list_all_iff dest: set_takeWhileD)
  have "(h, f) \<in> set (mention_occurrences prev (c # s)) \<longleftrightarrow>
      c = CHR ''@'' \<and> h = ?h \<and> f = suffix_flag ?b \<and> mention_at prev [] ?h ?b
      \<or> (\<exists>a b. s = a @ CHR ''@'' # h @ b \<and> mention_at (Some c) a h b \<and> f = suffix_flag b)"
    using Cons.IH[of "Some c"] hd all by (auto simp: Let_def mention_at_def)
  also have "\<dots> \<longleftrightarrow> (\<exists>a b. c # s = a @ CHR ''@'' # h @ b \<and> mention_at prev a h b \<and> f = suffix_flag b)"
    (is "?l \<or> ?r \<longleftrightarrow> ?e")
  proof
    assume "?l \<or> ?r"
    then show ?e
    proof
      assume ?l
      then show ?e by (intro exI[of _ "[]"] exI[of _ ?b]) simp
    next
      assume ?r
      then obtain a b where "s = a @ CHR ''@'' # h @ b" "mention_at (Some c) a h b" "f = suffix_flag b" by blast
      then show ?e by (intro exI[of _ "c # a"] exI[of _ b]) (simp add: mention_at_def split: if_splits)
    qed
  next
    assume ?e
    then obtain a b where e: "c # s = a @ CHR ''@'' # h @ b" "mention_at prev a h b" "f = suffix_flag b" by blast
    show "?l \<or> ?r"
    proof (cases a)
      case Nil
      then have "?h = h" "?b = b" "c = CHR ''@''" using e run_split[of h b] by (auto simp: mention_at_def)
      then show ?thesis using e Nil by simp
    next
      case (Cons x a')
      then have "s = a' @ CHR ''@'' # h @ b" "mention_at (Some c) a' h b" using e by (auto simp: mention_at_def split: if_splits)
      then show ?thesis using e(3) by blast
    qed
  qed
  finally show ?case .
qed simp

section \<open>What is collected\<close>

text \<open>The distinct elements in the order of their first occurrence.\<close>

fun firsts :: "'a list \<Rightarrow> 'a list \<Rightarrow> 'a list" where
  "firsts seen [] = seen"
| "firsts seen (x # xs) = firsts (if x \<in> set seen then seen else seen @ [x]) xs"

lemma firsts_props: "distinct seen \<Longrightarrow> set (firsts seen xs) = set seen \<union> set xs \<and> distinct (firsts seen xs)"
  by (induction xs arbitrary: seen) auto

lemma firsts_prefix: "\<exists>r. firsts seen xs = seen @ r"
proof (induction xs arbitrary: seen)
  case (Cons x xs)
  obtain r where "firsts (if x \<in> set seen then seen else seen @ [x]) xs = (if x \<in> set seen then seen else seen @ [x]) @ r"
    using Cons by blast
  then show ?case by (cases "x \<in> set seen") simp_all
qed simp

lemma add_mention_fst: "map fst (add_mention h f found) = (if h \<in> fst ` set found then map fst found else map fst found @ [h])"
  by (induction h f found rule: add_mention.induct) auto

lemma add_mention_distinct: "distinct (map fst found) \<Longrightarrow> distinct (map fst (add_mention h f found))"
  by (simp add: add_mention_fst image_def)

lemma add_mention_map_of:
  "map_of (add_mention h f found) k =
     (if k = h then Some (case map_of found h of None \<Rightarrow> f | Some g \<Rightarrow> max f g) else map_of found k)"
  by (induction h f found rule: add_mention.induct) auto

lemma collect_fst:
  "length found \<le> n \<Longrightarrow> map fst (collect_mentions n occ found) = take n (firsts (map fst found) (map fst occ))"
proof (induction n occ found rule: collect_mentions.induct)
  case (2 n h flag occ found)
  show ?case
  proof (cases "length found < n")
    case False
    obtain r where "firsts (map fst found) (map fst ((h, flag) # occ)) = map fst found @ r" using firsts_prefix by blast
    then show ?thesis using False 2 by simp
  next
    case True
    have "length (add_mention h flag found) \<le> n"
      using True add_mention_fst[of h flag found] by (metis length_map le_eq_less_or_eq Suc_leI length_append_singleton)
    then show ?thesis using 2 True by (simp add: add_mention_fst image_def)
  qed
qed simp

text \<open>With room left, every handle has the largest flag it was seen with.\<close>

definition flag_of :: "(string \<times> nat) list \<Rightarrow> string \<Rightarrow> nat option" where
  "flag_of occ h = (if h \<in> fst ` set occ then Some (Max (snd ` {e \<in> set occ. fst e = h})) else None)"

lemma flag_of_snoc:
  "flag_of (occ @ [(k, f)]) h = (if h = k then Some (case flag_of occ h of None \<Rightarrow> f | Some g \<Rightarrow> max f g) else flag_of occ h)"
proof -
  let ?S = "snd ` {e \<in> set occ. fst e = h}"
  have fin: "finite ?S" by simp
  have e: "?S = {} \<longleftrightarrow> h \<notin> fst ` set occ" by force
  have s: "snd ` {e \<in> set (occ @ [(k, f)]). fst e = h} = (if h = k then insert f ?S else ?S)"
    by auto force
  show ?thesis
  proof (cases "h = k")
    case True
    have l: "h \<in> fst ` set (occ @ [(k, f)])" using True by simp
    show ?thesis
    proof (cases "?S = {}")
      case empty: True
      then show ?thesis unfolding flag_of_def s using True l e by (simp only: empty if_True if_False not_not) simp
    next
      case False
      then have "h \<in> fst ` set occ" using e by blast
      then show ?thesis unfolding flag_of_def s using True l Max_insert[OF fin False, of f] by simp
    qed
  next
    case False
    then show ?thesis unfolding flag_of_def s by auto
  qed
qed

lemma collect_flags:
  "length (firsts (map fst found) (map fst occ)) < n \<Longrightarrow> (\<And>h. map_of found h = flag_of before h) \<Longrightarrow>
   map_of (collect_mentions n occ found) h = flag_of (before @ occ) h"
proof (induction occ arbitrary: found before)
  case (Cons e occ)
  obtain k f where e: "e = (k, f)" by fastforce
  obtain r where "firsts (map fst found) (map fst (e # occ)) = map fst found @ r" using firsts_prefix by blast
  then have len: "length found < n" using Cons.prems(1) by simp
  have m: "map_of (add_mention k f found) h = flag_of (before @ [(k, f)]) h" for h
    using Cons.prems(2) by (simp add: add_mention_map_of flag_of_snoc)
  have "length (firsts (map fst (add_mention k f found)) (map fst occ)) < n"
    using Cons.prems(1) e by (simp add: add_mention_fst image_def)
  from Cons.IH[OF this m] show ?case using len e by simp
qed simp

lemma extract_mentions_collect:
  assumes "0 < n"
  shows "bus_extract_mentions m n = Ret (collect_mentions n (mention_occurrences None m) [])"
proof -
  have "length (map fst (collect_mentions n (mention_occurrences None m) [])) \<le> n"
    using collect_fst[of "[]" n "mention_occurrences None m"] by simp
  then show ?thesis using assms by (simp add: bus_extract_mentions_def extract_is_collect)
qed

text \<open>C20: Extracting mentions is what the bridge documents: the handles found are the distinct
  handles of the occurrences in the message, in order of first occurrence and at most
  \<open>max_handles\<close> of them, and while the array is not filled each comes with the strongest
  suffix it was seen with.  An occurrence is an \<open>@\<close> that does not follow a character of an
  email address, then a maximal run of 1 to 63 handle characters.\<close>

theorem mentions_extracted:
  assumes "0 < n" and "occ = mention_occurrences None m"
  shows "(\<exists>found. bus_extract_mentions m n = Ret found
      \<and> map fst found = take n (firsts [] (map fst occ))
      \<and> (length (firsts [] (map fst occ)) < n \<longrightarrow> (\<forall>h. map_of found h = flag_of occ h)))
    \<and> (\<forall>h f. (h, f) \<in> set occ \<longleftrightarrow> (\<exists>a b. m = a @ CHR ''@'' # h @ b \<and> mention_at None a h b \<and> f = suffix_flag b))"
  unfolding assms(2) extract_mentions_collect[OF assms(1)]
  using collect_fst[of "[]" n] collect_flags[of "[]" _ n "[]"] mention_occurrences_iff[of _ _ None m]
  by (simp add: flag_of_def)

theorem mentions_extracted_witness:
  "bus_extract_mentions ''hi @ann, @bob! a@b.c @ann?'' 16 = Ret [(''ann'', 2), (''bob'', 1)]
   \<and> map fst [(''ann'', 2 :: nat), (''bob'', 1)] = take 16 (firsts [] (map fst (mention_occurrences None ''hi @ann, @bob! a@b.c @ann?'')))"
proof -
  have occ: "mention_occurrences None ''hi @ann, @bob! a@b.c @ann?'' = [(''ann'', 0), (''bob'', 1), (''ann'', 2)]" by code_simp
  have c: "collect_mentions 16 [(''ann'', 0), (''bob'', 1), (''ann'', 2)] [] = [(''ann'', 2), (''bob'', 1)]" by code_simp
  show ?thesis
    using mentions_extracted[of 16 _ "''hi @ann, @bob! a@b.c @ann?''", OF _ refl] c
    by (simp only: extract_mentions_collect occ) simp
qed

end
