(* ===== verification/ChatBridge.thy ===== *)
theory ChatBridge
  imports BusMain ChatProps Mentions
begin

text \<open>
  The bridge from the chat to the bus (src/src/nbs-chat/bus_bridge.c): after a message was sent
  the bridge looks for an events directory near the chat file and runs \<open>nbs-bus publish\<close>, once
  for the message and once for everyone it mentions.  The bus is the model of src/src/nbs-bus, run
  with the arguments the bridge passes.  Failing calls are fields of the environment; the
  warnings on stderr are not modelled.
\<close>

abbreviation (input) MAX_PAYLOAD_LEN :: nat where "MAX_PAYLOAD_LEN \<equiv> 2048"
abbreviation (input) MAX_DIR_WALK_DEPTH :: nat where "MAX_DIR_WALK_DEPTH \<equiv> 10"
abbreviation (input) MAX_HEADER_LINE :: nat where "MAX_HEADER_LINE \<equiv> 8192"

text \<open>
  \<open>br_realpath p\<close> resolves an existing path, \<open>br_isdir\<close> tells whether the result is a directory.
  The \<open>k\<close>-th publication runs when \<open>br_run k\<close> (the fork and the exec succeed), in the bus
  environment \<open>br_bus k\<close>; \<open>br_wait k\<close>: its exit status is collected.
\<close>

record bridge_env =
  br_realpath :: "string \<Rightarrow> string option"
  br_isdir :: "string \<Rightarrow> bool"
  br_open :: bool
  br_self :: "string option"
  br_access :: "string \<Rightarrow> bool"
  br_run :: "nat \<Rightarrow> string \<Rightarrow> bool"
  br_wait :: "nat \<Rightarrow> bool"
  br_bus :: "nat \<Rightarrow> bus_env"

section \<open>Finding the programs and the directory\<close>

text \<open>The answer of the first call; later calls return the cached one.\<close>

definition resolve_nbs_bus :: "bridge_env \<Rightarrow> string" where
  "resolve_nbs_bus e =
     (case br_self e of None \<Rightarrow> ''nbs-bus''
      | Some self \<Rightarrow>
          if self = [] then ''nbs-bus''
          else if CHR ''/'' \<notin> set (cstr self) then ''nbs-bus''
          else (let dir = rev (drop 1 (dropWhile (\<lambda>c. c \<noteq> CHR ''/'') (rev (cstr self)))) in
            if length dir + 9 > MAX_PATH_LEN then ''nbs-bus''
            else if \<not> br_access e (dir @ ''/nbs-bus'') then ''nbs-bus''
            else dir @ ''/nbs-bus''))"

text \<open>\<open>dirname\<close> of the C library.\<close>

definition dirname :: "string \<Rightarrow> string" where
  "dirname path =
     (let base = rstrip (\<lambda>c. c = CHR ''/'') path;
          up = (if base = [] then [] else rstrip (\<lambda>c. c \<noteq> CHR ''/'') base);
          dir = rstrip (\<lambda>c. c = CHR ''/'') up
      in if CHR ''/'' \<notin> set path then ''.''
         else if base = [] then (if path = ''//'' then ''//'' else ''/'')
         else if up = [] then ''.''
         else if dir = [] then (if up = ''//'' then ''//'' else ''/'')
         else dir)"

text \<open>One candidate: \<open>None\<close> when it is no directory, else what the function returns for it.\<close>

definition check_events :: "bridge_env \<Rightarrow> nat \<Rightarrow> string \<Rightarrow> string option outcome option" where
  "check_events e out_buf_size path =
     (case br_realpath e (snprintf MAX_PATH_LEN path) of
        None \<Rightarrow> None
      | Some resolved \<Rightarrow>
          if \<not> br_isdir e resolved then None
          else if length resolved < out_buf_size
            then Some (ASSERT_MSG (take 1 resolved = ''/'') (Ret (Some resolved)))
          else Some (Ret None))"

text \<open>\<open>depth\<close> is the number of rounds left; \<open>None\<close> is the return value -1.\<close>

fun find_events_loop :: "bridge_env \<Rightarrow> nat \<Rightarrow> nat \<Rightarrow> string \<Rightarrow> string \<Rightarrow> string option outcome" where
  "find_events_loop e out_buf_size 0 dir prev_dir = Ret None"
| "find_events_loop e out_buf_size (Suc depth) dir prev_dir =
     (case check_events e out_buf_size (dir @ ''/../events'') of
        Some r \<Rightarrow> r
      | None \<Rightarrow>
         (case check_events e out_buf_size (dir @ ''/.nbs/events'') of
            Some r \<Rightarrow> r
          | None \<Rightarrow>
              if snprintf MAX_PATH_LEN dir = prev_dir then Ret None
              else find_events_loop e out_buf_size depth
                     (snprintf MAX_PATH_LEN (dirname (snprintf MAX_PATH_LEN dir))) (snprintf MAX_PATH_LEN dir)))"

definition bus_find_events_dir :: "bridge_env \<Rightarrow> string \<Rightarrow> nat \<Rightarrow> string option outcome" where
  "bus_find_events_dir e chat_path out_buf_size =
     ASSERT_MSG (out_buf_size > 0)
      (if length chat_path \<ge> MAX_PATH_LEN then Ret None
       else find_events_loop e out_buf_size MAX_DIR_WALK_DEPTH (dirname chat_path) [])"

section \<open>The participants of the chat\<close>

lemma next_participant_shorter:
  assumes "p = dropWhile (\<lambda>c. c = sp) line" "\<not> (line = [] \<or> room = (0::nat) \<or> p = [])"
    "p1 = dropWhile (\<lambda>c. c \<noteq> CHR ''('') p"
    "p2 = (if p1 = [] then [] else drop 1 (dropWhile (\<lambda>c. c \<noteq> CHR '')'') p1))"
    "p3 = (if take 1 p2 = '','' then drop 1 p2 else p2)"
  shows "length p3 < length line"
proof -
  have "length p1 \<le> length line" unfolding assms(3) assms(1) using length_dropWhile_le le_trans by metis
  moreover have "length (dropWhile (\<lambda>c. c \<noteq> CHR '')'') p1) \<le> length p1" by (rule length_dropWhile_le)
  moreover have "0 < length line" using assms(2) by blast
  ultimately have "length (drop 1 (dropWhile (\<lambda>c. c \<noteq> CHR '')'') p1)) < length line"
    unfolding length_drop by linarith
  then have "length p2 < length line" unfolding assms(4) using assms(2) by (cases "p1 = []") simp_all
  moreover have "length p3 \<le> length p2" unfolding assms(5) by simp
  ultimately show ?thesis by simp
qed

text \<open>The line after its prefix; \<open>room\<close> is what is left of the array.\<close>

function team_handles :: "nat \<Rightarrow> string \<Rightarrow> string list" where
  "team_handles room line =
     (let p = dropWhile (\<lambda>c. c = sp) line in
      if line = [] \<or> room = 0 \<or> p = [] then []
      else (let start = takeWhile (\<lambda>c. c \<noteq> CHR ''('') p;
                handle = rstrip (\<lambda>c. c = sp) start;
                p1 = dropWhile (\<lambda>c. c \<noteq> CHR ''('') p;
                p2 = (if p1 = [] then [] else drop 1 (dropWhile (\<lambda>c. c \<noteq> CHR '')'') p1));
                p3 = (if take 1 p2 = '','' then drop 1 p2 else p2)
            in if handle \<noteq> [] \<and> length handle < MAX_MENTION_HANDLE_LEN
               then handle # team_handles (room - 1) p3 else team_handles room p3))"
  by pat_completeness auto
termination
proof (relation "measure (\<lambda>(room, line). length line)", goal_cases)
  case (2 room line p start handle p1 p2 p3)
  show ?case using next_participant_shorter[OF 2(1,2,5,6,7)] by simp
next
  case (3 room line p start handle p1 p2 p3)
  show ?case using next_participant_shorter[OF 3(1,2,5,6,7)] by simp
qed simp

declare team_handles.simps [simp del]

text \<open>The lines of the header up to the separator; only the first participants line counts.\<close>

definition strip_newline :: "string \<Rightarrow> string" where
  "strip_newline line = (if line \<noteq> [] \<and> last line = nl then butlast line else line)"

fun header_handles :: "nat \<Rightarrow> string list \<Rightarrow> string list" where
  "header_handles max_handles [] = []"
| "header_handles max_handles (chunk # cs) =
     (let line = strip_newline (cstr chunk) in
      if line = ''---'' then []
      else if take 14 line \<noteq> ''participants: '' then header_handles max_handles cs
      else team_handles max_handles (drop 14 line))"

definition read_chat_participants :: "bridge_env \<Rightarrow> path \<Rightarrow> nat \<Rightarrow> fs \<Rightarrow> string list" where
  "read_chat_participants e chat_path max_handles s =
     (case (if br_open e then files s chat_path else None) of
        None \<Rightarrow> []
      | Some content \<Rightarrow> header_handles max_handles (fgets_all MAX_HEADER_LINE content))"

section \<open>Publishing\<close>

text \<open>
  The state is the number of publications so far and the events directory.  The child runs
  \<open>nbs-bus publish\<close>; the result is its success as the parent sees it.
\<close>

type_synonym bridge_state = "nat \<times> bus"

definition bridge_argv :: "string \<Rightarrow> string \<Rightarrow> string \<Rightarrow> string \<Rightarrow> string \<Rightarrow> string list" where
  "bridge_argv events_dir source ty priority payload =
     [''nbs-bus'', ''publish'', events_dir, source, ty, priority, payload, ''--dedup-window=0'']"

definition bridge_publish ::
  "bridge_env \<Rightarrow> string \<Rightarrow> string \<Rightarrow> string \<Rightarrow> string \<Rightarrow> string option \<Rightarrow> bridge_state \<Rightarrow> bool \<times> bridge_state" where
  "bridge_publish e events_dir source ty priority payload st =
     (case st of (k, b) \<Rightarrow>
       (let truncated_payload = (case payload of None \<Rightarrow> [] | Some t \<Rightarrow> snprintf MAX_PAYLOAD_LEN t) in
        if \<not> br_run e k (resolve_nbs_bus e) then (False, (Suc k, b))
        else (case cmd_publish (br_bus e k) (bridge_argv events_dir source ty priority truncated_payload) b of
                (r, b1) \<Rightarrow> (br_wait e k \<and> r = Ret 0, (Suc k, b1)))))"

definition event_kind :: "nat \<Rightarrow> string \<times> string" where
  "event_kind flag =
     (if flag = 1 then (''chat-interrupt'', ''critical'')
      else if flag = 2 then (''chat-query'', ''high'')
      else (''chat-mention'', ''high''))"

definition mention_payload :: "string \<Rightarrow> string \<Rightarrow> string \<Rightarrow> string" where
  "mention_payload target handle message = snprintf MAX_PAYLOAD_LEN (''@'' @ target @ '' from '' @ handle @ '': '' @ message)"

text \<open>One event for each participant but the sender and the sidecar.\<close>

fun publish_team ::
  "bridge_env \<Rightarrow> string \<Rightarrow> string \<Rightarrow> string \<Rightarrow> nat \<Rightarrow> string list \<Rightarrow> bridge_state \<Rightarrow> bridge_state" where
  "publish_team e events_dir handle message flag [] st = st"
| "publish_team e events_dir handle message flag (q # qs) st =
     (if q = handle \<or> q = ''sidecar'' then publish_team e events_dir handle message flag qs st
      else publish_team e events_dir handle message flag qs
             (snd (bridge_publish e events_dir ''nbs-chat'' (fst (event_kind flag)) (snd (event_kind flag))
                     (Some (mention_payload (take (MAX_MENTION_HANDLE_LEN - 1) q) handle message)) st)))"

fun publish_mentions ::
  "bridge_env \<Rightarrow> string \<Rightarrow> path \<Rightarrow> string \<Rightarrow> string \<Rightarrow> fs \<Rightarrow> (string \<times> nat) list \<Rightarrow> bridge_state \<Rightarrow> bridge_state" where
  "publish_mentions e events_dir chat_path handle message s [] st = st"
| "publish_mentions e events_dir chat_path handle message s ((target, flag) # ms) st =
     publish_mentions e events_dir chat_path handle message s ms
       (if target = ''team''
        then publish_team e events_dir handle message flag (read_chat_participants e chat_path MAX_PARTICIPANTS s) st
        else snd (bridge_publish e events_dir ''nbs-chat'' (snprintf 1152 (fst (event_kind flag) @ ''-'' @ target))
                    (snd (event_kind flag)) (Some (mention_payload target handle message)) st))"

definition bus_bridge_after_send ::
  "bridge_env \<Rightarrow> path \<Rightarrow> string \<Rightarrow> string \<Rightarrow> fs \<Rightarrow> bus \<Rightarrow> int outcome \<times> bus" where
  "bus_bridge_after_send e chat_path handle message s b =
     (if handle = [] then (Abort, b)
      else if message = [] then (Ret 0, b)
      else (case bus_find_events_dir e chat_path MAX_PATH_LEN of
        Abort \<Rightarrow> (Abort, b)
      | Ret None \<Rightarrow> (Ret 0, b)
      | Ret (Some events_dir) \<Rightarrow>
         (let payload = snprintf MAX_PAYLOAD_LEN (handle @ '': '' @ message);
              st = snd (bridge_publish e events_dir ''nbs-chat'' ''chat-message'' ''normal'' (Some payload) (0, b))
          in case bus_extract_mentions message MAX_MENTIONS of
               Abort \<Rightarrow> (Abort, snd st)
             | Ret mentions \<Rightarrow>
                 (Ret 0, snd (publish_mentions e events_dir chat_path handle message s mentions st)))))"

definition bus_bridge_human_input ::
  "bridge_env \<Rightarrow> path \<Rightarrow> string \<Rightarrow> string \<Rightarrow> bus \<Rightarrow> int outcome \<times> bus" where
  "bus_bridge_human_input e chat_path handle message b =
     (if handle = [] then (Abort, b)
      else if message = [] then (Ret 0, b)
      else (case bus_find_events_dir e chat_path MAX_PATH_LEN of
        Abort \<Rightarrow> (Abort, b)
      | Ret None \<Rightarrow> (Ret 0, b)
      | Ret (Some events_dir) \<Rightarrow>
          (Ret 0, snd (snd (bridge_publish e events_dir ''nbs-chat-terminal'' ''human-input'' ''high''
                              (Some (snprintf MAX_PAYLOAD_LEN (handle @ '': '' @ message))) (0, b))))))"

end
