(* ===== verification/ChatBridgeProps.thy ===== *)
theory ChatBridgeProps
  imports ChatBridge
begin

text \<open>
  Properties of the bridge: it never fails its caller, whatever fails in it; with nothing failing
  the events directory gains exactly one event for the message and one for everyone mentioned, in
  order.
\<close>

section \<open>The publications of a message\<close>

type_synonym publication = "string \<times> string \<times> string"

definition run_pub :: "bridge_env \<Rightarrow> string \<Rightarrow> publication \<Rightarrow> bridge_state \<Rightarrow> bridge_state" where
  "run_pub e events_dir pub st =
     (case pub of (ty, priority, payload) \<Rightarrow> snd (bridge_publish e events_dir ''nbs-chat'' ty priority (Some payload) st))"

definition mention_pubs :: "string \<Rightarrow> string \<Rightarrow> string list \<Rightarrow> string \<times> nat \<Rightarrow> publication list" where
  "mention_pubs handle message qs mention =
     (case mention of (target, flag) \<Rightarrow>
       if target = ''team''
       then map (\<lambda>q. (fst (event_kind flag), snd (event_kind flag), mention_payload (take 63 q) handle message))
              (filter (\<lambda>q. q \<noteq> handle \<and> q \<noteq> ''sidecar'') qs)
       else [(snprintf 1152 (fst (event_kind flag) @ ''-'' @ target), snd (event_kind flag), mention_payload target handle message)])"

definition bridge_pubs :: "string \<Rightarrow> string \<Rightarrow> string list \<Rightarrow> publication list" where
  "bridge_pubs handle message qs =
     (''chat-message'', ''normal'', snprintf MAX_PAYLOAD_LEN (handle @ '': '' @ message))
     # concat (map (mention_pubs handle message qs) (collect_mentions MAX_MENTIONS (mention_occurrences None message) []))"

lemma publish_team_run:
  "publish_team e events_dir handle message flag qs st
     = fold (run_pub e events_dir) (mention_pubs handle message qs (''team'', flag)) st"
  by (induction e events_dir handle message flag qs st rule: publish_team.induct)
     (auto simp: mention_pubs_def run_pub_def)

lemma publish_mention_run:
  "publish_mentions e events_dir chat_path handle message s ((target, flag) # ms) st
     = publish_mentions e events_dir chat_path handle message s ms
         (fold (run_pub e events_dir)
           (mention_pubs handle message (read_chat_participants e chat_path MAX_PARTICIPANTS s) (target, flag)) st)"
proof (cases "target = ''team''")
  case True
  then show ?thesis by (simp only: publish_mentions.simps publish_team_run) simp
next
  case False
  then show ?thesis by (simp add: mention_pubs_def run_pub_def)
qed

lemma publish_mentions_run:
  "publish_mentions e events_dir chat_path handle message s ms st
     = fold (run_pub e events_dir)
         (concat (map (mention_pubs handle message (read_chat_participants e chat_path MAX_PARTICIPANTS s)) ms)) st"
proof (induction ms arbitrary: st)
  case (Cons m ms)
  obtain target flag where "m = (target, flag)" by fastforce
  then show ?case using Cons by (simp only: publish_mention_run list.map concat.simps fold_append o_apply)
qed simp

lemma after_send_run:
  assumes "handle \<noteq> []" "message \<noteq> []" "bus_find_events_dir e p 4096 = Ret (Some events_dir)"
  shows "bus_bridge_after_send e p handle message s b
    = (Ret 0, snd (fold (run_pub e events_dir) (bridge_pubs handle message (read_chat_participants e p MAX_PARTICIPANTS s)) (0, b)))"
  using assms extract_mentions_collect[of 16 message]
  by (simp add: bus_bridge_after_send_def Let_def publish_mentions_run bridge_pubs_def run_pub_def[of _ _ "(_, _)"])

section \<open>One publication\<close>

text \<open>A type and a priority that the bus accepts, and a payload it does not take for an option.\<close>

definition pub_ok :: "publication \<Rightarrow> bool" where
  "pub_ok pub \<longleftrightarrow> (case pub of (ty, priority, payload) \<Rightarrow>
     event_word ty \<and> length ty < 80 \<and> bus_priority_from_str priority \<noteq> None \<and> take 2 payload \<noteq> ''--'' \<and> length payload < MAX_PAYLOAD_LEN)"

definition pub_priority :: "publication \<Rightarrow> bus_priority" where
  "pub_priority pub = (case bus_priority_from_str (fst (snd pub)) of Some p \<Rightarrow> p | None \<Rightarrow> Normal)"

lemma publish_argv:
  assumes "pub_ok (ty, priority, payload)"
  shows "publish_payload (bridge_argv events_dir source ty priority payload) = Some payload"
    "parse_dedup_window_opt (drop 6 (bridge_argv events_dir source ty priority payload)) w = 0"
proof -
  have p: "take 2 payload \<noteq> ''--''" using assms by (simp add: pub_ok_def)
  then show "publish_payload (bridge_argv events_dir source ty priority payload) = Some payload"
    by (simp add: bridge_argv_def publish_payload_def)
  have "take 15 payload \<noteq> ''--dedup-window=''"
  proof
    assume "take 15 payload = ''--dedup-window=''"
    then have "take 2 (take 15 payload) = ''--''" by simp
    then show False using p by simp
  qed
  moreover have "strtoll ''0'' = \<lparr>st_val = 0, st_end = [], st_noconv = False, st_erange = False\<rparr>" by code_simp
  ultimately show "parse_dedup_window_opt (drop 6 (bridge_argv events_dir source ty priority payload)) w = 0"
    by (simp add: bridge_argv_def)
qed

text \<open>The validation of the command line passes: what is left is the directory and its configuration.\<close>

lemma cmd_publish_bridge:
  assumes "pub_ok (ty, priority, payload)" "bus_priority_from_str priority = Some p"
  shows "cmd_publish be (bridge_argv events_dir ''nbs-chat'' ty priority payload) b =
    (if verify_events_dir be events_dir \<noteq> 0 then (Ret (verify_events_dir be events_dir), b)
     else (case bus_load_config be events_dir (pending b) of Abort \<Rightarrow> (Abort, b)
       | Ret (cfg_rc, cfg) \<Rightarrow> if cfg_rc \<noteq> 0 then (Ret 1, b)
           else (case bus_publish be events_dir ''nbs-chat'' ty (priority_num p) (Some payload) b of
                   (Abort, b1) \<Rightarrow> (Abort, b1)
                 | (Ret (rc, out), b1) \<Rightarrow> (Ret (if rc \<noteq> 0 then 1 else 0), b1))))"
proof -
  let ?a = "bridge_argv events_dir ''nbs-chat'' ty priority payload"
  have a: "?a ! 2 = events_dir" "?a ! 3 = ''nbs-chat''" "?a ! 4 = ty" "?a ! 5 = priority" "length ?a = 8"
    by (simp_all add: bridge_argv_def)
  have v: "validate_non_empty_no_whitespace ''nbs-chat''" by code_simp
  have t: "validate_non_empty_no_whitespace ty" "length ty < 128" "length payload < 16384"
    using assms(1) by (simp_all add: pub_ok_def event_word_def has_whitespace_def validate_non_empty_no_whitespace_def)
  have c: "cmd_publish be ?a b = (if verify_events_dir be events_dir \<noteq> 0 then (Ret (verify_events_dir be events_dir), b) else publish_run be ?a p b)"
    using v t assms(2) unfolding cmd_publish_def a publish_argv(1)[OF assms(1)] by simp
  have cfg: "dedup_window_s cfg \<le> 9223372036854" if "bus_load_config be events_dir (pending b) = Ret (rc, cfg)" for rc cfg
    using bus_load_config_ok[OF that] by (simp add: config_ok_def)
  have r: "publish_run be ?a p b = (case bus_load_config be events_dir (pending b) of Abort \<Rightarrow> (Abort, b)
       | Ret (cfg_rc, cfg) \<Rightarrow> if cfg_rc \<noteq> 0 then (Ret 1, b)
           else (case bus_publish be events_dir ''nbs-chat'' ty (priority_num p) (Some payload) b of
                   (Abort, b1) \<Rightarrow> (Abort, b1)
                 | (Ret (rc, out), b1) \<Rightarrow> (Ret (if rc \<noteq> 0 then 1 else 0), b1)))"
  proof (cases "bus_load_config be events_dir (pending b)")
    case (Ret x)
    obtain rc cf where x: "x = (rc, cf)" by fastforce
    have "dedup_window_s cf \<le> 9223372036854" using cfg Ret x by simp
    then show ?thesis unfolding publish_run_def a publish_argv[OF assms(1)] Ret x by (simp add: Let_def)
  qed (simp add: publish_run_def a)
  show ?thesis unfolding c r ..
qed

section \<open>What one publication does\<close>

text \<open>The entry written by the \<open>k\<close>-th publication, and the event a reader finds in it.\<close>

definition pub_entry :: "bridge_env \<Rightarrow> nat \<Rightarrow> publication \<Rightarrow> string \<times> node" where
  "pub_entry e k pub =
     (let be = br_bus e k; ts = the (be_now be); ty = fst pub in
      (event_filename ts ''nbs-chat'' ty (be_pid be),
       File (event_text ''nbs-chat'' ty (pub_priority pub) (the (be_time be)) (Some (snd (snd pub))))))"

definition pub_event :: "bridge_env \<Rightarrow> nat \<Rightarrow> publication \<Rightarrow> bus_event" where
  "pub_event e k pub = published_event (br_bus e k) (the (be_now (br_bus e k))) ''nbs-chat'' (fst pub) (pub_priority pub)"

definition stamped_names :: "int \<Rightarrow> string set" where
  "stamped_names ts = {n. (\<exists>src ty pid. n = event_filename ts src ty pid) \<or> (\<exists>pid. n = tmp_filename ts pid)}"

lemma stamped_names_in [simp]: "event_filename ts src ty pid \<in> stamped_names ts" "tmp_filename ts pid \<in> stamped_names ts"
  by (auto simp: stamped_names_def)

lemma tmp_filename_stamp: "tmp_filename a p = tmp_filename b q \<Longrightarrow> 0 \<le> a \<Longrightarrow> 0 \<le> b \<Longrightarrow> a = b"
proof -
  assume e: "tmp_filename a p = tmp_filename b q" and pos: "0 \<le> a" "0 \<le> b"
  have "takeWhile isdigit (drop 5 (tmp_filename c r)) = dec c" if "0 \<le> c" for c r
  proof -
    have "\<not> isdigit (CHR ''-'')" by (simp add: isdigit_def)
    then show ?thesis
      using takeWhile_stop[of "dec c" isdigit "CHR ''-''" "dec r @ ''.event''"] dec_digits[OF that] by (simp add: tmp_filename_def)
  qed
  then have "dec a = dec b" using e pos by metis
  then have "dec_nat (nat a) = dec_nat (nat b)" using pos by (simp add: dec_def)
  then have "digits_val 0 (dec_nat (nat a) @ []) = digits_val 0 (dec_nat (nat b) @ [])" by simp
  then show "a = b" using pos by (simp only: digits_val_dec_nat) simp
qed

lemma stamped_names_disjoint:
  assumes "0 < a" "a \<le> LLONG_MAX" "0 < b" "b \<le> LLONG_MAX" "a \<noteq> b"
  shows "stamped_names a \<inter> stamped_names b = {}"
proof -
  have 1: "event_filename a s t p \<noteq> event_filename b s' t' p'" for s t p s' t' p'
    using parse_event_filename[OF assms(1,2), of s t p] parse_event_filename[OF assms(3,4), of s' t' p'] assms(5)
    by (metis option.inject outcome.inject)
  have 2: "event_filename a s t p \<noteq> tmp_filename b q" "tmp_filename a q \<noteq> event_filename b s t p" for s t p q
    using event_filename_not_tmp[OF assms(1,2)] event_filename_not_tmp[OF assms(3,4)] by metis+
  have 3: "tmp_filename a p \<noteq> tmp_filename b q" for p q
    using tmp_filename_stamp[of a p b q] assms by linarith
  have False if n: "n \<in> stamped_names a" "n \<in> stamped_names b" for n
  proof -
    from n(1) consider s t p where "n = event_filename a s t p" | p where "n = tmp_filename a p"
      unfolding stamped_names_def by blast
    then show False
    proof cases
      case e: 1
      from n(2) consider s' t' p' where "n = event_filename b s' t' p'" | p' where "n = tmp_filename b p'"
        unfolding stamped_names_def by blast
      then show False by cases (use e 1 2 in simp_all)
    next
      case e: 2
      from n(2) consider s' t' p' where "n = event_filename b s' t' p'" | p' where "n = tmp_filename b p'"
        unfolding stamped_names_def by blast
      then show False by cases (use e 2 3 in simp_all)
    qed
  qed
  then show ?thesis by blast
qed

lemma entry_names: "fst ` set d = dom (map_of d)"
  by (simp add: dom_map_of_conv_image_fst)

lemma tmp_left_names: "tmp_left tmp d d' \<Longrightarrow> fst ` set d' \<subseteq> insert tmp (fst ` set d)"
  unfolding entry_names tmp_left_def by (auto split: if_splits)

lemma renamed_names: "fst ` set (renamed tmp name text d) \<subseteq> insert name (insert tmp (fst ` set d))"
  unfolding entry_names map_of_renamed by (auto split: if_splits)

lemma bus_publish_step:
  assumes "bus_publish be events_dir source ty priority payload b = (r, b')" "be_now be = Some ts"
  shows "fst ` set (pending b') \<subseteq> fst ` set (pending b) \<union> stamped_names ts"
proof (cases rule: bus_publish_cases[of be events_dir source ty priority payload b])
  case (failed r1 b1 ts1 d)
  have b': "pending b' = d" using failed(1) assms(1) by simp
  show ?thesis
  proof (cases "d = pending b")
    case False
    then have ts: "ts1 = ts" using failed(5) assms(2) by simp
    have "fst ` set d \<subseteq> insert (tmp_filename ts (be_pid be)) (fst ` set (pending b))"
      using tmp_left_names[OF failed(4)] unfolding ts .
    moreover have "insert (tmp_filename ts (be_pid be)) (fst ` set (pending b)) \<subseteq> fst ` set (pending b) \<union> stamped_names ts"
      by simp
    ultimately show ?thesis unfolding b' by (rule order_trans)
  qed (simp add: b')
next
  case (published b1 ts1 iso_time p)
  have ts: "ts1 = ts" using published(3) assms(2) by simp
  have b': "pending b' = renamed (tmp_filename ts (be_pid be)) (event_filename ts source ty (be_pid be))
      (event_text source ty p iso_time payload) (pending b)" using published(1) assms(1) ts by auto
  have "insert (event_filename ts source ty (be_pid be)) (insert (tmp_filename ts (be_pid be)) (fst ` set (pending b)))
      \<subseteq> fst ` set (pending b) \<union> stamped_names ts" by simp
  then show ?thesis unfolding b' by (rule order_trans[OF renamed_names])
qed

section \<open>Sequences of publications\<close>

text \<open>
  The clock of the publications \<open>k, \<dots>, n - 1\<close>: positive times, each its own, none of them in the
  name of a file that is there.
\<close>

definition bridge_clock :: "bridge_env \<Rightarrow> nat \<Rightarrow> nat \<Rightarrow> (nat \<Rightarrow> int) \<Rightarrow> bus \<Rightarrow> bool" where
  "bridge_clock e k n t b \<longleftrightarrow>
     (\<forall>j. k \<le> j \<and> j < n \<longrightarrow> be_now (br_bus e j) = Some (t j) \<and> 0 < t j \<and> t j \<le> LLONG_MAX
        \<and> fst ` set (pending b) \<inter> stamped_names (t j) = {})
     \<and> (\<forall>i j. k \<le> i \<and> i < j \<and> j < n \<longrightarrow> t i < t j)"

fun bridge_events :: "bridge_env \<Rightarrow> nat \<Rightarrow> publication list \<Rightarrow> bus_event list" where
  "bridge_events e k [] = []"
| "bridge_events e k (pub # pubs) = pub_event e k pub # bridge_events e (Suc k) pubs"

fun bridge_entries :: "bridge_env \<Rightarrow> nat \<Rightarrow> publication list \<Rightarrow> dir" where
  "bridge_entries e k [] = []"
| "bridge_entries e k (pub # pubs) = pub_entry e k pub # bridge_entries e (Suc k) pubs"

definition reader_ok :: "bus_env \<Rightarrow> bool" where
  "reader_ok e \<longleftrightarrow> (\<forall>n. be_open e n \<and> \<not> be_ioerr e n)"

lemma source_word: "event_word ''nbs-chat''"
  by code_simp

lemma pub_args:
  assumes "pub_ok (ty, priority, payload)"
  shows "bus_priority_from_str priority = Some (pub_priority (ty, priority, payload))" "event_word ty"
  using assms by (auto simp: pub_ok_def pub_priority_def)

lemma run_pub_state:
  assumes "pub_ok pub"
  obtains b' where "run_pub e events_dir pub (k, b) = (Suc k, b')"
    "b' = b \<or> (\<exists>r. bus_publish (br_bus e k) events_dir ''nbs-chat'' (fst pub) (priority_num (pub_priority pub)) (Some (snd (snd pub))) b = (r, b'))"
proof -
  obtain ty priority payload where pub: "pub = (ty, priority, payload)" by (cases pub)
  let ?p = "pub_priority pub"
  let ?c = "cmd_publish (br_bus e k) (bridge_argv events_dir ''nbs-chat'' ty priority payload) b"
  have pl: "snprintf MAX_PAYLOAD_LEN payload = payload" using assms by (simp add: pub pub_ok_def snprintf_id)
  note a = pub_args[OF assms[unfolded pub], folded pub]
  have "snd ?c = b \<or> (\<exists>r. bus_publish (br_bus e k) events_dir ''nbs-chat'' ty (priority_num ?p) (Some payload) b = (r, snd ?c))"
    unfolding cmd_publish_bridge[OF assms[unfolded pub] a(1)] by (auto split: outcome.splits prod.splits)
  then show thesis
    using that[of b] that[of "snd ?c"] pl by (cases "br_run e k (resolve_nbs_bus e)")
      (auto simp: run_pub_def bridge_publish_def pub split: prod.splits)
qed

lemma run_pub_sound:
  assumes "pub_ok pub" "bridge_clock e k n t b" "k < n" "reader_ok e2"
  obtains b' where "run_pub e events_dir pub (k, b) = (Suc k, b')"
    "events_of e2 events_dir (pending b') = events_of e2 events_dir (pending b)
      \<or> events_of e2 events_dir (pending b') = events_of e2 events_dir (pending b) @ [pub_event e k pub]"
    "bridge_clock e (Suc k) n t b'"
proof -
  have now: "be_now (br_bus e k) = Some (t k)" "0 < t k" "t k \<le> LLONG_MAX"
      "fst ` set (pending b) \<inter> stamped_names (t k) = {}"
    using assms(2,3) by (auto simp: bridge_clock_def)
  have w: "event_word (fst pub)" using pub_args(2)[of "fst pub" "fst (snd pub)" "snd (snd pub)"] assms(1) by simp
  obtain b' where b': "run_pub e events_dir pub (k, b) = (Suc k, b')"
    "b' = b \<or> (\<exists>r. bus_publish (br_bus e k) events_dir ''nbs-chat'' (fst pub) (priority_num (pub_priority pub)) (Some (snd (snd pub))) b = (r, b'))"
    by (rule run_pub_state[OF assms(1)])
  have names: "fst ` set (pending b') \<subseteq> fst ` set (pending b) \<union> stamped_names (t k)"
    using b'(2) bus_publish_step[OF _ now(1)] by blast
  have "bridge_clock e (Suc k) n t b'"
    unfolding bridge_clock_def
  proof (intro conjI allI impI)
    fix j assume j: "Suc k \<le> j \<and> j < n"
    have old: "fst ` set (pending b) \<inter> stamped_names (t j) = {}" "0 < t j" "t j \<le> LLONG_MAX" "t k < t j"
      using assms(2) j by (auto simp: bridge_clock_def)
    have "stamped_names (t k) \<inter> stamped_names (t j) = {}"
      by (rule stamped_names_disjoint) (use now old in simp_all)
    then show "fst ` set (pending b') \<inter> stamped_names (t j) = {}" using names old(1) by blast
    show "be_now (br_bus e j) = Some (t j)" "0 < t j" "t j \<le> LLONG_MAX" using assms(2) j by (auto simp: bridge_clock_def)
  qed (use assms(2) in \<open>auto simp: bridge_clock_def\<close>)
  moreover have "events_of e2 events_dir (pending b') = events_of e2 events_dir (pending b)
      \<or> events_of e2 events_dir (pending b') = events_of e2 events_dir (pending b) @ [pub_event e k pub]"
  proof (cases "b' = b")
    case False
    then obtain r where r: "bus_publish (br_bus e k) events_dir ''nbs-chat'' (fst pub) (priority_num (pub_priority pub)) (Some (snd (snd pub))) b = (r, b')"
      using b'(2) by blast
    have f: "event_filename (t k) ''nbs-chat'' (fst pub) (be_pid (br_bus e k)) \<notin> fst ` set (pending b)"
      using now(4) stamped_names_in(1) by blast
    show ?thesis
      using publish_events[OF r source_word w now(1-3) priority_of_num f, of e2] assms(4) now(1)
      by (auto simp: reader_ok_def pub_event_def)
  qed simp
  ultimately show thesis using that b'(1) by blast
qed

text \<open>Whatever fails, the events found afterwards are those of before and some of the intended ones.\<close>

lemma run_pubs_sound:
  "list_all pub_ok pubs \<Longrightarrow> bridge_clock e k n t b \<Longrightarrow> k + length pubs \<le> n \<Longrightarrow> reader_ok e2 \<Longrightarrow>
   \<exists>sent. subseq sent (bridge_events e k pubs)
     \<and> events_of e2 events_dir (pending (snd (fold (run_pub e events_dir) pubs (k, b)))) = events_of e2 events_dir (pending b) @ sent"
proof (induction pubs arbitrary: k b)
  case (Cons pub pubs)
  obtain b' where b': "run_pub e events_dir pub (k, b) = (Suc k, b')"
    "events_of e2 events_dir (pending b') = events_of e2 events_dir (pending b)
      \<or> events_of e2 events_dir (pending b') = events_of e2 events_dir (pending b) @ [pub_event e k pub]"
    "bridge_clock e (Suc k) n t b'"
    by (rule run_pub_sound[of pub e k n t b e2 events_dir]) (use Cons.prems in simp_all)
  obtain sent where s: "subseq sent (bridge_events e (Suc k) pubs)"
    "events_of e2 events_dir (pending (snd (fold (run_pub e events_dir) pubs (Suc k, b')))) = events_of e2 events_dir (pending b') @ sent"
    using Cons.IH[OF _ b'(3)] Cons.prems by auto
  from b'(2) show ?case
  proof
    assume "events_of e2 events_dir (pending b') = events_of e2 events_dir (pending b)"
    then show ?thesis using s b'(1) list_emb_Cons[OF s(1)] by (intro exI[of _ sent]) simp
  next
    assume "events_of e2 events_dir (pending b') = events_of e2 events_dir (pending b) @ [pub_event e k pub]"
    then show ?thesis using s b'(1) by (intro exI[of _ "pub_event e k pub # sent"]) simp
  qed
qed simp

section \<open>With nothing failing\<close>

definition bus_env_good :: "bus_env \<Rightarrow> bool" where
  "bus_env_good e \<longleftrightarrow> be_isdir e \<and> be_mkdir e \<and> be_time e \<noteq> None \<and> 0 \<le> be_pid e \<and> be_pid e \<le> 4194304
     \<and> be_create e \<and> be_written e \<and> (\<forall>n. be_rename e n) \<and> be_print e 0 \<and> \<not> be_ioerr e ''config.yaml''"

definition bridge_good :: "bridge_env \<Rightarrow> nat \<Rightarrow> bool" where
  "bridge_good e n \<longleftrightarrow> (\<forall>k < n. br_run e k (resolve_nbs_bus e) \<and> br_wait e k \<and> bus_env_good (br_bus e k))"

lemma bus_publish_good:
  assumes "bus_env_good be" "be_now be = Some ts" "0 < ts" "ts \<le> LLONG_MAX" "length events_dir < 4096"
    and "event_word source" "event_word ty" "CHR ''/'' \<notin> set source" "CHR ''/'' \<notin> set ty"
    and "fst ` set (pending b) \<inter> stamped_names ts = {}"
  shows "\<exists>b'. bus_publish be events_dir source ty (priority_num p) payload b = (Ret (0, [event_filename ts source ty (be_pid be)]), b')
    \<and> pending b' = pending b @ [(event_filename ts source ty (be_pid be), File (event_text source ty p (the (be_time be)) payload))]"
proof -
  let ?f = "event_filename ts source ty (be_pid be)" and ?t = "tmp_filename ts (be_pid be)"
  obtain stamp where stamp: "be_time be = Some stamp" using assms(1) by (auto simp: bus_env_good_def)
  have l: "length (dec ts) \<le> 19" "length (dec (be_pid be)) \<le> 19"
    using assms(1,3,4) by (auto intro!: length_dec_int64 simp: bus_env_good_def)
  have paths: "length ?f < 512" "tmp_path_ok events_dir ?t" "pending_path_ok events_dir ?f" "processed_dir_ok events_dir"
    using assms(5-7) l by (simp_all add: length_event_filename length_tmp_filename tmp_path_ok_def pending_path_ok_def
        processed_dir_ok_def event_word_def)
  have "CHR ''/'' \<notin> set (dec ts)" "CHR ''/'' \<notin> set (dec (be_pid be))" by (rule dec_not_in; simp add: isdigit_def)+
  then have slash: "CHR ''/'' \<notin> set ?f" using assms(8,9) by (simp add: event_filename_def)
  have fresh: "?f \<notin> fst ` set (pending b)" "?t \<notin> fst ` set (pending b)" using assms(10) stamped_names_in[of ts] by blast+
  have ne: "?f \<noteq> ?t" by (rule event_filename_not_tmp[OF assms(3,4)])
  have args: "publish_args_ok source ty (priority_num p)"
    using assms(6,7) by (cases p) (simp_all add: publish_args_ok_def event_word_def)
  obtain b1 where b1: "ensure_processed be b = Some b1" "pending b1 = pending b"
    using assms(1) by (cases "processed b") (auto simp: ensure_processed_def bus_env_good_def)
  have d: "remove_entry ?t (pending b @ [(?t, x)]) = pending b" for x
    using fresh(2) by (auto simp: AList.delete_eq filter_id_conv image_iff split: prod.splits)
  show ?thesis
    using assms(1,2) stamp args b1 paths slash fresh ne d[of "File (event_text source ty p stamp payload)"]
    by (auto simp: bus_publish_def Let_def publish_write_def bus_env_good_def update_fresh)
qed

lemma run_pub_good:
  assumes "pub_ok pub" "CHR ''/'' \<notin> set (fst pub)" "bridge_clock e k n t b" "k < n" "bridge_good e n"
    and "length events_dir < 4096" "map_of (pending b) ''config.yaml'' \<noteq> Some Subdir"
  obtains b' where "run_pub e events_dir pub (k, b) = (Suc k, b')" "pending b' = pending b @ [pub_entry e k pub]"
proof -
  obtain ty priority payload where pub: "pub = (ty, priority, payload)" by (cases pub)
  let ?p = "pub_priority pub" and ?be = "br_bus e k"
  have now: "be_now ?be = Some (t k)" "0 < t k" "t k \<le> LLONG_MAX" "fst ` set (pending b) \<inter> stamped_names (t k) = {}"
    using assms(3,4) by (auto simp: bridge_clock_def)
  have be: "bus_env_good ?be" "br_run e k (resolve_nbs_bus e)" "br_wait e k" using assms(4,5) by (simp_all add: bridge_good_def)
  have pl: "snprintf MAX_PAYLOAD_LEN payload = payload" using assms(1) by (simp add: pub pub_ok_def snprintf_id)
  note a = pub_args[OF assms(1)[unfolded pub], folded pub]
  have ns: "CHR ''/'' \<notin> set ''nbs-chat''" by simp
  obtain b' where b': "bus_publish ?be events_dir ''nbs-chat'' ty (priority_num ?p) (Some payload) b
      = (Ret (0, [event_filename (t k) ''nbs-chat'' ty (be_pid ?be)]), b')"
    "pending b' = pending b @ [(event_filename (t k) ''nbs-chat'' ty (be_pid ?be), File (event_text ''nbs-chat'' ty ?p (the (be_time ?be)) (Some payload)))]"
    using bus_publish_good[OF be(1) now(1-3) assms(6) source_word a(2) ns, of b ?p "Some payload"] assms(2) now(4) pub by auto
  have cfg: "\<exists>cfg. bus_load_config ?be events_dir (pending b) = Ret (0, cfg)"
    using assms(6,7) be(1) by (auto simp: bus_load_config_def bus_env_good_def split: option.splits node.splits)
  have ver: "verify_events_dir ?be events_dir = 0" using assms(6) be(1) by (simp add: verify_events_dir_def bus_env_good_def)
  have "cmd_publish ?be (bridge_argv events_dir ''nbs-chat'' ty priority payload) b = (Ret 0, b')"
    unfolding cmd_publish_bridge[OF assms(1)[unfolded pub] a(1)] using cfg ver b'(1) by auto
  then have "run_pub e events_dir pub (k, b) = (Suc k, b')"
    using be pl by (simp add: run_pub_def bridge_publish_def pub)
  moreover have "pending b' = pending b @ [pub_entry e k pub]" using b'(2) now(1) by (simp add: pub_entry_def pub Let_def)
  ultimately show thesis using that by blast
qed

lemma pub_entry_name: "be_now (br_bus e k) = Some ts \<Longrightarrow> fst (pub_entry e k pub) \<in> stamped_names ts"
  by (simp add: pub_entry_def Let_def)

lemma pub_entry_file: "snd (pub_entry e k pub) \<noteq> Subdir"
  by (simp add: pub_entry_def Let_def)

lemma bridge_clock_next:
  assumes "bridge_clock e k n t b" "k < n" "pending b' = pending b @ [pub_entry e k pub]"
  shows "bridge_clock e (Suc k) n t b'"
  unfolding bridge_clock_def
proof (intro conjI allI impI)
  fix j assume j: "Suc k \<le> j \<and> j < n"
  have now: "be_now (br_bus e k) = Some (t k)" "0 < t k" "t k \<le> LLONG_MAX" using assms(1,2) by (auto simp: bridge_clock_def)
  have old: "fst ` set (pending b) \<inter> stamped_names (t j) = {}" "0 < t j" "t j \<le> LLONG_MAX" "t k < t j"
    using assms(1) j by (auto simp: bridge_clock_def)
  have "stamped_names (t k) \<inter> stamped_names (t j) = {}"
    by (rule stamped_names_disjoint) (use now old in simp_all)
  then show "fst ` set (pending b') \<inter> stamped_names (t j) = {}"
    using pub_entry_name[OF now(1), of pub] old(1) assms(3) by auto
  show "be_now (br_bus e j) = Some (t j)" "0 < t j" "t j \<le> LLONG_MAX" using assms(1) j by (auto simp: bridge_clock_def)
qed (use assms(1) in \<open>auto simp: bridge_clock_def\<close>)

lemma run_pubs_good:
  "list_all pub_ok pubs \<Longrightarrow> \<forall>pub \<in> set pubs. CHR ''/'' \<notin> set (fst pub) \<Longrightarrow> bridge_clock e k n t b \<Longrightarrow>
   k + length pubs \<le> n \<Longrightarrow> bridge_good e n \<Longrightarrow> length events_dir < 4096 \<Longrightarrow> map_of (pending b) ''config.yaml'' \<noteq> Some Subdir \<Longrightarrow>
   pending (snd (fold (run_pub e events_dir) pubs (k, b))) = pending b @ bridge_entries e k pubs"
proof (induction pubs arbitrary: k b)
  case (Cons pub pubs)
  obtain b' where b': "run_pub e events_dir pub (k, b) = (Suc k, b')" "pending b' = pending b @ [pub_entry e k pub]"
    by (rule run_pub_good[of pub e k n t b events_dir]) (use Cons.prems in simp_all)
  have c: "bridge_clock e (Suc k) n t b'" using bridge_clock_next[OF Cons.prems(3) _ b'(2)] Cons.prems(4) by simp
  have "map_of (pending b') ''config.yaml'' \<noteq> Some Subdir"
    using b'(2) Cons.prems(7) pub_entry_file[of e k pub]
    by (cases "pub_entry e k pub") (auto simp: map_add_def split: option.splits)
  from Cons.IH[OF _ _ c _ Cons.prems(5,6) this] show ?case using Cons.prems b' by simp
qed simp

section \<open>The team\<close>

lemma team_handles_step:
  assumes "clean_participant q" "r = [] \<or> take 1 r = '',''" "pre = [] \<or> pre = [sp]"
  shows "team_handles (Suc room) (pre @ format_participant q @ r) = p_handle q # team_handles room (drop 1 r)"
proof -
  let ?h = "p_handle q"
  have h: "?h \<noteq> []" "CHR ''('' \<notin> set ?h" "sp \<notin> set ?h" "length ?h < 64" "0 \<le> p_count q"
    using assms(1) by (auto simp: clean_participant_def clean_handle_def)
  have nd: "CHR '')'' \<notin> set (CHR ''('' # dec (p_count q))" by (simp add: dec_not_in isdigit_def)
  obtain c hs where c: "?h = c # hs" "c \<noteq> sp" using h(1,3) by (cases ?h) auto
  have p: "dropWhile (\<lambda>c. c = sp) (pre @ format_participant q @ r) = ?h @ CHR ''('' # dec (p_count q) @ CHR '')'' # r"
    using assms(3) c by (auto simp: format_participant_def)
  have st: "takeWhile (\<lambda>c. c \<noteq> CHR ''('') (?h @ CHR ''('' # dec (p_count q) @ CHR '')'' # r) = ?h"
    "dropWhile (\<lambda>c. c \<noteq> CHR ''('') (?h @ CHR ''('' # dec (p_count q) @ CHR '')'' # r) = CHR ''('' # dec (p_count q) @ CHR '')'' # r"
    by (rule takeWhile_before[OF h(2)], rule dropWhile_before[OF h(2)])
  have en: "dropWhile (\<lambda>c. c \<noteq> CHR '')'') (dec (p_count q) @ CHR '')'' # r) = CHR '')'' # r"
    using nd by (intro dropWhile_before) simp
  have rs: "rstrip (\<lambda>c. c = sp) ?h = ?h" by (rule rstrip_idem_set) (use h(3) in auto)
  obtain line where l: "line = pre @ format_participant q @ r" by simp
  have ne: "line \<noteq> []" by (simp add: l format_participant_def)
  have q: "take (Suc 0) r = '','' \<or> r = []" using assms(2) by auto
  have "team_handles (Suc room) line = p_handle q # team_handles room (drop 1 r)"
    using q by (subst team_handles.simps) (auto simp: p[folded l] st en rs ne h Let_def)
  then show ?thesis by (simp only: l)
qed

lemma team_handles_join:
  "list_all clean_participant qs \<Longrightarrow> length qs \<le> room \<Longrightarrow> pre = [] \<or> pre = [sp] \<Longrightarrow>
   team_handles room (pre @ join_participants qs) = map p_handle qs"
proof (induction qs arbitrary: room pre)
  case Nil
  then show ?case by (subst team_handles.simps) auto
next
  case (Cons q qs)
  obtain m where m: "room = Suc m" using Cons.prems(2) by (cases room) auto
  let ?r = "if qs = [] then [] else '', '' @ join_participants qs"
  have "team_handles room (pre @ format_participant q @ ?r) = p_handle q # team_handles m (drop 1 ?r)"
    unfolding m by (rule team_handles_step) (use Cons.prems in auto)
  moreover have "team_handles m (drop 1 ?r) = map p_handle qs"
    using Cons.IH[of m "[]"] Cons.IH[of m "[sp]"] Cons.prems m by (cases "qs = []") auto
  ultimately show ?case by (simp only: join_participants_Cons list.map)
qed

lemma header_handles_line:
  "no_nul l \<Longrightarrow> header_handles m ((l @ [nl]) # cs)
     = (if l = ''---'' then [] else if take 14 l \<noteq> ''participants: '' then header_handles m cs
        else team_handles m (drop 14 l))"
  by (simp add: cstr_line strip_newline_def)

text \<open>For a chat file as \<open>chat_send\<close> leaves it, the bridge reads the participants of its header.\<close>

lemma read_chat_participants_content:
  assumes "br_open e" "files s p = Some c" "is_chat_content c lw lt (join_participants qs) body"
    and "list_all clean_participant qs" "length qs \<le> 52"
  shows "read_chat_participants e p 256 s = map p_handle qs"
proof -
  obtain n where n0: "n = int (length c)" by simp
  let ?ps = "join_participants qs" and ?n = n
  let ?hdr = "[''=== nbs-chat ==='', ''last-writer: '' @ lw, ''last-write: '' @ lt, ''file-length: '' @ dec ?n, ''participants: '' @ ?ps, ''---'']"
  have h: "field_ok lw" "length lw < 64" "field_ok lt" "length lt < 64" "?n \<le> LLONG_MAX"
    using assms(3) n0 by (auto simp: is_chat_content_def header_ok_def)
  have ps: "field_ok ?ps" "length ?ps \<le> 4056"
    using join_participants_field[OF assms(4)] join_participants_length[OF assms(4)] assms(5) by simp_all
  have n: "length (dec ?n) \<le> 19" "nl \<notin> set (dec ?n)"
    using h(5) length_dec_int64[of ?n] dec_not_in[of nl ?n] n0 by (simp_all add: isdigit_def)
  have c: "c = unlines ?hdr @ unlines body" using assms(3) unfolding is_chat_content_def file_lines_def n0[symmetric] by simp
  have "fits_line 8192 l" if "l \<in> set ?hdr" for l
    using that h ps n by (auto simp: fits_line_def field_ok_def)
  then have "fgets_all MAX_HEADER_LINE c = map (\<lambda>l. l @ [nl]) ?hdr @ fgets_all 8192 (unlines body)"
    unfolding c by (intro fgets_all_lines) blast
  moreover have nn: "no_nul l" if "l \<in> set ?hdr" for l
    using that h ps by (auto simp: field_ok_def)
  have "header_handles 256 (map (\<lambda>l. l @ [nl]) ?hdr @ cs) = team_handles 256 (drop 14 (''participants: '' @ ?ps))" for cs
    unfolding list.map append_Cons[of "_ @ _"] append_Nil
    by (subst header_handles_line, rule nn, simp)+ simp
  ultimately have "read_chat_participants e p 256 s = team_handles 256 (drop 14 (''participants: '' @ ?ps))"
    using assms(1,2) by (simp only: read_chat_participants_def option.case if_True)
  also have "\<dots> = map p_handle qs" using team_handles_join[OF assms(4), of 256 "[]"] assms(5) by simp
  finally show ?thesis .
qed

section \<open>The publications are proper\<close>

lemma handle_char_plain:
  assumes "is_handle_char c"
  shows "c \<noteq> nul" "\<not> isspace c" "c \<noteq> CHR ''/''"
  using assms by (auto simp: is_handle_char_def isalnum_def isdigit_def isspace_def)

lemma collected_handle:
  assumes "(h, f) \<in> set (collect_mentions n (mention_occurrences prev m) [])"
  shows "h \<noteq> [] \<and> length h < 64 \<and> list_all is_handle_char h"
proof -
  have "set (map fst (collect_mentions n occ [])) \<subseteq> set (map fst occ)" for occ :: "(string \<times> nat) list"
    using collect_fst[of "[]" n occ] firsts_props[of "[]" "map fst occ"] by (auto dest: in_set_takeD)
  then have "h \<in> fst ` set (mention_occurrences prev m)" using assms by force
  then obtain g where "(h, g) \<in> set (mention_occurrences prev m)" by auto
  then show ?thesis by (auto simp: mention_occurrences_iff mention_at_def)
qed

lemma event_kind_type: "event_word (fst (event_kind f))" "length (fst (event_kind f)) \<le> 14" "CHR ''/'' \<notin> set (fst (event_kind f))"
    "bus_priority_from_str (snd (event_kind f)) \<noteq> None"
  by (auto simp: event_kind_def event_word_def has_whitespace_def isspace_def bus_priority_from_str_def priority_names_def)

lemma event_type_target:
  assumes "event_word k" "length k \<le> 14" "CHR ''/'' \<notin> set k" "list_all is_handle_char h" "length h < 64"
  shows "snprintf 1152 (k @ ''-'' @ h) = k @ ''-'' @ h" "event_word (k @ ''-'' @ h)" "length (k @ ''-'' @ h) < 80"
    "CHR ''/'' \<notin> set (k @ ''-'' @ h)"
proof -
  show "snprintf 1152 (k @ ''-'' @ h) = k @ ''-'' @ h" using assms by (intro snprintf_id) simp
  have "list_all (\<lambda>c. c \<noteq> nul \<and> \<not> isspace c \<and> c \<noteq> CHR ''/'') h" using assms(4) handle_char_plain by (auto simp: list_all_iff)
  then show "event_word (k @ ''-'' @ h)" "length (k @ ''-'' @ h) < 80" "CHR ''/'' \<notin> set (k @ ''-'' @ h)"
    using assms by (auto simp: event_word_def has_whitespace_def list_ex_iff list_all_iff no_nul_def isspace_def)
qed

lemma payload_at: "take 2 (mention_payload q handle message) \<noteq> ''--''" "length (mention_payload q handle message) < 2048"
  by (auto simp: mention_payload_def snprintf_def)

lemma mention_pubs_ok:
  assumes "h \<noteq> [] \<and> length h < 64 \<and> list_all is_handle_char h" "pub \<in> set (mention_pubs handle message qs (h, f))"
  shows "pub_ok pub" "CHR ''/'' \<notin> set (fst pub)"
  using assms payload_at event_kind_type[of f] event_type_target[OF event_kind_type(1-3)[of f], of h]
  by (auto simp: mention_pubs_def pub_ok_def split: if_splits)

lemma bridge_pubs_ok:
  assumes "take 2 handle \<noteq> ''--''" "handle \<noteq> []" "pub \<in> set (bridge_pubs handle message qs)"
  shows "pub_ok pub" "CHR ''/'' \<notin> set (fst pub)"
proof -
  let ?pl = "snprintf MAX_PAYLOAD_LEN (handle @ '': '' @ message)"
  have "take 2 ?pl \<noteq> ''--''"
    using assms(1,2) by (cases handle; cases "tl handle") (auto simp: snprintf_def)
  moreover have "length ?pl < 2048" by (simp add: snprintf_def)
  moreover have "event_word ''chat-message''" "bus_priority_from_str ''normal'' \<noteq> None" by code_simp+
  ultimately have "pub_ok (''chat-message'', ''normal'', ?pl)" by (simp add: pub_ok_def)
  then have first: "pub_ok (''chat-message'', ''normal'', ?pl) \<and> CHR ''/'' \<notin> set (fst (''chat-message'', ''normal'', ?pl))"
    by simp
  have "pub_ok pub \<and> CHR ''/'' \<notin> set (fst pub)"
  proof (cases "pub = (''chat-message'', ''normal'', ?pl)")
    case True
    then show ?thesis using first by simp
  next
    case False
    then obtain h f where "(h, f) \<in> set (collect_mentions MAX_MENTIONS (mention_occurrences None message) [])"
        "pub \<in> set (mention_pubs handle message qs (h, f))"
      using assms(3) by (auto simp: bridge_pubs_def)
    then show ?thesis using mention_pubs_ok[OF collected_handle] by blast
  qed
  then show "pub_ok pub" "CHR ''/'' \<notin> set (fst pub)" by blast+
qed

section \<open>What the bridge guarantees\<close>

text \<open>\<open>realpath\<close> returns absolute paths.\<close>

definition realpath_absolute :: "bridge_env \<Rightarrow> bool" where
  "realpath_absolute e \<longleftrightarrow> (\<forall>p r. br_realpath e p = Some r \<longrightarrow> take 1 r = ''/'')"

lemma check_events_outcome:
  "realpath_absolute e \<Longrightarrow> check_events e n p = Some r \<Longrightarrow> r \<noteq> Abort \<and> (\<forall>d. r = Ret (Some d) \<longrightarrow> length d < n)"
  by (auto simp: check_events_def realpath_absolute_def split: option.splits if_splits)

lemma find_events_outcome:
  "realpath_absolute e \<Longrightarrow> find_events_loop e n depth dir prev \<noteq> Abort
     \<and> (\<forall>d. find_events_loop e n depth dir prev = Ret (Some d) \<longrightarrow> length d < n)"
proof (induction depth arbitrary: dir prev)
  case (Suc depth)
  show ?case
    using Suc.IH[OF Suc.prems] check_events_outcome[OF Suc.prems, of n "dir @ ''/../events''"]
      check_events_outcome[OF Suc.prems, of n "dir @ ''/.nbs/events''"]
    by (auto split: option.splits)
qed simp

lemma find_events_dir_outcome:
  assumes "realpath_absolute e" "0 < n"
  shows "bus_find_events_dir e p n \<noteq> Abort" "bus_find_events_dir e p n = Ret (Some d) \<Longrightarrow> length d < n"
  using find_events_outcome[OF assms(1)] assms(2) by (auto simp: bus_find_events_dir_def split: if_splits)

text \<open>C19: The bridge never fails its caller: whatever call fails in it or in the bus it runs, it
  returns 0, and in the events directory nothing is lost and nothing foreign appears: the
  events afterwards are those of before followed by some of the events of the message (one for
  the message, one for each mention), in their order.  Without a directory nothing changes.\<close>

theorem bridge_never_fails:
  assumes "handle \<noteq> []" "take 2 handle \<noteq> ''--''" "realpath_absolute e" "reader_ok e2"
    and "bridge_clock e 0 n t b" "length (bridge_pubs handle message (read_chat_participants e p MAX_PARTICIPANTS s)) \<le> n"
  shows "\<exists>b'. bus_bridge_after_send e p handle message s b = (Ret 0, b')
    \<and> (bus_find_events_dir e p 4096 = Ret None \<longrightarrow> b' = b)
    \<and> (\<forall>d. bus_find_events_dir e p 4096 = Ret (Some d) \<longrightarrow> (\<exists>sent.
         subseq sent (bridge_events e 0 (bridge_pubs handle message (read_chat_participants e p MAX_PARTICIPANTS s)))
         \<and> events_of e2 d (pending b') = events_of e2 d (pending b) @ sent))"
proof -
  let ?pubs = "bridge_pubs handle message (read_chat_participants e p MAX_PARTICIPANTS s)"
  obtain r where r: "bus_find_events_dir e p 4096 = Ret r"
    using find_events_dir_outcome(1)[OF assms(3), of 4096 p] by (cases "bus_find_events_dir e p 4096") auto
  show ?thesis
  proof (cases "message = [] \<or> r = None")
    case True
    then have "bus_bridge_after_send e p handle message s b = (Ret 0, b)"
      using r assms(1) by (auto simp: bus_bridge_after_send_def)
    then show ?thesis by (auto intro!: exI[of _ "[]"])
  next
    case False
    then obtain d where d: "r = Some d" "message \<noteq> []" by auto
    have "list_all pub_ok ?pubs" using bridge_pubs_ok(1)[OF assms(2,1)] by (auto simp: list_all_iff)
    from run_pubs_sound[OF this assms(5) _ assms(4)] show ?thesis
      using after_send_run[OF assms(1) d(2), of e p d s b] r d(1) assms(6) by auto
  qed
qed


section \<open>Witnesses\<close>

definition demo_bridge :: bridge_env where
  "demo_bridge = \<lparr>br_realpath = \<lambda>_. Some ''/ev'', br_isdir = \<lambda>_. True, br_open = True, br_self = None,
     br_access = \<lambda>_. True, br_run = \<lambda>_ _. True, br_wait = \<lambda>_. True, br_bus = \<lambda>k. demo_bus_env (int k + 40)\<rparr>"

lemma demo_bridge_dir: "bus_find_events_dir demo_bridge ''/c/a.chat'' 4096 = Ret (Some ''/ev'')"
  by (simp add: bus_find_events_dir_def numeral_nat check_events_def demo_bridge_def)

lemma demo_bridge_clock: "bridge_clock demo_bridge 0 8 (\<lambda>k. int k + 40) \<lparr>pending = [], processed = None\<rparr>"
  by (auto simp: bridge_clock_def demo_bridge_def)

lemma demo_bridge_pubs:
  "bridge_pubs ''ann'' ''hi @bob!'' qs = [(''chat-message'', ''normal'', ''ann: hi @bob!''),
     (''chat-interrupt-bob'', ''critical'', ''@bob from ann: hi @bob!'')]"
proof -
  have m: "collect_mentions MAX_MENTIONS (mention_occurrences None ''hi @bob!'') [] = [(''bob'', 1)]" by code_simp
  show ?thesis unfolding bridge_pubs_def m by (simp add: mention_pubs_def event_kind_def mention_payload_def snprintf_id)
qed

lemma demo_bridge_ok: "realpath_absolute demo_bridge" "bridge_good demo_bridge 8" "reader_ok (demo_bus_env 99)"
  by (simp_all add: realpath_absolute_def demo_bridge_def bridge_good_def bus_env_good_def reader_ok_def)


text \<open>The first publication cannot be started: the mention is still delivered.\<close>

theorem bridge_never_fails_witness:
  "\<exists>b'. bus_bridge_after_send (demo_bridge\<lparr>br_run := \<lambda>k _. k > 0\<rparr>) ''/c/a.chat'' ''ann'' ''hi @bob!'' demo_fs
      \<lparr>pending = [], processed = None\<rparr> = (Ret 0, b')"
proof -
  let ?e = "demo_bridge\<lparr>br_run := \<lambda>k _. k > 0\<rparr>"
  have "realpath_absolute ?e" "bridge_clock ?e 0 8 (\<lambda>k. int k + 40) \<lparr>pending = [], processed = None\<rparr>"
    using demo_bridge_clock demo_bridge_ok(1) by (simp_all add: realpath_absolute_def bridge_clock_def)
  from bridge_never_fails[where handle = "''ann''" and message = "''hi @bob!''" and s = demo_fs and p = "''/c/a.chat''", OF _ _ this(1) demo_bridge_ok(3) this(2)]
  show ?thesis unfolding demo_bridge_pubs by auto
qed

end
