(* ===== verification/TimeParse.thy ===== *)
theory TimeParse
  imports CStd
begin

text \<open>
  Time specifications on the command line (src/src/nbs-chat/time_parse.c): a relative time such
  as \<open>5m\<close>, an epoch of at least ten digits, or an ISO 8601 time.  \<open>strptime\<close> and \<open>mktime\<close>
  depend on the time zone and are a parameter; \<open>time_t\<close> has 64 bits.
\<close>

section \<open>Parsing\<close>

text \<open>
  \<open>te_now\<close>: the clock, \<open>None\<close> when \<open>time\<close> fails.  \<open>te_local s\<close>: \<open>None\<close> when \<open>strptime\<close> does not
  accept the whole string, \<open>Some None\<close> when \<open>mktime\<close> fails.
\<close>

record time_env =
  te_now :: "int option"
  te_local :: "string \<Rightarrow> int option option"

definition multiplier :: "char \<Rightarrow> int" where
  "multiplier suf =
     (if suf = CHR ''m'' then 60 else if suf = CHR ''h'' then 3600
      else if suf = CHR ''d'' then 86400 else 1)"

definition parse_relative :: "time_env \<Rightarrow> string \<Rightarrow> int option outcome" where
  "parse_relative e spec =
     (let suf = last spec; r = strtoll spec; v = st_val r in
      if st_end r \<noteq> [suf] \<or> v < 0 then Ret None
      else if v = 0 then Ret None
      else if v > 0 \<and> multiplier suf > LLONG_MAX div v then Ret None
      else (let offset = v * multiplier suf in
        if offset > LLONG_MAX then Ret None
        else (case te_now e of None \<Rightarrow> Ret None
          | Some now \<Rightarrow> if now < offset then Ret None
              else ASSERT_MSG (now - offset > 0) (Ret (Some (now - offset))))))"

definition parse_epoch :: "string \<Rightarrow> int option outcome" where
  "parse_epoch spec =
     (let r = strtoll spec in
      if st_end r \<noteq> [] \<or> st_val r \<le> 0 \<or> st_erange r then Ret None
      else if st_val r > LLONG_MAX then Ret None
      else ASSERT_MSG (st_val r > 0) (Ret (Some (st_val r))))"

definition parse_iso :: "time_env \<Rightarrow> string \<Rightarrow> int option outcome" where
  "parse_iso e spec =
     (case te_local e spec of None \<Rightarrow> Ret None
      | Some None \<Rightarrow> Ret None
      | Some (Some t) \<Rightarrow> if t \<le> 0 then Ret None else ASSERT_MSG (t > 0) (Ret (Some t)))"

text \<open>\<open>None\<close> is the return value -1.\<close>

definition parse_timespec :: "time_env \<Rightarrow> string \<Rightarrow> int option outcome" where
  "parse_timespec e spec =
     ASSERT_MSG (length spec > 0)
      (if length spec \<ge> 2 \<and> last spec \<in> set ''smhd'' \<and> list_all isdigit (butlast spec) then parse_relative e spec
       else if length spec \<ge> 10 \<and> list_all isdigit spec then parse_epoch spec
       else parse_iso e spec)"

section \<open>What it accepts\<close>

lemma suf_not_digit: "u \<in> set ''smhd'' \<Longrightarrow> \<not> isdigit u"
  by (auto simp: isdigit_def)

lemma multiplier_pos: "0 < multiplier u"
  by (simp add: multiplier_def)

lemma parse_relative_dec:
  assumes "0 < n" "n \<le> LLONG_MAX" "u \<in> set ''smhd''" "te_now e = Some now" "now \<le> LLONG_MAX"
  shows "parse_timespec e (dec n @ [u])
    = (if now < n * multiplier u then Ret None
       else if now = n * multiplier u then Abort else Ret (Some (now - n * multiplier u)))"
proof -
  have r: "strtoll (dec n @ [u]) = \<lparr>st_val = n, st_end = [u], st_noconv = False, st_erange = False\<rparr>"
    using assms suf_not_digit[OF assms(3)] by (intro strtoll_dec) simp_all
  have dig: "list_all isdigit (dec n)" using assms(1) dec_digits[of n] by (simp add: list_all_iff)
  have len: "2 \<le> length (dec n @ [u])" by (cases "dec n") simp_all
  have "n * (LLONG_MAX div n) \<le> LLONG_MAX" using assms(1) by (metis mult.commute div_mult_mod_eq le_add_same_cancel1 pos_mod_sign)
  then have o: "multiplier u > LLONG_MAX div n \<longleftrightarrow> n * multiplier u > LLONG_MAX"
    using assms(1) by (smt (verit, ccfv_SIG) mult.commute pos_imp_zdiv_nonneg_iff zdiv_mono1 nonzero_mult_div_cancel_left mult_less_cancel_left zless_add1_eq pos_mod_bound div_mult_mod_eq mult_le_cancel_left_pos)
  have p: "parse_timespec e (dec n @ [u]) = parse_relative e (dec n @ [u])"
    using len dig assms(3) by (simp add: parse_timespec_def)
  show ?thesis
    unfolding p parse_relative_def Let_def r
    using assms o by (auto simp: ASSERT_MSG_def)
qed

lemma parse_epoch_dec:
  assumes "1000000000 \<le> n" "n \<le> LLONG_MAX"
  shows "parse_timespec e (dec n) = Ret (Some n)"
proof -
  have dig: "list_all isdigit (dec n)" using assms(1) dec_digits[of n] by (simp add: list_all_iff)
  have "dec n \<noteq> []" by simp
  then have "isdigit (last (dec n))" using dig by (metis last_in_set list_all_iff)
  then have "last (dec n) \<notin> set ''smhd''" using suf_not_digit by blast
  moreover have "10 \<le> length (dec n)"
  proof (rule ccontr)
    assume "\<not> 10 \<le> length (dec n)"
    then have "length (dec_nat (nat n)) \<le> 9" using assms(1) by (simp add: dec_def)
    then have "nat n < 10 ^ 9"
      using length_dec_nat_bounds[of "nat n"] assms(1)
      by (metis (no_types, lifting) less_le_trans one_le_numeral power_increasing)
    then show False using assms(1) by simp
  qed
  moreover have "strtoll (dec n @ []) = \<lparr>st_val = n, st_end = [], st_noconv = False, st_erange = False\<rparr>"
    using assms by (intro strtoll_dec) simp_all
  ultimately show ?thesis using dig assms by (simp add: parse_timespec_def parse_epoch_def)
qed

lemma parse_timespec_positive: "parse_timespec e spec = Ret (Some t) \<Longrightarrow> 0 < t"
  by (auto simp: parse_timespec_def parse_relative_def parse_epoch_def parse_iso_def Let_def outcome_simps
      split: if_splits option.splits)

text \<open>The only assertions that fail: the empty string, and an offset that is the current time.\<close>

lemma parse_timespec_abort:
  "parse_timespec e spec = Abort \<longleftrightarrow> spec = [] \<or>
     (length spec \<ge> 2 \<and> last spec \<in> set ''smhd'' \<and> list_all isdigit (butlast spec) \<and> parse_relative e spec = Abort)"
  by (auto simp: parse_timespec_def parse_epoch_def parse_iso_def Let_def ASSERT_MSG_def split: option.splits)

end
