(* ===== verification/ChatMain.thy ===== *)
theory ChatMain
  imports ChatBridgeProps TimeParse
begin

text \<open>
  The chat's command line (src/src/nbs-chat/main.c): every command, from its arguments to its exit
  code, the lines it prints and the files it leaves.  The operations of the chat file and the
  bridge are those of the other theories; times are printed by \<open>gmtime_r\<close> and \<open>strftime\<close>, which
  are a parameter.  What \<open>export\<close> prints is the rendering of the messages it selects; here its
  result is that selection.
\<close>

section \<open>Environment and helpers\<close>

text \<open>
  A command reads the chat once or twice: \<open>cm_read\<close> is for the first time, \<open>cm_verify\<close> for the
  second.  \<open>cm_ticks\<close> and \<open>cm_polled\<close> are what \<open>poll\<close> finds at its wake-ups and after them.
\<close>

record main_env =
  cm_cwd :: "string option"
  cm_time :: time_env
  cm_fmt :: "int \<Rightarrow> string option"
  cm_read :: read_env
  cm_verify :: read_env
  cm_open :: bool
  cm_create :: write_env
  cm_clock :: "string option"
  cm_send :: send_env
  cm_trunc :: truncate_env
  cm_cur_lock :: lock_env
  cm_cur_open :: bool
  cm_cur_write :: write_env
  cm_ticks :: "nat \<Rightarrow> read_env \<times> fs"
  cm_polled :: "read_env \<times> fs"
  cm_glob :: "string \<Rightarrow> string list option"
  cm_glob_read :: "string \<Rightarrow> read_env"
  cm_bridge :: bridge_env

definition resolve_path :: "main_env \<Rightarrow> string \<Rightarrow> string option" where
  "resolve_path e path =
     (if take 1 path = ''/'' then (if length path \<ge> MAX_PATH_LEN then None else Some path)
      else (case cm_cwd e of None \<Rightarrow> None
        | Some cwd \<Rightarrow> (let out = cwd @ ''/'' @ path in if length out \<ge> MAX_PATH_LEN then None else Some out)))"

text \<open>A number option: \<open>None\<close> is an error.  (\<open>long\<close> has 64 bits.)\<close>

definition number_opt :: "string \<Rightarrow> int \<Rightarrow> int option" where
  "number_opt value_str max_value =
     (let r = strtoll value_str in
      if st_erange r \<or> st_end r \<noteq> [] \<or> st_val r < 0 \<or> st_val r > max_value then None else Some (st_val r))"

text \<open>The exit code when \<open>chat_read\<close> failed: 2 when there is no such file.\<close>

definition read_error :: "path \<Rightarrow> fs \<Rightarrow> int" where
  "read_error p s = (if files s p = None then 2 else 1)"

definition message_line :: "main_env \<Rightarrow> string \<Rightarrow> chat_message \<Rightarrow> string" where
  "message_line e label m =
     (case (if m_timestamp m > 0 then cm_fmt e (m_timestamp m) else None) of
        Some ts \<Rightarrow> label @ ''['' @ ts @ ''] '' @ m_handle m @ '': '' @ m_content m
      | None \<Rightarrow> label @ m_handle m @ '': '' @ m_content m)"

definition tolower :: "char \<Rightarrow> char" where
  "tolower c = (if c \<in> set ''ABCDEFGHIJKLMNOPQRSTUVWXYZ'' then char_of (of_char c + (32 :: nat)) else c)"

text \<open>Whether the pointer is not null.\<close>

fun strcasestr_portable :: "string \<Rightarrow> string \<Rightarrow> bool" where
  "strcasestr_portable [] needle = (needle = [])"
| "strcasestr_portable (c # p) needle =
     (if needle = [] then True
      else if map tolower (take (length needle) (c # p)) = map tolower needle then True
      else strcasestr_portable p needle)"

text \<open>The loops that move the ends of the range of messages.\<close>

definition advance_start :: "chat_message list \<Rightarrow> int \<Rightarrow> nat \<Rightarrow> nat \<Rightarrow> nat" where
  "advance_start ms after_time start stop =
     start + length (takeWhile (\<lambda>m. m_timestamp m < after_time) (take (stop - start) (drop start ms)))"

definition retreat_end :: "chat_message list \<Rightarrow> int \<Rightarrow> nat \<Rightarrow> nat \<Rightarrow> nat" where
  "retreat_end ms before_time start stop =
     stop - length (takeWhile (\<lambda>m. m_timestamp m > before_time) (rev (take (stop - start) (drop start ms))))"

section \<open>Creating and sending\<close>

type_synonym main_result = "(int \<times> string list) outcome \<times> fs"

definition cmd_create :: "main_env \<Rightarrow> string list \<Rightarrow> fs \<Rightarrow> main_result" where
  "cmd_create e argv s =
     (if length argv < 3 then (Ret (4, []), s)
      else (case resolve_path e (argv ! 2) of None \<Rightarrow> (Ret (4, []), s)
        | Some path \<Rightarrow>
          (case chat_create (cm_create e) (cm_clock e) path s of
             (Abort, s1) \<Rightarrow> (Abort, s1)
           | (Ret result, s1) \<Rightarrow>
               if result < 0 then (Ret (1, []), s1) else (Ret (0, [''Created: '' @ path]), s1))))"

text \<open>Sending also runs the bridge on the bus.\<close>

definition cmd_send :: "main_env \<Rightarrow> string list \<Rightarrow> fs \<Rightarrow> bus \<Rightarrow> int outcome \<times> fs \<times> bus" where
  "cmd_send e argv s b =
     (if length argv < 5 then (Ret 4, s, b)
      else if CHR ''['' \<in> set (argv ! 3) then (Ret 4, s, b)
      else (case resolve_path e (argv ! 2) of None \<Rightarrow> (Ret 4, s, b)
        | Some path \<Rightarrow>
          (case chat_send (cm_send e) path (argv ! 3) (argv ! 4) s of
             (Abort, s1) \<Rightarrow> (Abort, s1, b)
           | (Ret result, s1) \<Rightarrow>
               if result < 0 then (Ret 1, s1, b)
               else (case bus_bridge_after_send (cm_bridge e) path (argv ! 3) (argv ! 4) s1 b of
                       (Abort, b1) \<Rightarrow> (Abort, s1, b1)
                     | (Ret _, b1) \<Rightarrow> (Ret 0, s1, b1)))))"

text \<open>\<open>warn\<close> and \<open>error\<close> differ in the reserved handle.\<close>

definition send_reserved :: "string \<Rightarrow> main_env \<Rightarrow> string list \<Rightarrow> fs \<Rightarrow> main_result" where
  "send_reserved handle e argv s =
     (if length argv < 4 then (Ret (4, []), s)
      else (case resolve_path e (argv ! 2) of None \<Rightarrow> (Ret (4, []), s)
        | Some path \<Rightarrow>
          (case chat_send (cm_send e) path handle (argv ! 3) s of
             (Abort, s1) \<Rightarrow> (Abort, s1)
           | (Ret result, s1) \<Rightarrow> (Ret (if result < 0 then 1 else 0, []), s1))))"

definition cmd_warn :: "main_env \<Rightarrow> string list \<Rightarrow> fs \<Rightarrow> main_result" where
  "cmd_warn = send_reserved ''[MEDIC-WARNING]''"

definition cmd_error :: "main_env \<Rightarrow> string list \<Rightarrow> fs \<Rightarrow> main_result" where
  "cmd_error = send_reserved ''[SIDECAR-ERROR]''"

section \<open>Reading\<close>

record read_opts =
  last_n :: int
  offset_n :: int
  since_handle :: "string option"
  unread_handle :: "string option"
  after_time :: int
  before_time :: int

definition no_opts :: read_opts where
  "no_opts = \<lparr>last_n = -1, offset_n = 0, since_handle = None, unread_handle = None, after_time = 0, before_time = 0\<rparr>"

text \<open>One option; \<open>Ret None\<close> is a usage error.\<close>

definition read_opt :: "time_env \<Rightarrow> string \<Rightarrow> read_opts \<Rightarrow> read_opts option outcome" where
  "read_opt te arg o1 =
     (if take 7 arg = ''--last='' then Ret (map_option (\<lambda>v. o1\<lparr>last_n := v\<rparr>) (number_opt (drop 7 arg) INT_MAX))
      else if take 9 arg = ''--offset='' then Ret (map_option (\<lambda>v. o1\<lparr>offset_n := v\<rparr>) (number_opt (drop 9 arg) INT_MAX))
      else if take 8 arg = ''--since='' then
        Ret (if drop 8 arg = [] then None else Some (o1\<lparr>since_handle := Some (drop 8 arg)\<rparr>))
      else if take 9 arg = ''--unread='' then
        Ret (if drop 9 arg = [] then None else Some (o1\<lparr>unread_handle := Some (drop 9 arg)\<rparr>))
      else if take 8 arg = ''--after='' then
        and_then (parse_timespec te (drop 8 arg)) (\<lambda>t. Ret (map_option (\<lambda>t. o1\<lparr>after_time := t\<rparr>) t))
      else if take 9 arg = ''--before='' then
        and_then (parse_timespec te (drop 9 arg)) (\<lambda>t. Ret (map_option (\<lambda>t. o1\<lparr>before_time := t\<rparr>) t))
      else Ret None)"

fun parse_opts :: "(string \<Rightarrow> 'o \<Rightarrow> 'o option outcome) \<Rightarrow> string list \<Rightarrow> 'o \<Rightarrow> 'o option outcome" where
  "parse_opts opt [] o1 = Ret (Some o1)"
| "parse_opts opt (arg # args) o1 =
     and_then (opt arg o1) (\<lambda>r. case r of None \<Rightarrow> Ret None | Some o2 \<Rightarrow> parse_opts opt args o2)"

text \<open>
  Where \<open>--unread\<close> starts: after the cursor.  A cursor beyond the messages is written back
  clamped, and nothing is shown.
\<close>

definition unread_start :: "main_env \<Rightarrow> path \<Rightarrow> string \<Rightarrow> nat \<Rightarrow> fs \<Rightarrow> nat outcome \<times> fs" where
  "unread_start e path handle message_count s =
     (case chat_cursor_read (cm_cur_open e) path handle s of
        Abort \<Rightarrow> (Abort, s)
      | Ret c \<Rightarrow>
         (let cursor = (if c < -1 then -1 else c) in
          if \<not> cursor < INT_MAX then (Abort, s)
          else if cursor + 1 > int message_count then
            (case chat_cursor_write (cm_cur_lock e) (cm_cur_open e) (cm_cur_write e) path handle
                    (if message_count > 0 then int message_count - 1 else 0) s of
               (Abort, s1) \<Rightarrow> (Abort, s1)
             | (Ret _, s1) \<Rightarrow> (Ret message_count, s1))
          else (Ret (nat (cursor + 1)), s)))"

text \<open>The index of the last message of the handle; \<open>--since\<close> starts after it.\<close>

fun last_from :: "string \<Rightarrow> chat_message list \<Rightarrow> nat \<Rightarrow> nat option \<Rightarrow> nat option" where
  "last_from handle [] i acc = acc"
| "last_from handle (m # ms) i acc = last_from handle ms (Suc i) (if m_handle m = handle then Some i else acc)"

definition since_start :: "string \<Rightarrow> chat_message list \<Rightarrow> nat" where
  "since_start handle ms = (case last_from handle ms 0 None of None \<Rightarrow> 0 | Some i \<Rightarrow> i + 1)"

definition read_range :: "read_opts \<Rightarrow> chat_message list \<Rightarrow> nat \<Rightarrow> (nat \<times> nat) outcome" where
  "read_range o1 ms start =
     (let n = length ms;
          start1 = (if after_time o1 > 0 then advance_start ms (after_time o1) start n else start);
          end1 = (if before_time o1 > 0 then retreat_end ms (before_time o1) start1 n else n);
          nothing = (offset_n o1 > 0 \<and> int end1 - int start1 \<le> offset_n o1);
          start2 = (if nothing then end1 else start1);
          end2 = (if offset_n o1 > 0 \<and> \<not> nothing then end1 - nat (offset_n o1) else end1);
          start3 = (if last_n o1 \<ge> 0 \<and> int end2 - int start2 > last_n o1 then end2 - nat (last_n o1) else start2)
      in ASSERT_MSG (start3 \<le> end2 \<and> end2 \<le> n) (Ret (start3, end2)))"

text \<open>From the start on: print, and move the cursor of \<open>--unread\<close> if something was shown.\<close>

definition read_print :: "main_env \<Rightarrow> path \<Rightarrow> read_opts \<Rightarrow> chat_message list \<Rightarrow> nat \<Rightarrow> fs \<Rightarrow> main_result" where
  "read_print e path o1 ms start s =
     (case read_range o1 ms start of
        Abort \<Rightarrow> (Abort, s)
      | Ret (start, stop) \<Rightarrow>
         (let out = map (message_line e []) (take (stop - start) (drop start ms)) in
          case unread_handle o1 of
            None \<Rightarrow> (Ret (0, out), s)
          | Some handle \<Rightarrow>
              if stop > start then
                (case chat_cursor_write (cm_cur_lock e) (cm_cur_open e) (cm_cur_write e) path handle (int stop - 1) s of
                   (Abort, s1) \<Rightarrow> (Abort, s1)
                 | (Ret _, s1) \<Rightarrow> (Ret (0, out), s1))
              else (Ret (0, out), s)))"

definition read_messages :: "main_env \<Rightarrow> path \<Rightarrow> read_opts \<Rightarrow> chat_message list \<Rightarrow> fs \<Rightarrow> main_result" where
  "read_messages e path o1 ms s =
     (case unread_handle o1 of
        Some handle \<Rightarrow>
          (case unread_start e path handle (length ms) s of
             (Abort, s1) \<Rightarrow> (Abort, s1)
           | (Ret start, s1) \<Rightarrow> read_print e path o1 ms start s1)
      | None \<Rightarrow> read_print e path o1 ms (case since_handle o1 of None \<Rightarrow> 0 | Some h \<Rightarrow> since_start h ms) s)"

definition chat_cmd_read :: "main_env \<Rightarrow> string list \<Rightarrow> fs \<Rightarrow> main_result" where
  "chat_cmd_read e argv s =
     (if length argv < 3 then (Ret (4, []), s)
      else (case resolve_path e (argv ! 2) of None \<Rightarrow> (Ret (4, []), s)
        | Some path \<Rightarrow>
          (case parse_opts (read_opt (cm_time e)) (drop 3 argv) no_opts of
             Abort \<Rightarrow> (Abort, s)
           | Ret None \<Rightarrow> (Ret (4, []), s)
           | Ret (Some o1) \<Rightarrow>
              (case chat_read (cm_read e) path s of
                 Abort \<Rightarrow> (Abort, s)
               | Ret None \<Rightarrow> (Ret (read_error path s, []), s)
               | Ret (Some st) \<Rightarrow> read_messages e path o1 (messages st) s))))"

section \<open>Polling, participants and counting\<close>

definition poll_opt :: "string \<Rightarrow> int \<Rightarrow> int option outcome" where
  "poll_opt arg timeout =
     (if take 10 arg = ''--timeout='' then Ret (number_opt (drop 10 arg) INT_MAX) else Ret None)"

text \<open>The last message of somebody else, if any.\<close>

definition last_other :: "string \<Rightarrow> chat_message list \<Rightarrow> chat_message option" where
  "last_other handle ms = List.find (\<lambda>m. m_handle m \<noteq> handle) (rev ms)"

text \<open>The exit code when \<open>chat_poll\<close> failed, by the read that failed.\<close>

definition poll_error :: "read_env \<Rightarrow> path \<Rightarrow> fs \<Rightarrow> (read_env \<times> fs) list \<Rightarrow> int" where
  "poll_error e p s ticks =
     (if chat_read e p s = Ret None then read_error p s
      else (case List.find (\<lambda>t. chat_read (fst t) p (snd t) = Ret None) ticks of
              None \<Rightarrow> 1 | Some t \<Rightarrow> read_error p (snd t)))"

definition cmd_poll :: "main_env \<Rightarrow> string list \<Rightarrow> fs \<Rightarrow> (int \<times> string list) outcome" where
  "cmd_poll e argv s =
     (if length argv < 4 then Ret (4, [])
      else (case resolve_path e (argv ! 2) of None \<Rightarrow> Ret (4, [])
        | Some path \<Rightarrow>
          (case parse_opts poll_opt (drop 4 argv) 10 of
             Abort \<Rightarrow> Abort
           | Ret None \<Rightarrow> Ret (4, [])
           | Ret (Some timeout) \<Rightarrow>
              (case chat_poll (cm_read e) s (cm_ticks e) path (argv ! 3) timeout of
                 Abort \<Rightarrow> Abort
               | Ret result \<Rightarrow>
                   if result = 3 then Ret (3, [])
                   else if result < 0 then Ret (poll_error (cm_read e) path s (map (cm_ticks e) [0..<nat timeout]), [])
                   else ASSERT_MSG (result = 0)
                    (case chat_read (fst (cm_polled e)) path (snd (cm_polled e)) of
                       Abort \<Rightarrow> Abort
                     | Ret None \<Rightarrow> Ret (1, [])
                     | Ret (Some st) \<Rightarrow>
                        (case last_other (argv ! 3) (messages st) of
                           None \<Rightarrow> Ret (1, [])
                         | Some m \<Rightarrow> Ret (0, [message_line e [] m])))))))"

text \<open>\<open>printf\<close> with \<open>%-24s\<close>.\<close>

definition participant_line :: "participant \<Rightarrow> string" where
  "participant_line q =
     p_handle q @ replicate (24 - length (p_handle q)) sp @ '' '' @ dec (p_count q) @ '' messages''"

definition cmd_participants :: "main_env \<Rightarrow> string list \<Rightarrow> fs \<Rightarrow> (int \<times> string list) outcome" where
  "cmd_participants e argv s =
     (if length argv < 3 then Ret (4, [])
      else (case resolve_path e (argv ! 2) of None \<Rightarrow> Ret (4, [])
        | Some path \<Rightarrow>
          (case chat_read (cm_read e) path s of
             Abort \<Rightarrow> Abort
           | Ret None \<Rightarrow> Ret (read_error path s, [])
           | Ret (Some st) \<Rightarrow>
               ASSERT_MSG (length (participants st) \<le> MAX_PARTICIPANTS)
                (Ret (0, map participant_line (participants st))))))"

text \<open>\<open>getline\<close> gives the lines whole; the loop strips one newline and compares C strings.\<close>

fun split_lines :: "string \<Rightarrow> string \<Rightarrow> string list" where
  "split_lines acc [] = (if acc = [] then [] else [acc])"
| "split_lines acc (c # cs) = (if c = nl then acc # split_lines [] cs else split_lines (acc @ [c]) cs)"

fun count_lines :: "bool \<Rightarrow> string list \<Rightarrow> nat" where
  "count_lines found_separator [] = 0"
| "count_lines found_separator (line # ls) =
     (if \<not> found_separator then count_lines (cstr line = ''---'') ls
      else (if length line > 0 then 1 else 0) + count_lines True ls)"

definition cmd_count :: "main_env \<Rightarrow> string list \<Rightarrow> fs \<Rightarrow> int \<times> string list" where
  "cmd_count e argv s =
     (if length argv < 3 then (4, [])
      else (case resolve_path e (argv ! 2) of None \<Rightarrow> (4, [])
        | Some path \<Rightarrow>
          (case (if cm_open e then files s path else None) of
             None \<Rightarrow> (read_error path s, [])
           | Some content \<Rightarrow> (0, [dec (int (count_lines False (split_lines [] content)))]))))"

definition cmd_cursor_set :: "main_env \<Rightarrow> string list \<Rightarrow> fs \<Rightarrow> main_result" where
  "cmd_cursor_set e argv s =
     (if length argv < 5 then (Ret (4, []), s)
      else (case resolve_path e (argv ! 2) of None \<Rightarrow> (Ret (4, []), s)
        | Some path \<Rightarrow>
          (case number_opt (argv ! 4) (INT_MAX - 1) of
             None \<Rightarrow> (Ret (4, []), s)
           | Some v \<Rightarrow>
               if argv ! 3 = [] then (Ret (4, []), s)
               else (case (if cm_open e then files s path else None) of
                  None \<Rightarrow> (Ret (read_error path s, []), s)
                | Some _ \<Rightarrow>
                   (case chat_cursor_write (cm_cur_lock e) (cm_cur_open e) (cm_cur_write e) path (argv ! 3) v s of
                      (Abort, s1) \<Rightarrow> (Abort, s1)
                    | (Ret rc, s1) \<Rightarrow> (Ret (if rc < 0 then 1 else 0, []), s1))))))"

section \<open>Searching\<close>

record search_opts =
  filter_handle :: "string option"
  s_after :: int
  s_before :: int
  include_archives :: bool

definition search_opt :: "time_env \<Rightarrow> string \<Rightarrow> search_opts \<Rightarrow> search_opts option outcome" where
  "search_opt te arg o1 =
     (if take 9 arg = ''--handle='' then
        Ret (Some (o1\<lparr>filter_handle := (if drop 9 arg = [] then None else Some (drop 9 arg))\<rparr>))
      else if take 8 arg = ''--after='' then
        and_then (parse_timespec te (drop 8 arg)) (\<lambda>t. Ret (map_option (\<lambda>t. o1\<lparr>s_after := t\<rparr>) t))
      else if take 9 arg = ''--before='' then
        and_then (parse_timespec te (drop 9 arg)) (\<lambda>t. Ret (map_option (\<lambda>t. o1\<lparr>s_before := t\<rparr>) t))
      else if arg = ''--include-archives'' then Ret (Some (o1\<lparr>include_archives := True\<rparr>))
      else Ret None)"

definition search_match :: "search_opts \<Rightarrow> string \<Rightarrow> chat_message \<Rightarrow> bool" where
  "search_match o1 pattern m \<longleftrightarrow>
     (case filter_handle o1 of None \<Rightarrow> True | Some h \<Rightarrow> m_handle m = h)
     \<and> \<not> (s_after o1 > 0 \<and> m_timestamp m < s_after o1)
     \<and> \<not> (s_before o1 > 0 \<and> m_timestamp m > s_before o1)
     \<and> strcasestr_portable (m_content m) pattern"

text \<open>The lines for the matches; \<open>label\<close> is printed before the index.\<close>

fun search_lines :: "main_env \<Rightarrow> string \<Rightarrow> search_opts \<Rightarrow> string \<Rightarrow> nat \<Rightarrow> chat_message list \<Rightarrow> string list" where
  "search_lines e label o1 pattern i [] = []"
| "search_lines e label o1 pattern i (m # ms) =
     (if search_match o1 pattern m then [message_line e (label @ ''['' @ dec (int i) @ ''] '') m] else [])
     @ search_lines e label o1 pattern (Suc i) ms"

text \<open>The archives of a chat, by name.\<close>

definition archive_pattern :: "path \<Rightarrow> string" where
  "archive_pattern path =
     (let base = rev (takeWhile (\<lambda>c. c \<noteq> CHR ''/'') (rev path));
          dir = (if CHR ''/'' \<in> set path then take (length path - length base - 1) path else ''.'');
          stem = (case strstr ''.chat'' base of Some (pre, ext) \<Rightarrow> if ext = ''.chat'' then pre else base | None \<Rightarrow> base)
      in dir @ ''/'' @ stem @ ''-*-archive.chat'')"

fun strcmp_less :: "string \<Rightarrow> string \<Rightarrow> bool" where
  "strcmp_less [] t = (t \<noteq> [])"
| "strcmp_less (c # s) [] = False"
| "strcmp_less (c # s) (d # t) = ((of_char c :: nat) < of_char d \<or> c = d \<and> strcmp_less s t)"

text \<open>One round of the exchange sort: what ends up first, and the rest.\<close>

fun exchange :: "string \<Rightarrow> string list \<Rightarrow> string \<times> string list" where
  "exchange x [] = (x, [])"
| "exchange x (y # ys) =
     (if strcmp_less x y then (case exchange y ys of (m, r) \<Rightarrow> (m, x # r))
      else (case exchange x ys of (m, r) \<Rightarrow> (m, y # r)))"

lemma exchange_length [simp]: "length (snd (exchange x ys)) = length ys"
  by (induction x ys rule: exchange.induct) (auto split: prod.splits)

function newest_first :: "string list \<Rightarrow> string list" where
  "newest_first [] = []"
| "newest_first (x # xs) = (case exchange x xs of (m, r) \<Rightarrow> m # newest_first r)"
  by pat_completeness auto
termination
proof (relation "measure length")
  fix x :: string and xs m r
  assume "(m, r) = exchange x xs"
  then have "length r = length xs" by (metis exchange_length snd_conv)
  then show "(r, x # xs) \<in> measure length" by simp
qed simp

fun search_archives :: "main_env \<Rightarrow> search_opts \<Rightarrow> string \<Rightarrow> string list \<Rightarrow> fs \<Rightarrow> string list outcome" where
  "search_archives e o1 pattern [] s = Ret []"
| "search_archives e o1 pattern (a # as) s =
     (case chat_read (cm_glob_read e a) a s of
        Abort \<Rightarrow> Abort
      | Ret r \<Rightarrow>
          and_then (search_archives e o1 pattern as s) (\<lambda>out.
            Ret ((case r of None \<Rightarrow> []
                  | Some st \<Rightarrow> search_lines e (''['' @ rev (takeWhile (\<lambda>c. c \<noteq> CHR ''/'') (rev a)) @ ''] '') o1 pattern 0 (messages st)) @ out)))"

definition cmd_search :: "main_env \<Rightarrow> string list \<Rightarrow> fs \<Rightarrow> (int \<times> string list) outcome" where
  "cmd_search e argv s =
     (if length argv < 4 then Ret (4, [])
      else (case resolve_path e (argv ! 2) of None \<Rightarrow> Ret (4, [])
        | Some path \<Rightarrow>
          (case parse_opts (search_opt (cm_time e)) (drop 4 argv)
                  \<lparr>filter_handle = None, s_after = 0, s_before = 0, include_archives = False\<rparr> of
             Abort \<Rightarrow> Abort
           | Ret None \<Rightarrow> Ret (4, [])
           | Ret (Some o1) \<Rightarrow>
              (case chat_read (cm_read e) path s of
                 Abort \<Rightarrow> Abort
               | Ret None \<Rightarrow> Ret (read_error path s, [])
               | Ret (Some st) \<Rightarrow>
                   (let live = search_lines e [] o1 (argv ! 3) 0 (messages st) in
                    if include_archives o1 \<and> length (archive_pattern path) \<ge> 2 * MAX_PATH_LEN then Ret (1, live)
                    else (case (if include_archives o1 then cm_glob e (archive_pattern path) else None) of
                       None \<Rightarrow> Ret (0, if live = [] then [''No matches found.''] else live)
                     | Some paths \<Rightarrow>
                         and_then (search_archives e o1 (argv ! 3) (newest_first paths) s) (\<lambda>out.
                           Ret (0, if live @ out = [] then [''No matches found.''] else live @ out))))))))"

section \<open>Exporting\<close>

text \<open>The entries of the list are compared whole.\<close>

function handle_match :: "string \<Rightarrow> string \<Rightarrow> bool" where
  "handle_match handle p =
     (if p = [] then False
      else if takeWhile (\<lambda>c. c \<noteq> CHR '','') p = handle then True
      else if CHR '','' \<notin> set p then False
      else handle_match handle (drop 1 (dropWhile (\<lambda>c. c \<noteq> CHR '','') p)))"
  by pat_completeness auto
termination
proof (relation "measure (\<lambda>(handle, p). length p)")
  fix handle p :: string
  assume "p \<noteq> []"
  then have "length (drop 1 (dropWhile (\<lambda>c. c \<noteq> CHR '','') p)) < length p"
    using length_dropWhile_le[of "\<lambda>c. c \<noteq> CHR '',''" p] by (cases p) (auto simp: less_Suc_eq_le intro: le_trans[OF diff_le_self])
  then show "((handle, drop 1 (dropWhile (\<lambda>c. c \<noteq> CHR '','') p)), handle, p) \<in> measure (\<lambda>(handle, p). length p)" by simp
qed simp

declare handle_match.simps [simp del]

record export_opts =
  x_last :: int
  x_from :: int
  x_to :: int
  handle_filter :: "string option"
  grep_pattern :: "string option"
  x_after :: int
  x_before :: int

definition export_opt :: "time_env \<Rightarrow> string \<Rightarrow> export_opts \<Rightarrow> export_opts option outcome" where
  "export_opt te arg o1 =
     (if take 7 arg = ''--last='' then Ret (map_option (\<lambda>v. o1\<lparr>x_last := v\<rparr>) (number_opt (drop 7 arg) INT_MAX))
      else if take 7 arg = ''--from='' then Ret (map_option (\<lambda>v. o1\<lparr>x_from := v\<rparr>) (number_opt (drop 7 arg) INT_MAX))
      else if take 5 arg = ''--to='' then Ret (map_option (\<lambda>v. o1\<lparr>x_to := v\<rparr>) (number_opt (drop 5 arg) INT_MAX))
      else if take 9 arg = ''--handle='' then
        Ret (if drop 9 arg = [] then None else Some (o1\<lparr>handle_filter := Some (drop 9 arg)\<rparr>))
      else if take 8 arg = ''--after='' then
        and_then (parse_timespec te (drop 8 arg)) (\<lambda>t. Ret (map_option (\<lambda>t. o1\<lparr>x_after := t\<rparr>) t))
      else if take 9 arg = ''--before='' then
        and_then (parse_timespec te (drop 9 arg)) (\<lambda>t. Ret (map_option (\<lambda>t. o1\<lparr>x_before := t\<rparr>) t))
      else if take 7 arg = ''--grep='' then
        Ret (if drop 7 arg = [] then None else Some (o1\<lparr>grep_pattern := Some (drop 7 arg)\<rparr>))
      else Ret None)"

definition export_range :: "export_opts \<Rightarrow> chat_message list \<Rightarrow> (nat \<times> nat) outcome" where
  "export_range o1 ms =
     (let n = length ms;
          start = (if x_from o1 \<ge> 0 then min (nat (x_from o1)) n else 0);
          stop = (if x_to o1 \<ge> 0 \<and> x_to o1 < int n then nat (x_to o1) else n);
          start1 = (if x_after o1 > 0 then advance_start ms (x_after o1) start stop else start);
          stop1 = (if x_before o1 > 0 then retreat_end ms (x_before o1) start1 stop else stop);
          start2 = (if x_last o1 \<ge> 0 \<and> int stop1 - int start1 > x_last o1 then stop1 - nat (x_last o1) else start1)
      in ASSERT_MSG (start2 \<le> stop1 \<and> stop1 \<le> n) (Ret (start2, stop1)))"

definition export_filter :: "export_opts \<Rightarrow> chat_message \<Rightarrow> bool" where
  "export_filter o1 m \<longleftrightarrow>
     (case handle_filter o1 of None \<Rightarrow> True | Some l \<Rightarrow> handle_match (m_handle m) l)
     \<and> (case grep_pattern o1 of None \<Rightarrow> True | Some p \<Rightarrow> strcasestr_portable (m_content m) p)"

text \<open>The messages rendered.\<close>

definition cmd_export :: "main_env \<Rightarrow> string list \<Rightarrow> fs \<Rightarrow> (int \<times> chat_message list) outcome" where
  "cmd_export e argv s =
     (if length argv < 3 then Ret (4, [])
      else (case resolve_path e (argv ! 2) of None \<Rightarrow> Ret (4, [])
        | Some path \<Rightarrow>
          (case parse_opts (export_opt (cm_time e)) (drop 3 argv)
                  \<lparr>x_last = -1, x_from = -1, x_to = -1, handle_filter = None, grep_pattern = None, x_after = 0, x_before = 0\<rparr> of
             Abort \<Rightarrow> Abort
           | Ret None \<Rightarrow> Ret (4, [])
           | Ret (Some o1) \<Rightarrow>
              (case chat_read (cm_read e) path s of
                 Abort \<Rightarrow> Abort
               | Ret None \<Rightarrow> Ret (read_error path s, [])
               | Ret (Some st) \<Rightarrow>
                   and_then (export_range o1 (messages st)) (\<lambda>(start, stop).
                     Ret (0, filter (export_filter o1) (take (stop - start) (drop start (messages st)))))))))"

section \<open>Deleting\<close>

text \<open>The cutoff, 0 when it is missing, and whether it is a dry run.\<close>

definition delete_opt :: "time_env \<Rightarrow> string \<Rightarrow> int \<times> bool \<Rightarrow> (int \<times> bool) option outcome" where
  "delete_opt te arg o1 =
     (if take 8 arg = ''--after='' then
        and_then (parse_timespec te (drop 8 arg)) (\<lambda>t. Ret (map_option (\<lambda>t. (t, snd o1)) t))
      else if arg = ''--dry-run'' then Ret (Some (fst o1, True))
      else Ret None)"

definition truncate_at :: "int \<Rightarrow> chat_message list \<Rightarrow> nat" where
  "truncate_at cutoff ms = length (takeWhile (\<lambda>m. \<not> m_timestamp m \<ge> cutoff) ms)"

definition delete_messages :: "main_env \<Rightarrow> path \<Rightarrow> nat \<Rightarrow> nat \<Rightarrow> fs \<Rightarrow> main_result" where
  "delete_messages e path keep to_delete s =
     (case chat_truncate (cm_trunc e) path (int keep) s of
        (Abort, s1) \<Rightarrow> (Abort, s1)
      | (Ret rc, s1) \<Rightarrow>
          if rc < 0 then (Ret (1, []), s1)
          else (case chat_read (cm_verify e) path s1 of
             Abort \<Rightarrow> (Abort, s1)
           | Ret (Some st) \<Rightarrow>
               if \<not> length (messages st) \<le> keep then (Abort, s1)
               else (Ret (0, [''Deleted '' @ dec (int to_delete) @ '' message(s) (kept '' @ dec (int keep) @ '')'']), s1)
           | Ret None \<Rightarrow>
               (Ret (0, [''Deleted '' @ dec (int to_delete) @ '' message(s) (kept '' @ dec (int keep) @ '')'']), s1)))"

definition cmd_delete :: "main_env \<Rightarrow> string list \<Rightarrow> fs \<Rightarrow> main_result" where
  "cmd_delete e argv s =
     (if length argv < 3 then (Ret (4, []), s)
      else (case resolve_path e (argv ! 2) of None \<Rightarrow> (Ret (4, []), s)
        | Some path \<Rightarrow>
          (case parse_opts (delete_opt (cm_time e)) (drop 3 argv) (0, False) of
             Abort \<Rightarrow> (Abort, s)
           | Ret None \<Rightarrow> (Ret (4, []), s)
           | Ret (Some (cutoff, dry_run)) \<Rightarrow>
              if cutoff = 0 then (Ret (4, []), s)
              else (case chat_read (cm_read e) path s of
                 Abort \<Rightarrow> (Abort, s)
               | Ret None \<Rightarrow> (Ret (read_error path s, []), s)
               | Ret (Some st) \<Rightarrow>
                  (let keep = truncate_at cutoff (messages st); to_delete = length (messages st) - keep in
                   if to_delete = 0 then
                     (Ret (0, [''No messages to delete (0 messages at or after the specified time)'']), s)
                   else if dry_run then
                     (Ret (0, [''Would delete '' @ dec (int to_delete) @ '' message(s) (keeping '' @ dec (int keep) @ '')'']), s)
                   else delete_messages e path keep to_delete s)))))"

section \<open>The program\<close>

definition exit_of :: "(int \<times> 'a) outcome \<Rightarrow> int outcome" where
  "exit_of r = and_then r (\<lambda>(rc, out). Ret rc)"

text \<open>The exit code and the state; \<open>argv\<close> includes the program's name.\<close>

definition run_command :: "main_env \<Rightarrow> string list \<Rightarrow> fs \<Rightarrow> bus \<Rightarrow> int outcome \<times> fs \<times> bus" where
  "run_command e argv s b =
     (let changing = (\<lambda>r. (exit_of (fst r), snd r, b)); reading = (\<lambda>r. (r, s, b)); cmd = argv ! 1 in
      if cmd = ''create'' then changing (cmd_create e argv s)
      else if cmd = ''send'' then cmd_send e argv s b
      else if cmd = ''warn'' then changing (cmd_warn e argv s)
      else if cmd = ''error'' then changing (cmd_error e argv s)
      else if cmd = ''read'' then changing (chat_cmd_read e argv s)
      else if cmd = ''poll'' then reading (exit_of (cmd_poll e argv s))
      else if cmd = ''search'' then reading (exit_of (cmd_search e argv s))
      else if cmd = ''export'' then reading (exit_of (cmd_export e argv s))
      else if cmd = ''delete'' then changing (cmd_delete e argv s)
      else if cmd = ''participants'' then reading (exit_of (cmd_participants e argv s))
      else if cmd = ''count'' then reading (Ret (fst (cmd_count e argv s)))
      else if cmd = ''cursor-set'' then changing (cmd_cursor_set e argv s)
      else if cmd = ''help'' then reading (Ret 0)
      else reading (Ret 4))"

definition chat_main :: "main_env \<Rightarrow> string list \<Rightarrow> fs \<Rightarrow> bus \<Rightarrow> int outcome \<times> fs \<times> bus" where
  "chat_main e argv s b =
     (if length argv < 2 then (Ret 4, s, b)
      else (case run_command e argv s b of
              (r, s1, b1) \<Rightarrow> (and_then r (\<lambda>rc. ASSERT_MSG (rc \<ge> 0 \<and> rc \<le> 4) (Ret rc)), s1, b1)))"

end
