(* ===== verification/ChatRace.thy ===== *)
theory ChatRace
  imports ChatProps
begin

text \<open>
  Several processes that send to one chat file at the same time, as a step relation.  A process
  runs the steps of \<open>chat_send\<close>: take the lock, read, write under the lock, release it,
  move its cursor; every call may fail, and a process may die between or inside the steps.
  What the operating system contributes is in the rule \<open>lock\<close> (the lock is granted only
  while nobody owns it) and in the rules for a dying process (its lock is dropped).
\<close>

section \<open>The step relation\<close>

datatype phase = Waiting | Reading | Loaded chat_state | Unlocking int int | Moving int | Finished

record job =
  j_env :: send_env
  j_handle :: string
  j_text :: string

record world =
  w_fs :: fs
  w_owner :: "nat option"
  w_pc :: "nat \<Rightarrow> phase"
  w_log :: "nat list"

text \<open>\<open>w_log\<close> is a ghost: the processes whose new file was renamed into place, in that order.\<close>

definition goto :: "world \<Rightarrow> nat \<Rightarrow> phase \<Rightarrow> world" where
  "goto w i ph = w\<lparr>w_pc := (w_pc w)(i := ph)\<rparr>"

inductive race_step :: "path \<Rightarrow> (nat \<Rightarrow> job) \<Rightarrow> nat \<Rightarrow> world \<Rightarrow> world \<Rightarrow> bool" for p jobs n where
  lock: "i < n \<Longrightarrow> w_pc w i = Waiting \<Longrightarrow> w_owner w = None \<Longrightarrow>
    chat_lock_acquire (se_lock (j_env (jobs i))) p (w_fs w) = (Ret True, s) \<Longrightarrow>
    race_step p jobs n w (goto (w\<lparr>w_fs := s, w_owner := Some i\<rparr>) i Reading)"
| lock_failed: "i < n \<Longrightarrow> w_pc w i = Waiting \<Longrightarrow>
    chat_lock_acquire (se_lock (j_env (jobs i))) p (w_fs w) = (Ret False, s) \<Longrightarrow>
    race_step p jobs n w (goto (w\<lparr>w_fs := s\<rparr>) i Finished)"
| read: "w_pc w i = Reading \<Longrightarrow> chat_read (se_read (j_env (jobs i))) p (w_fs w) = Ret (Some st) \<Longrightarrow>
    race_step p jobs n w (goto w i (Loaded st))"
| read_failed: "w_pc w i = Reading \<Longrightarrow> chat_read (se_read (j_env (jobs i))) p (w_fs w) = Ret None \<Longrightarrow>
    race_step p jobs n w (goto w i (Unlocking (-1) 0))"
| commit: "w_pc w i = Loaded st \<Longrightarrow>
    send_locked (j_env (jobs i)) p (j_handle (jobs i)) (j_text (jobs i)) st (w_fs w) = (Ret (rc, k), s) \<Longrightarrow>
    race_step p jobs n w
      (goto (w\<lparr>w_fs := s, w_log := (if rc = 0 then w_log w @ [i] else w_log w)\<rparr>) i (Unlocking rc k))"
| abort_inside: "w_pc w i = Loaded st \<Longrightarrow>
    send_locked (j_env (jobs i)) p (j_handle (jobs i)) (j_text (jobs i)) st (w_fs w) = (Abort, s) \<Longrightarrow>
    race_step p jobs n w
      (goto (w\<lparr>w_fs := s, w_owner := None,
               w_log := (if files s p = files (w_fs w) p then w_log w else w_log w @ [i])\<rparr>) i Finished)"
| unlock: "w_pc w i = Unlocking rc k \<Longrightarrow>
    release_and_return (se_lock (j_env (jobs i))) p rc (w_fs w) = (r, s) \<Longrightarrow>
    race_step p jobs n w
      (goto (w\<lparr>w_fs := s, w_owner := None\<rparr>) i (if r = Ret 0 then Moving k else Finished))"
| move_cursor: "w_pc w i = Moving k \<Longrightarrow> w_owner w = None \<Longrightarrow>
    chat_cursor_write (se_cur_lock (j_env (jobs i))) (se_cur_read (j_env (jobs i))) (se_cur_write (j_env (jobs i)))
      p (j_handle (jobs i)) k (w_fs w) = (r, s) \<Longrightarrow>
    race_step p jobs n w (goto (w\<lparr>w_fs := s\<rparr>) i Finished)"
| killed: "w_owner w = Some i \<Longrightarrow>
    race_step p jobs n w (goto (w\<lparr>w_owner := None\<rparr>) i Finished)"

inductive_cases race_stepE: "race_step p jobs n w w'"

inductive reachable :: "path \<Rightarrow> (nat \<Rightarrow> job) \<Rightarrow> nat \<Rightarrow> fs \<Rightarrow> world \<Rightarrow> bool" for p jobs n s0 where
  start: "reachable p jobs n s0 \<lparr>w_fs = s0, w_owner = None, w_pc = \<lambda>_. Waiting, w_log = []\<rparr>"
| step: "reachable p jobs n s0 w \<Longrightarrow> race_step p jobs n w w' \<Longrightarrow> reachable p jobs n s0 w'"

section \<open>The invariant\<close>

fun in_critical :: "phase \<Rightarrow> bool" where
  "in_critical Reading = True"
| "in_critical (Loaded st) = True"
| "in_critical (Unlocking rc k) = True"
| "in_critical ph = False"

fun has_written :: "phase \<Rightarrow> bool" where
  "has_written (Unlocking rc k) = True"
| "has_written (Moving k) = True"
| "has_written Finished = True"
| "has_written ph = False"

definition job_message :: "job \<Rightarrow> chat_message" where
  "job_message j = new_message (j_handle j) (se_now (j_env j)) (j_text j)"

definition jobs_ok :: "string set \<Rightarrow> (nat \<Rightarrow> job) \<Rightarrow> nat \<Rightarrow> bool" where
  "jobs_ok H jobs n \<longleftrightarrow> finite H \<and> card H \<le> 52 \<and>
     (\<forall>i < n. j_handle (jobs i) \<in> H \<and> sendable (j_handle (jobs i)) (se_now (j_env (jobs i))) (j_text (jobs i))
        \<and> clock_ok (se_clock (j_env (jobs i))))"

definition race_inv :: "string set \<Rightarrow> path \<Rightarrow> (nat \<Rightarrow> job) \<Rightarrow> nat \<Rightarrow> chat_message list \<Rightarrow> world \<Rightarrow> bool" where
  "race_inv H p jobs n ms w \<longleftrightarrow>
     (\<forall>i. in_critical (w_pc w i) \<longrightarrow> w_owner w = Some i) \<and> (\<forall>i. w_pc w i \<noteq> Waiting \<longrightarrow> i < n)
     \<and> (\<forall>i. w_owner w = Some i \<longrightarrow> i < n)
     \<and> distinct (w_log w) \<and> (\<forall>i \<in> set (w_log w). i < n \<and> has_written (w_pc w i))
     \<and> (\<exists>qs body. log_file H p (n - length (w_log w)) (w_fs w) qs body
          \<and> body_messages body = ms @ map (\<lambda>i. job_message (jobs i)) (w_log w)
          \<and> (\<forall>i st. w_pc w i = Loaded st \<longrightarrow> participants st = qs))"

lemma log_file_files: "files s1 p = files s p \<Longrightarrow> log_file H p n s1 qs body = log_file H p n s qs body"
  by (simp add: log_file_def)

lemma chat_view_files: "files s p = files t p \<Longrightarrow> chat_view p s = chat_view p t"
  by (simp add: chat_view_def chat_read_def)

lemma goto_simps [simp]:
  "w_pc (goto w i ph) = (w_pc w)(i := ph)" "w_fs (goto w i ph) = w_fs w"
  "w_owner (goto w i ph) = w_owner w" "w_log (goto w i ph) = w_log w"
  by (simp_all add: goto_def)

text \<open>A step that leaves the chat file and the log alone keeps the invariant.\<close>

lemma race_inv_frame:
  assumes "race_inv H p jobs n ms w" "files (w_fs w') p = files (w_fs w) p" "w_log w' = w_log w"
    and "w_pc w' = (w_pc w)(i := ph)" "i < n" "has_written (w_pc w i) \<longrightarrow> has_written ph"
    and "\<And>j. in_critical (w_pc w' j) \<Longrightarrow> w_owner w' = Some j" "\<And>j. w_owner w' = Some j \<Longrightarrow> j < n"
    and "\<And>st qs body. ph = Loaded st \<Longrightarrow> log_file H p (n - length (w_log w)) (w_fs w) qs body \<Longrightarrow> participants st = qs"
  shows "race_inv H p jobs n ms w'"
proof -
  obtain qs body where lf: "log_file H p (n - length (w_log w)) (w_fs w) qs body"
      "body_messages body = ms @ map (\<lambda>i. job_message (jobs i)) (w_log w)"
      "\<forall>i st. w_pc w i = Loaded st \<longrightarrow> participants st = qs"
    using assms(1) unfolding race_inv_def by blast
  have "log_file H p (n - length (w_log w')) (w_fs w') qs body"
    using lf(1) log_file_files[OF assms(2)] assms(3) by simp
  moreover have "\<forall>j st. w_pc w' j = Loaded st \<longrightarrow> participants st = qs"
    using lf assms(4,9) by auto
  ultimately show ?thesis
    using assms(1,3-8) lf(2) unfolding race_inv_def by (auto split: if_splits)
qed

text \<open>Writing under the lock: the file is untouched, or it has exactly the process's line more.\<close>

lemma race_commit:
  assumes "race_inv H p jobs n ms w" "jobs_ok H jobs n" "w_pc w i = Loaded st"
    and "send_locked (j_env (jobs i)) p (j_handle (jobs i)) (j_text (jobs i)) st (w_fs w) = (r, s)"
  obtains (kept) "files s p = files (w_fs w) p" "\<And>k. r \<noteq> Ret (0, k)"
  | (written) qs body where "log_file H p (n - length (w_log w @ [i])) s qs body"
      "body_messages body = ms @ map (\<lambda>i. job_message (jobs i)) (w_log w @ [i])"
      "files s p \<noteq> files (w_fs w) p" "r = Abort \<or> (\<exists>k. r = Ret (0, k))" "i \<notin> set (w_log w)"
proof -
  let ?e = "j_env (jobs i)" and ?h = "j_handle (jobs i)" and ?m = "j_text (jobs i)"
  have i: "i < n" using assms(1,3) by (auto simp: race_inv_def)
  have j: "finite H" "card H \<le> 52" "?h \<in> H" "sendable ?h (se_now ?e) ?m" "clock_ok (se_clock ?e)"
    using assms(2) i by (auto simp: jobs_ok_def)
  have ch: "clean_handle ?h" using j(4) by (simp add: sendable_def)
  obtain qs body where lf: "log_file H p (n - length (w_log w)) (w_fs w) qs body"
      "body_messages body = ms @ map (\<lambda>i. job_message (jobs i)) (w_log w)" "participants st = qs"
    using assms(1,3) unfolding race_inv_def by blast
  have nin: "i \<notin> set (w_log w)" using assms(1,3) by (fastforce simp: race_inv_def)
  have "distinct (w_log w @ [i])" "set (w_log w @ [i]) \<subseteq> {..<n}"
    using assms(1) nin i by (auto simp: race_inv_def)
  then have "length (w_log w @ [i]) \<le> n"
    using card_mono[of "{..<n}" "set (w_log w @ [i])"] distinct_card[of "w_log w @ [i]"] by simp
  then have cap: "n - length (w_log w) = Suc (n - length (w_log w @ [i]))" by simp
  note lf1 = lf(1)[unfolded cap]
  note room = log_file_room[OF lf1 j(1-3) ch]
  obtain c lw lt where c: "files (w_fs w) p = Some c" "is_chat_content c lw lt (join_participants qs) body"
    using lf1 unfolding log_file_def by blast
  have lb: "length body < MAX_MESSAGES" using room(2) by simp
  have rm: "room_for ?h (participants st)" using room(1) lf(3) by simp
  show thesis using assms(4) c lb rm j(4,5)
  proof (cases rule: send_locked_cases)
    case k: kept
    then show thesis using kept c(1) by simp
  next
    case sent
    let ?l = "new_line ?h (se_now ?e) ?m"
    obtain ts where ts: "se_clock ?e = Some ts" "files s p = Some (appended ?h ts qs (body @ [?l]))"
      using sent(1) room(2) lf(3) by (auto simp: send_done_def)
    have t: "field_ok ts" "length ts < 64" using j(5) ts(1) by (auto simp: clock_ok_def)
    note lf2 = log_file_appended[OF lf1 j(1-4) t ts(2)]
    have bm: "body_messages (body @ [?l]) = ms @ map (\<lambda>i. job_message (jobs i)) (w_log w @ [i])"
      using body_messages_new_line[OF j(4)] lf(2) by (simp add: job_message_def)
    have "chat_view p s = chat_view p (w_fs w) @ [job_message (jobs i)]"
      using log_file_view[OF lf2] log_file_view[OF lf1] bm lf(2) by simp
    then have "files s p \<noteq> files (w_fs w) p" using chat_view_files[of s p "w_fs w"] by auto
    then show thesis using written[OF lf2 bm _ sent(2) nin] by blast
  qed
qed

lemma race_inv_written:
  assumes "race_inv H p jobs n ms w" "log_file H p (n - length (w_log w')) (w_fs w') qs body"
    and "body_messages body = ms @ map (\<lambda>i. job_message (jobs i)) (w_log w')"
    and "w_log w' = w_log w @ [i]" "i \<notin> set (w_log w)" "w_pc w i = Loaded st" "has_written ph"
    and "w_pc w' = (w_pc w)(i := ph)" "w_owner w' = (if in_critical ph then w_owner w else None)"
  shows "race_inv H p jobs n ms w'"
proof -
  have own: "w_owner w = Some i" "i < n" using assms(1,6) by (auto simp: race_inv_def)
  have other: "\<not> in_critical (w_pc w j)" if "j \<noteq> i" for j
    using assms(1) own(1) that by (auto simp: race_inv_def)
  have nl: "w_pc w' j \<noteq> Loaded st'" for j st'
    using other[of j] assms(7,8) by (cases "j = i") auto
  have "in_critical (w_pc w' j) \<longrightarrow> w_owner w' = Some j" for j
    using other[of j] assms(8,9) own(1) by (cases "j = i") auto
  moreover have "\<forall>j. w_pc w' j \<noteq> Waiting \<longrightarrow> j < n" using assms(1,8) own(2) by (auto simp: race_inv_def)
  moreover have "\<forall>j. w_owner w' = Some j \<longrightarrow> j < n" using assms(9) own by auto
  moreover have "distinct (w_log w')" "\<forall>j \<in> set (w_log w'). j < n \<and> has_written (w_pc w' j)"
    using assms(1,4,5,7,8) own(2) by (auto simp: race_inv_def)
  ultimately show ?thesis unfolding race_inv_def using assms(2,3) nl by blast
qed

lemma race_inv_step:
  assumes "race_step p jobs n w w'" "race_inv H p jobs n ms w" "jobs_ok H jobs n"
  shows "race_inv H p jobs n ms w'"
  using assms(1)
proof cases
  case (lock i s)
  have "files s p = files (w_fs w) p" by (rule same_butD[OF acquire_same[OF lock(5)]]) simp
  moreover have "\<not> in_critical (w_pc w j)" for j using assms(2) lock(4) by (auto simp: race_inv_def)
  ultimately show ?thesis
    using assms(2) lock by (intro race_inv_frame[OF assms(2), of _ i Reading]) (auto split: if_splits)
next
  case (lock_failed i s)
  have "files s p = files (w_fs w) p" by (rule same_butD[OF acquire_same[OF lock_failed(4)]]) simp
  then show ?thesis
    using assms(2) lock_failed
    by (intro race_inv_frame[OF assms(2), of _ i Finished]) (auto simp: race_inv_def split: if_splits)
next
  case (read i st)
  have own: "w_owner w = Some i" "i < n" using assms(2) read(2) by (auto simp: race_inv_def)
  have "participants st = qs" if lf: "log_file H p (n - length (w_log w)) (w_fs w) qs body" for qs body
  proof -
    obtain c lw lt where c: "files (w_fs w) p = Some c" "is_chat_content c lw lt (join_participants qs) body"
      using lf unfolding log_file_def by blast
    have lb: "length body \<le> MAX_MESSAGES" "list_all clean_participant qs" "length qs \<le> 256"
      using lf assms(3) card_handles[of qs H] by (auto simp: log_file_def jobs_ok_def)
    show ?thesis
      using c lb(1)
    proof (cases rule: chat_read_wf_any[where e = "se_read (j_env (jobs i))"])
      case (state st')
      then show ?thesis using read(3) parse_format_participants[OF lb(2,3)] by simp
    qed (use read(3) in simp)
  qed
  then show ?thesis
    using assms(2) read own
    by (intro race_inv_frame[OF assms(2), of _ i "Loaded st"]) (auto simp: race_inv_def split: if_splits)
next
  case (read_failed i)
  then show ?thesis
    using assms(2)
    by (intro race_inv_frame[OF assms(2), of _ i "Unlocking (-1) 0"]) (auto simp: race_inv_def split: if_splits)
next
  case (commit i st rc k s)
  have own: "w_owner w = Some i" "i < n" using assms(2) commit(2) by (auto simp: race_inv_def)
  show ?thesis using assms(2,3) commit(2,3)
  proof (cases rule: race_commit)
    case kept
    then show ?thesis
      using assms(2) commit own
      by (intro race_inv_frame[OF assms(2), of _ i "Unlocking rc k"]) (auto simp: race_inv_def split: if_splits)
  next
    case (written qs body)
    then show ?thesis
      using commit own by (intro race_inv_written[OF assms(2) _ _ _ _ commit(2), of _ qs body "Unlocking rc k"]) auto
  qed
next
  case (abort_inside i st s)
  have own: "w_owner w = Some i" "i < n" using assms(2) abort_inside(2) by (auto simp: race_inv_def)
  have other: "\<not> in_critical (w_pc w j)" if "j \<noteq> i" for j
    using assms(2) own(1) that by (auto simp: race_inv_def)
  show ?thesis using assms(2,3) abort_inside(2,3)
  proof (cases rule: race_commit)
    case kept
    then show ?thesis
      using abort_inside own other
      by (intro race_inv_frame[OF assms(2), of _ i Finished]) (auto split: if_splits)
  next
    case (written qs body)
    then show ?thesis
      using abort_inside own
      by (intro race_inv_written[OF assms(2) _ _ _ _ abort_inside(2), of _ qs body Finished]) auto
  qed
next
  case (unlock i rc k r s)
  have own: "w_owner w = Some i" "i < n" using assms(2) unlock(2) by (auto simp: race_inv_def)
  have other: "\<not> in_critical (w_pc w j)" if "j \<noteq> i" for j
    using assms(2) own(1) that by (auto simp: race_inv_def)
  have "files s = files (w_fs w)" by (rule release_same[OF unlock(3)])
  then show ?thesis
    using unlock own other
    by (intro race_inv_frame[OF assms(2), of _ i "if r = Ret 0 then Moving k else Finished"]) (auto split: if_splits)
next
  case (move_cursor i k r s)
  have "same_but (side_files p) (w_fs w) s"
    using cursor_write_same[of p "w_fs w"] move_cursor(4) by (metis snd_conv)
  then have "files s p = files (w_fs w) p" by (rule same_butD) simp
  then show ?thesis
    using assms(2) move_cursor
    by (intro race_inv_frame[OF assms(2), of _ i Finished]) (auto simp: race_inv_def split: if_splits)
next
  case (killed i)
  have "i < n" using assms(2) killed(2) by (auto simp: race_inv_def)
  moreover have "\<not> in_critical (w_pc w j)" if "j \<noteq> i" for j
    using assms(2) killed(2) that by (auto simp: race_inv_def)
  ultimately show ?thesis
    using killed by (intro race_inv_frame[OF assms(2), of _ i Finished]) (auto split: if_splits)
qed

section \<open>Reachable worlds\<close>

lemma race_inv_start:
  assumes "log_file H p n s0 qs body"
  shows "race_inv H p jobs n (chat_view p s0) \<lparr>w_fs = s0, w_owner = None, w_pc = \<lambda>_. Waiting, w_log = []\<rparr>"
  using assms log_file_view[OF assms] by (auto simp: race_inv_def)

lemma reachable_inv:
  assumes "reachable p jobs n s0 w" "log_file H p n s0 qs body" "jobs_ok H jobs n"
  shows "race_inv H p jobs n (chat_view p s0) w"
  using assms(1)
  by induction (use race_inv_start[OF assms(2)] race_inv_step assms(3) in auto)

lemma reachable_acknowledged:
  assumes "reachable p jobs n s0 w" "w_pc w i = Moving k \<or> w_pc w i = Unlocking 0 k"
  shows "i \<in> set (w_log w)"
proof -
  have "\<forall>i. (\<exists>k. w_pc w i = Moving k \<or> w_pc w i = Unlocking 0 k) \<longrightarrow> i \<in> set (w_log w)"
    using assms(1)
  proof induction
    case (step w w')
    show ?case using step(2)
    proof cases
      case (unlock i rc k r s)
      then show ?thesis using step.IH release_held[of _ p rc "w_fs w" 0 s] by (auto split: if_splits)
    qed (use step.IH in \<open>auto split: if_splits\<close>)
  qed simp
  then show ?thesis using assms(2) by blast
qed


definition demo_jobs :: "nat \<Rightarrow> job" where
  "demo_jobs i = (if i = 0 then \<lparr>j_env = send_good 1000 demo_time, j_handle = ''bob'', j_text = ''hi''\<rparr>
                  else \<lparr>j_env = send_good 1001 demo_time, j_handle = ''amy'', j_text = ''yo''\<rparr>)"


end
