(* ===== verification/ChatUnread.thy ===== *)
theory ChatUnread
  imports ChatMain ChatRace
begin

text \<open>
  \<open>read --unread\<close> together with the senders: what a reader that follows a chat with its cursor is
  shown.  The chat file is used through its contract \<open>append_log\<close>, the cursor file through
  \<open>kv_store\<close>; the lemmas here say how a write of one leaves the other.
\<close>

section \<open>What the operations do to the cursor file\<close>

definition cursor_file :: "path \<Rightarrow> fs \<Rightarrow> string" where
  "cursor_file p s = (case files s (p @ ''.cursors'') of Some c \<Rightarrow> c | None \<Rightarrow> [])"

text \<open>Every write of a cursor, whatever fails.\<close>

lemma cursor_write_cursors:
  assumes "chat_cursor_write l True w p h i s = (r, s1)"
  shows "cursor_file p s1 = cursor_file p s \<or> h \<noteq> [] \<and> 0 \<le> i \<and> cursor_file p s1 = put_cursor h i (cursor_file p s)"
proof (cases "h = [] \<or> i < 0 \<or> cursor_path p = Abort")
  case True
  then have "s1 = s" using assms by (auto simp: chat_cursor_write_def split: if_splits)
  then show ?thesis by simp
next
  case False
  let ?c = "p @ ''.cursors''"
  obtain x a where la: "chat_lock_acquire l p s = (x, a)" by fastforce
  have cp: "cursor_path p = Ret ?c" using False cursor_path_ret[of p] by (cases "cursor_path p") auto
  have fa: "files a ?c = files s ?c"
    using la by (rule acquire_cases) (auto simp: lock_path_def)
  let ?old = "case files s ?c of Some content \<Rightarrow> read_cursors content | None \<Rightarrow> []"
  have r0: "read_cursors [] = []" by (simp add: read_cursors_def cursor_entries_def List.map_filter_def)
  have put: "unlines (cursor_content (set_cursor h i ?old)) = put_cursor h i (cursor_file p s)"
    by (simp add: put_cursor_def cursor_file_def r0 split: option.splits)
  obtain wr b where w: "write_tmp w False (?c @ ''.tmp'') (cursor_content (set_cursor h i ?old)) a = (wr, b)" by fastforce
  have fb: "files b ?c = files a ?c" using write_tmp_same[OF w] by (auto simp: same_but_def)
  have rel: "files t1 ?c = files t ?c" if "release_and_return l p v t = (u, t1)" for v :: int and t t1 u
    using release_same[OF that] by simp
  show ?thesis
  proof (cases "x = Ret True \<and> wr = WDone \<and> w_rename w")
    case True
    have wb: "b = put_file (?c @ ''.tmp'') (unlines (cursor_content (set_cursor h i ?old))) a"
      using write_tmp_done w True by blast
    have "release_and_return l p (0 :: int) (rename_file (?c @ ''.tmp'') ?c b) = (r, s1)"
      using assms False True la w cp fa by (simp add: chat_cursor_write_def Let_def)
    then have "files s1 ?c = Some (unlines (cursor_content (set_cursor h i ?old)))" using rel wb by simp
    then have "cursor_file p s1 = put_cursor h i (cursor_file p s)" using put by (simp add: cursor_file_def)
    then show ?thesis using False by simp
  next
    case False2: False
    have "files s1 ?c = files s ?c"
      using assms False False2 la w cp fa fb rel
      by (cases x; cases wr) (auto simp: chat_cursor_write_def Let_def split: if_splits bool.splits)
    then show ?thesis by (simp add: cursor_file_def)
  qed
qed

lemma send_commit_cursors:
  assumes "send_commit w p n ls s = (r, s1)"
  shows "files s1 (p @ ''.cursors'') = files s (p @ ''.cursors'')"
proof -
  obtain wr b where w: "write_tmp w True (p @ ''.tmp'') ls s = (wr, b)" by fastforce
  have fb: "files b (p @ ''.cursors'') = files s (p @ ''.cursors'')"
    using write_tmp_same[OF w] by (auto simp: same_but_def)
  show ?thesis using assms w fb by (cases wr) (auto simp: send_commit_def Let_def split: if_splits)
qed

lemma send_locked_cursors:
  assumes "send_locked e p h msg st s = (r, s1)"
    and "files s p = Some c" "is_chat_content c lw lt ps body" "length body < ARCHIVE_THRESHOLD"
  shows "files s1 (p @ ''.cursors'') = files s (p @ ''.cursors'')"
    and "\<And>rc i. r = Ret (rc, i) \<Longrightarrow> i \<in> {0, int (length body)}"
proof -
  have lb: "length body \<le> MAX_MESSAGES" using assms(4) by simp
  note sc = send_collect_content[OF assms(3) lb, of "se_line_alloc e"]
  have "files s1 (p @ ''.cursors'') = files s (p @ ''.cursors'')
      \<and> (\<forall>rc i. r = Ret (rc, i) \<longrightarrow> i \<in> {0, int (length body)})"
    using assms sc
    by (auto simp: send_locked_def send_archive_def Let_def dest: send_commit_cursors
        split: outcome.splits option.splits prod.splits if_splits)
  then show "files s1 (p @ ''.cursors'') = files s (p @ ''.cursors'')"
    and "\<And>rc i. r = Ret (rc, i) \<Longrightarrow> i \<in> {0, int (length body)}" by blast+
qed

lemma acquire_cursors: "chat_lock_acquire l p s = (r, s1) \<Longrightarrow> cursor_file p s1 = cursor_file p s"
  by (erule acquire_cases) (auto simp: cursor_file_def lock_path_def)

lemma release_cursors: "release_and_return l p v s = (r, s1) \<Longrightarrow> cursor_file p s1 = cursor_file p s"
  using release_same by (fastforce simp: cursor_file_def)

text \<open>A send that does not archive touches at most the sender's cursor.\<close>

lemma chat_send_cursors:
  assumes "chat_send e p h msg s = (r, s1)" "se_cur_read e"
    and "files s p = Some c" "is_chat_content c lw lt ps body" "length body < ARCHIVE_THRESHOLD"
  shows "cursor_file p s1 = cursor_file p s
    \<or> (\<exists>i \<ge> 0. i \<le> INT_MAX \<and> cursor_file p s1 = put_cursor h i (cursor_file p s))"
proof -
  obtain x a where la: "chat_lock_acquire (se_lock e) p s = (x, a)" by fastforce
  have ca: "cursor_file p a = cursor_file p s" by (rule acquire_cursors[OF la])
  have pa: "files a p = Some c" using same_butD[OF acquire_same[OF la]] assms(3) by simp
  show ?thesis
  proof (cases "h \<noteq> [] \<and> length h < MAX_HANDLE_LEN \<and> x = Ret True")
    case False
    then show ?thesis using assms(1) la ca by (auto simp: chat_send_def split: outcome.splits bool.splits if_splits)
  next
    case True
    show ?thesis
    proof (cases "chat_read (se_read e) p a")
      case (Ret o1)
      show ?thesis
      proof (cases o1)
        case None
        then have "release_and_return (se_lock e) p (-1) a = (r, s1)" using assms(1) la True Ret by (simp add: chat_send_def)
        then show ?thesis using release_cursors ca by metis
      next
        case (Some st)
        obtain y b where sl: "send_locked e p h msg st a = (y, b)" by fastforce
        note lc = send_locked_cursors[OF sl pa assms(4,5)]
        have cb: "cursor_file p b = cursor_file p s" using lc(1) ca by (simp add: cursor_file_def)
        show ?thesis
        proof (cases y)
          case Abort
          then show ?thesis using assms(1) la True Ret Some sl cb by (simp add: chat_send_def)
        next
          case (Ret ri)
          obtain rc i where ri: "ri = (rc, i)" by fastforce
          obtain z d where rl: "release_and_return (se_lock e) p rc b = (z, d)" by fastforce
          have cd: "cursor_file p d = cursor_file p s" using release_cursors[OF rl] cb by simp
          have ib: "0 \<le> i \<and> i \<le> INT_MAX" using lc(2)[of rc i] Ret ri assms(5) by auto
          obtain u k where cw: "chat_cursor_write (se_cur_lock e) (se_cur_read e) (se_cur_write e) p h i d = (u, k)"
            by fastforce
          have "s1 = d \<or> s1 = k"
            using assms(1) la True \<open>chat_read _ p a = Ret o1\<close> Some sl Ret ri rl cw
            by (auto simp: chat_send_def split: outcome.splits if_splits)
          then show ?thesis using cd ib cw cursor_write_cursors[of _ _ p h i d u k] assms(2) by auto
        qed
      qed
    qed (use assms(1) la True ca in \<open>simp add: chat_send_def\<close>)
  qed
qed

text \<open>A write of another handle keeps the handle's cursor, even when the other one finds no room.\<close>

lemma cursor_room_keys:
  "cursors_wf c \<Longrightarrow> cursor_room k c \<longleftrightarrow> k \<in> fst ` set (read_cursors c) \<or> length (read_cursors c) < MAX_PARTICIPANTS"
  using read_cursors_wf[of c] by (auto simp: cursor_room_def image_iff split_beta)

lemma find_other_map: "k \<noteq> h \<Longrightarrow>
  List.find (\<lambda>e. fst e = k) (map (\<lambda>(k, v). if k = h then (k, i) else (k, v)) es) = List.find (\<lambda>e. fst e = k) es"
  by (induction es) auto

lemma put_cursor_other:
  assumes "cursors_wf c" "good_cursor h i" "k \<noteq> h"
  shows "lookup_cursor k (put_cursor h i c) = lookup_cursor k c" "cursors_wf (put_cursor h i c)"
proof -
  have p: "cursor_entries (put_cursor h i c) = map (\<lambda>(k, i). (k, Some i)) (set_cursor h i (read_cursors c))"
    by (rule entries_put_cursor[OF assms(2)])
  have e: "cursor_entries c = map (\<lambda>(k, i). (k, Some i)) (read_cursors c)" by (rule read_cursors_wf[OF assms(1)])
  have l: "lookup_cursor k (put_cursor h i c) = lookup_cursor k c \<and> cursors_wf (put_cursor h i c)"
  proof (cases "cursor_room h c")
    case True
    then show ?thesis using cursors.get_put_other[OF assms(1,2) True assms(3)] cursors.inv_put[OF assms(1,2) True] by simp
  next
    case False
    then have s: "set_cursor h i (read_cursors c) = map (\<lambda>(k, v). if k = h then (k, i) else (k, v)) (read_cursors c)"
      using cursor_room_keys[OF assms(1)] by (auto simp: set_cursor_def Let_def)
    have "length (read_cursors c) \<le> 256" using assms(1) e by (simp add: cursors_wf_def)
    then have "cursors_wf (put_cursor h i c)" by (auto simp: cursors_wf_def p s list_all_iff)
    moreover have "lookup_cursor k (put_cursor h i c) = lookup_cursor k c"
      unfolding lookup_cursor_def p e find_map_key s find_other_map[OF assms(3)] ..
    ultimately show ?thesis by simp
  qed
  then show "lookup_cursor k (put_cursor h i c) = lookup_cursor k c" "cursors_wf (put_cursor h i c)" by simp_all
qed

section \<open>A reader between senders\<close>

text \<open>The cursor of \<open>h\<close> is \<open>i\<close> in a cursor file that can be rewritten.\<close>

definition cursor_at :: "path \<Rightarrow> string \<Rightarrow> int \<Rightarrow> fs \<Rightarrow> bool" where
  "cursor_at p h i s \<longleftrightarrow> cursors_wf (cursor_file p s) \<and> max (-1) (lookup_cursor h (cursor_file p s)) = i"

lemma chat_add_cursor:
  assumes "log_inv H p ts (Suc n) s" "good_message H m" "m_handle m \<noteq> h" "cursor_at p h i s"
  shows "cursor_at p h i (chat_add p ts m s)"
proof -
  obtain qs body where lf: "log_file H p (Suc n) s qs body" using assms(1) unfolding log_inv_def by blast
  then obtain c lw lt where f: "files s p = Some c" "is_chat_content c lw lt (join_participants qs) body"
      "length body < ARCHIVE_THRESHOLD" unfolding log_file_def by auto
  have ch: "clean_handle (m_handle m)" using assms(2) by (simp add: good_message_def sendable_def)
  have re: "se_cur_read (send_good k t)" for k t by (simp add: send_good_def)
  obtain r where r: "chat_send (send_good (m_timestamp m) ts) p (m_handle m) (m_content m) s = (r, chat_add p ts m s)"
    unfolding chat_add_def by (metis prod.collapse)
  show ?thesis using chat_send_cursors[OF r re f]
  proof
    assume "\<exists>j \<ge> 0. j \<le> INT_MAX \<and> cursor_file p (chat_add p ts m s) = put_cursor (m_handle m) j (cursor_file p s)"
    then obtain j where j: "0 \<le> j" "j \<le> INT_MAX" "cursor_file p (chat_add p ts m s) = put_cursor (m_handle m) j (cursor_file p s)"
      by blast
    have g: "good_cursor (m_handle m) j" using j ch clean_handle_key[OF ch] by (simp add: good_cursor_def clean_handle_def)
    have "cursors_wf (cursor_file p s)" using assms(4) by (simp add: cursor_at_def)
    note o = put_cursor_other[OF this g assms(3)[symmetric]]
    show ?thesis using assms(4) o j(3) by (simp add: cursor_at_def)
  qed (use assms(4) in \<open>simp add: cursor_at_def\<close>)
qed

lemma chat_adds_cursor:
  "log_inv H p ts (length ms) s \<Longrightarrow> list_all (good_message H) ms \<Longrightarrow> list_all (\<lambda>m. m_handle m \<noteq> h) ms \<Longrightarrow>
   cursor_at p h i s \<Longrightarrow> cursor_at p h i (chat.adds p ts ms s)"
proof (induction ms arbitrary: s)
  case (Cons m ms)
  have i: "log_inv H p ts (Suc (length ms)) s" "good_message H m" using Cons.prems by simp_all
  then show ?case using Cons chat.inv_add[OF i] chat_add_cursor[OF i] by simp
qed simp

text \<open>The environment of a \<open>read\<close> in which no call fails.\<close>

definition reading_ok :: "main_env \<Rightarrow> bool" where
  "reading_ok e \<longleftrightarrow> read_env_ok (cm_read e) \<and> cm_cur_open e \<and> lock_ok (cm_cur_lock e) \<and> write_env_ok (cm_cur_write e)"

lemma cursor_write_ok:
  assumes "lock_ok l" "write_env_ok w" "path_ok p" "h \<noteq> []" "0 \<le> i"
  shows "\<exists>s1. chat_cursor_write l True w p h i s = (Ret 0, s1)"
proof -
  have c: "cursor_path p = Ret (p @ ''.cursors'')"
    using assms(3) by (simp add: cursor_path_def path_ok_def ASSERT_MSG_def)
  obtain a where la: "chat_lock_acquire l p s = (Ret True, a)" by (rule lock_ok_acquire[OF assms(1,3)])
  show ?thesis
    using assms la c write_tmp_ok[OF assms(2)]
    by (simp add: chat_cursor_write_def Let_def write_env_ok_def lock_ok_def release_sound)
qed

lemma log_inv_files:
  "files t p = files s p \<Longrightarrow> p \<notin> held t \<Longrightarrow> log_inv H p ts n s \<Longrightarrow> log_inv H p ts n t"
  using log_file_files[of t p s] by (auto simp: log_inv_def)

lemma cursor_write_log:
  assumes "chat_cursor_write l True w p h i s = (Ret rc, t)" "log_inv H p ts n s"
  shows "log_inv H p ts n t" "chat_view p t = chat_view p s"
proof -
  have f: "files t p = files s p" using cursor_write_same[of p s l True w h i] assms(1) by (simp add: same_but_def)
  have "p \<notin> held s" using assms(2) by (simp add: log_inv_def)
  then have "p \<notin> held t" by (rule cursor_write_held[OF assms(1)])
  then show "log_inv H p ts n t" using log_inv_files f assms(2) by blast
  show "chat_view p t = chat_view p s" by (rule chat_view_files[OF f])
qed

lemma cursor_read_at:
  assumes "path_ok p" "h \<noteq> []" "cursor_at p h i s"
  shows "\<exists>c. chat_cursor_read True p h s = Ret c \<and> max (-1) c = i"
proof -
  have c: "cursor_path p = Ret (p @ ''.cursors'')"
    using assms(1) by (simp add: cursor_path_def path_ok_def ASSERT_MSG_def)
  have l0: "lookup_cursor h [] = -1" by (simp add: lookup_cursor_def cursor_entries_def List.map_filter_def)
  have "chat_cursor_read True p h s = Ret (lookup_cursor h (cursor_file p s))"
    using assms(2) c l0 by (simp add: chat_cursor_read_def cursor_file_def split: option.splits)
  then show ?thesis using assms(3) by (simp add: cursor_at_def)
qed

lemma log_inv_read:
  assumes "log_inv H p ts n s" "read_env_ok e"
  shows "\<exists>st. chat_read e p s = Ret (Some st) \<and> messages st = chat_view p s"
proof -
  obtain qs body where lf: "log_file H p n s qs body" using assms(1) unfolding log_inv_def by blast
  then obtain c lw lt where f: "files s p = Some c" "is_chat_content c lw lt (join_participants qs) body"
      "length body \<le> MAX_MESSAGES" unfolding log_file_def by auto
  show ?thesis using chat_read_wf[OF assms(2) f] chat_view_content[OF f] by simp
qed

lemma log_inv_length: "log_inv H p ts n s \<Longrightarrow> length (chat_view p s) + n \<le> ARCHIVE_THRESHOLD"
proof -
  assume "log_inv H p ts n s"
  then obtain qs body where lf: "log_file H p n s qs body" unfolding log_inv_def by blast
  then have "length body + n \<le> ARCHIVE_THRESHOLD" unfolding log_file_def by blast
  then show ?thesis using log_file_view[OF lf] length_body_messages[of body] by simp
qed

text \<open>What one \<open>read --unread\<close> shows, and the cursor it leaves.\<close>

definition read_unread :: "main_env \<Rightarrow> string \<Rightarrow> string \<Rightarrow> fs \<Rightarrow> main_result" where
  "read_unread e arg h s = chat_cmd_read e [''nbs-chat'', ''read'', arg, ''--unread='' @ h] s"

lemma read_unread_shows:
  assumes "log_inv H p ts n s" "reading_ok e" "resolve_path e arg = Some p" "good_cursor h 0"
    and "cursor_at p h i s" "i < int (length (chat_view p s))" "length (chat_view p s) < 10000"
  shows "\<exists>t. read_unread e arg h s
      = (Ret (0, map (message_line e []) (drop (nat (i + 1)) (chat_view p s))), t)
    \<and> log_inv H p ts n t \<and> chat_view p t = chat_view p s
    \<and> (cursor_room h (cursor_file p s) \<longrightarrow> cursor_at p h (int (length (chat_view p s)) - 1) t)"
proof -
  let ?ms = "chat_view p s" and ?o = "no_opts\<lparr>unread_handle := Some h\<rparr>"
  have h: "h \<noteq> []" using assms(4) by (simp add: good_cursor_def)
  have ok: "read_env_ok (cm_read e)" "cm_cur_open e" "lock_ok (cm_cur_lock e)" "write_env_ok (cm_cur_write e)"
    using assms(2) by (simp_all add: reading_ok_def)
  have p: "path_ok p" using assms(1) by (simp add: log_inv_def)
  obtain st where st: "chat_read (cm_read e) p s = Ret (Some st)" "messages st = ?ms"
    using log_inv_read[OF assms(1) ok(1)] by blast
  obtain c where c: "chat_cursor_read True p h s = Ret c" "max (-1) c = i" using cursor_read_at[OF p h assms(5)] by blast
  have opts: "parse_opts (read_opt (cm_time e)) [''--unread='' @ h] no_opts = Ret (Some ?o)"
    using h by (simp add: read_opt_def)
  have i: "-1 \<le> i" using c(2) by auto
  have start: "unread_start e p h (length ?ms) s = (Ret (nat (i + 1)), s)"
    using c assms(6,7) ok(2) by (auto simp: unread_start_def max_def split: if_splits)
  have range: "read_range ?o ?ms (nat (i + 1)) = Ret (nat (i + 1), length ?ms)"
    using i assms(6) by (simp add: read_range_def no_opts_def ASSERT_MSG_def Let_def)
  have run: "read_unread e arg h s = read_print e p ?o ?ms (nat (i + 1)) s"
    using assms(3) opts st start by (simp add: read_unread_def chat_cmd_read_def read_messages_def no_opts_def)
  show ?thesis
  proof (cases "length ?ms > nat (i + 1)")
    case False
    then have "i = int (length ?ms) - 1" using i assms(6) by simp
    then show ?thesis using run range assms(1,5) False by (simp add: read_print_def no_opts_def)
  next
    case True
    let ?j = "int (length ?ms) - 1"
    have j: "0 \<le> ?j" using True by linarith
    obtain t where t: "chat_cursor_write (cm_cur_lock e) True (cm_cur_write e) p h ?j s = (Ret 0, t)"
      using cursor_write_ok[OF ok(3,4) p h j, of s] by blast
    have g: "good_cursor h ?j" using assms(4,7) j by (auto simp: good_cursor_def)
    have cf: "cursor_file p t = put_cursor h ?j (cursor_file p s)"
      using cursor_write_content[OF t] by (simp add: cursor_file_def)
    have wf: "cursors_wf (cursor_file p s)" using assms(5) by (simp add: cursor_at_def)
    have "cursor_at p h ?j t" if "cursor_room h (cursor_file p s)"
      using cursors.get_put_same[OF wf g that] cursors.inv_put[OF wf g that] cf by (simp add: cursor_at_def)
    then show ?thesis using run range True t ok(2) cursor_write_log[OF t assms(1)]
      by (simp add: read_print_def no_opts_def)
  qed
qed


section \<open>Witnesses\<close>

definition no_files :: fs where
  "no_files = \<lparr>files = \<lambda>_. None, held = {}\<rparr>"

definition made_fs :: "path \<Rightarrow> fs" where
  "made_fs p = snd (chat_create write_good (Some demo_time) p no_files)"

lemma made_content:
  "files (made_fs p) p = Some demo_bytes" "is_chat_content demo_bytes ''system'' demo_time (join_participants []) []"
  "q \<noteq> p \<Longrightarrow> files (made_fs p) q = None" "held (made_fs p) = {}"
  using chat_create_ok[of write_good demo_time no_files p] demo_time_ok
  by (simp_all add: made_fs_def demo_bytes_def no_files_def)

lemma made_log:
  assumes "finite H" "card H \<le> 52" "path_ok p" "n \<le> ARCHIVE_THRESHOLD"
  shows "log_inv H p demo_time n (made_fs p)" "chat_view p (made_fs p) = []" "cursor_file p (made_fs p) = []"
proof -
  have "\<exists>c lw lt. files (made_fs p) p = Some c \<and> is_chat_content c lw lt (join_participants []) []"
    using made_content(1,2) by blast
  then have "log_file H p n (made_fs p) [] []" using assms(4) unfolding log_file_def by simp
  then show "log_inv H p demo_time n (made_fs p)"
    unfolding log_inv_def using assms demo_time_ok made_content(4) by auto
  show "chat_view p (made_fs p) = []" using chat_view_content[OF made_content(1,2)] by simp
  show "cursor_file p (made_fs p) = []" using made_content(3)[of "p @ ''.cursors''" p] by (simp add: cursor_file_def)
qed

lemma empty_cursors: "cursors_wf []" "cursor_room h []" "cursor_file p s = [] \<Longrightarrow> cursor_at p h (-1) s"
  by (simp_all add: cursors_wf_def cursor_room_def cursor_at_def lookup_cursor_def cursor_entries_def List.map_filter_def)

definition demo_main :: main_env where
  "demo_main = \<lparr>cm_cwd = Some ''/w'', cm_time = \<lparr>te_now = Some 1767323045, te_local = \<lambda>_. None\<rparr>, cm_fmt = \<lambda>_. None,
     cm_read = read_good, cm_verify = read_good, cm_open = True, cm_create = write_good, cm_clock = Some demo_time,
     cm_send = send_good 1000 demo_time,
     cm_trunc = \<lparr>tr_lock = lock_good, tr_read = read_good, tr_reopen = True, tr_line_alloc = \<lambda>_. True, tr_ferror = False,
       tr_close = True, tr_local = \<lambda>_. Some demo_time, tr_clock = Some demo_time, tr_alloc = True, tr_write = write_good\<rparr>,
     cm_cur_lock = lock_good, cm_cur_open = True, cm_cur_write = write_good,
     cm_ticks = \<lambda>_. (read_good, demo_fs), cm_polled = (read_good, demo_fs), cm_glob = \<lambda>_. None,
     cm_glob_read = \<lambda>_. read_good, cm_bridge = demo_bridge\<rparr>"

lemma demo_main_ok: "reading_ok demo_main" "resolve_path demo_main ''a.chat'' = Some ''/w/a.chat''" "path_ok ''/w/a.chat''"
  by (simp_all add: reading_ok_def demo_main_def resolve_path_def path_ok_def Let_def)


end
