(* ===== verification/HubState.thy ===== *)
theory HubState
  imports ChatCursor "HOL-Library.AList"
begin

text \<open>
  The state files of the hub (src/src/nbs-hub/hub.c): reading and writing one key of a file of
  \<open>key=value\<close> lines.  The contract \<open>kv_store\<close> of the cursor files is interpreted on them for files
  whose lines fit the readers' buffers and whose keys and values hold no line breaks; what
  happens to a value with a line break is the subject of a property of the hub.
\<close>

abbreviation (input) LINE_BUF_SIZE :: nat where "LINE_BUF_SIZE \<equiv> 4096"
abbreviation (input) VALUE_BUF_SIZE :: nat where "VALUE_BUF_SIZE \<equiv> 4096"
abbreviation (input) PATH_BUF_SIZE :: nat where "PATH_BUF_SIZE \<equiv> 4096"

section \<open>Reading and writing\<close>

definition key_matches :: "string \<Rightarrow> string \<Rightarrow> bool" where
  "key_matches key line \<longleftrightarrow> take (length key) line = key \<and> take 1 (drop (length key) line) = ''=''"

text \<open>The value of a matching line: a trailing newline is dropped.\<close>

definition line_value :: "string \<Rightarrow> string \<Rightarrow> string" where
  "line_value key line =
     (let val = drop (length key + 1) line in
      if val \<noteq> [] \<and> last val = nl then butlast val else val)"

fun find_value :: "string \<Rightarrow> string list \<Rightarrow> string option" where
  "find_value key [] = None"
| "find_value key (chunk # cs) =
     (if key_matches key (cstr chunk) then Some (line_value key (cstr chunk)) else find_value key cs)"

text \<open>\<open>None\<close> is the return value 0: the caller's buffer is left as it was.\<close>

definition state_read :: "string option \<Rightarrow> string \<Rightarrow> nat \<Rightarrow> string option" where
  "state_read content key out_size =
     (case content of None \<Rightarrow> None
      | Some c \<Rightarrow> map_option (take (out_size - 1)) (find_value key (fgets_all LINE_BUF_SIZE c)))"

definition new_content :: "string \<Rightarrow> string \<Rightarrow> string \<Rightarrow> string" where
  "new_content key value c =
     (let cs = map cstr (fgets_all LINE_BUF_SIZE c) in
      concat (map (\<lambda>line. if key_matches key line then key @ ''='' @ value @ [nl] else line) cs)
      @ (if list_ex (key_matches key) cs then [] else key @ ''='' @ value @ [nl]))"

text \<open>
  What may fail in writing a key: creating the temporary file, opening the old file (then it is
  taken as empty), closing, renaming.
\<close>

record kv_write =
  wr_create :: bool
  wr_open :: bool
  wr_close :: bool
  wr_rename :: bool

definition state_write :: "kv_write \<Rightarrow> string option \<Rightarrow> string \<Rightarrow> string \<Rightarrow> int \<times> string option" where
  "state_write w content key value =
     (if \<not> wr_create w then (-1, content)
      else if \<not> wr_close w then (-1, content)
      else if \<not> wr_rename w then (-1, content)
      else (0, Some (new_content key value (case content of Some c \<Rightarrow> if wr_open w then c else [] | None \<Rightarrow> []))))"

section \<open>Files of clean lines\<close>

definition kv_line :: "string \<times> string \<Rightarrow> string" where
  "kv_line e = fst e @ ''='' @ snd e"

definition kv_text :: "(string \<times> string) list \<Rightarrow> string" where
  "kv_text kvs = unlines (map kv_line kvs)"

definition clean_kv :: "string \<Rightarrow> string \<Rightarrow> bool" where
  "clean_kv k v \<longleftrightarrow> CHR ''='' \<notin> set k \<and> nl \<notin> set k \<and> nl \<notin> set v \<and> no_nul k \<and> no_nul v
     \<and> length k + length v + 2 < LINE_BUF_SIZE"

definition kvs_ok :: "(string \<times> string) list \<Rightarrow> bool" where
  "kvs_ok kvs \<longleftrightarrow> distinct (map fst kvs) \<and> list_all (\<lambda>(k, v). clean_kv k v) kvs"

lemma kvs_ok_simps [simp]:
  "kvs_ok []"
  "kvs_ok ((k, v) # kvs) \<longleftrightarrow> clean_kv k v \<and> k \<notin> fst ` set kvs \<and> kvs_ok kvs"
  by (auto simp: kvs_ok_def)

lemma kvs_ok_update: "kvs_ok kvs \<Longrightarrow> clean_kv k v \<Longrightarrow> kvs_ok (AList.update k v kvs)"
proof (induction kvs)
  case (Cons e kvs)
  obtain a b where "e = (a, b)" by fastforce
  then show ?case using Cons by (cases "a = k") (simp_all add: dom_update)
qed simp

lemma kv_text_simps [simp]:
  "kv_text [] = []" "kv_text (e # kvs) = kv_line e @ nl # kv_text kvs"
  by (simp_all add: kv_text_def)

lemma kv_chunks: "kvs_ok kvs \<Longrightarrow> fgets_all LINE_BUF_SIZE (kv_text kvs) = map (\<lambda>e. kv_line e @ [nl]) kvs"
proof -
  assume ok: "kvs_ok kvs"
  have "fits_line 4096 l" if "l \<in> set (map kv_line kvs)" for l
    using that ok by (auto simp: kvs_ok_def list_all_iff clean_kv_def fits_line_def kv_line_def)
  then show ?thesis using fgets_all_lines[of "map kv_line kvs" 4096 "[]"] by (simp add: kv_text_def)
qed

lemma cstr_kv_line: "clean_kv k v \<Longrightarrow> cstr (kv_line (k, v) @ [nl]) = kv_line (k, v) @ [nl]"
  by (simp add: clean_kv_def kv_line_def cstr_id)

lemma cstr_kv_lines: "kvs_ok kvs \<Longrightarrow> map cstr (map (\<lambda>e. kv_line e @ [nl]) kvs) = map (\<lambda>e. kv_line e @ [nl]) kvs"
proof (induction kvs)
  case (Cons e kvs)
  then show ?case using cstr_kv_line[of "fst e" "snd e"] by (cases e) simp
qed simp

text \<open>Where two names without \<open>=\<close> start the same line, they are the same.\<close>

lemma key_matches_line:
  assumes "CHR ''='' \<notin> set key" "CHR ''='' \<notin> set k"
  shows "key_matches key (k @ CHR ''='' # r) \<longleftrightarrow> key = k"
proof
  assume m: "key_matches key (k @ CHR ''='' # r)"
  then obtain t where "k @ CHR ''='' # r = key @ CHR ''='' # t"
    unfolding key_matches_def
    by (metis (no_types, lifting) append_Cons append_Nil append_take_drop_id append_assoc)
  then have "takeWhile (\<lambda>c. c \<noteq> CHR ''='') (k @ CHR ''='' # r) = key"
    using takeWhile_before[OF assms(1), of t] by simp
  then show "key = k" using takeWhile_before[OF assms(2), of r] by simp
qed (simp add: key_matches_def)

lemma find_value_lines:
  assumes "kvs_ok kvs" "CHR ''='' \<notin> set key"
  shows "find_value key (map (\<lambda>e. kv_line e @ [nl]) kvs) = map_of kvs key"
  using assms(1)
proof (induction kvs)
  case (Cons e kvs)
  obtain k v where e: "e = (k, v)" by fastforce
  have kv: "clean_kv k v" "kvs_ok kvs" using Cons.prems e by simp_all
  have m: "key_matches key (kv_line e @ [nl]) \<longleftrightarrow> key = k"
    using key_matches_line[OF assms(2), of k "v @ [nl]"] kv(1) by (simp add: e kv_line_def clean_kv_def)
  have "line_value k (kv_line e @ [nl]) = v" by (simp add: line_value_def kv_line_def e)
  then show ?case using Cons.IH[OF kv(2)] m cstr_kv_line[OF kv(1)] by (simp add: e)
qed simp

lemma concat_lines: "concat (map (\<lambda>e. kv_line e @ [nl]) kvs) = kv_text kvs"
  by (induction kvs) simp_all

lemma new_content_lines:
  assumes "kvs_ok kvs" "clean_kv key value"
  shows "new_content key value (kv_text kvs) = kv_text (AList.update key value kvs)"
proof -
  let ?f = "\<lambda>line. if key_matches key line then key @ ''='' @ value @ [nl] else line"
  have ne: "CHR ''='' \<notin> set key" using assms(2) by (simp add: clean_kv_def)
  have m: "key_matches key (kv_line e @ [nl]) \<longleftrightarrow> key = fst e" if "e \<in> set kvs" for e
    using that assms(1) key_matches_line[OF ne, of "fst e" "snd e @ [nl]"]
    by (auto simp: kvs_ok_def list_all_iff kv_line_def clean_kv_def)
  have ex: "list_ex (key_matches key) (map (\<lambda>e. kv_line e @ [nl]) kvs) \<longleftrightarrow> key \<in> fst ` set kvs"
    using m by (auto simp: list_ex_iff)
  have body: "concat (map ?f (map (\<lambda>e. kv_line e @ [nl]) kvs))
      = concat (map (\<lambda>e. if key = fst e then key @ ''='' @ value @ [nl] else kv_line e @ [nl]) kvs)"
    using m by (auto simp: o_def intro!: arg_cong[of _ _ concat])
  have upd: "concat (map (\<lambda>e. if key = fst e then key @ ''='' @ value @ [nl] else kv_line e @ [nl]) kvs)
      @ (if key \<in> fst ` set kvs then [] else key @ ''='' @ value @ [nl]) = kv_text (AList.update key value kvs)"
    using assms(1)
  proof (induction kvs)
    case (Cons e kvs)
    obtain k v where e: "e = (k, v)" by fastforce
    show ?case
    proof (cases "key = k")
      case True
      then have "key \<notin> fst ` set kvs" using Cons.prems e by simp
      then have "map (\<lambda>e. if key = fst e then key @ ''='' @ value @ [nl] else kv_line e @ [nl]) kvs
          = map (\<lambda>e. kv_line e @ [nl]) kvs" by auto
      then have "concat (map (\<lambda>e. if key = fst e then key @ ''='' @ value @ [nl] else kv_line e @ [nl]) kvs) = kv_text kvs"
        unfolding concat_lines[of kvs, symmetric] by (rule arg_cong)
      then show ?thesis using True e by (simp add: kv_line_def[of "(k, value)"])
    next
      case False
      then show ?thesis using Cons e by simp
    qed
  qed (simp add: kv_line_def)
  show ?thesis
    unfolding new_content_def Let_def kv_chunks[OF assms(1)] cstr_kv_lines[OF assms(1)] ex body by (rule upd)
qed

section \<open>The contract of a key-value store\<close>

definition state_value :: "string \<Rightarrow> string \<Rightarrow> string option" where
  "state_value key c = find_value key (fgets_all LINE_BUF_SIZE c)"

definition put_value :: "string \<Rightarrow> string option \<Rightarrow> string \<Rightarrow> string" where
  "put_value key v c = (case v of None \<Rightarrow> c | Some value \<Rightarrow> new_content key value c)"

definition good_value :: "string \<Rightarrow> string option \<Rightarrow> bool" where
  "good_value key v = (case v of None \<Rightarrow> False | Some value \<Rightarrow> clean_kv key value)"

definition store_ok :: "string \<Rightarrow> bool" where
  "store_ok c \<longleftrightarrow> (\<exists>kvs. kvs_ok kvs \<and> c = kv_text kvs)"

lemma state_value_text: "kvs_ok kvs \<Longrightarrow> CHR ''='' \<notin> set key \<Longrightarrow> state_value key (kv_text kvs) = map_of kvs key"
  by (simp add: state_value_def kv_chunks find_value_lines)

lemma store_ok_Nil: "store_ok []"
  unfolding store_ok_def by (rule exI[of _ "[]"]) simp

text \<open>Keys with an equality sign are never read as keys; the contract is about the others.\<close>

definition get_value :: "string \<Rightarrow> string \<Rightarrow> string option" where
  "get_value key c = (if CHR ''='' \<in> set key then None else state_value key c)"

lemma get_value_plain: "CHR ''='' \<notin> set key \<Longrightarrow> state_value key c = get_value key c"
  by (simp add: get_value_def)

lemma get_put_value:
  assumes "store_ok c" "good_value k v"
  shows "get_value k' (put_value k v c) = (if k' = k then v else get_value k' c)" "store_ok (put_value k v c)"
proof -
  obtain kvs where kvs: "kvs_ok kvs" "c = kv_text kvs" using assms(1) by (auto simp: store_ok_def)
  obtain x where x: "v = Some x" "clean_kv k x" using assms(2) by (auto simp: good_value_def split: option.splits)
  have p: "put_value k v c = kv_text (AList.update k x kvs)" and ok: "kvs_ok (AList.update k x kvs)"
    using new_content_lines[OF kvs(1) x(2)] kvs_ok_update[OF kvs(1) x(2)] by (simp_all add: put_value_def x kvs)
  show "store_ok (put_value k v c)" using p ok by (auto simp: store_ok_def)
  have "CHR ''='' \<notin> set k" using x(2) by (simp add: clean_kv_def)
  then show "get_value k' (put_value k v c) = (if k' = k then v else get_value k' c)"
    unfolding p unfolding kvs(2) x(1) using state_value_text[OF ok, of k'] state_value_text[OF kvs(1), of k']
    by (auto simp: get_value_def update_conv')
qed

interpretation states: kv_store get_value put_value good_value "\<lambda>_ _. True" store_ok
  by unfold_locales (simp_all add: get_put_value)

end
