(* ===== verification/Hub.thy ===== *)
theory Hub
  imports HubState
begin

text \<open>
  The hub (src/src/nbs-hub/hub.c, main.c): the commands that enforce the process of a supervisor.
  The state is that of one project directory: the manifest, the state file, the log, the chat
  and the archived audits and gate materials.  Programs the hub runs (nbs-workers, nbs-chat, cp,
  tail) are parameters: their exit codes and output.  Paths are taken to fit their buffers where
  the sources cut them off silently.  A command returns its exit code, the lines it prints and
  the new state.
\<close>

abbreviation (input) EXIT_SUCCESS_CODE :: int where "EXIT_SUCCESS_CODE \<equiv> 0"
abbreviation (input) EXIT_ERROR :: int where "EXIT_ERROR \<equiv> 1"
abbreviation (input) EXIT_NOT_FOUND :: int where "EXIT_NOT_FOUND \<equiv> 2"
abbreviation (input) EXIT_AUDIT_REQUIRED :: int where "EXIT_AUDIT_REQUIRED \<equiv> 3"
abbreviation (input) EXIT_BAD_ARGS :: int where "EXIT_BAD_ARGS \<equiv> 4"
abbreviation (input) AUDIT_THRESHOLD :: int where "AUDIT_THRESHOLD \<equiv> 3"
abbreviation (input) STALL_MINUTES :: int where "STALL_MINUTES \<equiv> 30"
abbreviation (input) MAX_DOCS :: nat where "MAX_DOCS \<equiv> 64"

record hub =
  hub_exists :: bool
  manifest :: "string option"
  hub_state :: "string option"
  hub_log_file :: "string option"
  hub_messages :: "string list option"
  archived :: "(string \<times> string) list"

record hub_env =
  he_dir :: "string \<Rightarrow> bool"
  he_write :: "string \<Rightarrow> kv_write"
  he_read :: "string \<Rightarrow> bool"
  he_log :: "string \<Rightarrow> bool"
  he_stamp :: string
  he_epoch :: int
  he_file :: "string \<Rightarrow> string option"
  he_open :: "string \<Rightarrow> bool"
  he_copy :: "string \<Rightarrow> bool"
  he_workers :: int
  he_spawned :: "int \<times> string"
  he_chat :: bool
  he_create :: bool
  he_cwd :: "string option"
  he_hub_at :: "string \<Rightarrow> bool"
  he_tail :: "nat \<Rightarrow> string \<Rightarrow> string list"

section \<open>Helpers\<close>

definition hub_get :: "hub_env \<Rightarrow> string option \<Rightarrow> string \<Rightarrow> nat \<Rightarrow> string option" where
  "hub_get e content key out_size = (if he_read e key then state_read content key out_size else None)"

definition hub_get_or :: "hub_env \<Rightarrow> string option \<Rightarrow> string \<Rightarrow> nat \<Rightarrow> string \<Rightarrow> string" where
  "hub_get_or e content key out_size initial = (case hub_get e content key out_size of Some v \<Rightarrow> v | None \<Rightarrow> initial)"

definition put_state :: "hub_env \<Rightarrow> string \<Rightarrow> string \<Rightarrow> hub \<Rightarrow> hub" where
  "put_state e key value h = h\<lparr>hub_state := snd (state_write (he_write e key) (hub_state h) key value)\<rparr>"

definition put_manifest :: "hub_env \<Rightarrow> string \<Rightarrow> string \<Rightarrow> hub \<Rightarrow> hub" where
  "put_manifest e key value h = h\<lparr>manifest := snd (state_write (he_write e key) (manifest h) key value)\<rparr>"

definition hub_log :: "hub_env \<Rightarrow> string \<Rightarrow> hub \<Rightarrow> hub" where
  "hub_log e message h =
     (if he_log e message
      then h\<lparr>hub_log_file := Some ((case hub_log_file h of None \<Rightarrow> [] | Some c \<Rightarrow> c)
                                  @ ''['' @ he_stamp e @ ''] '' @ message @ [nl])\<rparr>
      else h)"

definition hub_chat :: "hub_env \<Rightarrow> string \<Rightarrow> hub \<Rightarrow> hub" where
  "hub_chat e message h =
     (case hub_messages h of None \<Rightarrow> h
      | Some ms \<Rightarrow> if he_chat e then h\<lparr>hub_messages := Some (ms @ [message])\<rparr> else h)"

definition file_exists :: "hub_env \<Rightarrow> string \<Rightarrow> bool" where
  "file_exists e p \<longleftrightarrow> he_file e p \<noteq> None"

definition file_nonempty :: "hub_env \<Rightarrow> string \<Rightarrow> bool" where
  "file_nonempty e p = (case he_file e p of None \<Rightarrow> False | Some c \<Rightarrow> c \<noteq> [])"

definition file_contains :: "hub_env \<Rightarrow> string \<Rightarrow> string \<Rightarrow> bool" where
  "file_contains e p substr =
     (case (if he_open e p then he_file e p else None) of None \<Rightarrow> False
      | Some c \<Rightarrow> list_ex (\<lambda>chunk. strstr substr (cstr chunk) \<noteq> None) (fgets_all LINE_BUF_SIZE c))"

text \<open>The directory is shortened to its parent until a hub is found; \<open>None\<close> is -1.\<close>

function find_project_dir :: "hub_env \<Rightarrow> string \<Rightarrow> string option" where
  "find_project_dir e out_dir =
     (if he_hub_at e out_dir then Some out_dir
      else (let parent = rev (drop 1 (dropWhile (\<lambda>c. c \<noteq> CHR ''/'') (rev out_dir))) in
        if CHR ''/'' \<notin> set out_dir \<or> parent = [] then None
        else find_project_dir e parent))"
  by pat_completeness auto
termination
proof (relation "measure (\<lambda>(e, d). length d)", goal_cases)
  case (2 e out_dir parent)
  have "length (dropWhile (\<lambda>c. c \<noteq> CHR ''/'') (rev out_dir)) \<le> length out_dir"
    using length_dropWhile_le[of "\<lambda>c. c \<noteq> CHR ''/''" "rev out_dir"] by simp
  then show ?case using 2 by (cases out_dir) auto
qed simp

declare find_project_dir.simps [simp del]

text \<open>A cast from \<open>long\<close> to \<open>int\<close>.\<close>

definition int_of_long :: "int \<Rightarrow> int" where
  "int_of_long v = (v + 2147483648) mod 4294967296 - 2147483648"

definition strtol :: "string \<Rightarrow> int" where
  "strtol s = st_val (strtoll s)"

text \<open>The minutes warned about, if any.\<close>

definition check_stall :: "hub_env \<Rightarrow> hub \<Rightarrow> int option" where
  "check_stall e h =
     (if hub_get e (hub_state h) ''phase_name'' VALUE_BUF_SIZE = Some ''COMPLETE'' then None
      else (case hub_get e (hub_state h) ''last_spawn_time'' VALUE_BUF_SIZE of
        None \<Rightarrow> None
      | Some val \<Rightarrow>
          (let last = strtol val; d = he_epoch e - last;
               elapsed_min = (if d < 0 then - ((- d) div 60) else d div 60)
           in if st_noconv (strtoll val) \<or> last \<le> 0 then None
              else if elapsed_min \<ge> STALL_MINUTES then Some elapsed_min else None)))"

type_synonym hub_result = "int \<times> string list \<times> hub"

section \<open>Initialising\<close>

definition cmd_init :: "hub_env \<Rightarrow> string \<Rightarrow> string \<Rightarrow> hub \<Rightarrow> hub_result" where
  "cmd_init e project_dir goal h =
     (if hub_exists h then (EXIT_ERROR, [], h)
      else if \<not> he_dir e ''.nbs/hub'' then (EXIT_ERROR, [], h)
      else (let h1 = h\<lparr>hub_exists := True\<rparr> in
        if \<not> he_dir e ''.nbs/hub/audits'' \<or> \<not> he_dir e ''.nbs/hub/gates'' \<or> \<not> he_dir e ''.nbs/chat''
        then (EXIT_ERROR, [], h1)
        else (let h2 = put_manifest e ''goal'' goal (put_manifest e ''project_dir'' project_dir h1);
                  h3 = put_state e ''last_spawn_time'' (dec (he_epoch e))
                        (put_state e ''audit_required'' ''0'' (put_state e ''audit_counter'' ''0''
                          (put_state e ''phase_name'' ''PLANNING'' (put_state e ''phase_num'' ''0'' h2))));
                  h4 = (if hub_messages h3 = None \<and> he_create e then h3\<lparr>hub_messages := Some []\<rparr> else h3);
                  h5 = hub_log e ''Phase 0: PLANNING''
                        (hub_log e (snprintf VALUE_BUF_SIZE (''Terminal goal: '' @ goal)) (hub_log e ''Hub initialised'' h4))
              in (EXIT_SUCCESS_CODE,
                  [''Hub initialised at '' @ project_dir @ ''/.nbs/hub'', ''Terminal goal: '' @ goal, ''Phase: 0 -- PLANNING''],
                  h5))))"

section \<open>Workers\<close>

text \<open>The last line of the captured output that starts with the slug.\<close>

fun worker_of_lines :: "string \<Rightarrow> string list \<Rightarrow> string \<Rightarrow> string" where
  "worker_of_lines slug [] name = name"
| "worker_of_lines slug (l # ls) name =
     worker_of_lines slug ls (if l \<noteq> [] \<and> length l < 256 \<and> take (length slug) l = slug then l else name)"

definition output_lines :: "string \<Rightarrow> string list" where
  "output_lines s = map (\<lambda>c. takeWhile (\<lambda>x. x \<noteq> nl) c) (fgets_all (length s + 2) s)"

definition cmd_spawn :: "hub_env \<Rightarrow> string \<Rightarrow> string \<Rightarrow> hub \<Rightarrow> hub_result" where
  "cmd_spawn e slug task_desc h =
     (if strtol (hub_get_or e (hub_state h) ''audit_required'' 32 ''0'') \<noteq> 0
      then (EXIT_AUDIT_REQUIRED, [], hub_log e ''SPAWN REFUSED: audit gate active'' h)
      else (case he_spawned e of (rc, output) \<Rightarrow>
        (let capture_buf = cstr (take (LINE_BUF_SIZE - 1) output) in
         if rc \<noteq> 0 then (EXIT_ERROR, [capture_buf], h)
         else (let name = worker_of_lines slug (output_lines capture_buf) [];
                   h1 = put_state e ''last_spawn_time'' (dec (he_epoch e)) h;
                   h2 = hub_log e (snprintf VALUE_BUF_SIZE
                          (''SPAWN: '' @ (if name \<noteq> [] then name else slug) @ '' '' @ [CHR 0xE2, CHR 0x80, CHR 0x94] @ '' '' @ task_desc)) h1
               in (EXIT_SUCCESS_CODE, [capture_buf], h2)))))"

definition hub_cmd_check :: "hub_env \<Rightarrow> hub \<Rightarrow> hub_result" where
  "hub_cmd_check e h = (if he_workers e = 0 then EXIT_SUCCESS_CODE else EXIT_ERROR, [], h)"

definition cmd_result :: "hub_env \<Rightarrow> string \<Rightarrow> hub \<Rightarrow> hub_result" where
  "cmd_result e worker_name h =
     (if he_workers e \<noteq> 0 then (EXIT_ERROR, [], h)
      else (let counter = int_of_long (strtol (hub_get_or e (hub_state h) ''audit_counter'' 32 ''0'')) + 1;
                h1 = put_state e ''audit_counter'' (dec counter) h;
                h2 = (if counter \<ge> AUDIT_THRESHOLD
                      then hub_log e ''AUDIT GATE: activated'' (put_state e ''audit_required'' ''1'' h1) else h1);
                h3 = hub_log e (snprintf VALUE_BUF_SIZE
                       (''RESULT: '' @ worker_name @ '' (audit '' @ dec counter @ ''/3)'')) h2
            in (EXIT_SUCCESS_CODE, [], h3)))"

definition cmd_dismiss :: "hub_env \<Rightarrow> string \<Rightarrow> hub \<Rightarrow> hub_result" where
  "cmd_dismiss e worker_name h =
     (if he_workers e = 0 then EXIT_SUCCESS_CODE else EXIT_ERROR, [],
      hub_log e (snprintf VALUE_BUF_SIZE (''DISMISS: '' @ worker_name)) h)"

definition cmd_list :: "hub_env \<Rightarrow> hub \<Rightarrow> hub_result" where
  "cmd_list e h = (if he_workers e = 0 then EXIT_SUCCESS_CODE else EXIT_ERROR, [], h)"

section \<open>Audits and gates\<close>

definition audit_has_goal :: "hub_env \<Rightarrow> string \<Rightarrow> bool" where
  "audit_has_goal e f \<longleftrightarrow> file_contains e f ''goal'' \<or> file_contains e f ''Goal'' \<or> file_contains e f ''terminal''"

definition audit_has_delegation :: "hub_env \<Rightarrow> string \<Rightarrow> bool" where
  "audit_has_delegation e f \<longleftrightarrow> file_contains e f ''delegat'' \<or> file_contains e f ''Delegat''"

definition audit_has_learnings :: "hub_env \<Rightarrow> string \<Rightarrow> bool" where
  "audit_has_learnings e f \<longleftrightarrow> file_contains e f ''3W'' \<or> file_contains e f ''learn'' \<or> file_contains e f ''Learn''
     \<or> file_contains e f ''well'' \<or> file_contains e f ''Well''"

text \<open>Copying a file: the archive it makes.\<close>

definition copy_file :: "hub_env \<Rightarrow> string \<Rightarrow> string \<Rightarrow> hub \<Rightarrow> hub option" where
  "copy_file e src dst h =
     (if he_copy e dst
      then Some (h\<lparr>archived := (dst, (case he_file e src of None \<Rightarrow> [] | Some c \<Rightarrow> c)) # archived h\<rparr>)
      else None)"

definition cmd_audit :: "hub_env \<Rightarrow> string \<Rightarrow> string \<Rightarrow> hub \<Rightarrow> hub_result" where
  "cmd_audit e audit_file project_dir h =
     (if \<not> file_nonempty e audit_file then (EXIT_ERROR, [], h)
      else if \<not> audit_has_goal e audit_file then (EXIT_ERROR, [], h)
      else if \<not> audit_has_delegation e audit_file then (EXIT_ERROR, [], h)
      else if \<not> audit_has_learnings e audit_file then (EXIT_ERROR, [], h)
      else (let archive = snprintf PATH_BUF_SIZE (project_dir @ ''/.nbs/hub/audits/audit-'' @ he_stamp e @ ''.md'') in
        case copy_file e audit_file archive h of
          None \<Rightarrow> (EXIT_ERROR, [], h)
        | Some h1 \<Rightarrow>
            (let h2 = put_state e ''audit_required'' ''0'' (put_state e ''audit_counter'' ''0'' h1);
                 h3 = hub_log e (''AUDIT: accepted '' @ [CHR 0xE2, CHR 0x80, CHR 0x94] @ '' gate cleared'') h2;
                 h4 = hub_chat e ''[HUB] Audit accepted. Spawns unblocked.'' h3
             in (EXIT_SUCCESS_CODE, [''Audit accepted. Spawn gate cleared.''], h4))))"

definition gate_archive :: "hub_env \<Rightarrow> string \<Rightarrow> string \<Rightarrow> string \<Rightarrow> int \<Rightarrow> string \<Rightarrow> hub \<Rightarrow> hub_result" where
  "gate_archive e phase_name test_file audit_file phase_num project_dir h =
     (let archive_base = snprintf PATH_BUF_SIZE
            (project_dir @ ''/.nbs/hub/gates/gate-'' @ dec (phase_num - 1) @ ''-'' @ he_stamp e) in
      case copy_file e test_file (snprintf PATH_BUF_SIZE (archive_base @ ''-tests.md'')) h of
        None \<Rightarrow> (EXIT_ERROR, [], h)
      | Some h1 \<Rightarrow>
         (case copy_file e audit_file (snprintf PATH_BUF_SIZE (archive_base @ ''-audit.md'')) h1 of
            None \<Rightarrow> (EXIT_ERROR, [], h1)
          | Some h2 \<Rightarrow>
             (let log_msg = snprintf VALUE_BUF_SIZE (''GATE: phase '' @ dec (phase_num - 1) @ '' ('' @ phase_name
                     @ '') passed. Now phase '' @ dec phase_num @ ''.'')
              in (EXIT_SUCCESS_CODE,
                  [''Gate passed. Phase '' @ dec (phase_num - 1) @ '' complete.'',
                   ''Now at phase '' @ dec phase_num @ '' '' @ [CHR 0xE2, CHR 0x80, CHR 0x94] @ '' set name with: nbs-hub phase-name <name>''],
                  hub_chat e log_msg (hub_log e log_msg h2)))))"

definition cmd_gate :: "hub_env \<Rightarrow> string \<Rightarrow> string \<Rightarrow> string \<Rightarrow> string \<Rightarrow> hub \<Rightarrow> hub_result" where
  "cmd_gate e phase_name test_file audit_file project_dir h =
     (if phase_name \<noteq> hub_get_or e (hub_state h) ''phase_name'' 256 [] then (EXIT_ERROR, [], h)
      else if \<not> file_nonempty e test_file then (EXIT_ERROR, [], h)
      else if \<not> file_nonempty e audit_file then (EXIT_ERROR, [], h)
      else (let phase_num = int_of_long (strtol (hub_get_or e (hub_state h) ''phase_num'' 32 ''0'')) + 1;
                h1 = put_state e ''phase_name'' ''UNNAMED'' (put_state e ''phase_num'' (dec phase_num) h)
            in gate_archive e phase_name test_file audit_file phase_num project_dir h1))"

definition cmd_phase :: "hub_env \<Rightarrow> hub \<Rightarrow> hub_result" where
  "cmd_phase e h =
     (let get = (\<lambda>key n initial. hub_get_or e (hub_state h) key n initial);
          required = get ''audit_required'' 32 ''0''
      in (EXIT_SUCCESS_CODE,
          [''Phase: '' @ get ''phase_num'' 32 ''?'' @ '' -- '' @ get ''phase_name'' 256 ''?'',
           ''Audit: '' @ get ''audit_counter'' 32 ''0'' @ ''/3 results since last check''
             @ (if strtol required \<noteq> 0 then '' [AUDIT REQUIRED]'' else [])], h))"

definition cmd_phase_name :: "hub_env \<Rightarrow> string \<Rightarrow> hub \<Rightarrow> hub_result" where
  "cmd_phase_name e name h =
     (let h1 = put_state e ''phase_name'' name h;
          phase_num = hub_get_or e (hub_state h1) ''phase_num'' 32 ''?''
      in (EXIT_SUCCESS_CODE, [''Phase '' @ phase_num @ '': '' @ name],
          hub_log e (snprintf VALUE_BUF_SIZE (''PHASE NAME: '' @ phase_num @ '' -- '' @ name)) h1))"

end
