(* ===== verification/HubMain.thy ===== *)
theory HubMain
  imports Hub
begin

text \<open>
  The document registry, status, decisions and log of the hub (src/src/nbs-hub/hub.c) and the
  dispatch of its command line (src/src/nbs-hub/main.c).
\<close>

section \<open>Documents\<close>

definition doc_key :: "nat \<Rightarrow> string \<Rightarrow> string" where
  "doc_key i field = ''doc.'' @ dec (int i) @ ''.'' @ field"

definition doc_name_at :: "hub_env \<Rightarrow> hub \<Rightarrow> nat \<Rightarrow> string option" where
  "doc_name_at e h i = hub_get e (manifest h) (doc_key i ''name'') 256"

definition doc_path_at :: "hub_env \<Rightarrow> hub \<Rightarrow> nat \<Rightarrow> string option" where
  "doc_path_at e h i = hub_get e (manifest h) (doc_key i ''path'') PATH_BUF_SIZE"

text \<open>The loops over the slots; \<open>is\<close> is what is left of \<open>0 \<dots> MAX_DOCS - 1\<close>.\<close>

fun doc_entries :: "hub_env \<Rightarrow> hub \<Rightarrow> nat list \<Rightarrow> (string \<times> string) list" where
  "doc_entries e h [] = []"
| "doc_entries e h (i # is) =
     (case doc_name_at e h i of None \<Rightarrow> []
      | Some dname \<Rightarrow>
         (case doc_path_at e h i of None \<Rightarrow> []
          | Some dpath \<Rightarrow> (dname, dpath) # doc_entries e h is))"

fun doc_slot :: "hub_env \<Rightarrow> hub \<Rightarrow> string \<Rightarrow> nat list \<Rightarrow> nat option" where
  "doc_slot e h name [] = None"
| "doc_slot e h name (i # is) =
     (case doc_name_at e h i of None \<Rightarrow> Some i
      | Some v \<Rightarrow> if v = name then Some i else doc_slot e h name is)"

fun doc_find :: "hub_env \<Rightarrow> hub \<Rightarrow> string \<Rightarrow> nat list \<Rightarrow> string option" where
  "doc_find e h name [] = None"
| "doc_find e h name (i # is) =
     (case doc_name_at e h i of None \<Rightarrow> None
      | Some v \<Rightarrow> if v \<noteq> name then doc_find e h name is else doc_path_at e h i)"

text \<open>\<open>printf\<close> with \<open>%-20s\<close>.\<close>

definition pad_right :: "nat \<Rightarrow> string \<Rightarrow> string" where
  "pad_right n s = s @ replicate (n - length s) sp"

definition doc_line :: "hub_env \<Rightarrow> string \<times> string \<Rightarrow> string" where
  "doc_line e d = ''  '' @ pad_right 20 (fst d) @ '' '' @ snd d @ (if file_exists e (snd d) then [] else '' [MISSING]'')"

definition cmd_doc_register :: "hub_env \<Rightarrow> string \<Rightarrow> string \<Rightarrow> hub \<Rightarrow> hub_result" where
  "cmd_doc_register e name doc_path h =
     (case (if take 1 doc_path = ''/'' then Some (snprintf PATH_BUF_SIZE doc_path)
            else map_option (\<lambda>cwd. snprintf PATH_BUF_SIZE (cwd @ ''/'' @ doc_path)) (he_cwd e)) of
        None \<Rightarrow> (EXIT_ERROR, [], h)
      | Some abs_path \<Rightarrow>
         (case doc_slot e h name [0..<MAX_DOCS] of
            None \<Rightarrow> (EXIT_ERROR, [], h)
          | Some slot \<Rightarrow>
             (let h1 = put_manifest e (doc_key slot ''path'') abs_path (put_manifest e (doc_key slot ''name'') name h);
                  h2 = hub_log e (snprintf VALUE_BUF_SIZE (''DOC REGISTER: '' @ name @ '' -> '' @ abs_path)) h1
              in (EXIT_SUCCESS_CODE, [''Registered: '' @ name @ '' -> '' @ abs_path], h2))))"

definition cmd_doc_list :: "hub_env \<Rightarrow> hub \<Rightarrow> hub_result" where
  "cmd_doc_list e h =
     (let ds = doc_entries e h [0..<MAX_DOCS] in
      (EXIT_SUCCESS_CODE,
       (if ds = [] then [''No documents registered.'', ''Use: nbs-hub doc register <name> <path>''] else map (doc_line e) ds), h))"

definition cmd_doc_read :: "hub_env \<Rightarrow> string \<Rightarrow> hub \<Rightarrow> hub_result" where
  "cmd_doc_read e name h =
     (case doc_find e h name [0..<MAX_DOCS] of
        None \<Rightarrow> (EXIT_NOT_FOUND, [], h)
      | Some dpath \<Rightarrow>
         (case he_file e dpath of
            None \<Rightarrow> (EXIT_NOT_FOUND, [], h)
          | Some content \<Rightarrow>
              if \<not> he_open e dpath then (EXIT_ERROR, [], h)
              else (EXIT_SUCCESS_CODE, [content], h)))"

section \<open>Decisions, log and status\<close>

definition cmd_decision :: "hub_env \<Rightarrow> string \<Rightarrow> hub \<Rightarrow> hub_result" where
  "cmd_decision e t h =
     (let log_msg = snprintf VALUE_BUF_SIZE (''DECISION: '' @ t)
      in (EXIT_SUCCESS_CODE, [''Decision recorded.''], hub_chat e log_msg (hub_log e log_msg h)))"

definition cmd_log :: "hub_env \<Rightarrow> int \<Rightarrow> hub \<Rightarrow> hub_result outcome" where
  "cmd_log e n h =
     ASSERT_MSG (n > 0)
      (Ret (EXIT_SUCCESS_CODE,
            (case hub_log_file h of None \<Rightarrow> [''(no log entries)'']
             | Some c \<Rightarrow> (''Log (last '' @ dec n @ ''):'') # he_tail e (nat n) c), h))"

definition hub_cmd_status :: "hub_env \<Rightarrow> hub \<Rightarrow> hub_result outcome" where
  "hub_cmd_status e h =
     (let goal = (case hub_get e (manifest h) ''goal'' VALUE_BUF_SIZE of None \<Rightarrow> [] | Some g \<Rightarrow> [''Terminal goal: '' @ g]);
          get = (\<lambda>key n initial. hub_get_or e (hub_state h) key n initial);
          cnt = strtol (get ''audit_counter'' 32 ''0''); req = strtol (get ''audit_required'' 32 ''0'');
          ds = doc_entries e h [0..<MAX_DOCS]
      in and_then (cmd_log e 10 h) (\<lambda>(rc, log_out, h1).
           Ret (EXIT_SUCCESS_CODE,
                [''=== NBS Hub Status ===''] @ goal
                @ [''Phase: '' @ get ''phase_num'' 32 ''?'' @ '' -- '' @ get ''phase_name'' 256 ''?'',
                   ''Audit: '' @ dec cnt @ ''/3 results since last check''
                     @ (if req \<noteq> 0 then '' [AUDIT REQUIRED '' @ [CHR 0xE2, CHR 0x80, CHR 0x94] @ '' spawns blocked]'' else []),
                   ''Documents:'']
                @ (if ds = [] then [''  (none registered)''] else map (doc_line e) ds)
                @ [''Workers:''] @ log_out, h1)))"

section \<open>Dispatch\<close>

text \<open>
  The commands after the project directory has been found; \<open>args\<close> are the arguments after the
  command.
\<close>

definition hub_doc :: "hub_env \<Rightarrow> string list \<Rightarrow> hub \<Rightarrow> hub_result" where
  "hub_doc e args h =
     (case args of [] \<Rightarrow> (EXIT_BAD_ARGS, [], h)
      | sub # rest \<Rightarrow>
          if sub = ''register'' then
            (case rest of name # doc # _ \<Rightarrow> cmd_doc_register e name doc h | _ \<Rightarrow> (EXIT_BAD_ARGS, [], h))
          else if sub = ''list'' then cmd_doc_list e h
          else if sub = ''read'' then (case rest of name # _ \<Rightarrow> cmd_doc_read e name h | _ \<Rightarrow> (EXIT_BAD_ARGS, [], h))
          else (EXIT_BAD_ARGS, [], h))"

definition log_count :: "string list \<Rightarrow> int" where
  "log_count args =
     (case args of [] \<Rightarrow> 20
      | a # _ \<Rightarrow> (let r = strtoll a in
          if \<not> st_noconv r \<and> st_val r > 0 \<and> st_val r \<le> INT_MAX then st_val r else 20))"

definition hub_command :: "hub_env \<Rightarrow> string \<Rightarrow> string \<Rightarrow> string list \<Rightarrow> hub \<Rightarrow> hub_result outcome" where
  "hub_command e project_dir command args h =
     (let bad = Ret (EXIT_BAD_ARGS, [], h) in
      if command = ''status'' then hub_cmd_status e h
      else if command = ''spawn'' then
        (case args of slug # task_desc # _ \<Rightarrow> Ret (cmd_spawn e slug task_desc h) | _ \<Rightarrow> bad)
      else if command = ''check'' then (case args of w # _ \<Rightarrow> Ret (hub_cmd_check e h) | _ \<Rightarrow> bad)
      else if command = ''result'' then (case args of w # _ \<Rightarrow> Ret (cmd_result e w h) | _ \<Rightarrow> bad)
      else if command = ''dismiss'' then (case args of w # _ \<Rightarrow> Ret (cmd_dismiss e w h) | _ \<Rightarrow> bad)
      else if command = ''list'' then Ret (cmd_list e h)
      else if command = ''audit'' then (case args of f # _ \<Rightarrow> Ret (cmd_audit e f project_dir h) | _ \<Rightarrow> bad)
      else if command = ''gate'' then
        (case args of ph # tests # audit # _ \<Rightarrow> Ret (cmd_gate e ph tests audit project_dir h) | _ \<Rightarrow> bad)
      else if command = ''phase'' then Ret (cmd_phase e h)
      else if command = ''phase-name'' then (case args of name # _ \<Rightarrow> Ret (cmd_phase_name e name h) | _ \<Rightarrow> bad)
      else if command = ''doc'' then Ret (hub_doc e args h)
      else if command = ''decision'' then (case args of t # _ \<Rightarrow> Ret (cmd_decision e t h) | _ \<Rightarrow> bad)
      else if command = ''log'' then cmd_log e (log_count args) h
      else bad)"

definition hub_init_args :: "hub_env \<Rightarrow> string list \<Rightarrow> hub \<Rightarrow> hub_result" where
  "hub_init_args e args h =
     (case args of
        dir # goal # _ \<Rightarrow>
          (case (if take 1 dir = ''/'' then Some (snprintf PATH_BUF_SIZE dir)
                 else map_option (\<lambda>cwd. snprintf PATH_BUF_SIZE (cwd @ ''/'' @ dir)) (he_cwd e)) of
             None \<Rightarrow> (EXIT_ERROR, [], h)
           | Some abs_dir \<Rightarrow> cmd_init e abs_dir goal h)
      | _ \<Rightarrow> (EXIT_BAD_ARGS, [], h))"

definition hub_project :: "hub_env \<Rightarrow> string option \<Rightarrow> int + string" where
  "hub_project e override_dir =
     (case override_dir of
        Some d \<Rightarrow> (let project_dir = snprintf PATH_BUF_SIZE d in
                  if he_hub_at e project_dir then Inr project_dir else Inl EXIT_NOT_FOUND)
      | None \<Rightarrow>
         (case he_cwd e of None \<Rightarrow> Inl EXIT_ERROR
          | Some cwd \<Rightarrow> (case find_project_dir e (snprintf PATH_BUF_SIZE cwd) of None \<Rightarrow> Inl EXIT_NOT_FOUND | Some d \<Rightarrow> Inr d)))"

definition hub_dispatch :: "hub_env \<Rightarrow> string option \<Rightarrow> string list \<Rightarrow> hub \<Rightarrow> hub_result outcome" where
  "hub_dispatch e override_dir args h =
     (case args of
        [] \<Rightarrow> Ret (EXIT_SUCCESS_CODE, [], h)
      | command # rest \<Rightarrow>
          if command = ''init'' then Ret (hub_init_args e rest h)
          else if command \<in> {''help'', ''--help'', ''-h''} then Ret (EXIT_SUCCESS_CODE, [], h)
          else (case hub_project e override_dir of
                  Inl rc \<Rightarrow> Ret (rc, [], h)
                | Inr project_dir \<Rightarrow> hub_command e project_dir command rest h))"

text \<open>\<open>argv\<close> without the program's name.\<close>

definition hub_main :: "hub_env \<Rightarrow> string list \<Rightarrow> hub \<Rightarrow> hub_result outcome" where
  "hub_main e argv h =
     (case argv of
        [] \<Rightarrow> Ret (EXIT_SUCCESS_CODE, [], h)
      | a # rest \<Rightarrow>
          if a = ''--project'' then
            (case rest of d # c # as \<Rightarrow> hub_dispatch e (Some d) (c # as) h
             | _ \<Rightarrow> Ret (EXIT_BAD_ARGS, [], h))
          else hub_dispatch e None argv h)"

end
