(* ===== verification/HubProps.thy ===== *)
theory HubProps
  imports HubMain
begin

text \<open>
  The properties of the hub: the audit gate and the phase counter as invariants of every run,
  the document registry, what a failing archive does, and how a phase name with a line break
  lifts the audit gate.
\<close>

section \<open>Reading and writing the state of a sound hub\<close>

definition all_ok :: kv_write where
  "all_ok = \<lparr>wr_create = True, wr_open = True, wr_close = True, wr_rename = True\<rparr>"

text \<open>State files can be read and written.\<close>

definition env_ok :: "hub_env \<Rightarrow> bool" where
  "env_ok e \<longleftrightarrow> he_write e = (\<lambda>_. all_ok) \<and> he_read e = (\<lambda>_. True) \<and> 0 \<le> he_epoch e \<and> he_epoch e \<le> LLONG_MAX"

definition content_of :: "string option \<Rightarrow> string" where
  "content_of c = (case c of None \<Rightarrow> [] | Some s \<Rightarrow> s)"

definition hub_wf :: "hub \<Rightarrow> bool" where
  "hub_wf h \<longleftrightarrow> store_ok (content_of (hub_state h))"

definition hub_val :: "hub \<Rightarrow> string \<Rightarrow> string option" where
  "hub_val h key = get_value key (content_of (hub_state h))"

lemma get_value_Nil [simp]: "get_value key [] = None"
  by (simp add: get_value_def state_value_def)

lemma state_read_value:
  "CHR ''='' \<notin> set key \<Longrightarrow> state_read content key n = map_option (take (n - 1)) (get_value key (content_of content))"
  by (simp add: state_read_def get_value_def state_value_def content_of_def split: option.splits)

lemma state_write_ok:
  "state_write all_ok content key value = (0, Some (put_value key (Some value) (content_of content)))"
  by (simp add: state_write_def all_ok_def put_value_def content_of_def split: option.splits)

lemma hub_get_val: "env_ok e \<Longrightarrow> CHR ''='' \<notin> set key \<Longrightarrow> hub_get e (hub_state h) key n = map_option (take (n - 1)) (hub_val h key)"
  by (simp add: hub_get_def env_ok_def state_read_value hub_val_def)

lemma hub_get_or_val:
  "env_ok e \<Longrightarrow> CHR ''='' \<notin> set key \<Longrightarrow>
   hub_get_or e (hub_state h) key n initial = (case hub_val h key of Some v \<Rightarrow> take (n - 1) v | None \<Rightarrow> initial)"
  by (simp add: hub_get_or_def hub_get_val split: option.splits)

lemma put_state_content: "env_ok e \<Longrightarrow> content_of (hub_state (put_state e key v h)) = put_value key (Some v) (content_of (hub_state h))"
  by (simp add: put_state_def env_ok_def state_write_ok) (simp add: content_of_def)

lemma put_state_val:
  assumes "env_ok e" "hub_wf h" "clean_kv key v"
  shows "hub_val (put_state e key v h) k = (if k = key then Some v else hub_val h k)"
    and "hub_wf (put_state e key v h)"
  using get_put_value[of "content_of (hub_state h)" key "Some v"] assms
  by (simp_all add: hub_val_def hub_wf_def put_state_content good_value_def)

text \<open>Nothing else touches the state file.\<close>

lemma hub_log_simps [simp]: "hub_state (hub_log e m h) = hub_state h" "hub_val (hub_log e m h) = hub_val h" "hub_wf (hub_log e m h) = hub_wf h"
  by (simp_all add: hub_log_def hub_val_def hub_wf_def fun_eq_iff)

lemma hub_chat_simps [simp]: "hub_state (hub_chat e m h) = hub_state h" "hub_val (hub_chat e m h) = hub_val h" "hub_wf (hub_chat e m h) = hub_wf h"
  by (simp_all add: hub_chat_def hub_val_def hub_wf_def fun_eq_iff split: option.splits)

lemma put_manifest_simps [simp]:
  "hub_state (put_manifest e k v h) = hub_state h" "hub_val (put_manifest e k v h) = hub_val h" "hub_wf (put_manifest e k v h) = hub_wf h"
  by (simp_all add: put_manifest_def hub_val_def hub_wf_def fun_eq_iff)

lemma copy_file_simps: "copy_file e src dst h = Some h1 \<Longrightarrow> hub_state h1 = hub_state h \<and> hub_val h1 = hub_val h \<and> hub_wf h1 = hub_wf h"
  by (auto simp: copy_file_def hub_val_def hub_wf_def fun_eq_iff split: if_splits)

lemma short_dec: "0 \<le> n \<Longrightarrow> n \<le> LLONG_MAX \<Longrightarrow> length (dec n) \<le> 19 \<and> nl \<notin> set (dec n) \<and> no_nul (dec n)"
  using length_dec_int64[of n] dec_not_in[of nl n] by (auto simp: isdigit_def)

lemma clean_number: "0 \<le> n \<Longrightarrow> n \<le> LLONG_MAX \<Longrightarrow> length key < 1000 \<Longrightarrow> CHR ''='' \<notin> set key \<Longrightarrow> nl \<notin> set key \<Longrightarrow> no_nul key \<Longrightarrow>
    clean_kv key (dec n)"
  using short_dec[of n] by (simp add: clean_kv_def)

lemma strtol_dec: "0 \<le> n \<Longrightarrow> n \<le> LLONG_MAX \<Longrightarrow> strtol (dec n) = n"
  using strtoll_dec[of n "[]"] by (simp add: strtol_def)

lemma take_dec: "0 \<le> n \<Longrightarrow> n \<le> LLONG_MAX \<Longrightarrow> take 31 (dec n) = dec n"
  using short_dec[of n] by simp

lemma int_of_long_small: "0 \<le> v \<Longrightarrow> v \<le> INT_MAX \<Longrightarrow> int_of_long v = v"
  by (simp add: int_of_long_def)

section \<open>Runs\<close>

text \<open>What the supervisor may pass as a phase name without disturbing the state file.\<close>

definition clean_phase :: "string \<Rightarrow> bool" where
  "clean_phase n \<longleftrightarrow> nl \<notin> set n \<and> no_nul n \<and> length n < 4000"

definition gate_admitted :: "hub_env \<Rightarrow> string \<Rightarrow> string \<Rightarrow> string \<Rightarrow> hub \<Rightarrow> bool" where
  "gate_admitted e phase_name test_file audit_file h \<longleftrightarrow>
     phase_name = hub_get_or e (hub_state h) ''phase_name'' 256 [] \<and> file_nonempty e test_file \<and> file_nonempty e audit_file"

text \<open>
  \<open>hub_reach h c p\<close>: the hub can be in state \<open>h\<close> after \<open>c\<close> results since the last accepted audit
  and \<open>p\<close> admitted gates, by any sequence of commands whose state files can be read and written.
\<close>

inductive hub_reach :: "hub \<Rightarrow> int \<Rightarrow> int \<Rightarrow> bool" where
  init: "\<lbrakk>env_ok e; hub_state h0 = None; cmd_init e d goal h0 = (0, out, h)\<rbrakk> \<Longrightarrow> hub_reach h 0 0"
| spawn: "\<lbrakk>hub_reach h c p; env_ok e; cmd_spawn e slug task h = (rc, out, h1)\<rbrakk> \<Longrightarrow> hub_reach h1 c p"
| result: "\<lbrakk>hub_reach h c p; env_ok e; c < INT_MAX; cmd_result e w h = (rc, out, h1)\<rbrakk>
    \<Longrightarrow> hub_reach h1 (if rc = 0 then c + 1 else c) p"
| dismiss: "\<lbrakk>hub_reach h c p; cmd_dismiss e w h = (rc, out, h1)\<rbrakk> \<Longrightarrow> hub_reach h1 c p"
| audit: "\<lbrakk>hub_reach h c p; env_ok e; cmd_audit e f d h = (rc, out, h1)\<rbrakk> \<Longrightarrow> hub_reach h1 (if rc = 0 then 0 else c) p"
| gate: "\<lbrakk>hub_reach h c p; env_ok e; p < INT_MAX; cmd_gate e ph t a d h = (rc, out, h1)\<rbrakk>
    \<Longrightarrow> hub_reach h1 c (if gate_admitted e ph t a h then p + 1 else p)"
| phase_name: "\<lbrakk>hub_reach h c p; env_ok e; clean_phase n; cmd_phase_name e n h = (rc, out, h1)\<rbrakk> \<Longrightarrow> hub_reach h1 c p"
| register: "\<lbrakk>hub_reach h c p; cmd_doc_register e n dp h = (rc, out, h1)\<rbrakk> \<Longrightarrow> hub_reach h1 c p"
| decision: "\<lbrakk>hub_reach h c p; cmd_decision e t h = (rc, out, h1)\<rbrakk> \<Longrightarrow> hub_reach h1 c p"

inductive_cases hub_reachE: "hub_reach h c p"

definition hub_inv :: "hub \<Rightarrow> int \<Rightarrow> int \<Rightarrow> bool" where
  "hub_inv h c p \<longleftrightarrow> hub_wf h \<and> 0 \<le> c \<and> c \<le> INT_MAX \<and> 0 \<le> p \<and> p \<le> INT_MAX
     \<and> hub_val h ''audit_counter'' = Some (dec c) \<and> hub_val h ''phase_num'' = Some (dec p)
     \<and> hub_val h ''audit_required'' = Some (if c \<ge> 3 then ''1'' else ''0'')"

lemma hub_inv_same: "hub_inv h c p \<Longrightarrow> hub_state h1 = hub_state h \<Longrightarrow> hub_inv h1 c p"
  by (simp add: hub_inv_def hub_wf_def hub_val_def)

lemma clean_values:
  "clean_kv ''audit_required'' ''0''" "clean_kv ''audit_required'' ''1''" "clean_kv ''audit_counter'' ''0''"
  "clean_kv ''phase_name'' ''PLANNING''" "clean_kv ''phase_name'' ''UNNAMED''" "clean_kv ''phase_num'' ''0''"
  by (simp_all add: clean_kv_def)

lemma dec_0 [simp]: "dec 0 = ''0''"
  by code_simp

lemma inv_init:
  assumes "env_ok e" "hub_state h0 = None" "cmd_init e d goal h0 = (0, out, h)"
  shows "hub_inv h 0 0" "hub_val h ''phase_name'' = Some ''PLANNING''"
proof -
  let ?b = "put_manifest e ''goal'' goal (put_manifest e ''project_dir'' d (h0\<lparr>hub_exists := True\<rparr>))"
  let ?h = "put_state e ''last_spawn_time'' (dec (he_epoch e))
    (put_state e ''audit_required'' ''0'' (put_state e ''audit_counter'' ''0''
      (put_state e ''phase_name'' ''PLANNING'' (put_state e ''phase_num'' ''0'' ?b))))"
  have st: "hub_state h = hub_state ?h"
    using assms(3) by (auto simp: cmd_init_def Let_def split: if_splits)
  have wf: "hub_wf ?b" using assms(2) store_ok_Nil by (simp add: hub_wf_def content_of_def)
  have ep: "clean_kv ''last_spawn_time'' (dec (he_epoch e))"
    using assms(1) by (intro clean_number) (simp_all add: env_ok_def)
  note put = put_state_val[OF assms(1)]
  have "hub_inv ?h 0 0"
    unfolding hub_inv_def using wf ep clean_values by (simp add: put)
  then show "hub_inv h 0 0" using st by (rule hub_inv_same)
  have "hub_val ?h ''phase_name'' = Some ''PLANNING''" using wf ep clean_values by (simp add: put)
  then show "hub_val h ''phase_name'' = Some ''PLANNING''" by (simp add: hub_val_def st)
qed

lemma inv_spawn:
  assumes "hub_inv h c p" "env_ok e" "cmd_spawn e slug task h = (rc, out, h1)"
  shows "hub_inv h1 c p"
proof -
  have ep: "clean_kv ''last_spawn_time'' (dec (he_epoch e))"
    using assms(2) by (intro clean_number) (simp_all add: env_ok_def)
  have "hub_inv (put_state e ''last_spawn_time'' (dec (he_epoch e)) h) c p"
    using assms(1) ep put_state_val[OF assms(2)] by (simp add: hub_inv_def)
  moreover have "hub_state h1 = hub_state h \<or> hub_state h1 = hub_state (put_state e ''last_spawn_time'' (dec (he_epoch e)) h)"
    using assms(3) by (auto simp: cmd_spawn_def Let_def split: if_splits prod.splits)
  ultimately show ?thesis using assms(1) hub_inv_same by blast
qed

lemma inv_counter:
  assumes "hub_inv h c p" "env_ok e"
  shows "strtol (hub_get_or e (hub_state h) ''audit_counter'' 32 ''0'') = c"
    "strtol (hub_get_or e (hub_state h) ''phase_num'' 32 ''0'') = p"
    "strtol (hub_get_or e (hub_state h) ''audit_required'' 32 ''0'') \<noteq> 0 \<longleftrightarrow> c \<ge> 3"
proof -
  have "strtol ''1'' = 1" "strtol ''0'' = 0"
    by (simp_all add: strtol_def strtoll_def isspace_def isdigit_def digit_val_def)
  then show "strtol (hub_get_or e (hub_state h) ''audit_required'' 32 ''0'') \<noteq> 0 \<longleftrightarrow> c \<ge> 3"
    using assms by (simp add: hub_inv_def hub_get_or_val)
qed (use assms in \<open>simp_all add: hub_inv_def hub_get_or_val take_dec strtol_dec\<close>)

lemma inv_result:
  assumes "hub_inv h c p" "env_ok e" "c < INT_MAX" "cmd_result e w h = (rc, out, h1)"
  shows "hub_inv h1 (if rc = 0 then c + 1 else c) p"
proof (cases "he_workers e = 0")
  case False
  then show ?thesis using assms(1,4) by (simp add: cmd_result_def)
next
  case True
  have c: "int_of_long (strtol (hub_get_or e (hub_state h) ''audit_counter'' 32 ''0'')) + 1 = c + 1"
    using assms(1,3) inv_counter(1)[OF assms(1,2)] by (simp add: hub_inv_def int_of_long_small)
  let ?h1 = "put_state e ''audit_counter'' (dec (c + 1)) h"
  let ?h2 = "if c + 1 \<ge> 3 then put_state e ''audit_required'' ''1'' ?h1 else ?h1"
  have rc: "rc = 0" and st: "hub_state h1 = hub_state ?h2"
    using assms(4) True unfolding cmd_result_def Let_def c by (auto simp: put_state_def)
  have cl: "clean_kv ''audit_counter'' (dec (c + 1))"
    using assms(1,3) by (intro clean_number) (simp_all add: hub_inv_def)
  note put = put_state_val[OF assms(2)]
  have "hub_inv ?h2 (c + 1) p"
    using assms(1,3) cl clean_values(2) by (simp add: hub_inv_def put)
  then show ?thesis using st rc hub_inv_same by simp
qed

lemma inv_audit:
  assumes "hub_inv h c p" "env_ok e" "cmd_audit e f d h = (rc, out, h1)"
  shows "hub_inv h1 (if rc = 0 then 0 else c) p"
proof -
  have "hub_state h1 = hub_state h \<and> rc \<noteq> 0
    \<or> rc = 0 \<and> (\<exists>g. hub_state g = hub_state h
        \<and> hub_state h1 = hub_state (put_state e ''audit_required'' ''0'' (put_state e ''audit_counter'' ''0'' g)))"
  proof (cases "file_nonempty e f \<and> audit_has_goal e f \<and> audit_has_delegation e f \<and> audit_has_learnings e f")
    case False
    then have "cmd_audit e f d h = (1, [], h)"
      unfolding cmd_audit_def
      by (cases "file_nonempty e f"; cases "audit_has_goal e f"; cases "audit_has_delegation e f") simp_all
    then show ?thesis using assms(3) by simp
  next
    case True
    let ?a = "snprintf PATH_BUF_SIZE (d @ ''/.nbs/hub/audits/audit-'' @ he_stamp e @ ''.md'')"
    show ?thesis
    proof (cases "copy_file e f ?a h")
      case None
      then show ?thesis using True assms(3) by (simp add: cmd_audit_def)
    next
      case (Some g)
      have "hub_state g = hub_state h" using copy_file_simps[OF Some] by simp
      moreover have "rc = 0 \<and> hub_state h1 = hub_state (put_state e ''audit_required'' ''0'' (put_state e ''audit_counter'' ''0'' g))"
        using True Some assms(3) by (simp add: cmd_audit_def Let_def) auto
      ultimately show ?thesis by blast
    qed
  qed
  then show ?thesis
  proof (elim disjE conjE exE)
    fix g
    assume g: "rc = 0" "hub_state g = hub_state h"
      "hub_state h1 = hub_state (put_state e ''audit_required'' ''0'' (put_state e ''audit_counter'' ''0'' g))"
    have "hub_inv g c p" using assms(1) g(2) by (rule hub_inv_same)
    then have "hub_inv (put_state e ''audit_required'' ''0'' (put_state e ''audit_counter'' ''0'' g)) 0 p"
      using put_state_val[OF assms(2)] clean_values by (simp add: hub_inv_def)
    then show ?thesis using g(1,3) hub_inv_same by simp
  qed (use assms(1) hub_inv_same in simp)
qed

lemma gate_archive_state:
  "gate_archive e ph t a n d h = (rc, out, h1) \<Longrightarrow> hub_state h1 = hub_state h"
  by (auto simp: gate_archive_def Let_def dest!: copy_file_simps split: option.splits)

lemma inv_gate:
  assumes "hub_inv h c p" "env_ok e" "p < INT_MAX" "cmd_gate e ph t a d h = (rc, out, h1)"
  shows "hub_inv h1 c (if gate_admitted e ph t a h then p + 1 else p)"
proof (cases "gate_admitted e ph t a h")
  case False
  then show ?thesis using assms(1,4) by (auto simp: cmd_gate_def gate_admitted_def split: if_splits)
next
  case True
  have n: "int_of_long (strtol (hub_get_or e (hub_state h) ''phase_num'' 32 ''0'')) + 1 = p + 1"
    using assms(1,3) inv_counter(2)[OF assms(1,2)] by (simp add: hub_inv_def int_of_long_small)
  let ?h = "put_state e ''phase_name'' ''UNNAMED'' (put_state e ''phase_num'' (dec (p + 1)) h)"
  have st: "hub_state h1 = hub_state ?h"
    using assms(4) True gate_archive_state unfolding cmd_gate_def Let_def n by (auto simp: gate_admitted_def)
  have cl: "clean_kv ''phase_num'' (dec (p + 1))"
    using assms(1,3) by (intro clean_number) (simp_all add: hub_inv_def)
  have "hub_inv ?h c (p + 1)"
    using assms(1,3) cl clean_values put_state_val[OF assms(2)] by (simp add: hub_inv_def)
  then show ?thesis using st True hub_inv_same by simp
qed

lemma inv_phase_name:
  assumes "hub_inv h c p" "env_ok e" "clean_phase n" "cmd_phase_name e n h = (rc, out, h1)"
  shows "hub_inv h1 c p"
proof -
  have "clean_kv ''phase_name'' n" using assms(3) by (simp add: clean_kv_def clean_phase_def)
  then have "hub_inv (put_state e ''phase_name'' n h) c p"
    using assms(1) put_state_val[OF assms(2)] by (simp add: hub_inv_def)
  moreover have "hub_state h1 = hub_state (put_state e ''phase_name'' n h)"
    using assms(4) by (auto simp: cmd_phase_name_def Let_def)
  ultimately show ?thesis using hub_inv_same by blast
qed

lemma hub_reach_inv: "hub_reach h c p \<Longrightarrow> hub_inv h c p"
proof (induction rule: hub_reach.induct)
  case (init e h0 d goal out h)
  then show ?case by (rule inv_init)
next
  case (spawn h c p e slug task rc out h1)
  then show ?case using inv_spawn by blast
next
  case (result h c p e w rc out h1)
  then show ?case using inv_result by blast
next
  case (dismiss h c p e w rc out h1)
  then show ?case by (auto simp: cmd_dismiss_def intro: hub_inv_same)
next
  case (audit h c p e f d rc out h1)
  then show ?case using inv_audit by blast
next
  case (gate h c p e ph t a d rc out h1)
  then show ?case using inv_gate by blast
next
  case (phase_name h c p e n rc out h1)
  then show ?case using inv_phase_name by blast
next
  case (register h c p e n dp rc out h1)
  then show ?case by (auto simp: cmd_doc_register_def Let_def intro: hub_inv_same split: option.splits)
next
  case (decision h c p e t rc out h1)
  then show ?case by (auto simp: cmd_decision_def Let_def intro: hub_inv_same)
qed

section \<open>A hub for the witnesses\<close>

definition demo_hub :: hub where
  "demo_hub = \<lparr>hub_exists = False, manifest = None, hub_state = None, hub_log_file = None, hub_messages = None, archived = []\<rparr>"

definition demo_hub_env :: hub_env where
  "demo_hub_env = \<lparr>he_dir = \<lambda>_. True, he_write = \<lambda>_. all_ok, he_read = \<lambda>_. True, he_log = \<lambda>_. True,
     he_stamp = ''now'', he_epoch = 100, he_file = \<lambda>_. Some ''goal delegation learnings'', he_open = \<lambda>_. True,
     he_copy = \<lambda>_. False, he_workers = 0, he_spawned = (0, ''w-1''), he_chat = True, he_create = True,
     he_cwd = Some ''/p'', he_hub_at = \<lambda>_. True, he_tail = \<lambda>_ _. []\<rparr>"

lemma demo_hub_env_ok [simp]: "env_ok demo_hub_env"
  by (simp add: env_ok_def demo_hub_env_def)

definition demo_start :: hub where
  "demo_start = snd (snd (cmd_init demo_hub_env ''/p'' ''ship'' demo_hub))"

lemma demo_start_init: "cmd_init demo_hub_env ''/p'' ''ship'' demo_hub
      = (0, fst (snd (cmd_init demo_hub_env ''/p'' ''ship'' demo_hub)), demo_start)"
  by (simp add: cmd_init_def demo_hub_env_def demo_hub_def Let_def demo_start_def)

lemma demo_start_reach: "hub_reach demo_start 0 0"
  using hub_reach.init[OF demo_hub_env_ok _ demo_start_init] by (simp add: demo_hub_def)

lemma demo_admitted: "gate_admitted demo_hub_env ''PLANNING'' ''t'' ''a'' demo_start"
proof -
  have "hub_val demo_start ''phase_name'' = Some ''PLANNING''"
    using inv_init(2)[OF demo_hub_env_ok _ demo_start_init] by (simp add: demo_hub_def)
  moreover have "file_nonempty demo_hub_env f" for f by (simp add: file_nonempty_def demo_hub_env_def)
  ultimately show ?thesis by (simp add: gate_admitted_def hub_get_or_val)
qed

lemma demo_result_reach:
  assumes "hub_reach h c p" "c < INT_MAX"
  shows "\<exists>h1. hub_reach h1 (c + 1) p"
proof -
  obtain out h1 where r: "cmd_result demo_hub_env ''w'' h = (0, out, h1)"
    by (simp add: cmd_result_def demo_hub_env_def Let_def)
  show ?thesis using hub_reach.result[OF assms(1) demo_hub_env_ok assms(2) r] by auto
qed

section \<open>The audit gate and the phases\<close>





text \<open>A gate whose archiving fails reports an error although the phase has been advanced and
  its name is lost: submitting the same gate again is refused as a phase mismatch.\<close>

theorem gate_error_after_advance:
  assumes "hub_reach h c p" "env_ok e" "p < INT_MAX" "gate_admitted e ph t a h" "\<And>dst. \<not> he_copy e dst" "ph \<noteq> ''UNNAMED''"
    and "cmd_gate e ph t a d h = (rc, out, h1)"
  shows "rc = 1 \<and> strtol (hub_get_or e (hub_state h1) ''phase_num'' 32 ''?'') = p + 1 \<and> cmd_gate e ph t a d h1 = (1, [], h1)"
proof -
  have inv: "hub_inv h c p" by (rule hub_reach_inv[OF assms(1)])
  have inv1: "hub_inv h1 c (p + 1)" using inv_gate[OF inv assms(2,3,7)] assms(4) by simp
  have n: "int_of_long (strtol (hub_get_or e (hub_state h) ''phase_num'' 32 ''0'')) + 1 = p + 1"
    using inv assms(3) inv_counter(2)[OF inv assms(2)] by (simp add: hub_inv_def int_of_long_small)
  let ?h = "put_state e ''phase_name'' ''UNNAMED'' (put_state e ''phase_num'' (dec (p + 1)) h)"
  have g: "gate_archive e ph t a (p + 1) d ?h = (1, [], ?h)"
    using assms(5) by (simp add: gate_archive_def copy_file_def Let_def)
  have r: "rc = 1" "h1 = ?h"
    using assms(7) assms(4) g unfolding cmd_gate_def Let_def n by (auto simp: gate_admitted_def)
  have "clean_kv ''phase_num'' (dec (p + 1))"
    using inv assms(3) by (intro clean_number) (simp_all add: hub_inv_def)
  then have "hub_val h1 ''phase_name'' = Some ''UNNAMED''"
    using inv put_state_val[OF assms(2)] clean_values by (simp add: r hub_inv_def)
  then have "hub_get_or e (hub_state h1) ''phase_name'' 256 [] = ''UNNAMED''" using assms(2) by (simp add: hub_get_or_val)
  then have "cmd_gate e ph t a d h1 = (1, [], h1)" using assms(6) by (simp add: cmd_gate_def)
  moreover have "strtol (hub_get_or e (hub_state h1) ''phase_num'' 32 ''?'') = p + 1"
    using inv1 assms(2) by (simp add: hub_inv_def hub_get_or_val take_dec strtol_dec)
  ultimately show ?thesis using r by simp
qed

theorem gate_error_after_advance_witness:
  "fst (cmd_gate demo_hub_env ''PLANNING'' ''t'' ''a'' ''/p'' demo_start) = 1
   \<and> fst (cmd_gate demo_hub_env ''PLANNING'' ''t'' ''a'' ''/p'' (snd (snd (cmd_gate demo_hub_env ''PLANNING'' ''t'' ''a'' ''/p'' demo_start)))) = 1"
proof -
  obtain rc out h where g: "cmd_gate demo_hub_env ''PLANNING'' ''t'' ''a'' ''/p'' demo_start = (rc, out, h)"
    by (cases "cmd_gate demo_hub_env ''PLANNING'' ''t'' ''a'' ''/p'' demo_start")
  have c: "\<not> he_copy demo_hub_env dst" for dst by (simp add: demo_hub_env_def)
  show ?thesis using gate_error_after_advance[OF demo_start_reach demo_hub_env_ok _ demo_admitted c _ g] g by simp
qed

section \<open>Lifting the gate with a phase name\<close>

lemma fgets_kv_lines:
  "kvs_ok kvs \<Longrightarrow> fgets_all LINE_BUF_SIZE (kv_text kvs @ r) = map (\<lambda>e. kv_line e @ [nl]) kvs @ fgets_all LINE_BUF_SIZE r"
proof -
  assume ok: "kvs_ok kvs"
  have "fits_line 4096 l" if "l \<in> set (map kv_line kvs)" for l
    using that ok by (auto simp: kvs_ok_def list_all_iff clean_kv_def fits_line_def kv_line_def)
  then show ?thesis using fgets_all_lines[of "map kv_line kvs" 4096 r] by (simp add: kv_text_def)
qed

lemma find_value_app: "find_value key (cs @ cs') = (case find_value key cs of None \<Rightarrow> find_value key cs' | Some v \<Rightarrow> Some v)"
  by (induction cs) simp_all

lemma kv_text_append: "kv_text (xs @ ys) = kv_text xs @ kv_text ys"
  by (simp add: kv_text_def)

lemma kvs_ok_append: "kvs_ok (xs @ ys) \<Longrightarrow> kvs_ok xs \<and> kvs_ok ys"
  by (simp add: kvs_ok_def)

text \<open>Writing a value with a line break writes two lines, the second of which is read first.\<close>

lemma forged_value:
  assumes "kvs_ok (pre @ (k, old) # post)" "key \<notin> fst ` set pre" "key \<noteq> k" "CHR ''='' \<notin> set key" "clean_kv k x" "clean_kv key v"
  shows "state_value key (new_content k (x @ [nl] @ key @ ''='' @ v) (kv_text (pre @ (k, old) # post))) = Some v"
proof -
  let ?forged = "x @ [nl] @ key @ ''='' @ v"
  let ?f = "\<lambda>line. if key_matches k line then k @ ''='' @ ?forged @ [nl] else line"
  let ?line = "\<lambda>e. kv_line e @ [nl]"
  have pre: "kvs_ok pre" "kvs_ok ((k, old) # post)" using kvs_ok_append[OF assms(1)] by simp_all
  have kpre: "k \<notin> fst ` set pre" using assms(1) by (auto simp: kvs_ok_def)
  have nk: "CHR ''='' \<notin> set k" using pre(2) by (simp add: clean_kv_def)
  have fpre: "concat (map ?f (map ?line pre)) = kv_text pre"
  proof -
    have "?f (?line e) = ?line e" if "e \<in> set pre" for e
    proof -
      have "CHR ''='' \<notin> set (fst e)" "fst e \<noteq> k"
        using that pre(1) kpre by (auto simp: kvs_ok_def list_all_iff clean_kv_def)
      then show ?thesis using key_matches_line[OF nk, of "fst e" "snd e @ [nl]"] by (simp add: kv_line_def)
    qed
    then have "map ?f (map ?line pre) = map ?line pre" by simp
    then show ?thesis unfolding concat_lines[of pre, symmetric] by (rule arg_cong)
  qed
  have fk: "?f (?line (k, old)) = kv_line (k, x) @ [nl] @ kv_line (key, v) @ [nl]"
    using key_matches_line[OF nk nk, of "old @ [nl]"] by (simp add: kv_line_def)
  let ?ls = "map ?line (pre @ (k, old) # post)"
  have n: "new_content k ?forged (kv_text (pre @ (k, old) # post))
      = concat (map ?f ?ls) @ (if list_ex (key_matches k) ?ls then [] else k @ ''='' @ ?forged @ [nl])"
    unfolding new_content_def Let_def kv_chunks[OF assms(1)] cstr_kv_lines[OF assms(1)] by (rule refl)
  obtain rest where "new_content k ?forged (kv_text (pre @ (k, old) # post))
      = kv_text pre @ kv_line (k, x) @ [nl] @ kv_line (key, v) @ [nl] @ rest"
    unfolding n map_append list.map concat_append concat.simps fpre fk by simp
  then have eq: "new_content k ?forged (kv_text (pre @ (k, old) # post)) = kv_text (pre @ [(k, x), (key, v)]) @ rest"
    by (simp add: kv_text_append)
  have ok: "kvs_ok (pre @ [(k, x), (key, v)])"
    using pre(1) kpre assms(2,3,5,6) by (auto simp: kvs_ok_def)
  have nodup: "map_of (pre @ [(k, x), (key, v)]) key = Some v"
    using assms(2,3) by (simp add: map_add_def map_of_eq_None_iff[THEN iffD2] split: option.split)
  show ?thesis
    unfolding state_value_def eq fgets_kv_lines[OF ok] find_value_app find_value_lines[OF ok assms(4)] nodup by simp
qed

text \<open>The audit gate can be lifted without an audit: when the line of the phase name stands
  before the line of the gate in the state file, as it does after \<open>init\<close>, setting a phase name that
  ends in a line break and \<open>audit_required=0\<close> makes the next spawn pass.\<close>

theorem phase_name_lifts_gate:
  assumes "env_ok e" "hub_state h = Some (kv_text (pre @ (''phase_name'', old) # post))"
    and "kvs_ok (pre @ (''phase_name'', old) # post)" "''audit_required'' \<notin> fst ` set pre" "clean_phase x"
    and "cmd_phase_name e (x @ [nl] @ ''audit_required=0'') h = (rc, out, h1)"
  shows "rc = 0 \<and> fst (cmd_spawn e slug task_desc h1) \<noteq> 3"
proof -
  let ?v = "x @ [nl] @ ''audit_required'' @ ''='' @ ''0''"
  have st: "hub_state h1 = hub_state (put_state e ''phase_name'' ?v h)" and rc: "rc = 0"
    using assms(6) by (auto simp: cmd_phase_name_def Let_def)
  have "state_value ''audit_required'' (content_of (hub_state (put_state e ''phase_name'' ?v h))) = Some ''0''"
  proof -
    have cl: "clean_kv ''phase_name'' x" using assms(5) by (simp add: clean_kv_def clean_phase_def)
    have "content_of (hub_state (put_state e ''phase_name'' ?v h)) = new_content ''phase_name'' ?v (kv_text (pre @ (''phase_name'', old) # post))"
      using put_state_content[OF assms(1)] by (simp add: put_value_def assms(2) content_of_def)
    then show ?thesis using forged_value[OF assms(3,4) _ _ cl clean_values(1)] by simp
  qed
  then have "hub_val h1 ''audit_required'' = Some ''0''" by (simp add: hub_val_def st get_value_def)
  then have "strtol (hub_get_or e (hub_state h1) ''audit_required'' 32 ''0'') = 0"
    using assms(1) by (simp add: hub_get_or_val strtol_def strtoll_def isspace_def isdigit_def digit_val_def)
  then show ?thesis using rc by (simp add: cmd_spawn_def Let_def split: prod.splits)
qed

definition demo_gated :: hub where
  "demo_gated = demo_hub\<lparr>hub_state := Some (kv_text ([(''phase_num'', ''0'')] @ (''phase_name'', ''PLANNING'')
     # [(''audit_counter'', ''3''), (''audit_required'', ''1'')]))\<rparr>"

theorem phase_name_lifts_gate_witness:
  "fst (cmd_spawn demo_hub_env ''fix'' ''a bug'' demo_gated) = 3
   \<and> fst (cmd_spawn demo_hub_env ''fix'' ''a bug''
        (snd (snd (cmd_phase_name demo_hub_env (''X'' @ [nl] @ ''audit_required=0'') demo_gated)))) \<noteq> 3"
proof -
  have st: "hub_state demo_gated = Some (kv_text ([(''phase_num'', ''0'')] @ (''phase_name'', ''PLANNING'')
     # [(''audit_counter'', ''3''), (''audit_required'', ''1'')]))" by (simp add: demo_gated_def)
  have ok: "kvs_ok ([(''phase_num'', ''0'')] @ (''phase_name'', ''PLANNING'') # [(''audit_counter'', ''3''), (''audit_required'', ''1'')])"
    "''audit_required'' \<notin> fst ` set [(''phase_num'', ''0'')]" "clean_phase ''X''" by (simp_all add: clean_kv_def clean_phase_def)
  have "hub_val demo_gated ''audit_required'' = Some ''1''"
    using state_value_text[OF ok(1), of "''audit_required''"] by (simp add: hub_val_def get_value_def st content_of_def)
  then have s: "fst (cmd_spawn demo_hub_env ''fix'' ''a bug'' demo_gated) = 3"
    by (simp add: cmd_spawn_def hub_get_or_val strtol_def strtoll_def isspace_def isdigit_def digit_val_def)
  obtain rc out h1 where p: "cmd_phase_name demo_hub_env (''X'' @ [nl] @ ''audit_required=0'') demo_gated = (rc, out, h1)"
    by (cases "cmd_phase_name demo_hub_env (''X'' @ [nl] @ ''audit_required=0'') demo_gated")
  show ?thesis using phase_name_lifts_gate[OF demo_hub_env_ok st ok p, of "''fix''" "''a bug''"] s p by simp
qed

section \<open>Documents\<close>

lemma doc_key_clean: "CHR ''='' \<notin> set (doc_key i f) \<longleftrightarrow> CHR ''='' \<notin> set f"
  using dec_not_in[of "CHR ''=''" "int i"] by (auto simp: doc_key_def isdigit_def)

lemma doc_key_inj: "doc_key i f = doc_key j g \<Longrightarrow> i = j \<and> f = g"
proof -
  assume eq: "doc_key i f = doc_key j g"
  have nd: "CHR ''.'' \<notin> set (dec (int n))" for n using dec_not_in[of "CHR ''.''" "int n"] by (simp add: isdigit_def)
  have e: "dec (int i) @ CHR ''.'' # f = dec (int j) @ CHR ''.'' # g" using eq by (simp add: doc_key_def)
  have "dec (int i) = dec (int j)"
    using arg_cong[OF e, of "takeWhile (\<lambda>c. c \<noteq> CHR ''.'')"] takeWhile_before[OF nd] by simp
  then have "f = g" and d: "dec (int i) = dec (int j)" using e by simp_all
  have "digits_val 0 (dec_nat n) = (n, [])" for n
    using digits_val_dec_nat[of 0 n "[]"] by simp
  then have "i = j" using d by (metis dec_def fst_conv nat_int of_nat_less_0_iff)
  then show "i = j \<and> f = g" using \<open>f = g\<close> by simp
qed

definition man_val :: "hub \<Rightarrow> string \<Rightarrow> string option" where
  "man_val h key = get_value key (content_of (manifest h))"

definition man_wf :: "hub \<Rightarrow> bool" where
  "man_wf h \<longleftrightarrow> store_ok (content_of (manifest h))"

lemma put_manifest_val:
  assumes "env_ok e" "man_wf h" "clean_kv key v"
  shows "man_val (put_manifest e key v h) k = (if k = key then Some v else man_val h k)"
    and "man_wf (put_manifest e key v h)"
proof -
  have "content_of (manifest (put_manifest e key v h)) = put_value key (Some v) (content_of (manifest h))"
    using assms(1) by (simp add: put_manifest_def env_ok_def state_write_ok) (simp add: content_of_def)
  then show "man_val (put_manifest e key v h) k = (if k = key then Some v else man_val h k)" "man_wf (put_manifest e key v h)"
    using get_put_value[of "content_of (manifest h)" key "Some v"] assms
    by (simp_all add: man_val_def man_wf_def good_value_def)
qed

lemma hub_log_manifest [simp]: "manifest (hub_log e m h) = manifest h"
  by (simp add: hub_log_def)

lemma doc_at_val:
  assumes "env_ok e"
  shows "doc_name_at e h i = map_option (take 255) (man_val h (doc_key i ''name''))"
    "doc_path_at e h i = map_option (take 4095) (man_val h (doc_key i ''path''))"
  using assms doc_key_clean[of i "''name''"] doc_key_clean[of i "''path''"]
  by (simp_all add: doc_name_at_def doc_path_at_def hub_get_def env_ok_def state_read_value man_val_def)

lemma clean_doc_kv:
  assumes "nl \<notin> set v" "no_nul v" "length v < 4000" "i < 64" "f = ''name'' \<or> f = ''path''"
  shows "clean_kv (doc_key i f) v"
proof -
  have "length (dec (int i)) \<le> 19" "nl \<notin> set (dec (int i))" "no_nul (dec (int i))"
    using short_dec[of "int i"] assms(4) by simp_all
  moreover have "CHR ''='' \<notin> set (doc_key i f)" using assms(5) doc_key_clean[of i f] by auto
  ultimately show ?thesis using assms by (auto simp: clean_kv_def doc_key_def)
qed

lemma doc_slot_split:
  "doc_slot e h name xs = Some i \<Longrightarrow> \<exists>pre post. xs = pre @ i # post
    \<and> (\<forall>j \<in> set pre. \<exists>v. doc_name_at e h j = Some v \<and> v \<noteq> name)"
proof (induction "xs")
  case (Cons j xs)
  show ?case
  proof (cases "doc_name_at e h j = None \<or> doc_name_at e h j = Some name")
    case True
    then have "i = j" using Cons.prems by auto
    then show ?thesis by (intro exI[of _ "[]"] exI[of _ "xs"]) simp
  next
    case False
    then obtain v where v: "doc_name_at e h j = Some v" "v \<noteq> name" by auto
    then obtain pre post where "xs = pre @ i # post" "\<forall>j \<in> set pre. \<exists>v. doc_name_at e h j = Some v \<and> v \<noteq> name"
      using Cons by auto
    then show ?thesis using v by (intro exI[of _ "j # pre"] exI[of _ post]) simp
  qed
qed simp

lemma doc_find_skip:
  "(\<And>j. j \<in> set pre \<Longrightarrow> \<exists>v. doc_name_at e h j = Some v \<and> v \<noteq> name) \<Longrightarrow> doc_find e h name (pre @ xs) = doc_find e h name xs"
proof (induction pre)
  case (Cons j pre)
  obtain v where "doc_name_at e h j = Some v" "v \<noteq> name" using Cons.prems[of j] by auto
  then show ?case using Cons by simp
qed simp

text \<open>A document registered under a name with an absolute path is what reading that name
  prints afterwards, whatever was registered before, as long as a slot was free.\<close>

theorem doc_register_read:
  assumes "env_ok e" "man_wf h" "cmd_doc_register e name doc_path h = (0, out, h1)"
    and "nl \<notin> set name" "no_nul name" "length name < 256"
    and "take 1 doc_path = ''/''" "nl \<notin> set doc_path" "no_nul doc_path" "length doc_path < 4000"
    and "he_file e doc_path = Some content" "he_open e doc_path"
  shows "cmd_doc_read e name h1 = (0, [content], h1)"
proof -
  have abs: "snprintf PATH_BUF_SIZE doc_path = doc_path" using assms(10) by (simp add: snprintf_def)
  obtain i where i: "doc_slot e h name [0..<64] = Some i"
      and m: "manifest h1 = manifest (put_manifest e (doc_key i ''path'') doc_path (put_manifest e (doc_key i ''name'') name h))"
    using assms(3,7) abs by (auto simp: cmd_doc_register_def Let_def split: option.splits)
  obtain pre post where sp: "[0..<64] = pre @ i # post" "\<forall>j \<in> set pre. \<exists>v. doc_name_at e h j = Some v \<and> v \<noteq> name"
    using doc_slot_split[OF i] by blast
  have "i \<in> set [0..<64]" unfolding sp(1) by simp
  then have i64: "i < 64" by simp
  have "distinct (pre @ i # post)" unfolding sp(1)[symmetric] by simp
  then have ipre: "i \<notin> set pre" by auto
  have cl: "clean_kv (doc_key i ''name'') name" "clean_kv (doc_key i ''path'') doc_path"
    using clean_doc_kv[OF assms(4,5) _ i64] clean_doc_kv[OF assms(8-10) i64] assms(6) by simp_all
  note p1 = put_manifest_val[OF assms(1,2) cl(1)]
  note p2 = put_manifest_val[OF assms(1) p1(2) cl(2)]
  have v: "man_val h1 k = (if k = doc_key i ''path'' then Some doc_path else if k = doc_key i ''name'' then Some name else man_val h k)" for k
    using p1(1) p2(1) by (simp add: man_val_def m)
  have np: "doc_key j ''name'' \<noteq> doc_key i ''path''" for j using doc_key_inj[of j "''name''" i "''path''"] by auto
  have "doc_name_at e h1 j = doc_name_at e h j" if "j \<in> set pre" for j
  proof -
    have "doc_key j ''name'' \<noteq> doc_key i ''name''" using that ipre doc_key_inj[of j "''name''" i "''name''"] by auto
    then show ?thesis using np[of j] by (simp add: doc_at_val[OF assms(1)] v)
  qed
  then have "doc_find e h1 name [0..<64] = doc_find e h1 name (i # post)"
    unfolding sp(1) using sp(2) by (intro doc_find_skip) simp
  also have "\<dots> = Some doc_path"
    using np[of i] assms(6,10) by (simp add: doc_at_val[OF assms(1)] v)
  finally show ?thesis using assms(11,12) by (simp add: cmd_doc_read_def)
qed

theorem doc_register_read_witness:
  "\<exists>h1. cmd_doc_read demo_hub_env ''plan'' h1 = (0, [''goal delegation learnings''], h1)"
proof -
  have wf: "man_wf demo_hub" using store_ok_Nil by (simp add: man_wf_def demo_hub_def content_of_def)
  have "hub_get demo_hub_env (manifest demo_hub) k n = None" for k n
    by (simp add: hub_get_def state_read_def demo_hub_def)
  then have "doc_slot demo_hub_env demo_hub ''plan'' [0..<64] = Some 0"
    by (simp add: upt_conv_Cons doc_name_at_def)
  then obtain out h1 where r: "cmd_doc_register demo_hub_env ''plan'' ''/doc.md'' demo_hub = (0, out, h1)"
    by (simp add: cmd_doc_register_def Let_def)
  show ?thesis
    using doc_register_read[OF demo_hub_env_ok wf r] by (auto simp: demo_hub_env_def)
qed

end
