(* ===== verification/TermAttr.thy ===== *)
theory TermAttr
  imports CStd "HOL-Library.Word"
begin

unbundle bit_operations_syntax

text \<open>
  Text styles and the colours of handles (src/src/nbs-common/nbs_term_attr.c): the escape
  sequence of a style, and the table that gives every handle a colour of the palette.
\<close>

abbreviation (input) esc :: char where "esc \<equiv> CHR 0x1B"

section \<open>Styles\<close>

record nbs_style =
  fg :: int
  bg :: int
  attrs :: "32 word"

abbreviation (input) NBS_COLOUR_NONE :: int where "NBS_COLOUR_NONE \<equiv> -1"
abbreviation (input) NBS_ATTR_BOLD :: "32 word" where "NBS_ATTR_BOLD \<equiv> 1"
abbreviation (input) NBS_ATTR_DIM :: "32 word" where "NBS_ATTR_DIM \<equiv> 2"
abbreviation (input) NBS_ATTR_ITALIC :: "32 word" where "NBS_ATTR_ITALIC \<equiv> 4"
abbreviation (input) NBS_ATTR_UNDERLINE :: "32 word" where "NBS_ATTR_UNDERLINE \<equiv> 8"
abbreviation (input) NBS_ATTR_BLINK :: "32 word" where "NBS_ATTR_BLINK \<equiv> 16"
abbreviation (input) NBS_ATTR_INVERSE :: "32 word" where "NBS_ATTR_INVERSE \<equiv> 32"
abbreviation (input) NBS_ATTR_STRIKE :: "32 word" where "NBS_ATTR_STRIKE \<equiv> 64"

definition no_style :: nbs_style where
  "no_style = \<lparr>fg = NBS_COLOUR_NONE, bg = NBS_COLOUR_NONE, attrs = 0\<rparr>"

definition attr_table :: "(32 word \<times> int) list" where
  "attr_table = [(NBS_ATTR_BOLD, 1), (NBS_ATTR_DIM, 2), (NBS_ATTR_ITALIC, 3), (NBS_ATTR_UNDERLINE, 4),
     (NBS_ATTR_BLINK, 5), (NBS_ATTR_INVERSE, 7), (NBS_ATTR_STRIKE, 9)]"

text \<open>The parameters of the sequence, each after a \<open>;\<close> but the first.\<close>

fun join_params :: "string list \<Rightarrow> string" where
  "join_params [] = []"
| "join_params [p] = p"
| "join_params (p # q # ps) = p @ '';'' @ join_params (q # ps)"

definition style_params :: "nbs_style \<Rightarrow> string list" where
  "style_params style =
     map (\<lambda>(mask, code). dec code) (filter (\<lambda>(mask, code). attrs style AND mask \<noteq> 0) attr_table)
     @ (if 0 \<le> fg style \<and> fg style \<le> 255 then [''38;5;'' @ dec (fg style)] else [])
     @ (if 0 \<le> bg style \<and> bg style \<le> 255 then [''48;5;'' @ dec (bg style)] else [])"

text \<open>
  \<open>None\<close> is the return value -1.  The C buffer \<open>params\<close> is uninitialised: \<open>junk\<close> is the string it
  holds when nothing is written to it, which happens for a colour outside 0..255 without
  attributes.  (What is written fits the 48 bytes: \<open>style_params_length\<close>.)
\<close>

definition nbs_style_start :: "string \<Rightarrow> nbs_style \<Rightarrow> nat \<Rightarrow> string option" where
  "nbs_style_start junk style bufsize =
     (if bufsize < 5 then None
      else if attrs style = 0 \<and> fg style = NBS_COLOUR_NONE \<and> bg style = NBS_COLOUR_NONE then Some []
      else (let ps = join_params (style_params style); needed = 2 + length ps + 1 + 1 in
        if needed > bufsize then None
        else (let out = esc # ''['' @ (if ps = [] then junk else ps) @ ''m'' in
          if length out \<ge> bufsize then None else Some out)))"

definition nbs_style_reset :: "nat \<Rightarrow> string option" where
  "nbs_style_reset bufsize = (if bufsize < 5 then None else Some (esc # ''[0m''))"

text \<open>The predefined styles that the chat uses for its messages.\<close>

definition NBS_STYLE_MEDIC_WARNING :: nbs_style where
  "NBS_STYLE_MEDIC_WARNING = \<lparr>fg = 173, bg = NBS_COLOUR_NONE, attrs = NBS_ATTR_BOLD\<rparr>"

definition NBS_STYLE_SIDECAR_ERROR :: nbs_style where
  "NBS_STYLE_SIDECAR_ERROR = \<lparr>fg = 167, bg = NBS_COLOUR_NONE, attrs = NBS_ATTR_BOLD\<rparr>"

section \<open>The colours of handles\<close>

definition PALETTE :: "nbs_style list" where
  "PALETTE = map (\<lambda>c. \<lparr>fg = c, bg = NBS_COLOUR_NONE, attrs = 0\<rparr>)
     [73, 180, 174, 108, 183, 215, 110, 209, 115, 186, 182, 152, 216, 114, 146, 223]"

abbreviation (input) NBS_MAX_HANDLE_COLOURS :: nat where "NBS_MAX_HANDLE_COLOURS \<equiv> 256"

record handle_colours =
  handle_map :: "(string \<times> nat) list"
  next_colour :: nat

definition nbs_handle_colours_init :: handle_colours where
  "nbs_handle_colours_init = \<lparr>handle_map = [], next_colour = 0\<rparr>"

definition nbs_handle_colour :: "string \<Rightarrow> handle_colours \<Rightarrow> nbs_style \<times> handle_colours" where
  "nbs_handle_colour handle hc =
     (case List.find (\<lambda>e. fst e = handle) (handle_map hc) of
        Some (h, colour_index) \<Rightarrow> (PALETTE ! colour_index, hc)
      | None \<Rightarrow>
          if length (handle_map hc) < NBS_MAX_HANDLE_COLOURS then
            if length handle \<ge> 64 then (PALETTE ! 0, hc)
            else (PALETTE ! next_colour hc,
                  \<lparr>handle_map = handle_map hc @ [(handle, next_colour hc)],
                   next_colour = (next_colour hc + 1) mod length PALETTE\<rparr>)
          else (PALETTE ! 0, hc))"

definition nbs_handle_palette_entry :: "int \<Rightarrow> nbs_style option" where
  "nbs_handle_palette_entry index =
     (if index < 0 \<or> index \<ge> int (length PALETTE) then None else Some (PALETTE ! nat index))"

section \<open>What a style sequence is\<close>

lemma length_PALETTE [simp]: "length PALETTE = 16"
  by (simp add: PALETTE_def)

lemma dec_length_3: "0 \<le> c \<Longrightarrow> c \<le> 255 \<Longrightarrow> length (dec c) \<le> 3"
  by (rule length_dec_bound) simp_all

lemma dec_one: "0 \<le> c \<Longrightarrow> c \<le> 9 \<Longrightarrow> length (dec c) \<le> 1"
  by (rule length_dec_bound) simp_all

lemma join_params_length: "length (join_params ps) \<le> sum_list (map (\<lambda>p. length p + 1) ps) - 1"
  by (induction ps rule: join_params.induct) auto

lemma length_filter_table: "length (filter P attr_table) \<le> 7"
  by (rule le_trans[OF length_filter_le]) (simp add: attr_table_def)

text \<open>The parameters fit the 48 bytes of their buffer, and the sequence fits the callers' 64.\<close>

lemma style_params_length: "length (join_params (style_params style)) \<le> 31"
proof -
  let ?as = "map (\<lambda>(mask, code). dec code) (filter (\<lambda>(mask, code). attrs style AND mask \<noteq> 0) attr_table)"
  have one: "length p \<le> 1" if "p \<in> set ?as" for p
  proof -
    have "\<forall>(mask, code) \<in> set attr_table. 0 \<le> code \<and> code \<le> 9" by (simp add: attr_table_def)
    then show ?thesis using that dec_one by fastforce
  qed
  then have "sum_list (map (\<lambda>p. length p + 1) ps) \<le> 2 * length ps" if "set ps \<subseteq> set ?as" for ps
    using that by (induction ps) fastforce+
  then have "sum_list (map (\<lambda>p. length p + 1) ?as) \<le> 2 * length ?as" by blast
  moreover have "length ?as \<le> 7" using length_filter_table by simp
  ultimately have a: "sum_list (map (\<lambda>p. length p + 1) ?as) \<le> 14" by linarith
  have c: "sum_list (map (\<lambda>p. length p + 1) (if 0 \<le> c \<and> c \<le> 255 then [pre @ dec c] else [])) \<le> length pre + 4" for c pre
    using dec_length_3[of c] by simp
  have "sum_list (map (\<lambda>p. length p + 1) (style_params style)) \<le> 32"
    using a c[of "fg style" "''38;5;''"] c[of "bg style" "''48;5;''"] by (simp add: style_params_def)
  then show ?thesis using join_params_length[of "style_params style"] by linarith
qed

definition style_in_range :: "nbs_style \<Rightarrow> bool" where
  "style_in_range style \<longleftrightarrow> -1 \<le> fg style \<and> fg style \<le> 255 \<and> -1 \<le> bg style \<and> bg style \<le> 255"

lemma style_start_length:
  "nbs_style_start junk style bufsize = Some out \<Longrightarrow> length out \<le> 34 + length junk"
  using style_params_length[of style] by (auto simp: nbs_style_start_def Let_def split: if_splits)

lemma join_params_nonempty: "ps \<noteq> [] \<Longrightarrow> \<forall>p \<in> set ps. p \<noteq> [] \<Longrightarrow> join_params ps \<noteq> []"
  by (cases ps rule: join_params.cases) auto

end
