(* ===== verification/TermTable.thy ===== *)
theory TermTable
  imports CStd
begin

text \<open>
  The Unicode tables of the terminal renderer (src/src/nbs-ts-render/nbs_ts_wcwidth.c and
  nbs_ts_bidi.c) and their binary searches.  The locale \<open>range_table\<close> states what a search needs of
  a table; it is interpreted on the four tables of the code.  Code points are natural numbers:
  nothing is computed with them here.
\<close>

section \<open>The binary search\<close>

text \<open>
  The loop that the three search functions share; \<open>bnd\<close> gives the bounds of an entry and
  \<open>lo\<close>, \<open>hi\<close> are the C variables.
\<close>

function search_loop :: "('e \<Rightarrow> nat \<times> nat) \<Rightarrow> 'e list \<Rightarrow> nat \<Rightarrow> int \<Rightarrow> int \<Rightarrow> 'e option" where
  "search_loop bnd tab cp lo hi =
     (if lo \<le> hi then
        (let mid = (lo + hi) div 2; r = bnd (tab ! nat mid) in
         if cp < fst r then search_loop bnd tab cp lo (mid - 1)
         else if cp > snd r then search_loop bnd tab cp (mid + 1) hi
         else Some (tab ! nat mid))
      else None)"
  by pat_completeness auto
termination
  by (relation "measure (\<lambda>(bnd, tab, cp, lo, hi). nat (hi - lo + 1))") auto

declare search_loop.simps [simp del]

definition search_table :: "('e \<Rightarrow> nat \<times> nat) \<Rightarrow> 'e list \<Rightarrow> nat \<Rightarrow> 'e option" where
  "search_table bnd tab cp = search_loop bnd tab cp 0 (int (length tab) - 1)"

text \<open>What it is to find: the first entry that covers the code point.\<close>

definition covers :: "('e \<Rightarrow> nat \<times> nat) \<Rightarrow> nat \<Rightarrow> 'e \<Rightarrow> bool" where
  "covers bnd cp e \<longleftrightarrow> fst (bnd e) \<le> cp \<and> cp \<le> snd (bnd e)"

fun ascending :: "('e \<Rightarrow> nat \<times> nat) \<Rightarrow> 'e list \<Rightarrow> bool" where
  "ascending bnd [] \<longleftrightarrow> True"
| "ascending bnd [e] \<longleftrightarrow> fst (bnd e) \<le> snd (bnd e)"
| "ascending bnd (e # f # es) \<longleftrightarrow> fst (bnd e) \<le> snd (bnd e) \<and> snd (bnd e) < fst (bnd f) \<and> ascending bnd (f # es)"

lemma ascending_later:
  "ascending bnd (e # es) \<Longrightarrow> f \<in> set es \<Longrightarrow> snd (bnd e) < fst (bnd f)"
proof (induction es arbitrary: e)
  case (Cons g es)
  then have g: "fst (bnd g) \<le> snd (bnd g)" "snd (bnd e) < fst (bnd g)" "ascending bnd (g # es)" by (cases es; simp)+
  show ?case
  proof (cases "f = g")
    case False
    then have "snd (bnd g) < fst (bnd f)" using Cons.IH[OF g(3)] Cons.prems(2) by simp
    then show ?thesis using g by simp
  qed (use g in simp)
qed simp

lemma ascending_nth:
  "ascending bnd tab \<Longrightarrow> i < j \<Longrightarrow> j < length tab \<Longrightarrow> snd (bnd (tab ! i)) < fst (bnd (tab ! j))"
proof (induction tab arbitrary: i j)
  case (Cons e tab)
  have tl: "ascending bnd tab" using Cons.prems(1) by (cases tab) auto
  obtain k where j: "j = Suc k" "k < length tab" using Cons.prems(2,3) by (cases j) auto
  show ?case
  proof (cases i)
    case 0
    then show ?thesis using ascending_later[OF Cons.prems(1)] j by simp
  next
    case (Suc l)
    then show ?thesis using Cons.IH[OF tl, of l k] Cons.prems(2) j by simp
  qed
qed simp

lemma ascending_range: "ascending bnd tab \<Longrightarrow> e \<in> set tab \<Longrightarrow> fst (bnd e) \<le> snd (bnd e)"
  by (induction bnd tab rule: ascending.induct) auto

locale range_table =
  fixes bnd :: "'e \<Rightarrow> nat \<times> nat" and tab :: "'e list"
  assumes ascending: "ascending bnd tab"
begin

lemma covers_unique: "i < length tab \<Longrightarrow> j < length tab \<Longrightarrow> covers bnd cp (tab ! i) \<Longrightarrow> covers bnd cp (tab ! j) \<Longrightarrow> i = j"
  using ascending_nth[OF ascending, of i j] ascending_nth[OF ascending, of j i]
  by (cases i j rule: linorder_cases) (auto simp: covers_def)

text \<open>Whatever covers the code point lies between \<open>lo\<close> and \<open>hi\<close>.\<close>

lemma search_loop_some:
  "search_loop bnd tab cp lo hi = Some e \<Longrightarrow> 0 \<le> lo \<Longrightarrow> hi < int (length tab) \<Longrightarrow> e \<in> set tab \<and> covers bnd cp e"
proof (induction bnd tab cp lo hi rule: search_loop.induct)
  case (1 bnd tab cp lo hi)
  let ?mid = "(lo + hi) div 2"
  have le: "lo \<le> hi" using "1.prems"(1) by (subst (asm) search_loop.simps) (simp split: if_splits)
  have m: "0 \<le> ?mid" "?mid < int (length tab)" using le "1.prems"(2,3) by simp_all
  consider "cp < fst (bnd (tab ! nat ?mid))" | "\<not> cp < fst (bnd (tab ! nat ?mid))" "cp > snd (bnd (tab ! nat ?mid))"
    | "\<not> cp < fst (bnd (tab ! nat ?mid))" "\<not> cp > snd (bnd (tab ! nat ?mid))" by blast
  then show ?case
  proof cases
    case 1
    then have "search_loop bnd tab cp lo (?mid - 1) = Some e"
      using "1.prems"(1) le by (subst (asm) search_loop.simps) (simp add: Let_def)
    then show ?thesis using "1.IH"(1)[OF le refl refl 1] "1.prems"(2) m by simp
  next
    case 2
    then have "search_loop bnd tab cp (?mid + 1) hi = Some e"
      using "1.prems"(1) le by (subst (asm) search_loop.simps) (simp add: Let_def)
    then show ?thesis using "1.IH"(2)[OF le refl refl 2] "1.prems"(3) m by simp
  next
    case 3
    then have "e = tab ! nat ?mid"
      using "1.prems"(1) le by (subst (asm) search_loop.simps) (simp add: Let_def)
    then show ?thesis using 3 m by (simp add: covers_def)
  qed
qed

lemma search_loop_none:
  "search_loop bnd tab cp lo hi = None \<Longrightarrow> ascending bnd tab \<Longrightarrow> 0 \<le> lo \<Longrightarrow> hi < int (length tab) \<Longrightarrow>
   lo \<le> int i \<Longrightarrow> int i \<le> hi \<Longrightarrow> \<not> covers bnd cp (tab ! i)"
proof (induction bnd tab cp lo hi rule: search_loop.induct)
  case (1 bnd tab cp lo hi)
  let ?mid = "(lo + hi) div 2"
  have le: "lo \<le> hi" using "1.prems"(5,6) by simp
  have m: "0 \<le> ?mid" "?mid < int (length tab)" "lo \<le> ?mid" "?mid \<le> hi" using le "1.prems"(3,4) by simp_all
  have il: "i < length tab" using "1.prems"(4,6) by simp
  consider "cp < fst (bnd (tab ! nat ?mid))" | "\<not> cp < fst (bnd (tab ! nat ?mid))" "cp > snd (bnd (tab ! nat ?mid))"
    | "\<not> cp < fst (bnd (tab ! nat ?mid))" "\<not> cp > snd (bnd (tab ! nat ?mid))" by blast
  then show ?case
  proof cases
    case 1
    then have s: "search_loop bnd tab cp lo (?mid - 1) = None"
      using "1.prems"(1) le by (subst (asm) search_loop.simps) (simp add: Let_def)
    show ?thesis
    proof (cases "int i \<le> ?mid - 1")
      case True
      then show ?thesis using "1.IH"(1)[OF le refl refl 1 s "1.prems"(2,3)] "1.prems"(5) m by simp
    next
      case False
      have "nat ?mid = i \<or> nat ?mid < i" using False m by linarith
      then have "fst (bnd (tab ! nat ?mid)) \<le> fst (bnd (tab ! i))"
        using ascending_nth[OF "1.prems"(2) _ il, of "nat ?mid"] ascending_range[OF "1.prems"(2), of "tab ! nat ?mid"] m
        by fastforce
      then show ?thesis using 1 by (simp add: covers_def)
    qed
  next
    case 2
    then have s: "search_loop bnd tab cp (?mid + 1) hi = None"
      using "1.prems"(1) le by (subst (asm) search_loop.simps) (simp add: Let_def)
    show ?thesis
    proof (cases "?mid + 1 \<le> int i")
      case True
      then show ?thesis using "1.IH"(2)[OF le refl refl 2 s "1.prems"(2)] "1.prems"(4,6) m by simp
    next
      case False
      have "nat ?mid = i \<or> i < nat ?mid" using False m by linarith
      moreover have "nat ?mid < length tab" using m by simp
      ultimately have "snd (bnd (tab ! i)) \<le> snd (bnd (tab ! nat ?mid))"
        using ascending_nth[OF "1.prems"(2), of i "nat ?mid"] ascending_range[OF "1.prems"(2), of "tab ! nat ?mid"]
        by fastforce
      then show ?thesis using 2 by (simp add: covers_def)
    qed
  next
    case 3
    then show ?thesis using "1.prems"(1) le by (subst (asm) search_loop.simps) (simp add: Let_def)
  qed
qed

text \<open>The search computes the linear one.\<close>

lemma search_find: "search_table bnd tab cp = List.find (covers bnd cp) tab"
proof (cases "search_table bnd tab cp")
  case None
  have "\<not> covers bnd cp e" if "e \<in> set tab" for e
    using that search_loop_none[OF None[unfolded search_table_def] ascending] by (auto simp: in_set_conv_nth)
  then show ?thesis using None by (metis find_None_iff)
next
  case (Some e)
  then have e: "e \<in> set tab" "covers bnd cp e" using search_loop_some by (auto simp: search_table_def)
  then obtain f where f: "List.find (covers bnd cp) tab = Some f" by (metis not_Some_eq find_None_iff)
  then obtain i where "i < length tab" "covers bnd cp f" "f = tab ! i" by (auto simp: find_Some_iff)
  then show ?thesis using e f Some covers_unique by (metis in_set_conv_nth)
qed

lemma search_Some: "search_table bnd tab cp = Some e \<longleftrightarrow> e \<in> set tab \<and> covers bnd cp e"
proof
  assume "search_table bnd tab cp = Some e"
  then show "e \<in> set tab \<and> covers bnd cp e" using search_loop_some by (auto simp: search_table_def)
next
  assume e: "e \<in> set tab \<and> covers bnd cp e"
  then obtain f where f: "search_table bnd tab cp = Some f" unfolding search_find by (metis not_Some_eq find_None_iff)
  then have "f \<in> set tab \<and> covers bnd cp f" using search_loop_some by (auto simp: search_table_def)
  then have "f = e" using e covers_unique by (metis in_set_conv_nth)
  then show "search_table bnd tab cp = Some e" using f by simp
qed

end

section \<open>Widths\<close>

definition zero_width :: "(nat \<times> nat) list" where
  "zero_width =
    [
     (0x00AD, 0x00AD), (0x0300, 0x036F), (0x0483, 0x0489), (0x0591, 0x05BD), (0x05BF, 0x05BF), (0x05C1, 0x05C2),
     (0x05C4, 0x05C5), (0x05C7, 0x05C7), (0x0600, 0x0605), (0x0610, 0x061A), (0x061C, 0x061C), (0x064B, 0x065F),
     (0x0670, 0x0670), (0x06D6, 0x06DD), (0x06DF, 0x06E4), (0x06E7, 0x06E8), (0x06EA, 0x06ED), (0x070F, 0x070F),
     (0x0711, 0x0711), (0x0730, 0x074A), (0x07A6, 0x07B0), (0x07EB, 0x07F3), (0x07FD, 0x07FD), (0x0816, 0x0819),
     (0x081B, 0x0823), (0x0825, 0x0827), (0x0829, 0x082D), (0x0859, 0x085B), (0x0890, 0x0891), (0x0898, 0x089F),
     (0x08CA, 0x08E1), (0x08E3, 0x0902), (0x093A, 0x093A), (0x093C, 0x093C), (0x0941, 0x0948), (0x094D, 0x094D),
     (0x0951, 0x0957), (0x0962, 0x0963), (0x0981, 0x0981), (0x09BC, 0x09BC), (0x09C1, 0x09C4), (0x09CD, 0x09CD),
     (0x09E2, 0x09E3), (0x09FE, 0x09FE), (0x0A01, 0x0A02), (0x0A3C, 0x0A3C), (0x0A41, 0x0A42), (0x0A47, 0x0A48),
     (0x0A4B, 0x0A4D), (0x0A51, 0x0A51), (0x0A70, 0x0A71), (0x0A75, 0x0A75), (0x0A81, 0x0A82), (0x0ABC, 0x0ABC),
     (0x0AC1, 0x0AC5), (0x0AC7, 0x0AC8), (0x0ACD, 0x0ACD), (0x0AE2, 0x0AE3), (0x0AFA, 0x0AFF), (0x0B01, 0x0B01),
     (0x0B3C, 0x0B3C), (0x0B3F, 0x0B3F), (0x0B41, 0x0B44), (0x0B4D, 0x0B4D), (0x0B55, 0x0B56), (0x0B62, 0x0B63),
     (0x0B82, 0x0B82), (0x0BC0, 0x0BC0), (0x0BCD, 0x0BCD), (0x0C00, 0x0C00), (0x0C04, 0x0C04), (0x0C3C, 0x0C3C),
     (0x0C3E, 0x0C40), (0x0C46, 0x0C48), (0x0C4A, 0x0C4D), (0x0C55, 0x0C56), (0x0C62, 0x0C63), (0x0C81, 0x0C81),
     (0x0CBC, 0x0CBC), (0x0CBF, 0x0CBF), (0x0CC6, 0x0CC6), (0x0CCC, 0x0CCD), (0x0CE2, 0x0CE3), (0x0D00, 0x0D01),
     (0x0D3B, 0x0D3C), (0x0D41, 0x0D44), (0x0D4D, 0x0D4D), (0x0D62, 0x0D63), (0x0D81, 0x0D81), (0x0DCA, 0x0DCA),
     (0x0DD2, 0x0DD4), (0x0DD6, 0x0DD6), (0x0E31, 0x0E31), (0x0E34, 0x0E3A), (0x0E47, 0x0E4E), (0x0EB1, 0x0EB1),
     (0x0EB4, 0x0EBC), (0x0EC8, 0x0ECE), (0x0F18, 0x0F19), (0x0F35, 0x0F35), (0x0F37, 0x0F37), (0x0F39, 0x0F39),
     (0x0F71, 0x0F7E), (0x0F80, 0x0F84), (0x0F86, 0x0F87), (0x0F8D, 0x0F97), (0x0F99, 0x0FBC), (0x0FC6, 0x0FC6),
     (0x102D, 0x1030), (0x1032, 0x1037), (0x1039, 0x103A), (0x103D, 0x103E), (0x1058, 0x1059), (0x105E, 0x1060),
     (0x1071, 0x1074), (0x1082, 0x1082), (0x1085, 0x1086), (0x108D, 0x108D), (0x109D, 0x109D), (0x135D, 0x135F),
     (0x1712, 0x1714), (0x1732, 0x1733), (0x1752, 0x1753), (0x1772, 0x1773), (0x17B4, 0x17B5), (0x17B7, 0x17BD),
     (0x17C6, 0x17C6), (0x17C9, 0x17D3), (0x17DD, 0x17DD), (0x180B, 0x180F), (0x1885, 0x1886), (0x18A9, 0x18A9),
     (0x1920, 0x1922), (0x1927, 0x1928), (0x1932, 0x1932), (0x1939, 0x193B), (0x1A17, 0x1A18), (0x1A1B, 0x1A1B),
     (0x1A56, 0x1A56), (0x1A58, 0x1A5E), (0x1A60, 0x1A60), (0x1A62, 0x1A62), (0x1A65, 0x1A6C), (0x1A73, 0x1A7C),
     (0x1A7F, 0x1A7F), (0x1AB0, 0x1ACE), (0x1B00, 0x1B03), (0x1B34, 0x1B34), (0x1B36, 0x1B3A), (0x1B3C, 0x1B3C),
     (0x1B42, 0x1B42), (0x1B6B, 0x1B73), (0x1B80, 0x1B81), (0x1BA2, 0x1BA5), (0x1BA8, 0x1BA9), (0x1BAB, 0x1BAD),
     (0x1BE6, 0x1BE6), (0x1BE8, 0x1BE9), (0x1BED, 0x1BED), (0x1BEF, 0x1BF1), (0x1C2C, 0x1C33), (0x1C36, 0x1C37),
     (0x1CD0, 0x1CD2), (0x1CD4, 0x1CE0), (0x1CE2, 0x1CE8), (0x1CED, 0x1CED), (0x1CF4, 0x1CF4), (0x1CF8, 0x1CF9),
     (0x1DC0, 0x1DFF), (0x200B, 0x200F), (0x2028, 0x202E), (0x2060, 0x2069), (0x20D0, 0x20F0), (0x2CEF, 0x2CF1),
     (0x2D7F, 0x2D7F), (0x2DE0, 0x2DFF), (0xA66F, 0xA672), (0xA674, 0xA67D), (0xA69E, 0xA69F), (0xA6F0, 0xA6F1),
     (0xA802, 0xA802), (0xA806, 0xA806), (0xA80B, 0xA80B), (0xA825, 0xA826), (0xA82C, 0xA82C), (0xA8C4, 0xA8C5),
     (0xA8E0, 0xA8F1), (0xA8FF, 0xA8FF), (0xA926, 0xA92D), (0xA947, 0xA951), (0xA980, 0xA982), (0xA9B3, 0xA9B3),
     (0xA9B6, 0xA9B9), (0xA9BC, 0xA9BD), (0xA9E5, 0xA9E5), (0xAA29, 0xAA2E), (0xAA31, 0xAA32), (0xAA35, 0xAA36),
     (0xAA43, 0xAA43), (0xAA4C, 0xAA4C), (0xAA7C, 0xAA7C), (0xAAB0, 0xAAB0), (0xAAB2, 0xAAB4), (0xAAB7, 0xAAB8),
     (0xAABE, 0xAABF), (0xAAC1, 0xAAC1), (0xAAEC, 0xAAED), (0xAAF6, 0xAAF6), (0xABE5, 0xABE5), (0xABE8, 0xABE8),
     (0xABED, 0xABED), (0xFB1E, 0xFB1E), (0xFE00, 0xFE0F), (0xFE20, 0xFE2F), (0xFEFF, 0xFEFF), (0xFFF9, 0xFFFB),
     (0x101FD, 0x101FD), (0x102E0, 0x102E0), (0x10376, 0x1037A), (0x10A01, 0x10A03), (0x10A05, 0x10A06), (0x10A0C, 0x10A0F),
     (0x10A38, 0x10A3A), (0x10A3F, 0x10A3F), (0x10AE5, 0x10AE6), (0x10D24, 0x10D27), (0x10EAB, 0x10EAC), (0x10EFD, 0x10EFF),
     (0x10F46, 0x10F50), (0x10F82, 0x10F85), (0x11001, 0x11001), (0x11038, 0x11046), (0x11070, 0x11070), (0x11073, 0x11074),
     (0x1107F, 0x11081), (0x110B3, 0x110B6), (0x110B9, 0x110BA), (0x110C2, 0x110C2), (0x11100, 0x11102), (0x11127, 0x1112B),
     (0x1112D, 0x11134), (0x11173, 0x11173), (0x11180, 0x11181), (0x111B6, 0x111BE), (0x111C9, 0x111CC), (0x111CF, 0x111CF),
     (0x1122F, 0x11231), (0x11234, 0x11234), (0x11236, 0x11237), (0x1123E, 0x1123E), (0x11241, 0x11241), (0x112DF, 0x112DF),
     (0x112E3, 0x112EA), (0x11300, 0x11301), (0x1133B, 0x1133C), (0x11340, 0x11340), (0x11366, 0x1136C), (0x11370, 0x11374),
     (0x11438, 0x1143F), (0x11442, 0x11444), (0x11446, 0x11446), (0x1145E, 0x1145E), (0x114B3, 0x114B8), (0x114BA, 0x114BA),
     (0x114BF, 0x114C0), (0x114C2, 0x114C3), (0x115B2, 0x115B5), (0x115BC, 0x115BD), (0x115BF, 0x115C0), (0x115DC, 0x115DD),
     (0x11633, 0x1163A), (0x1163D, 0x1163D), (0x1163F, 0x11640), (0x116AB, 0x116AB), (0x116AD, 0x116AD), (0x116B0, 0x116B5),
     (0x116B7, 0x116B7), (0x1171D, 0x1171F), (0x11722, 0x11725), (0x11727, 0x1172B), (0x1182F, 0x11837), (0x11839, 0x1183A),
     (0x1193B, 0x1193C), (0x1193E, 0x1193E), (0x11943, 0x11943), (0x119D4, 0x119D7), (0x119DA, 0x119DB), (0x119E0, 0x119E0),
     (0x11A01, 0x11A0A), (0x11A33, 0x11A38), (0x11A3B, 0x11A3E), (0x11A47, 0x11A47), (0x11A51, 0x11A56), (0x11A59, 0x11A5B),
     (0x11A8A, 0x11A96), (0x11A98, 0x11A99), (0x11C30, 0x11C36), (0x11C38, 0x11C3D), (0x11C3F, 0x11C3F), (0x11C92, 0x11CA7),
     (0x11CAA, 0x11CB0), (0x11CB2, 0x11CB3), (0x11CB5, 0x11CB6), (0x11D31, 0x11D36), (0x11D3A, 0x11D3A), (0x11D3C, 0x11D3D),
     (0x11D3F, 0x11D45), (0x11D47, 0x11D47), (0x11D90, 0x11D91), (0x11D95, 0x11D95), (0x11D97, 0x11D97), (0x11EF3, 0x11EF4),
     (0x11F00, 0x11F01), (0x11F36, 0x11F3A), (0x11F40, 0x11F40), (0x11F42, 0x11F42), (0x13430, 0x13440), (0x13447, 0x13455),
     (0x16AF0, 0x16AF4), (0x16B30, 0x16B36), (0x16F4F, 0x16F4F), (0x16F8F, 0x16F92), (0x16FE4, 0x16FE4), (0x1BC9D, 0x1BC9E),
     (0x1BCA0, 0x1BCA3), (0x1CF00, 0x1CF2D), (0x1CF30, 0x1CF46), (0x1D167, 0x1D169), (0x1D173, 0x1D182), (0x1D185, 0x1D18B),
     (0x1D1AA, 0x1D1AD), (0x1D242, 0x1D244), (0x1DA00, 0x1DA36), (0x1DA3B, 0x1DA6C), (0x1DA75, 0x1DA75), (0x1DA84, 0x1DA84),
     (0x1DA9B, 0x1DA9F), (0x1DAA1, 0x1DAAF), (0x1E000, 0x1E006), (0x1E008, 0x1E018), (0x1E01B, 0x1E021), (0x1E023, 0x1E024),
     (0x1E026, 0x1E02A), (0x1E08F, 0x1E08F), (0x1E130, 0x1E136), (0x1E2AE, 0x1E2AE), (0x1E2EC, 0x1E2EF), (0x1E4EC, 0x1E4EF),
     (0x1E8D0, 0x1E8D6), (0x1E944, 0x1E94A), (0xE0001, 0xE0001), (0xE0020, 0xE007F), (0xE0100, 0xE01EF)]"

definition double_width :: "(nat \<times> nat) list" where
  "double_width =
    [
     (0x1100, 0x115F), (0x231A, 0x231B), (0x2329, 0x232A), (0x23E9, 0x23F3), (0x23F8, 0x23FA), (0x25FD, 0x25FE),
     (0x2614, 0x2615), (0x2648, 0x2653), (0x267F, 0x267F), (0x2693, 0x2693), (0x26A1, 0x26A1), (0x26AA, 0x26AB),
     (0x26BD, 0x26BE), (0x26C4, 0x26C5), (0x26CE, 0x26CE), (0x26D4, 0x26D4), (0x26EA, 0x26EA), (0x26F2, 0x26F3),
     (0x26F5, 0x26F5), (0x26FA, 0x26FA), (0x26FD, 0x26FD), (0x2702, 0x2702), (0x2705, 0x2705), (0x2708, 0x270D),
     (0x270F, 0x270F), (0x2712, 0x2712), (0x2714, 0x2714), (0x2716, 0x2716), (0x271D, 0x271D), (0x2721, 0x2721),
     (0x2728, 0x2728), (0x2733, 0x2734), (0x2744, 0x2744), (0x2747, 0x2747), (0x274C, 0x274C), (0x274E, 0x274E),
     (0x2753, 0x2755), (0x2757, 0x2757), (0x2763, 0x2764), (0x2795, 0x2797), (0x27A1, 0x27A1), (0x27B0, 0x27B0),
     (0x27BF, 0x27BF), (0x2934, 0x2935), (0x2B05, 0x2B07), (0x2B1B, 0x2B1C), (0x2B50, 0x2B50), (0x2B55, 0x2B55),
     (0x2E80, 0x2E99), (0x2E9B, 0x2EF3), (0x2F00, 0x2FD5), (0x2FF0, 0x303E), (0x3041, 0x3096), (0x3099, 0x30FF),
     (0x3105, 0x312F), (0x3131, 0x318E), (0x3190, 0x31E3), (0x31EF, 0x321E), (0x3220, 0x3247), (0x3250, 0x4DBF),
     (0x4E00, 0xA48C), (0xA490, 0xA4C6), (0xA960, 0xA97C), (0xAC00, 0xD7A3), (0xF900, 0xFAFF), (0xFE10, 0xFE19),
     (0xFE30, 0xFE6B), (0xFF01, 0xFF60), (0xFFE0, 0xFFE6), (0x16FE0, 0x16FE3), (0x16FF0, 0x16FF1), (0x17000, 0x187F7),
     (0x18800, 0x18CD5), (0x18D00, 0x18D08), (0x1AFF0, 0x1AFF3), (0x1AFF5, 0x1AFFB), (0x1AFFD, 0x1AFFE), (0x1B000, 0x1B122),
     (0x1B132, 0x1B132), (0x1B150, 0x1B152), (0x1B155, 0x1B155), (0x1B164, 0x1B167), (0x1B170, 0x1B2FB), (0x1F004, 0x1F004),
     (0x1F0CF, 0x1F0CF), (0x1F18E, 0x1F18E), (0x1F191, 0x1F19A), (0x1F200, 0x1F202), (0x1F210, 0x1F23B), (0x1F240, 0x1F248),
     (0x1F250, 0x1F251), (0x1F260, 0x1F265), (0x1F300, 0x1F320), (0x1F32D, 0x1F335), (0x1F337, 0x1F37C), (0x1F37E, 0x1F393),
     (0x1F3A0, 0x1F3CA), (0x1F3CF, 0x1F3D3), (0x1F3E0, 0x1F3F0), (0x1F3F4, 0x1F3F4), (0x1F3F8, 0x1F43E), (0x1F440, 0x1F440),
     (0x1F442, 0x1F4FC), (0x1F4FF, 0x1F53D), (0x1F54B, 0x1F54E), (0x1F550, 0x1F567), (0x1F57A, 0x1F57A), (0x1F595, 0x1F596),
     (0x1F5A4, 0x1F5A4), (0x1F5FB, 0x1F64F), (0x1F680, 0x1F6C5), (0x1F6CC, 0x1F6CC), (0x1F6D0, 0x1F6D2), (0x1F6D5, 0x1F6D7),
     (0x1F6DC, 0x1F6DF), (0x1F6EB, 0x1F6EC), (0x1F6F4, 0x1F6FC), (0x1F7E0, 0x1F7EB), (0x1F7F0, 0x1F7F0), (0x1F90C, 0x1F93A),
     (0x1F93C, 0x1F945), (0x1F947, 0x1F9FF), (0x1FA00, 0x1FA53), (0x1FA60, 0x1FA6D), (0x1FA70, 0x1FA7C), (0x1FA80, 0x1FA89),
     (0x1FA8F, 0x1FAC6), (0x1FACE, 0x1FADC), (0x1FADF, 0x1FAE9), (0x1FAF0, 0x1FAF8), (0x20000, 0x2FFFD), (0x30000, 0x3FFFD)]"

definition in_ranges :: "nat \<Rightarrow> (nat \<times> nat) list \<Rightarrow> bool" where
  "in_ranges cp ranges \<longleftrightarrow> search_table (\<lambda>r. r) ranges cp \<noteq> None"

definition nbs_ts_wcwidth :: "nat \<Rightarrow> int" where
  "nbs_ts_wcwidth cp =
     (if cp < 0x20 then -1
      else if cp \<ge> 0x7F \<and> cp < 0xA0 then -1
      else if in_ranges cp zero_width then 0
      else if in_ranges cp double_width then 2
      else 1)"

interpretation zero: range_table "\<lambda>r. r" zero_width
  by unfold_locales (simp add: zero_width_def)

interpretation double: range_table "\<lambda>r. r" double_width
  by unfold_locales (simp add: double_width_def)

section \<open>Bidirectional types and mirrored characters\<close>

datatype bidi_type = BIDI_L | BIDI_R | BIDI_AL | BIDI_EN | BIDI_ES | BIDI_ET | BIDI_AN | BIDI_CS | BIDI_NSM | BIDI_BN
  | BIDI_B | BIDI_S | BIDI_WS | BIDI_ON | BIDI_LRE | BIDI_RLE | BIDI_LRO | BIDI_RLO | BIDI_PDF | BIDI_LRI | BIDI_RLI
  | BIDI_FSI | BIDI_PDI

definition bidi_ranges :: "(nat \<times> nat \<times> bidi_type) list" where
  "bidi_ranges =
    [
     (0x0000, 0x0008, BIDI_BN), (0x000A, 0x000A, BIDI_B), (0x000B, 0x000B, BIDI_S), (0x000C, 0x000C, BIDI_WS),
     (0x000D, 0x000D, BIDI_B), (0x000E, 0x001B, BIDI_BN), (0x001C, 0x001E, BIDI_B), (0x001F, 0x001F, BIDI_S),
     (0x0020, 0x0020, BIDI_WS), (0x0021, 0x0022, BIDI_ON), (0x0023, 0x0025, BIDI_ET), (0x0026, 0x002A, BIDI_ON),
     (0x002B, 0x002B, BIDI_ES), (0x002C, 0x002C, BIDI_CS), (0x002D, 0x002D, BIDI_ES), (0x002E, 0x002F, BIDI_CS),
     (0x0030, 0x0039, BIDI_EN), (0x003A, 0x003A, BIDI_CS), (0x003B, 0x0040, BIDI_ON), (0x005B, 0x0060, BIDI_ON),
     (0x007B, 0x007E, BIDI_ON), (0x007F, 0x0084, BIDI_BN), (0x0085, 0x0085, BIDI_B), (0x0086, 0x009F, BIDI_BN),
     (0x00A0, 0x00A0, BIDI_CS), (0x00A1, 0x00A1, BIDI_ON), (0x00A2, 0x00A5, BIDI_ET), (0x00A6, 0x00A9, BIDI_ON),
     (0x00AB, 0x00AB, BIDI_ON), (0x00AD, 0x00AD, BIDI_BN), (0x00B0, 0x00B1, BIDI_ET), (0x00B2, 0x00B3, BIDI_EN),
     (0x00B4, 0x00B4, BIDI_ON), (0x00B6, 0x00B8, BIDI_ON), (0x00B9, 0x00B9, BIDI_EN), (0x00BB, 0x00BF, BIDI_ON),
     (0x00D7, 0x00D7, BIDI_ON), (0x00F7, 0x00F7, BIDI_ON), (0x0300, 0x036F, BIDI_NSM), (0x0483, 0x0489, BIDI_NSM),
     (0x0590, 0x0590, BIDI_R), (0x0591, 0x05BD, BIDI_NSM), (0x05BE, 0x05BE, BIDI_R), (0x05BF, 0x05BF, BIDI_NSM),
     (0x05C0, 0x05C0, BIDI_R), (0x05C1, 0x05C2, BIDI_NSM), (0x05C3, 0x05C3, BIDI_R), (0x05C4, 0x05C5, BIDI_NSM),
     (0x05C6, 0x05C6, BIDI_R), (0x05C7, 0x05C7, BIDI_NSM), (0x05D0, 0x05EA, BIDI_R), (0x05EF, 0x05F4, BIDI_R),
     (0x0600, 0x0605, BIDI_AN), (0x0608, 0x0608, BIDI_AL), (0x0609, 0x060A, BIDI_ET), (0x060B, 0x060B, BIDI_AL),
     (0x060C, 0x060C, BIDI_CS), (0x060D, 0x060D, BIDI_AL), (0x0610, 0x061A, BIDI_NSM), (0x061B, 0x061B, BIDI_AL),
     (0x061C, 0x061C, BIDI_BN), (0x061D, 0x064A, BIDI_AL), (0x064B, 0x065F, BIDI_NSM), (0x0660, 0x0669, BIDI_AN),
     (0x066A, 0x066A, BIDI_ET), (0x066B, 0x066C, BIDI_AN), (0x066D, 0x066F, BIDI_AL), (0x0670, 0x0670, BIDI_NSM),
     (0x0671, 0x06D5, BIDI_AL), (0x06D6, 0x06DC, BIDI_NSM), (0x06DD, 0x06DD, BIDI_AN), (0x06DE, 0x06DE, BIDI_ON),
     (0x06DF, 0x06E4, BIDI_NSM), (0x06E5, 0x06E6, BIDI_AL), (0x06E7, 0x06E8, BIDI_NSM), (0x06E9, 0x06E9, BIDI_ON),
     (0x06EA, 0x06ED, BIDI_NSM), (0x06EE, 0x06EF, BIDI_AL), (0x06F0, 0x06F9, BIDI_EN), (0x06FA, 0x070D, BIDI_AL),
     (0x070F, 0x0710, BIDI_AL), (0x0711, 0x0711, BIDI_NSM), (0x0712, 0x072F, BIDI_AL), (0x0730, 0x074A, BIDI_NSM),
     (0x074D, 0x07A5, BIDI_AL), (0x07A6, 0x07B0, BIDI_NSM), (0x07B1, 0x07B1, BIDI_AL), (0x07C0, 0x07EA, BIDI_R),
     (0x07EB, 0x07F3, BIDI_NSM), (0x07F4, 0x07F5, BIDI_R), (0x07FA, 0x07FA, BIDI_R), (0x07FD, 0x07FD, BIDI_NSM),
     (0x07FE, 0x07FF, BIDI_R), (0x0800, 0x0815, BIDI_R), (0x0816, 0x0819, BIDI_NSM), (0x081A, 0x081A, BIDI_R),
     (0x081B, 0x0823, BIDI_NSM), (0x0824, 0x0824, BIDI_R), (0x0825, 0x0827, BIDI_NSM), (0x0828, 0x0828, BIDI_R),
     (0x0829, 0x082D, BIDI_NSM), (0x0830, 0x083E, BIDI_R), (0x0840, 0x0858, BIDI_R), (0x0859, 0x085B, BIDI_NSM),
     (0x085E, 0x085E, BIDI_R), (0x0860, 0x086A, BIDI_AL), (0x0870, 0x088E, BIDI_AL), (0x0890, 0x0891, BIDI_AN),
     (0x0898, 0x089F, BIDI_NSM), (0x08A0, 0x08C9, BIDI_AL), (0x08CA, 0x08E1, BIDI_NSM), (0x08E2, 0x08E2, BIDI_AN),
     (0x08E3, 0x0902, BIDI_NSM), (0x093A, 0x093A, BIDI_NSM), (0x093C, 0x093C, BIDI_NSM), (0x0941, 0x0948, BIDI_NSM),
     (0x094D, 0x094D, BIDI_NSM), (0x0951, 0x0957, BIDI_NSM), (0x0962, 0x0963, BIDI_NSM), (0x0E31, 0x0E31, BIDI_NSM),
     (0x0E34, 0x0E3A, BIDI_NSM), (0x0E47, 0x0E4E, BIDI_NSM), (0x0EB1, 0x0EB1, BIDI_NSM), (0x0EB4, 0x0EBC, BIDI_NSM),
     (0x0EC8, 0x0ECE, BIDI_NSM), (0x1AB0, 0x1ACE, BIDI_NSM), (0x1DC0, 0x1DFF, BIDI_NSM), (0x2000, 0x200A, BIDI_WS),
     (0x200B, 0x200D, BIDI_BN), (0x200E, 0x200E, BIDI_L), (0x200F, 0x200F, BIDI_R), (0x2010, 0x2027, BIDI_ON),
     (0x2028, 0x2028, BIDI_WS), (0x2029, 0x2029, BIDI_B), (0x202A, 0x202A, BIDI_LRE), (0x202B, 0x202B, BIDI_RLE),
     (0x202C, 0x202C, BIDI_PDF), (0x202D, 0x202D, BIDI_LRO), (0x202E, 0x202E, BIDI_RLO), (0x202F, 0x202F, BIDI_CS),
     (0x2030, 0x2034, BIDI_ET), (0x2035, 0x2043, BIDI_ON), (0x2044, 0x2044, BIDI_CS), (0x2045, 0x205E, BIDI_ON),
     (0x205F, 0x205F, BIDI_WS), (0x2060, 0x2064, BIDI_BN), (0x2066, 0x2066, BIDI_LRI), (0x2067, 0x2067, BIDI_RLI),
     (0x2068, 0x2068, BIDI_FSI), (0x2069, 0x2069, BIDI_PDI), (0x206A, 0x206F, BIDI_BN), (0x2070, 0x2070, BIDI_EN),
     (0x2074, 0x2079, BIDI_EN), (0x2080, 0x2089, BIDI_EN), (0x20A0, 0x20CF, BIDI_ET), (0x20D0, 0x20F0, BIDI_NSM),
     (0x2100, 0x2211, BIDI_ON), (0x2212, 0x2212, BIDI_ES), (0x2213, 0x2213, BIDI_ET), (0x2214, 0x2335, BIDI_ON),
     (0x2336, 0x27FF, BIDI_ON), (0x2800, 0x28FF, BIDI_L), (0x2900, 0x2BFF, BIDI_ON), (0x3000, 0x3000, BIDI_WS),
     (0x3001, 0x3003, BIDI_ON), (0x3008, 0x3011, BIDI_ON), (0x3014, 0x301F, BIDI_ON), (0x3030, 0x3030, BIDI_ON),
     (0xFB1D, 0xFB1D, BIDI_R), (0xFB1E, 0xFB1E, BIDI_NSM), (0xFB1F, 0xFB28, BIDI_R), (0xFB29, 0xFB29, BIDI_ES),
     (0xFB2A, 0xFB4F, BIDI_R), (0xFB50, 0xFD3D, BIDI_AL), (0xFD3E, 0xFD3F, BIDI_ON), (0xFD40, 0xFDCF, BIDI_AL),
     (0xFDF0, 0xFDFC, BIDI_AL), (0xFDFD, 0xFDFF, BIDI_ON), (0xFE00, 0xFE0F, BIDI_NSM), (0xFE10, 0xFE19, BIDI_ON),
     (0xFE20, 0xFE2F, BIDI_NSM), (0xFE30, 0xFE4F, BIDI_ON), (0xFE50, 0xFE50, BIDI_CS), (0xFE51, 0xFE51, BIDI_ON),
     (0xFE52, 0xFE52, BIDI_CS), (0xFE54, 0xFE54, BIDI_ON), (0xFE55, 0xFE55, BIDI_CS), (0xFE56, 0xFE5E, BIDI_ON),
     (0xFE5F, 0xFE5F, BIDI_ET), (0xFE60, 0xFE61, BIDI_ON), (0xFE62, 0xFE63, BIDI_ES), (0xFE64, 0xFE66, BIDI_ON),
     (0xFE68, 0xFE68, BIDI_ON), (0xFE69, 0xFE6A, BIDI_ET), (0xFE6B, 0xFE6B, BIDI_ON), (0xFE70, 0xFEFC, BIDI_AL),
     (0xFEFF, 0xFEFF, BIDI_BN), (0xFF01, 0xFF02, BIDI_ON), (0xFF03, 0xFF05, BIDI_ET), (0xFF06, 0xFF0A, BIDI_ON),
     (0xFF0B, 0xFF0B, BIDI_ES), (0xFF0C, 0xFF0C, BIDI_CS), (0xFF0D, 0xFF0D, BIDI_ES), (0xFF0E, 0xFF0F, BIDI_CS),
     (0xFF10, 0xFF19, BIDI_EN), (0xFF1A, 0xFF1A, BIDI_CS), (0xFF1B, 0xFF20, BIDI_ON), (0xFF3B, 0xFF40, BIDI_ON),
     (0xFF5B, 0xFF65, BIDI_ON), (0xFFF0, 0xFFF8, BIDI_BN), (0xFFF9, 0xFFFB, BIDI_ON), (0xFFFC, 0xFFFC, BIDI_ON),
     (0x10800, 0x10FFF, BIDI_R), (0x1E800, 0x1EDFF, BIDI_R), (0x1EE00, 0x1EEFF, BIDI_AL), (0x1EF00, 0x1EFFF, BIDI_R),
     (0xE0001, 0xE0001, BIDI_BN), (0xE0020, 0xE007F, BIDI_BN), (0xE0100, 0xE01EF, BIDI_NSM)]"

definition bidi_range :: "nat \<times> nat \<times> bidi_type \<Rightarrow> nat \<times> nat" where
  "bidi_range e = (fst e, fst (snd e))"

definition nbs_ts_bidi_type :: "nat \<Rightarrow> bidi_type" where
  "nbs_ts_bidi_type cp =
     (case search_table bidi_range bidi_ranges cp of Some (lo, hi, ty) \<Rightarrow> ty | None \<Rightarrow> BIDI_L)"

interpretation bidi: range_table bidi_range bidi_ranges
  by unfold_locales (simp add: bidi_ranges_def bidi_range_def)

definition mirror_table :: "(nat \<times> nat) list" where
  "mirror_table =
    [
     (0x0028, 0x0029), (0x0029, 0x0028), (0x003C, 0x003E), (0x003E, 0x003C), (0x005B, 0x005D), (0x005D, 0x005B),
     (0x007B, 0x007D), (0x007D, 0x007B), (0x00AB, 0x00BB), (0x00BB, 0x00AB), (0x2039, 0x203A), (0x203A, 0x2039),
     (0x2045, 0x2046), (0x2046, 0x2045), (0x207D, 0x207E), (0x207E, 0x207D), (0x208D, 0x208E), (0x208E, 0x208D),
     (0x2208, 0x220B), (0x2209, 0x220C), (0x220A, 0x220D), (0x220B, 0x2208), (0x220C, 0x2209), (0x220D, 0x220A),
     (0x2215, 0x29F5), (0x221F, 0x2BFE), (0x2220, 0x29A3), (0x2264, 0x2265), (0x2265, 0x2264), (0x226E, 0x226F),
     (0x226F, 0x226E), (0x2308, 0x2309), (0x2309, 0x2308), (0x230A, 0x230B), (0x230B, 0x230A), (0x2329, 0x232A),
     (0x232A, 0x2329), (0x27C5, 0x27C6), (0x27C6, 0x27C5), (0x27E6, 0x27E7), (0x27E7, 0x27E6), (0x27E8, 0x27E9),
     (0x27E9, 0x27E8), (0x27EA, 0x27EB), (0x27EB, 0x27EA), (0x27EC, 0x27ED), (0x27ED, 0x27EC), (0x27EE, 0x27EF),
     (0x27EF, 0x27EE), (0x2983, 0x2984), (0x2984, 0x2983), (0x2985, 0x2986), (0x2986, 0x2985), (0x2987, 0x2988),
     (0x2988, 0x2987), (0x2989, 0x298A), (0x298A, 0x2989), (0x298B, 0x298C), (0x298C, 0x298B), (0x298D, 0x2990),
     (0x298E, 0x298F), (0x298F, 0x298E), (0x2990, 0x298D), (0x3008, 0x3009), (0x3009, 0x3008), (0x300A, 0x300B),
     (0x300B, 0x300A), (0x300C, 0x300D), (0x300D, 0x300C), (0x300E, 0x300F), (0x300F, 0x300E), (0x3010, 0x3011),
     (0x3011, 0x3010), (0x3014, 0x3015), (0x3015, 0x3014), (0x3016, 0x3017), (0x3017, 0x3016), (0x3018, 0x3019),
     (0x3019, 0x3018), (0x301A, 0x301B), (0x301B, 0x301A), (0xFF08, 0xFF09), (0xFF09, 0xFF08), (0xFF1C, 0xFF1E),
     (0xFF1E, 0xFF1C), (0xFF3B, 0xFF3D), (0xFF3D, 0xFF3B), (0xFF5B, 0xFF5D), (0xFF5D, 0xFF5B), (0xFF5F, 0xFF60),
     (0xFF60, 0xFF5F)]"

definition mirror_from :: "nat \<times> nat \<Rightarrow> nat \<times> nat" where
  "mirror_from e = (fst e, fst e)"

definition nbs_ts_bidi_mirror :: "nat \<Rightarrow> nat" where
  "nbs_ts_bidi_mirror cp = (case search_table mirror_from mirror_table cp of Some (from_cp, to_cp) \<Rightarrow> to_cp | None \<Rightarrow> cp)"

interpretation mirror: range_table mirror_from mirror_table
  by unfold_locales (simp add: mirror_table_def mirror_from_def)

end
