(* ===== verification/TermScreen.thy ===== *)
theory TermScreen
  imports TermAttr TermTable
begin

text \<open>
  The screen of the terminal renderer (src/src/nbs-ts-render/nbs_ts_render.c): its state, the
  access to its cells, scrolling, and writing a character.  An assertion that fails is \<open>Abort\<close>.
\<close>

abbreviation (input) NBS_TS_RENDER_CELL_BYTES :: nat where "NBS_TS_RENDER_CELL_BYTES \<equiv> 8"
abbreviation (input) NBS_TS_RENDER_MAX_PARAMS :: nat where "NBS_TS_RENDER_MAX_PARAMS \<equiv> 16"

section \<open>State\<close>

datatype ts_render_state = STATE_GROUND | STATE_ESC | STATE_ESC_INTER | STATE_CSI_PARAM | STATE_CSI_INTER
  | STATE_OSC | STATE_OSC_ESC | STATE_DCS | STATE_DCS_ESC

text \<open>\<open>c_ch\<close>: the bytes of the cell without the NUL padding; \<open>c_len\<close> is -1 for the right half of a wide character.\<close>

record ts_cell =
  c_ch :: string
  c_len :: int
  c_style :: nbs_style

text \<open>The arrays \<open>params\<close> and \<open>utf8_buf\<close> are the lists of their used elements.\<close>

record ts_render =
  t_rows :: int
  t_cols :: int
  cells :: "ts_cell list"
  cursor_row :: int
  cursor_col :: int
  t_state :: ts_render_state
  params :: "int list"
  param_val :: int
  param_has_val :: bool
  intermediate :: char
  scroll_top :: int
  scroll_bottom :: int
  pending_wrap :: bool
  saved_cursor_row :: int
  saved_cursor_col :: int
  utf8_buf :: string
  utf8_expect :: nat
  tab_stops :: "8 word list"
  preserve_sgr :: bool
  active_style :: nbs_style

section \<open>Loops and cells\<close>

text \<open>A loop whose body may abort.\<close>

fun each :: "('a \<Rightarrow> 's \<Rightarrow> 's outcome) \<Rightarrow> 'a list \<Rightarrow> 's \<Rightarrow> 's outcome" where
  "each f [] s = Ret s"
| "each f (x # xs) s = and_then (f x s) (each f xs)"

text \<open>The index of a cell.\<close>

definition cell_at :: "ts_render \<Rightarrow> int \<Rightarrow> int \<Rightarrow> nat outcome" where
  "cell_at t row col =
     ASSERT_MSG (0 \<le> row \<and> row < t_rows t)
      (ASSERT_MSG (0 \<le> col \<and> col < t_cols t) (Ret (nat (row * t_cols t + col))))"

definition get_cell :: "ts_render \<Rightarrow> int \<Rightarrow> int \<Rightarrow> ts_cell outcome" where
  "get_cell t row col = and_then (cell_at t row col) (\<lambda>i. Ret (cells t ! i))"

definition set_cell :: "(ts_cell \<Rightarrow> ts_cell) \<Rightarrow> int \<Rightarrow> int \<Rightarrow> ts_render \<Rightarrow> ts_render outcome" where
  "set_cell f row col t =
     and_then (cell_at t row col) (\<lambda>i. Ret (t\<lparr>cells := (cells t)[i := f (cells t ! i)]\<rparr>))"

definition clear_cell :: "ts_cell \<Rightarrow> ts_cell" where
  "clear_cell c = \<lparr>c_ch = [], c_len = 0, c_style = no_style\<rparr>"

definition set_continuation :: "ts_cell \<Rightarrow> ts_cell" where
  "set_continuation c = c\<lparr>c_ch := [], c_len := -1\<rparr>"

definition clear_row :: "int \<Rightarrow> ts_render \<Rightarrow> ts_render outcome" where
  "clear_row row t = each (\<lambda>col. set_cell clear_cell row col) [0..t_cols t - 1] t"

definition clamp :: "int \<Rightarrow> int \<Rightarrow> int \<Rightarrow> int" where
  "clamp val lo hi = (if val < lo then lo else if val > hi then hi else val)"

section \<open>Tab stops\<close>

definition tab_bit :: "int \<Rightarrow> 8 word" where
  "tab_bit col = push_bit (nat (col mod 8)) 1"

definition set_tab_stop :: "int \<Rightarrow> 8 word list \<Rightarrow> 8 word list" where
  "set_tab_stop col tabs = tabs[nat (col div 8) := tabs ! nat (col div 8) OR tab_bit col]"

definition clear_tab_stop :: "int \<Rightarrow> 8 word list \<Rightarrow> 8 word list" where
  "clear_tab_stop col tabs = tabs[nat (col div 8) := tabs ! nat (col div 8) AND NOT (tab_bit col)]"

definition init_tab_stops :: "ts_render \<Rightarrow> ts_render" where
  "init_tab_stops t =
     t\<lparr>tab_stops := foldl (\<lambda>tabs col. if col mod 8 = 0 then set_tab_stop col tabs else tabs)
         (replicate (nat ((t_cols t + 7) div 8)) 0) [0..t_cols t - 1]\<rparr>"

definition is_tab_stop :: "ts_render \<Rightarrow> int \<Rightarrow> bool" where
  "is_tab_stop t col \<longleftrightarrow>
     0 \<le> col \<and> col < t_cols t \<and> drop_bit (nat (col mod 8)) (tab_stops t ! nat (col div 8)) AND 1 \<noteq> 0"

section \<open>Scrolling\<close>

text \<open>\<open>memcpy\<close> of one row onto another.\<close>

definition copy_row :: "int \<Rightarrow> int \<Rightarrow> ts_render \<Rightarrow> ts_render" where
  "copy_row from_row to_row t =
     (let n = nat (t_cols t); src = nat (from_row * t_cols t); dst = nat (to_row * t_cols t) in
      t\<lparr>cells := take dst (cells t) @ take n (drop src (cells t)) @ drop (dst + n) (cells t)\<rparr>)"

definition scroll_up :: "int \<Rightarrow> ts_render \<Rightarrow> ts_render outcome" where
  "scroll_up n t =
     ASSERT_MSG (n > 0)
      (let top = scroll_top t; bot = scroll_bottom t; n1 = (if n > bot - top + 1 then bot - top + 1 else n);
           t1 = foldl (\<lambda>t row. copy_row (row + n1) row t) t [top..bot - n1]
       in each clear_row [bot - n1 + 1..bot] t1)"

definition scroll_down :: "int \<Rightarrow> ts_render \<Rightarrow> ts_render outcome" where
  "scroll_down n t =
     ASSERT_MSG (n > 0)
      (let top = scroll_top t; bot = scroll_bottom t; n1 = (if n > bot - top + 1 then bot - top + 1 else n);
           t1 = foldl (\<lambda>t row. copy_row (row - n1) row t) t (rev [top + n1..bot])
       in each clear_row [top..top + n1 - 1] t1)"

definition do_linefeed :: "ts_render \<Rightarrow> ts_render outcome" where
  "do_linefeed t =
     (if cursor_row t = scroll_bottom t then scroll_up 1 t
      else if cursor_row t < t_rows t - 1 then Ret (t\<lparr>cursor_row := cursor_row t + 1\<rparr>)
      else Ret t)"

definition do_reverse_linefeed :: "ts_render \<Rightarrow> ts_render outcome" where
  "do_reverse_linefeed t =
     (if cursor_row t = scroll_top t then scroll_down 1 t
      else if cursor_row t > 0 then Ret (t\<lparr>cursor_row := cursor_row t - 1\<rparr>)
      else Ret t)"

section \<open>Writing a character\<close>

definition is_continuation :: "ts_cell \<Rightarrow> bool" where
  "is_continuation c \<longleftrightarrow> c_len c = -1"

definition clear_wide_cell :: "int \<Rightarrow> int \<Rightarrow> ts_render \<Rightarrow> ts_render outcome" where
  "clear_wide_cell row col t =
     and_then (get_cell t row col) (\<lambda>c.
       if is_continuation c then
         and_then (if col > 0 then set_cell clear_cell row (col - 1) t else Ret t) (set_cell clear_cell row col)
       else if c_len c > 0 \<and> col + 1 < t_cols t then
         and_then (get_cell t row (col + 1)) (\<lambda>nxt.
           and_then (if is_continuation nxt then set_cell clear_cell row (col + 1) t else Ret t)
             (set_cell clear_cell row col))
       else set_cell clear_cell row col t)"

text \<open>The bytes as numbers; only as many bytes are read as \<open>len\<close> says.\<close>

definition byte_at :: "string \<Rightarrow> nat \<Rightarrow> nat" where
  "byte_at ch i = of_char (ch ! i)"

definition utf8_to_codepoint :: "string \<Rightarrow> nat \<Rightarrow> nat" where
  "utf8_to_codepoint ch len =
     (if len = 1 then byte_at ch 0
      else if len = 2 then push_bit 6 (byte_at ch 0 AND 0x1F) OR (byte_at ch 1 AND 0x3F)
      else if len = 3 then
        push_bit 12 (byte_at ch 0 AND 0x0F) OR push_bit 6 (byte_at ch 1 AND 0x3F) OR (byte_at ch 2 AND 0x3F)
      else if len = 4 then
        push_bit 18 (byte_at ch 0 AND 0x07) OR push_bit 12 (byte_at ch 1 AND 0x3F)
          OR push_bit 6 (byte_at ch 2 AND 0x3F) OR (byte_at ch 3 AND 0x3F)
      else 0xFFFD)"

definition write_cell :: "string \<Rightarrow> ts_render \<Rightarrow> ts_cell \<Rightarrow> ts_cell" where
  "write_cell ch t c =
     \<lparr>c_ch = ch, c_len = int (length ch), c_style = (if preserve_sgr t then active_style t else c_style c)\<rparr>"

text \<open>A combining mark joins the cell before the cursor, if it fits.\<close>

definition append_mark :: "string \<Rightarrow> ts_cell \<Rightarrow> ts_cell" where
  "append_mark ch c =
     (if c_len c > 0 \<and> c_len c + int (length ch) \<le> int NBS_TS_RENDER_CELL_BYTES
      then c\<lparr>c_ch := c_ch c @ ch, c_len := c_len c + int (length ch)\<rparr> else c)"

definition put_mark :: "string \<Rightarrow> ts_render \<Rightarrow> ts_render outcome" where
  "put_mark ch t =
     (if \<not> pending_wrap t \<and> \<not> cursor_col t > 0 then Ret t
      else (let prev_col = (if pending_wrap t then t_cols t - 1 else cursor_col t - 1) in
        and_then (get_cell t (cursor_row t) prev_col) (\<lambda>prev.
          set_cell (append_mark ch) (cursor_row t)
            (if is_continuation prev \<and> prev_col > 0 then prev_col - 1 else prev_col) t)))"

definition put_wide :: "string \<Rightarrow> ts_render \<Rightarrow> ts_render outcome" where
  "put_wide ch t =
     and_then
       (if cursor_col t \<ge> t_cols t - 1 then
          and_then (set_cell clear_cell (cursor_row t) (cursor_col t) t) (\<lambda>t1. do_linefeed (t1\<lparr>cursor_col := 0\<rparr>))
        else Ret t) (\<lambda>t1.
     and_then (clear_wide_cell (cursor_row t1) (cursor_col t1) t1) (\<lambda>t2.
     and_then (clear_wide_cell (cursor_row t2) (cursor_col t2 + 1) t2) (\<lambda>t3.
     and_then (set_cell (write_cell ch t3) (cursor_row t3) (cursor_col t3) t3) (\<lambda>t4.
     and_then (set_cell set_continuation (cursor_row t4) (cursor_col t4 + 1) t4) (\<lambda>t5.
       Ret (if cursor_col t5 + 2 \<ge> t_cols t5 then t5\<lparr>cursor_col := t_cols t5 - 1, pending_wrap := True\<rparr>
            else t5\<lparr>cursor_col := cursor_col t5 + 2\<rparr>))))))"

definition put_narrow :: "string \<Rightarrow> ts_render \<Rightarrow> ts_render outcome" where
  "put_narrow ch t =
     and_then (clear_wide_cell (cursor_row t) (cursor_col t) t) (\<lambda>t1.
     and_then (set_cell (write_cell ch t1) (cursor_row t1) (cursor_col t1) t1) (\<lambda>t2.
       Ret (if cursor_col t2 \<ge> t_cols t2 - 1 then t2\<lparr>pending_wrap := True\<rparr>
            else t2\<lparr>cursor_col := cursor_col t2 + 1\<rparr>)))"

definition put_char :: "string \<Rightarrow> ts_render \<Rightarrow> ts_render outcome" where
  "put_char ch t =
     ASSERT_MSG (0 < length ch \<and> length ch \<le> NBS_TS_RENDER_CELL_BYTES)
      (let width = nbs_ts_wcwidth (utf8_to_codepoint ch (length ch)) in
       if width = 0 then put_mark ch t
       else and_then
         (if pending_wrap t then
            and_then (do_linefeed (t\<lparr>cursor_col := 0\<rparr>)) (\<lambda>t1. Ret (t1\<lparr>pending_wrap := False\<rparr>))
          else Ret t)
         (if width = 2 then put_wide ch else put_narrow ch))"

end
