(* ===== verification/TermBidi.thy ===== *)
theory TermBidi
  imports TermTable "HOL-Library.Multiset"
begin

text \<open>
  The bidirectional algorithm of the renderer (src/src/nbs-ts-render/nbs_ts_bidi.c), rule by rule:
  the arrays of the C code are lists over the same positions, and a loop that reads what it has
  already written carries that value along.  The properties: the reordering is a permutation,
  and text without right-to-left characters keeps its order.
\<close>

section \<open>The paragraph level\<close>

fun paragraph_loop :: "nat \<Rightarrow> bidi_type list \<Rightarrow> int" where
  "paragraph_loop isolate_count [] = 0"
| "paragraph_loop isolate_count (t # ts) =
     (if t \<in> {BIDI_LRI, BIDI_RLI, BIDI_FSI} then paragraph_loop (isolate_count + 1) ts
      else if t = BIDI_PDI then paragraph_loop (isolate_count - 1) ts
      else if t = BIDI_L then if isolate_count = 0 then 0 else paragraph_loop isolate_count ts
      else if t = BIDI_R \<or> t = BIDI_AL then if isolate_count = 0 then 1 else paragraph_loop isolate_count ts
      else paragraph_loop isolate_count ts)"

definition determine_paragraph_level :: "bidi_type list \<Rightarrow> int" where
  "determine_paragraph_level types = paragraph_loop 0 types"

definition next_odd :: "int \<Rightarrow> int" where
  "next_odd level = (if odd level then level + 2 else level + 1)"

definition next_even :: "int \<Rightarrow> int" where
  "next_even level = (if odd level then level + 1 else level + 2)"

section \<open>Explicit levels (X1-X8)\<close>

abbreviation (input) MAX_DEPTH :: int where "MAX_DEPTH \<equiv> 125"

text \<open>The top of the stack is the head of the list; the bottom entry is never removed.\<close>

record dir_status =
  ds_level :: int
  ds_override :: bidi_type
  ds_isolate :: bool

record explicit_state =
  x_stack :: "dir_status list"
  overflow_isolate :: nat
  overflow_embedding :: nat
  valid_isolate :: nat

definition x_top :: "explicit_state \<Rightarrow> dir_status" where
  "x_top x = hd (x_stack x)"

definition x_push :: "int \<Rightarrow> bidi_type \<Rightarrow> bool \<Rightarrow> explicit_state \<Rightarrow> explicit_state" where
  "x_push level ov isolate x =
     x\<lparr>x_stack := \<lparr>ds_level = level, ds_override = ov, ds_isolate = isolate\<rparr> # x_stack x\<rparr>"

definition x_room :: "int \<Rightarrow> explicit_state \<Rightarrow> bool" where
  "x_room level x \<longleftrightarrow> level \<le> MAX_DEPTH \<and> overflow_isolate x = 0 \<and> overflow_embedding x = 0"

definition x_embed :: "int \<Rightarrow> bidi_type \<Rightarrow> explicit_state \<Rightarrow> explicit_state" where
  "x_embed level ov x =
     (if x_room level x then x_push level ov False x
      else if overflow_isolate x = 0 then x\<lparr>overflow_embedding := overflow_embedding x + 1\<rparr> else x)"

definition x_enter :: "int \<Rightarrow> explicit_state \<Rightarrow> explicit_state" where
  "x_enter level x =
     (if x_room level x then x_push level BIDI_ON True (x\<lparr>valid_isolate := valid_isolate x + 1\<rparr>)
      else x\<lparr>overflow_isolate := overflow_isolate x + 1\<rparr>)"

fun pop_isolate :: "dir_status list \<Rightarrow> dir_status list" where
  "pop_isolate [] = []"
| "pop_isolate [d] = [d]"
| "pop_isolate (d # e # ds) = (if ds_isolate d then e # ds else pop_isolate (e # ds))"

definition x_leave :: "explicit_state \<Rightarrow> explicit_state" where
  "x_leave x =
     (if overflow_isolate x > 0 then x\<lparr>overflow_isolate := overflow_isolate x - 1\<rparr>
      else if valid_isolate x > 0
        then x\<lparr>overflow_embedding := 0, x_stack := pop_isolate (x_stack x), valid_isolate := valid_isolate x - 1\<rparr>
      else x)"

definition x_pop :: "explicit_state \<Rightarrow> explicit_state" where
  "x_pop x =
     (if overflow_isolate x = 0 then
        if overflow_embedding x > 0 then x\<lparr>overflow_embedding := overflow_embedding x - 1\<rparr>
        else if length (x_stack x) > 1 \<and> \<not> ds_isolate (x_top x) then x\<lparr>x_stack := tl (x_stack x)\<rparr>
        else x
      else x)"

text \<open>The type an override gives to the character.\<close>

definition overridden :: "explicit_state \<Rightarrow> bidi_type \<Rightarrow> bidi_type" where
  "overridden x t = (if ds_override (x_top x) \<noteq> BIDI_ON then ds_override (x_top x) else t)"

text \<open>One character: its level, its resolved type and the new state; \<open>ts\<close> are the types after it.\<close>

definition explicit_step :: "int \<Rightarrow> bidi_type \<Rightarrow> bidi_type list \<Rightarrow> explicit_state \<Rightarrow> int \<times> bidi_type \<times> explicit_state" where
  "explicit_step para_level t ts x =
     (let level = ds_level (x_top x) in
      if t = BIDI_RLE then (let x1 = x_embed (next_odd level) BIDI_ON x in (ds_level (x_top x1), BIDI_BN, x1))
      else if t = BIDI_LRE then (let x1 = x_embed (next_even level) BIDI_ON x in (ds_level (x_top x1), BIDI_BN, x1))
      else if t = BIDI_RLO then (let x1 = x_embed (next_odd level) BIDI_R x in (ds_level (x_top x1), BIDI_BN, x1))
      else if t = BIDI_LRO then (let x1 = x_embed (next_even level) BIDI_L x in (ds_level (x_top x1), BIDI_BN, x1))
      else if t = BIDI_RLI then (level, overridden x t, x_enter (next_odd level) x)
      else if t = BIDI_LRI then (level, overridden x t, x_enter (next_even level) x)
      else if t = BIDI_FSI then
        (level, overridden x t,
         x_enter (if determine_paragraph_level ts \<noteq> 0 then next_odd level else next_even level) x)
      else if t = BIDI_PDI then (let x1 = x_leave x in (ds_level (x_top x1), BIDI_ON, x1))
      else if t = BIDI_PDF then (let x1 = x_pop x in (ds_level (x_top x1), BIDI_BN, x1))
      else if t = BIDI_B then (para_level, if para_level \<noteq> 0 then BIDI_R else BIDI_L, x)
      else if t = BIDI_BN then (level, t, x)
      else (level, overridden x t, x))"

fun explicit_loop :: "int \<Rightarrow> bidi_type list \<Rightarrow> explicit_state \<Rightarrow> (int \<times> bidi_type) list" where
  "explicit_loop para_level [] x = []"
| "explicit_loop para_level (t # ts) x =
     (case explicit_step para_level t ts x of (level, r, x1) \<Rightarrow> (level, r) # explicit_loop para_level ts x1)"

definition explicit_start :: "int \<Rightarrow> explicit_state" where
  "explicit_start para_level =
     \<lparr>x_stack = [\<lparr>ds_level = para_level, ds_override = BIDI_ON, ds_isolate = False\<rparr>],
      overflow_isolate = 0, overflow_embedding = 0, valid_isolate = 0\<rparr>"

section \<open>Weak types (W1-W7)\<close>

definition strong_of :: "int \<Rightarrow> bidi_type" where
  "strong_of para_level = (if odd para_level then BIDI_R else BIDI_L)"

fun rule_w1 :: "bidi_type \<Rightarrow> bidi_type list \<Rightarrow> bidi_type list" where
  "rule_w1 prev [] = []"
| "rule_w1 prev (t # ts) = (let r = (if t = BIDI_NSM then prev else t) in r # rule_w1 r ts)"

fun rule_w2 :: "bidi_type \<Rightarrow> bidi_type list \<Rightarrow> bidi_type list" where
  "rule_w2 prev_strong [] = []"
| "rule_w2 prev_strong (t # ts) =
     (let s = (if t \<in> {BIDI_L, BIDI_R, BIDI_AL} then t else prev_strong) in
      (if t = BIDI_EN \<and> s = BIDI_AL then BIDI_AN else t) # rule_w2 s ts)"

definition rule_w3 :: "bidi_type list \<Rightarrow> bidi_type list" where
  "rule_w3 ts = map (\<lambda>t. if t = BIDI_AL then BIDI_R else t) ts"

text \<open>The positions 1 to \<open>count - 2\<close>; \<open>prev\<close> is the (resolved) type before.\<close>

fun w4_loop :: "bidi_type \<Rightarrow> bidi_type list \<Rightarrow> bidi_type list" where
  "w4_loop prev [] = []"
| "w4_loop prev [t] = [t]"
| "w4_loop prev (t # n # ts) =
     (let r = (if t = BIDI_ES \<and> prev = BIDI_EN \<and> n = BIDI_EN then BIDI_EN
               else if t = BIDI_CS then
                 if prev = BIDI_EN \<and> n = BIDI_EN then BIDI_EN
                 else if prev = BIDI_AN \<and> n = BIDI_AN then BIDI_AN else t
               else t)
      in r # w4_loop r (n # ts))"

fun rule_w4 :: "bidi_type list \<Rightarrow> bidi_type list" where
  "rule_w4 [] = []"
| "rule_w4 (t # ts) = t # w4_loop t ts"

definition finds_en :: "bidi_type list \<Rightarrow> bool" where
  "finds_en ts \<longleftrightarrow> BIDI_EN \<in> set (takeWhile (\<lambda>t. t = BIDI_ET \<or> t = BIDI_EN) ts)"

text \<open>\<open>before\<close>: what precedes, resolved, nearest first.\<close>

fun rule_w5 :: "bidi_type list \<Rightarrow> bidi_type list \<Rightarrow> bidi_type list" where
  "rule_w5 before [] = []"
| "rule_w5 before (t # ts) =
     (let r = (if t = BIDI_ET \<and> (finds_en before \<or> finds_en ts) then BIDI_EN else t) in r # rule_w5 (r # before) ts)"

definition rule_w6 :: "bidi_type list \<Rightarrow> bidi_type list" where
  "rule_w6 ts = map (\<lambda>t. if t \<in> {BIDI_ES, BIDI_ET, BIDI_CS} then BIDI_ON else t) ts"

fun rule_w7 :: "bidi_type \<Rightarrow> bidi_type list \<Rightarrow> bidi_type list" where
  "rule_w7 prev_strong [] = []"
| "rule_w7 prev_strong (t # ts) =
     (let s = (if t \<in> {BIDI_L, BIDI_R} then t else prev_strong) in
      (if t = BIDI_EN \<and> s = BIDI_L then BIDI_L else t) # rule_w7 s ts)"

definition weak_types :: "int \<Rightarrow> bidi_type list \<Rightarrow> bidi_type list" where
  "weak_types para_level ts =
     rule_w7 (strong_of para_level) (rule_w6 (rule_w5 [] (rule_w4 (rule_w3
       (rule_w2 (strong_of para_level) (rule_w1 (strong_of para_level) ts))))))"

section \<open>Neutral types and implicit levels\<close>

definition is_neutral :: "bidi_type \<Rightarrow> bool" where
  "is_neutral t \<longleftrightarrow> t \<in> {BIDI_ON, BIDI_WS, BIDI_S, BIDI_B, BIDI_BN}"

definition neutral_side :: "bidi_type \<Rightarrow> bidi_type" where
  "neutral_side t = (if t = BIDI_EN \<or> t = BIDI_AN then BIDI_R else t)"

definition neutral_type :: "bidi_type \<Rightarrow> bidi_type \<Rightarrow> int \<Rightarrow> bidi_type" where
  "neutral_type prev next level =
     (let before = neutral_side prev; after = neutral_side next in
      if before = after \<and> (before = BIDI_L \<or> before = BIDI_R) then before
      else if odd level then BIDI_R else BIDI_L)"

text \<open>\<open>prev\<close>: the resolved type before, or \<open>sor\<close>.  The positions come with their levels.\<close>

function neutral_loop :: "bidi_type \<Rightarrow> bidi_type \<Rightarrow> (int \<times> bidi_type) list \<Rightarrow> bidi_type list" where
  "neutral_loop sor prev lts =
     (case lts of [] \<Rightarrow> []
      | (level, t) # rest \<Rightarrow>
          if is_neutral t then
            (let later = dropWhile (\<lambda>e. is_neutral (snd e)) lts;
                 after = (case later of [] \<Rightarrow> sor | (l2, t2) # lts2 \<Rightarrow> t2);
                 r = neutral_type prev after level
             in replicate (length (takeWhile (\<lambda>e. is_neutral (snd e)) lts)) r @ neutral_loop sor r later)
          else t # neutral_loop sor t rest)"
  by pat_completeness auto
termination
  by (relation "measure (\<lambda>(sor, prev, lts). length lts)") (auto simp: less_Suc_eq_le length_dropWhile_le)

declare neutral_loop.simps [simp del]

definition implicit_level :: "int \<Rightarrow> bidi_type \<Rightarrow> int" where
  "implicit_level level t =
     (if level mod 2 = 0 then
        if t = BIDI_R then level + 1 else if t = BIDI_AN \<or> t = BIDI_EN then level + 2 else level
      else if t \<in> {BIDI_L, BIDI_AN, BIDI_EN} then level + 1 else level)"

text \<open>L1, on the reversed line.\<close>

fun trailing_levels :: "int \<Rightarrow> (bidi_type \<times> int) list \<Rightarrow> int list" where
  "trailing_levels para_level [] = []"
| "trailing_levels para_level ((t, level) # tls) =
     (if t \<in> {BIDI_WS, BIDI_S, BIDI_B, BIDI_LRI, BIDI_RLI, BIDI_FSI, BIDI_PDI}
        then para_level # trailing_levels para_level tls
      else if t = BIDI_BN then level # trailing_levels para_level tls
      else level # map snd tls)"

section \<open>Reordering (L2)\<close>

text \<open>Reverse every run of positions at the level or higher.\<close>

function reverse_runs :: "(nat \<Rightarrow> bool) \<Rightarrow> nat list \<Rightarrow> nat list" where
  "reverse_runs high vs =
     (let low_run = takeWhile (\<lambda>v. \<not> high v) vs; vs1 = dropWhile (\<lambda>v. \<not> high v) vs in
      if vs1 = [] then low_run
      else low_run @ rev (takeWhile high vs1) @ reverse_runs high (dropWhile high vs1))"
  by pat_completeness auto
termination
proof (relation "measure (\<lambda>(high, vs). length vs)")
  fix high :: "nat \<Rightarrow> bool" and vs low_run vs1
  assume v: "vs1 = dropWhile (\<lambda>v. \<not> high v) vs" "vs1 \<noteq> []"
  then have "high (hd vs1)" by (metis hd_dropWhile)
  then have "length (dropWhile high vs1) < length vs1"
    using v(2) by (cases vs1) (auto simp: less_Suc_eq_le length_dropWhile_le)
  also have "length vs1 \<le> length vs" unfolding v(1) by (rule length_dropWhile_le)
  finally show "((high, dropWhile high vs1), high, vs) \<in> measure (\<lambda>(high, vs). length vs)" by simp
qed simp

declare reverse_runs.simps [simp del]

definition max_level :: "int list \<Rightarrow> int" where
  "max_level levels = foldl (\<lambda>m l. if l > m then l else m) 0 levels"

definition reorder_levels :: "int list \<Rightarrow> nat list" where
  "reorder_levels levels =
     foldl (\<lambda>vm level. reverse_runs (\<lambda>v. levels ! v \<ge> level) vm) [0..<length levels] (rev [1..max_level levels])"

definition bidi_levels :: "int \<Rightarrow> bidi_type list \<Rightarrow> int list" where
  "bidi_levels para_level types =
     (let ex = explicit_loop para_level types (explicit_start para_level);
          weak = weak_types para_level (map snd ex);
          resolved = neutral_loop (strong_of para_level) (strong_of para_level) (zip (map fst ex) weak);
          levels = map (\<lambda>(l, t). implicit_level l t) (zip (map fst ex) resolved)
      in rev (trailing_levels para_level (rev (zip types levels))))"

text \<open>The result and the map; \<open>None\<close> leaves the caller's map as it is.  \<open>alloc\<close>: the allocations succeed.\<close>

definition nbs_ts_bidi_reorder :: "bool \<Rightarrow> nat list \<Rightarrow> int \<Rightarrow> int \<times> nat list option" where
  "nbs_ts_bidi_reorder alloc codepoints base_dir =
     (if codepoints = [] then (0, None)
      else if \<not> alloc then (0, Some [0..<length codepoints])
      else (let types = map nbs_ts_bidi_type codepoints;
                para_level = (if base_dir = 1 then 0 else if base_dir = 2 then 1 else determine_paragraph_level types)
            in (para_level, Some (reorder_levels (bidi_levels para_level types)))))"

text \<open>The levels reported to the caller are computed anew from the types; \<open>None\<close>: they are not written.\<close>

definition reported_level :: "int \<Rightarrow> bidi_type \<Rightarrow> int" where
  "reported_level para_level t =
     (if t \<in> {BIDI_R, BIDI_AL, BIDI_AN} then 1
      else if para_level = 1 \<and> t \<in> {BIDI_ON, BIDI_WS, BIDI_CS, BIDI_ES, BIDI_ET, BIDI_NSM, BIDI_BN} then 1
      else 0)"

definition nbs_ts_bidi_reorder_with_levels ::
  "bool \<Rightarrow> bool \<Rightarrow> nat list \<Rightarrow> int \<Rightarrow> nat list option \<times> int list option" where
  "nbs_ts_bidi_reorder_with_levels alloc alloc_types codepoints base_dir =
     (case nbs_ts_bidi_reorder alloc codepoints base_dir of
        (para_level, vm) \<Rightarrow>
          (vm, if alloc_types then Some (map (\<lambda>cp. reported_level para_level (nbs_ts_bidi_type cp)) codepoints) else None))"

section \<open>The reordering is a permutation\<close>

lemma length_explicit_loop [simp]: "length (explicit_loop p ts x) = length ts"
  by (induction ts arbitrary: x) (auto split: prod.splits)

lemma length_rule_w1 [simp]: "length (rule_w1 s ts) = length ts"
  by (induction ts arbitrary: s) (auto simp: Let_def)

lemma length_rule_w2 [simp]: "length (rule_w2 s ts) = length ts"
  by (induction ts arbitrary: s) (auto simp: Let_def)

lemma length_w4_loop [simp]: "length (w4_loop s ts) = length ts"
  by (induction s ts rule: w4_loop.induct) (auto simp: Let_def)

lemma length_rule_w4 [simp]: "length (rule_w4 ts) = length ts"
  by (cases ts) auto

lemma length_rule_w5 [simp]: "length (rule_w5 b ts) = length ts"
  by (induction ts arbitrary: b) (auto simp: Let_def)

lemma length_rule_w7 [simp]: "length (rule_w7 s ts) = length ts"
  by (induction ts arbitrary: s) (auto simp: Let_def)

lemma length_weak_types [simp]: "length (weak_types p ts) = length ts"
  by (simp add: weak_types_def rule_w3_def rule_w6_def)

lemma length_neutral_loop [simp]: "length (neutral_loop sor prev lts) = length lts"
proof (induction sor prev lts rule: neutral_loop.induct)
  case (1 sor prev lts)
  have s: "length (takeWhile P lts) + length (dropWhile P lts) = length lts" for P
    by (metis length_append takeWhile_dropWhile_id)
  show ?case
  proof (cases lts)
    case (Cons e rest)
    obtain l t where e: "e = (l, t)" by fastforce
    show ?thesis
    proof (cases "is_neutral t")
      case True
      have "length (neutral_loop sor r (dropWhile (\<lambda>e. is_neutral (snd e)) lts)) = length (dropWhile (\<lambda>e. is_neutral (snd e)) lts)"
        if "r = neutral_type prev (case dropWhile (\<lambda>e. is_neutral (snd e)) lts of [] \<Rightarrow> sor | (l2, t2) # lts2 \<Rightarrow> t2) l" for r
        using "1.IH"(1)[OF Cons e[symmetric] True refl refl that] by simp
      then show ?thesis using Cons e True s[of "\<lambda>e. is_neutral (snd e)"]
        by (subst neutral_loop.simps) (simp add: Let_def)
    next
      case False
      then show ?thesis using Cons e "1.IH"(2)[OF Cons e[symmetric] False] by (subst neutral_loop.simps) simp
    qed
  qed (simp add: neutral_loop.simps)
qed

lemma length_trailing_levels [simp]: "length (trailing_levels p tls) = length tls"
  by (induction p tls rule: trailing_levels.induct) auto

lemma length_bidi_levels [simp]: "length (bidi_levels p types) = length types"
  by (simp add: bidi_levels_def Let_def)

lemma mset_split: "mset (takeWhile P vs) + mset (dropWhile P vs) = mset vs"
  by (metis mset_append takeWhile_dropWhile_id)

lemma mset_reverse_runs [simp]: "mset (reverse_runs high vs) = mset vs"
proof (induction high vs rule: reverse_runs.induct)
  case (1 high vs)
  let ?vs1 = "dropWhile (\<lambda>v. \<not> high v) vs"
  show ?case
  proof (cases "?vs1 = []")
    case True
    then have "mset (takeWhile (\<lambda>v. \<not> high v) vs) = mset vs" by (metis append_Nil2 takeWhile_dropWhile_id)
    then show ?thesis using True by (subst reverse_runs.simps) (simp add: Let_def)
  next
    case False
    have "mset (reverse_runs high vs) = mset (takeWhile (\<lambda>v. \<not> high v) vs)
        + (mset (takeWhile high ?vs1) + mset (dropWhile high ?vs1))"
      using "1.IH"[OF refl refl False] False
      by (subst reverse_runs.simps) (simp add: Let_def del: dropWhile_eq_Nil_conv)
    then show ?thesis by (simp only: mset_split)
  qed
qed

lemma mset_reorder_levels: "mset (reorder_levels levels) = mset [0..<length levels]"
proof -
  have "mset (foldl (\<lambda>vm level. reverse_runs (h level) vm) vs ls) = mset vs" for h :: "int \<Rightarrow> nat \<Rightarrow> bool" and vs ls
    by (induction ls arbitrary: vs) simp_all
  then show ?thesis unfolding reorder_levels_def .
qed

lemma bidi_map_permutes:
  assumes "nbs_ts_bidi_reorder alloc cps base_dir = (p, Some vm)"
  shows "mset vm = mset [0..<length cps]"
  using assms mset_reorder_levels
  by (auto simp: nbs_ts_bidi_reorder_def Let_def split: if_splits)

section \<open>Left-to-right text keeps its order\<close>

text \<open>The types that do not turn the text: everything but the right-to-left and the formatting types.\<close>

definition ltr_type :: "bidi_type \<Rightarrow> bool" where
  "ltr_type t \<longleftrightarrow> t \<in> {BIDI_L, BIDI_EN, BIDI_ES, BIDI_ET, BIDI_CS, BIDI_NSM, BIDI_BN, BIDI_B, BIDI_S, BIDI_WS, BIDI_ON}"

lemma ltr_paragraph: "list_all ltr_type ts \<Longrightarrow> determine_paragraph_level ts = 0"
proof -
  have "list_all ltr_type ts \<Longrightarrow> paragraph_loop 0 ts = 0" by (induction ts) (auto simp: ltr_type_def)
  then show "list_all ltr_type ts \<Longrightarrow> ?thesis" by (simp add: determine_paragraph_level_def)
qed

lemma ltr_explicit:
  "list_all ltr_type ts \<Longrightarrow> explicit_loop 0 ts (explicit_start 0)
     = map (\<lambda>t. (0, if t = BIDI_B then BIDI_L else t)) ts"
  by (induction ts)
     (auto simp: explicit_step_def ltr_type_def explicit_start_def x_top_def overridden_def Let_def)

text \<open>What the weak rules leave of such types: no number and no right-to-left type.\<close>

definition ltr_weak :: "bidi_type \<Rightarrow> bool" where
  "ltr_weak t \<longleftrightarrow> t \<in> {BIDI_L, BIDI_BN, BIDI_S, BIDI_WS, BIDI_ON}"

definition ltr_mid :: "bidi_type \<Rightarrow> bool" where
  "ltr_mid t \<longleftrightarrow> t \<in> {BIDI_L, BIDI_EN, BIDI_ES, BIDI_ET, BIDI_CS, BIDI_BN, BIDI_S, BIDI_WS, BIDI_ON}"

lemma ltr_w1: "list_all (\<lambda>t. ltr_mid t \<or> t = BIDI_NSM) ts \<Longrightarrow> ltr_mid s \<Longrightarrow> list_all ltr_mid (rule_w1 s ts)"
  by (induction ts arbitrary: s) (auto simp: Let_def)

lemma ltr_w2: "list_all ltr_mid ts \<Longrightarrow> s = BIDI_L \<Longrightarrow> rule_w2 s ts = ts"
  by (induction ts arbitrary: s) (auto simp: ltr_mid_def Let_def)

lemma ltr_w3: "list_all ltr_mid ts \<Longrightarrow> rule_w3 ts = ts"
  unfolding rule_w3_def by (rule map_idI) (auto simp: ltr_mid_def list_all_iff)

lemma ltr_w4_loop: "list_all ltr_mid ts \<Longrightarrow> list_all ltr_mid (w4_loop s ts)"
  by (induction s ts rule: w4_loop.induct) (auto simp: Let_def ltr_mid_def)

lemma ltr_w4: "list_all ltr_mid ts \<Longrightarrow> list_all ltr_mid (rule_w4 ts)"
  by (cases ts) (auto simp: ltr_w4_loop)

lemma ltr_w5: "list_all ltr_mid ts \<Longrightarrow> list_all ltr_mid (rule_w5 b ts)"
  by (induction ts arbitrary: b) (auto simp: Let_def ltr_mid_def)

lemma ltr_w7: "list_all (\<lambda>t. ltr_weak t \<or> t = BIDI_EN) ts \<Longrightarrow> list_all ltr_weak (rule_w7 BIDI_L ts)"
  by (induction ts) (auto simp: Let_def ltr_weak_def)

lemma ltr_weak_types: "list_all ltr_type ts \<Longrightarrow> list_all ltr_weak (weak_types 0 (map (\<lambda>t. if t = BIDI_B then BIDI_L else t) ts))"
proof -
  assume a: "list_all ltr_type ts"
  let ?ts = "map (\<lambda>t. if t = BIDI_B then BIDI_L else t) ts"
  have "list_all (\<lambda>t. ltr_mid t \<or> t = BIDI_NSM) ?ts" using a by (auto simp: list_all_iff ltr_type_def ltr_mid_def)
  then have w1: "list_all ltr_mid (rule_w1 BIDI_L ?ts)" by (rule ltr_w1) (simp add: ltr_mid_def)
  let ?w = "rule_w5 [] (rule_w4 (rule_w3 (rule_w2 BIDI_L (rule_w1 BIDI_L ?ts))))"
  have "list_all ltr_mid ?w" unfolding ltr_w2[OF w1 refl] ltr_w3[OF w1] by (intro ltr_w5 ltr_w4 w1)
  then have "list_all (\<lambda>t. ltr_weak t \<or> t = BIDI_EN) (rule_w6 ?w)"
    by (auto simp: rule_w6_def list_all_iff ltr_mid_def ltr_weak_def)
  then show ?thesis unfolding weak_types_def strong_of_def by (simp add: ltr_w7)
qed

lemma neutral_ltr:
  "list_all (\<lambda>(l, t). l = 0 \<and> ltr_weak t) lts \<Longrightarrow> set (neutral_loop BIDI_L BIDI_L lts) \<subseteq> {BIDI_L}"
proof (induction BIDI_L BIDI_L lts rule: neutral_loop.induct)
  case (1 lts)
  let ?n = "\<lambda>e :: int \<times> bidi_type. is_neutral (snd e)"
  show ?case
  proof (cases lts)
    case (Cons e rest)
    obtain l t where e: "e = (l, t)" by fastforce
    have l0: "l = 0" and w: "ltr_weak t" using "1.prems" Cons e by simp_all
    show ?thesis
    proof (cases "is_neutral t")
      case True
      let ?d = "dropWhile ?n lts"
      have d: "list_all (\<lambda>(l, t). l = 0 \<and> ltr_weak t) ?d" using "1.prems" by (auto simp: list_all_iff dest: set_dropWhileD)
      have r: "neutral_type BIDI_L (case ?d of [] \<Rightarrow> BIDI_L | (l2, t2) # lts2 \<Rightarrow> t2) l = BIDI_L"
        by (simp add: l0 neutral_type_def Let_def neutral_side_def)
      have "set (neutral_loop BIDI_L BIDI_L ?d) \<subseteq> {BIDI_L}"
        using "1.hyps"(1)[OF Cons e[symmetric] True refl refl r[symmetric] d] .
      then show ?thesis using Cons e True r by (subst neutral_loop.simps) (auto simp: Let_def)
    next
      case False
      then have t: "t = BIDI_L" using w by (auto simp: ltr_weak_def is_neutral_def)
      have "set (neutral_loop BIDI_L BIDI_L rest) \<subseteq> {BIDI_L}"
        using "1.hyps"(2)[OF Cons _ _ _ ] "1.prems" Cons e t False by simp
      then show ?thesis using Cons e False t by (subst neutral_loop.simps) simp
    qed
  qed (simp add: neutral_loop.simps)
qed

lemma trailing_zero: "set (map snd tls) \<subseteq> {0} \<Longrightarrow> set (trailing_levels 0 tls) \<subseteq> {0}"
  by (induction "0 :: int" tls rule: trailing_levels.induct) auto

lemma ltr_levels: "list_all ltr_type ts \<Longrightarrow> set (bidi_levels 0 ts) \<subseteq> {0}"
proof -
  assume a: "list_all ltr_type ts"
  let ?ts = "map (\<lambda>t. if t = BIDI_B then BIDI_L else t) ts"
  have ex: "map fst (explicit_loop 0 ts (explicit_start 0)) = map (\<lambda>_. 0) ts"
    "map snd (explicit_loop 0 ts (explicit_start 0)) = ?ts" using ltr_explicit[OF a] by simp_all
  let ?lts = "zip (map (\<lambda>_. 0 :: int) ts) (weak_types 0 ?ts)"
  have "list_all (\<lambda>(l, t). l = 0 \<and> ltr_weak t) ?lts"
    using ltr_weak_types[OF a] by (auto simp: list_all_iff dest: set_zip_leftD set_zip_rightD)
  then have "set (neutral_loop BIDI_L BIDI_L ?lts) \<subseteq> {BIDI_L}" by (rule neutral_ltr)
  then have "l = 0 \<and> t = BIDI_L" if "(l, t) \<in> set (zip (map (\<lambda>_. 0) ts) (neutral_loop BIDI_L BIDI_L ?lts))" for l t
    using set_zip_leftD[OF that] set_zip_rightD[OF that] by auto
  then have z: "set (map (\<lambda>(l, t). implicit_level l t) (zip (map (\<lambda>_. 0) ts) (neutral_loop BIDI_L BIDI_L ?lts))) \<subseteq> {0}"
    by (fastforce simp: implicit_level_def)
  have "set (map snd (rev (zip ts ls))) \<subseteq> set ls" for ls :: "int list" by (auto dest: set_zip_rightD)
  note z2 = subset_trans[OF this z]
  from trailing_zero[OF z2] show ?thesis
    by (simp add: bidi_levels_def Let_def ex strong_of_def)
qed

lemma ltr_reorder: "list_all ltr_type ts \<Longrightarrow> reorder_levels (bidi_levels 0 ts) = [0..<length ts]"
proof -
  assume a: "list_all ltr_type ts"
  have "foldl (\<lambda>m l. if l > m then l else m) (0 :: int) ls = 0" if "set ls \<subseteq> {0}" for ls
    using that by (induction ls) auto
  then have "max_level (bidi_levels 0 ts) = 0" using ltr_levels[OF a] by (simp add: max_level_def)
  then show ?thesis by (simp add: reorder_levels_def)
qed

text \<open>The code points below U+0590 that are not formatting characters do not turn the text.\<close>

definition ltr_cp :: "nat \<Rightarrow> bool" where
  "ltr_cp cp \<longleftrightarrow> ltr_type (nbs_ts_bidi_type cp)"

lemma low_ltr: "cp < 0x590 \<Longrightarrow> ltr_cp cp"
proof -
  assume cp: "cp < 0x590"
  have tab: "list_all (\<lambda>(lo, hi, t). lo < 0x590 \<longrightarrow> ltr_type t) bidi_ranges"
    by (simp add: bidi_ranges_def ltr_type_def)
  show ?thesis
  proof (cases "search_table bidi_range bidi_ranges cp")
    case (Some e)
    then have "e \<in> set bidi_ranges" "fst e \<le> cp"
      using bidi.search_Some[of cp e] by (auto simp: covers_def bidi_range_def)
    then show ?thesis using tab cp Some by (auto simp: ltr_cp_def nbs_ts_bidi_type_def list_all_iff split: prod.splits)
  qed (simp add: ltr_cp_def nbs_ts_bidi_type_def ltr_type_def)
qed

lemma ltr_reported: "ltr_type t \<Longrightarrow> reported_level 0 t = 0"
  by (auto simp: reported_level_def ltr_type_def)

lemma bidi_ltr:
  assumes "list_all ltr_cp cps" "cps \<noteq> []"
  shows "nbs_ts_bidi_reorder_with_levels alloc True cps 0 = (Some [0..<length cps], Some (replicate (length cps) 0))"
proof -
  have l: "list_all ltr_type (map nbs_ts_bidi_type cps)" using assms(1) by (simp add: list_all_iff ltr_cp_def)
  have r: "map (\<lambda>cp. reported_level 0 (nbs_ts_bidi_type cp)) cps = replicate (length cps) 0"
    using assms(1) ltr_reported by (auto simp: list_all_iff ltr_cp_def intro!: replicate_eqI)
  show ?thesis
    using assms(2) ltr_paragraph[OF l] ltr_reorder[OF l] r
    by (simp add: nbs_ts_bidi_reorder_with_levels_def nbs_ts_bidi_reorder_def Let_def)
qed

end
