(* ===== verification/TermMachine.thy ===== *)
theory TermMachine
  imports TermScreen TermBidi
begin

text \<open>
  The escape sequences of the terminal renderer (src/src/nbs-ts-render/nbs_ts_render.c), its state
  machine byte by byte, the snapshot it prints, and the command line
  (src/src/nbs-ts-render/main.c).
\<close>

section \<open>CSI sequences\<close>

definition csi_param :: "ts_render \<Rightarrow> nat \<Rightarrow> int \<Rightarrow> int" where
  "csi_param t idx default_val =
     (if idx < length (params t) \<and> params t ! idx > 0 then params t ! idx else default_val)"

definition csi_finalize :: "ts_render \<Rightarrow> ts_render" where
  "csi_finalize t =
     (if param_has_val t \<and> length (params t) < NBS_TS_RENDER_MAX_PARAMS
      then t\<lparr>params := params t @ [param_val t]\<rparr> else t)"

definition move_to :: "int \<Rightarrow> int \<Rightarrow> ts_render \<Rightarrow> ts_render" where
  "move_to row col t = t\<lparr>cursor_row := row, cursor_col := col, pending_wrap := False\<rparr>"

definition erase_cols :: "int \<Rightarrow> int list \<Rightarrow> ts_render \<Rightarrow> ts_render outcome" where
  "erase_cols row cs t = each (clear_wide_cell row) cs t"

definition erase_display :: "int \<Rightarrow> ts_render \<Rightarrow> ts_render outcome" where
  "erase_display n t =
     (if n = 0 then
        and_then (erase_cols (cursor_row t) [cursor_col t..t_cols t - 1] t)
          (each clear_row [cursor_row t + 1..t_rows t - 1])
      else if n = 1 then
        and_then (each clear_row [0..cursor_row t - 1] t) (erase_cols (cursor_row t) [0..cursor_col t])
      else if n = 2 \<or> n = 3 then each clear_row [0..t_rows t - 1] t
      else Ret t)"

definition erase_line :: "int \<Rightarrow> ts_render \<Rightarrow> ts_render outcome" where
  "erase_line n t =
     (if n = 0 then erase_cols (cursor_row t) [cursor_col t..t_cols t - 1] t
      else if n = 1 then erase_cols (cursor_row t) [0..cursor_col t] t
      else if n = 2 then clear_row (cursor_row t) t
      else Ret t)"

text \<open>Insert and delete lines: scroll with the cursor's row as the top.\<close>

definition scroll_from_cursor :: "(ts_render \<Rightarrow> ts_render outcome) \<Rightarrow> ts_render \<Rightarrow> ts_render outcome" where
  "scroll_from_cursor scroll t =
     (if scroll_top t \<le> cursor_row t \<and> cursor_row t \<le> scroll_bottom t then
        and_then (scroll (t\<lparr>scroll_top := cursor_row t\<rparr>)) (\<lambda>t1. Ret (t1\<lparr>scroll_top := scroll_top t\<rparr>))
      else Ret t)"

definition copy_cell :: "int \<Rightarrow> int \<Rightarrow> int \<Rightarrow> ts_render \<Rightarrow> ts_render outcome" where
  "copy_cell row from_col to_col t =
     and_then (get_cell t row from_col) (\<lambda>c. set_cell (\<lambda>_. c) row to_col t)"

definition insert_chars :: "int \<Rightarrow> ts_render \<Rightarrow> ts_render outcome" where
  "insert_chars n t =
     (let row = cursor_row t; col = cursor_col t; n1 = (if n > t_cols t - col then t_cols t - col else n) in
      and_then (each (\<lambda>c. copy_cell row (c - n1) c) (rev [col + n1..t_cols t - 1]) t)
        (each (\<lambda>c. set_cell clear_cell row c) [col..min (col + n1) (t_cols t) - 1]))"

definition delete_chars :: "int \<Rightarrow> ts_render \<Rightarrow> ts_render outcome" where
  "delete_chars n t =
     (let row = cursor_row t; col = cursor_col t; n1 = (if n > t_cols t - col then t_cols t - col else n) in
      and_then (each (\<lambda>c. copy_cell row (c + n1) c) [col..t_cols t - n1 - 1] t)
        (each (\<lambda>c. set_cell clear_cell row c) [t_cols t - n1..t_cols t - 1]))"

definition erase_chars :: "int \<Rightarrow> ts_render \<Rightarrow> ts_render outcome" where
  "erase_chars n t = erase_cols (cursor_row t) [cursor_col t..min (cursor_col t + n) (t_cols t) - 1] t"

definition set_region :: "int \<Rightarrow> int \<Rightarrow> ts_render \<Rightarrow> ts_render" where
  "set_region first_row last_row t =
     (let top1 = clamp (first_row - 1) 0 (t_rows t - 1); bot1 = clamp (last_row - 1) 0 (t_rows t - 1);
          t1 = (if top1 < bot1 then t\<lparr>scroll_top := top1, scroll_bottom := bot1\<rparr> else t)
      in move_to 0 0 t1)"

text \<open>Colours and attributes; an rgb colour becomes one of the 256.\<close>

definition rgb_colour :: "int \<Rightarrow> int \<Rightarrow> int \<Rightarrow> int" where
  "rgb_colour r g b =
     (if r = g \<and> g = b then 232 + r * 23 div 255
      else 16 + (r * 5 div 255) * 36 + (g * 5 div 255) * 6 + b * 5 div 255)"

definition sgr_simple :: "int \<Rightarrow> nbs_style \<Rightarrow> nbs_style" where
  "sgr_simple p s =
     (if p = 0 then no_style
      else if p = 1 then s\<lparr>attrs := attrs s OR NBS_ATTR_BOLD\<rparr>
      else if p = 2 then s\<lparr>attrs := attrs s OR NBS_ATTR_DIM\<rparr>
      else if p = 3 then s\<lparr>attrs := attrs s OR NBS_ATTR_ITALIC\<rparr>
      else if p = 4 then s\<lparr>attrs := attrs s OR NBS_ATTR_UNDERLINE\<rparr>
      else if p = 5 then s\<lparr>attrs := attrs s OR NBS_ATTR_BLINK\<rparr>
      else if p = 7 then s\<lparr>attrs := attrs s OR NBS_ATTR_INVERSE\<rparr>
      else if p = 9 then s\<lparr>attrs := attrs s OR NBS_ATTR_STRIKE\<rparr>
      else if p = 22 then s\<lparr>attrs := attrs s AND NOT (NBS_ATTR_BOLD OR NBS_ATTR_DIM)\<rparr>
      else if p = 23 then s\<lparr>attrs := attrs s AND NOT NBS_ATTR_ITALIC\<rparr>
      else if p = 24 then s\<lparr>attrs := attrs s AND NOT NBS_ATTR_UNDERLINE\<rparr>
      else if p = 25 then s\<lparr>attrs := attrs s AND NOT NBS_ATTR_BLINK\<rparr>
      else if p = 27 then s\<lparr>attrs := attrs s AND NOT NBS_ATTR_INVERSE\<rparr>
      else if p = 29 then s\<lparr>attrs := attrs s AND NOT NBS_ATTR_STRIKE\<rparr>
      else if 30 \<le> p \<and> p \<le> 37 then s\<lparr>fg := p - 30\<rparr>
      else if 40 \<le> p \<and> p \<le> 47 then s\<lparr>bg := p - 40\<rparr>
      else if 90 \<le> p \<and> p \<le> 97 then s\<lparr>fg := p - 90 + 8\<rparr>
      else if 100 \<le> p \<and> p \<le> 107 then s\<lparr>bg := p - 100 + 8\<rparr>
      else if p = 39 then s\<lparr>fg := NBS_COLOUR_NONE\<rparr>
      else if p = 49 then s\<lparr>bg := NBS_COLOUR_NONE\<rparr>
      else s)"

fun sgr_params :: "int list \<Rightarrow> nbs_style \<Rightarrow> nbs_style" where
  "sgr_params [] s = s"
| "sgr_params (p # ps) s =
     (if (p = 38 \<or> p = 48) \<and> length ps \<ge> 2 \<and> ps ! 0 = 5 then
        sgr_params (drop 2 ps) (if p = 38 then s\<lparr>fg := ps ! 1\<rparr> else s\<lparr>bg := ps ! 1\<rparr>)
      else if (p = 38 \<or> p = 48) \<and> length ps \<ge> 4 \<and> ps ! 0 = 2 then
        sgr_params (drop 4 ps)
          (if p = 38 then s\<lparr>fg := rgb_colour (ps ! 1) (ps ! 2) (ps ! 3)\<rparr>
           else s\<lparr>bg := rgb_colour (ps ! 1) (ps ! 2) (ps ! 3)\<rparr>)
      else sgr_params ps (sgr_simple p s))"

definition select_rendition :: "ts_render \<Rightarrow> ts_render" where
  "select_rendition t =
     (if preserve_sgr t then
        t\<lparr>active_style := sgr_params (params t) (if params t = [] then no_style else active_style t)\<rparr>
      else t)"

definition clear_tabs :: "int \<Rightarrow> ts_render \<Rightarrow> ts_render" where
  "clear_tabs n t =
     (if n = 0 then
        if 0 \<le> cursor_col t \<and> cursor_col t < t_cols t then t\<lparr>tab_stops := clear_tab_stop (cursor_col t) (tab_stops t)\<rparr> else t
      else if n = 3 then t\<lparr>tab_stops := replicate (nat ((t_cols t + 7) div 8)) 0\<rparr>
      else t)"

definition csi_command :: "char \<Rightarrow> ts_render \<Rightarrow> ts_render outcome" where
  "csi_command final_byte t =
     (let n = csi_param t 0 1; up = clamp (cursor_row t - n) (scroll_top t) (scroll_bottom t);
          down = clamp (cursor_row t + n) (scroll_top t) (scroll_bottom t) in
      if final_byte = CHR ''A'' then Ret (move_to up (cursor_col t) t)
      else if final_byte = CHR ''B'' then Ret (move_to down (cursor_col t) t)
      else if final_byte = CHR ''C'' then Ret (move_to (cursor_row t) (clamp (cursor_col t + n) 0 (t_cols t - 1)) t)
      else if final_byte = CHR ''D'' then Ret (move_to (cursor_row t) (clamp (cursor_col t - n) 0 (t_cols t - 1)) t)
      else if final_byte = CHR ''E'' then Ret (move_to down 0 t)
      else if final_byte = CHR ''F'' then Ret (move_to up 0 t)
      else if final_byte = CHR ''G'' then Ret (move_to (cursor_row t) (clamp (n - 1) 0 (t_cols t - 1)) t)
      else if final_byte = CHR ''H'' \<or> final_byte = CHR ''f'' then
        Ret (move_to (clamp (n - 1) 0 (t_rows t - 1)) (clamp (csi_param t 1 1 - 1) 0 (t_cols t - 1)) t)
      else if final_byte = CHR ''d'' then Ret (move_to (clamp (n - 1) 0 (t_rows t - 1)) (cursor_col t) t)
      else if final_byte = CHR ''J'' then erase_display (csi_param t 0 0) t
      else if final_byte = CHR ''K'' then erase_line (csi_param t 0 0) t
      else if final_byte = CHR ''L'' then scroll_from_cursor (scroll_down n) t
      else if final_byte = CHR ''M'' then scroll_from_cursor (scroll_up n) t
      else if final_byte = CHR ''@'' then insert_chars n t
      else if final_byte = CHR ''P'' then delete_chars n t
      else if final_byte = CHR ''X'' then erase_chars n t
      else if final_byte = CHR ''S'' then scroll_up n t
      else if final_byte = CHR ''T'' then scroll_down n t
      else if final_byte = CHR ''r'' then Ret (set_region n (csi_param t 1 (t_rows t)) t)
      else if final_byte = CHR ''m'' then Ret (select_rendition t)
      else if final_byte = CHR ''g'' then Ret (clear_tabs (csi_param t 0 0) t)
      else Ret t)"

text \<open>A private-mode prefix makes the sequence one that is skipped.\<close>

definition dispatch_csi :: "char \<Rightarrow> ts_render \<Rightarrow> ts_render outcome" where
  "dispatch_csi final_byte t =
     (let t1 = csi_finalize t in
      if intermediate t1 \<in> {CHR ''?'', CHR ''>'', CHR ''!''} then Ret t1 else csi_command final_byte t1)"

section \<open>ESC sequences\<close>

definition ts_render_reset :: "ts_render \<Rightarrow> ts_render outcome" where
  "ts_render_reset t =
     and_then (each clear_row [0..t_rows t - 1] t) (\<lambda>t1.
       Ret (init_tab_stops (t1\<lparr>cursor_row := 0, cursor_col := 0, t_state := STATE_GROUND, params := [], param_val := 0,
         param_has_val := False, intermediate := nul, scroll_top := 0, scroll_bottom := t_rows t1 - 1,
         pending_wrap := False, saved_cursor_row := 0, saved_cursor_col := 0, utf8_buf := [], utf8_expect := 0,
         active_style := no_style\<rparr>)))"

definition dispatch_esc :: "char \<Rightarrow> ts_render \<Rightarrow> ts_render outcome" where
  "dispatch_esc ch t =
     (if ch = CHR ''7'' then Ret (t\<lparr>saved_cursor_row := cursor_row t, saved_cursor_col := cursor_col t\<rparr>)
      else if ch = CHR ''8'' then
        Ret (move_to (clamp (saved_cursor_row t) 0 (t_rows t - 1)) (clamp (saved_cursor_col t) 0 (t_cols t - 1)) t)
      else if ch = CHR ''D'' then do_linefeed t
      else if ch = CHR ''E'' then do_linefeed (t\<lparr>cursor_col := 0\<rparr>)
      else if ch = CHR ''M'' then do_reverse_linefeed t
      else if ch = CHR ''H'' then
        Ret (if 0 \<le> cursor_col t \<and> cursor_col t < t_cols t
             then t\<lparr>tab_stops := set_tab_stop (cursor_col t) (tab_stops t)\<rparr> else t)
      else if ch = CHR ''c'' then ts_render_reset t
      else Ret t)"

section \<open>Text\<close>

text \<open>The column after a tab: the next stop, or the last column.\<close>

definition next_tab :: "ts_render \<Rightarrow> int" where
  "next_tab t = (case List.find (is_tab_stop t) [cursor_col t + 1..t_cols t - 1] of Some col \<Rightarrow> col | None \<Rightarrow> t_cols t - 1)"

definition byte :: "char \<Rightarrow> nat" where
  "byte c = of_char c"

definition process_ground :: "char \<Rightarrow> ts_render \<Rightarrow> ts_render outcome" where
  "process_ground ch t =
     (if byte ch < 0x20 then
        if ch = nl then do_linefeed (t\<lparr>cursor_col := 0, pending_wrap := False\<rparr>)
        else if ch = cr then Ret (t\<lparr>cursor_col := 0, pending_wrap := False\<rparr>)
        else if ch = CHR 0x09 then Ret (t\<lparr>cursor_col := next_tab t, pending_wrap := False\<rparr>)
        else if ch = CHR 0x08 then
          Ret (if cursor_col t > 0 then t\<lparr>cursor_col := cursor_col t - 1, pending_wrap := False\<rparr> else t)
        else Ret t
      else if ch = CHR 0x7F then Ret t
      else if byte ch \<le> 0x7E then put_char [ch] t
      else if 0xC2 \<le> byte ch \<and> byte ch \<le> 0xF4 then
        Ret (t\<lparr>utf8_buf := [ch], utf8_expect := (if byte ch \<le> 0xDF then 2 else if byte ch \<le> 0xEF then 3 else 4)\<rparr>)
      else Ret t)"

text \<open>A byte inside a multi-byte character: whether it was consumed, and the state.\<close>

definition process_utf8_cont :: "char \<Rightarrow> ts_render \<Rightarrow> (bool \<times> ts_render) outcome" where
  "process_utf8_cont ch t =
     (if utf8_buf t = [] then Ret (False, t)
      else if byte ch AND 0xC0 \<noteq> 0x80 then Ret (False, t\<lparr>utf8_buf := [], utf8_expect := 0\<rparr>)
      else (let t1 = t\<lparr>utf8_buf := utf8_buf t @ [ch]\<rparr> in
        if length (utf8_buf t1) = utf8_expect t1 then
          and_then (put_char (utf8_buf t1) t1) (\<lambda>t2. Ret (True, t2\<lparr>utf8_buf := [], utf8_expect := 0\<rparr>))
        else Ret (True, t1)))"

section \<open>The state machine\<close>

definition is_final :: "nat \<Rightarrow> char \<Rightarrow> bool" where
  "is_final lo ch \<longleftrightarrow> lo \<le> byte ch \<and> byte ch \<le> 0x7E"

definition is_intermediate :: "char \<Rightarrow> bool" where
  "is_intermediate ch \<longleftrightarrow> 0x20 \<le> byte ch \<and> byte ch \<le> 0x2F"

definition to_ground :: "ts_render outcome \<Rightarrow> ts_render outcome" where
  "to_ground r = and_then r (\<lambda>t. Ret (t\<lparr>t_state := STATE_GROUND\<rparr>))"

definition state_esc :: "char \<Rightarrow> ts_render \<Rightarrow> ts_render outcome" where
  "state_esc ch t =
     (if ch = CHR ''['' then
        Ret (t\<lparr>t_state := STATE_CSI_PARAM, params := [], param_val := 0, param_has_val := False, intermediate := nul\<rparr>)
      else if ch = CHR '']'' then Ret (t\<lparr>t_state := STATE_OSC\<rparr>)
      else if ch = CHR ''P'' then Ret (t\<lparr>t_state := STATE_DCS\<rparr>)
      else if is_intermediate ch then Ret (t\<lparr>t_state := STATE_ESC_INTER, intermediate := ch\<rparr>)
      else if is_final 0x30 ch then to_ground (dispatch_esc ch t)
      else Ret (t\<lparr>t_state := STATE_GROUND\<rparr>))"

definition state_csi_param :: "char \<Rightarrow> ts_render \<Rightarrow> ts_render outcome" where
  "state_csi_param ch t =
     (if isdigit ch then
        Ret (t\<lparr>param_val := (if param_val t > 99999 then 99999 else param_val t * 10 + int (byte ch - byte CHR ''0'')),
               param_has_val := True\<rparr>)
      else if ch = CHR '';'' then
        Ret (t\<lparr>params := (if length (params t) < NBS_TS_RENDER_MAX_PARAMS
                         then params t @ [if param_has_val t then param_val t else 0] else params t),
               param_val := 0, param_has_val := False\<rparr>)
      else if ch \<in> {CHR ''?'', CHR ''>'', CHR ''!''} then Ret (t\<lparr>intermediate := ch\<rparr>)
      else if is_intermediate ch then Ret (t\<lparr>intermediate := ch, t_state := STATE_CSI_INTER\<rparr>)
      else if is_final 0x40 ch then to_ground (dispatch_csi ch t)
      else Ret (t\<lparr>t_state := STATE_GROUND\<rparr>))"

text \<open>
  One byte in the state machine.  In \<open>STATE_OSC_ESC\<close> a byte other than a backslash is processed
  again in \<open>STATE_ESC\<close>; there it is not \<open>ESC\<close>, which was taken before.
\<close>

definition in_state :: "char \<Rightarrow> ts_render \<Rightarrow> ts_render outcome" where
  "in_state ch t =
     (case t_state t of
        STATE_GROUND \<Rightarrow> process_ground ch t
      | STATE_ESC \<Rightarrow> state_esc ch t
      | STATE_ESC_INTER \<Rightarrow> Ret (if is_intermediate ch then t else t\<lparr>t_state := STATE_GROUND\<rparr>)
      | STATE_CSI_PARAM \<Rightarrow> state_csi_param ch t
      | STATE_CSI_INTER \<Rightarrow>
          if is_intermediate ch then Ret t
          else if is_final 0x40 ch then to_ground (dispatch_csi ch t)
          else Ret (t\<lparr>t_state := STATE_GROUND\<rparr>)
      | STATE_OSC \<Rightarrow>
          Ret (if ch = CHR 0x07 then t\<lparr>t_state := STATE_GROUND\<rparr>
               else if ch = esc then t\<lparr>t_state := STATE_OSC_ESC\<rparr> else t)
      | STATE_OSC_ESC \<Rightarrow>
          if ch = CHR 0x5C then Ret (t\<lparr>t_state := STATE_GROUND\<rparr>)
          else state_esc ch (t\<lparr>t_state := STATE_ESC\<rparr>)
      | STATE_DCS \<Rightarrow> Ret (if ch = esc then t\<lparr>t_state := STATE_DCS_ESC\<rparr> else t)
      | STATE_DCS_ESC \<Rightarrow> Ret (if ch = CHR 0x5C then t\<lparr>t_state := STATE_GROUND\<rparr> else t\<lparr>t_state := STATE_DCS\<rparr>))"

definition process_byte :: "char \<Rightarrow> ts_render \<Rightarrow> ts_render outcome" where
  "process_byte ch t =
     and_then (if t_state t = STATE_GROUND \<and> utf8_buf t \<noteq> [] then process_utf8_cont ch t else Ret (False, t))
      (\<lambda>(consumed, t1).
        if consumed then Ret t1
        else if ch = esc then Ret (t1\<lparr>t_state := STATE_ESC, intermediate := nul\<rparr>)
        else in_state ch t1)"

definition ts_render_feed :: "string \<Rightarrow> ts_render \<Rightarrow> ts_render outcome" where
  "ts_render_feed data t = each process_byte data t"

text \<open>\<open>calloc\<close> zeroes the structure and the cells; a failing allocation is not modelled here.\<close>

definition ts_render_create :: "int \<Rightarrow> int \<Rightarrow> ts_render outcome" where
  "ts_render_create rows cols =
     ASSERT_MSG (rows > 0) (ASSERT_MSG (cols > 0)
      (ts_render_reset
        \<lparr>t_rows = rows, t_cols = cols,
         cells = replicate (nat (rows * cols)) \<lparr>c_ch = [], c_len = 0, c_style = \<lparr>fg = 0, bg = 0, attrs = 0\<rparr>\<rparr>,
         cursor_row = 0, cursor_col = 0, t_state = STATE_GROUND, params = [], param_val = 0, param_has_val = False,
         intermediate = nul, scroll_top = 0, scroll_bottom = 0, pending_wrap = False, saved_cursor_row = 0,
         saved_cursor_col = 0, utf8_buf = [], utf8_expect = 0, tab_stops = replicate (nat ((cols + 7) div 8)) 0,
         preserve_sgr = False, active_style = \<lparr>fg = 0, bg = 0, attrs = 0\<rparr>\<rparr>))"

definition ts_render_set_preserve_sgr :: "bool \<Rightarrow> ts_render \<Rightarrow> ts_render" where
  "ts_render_set_preserve_sgr enable t = t\<lparr>preserve_sgr := enable\<rparr>"

section \<open>The snapshot\<close>

text \<open>
  The last column to print: -1 for a blank row.  Trailing spaces do not count.
\<close>

definition prints :: "ts_cell \<Rightarrow> bool" where
  "prints c \<longleftrightarrow> is_continuation c \<or> c_len c > 0 \<and> \<not> (c_len c = 1 \<and> c_ch c ! 0 = sp)"

definition row_cells :: "int \<Rightarrow> ts_render \<Rightarrow> ts_cell list" where
  "row_cells row t = take (nat (t_cols t)) (drop (nat (row * t_cols t)) (cells t))"

definition last_col :: "ts_cell list \<Rightarrow> int" where
  "last_col cs = int (length (dropWhile (\<lambda>c. \<not> prints c) (rev cs))) - 1"

text \<open>The cells of the row in logical order, without the right halves of wide characters.\<close>

definition logical_cells :: "ts_cell list \<Rightarrow> ts_cell list" where
  "logical_cells cs = filter (\<lambda>c. \<not> is_continuation c) (take (nat (last_col cs + 1)) cs)"

definition cell_codepoint :: "ts_cell \<Rightarrow> nat" where
  "cell_codepoint c =
     (if c_len c > 0 then utf8_to_codepoint (c_ch c) (if c_len c > 4 then 4 else nat (c_len c)) else 0x0020)"

definition chr_byte :: "nat \<Rightarrow> char" where
  "chr_byte n = char_of n"

definition encode_utf8 :: "nat \<Rightarrow> string" where
  "encode_utf8 cp =
     (if cp < 0x80 then [chr_byte cp]
      else if cp < 0x800 then [chr_byte (0xC0 OR drop_bit 6 cp), chr_byte (0x80 OR (cp AND 0x3F))]
      else if cp < 0x10000 then
        [chr_byte (0xE0 OR drop_bit 12 cp), chr_byte (0x80 OR (drop_bit 6 cp AND 0x3F)), chr_byte (0x80 OR (cp AND 0x3F))]
      else [chr_byte (0xF0 OR drop_bit 18 cp), chr_byte (0x80 OR (drop_bit 12 cp AND 0x3F)),
            chr_byte (0x80 OR (drop_bit 6 cp AND 0x3F)), chr_byte (0x80 OR (cp AND 0x3F))])"

definition cell_text :: "ts_cell \<Rightarrow> int \<Rightarrow> string" where
  "cell_text c level =
     (if c_len c > 0 then
        if odd level then
          (let cp = cell_codepoint c; mirrored = nbs_ts_bidi_mirror cp in
           if mirrored \<noteq> cp then encode_utf8 mirrored else c_ch c)
        else c_ch c
      else [sp])"

definition style_change :: "string \<Rightarrow> nbs_style \<Rightarrow> nbs_style \<Rightarrow> string" where
  "style_change junk cur new =
     (if cur = new then []
      else (if cur \<noteq> no_style then the (nbs_style_reset 64) else [])
         @ (if new \<noteq> no_style then (case nbs_style_start junk new 64 of Some sgr \<Rightarrow> sgr | None \<Rightarrow> []) else []))"

text \<open>
  The allocations of the bidirectional algorithm, and what the uninitialised arrays hold: the
  parameter buffer of \<open>nbs_style_start\<close> and the array of levels.
\<close>

record snapshot_env =
  sn_alloc :: bool
  sn_bidi :: bool
  sn_types :: bool
  sn_levels :: "nat \<Rightarrow> int"
  sn_junk :: string

text \<open>
  The cells of a row in visual order: \<open>out\<close> is what the buffer holds, \<open>cur\<close> the style in force.
  The buffer must have room for every cell.
\<close>

fun snapshot_cells ::
  "string \<Rightarrow> bool \<Rightarrow> nat \<Rightarrow> (ts_cell \<times> int) list \<Rightarrow> nbs_style \<Rightarrow> string \<Rightarrow> (string \<times> nbs_style) outcome" where
  "snapshot_cells junk sgr buf_size [] cur out = Ret (out, cur)"
| "snapshot_cells junk sgr buf_size ((c, level) # cls) cur out =
     (let out1 = (if sgr then out @ style_change junk cur (c_style c) else out);
          text = cell_text c level
      in ASSERT_MSG (length out1 + length text < buf_size)
          (snapshot_cells junk sgr buf_size cls (if sgr then c_style c else cur) (out1 @ text)))"

definition snapshot_row :: "snapshot_env \<Rightarrow> ts_render \<Rightarrow> nat \<Rightarrow> int \<Rightarrow> string \<Rightarrow> string outcome" where
  "snapshot_row e t buf_size row out =
     (let cs = logical_cells (row_cells row t); n = length cs;
          r = nbs_ts_bidi_reorder_with_levels (sn_bidi e) (sn_types e) (map cell_codepoint cs) 0;
          visual_map = (case fst r of Some vm \<Rightarrow> vm | None \<Rightarrow> []);
          levels = (case snd r of Some ls \<Rightarrow> ls | None \<Rightarrow> map (sn_levels e) [0..<n])
      in and_then (snapshot_cells (sn_junk e) (preserve_sgr t) buf_size (map (\<lambda>li. (cs ! li, levels ! li)) visual_map) no_style out)
          (\<lambda>(out1, cur). Ret
            ((if preserve_sgr t \<and> cur \<noteq> no_style then out1 @ the (nbs_style_reset 64) else out1)
             @ (if row < t_rows t - 1 \<or> last_col (row_cells row t) \<ge> 0 then [nl] else []))))"

text \<open>At most one newline is left at the end.\<close>

fun trim_newlines :: "string \<Rightarrow> string" where
  "trim_newlines (c # d # cs) = (if c = nl \<and> d = nl then trim_newlines (d # cs) else c # d # cs)"
| "trim_newlines cs = cs"

text \<open>\<open>None\<close> when the buffer cannot be allocated.\<close>

definition snapshot_size :: "ts_render \<Rightarrow> nat" where
  "snapshot_size t =
     nat (t_rows t) * (nat (t_cols t) * (NBS_TS_RENDER_CELL_BYTES + (if preserve_sgr t then 64 else 0)) + 1) + 64"

definition ts_render_snapshot :: "snapshot_env \<Rightarrow> ts_render \<Rightarrow> string option outcome" where
  "ts_render_snapshot e t =
     (if \<not> sn_alloc e then Ret None
      else and_then (each (snapshot_row e t (snapshot_size t)) [0..t_rows t - 1] [])
             (\<lambda>buf. Ret (Some (rev (trim_newlines (rev buf))))))"

section \<open>The command line\<close>

abbreviation (input) NBS_TS_EXIT_BAD_ARGS :: int where "NBS_TS_EXIT_BAD_ARGS \<equiv> 4"

text \<open>\<open>None\<close>: another option (0 in the code); \<open>Some None\<close>: an error (-1).\<close>

definition parse_int_arg :: "string \<Rightarrow> string \<Rightarrow> int option option" where
  "parse_int_arg arg opt =
     (if take (length opt) arg \<noteq> opt then None
      else (let val = drop (length opt) arg; r = strtoll val in
        if val = [] then Some None
        else if st_end r \<noteq> [] \<or> st_erange r \<or> st_val r \<le> 0 \<or> st_val r > 10000 then Some None
        else Some (Some (st_val r))))"

record render_opts =
  o_width :: int
  o_height :: int
  o_no_strip :: bool

datatype render_args = Help | BadArgs | Render render_opts

text \<open>The loop over the arguments after the program's name.\<close>

fun parse_args :: "string list \<Rightarrow> render_opts \<Rightarrow> render_args" where
  "parse_args [] ro = Render ro"
| "parse_args (arg # args) ro =
     (if arg = ''--help'' \<or> arg = ''-h'' then Help
      else (case parse_int_arg arg ''--width='' of
        Some None \<Rightarrow> BadArgs
      | Some (Some v) \<Rightarrow> parse_args args (ro\<lparr>o_width := v\<rparr>)
      | None \<Rightarrow>
       (case parse_int_arg arg ''--height='' of
          Some None \<Rightarrow> BadArgs
        | Some (Some v) \<Rightarrow> parse_args args (ro\<lparr>o_height := v\<rparr>)
        | None \<Rightarrow>
            if arg = ''--no-strip'' then parse_args args (ro\<lparr>o_no_strip := True\<rparr>)
            else if arg = ''--width'' then
              (case args of [] \<Rightarrow> BadArgs
               | v # rest \<Rightarrow>
                  (case parse_int_arg (snprintf 64 (''--width='' @ v)) ''--width='' of
                     Some (Some n) \<Rightarrow> parse_args rest (ro\<lparr>o_width := n\<rparr>)
                   | Some None \<Rightarrow> BadArgs
                   | None \<Rightarrow> parse_args rest ro))
            else if arg = ''--height'' then
              (case args of [] \<Rightarrow> BadArgs
               | v # rest \<Rightarrow>
                  (case parse_int_arg (snprintf 64 (''--height='' @ v)) ''--height='' of
                     Some (Some n) \<Rightarrow> parse_args rest (ro\<lparr>o_height := n\<rparr>)
                   | Some None \<Rightarrow> BadArgs
                   | None \<Rightarrow> parse_args rest ro))
            else BadArgs)))"

text \<open>\<open>rm_chunks\<close>: what the calls of \<open>fread\<close> return.\<close>

record render_env =
  rm_create :: bool
  rm_buffer :: bool
  rm_chunks :: "string list"
  rm_ferror :: bool
  rm_snapshot :: snapshot_env

definition render_main :: "render_env \<Rightarrow> string list \<Rightarrow> (int \<times> string) outcome" where
  "render_main e args =
     (case parse_args args \<lparr>o_width = 80, o_height = 24, o_no_strip = False\<rparr> of
        Help \<Rightarrow> Ret (0, [])
      | BadArgs \<Rightarrow> Ret (NBS_TS_EXIT_BAD_ARGS, [])
      | Render ro \<Rightarrow>
          and_then (ts_render_create (o_height ro) (o_width ro)) (\<lambda>t.
            if \<not> rm_create e then Ret (1, [])
            else (let t1 = (if o_no_strip ro then ts_render_set_preserve_sgr True t else t) in
              if \<not> rm_buffer e then Ret (1, [])
              else and_then (each ts_render_feed (rm_chunks e) t1) (\<lambda>t2.
                if rm_ferror e then Ret (1, [])
                else and_then (ts_render_snapshot (rm_snapshot e) t2) (\<lambda>out.
                  case out of None \<Rightarrow> Ret (1, []) | Some text \<Rightarrow> Ret (0, text))))))"

end
