(* ===== verification/TermProps.thy ===== *)
theory TermProps
  imports TermMachine
begin

text \<open>
  The terminal renderer is total and keeps its state sound: whatever bytes it is fed, no assertion
  fails on a screen of at least two columns, and every cell holds printable bytes only.  From
  this follow what the snapshot may contain and the results for plain text.
\<close>

section \<open>Results without an abort\<close>

definition yields :: "'a outcome \<Rightarrow> ('a \<Rightarrow> bool) \<Rightarrow> bool" where
  "yields r P \<longleftrightarrow> (case r of Ret x \<Rightarrow> P x | Abort \<Rightarrow> False)"

lemma yields_simps [simp]: "yields (Ret x) P = P x" "yields Abort P = False"
  by (simp_all add: yields_def)

lemma yields_if [simp]: "yields (if b then r else s) P = (if b then yields r P else yields s P)"
  by simp

lemma yields_ASSERT [simp]: "yields (ASSERT_MSG b r) P = (b \<and> yields r P)"
  by (simp add: ASSERT_MSG_def)

lemma yields_and_then [intro]: "yields r P \<Longrightarrow> (\<And>x. P x \<Longrightarrow> yields (k x) Q) \<Longrightarrow> yields (and_then r k) Q"
  by (cases r) auto

lemma yields_mono: "yields r P \<Longrightarrow> (\<And>x. P x \<Longrightarrow> Q x) \<Longrightarrow> yields r Q"
  by (cases r) auto

lemma yields_each: "P s \<Longrightarrow> (\<And>x s. x \<in> set xs \<Longrightarrow> P s \<Longrightarrow> yields (f x s) P) \<Longrightarrow> yields (each f xs s) P"
  by (induction xs arbitrary: s) (auto intro!: yields_and_then)

lemma yieldsE: "yields r P \<Longrightarrow> (\<And>x. r = Ret x \<Longrightarrow> P x \<Longrightarrow> thesis) \<Longrightarrow> thesis"
  by (cases r) auto

section \<open>Sound screens\<close>

definition printable :: "char \<Rightarrow> bool" where
  "printable c \<longleftrightarrow> byte c \<ge> 0x20 \<and> byte c \<noteq> 0x7F"

definition cell_ok :: "ts_cell \<Rightarrow> bool" where
  "cell_ok c \<longleftrightarrow> list_all printable (c_ch c) \<and> length (c_ch c) \<le> NBS_TS_RENDER_CELL_BYTES
     \<and> (c_len c = int (length (c_ch c)) \<or> c_len c = -1 \<and> c_ch c = [])"

definition grid :: "int \<Rightarrow> int \<Rightarrow> ts_cell list \<Rightarrow> bool" where
  "grid rows cols cs \<longleftrightarrow> length cs = nat (rows * cols) \<and> list_all cell_ok cs"

text \<open>\<open>painted t t1\<close>: \<open>t1\<close> differs from \<open>t\<close> in its cells at most, and these are sound.\<close>

definition painted :: "ts_render \<Rightarrow> ts_render \<Rightarrow> bool" where
  "painted t t1 \<longleftrightarrow> (\<exists>cs. t1 = t\<lparr>cells := cs\<rparr> \<and> grid (t_rows t) (t_cols t) cs)"

lemma painted_refl: "grid (t_rows t) (t_cols t) (cells t) \<Longrightarrow> painted t t"
proof -
  have "t = t\<lparr>cells := cells t\<rparr>" by simp
  then show "grid (t_rows t) (t_cols t) (cells t) \<Longrightarrow> painted t t" unfolding painted_def by blast
qed

lemma painted_trans: "painted t t1 \<Longrightarrow> painted t1 t2 \<Longrightarrow> painted t t2"
  by (auto simp: painted_def)

lemma painted_fields:
  "painted t t1 \<Longrightarrow> t_rows t1 = t_rows t \<and> t_cols t1 = t_cols t \<and> cursor_row t1 = cursor_row t
     \<and> cursor_col t1 = cursor_col t \<and> scroll_top t1 = scroll_top t \<and> scroll_bottom t1 = scroll_bottom t
     \<and> t_state t1 = t_state t \<and> params t1 = params t \<and> param_val t1 = param_val t
     \<and> pending_wrap t1 = pending_wrap t \<and> utf8_buf t1 = utf8_buf t \<and> utf8_expect t1 = utf8_expect t
     \<and> tab_stops t1 = tab_stops t \<and> preserve_sgr t1 = preserve_sgr t \<and> grid (t_rows t1) (t_cols t1) (cells t1)
     \<and> saved_cursor_row t1 = saved_cursor_row t \<and> saved_cursor_col t1 = saved_cursor_col t"
  by (auto simp: painted_def)

lemma cell_index:
  assumes "0 \<le> row" "row < rows" "0 \<le> col" "col < cols"
  shows "nat (row * cols + col) < nat (rows * cols)"
proof -
  have "row * cols + col < (row + 1) * cols" using assms by (simp add: algebra_simps)
  also have "(row + 1) * cols \<le> rows * cols" using assms by (intro mult_right_mono) simp_all
  finally have "row * cols + col < rows * cols" .
  moreover have "0 \<le> row * cols + col" using assms by simp
  ultimately show ?thesis by linarith
qed

definition inside :: "ts_render \<Rightarrow> int \<Rightarrow> int \<Rightarrow> bool" where
  "inside t row col \<longleftrightarrow> 0 \<le> row \<and> row < t_rows t \<and> 0 \<le> col \<and> col < t_cols t"

lemma inside_painted: "painted t t1 \<Longrightarrow> inside t1 row col = inside t row col"
  by (auto simp: painted_def inside_def)

lemma set_cell_painted:
  assumes "grid (t_rows t) (t_cols t) (cells t)" "inside t row col" "\<And>c. cell_ok c \<Longrightarrow> cell_ok (f c)"
  shows "yields (set_cell f row col t) (painted t)"
proof -
  have i: "nat (row * t_cols t + col) < length (cells t)"
    using assms(1,2) cell_index[of row "t_rows t" col "t_cols t"] by (simp add: grid_def inside_def)
  have "cell_ok (cells t ! nat (row * t_cols t + col))" using assms(1) i by (simp add: grid_def list_all_length)
  then have "list_all cell_ok ((cells t)[nat (row * t_cols t + col) := f (cells t ! nat (row * t_cols t + col))])"
    using assms(1,3) set_update_subset_insert[of "cells t"] by (fastforce simp: grid_def list_all_iff)
  then show ?thesis using assms(1,2) unfolding set_cell_def cell_at_def inside_def
    by (auto simp: painted_def grid_def)
qed

lemma get_cell_ok:
  "grid (t_rows t) (t_cols t) (cells t) \<Longrightarrow> inside t row col \<Longrightarrow> yields (get_cell t row col) cell_ok"
  using cell_index[of row "t_rows t" col "t_cols t"]
  by (auto simp: get_cell_def cell_at_def inside_def grid_def list_all_length)

lemma clear_cell_ok [simp]: "cell_ok (clear_cell c)" and set_continuation_ok [simp]: "cell_ok (set_continuation c)"
  by (simp_all add: clear_cell_def set_continuation_def cell_ok_def)

definition grid_of :: "ts_render \<Rightarrow> bool" where
  "grid_of t \<longleftrightarrow> grid (t_rows t) (t_cols t) (cells t)"

lemma painted_grid: "painted t t1 \<Longrightarrow> grid_of t1" and painted_self: "grid_of t \<Longrightarrow> painted t t"
  using painted_refl[of t] by (auto simp: painted_def grid_of_def)

text \<open>A loop over cells that are inside.\<close>

lemma each_painted:
  assumes "grid_of t" "\<And>x t1. x \<in> set xs \<Longrightarrow> painted t t1 \<Longrightarrow> yields (f x t1) (painted t1)"
  shows "yields (each f xs t) (painted t)"
proof (rule yields_each)
  show "painted t t" by (rule painted_self[OF assms(1)])
  fix x t1
  assume "x \<in> set xs" "painted t t1"
  then show "yields (f x t1) (painted t)" using yields_mono[OF assms(2)] painted_trans by blast
qed

lemma then_painted:
  assumes "yields r (painted t)" "\<And>t1. painted t t1 \<Longrightarrow> yields (k t1) (painted t1)"
  shows "yields (and_then r k) (painted t)"
proof (rule yields_and_then[OF assms(1)])
  fix t1
  assume "painted t t1"
  then show "yields (k t1) (painted t)" using yields_mono[OF assms(2)] painted_trans by blast
qed

lemma set_cell_yields: "grid_of t \<Longrightarrow> inside t row col \<Longrightarrow> (\<And>c. cell_ok c \<Longrightarrow> cell_ok (f c)) \<Longrightarrow> yields (set_cell f row col t) (painted t)"
  using set_cell_painted by (simp add: grid_of_def)

lemma clear_row_painted:
  assumes "grid_of t" "0 \<le> row" "row < t_rows t"
  shows "yields (clear_row row t) (painted t)"
  unfolding clear_row_def using assms
  by (intro each_painted set_cell_yields) (auto simp: inside_def painted_fields painted_grid)

lemma clear_wide_painted:
  assumes "grid_of t" "inside t row col"
  shows "yields (clear_wide_cell row col t) (painted t)"
proof -
  have set_in: "yields (set_cell clear_cell row c t1) (painted t1)" if "painted t t1" "inside t row c" for t1 c
    using that by (intro set_cell_yields) (auto simp: inside_painted painted_grid)
  have left: "yields (if col > 0 then set_cell clear_cell row (col - 1) t else Ret t) (painted t)"
    using assms set_in[OF painted_self[OF assms(1)], of "col - 1"] painted_self[OF assms(1)] by (simp add: inside_def)
  have right: "yields (if is_continuation nxt then set_cell clear_cell row (col + 1) t else Ret t) (painted t)"
    if "col + 1 < t_cols t" for nxt
    using assms that set_in[OF painted_self[OF assms(1)], of "col + 1"] painted_self[OF assms(1)] by (simp add: inside_def)
  have nxt: "yields (get_cell t row (col + 1)) cell_ok" if "col + 1 < t_cols t"
    using assms that by (intro get_cell_ok) (simp_all add: inside_def grid_of_def)
  show ?thesis unfolding clear_wide_cell_def
  proof (rule yields_and_then[OF get_cell_ok])
    show "grid (t_rows t) (t_cols t) (cells t)" using assms(1) by (simp add: grid_of_def)
    show "inside t row col" by (rule assms(2))
    fix c
    have one: "yields (set_cell clear_cell row col t1) (painted t1)" if "painted t t1" for t1 by (rule set_in[OF that assms(2)])
    have cont: "yields (and_then (if col > 0 then set_cell clear_cell row (col - 1) t else Ret t) (set_cell clear_cell row col)) (painted t)"
      by (rule then_painted[OF left one])
    have wide: "yields (and_then (get_cell t row (col + 1)) (\<lambda>nxt.
        and_then (if is_continuation nxt then set_cell clear_cell row (col + 1) t else Ret t) (set_cell clear_cell row col))) (painted t)"
      if "col + 1 < t_cols t"
      by (rule yields_and_then[OF nxt[OF that]], rule then_painted[OF right[OF that] one])
    show "yields (if is_continuation c
        then and_then (if col > 0 then set_cell clear_cell row (col - 1) t else Ret t) (set_cell clear_cell row col)
        else if c_len c > 0 \<and> col + 1 < t_cols t then
          and_then (get_cell t row (col + 1)) (\<lambda>nxt.
            and_then (if is_continuation nxt then set_cell clear_cell row (col + 1) t else Ret t) (set_cell clear_cell row col))
        else set_cell clear_cell row col t) (painted t)"
      unfolding yields_if using cont wide one[OF painted_self[OF assms(1)]] by argo
  qed
qed

lemma erase_cols_painted:
  assumes "grid_of t" "\<And>c. c \<in> set cs \<Longrightarrow> inside t row c"
  shows "yields (erase_cols row cs t) (painted t)"
  unfolding erase_cols_def using assms
  by (intro each_painted clear_wide_painted) (auto simp: inside_painted painted_grid)

lemma each_clear_row_painted:
  assumes "grid_of t" "\<And>r. r \<in> set rs \<Longrightarrow> 0 \<le> r \<and> r < t_rows t"
  shows "yields (each clear_row rs t) (painted t)"
  using assms by (intro each_painted clear_row_painted) (auto simp: painted_fields painted_grid)

section \<open>Scrolling\<close>

lemma copy_row_painted:
  assumes "grid_of t" "0 \<le> src" "src < t_rows t" "0 \<le> dst" "dst < t_rows t" "0 < t_cols t"
  shows "painted t (copy_row src dst t)"
proof -
  have end_le: "nat (r * t_cols t) + nat (t_cols t) \<le> length (cells t)" if "0 \<le> r" "r < t_rows t" for r
  proof -
    have "(r + 1) * t_cols t \<le> t_rows t * t_cols t" using that assms(6) by (intro mult_right_mono) simp_all
    moreover have "0 \<le> r * t_cols t" using that assms(6) by simp
    ultimately have "nat (r * t_cols t) + nat (t_cols t) \<le> nat (t_rows t * t_cols t)"
      using assms(6) by (simp add: algebra_simps)
    then show ?thesis using assms(1) by (simp add: grid_of_def grid_def)
  qed
  let ?cs = "take (nat (dst * t_cols t)) (cells t) @ take (nat (t_cols t)) (drop (nat (src * t_cols t)) (cells t))
      @ drop (nat (dst * t_cols t) + nat (t_cols t)) (cells t)"
  have "length ?cs = length (cells t)" using end_le[OF assms(2,3)] end_le[OF assms(4,5)] by simp
  moreover have "set ?cs \<subseteq> set (cells t)" using set_take_subset set_drop_subset by fastforce
  ultimately have "grid (t_rows t) (t_cols t) ?cs" using assms(1) by (auto simp: grid_of_def grid_def list_all_iff)
  then show ?thesis by (auto simp: copy_row_def painted_def Let_def)
qed

lemma foldl_painted:
  assumes "grid_of t" "\<And>x t1. x \<in> set xs \<Longrightarrow> painted t t1 \<Longrightarrow> painted t1 (f t1 x)"
  shows "painted t (foldl f t xs)"
proof -
  have "painted t (foldl f t1 xs)" if "painted t t1" "\<And>x t1. x \<in> set xs \<Longrightarrow> painted t t1 \<Longrightarrow> painted t1 (f t1 x)" for t1
    using that
  proof (induction xs arbitrary: t1)
    case (Cons x xs)
    then have "painted t (f t1 x)" using painted_trans by (meson list.set_intros(1))
    then show ?case using Cons by simp
  qed simp
  then show ?thesis using assms painted_self by blast
qed

definition region_ok :: "ts_render \<Rightarrow> bool" where
  "region_ok t \<longleftrightarrow> 0 \<le> scroll_top t \<and> scroll_top t \<le> scroll_bottom t \<and> scroll_bottom t < t_rows t \<and> 0 < t_cols t"

lemma scroll_painted:
  assumes "grid_of t" "region_ok t" "0 < n"
  shows "yields (scroll_up n t) (painted t)" "yields (scroll_down n t) (painted t)"
proof -
  let ?n = "if n > scroll_bottom t - scroll_top t + 1 then scroll_bottom t - scroll_top t + 1 else n"
  have n: "0 < ?n" "?n \<le> scroll_bottom t - scroll_top t + 1" using assms(2,3) by (auto simp: region_ok_def)
  have up: "painted t (foldl (\<lambda>t row. copy_row (row + ?n) row t) t [scroll_top t..scroll_bottom t - ?n])"
    using assms n by (intro foldl_painted copy_row_painted) (auto simp: painted_fields painted_grid region_ok_def split: if_splits)
  have down: "painted t (foldl (\<lambda>t row. copy_row (row - ?n) row t) t (rev [scroll_top t + ?n..scroll_bottom t]))"
    using assms n by (intro foldl_painted copy_row_painted) (auto simp: painted_fields painted_grid region_ok_def split: if_splits)
  have rest: "yields (each clear_row rs t1) (painted t)"
    if "painted t t1" "\<And>r. r \<in> set rs \<Longrightarrow> scroll_top t \<le> r \<and> r \<le> scroll_bottom t" for t1 rs
  proof -
    have "yields (each clear_row rs t1) (painted t1)"
      using that assms(2) painted_fields[OF that(1)] painted_grid[OF that(1)]
      by (intro each_clear_row_painted) (fastforce simp: region_ok_def)+
    then show ?thesis using painted_trans[OF that(1)] yields_mono by blast
  qed
  show "yields (scroll_up n t) (painted t)"
    unfolding scroll_up_def Let_def yields_ASSERT using assms(3) n by (intro conjI rest[OF up]) simp_all
  show "yields (scroll_down n t) (painted t)"
    unfolding scroll_down_def Let_def yields_ASSERT using assms(3) n by (intro conjI rest[OF down]) simp_all
qed

section \<open>Drawing\<close>

definition screen_ok :: "ts_render \<Rightarrow> bool" where
  "screen_ok t \<longleftrightarrow> 2 \<le> t_cols t \<and> grid_of t \<and> inside t (cursor_row t) (cursor_col t) \<and> region_ok t"

text \<open>\<open>drawn t t1\<close>: \<open>t1\<close> has a sound screen of the same size, and the parser's part of \<open>t\<close>.\<close>

definition drawn :: "ts_render \<Rightarrow> ts_render \<Rightarrow> bool" where
  "drawn t t1 \<longleftrightarrow> screen_ok t1 \<and> t_rows t1 = t_rows t \<and> t_cols t1 = t_cols t \<and> t_state t1 = t_state t
     \<and> params t1 = params t \<and> param_val t1 = param_val t \<and> utf8_buf t1 = utf8_buf t \<and> utf8_expect t1 = utf8_expect t
     \<and> tab_stops t1 = tab_stops t \<and> preserve_sgr t1 = preserve_sgr t"

lemma drawn_self [simp]: "screen_ok t \<Longrightarrow> drawn t t"
  by (simp add: drawn_def)

lemma drawn_trans: "drawn t t1 \<Longrightarrow> drawn t1 t2 \<Longrightarrow> drawn t t2"
  by (simp add: drawn_def)

lemma drawn_screen: "drawn t t1 \<Longrightarrow> screen_ok t1"
  by (simp add: drawn_def)

lemma painted_drawn: "screen_ok t \<Longrightarrow> painted t t1 \<Longrightarrow> drawn t t1"
  using painted_fields[of t t1] painted_grid[of t t1]
  by (auto simp: drawn_def screen_ok_def inside_def region_ok_def)

lemma painted_yields_drawn: "screen_ok t \<Longrightarrow> yields r (painted t) \<Longrightarrow> yields r (drawn t)"
  by (erule yields_mono) (rule painted_drawn)

lemma then_drawn:
  assumes "yields r (drawn t)" "\<And>t1. drawn t t1 \<Longrightarrow> yields (k t1) (drawn t1)"
  shows "yields (and_then r k) (drawn t)"
proof (rule yields_and_then[OF assms(1)])
  fix t1
  assume "drawn t t1"
  then show "yields (k t1) (drawn t)" using yields_mono[OF assms(2)] drawn_trans by blast
qed

text \<open>Moving the cursor inside the screen.\<close>

lemma screen_ok_cursor:
  "screen_ok t \<Longrightarrow> inside t row col \<Longrightarrow> screen_ok (t\<lparr>cursor_row := row, cursor_col := col\<rparr>)"
  by (simp add: screen_ok_def inside_def grid_of_def region_ok_def)

lemma move_drawn [simp]:
  "screen_ok t \<Longrightarrow> inside t row col \<Longrightarrow> drawn t (move_to row col t)"
  "screen_ok t \<Longrightarrow> inside t (cursor_row t) col \<Longrightarrow> drawn t (t\<lparr>cursor_col := col\<rparr>)"
  "screen_ok t \<Longrightarrow> inside t (cursor_row t) col \<Longrightarrow> drawn t (t\<lparr>cursor_col := col, pending_wrap := w\<rparr>)"
  "screen_ok t \<Longrightarrow> inside t row (cursor_col t) \<Longrightarrow> drawn t (t\<lparr>cursor_row := row\<rparr>)"
  "screen_ok t \<Longrightarrow> drawn t (t\<lparr>pending_wrap := w\<rparr>)"
  by (simp_all add: drawn_def screen_ok_def inside_def grid_of_def region_ok_def move_to_def)

lemma screen_facts:
  assumes "screen_ok t"
  shows "2 \<le> t_cols t" "0 \<le> cursor_row t" "cursor_row t < t_rows t" "0 \<le> cursor_col t" "cursor_col t < t_cols t"
    "0 \<le> scroll_top t" "scroll_top t \<le> scroll_bottom t" "scroll_bottom t < t_rows t" "grid_of t" "region_ok t"
    "inside t (cursor_row t) (cursor_col t)"
  using assms by (simp_all add: screen_ok_def inside_def region_ok_def)

lemma linefeed_drawn:
  assumes "screen_ok t"
  shows "yields (do_linefeed t) (drawn t)" "yields (do_reverse_linefeed t) (drawn t)"
proof -
  note f = screen_facts[OF assms]
  have up: "yields (scroll_up 1 t) (drawn t)" "yields (scroll_down 1 t) (drawn t)"
    by (rule painted_yields_drawn[OF assms], rule scroll_painted[OF f(9,10)], simp)+
  show "yields (do_linefeed t) (drawn t)" "yields (do_reverse_linefeed t) (drawn t)"
    unfolding do_linefeed_def do_reverse_linefeed_def using assms up f by (auto simp: inside_def)
qed

lemma draw_cell:
  assumes "screen_ok t" "inside t row col" "\<And>c. cell_ok c \<Longrightarrow> cell_ok (f c)"
  shows "yields (set_cell f row col t) (drawn t)"
  by (rule painted_yields_drawn[OF assms(1)], rule set_cell_yields) (use assms screen_facts in auto)

lemma draw_clear_wide:
  "screen_ok t \<Longrightarrow> inside t row col \<Longrightarrow> yields (clear_wide_cell row col t) (drawn t)"
  by (rule painted_yields_drawn, assumption, rule clear_wide_painted) (auto simp: screen_facts)

definition char_ok :: "string \<Rightarrow> bool" where
  "char_ok ch \<longleftrightarrow> list_all printable ch \<and> 0 < length ch \<and> length ch \<le> 4"

lemma write_cell_ok: "char_ok ch \<Longrightarrow> cell_ok (write_cell ch t c)"
  by (simp add: write_cell_def cell_ok_def char_ok_def)

lemma append_mark_ok: "char_ok ch \<Longrightarrow> cell_ok c \<Longrightarrow> cell_ok (append_mark ch c)"
  by (auto simp: append_mark_def cell_ok_def char_ok_def)

lemma put_mark_drawn:
  assumes "screen_ok t" "char_ok ch"
  shows "yields (put_mark ch t) (drawn t)"
proof -
  note f = screen_facts[OF assms(1)]
  let ?col = "if pending_wrap t then t_cols t - 1 else cursor_col t - 1"
  show ?thesis
  proof (cases "\<not> pending_wrap t \<and> \<not> cursor_col t > 0")
    case True
    then show ?thesis using assms(1) by (simp add: put_mark_def)
  next
    case False
    then have i: "inside t (cursor_row t) ?col" using f by (auto simp: inside_def)
    have g: "yields (get_cell t (cursor_row t) ?col) cell_ok"
      by (rule get_cell_ok) (use f i in \<open>simp_all add: grid_of_def\<close>)
    have d: "yields (set_cell (append_mark ch) (cursor_row t) c t) (drawn t)"
      if "c = ?col \<or> c = ?col - 1 \<and> ?col > 0" for c
      by (rule draw_cell[OF assms(1)]) (use that i append_mark_ok[OF assms(2)] in \<open>auto simp: inside_def\<close>)
    show ?thesis unfolding put_mark_def Let_def if_not_P[OF False]
      by (rule yields_and_then[OF g], rule d) simp
  qed
qed

lemma put_narrow_drawn:
  assumes "screen_ok t" "char_ok ch"
  shows "yields (put_narrow ch t) (drawn t)"
  unfolding put_narrow_def
proof (rule then_drawn[OF draw_clear_wide[OF assms(1) screen_facts(11)[OF assms(1)]]])
  fix t1
  assume d: "drawn t t1"
  note s1 = drawn_screen[OF d]
  show "yields (and_then (set_cell (write_cell ch t1) (cursor_row t1) (cursor_col t1) t1) (\<lambda>t2.
       Ret (if cursor_col t2 \<ge> t_cols t2 - 1 then t2\<lparr>pending_wrap := True\<rparr> else t2\<lparr>cursor_col := cursor_col t2 + 1\<rparr>))) (drawn t1)"
  proof (rule then_drawn[OF draw_cell[OF s1 screen_facts(11)[OF s1] write_cell_ok[OF assms(2)]]])
    fix t2
    assume "drawn t1 t2"
    note s2 = drawn_screen[OF this]
    show "yields (Ret (if cursor_col t2 \<ge> t_cols t2 - 1 then t2\<lparr>pending_wrap := True\<rparr> else t2\<lparr>cursor_col := cursor_col t2 + 1\<rparr>)) (drawn t2)"
      using s2 screen_facts[OF s2] by (simp add: inside_def)
  qed
qed

text \<open>A wide character needs two columns: this is where one column is not enough.\<close>

definition has_pair :: "ts_render \<Rightarrow> bool" where
  "has_pair t \<longleftrightarrow> cursor_col t + 1 < t_cols t"

lemma painted_pair: "painted t t1 \<Longrightarrow> has_pair t1 = has_pair t"
  using painted_fields[of t t1] by (simp add: has_pair_def)

lemma wide_start:
  assumes "screen_ok t"
  shows "yields (if cursor_col t \<ge> t_cols t - 1 then
          and_then (set_cell clear_cell (cursor_row t) (cursor_col t) t) (\<lambda>t1. do_linefeed (t1\<lparr>cursor_col := 0\<rparr>))
        else Ret t) (\<lambda>t1. drawn t t1 \<and> has_pair t1)"
proof (cases "cursor_col t \<ge> t_cols t - 1")
  case True
  have c: "yields (set_cell clear_cell (cursor_row t) (cursor_col t) t) (drawn t)"
    by (rule draw_cell) (use assms screen_facts in auto)
  have "yields (do_linefeed (t1\<lparr>cursor_col := 0\<rparr>)) (\<lambda>t2. drawn t t2 \<and> has_pair t2)" if "drawn t t1" for t1
  proof -
    let ?t = "t1\<lparr>cursor_col := 0\<rparr>"
    have d: "drawn t1 ?t" using drawn_screen[OF that] screen_facts[of t1] by (simp add: inside_def)
    have s: "screen_ok ?t" by (rule drawn_screen[OF d])
    note f = screen_facts[OF s]
    have up: "yields (scroll_up 1 ?t) (painted ?t)" by (rule scroll_painted[OF f(9,10)]) simp
    have p: "drawn t t2 \<and> has_pair t2" if "painted ?t t2" for t2
      using painted_pair[OF that] f(1) painted_drawn[OF s that] drawn_trans[OF \<open>drawn t t1\<close> drawn_trans[OF d]]
      by (simp add: has_pair_def)
    have r: "drawn t (?t\<lparr>cursor_row := r\<rparr>)" if "inside ?t r (cursor_col ?t)" for r
      using drawn_trans[OF \<open>drawn t t1\<close> drawn_trans[OF d]] move_drawn(4)[OF s that] by blast
    show ?thesis
      unfolding do_linefeed_def
      using yields_mono[OF up p] f r[of "cursor_row ?t + 1"] drawn_trans[OF that d]
      by (auto simp: has_pair_def inside_def)
  qed
  then show ?thesis using True c by (auto intro!: yields_and_then)
qed (use assms in \<open>simp add: has_pair_def\<close>)

lemma put_wide_drawn:
  assumes "screen_ok t" "char_ok ch"
  shows "yields (put_wide ch t) (drawn t)"
proof -
  have paint: "yields r (\<lambda>t2. drawn t t2 \<and> has_pair t2)" if "yields r (painted t1)" "drawn t t1" "has_pair t1" for r t1
    using that painted_drawn[OF drawn_screen[OF that(2)]] painted_pair drawn_trans[OF that(2)] by (auto intro: yields_mono)
  have at: "inside t1 (cursor_row t1) (cursor_col t1)" "inside t1 (cursor_row t1) (cursor_col t1 + 1)" "grid_of t1"
    if "drawn t t1" "has_pair t1" for t1
    using screen_facts[OF drawn_screen[OF that(1)]] that(2) by (simp_all add: inside_def has_pair_def)
  show ?thesis
    unfolding put_wide_def
    apply (rule yields_and_then[OF wide_start[OF assms(1)]], elim conjE)
    apply (rule yields_and_then, rule paint, rule clear_wide_painted, rule at(3), assumption, assumption, rule at(1), assumption+, elim conjE)
    apply (rule yields_and_then, rule paint, rule clear_wide_painted, rule at(3), assumption, assumption, rule at(2), assumption+, elim conjE)
    apply (rule yields_and_then, rule paint, rule set_cell_yields, rule at(3), assumption, assumption, rule at(1), assumption, assumption,
        rule write_cell_ok[OF assms(2)], assumption+, elim conjE)
    apply (rule yields_and_then, rule paint, rule set_cell_yields, rule at(3), assumption, assumption, rule at(2), assumption, assumption,
        rule set_continuation_ok, assumption+, elim conjE)
    subgoal for t1 t2 t3 t4 t5
    proof -
      assume d: "drawn t t5" "has_pair t5"
      note s = drawn_screen[OF d(1)]
      have "drawn t5 (t5\<lparr>cursor_col := t_cols t5 - 1, pending_wrap := True\<rparr>)"
        by (rule move_drawn(3)[OF s]) (use screen_facts[OF s] in \<open>simp add: inside_def\<close>)
      moreover have "drawn t5 (t5\<lparr>cursor_col := cursor_col t5 + 2\<rparr>)" if "\<not> cursor_col t5 + 2 \<ge> t_cols t5"
        by (rule move_drawn(2)[OF s]) (use that screen_facts[OF s] in \<open>simp add: inside_def\<close>)
      ultimately show ?thesis using drawn_trans[OF d(1)] by auto
    qed
    done
qed

lemma put_char_drawn:
  assumes "screen_ok t" "char_ok ch"
  shows "yields (put_char ch t) (drawn t)"
proof -
  let ?w = "nbs_ts_wcwidth (utf8_to_codepoint ch (length ch))"
  have wrap: "yields (if pending_wrap t then
            and_then (do_linefeed (t\<lparr>cursor_col := 0\<rparr>)) (\<lambda>t1. Ret (t1\<lparr>pending_wrap := False\<rparr>)) else Ret t) (drawn t)"
  proof (cases "pending_wrap t")
    case True
    have d: "drawn t (t\<lparr>cursor_col := 0\<rparr>)" using assms(1) screen_facts[OF assms(1)] by (simp add: inside_def)
    have "yields (do_linefeed (t\<lparr>cursor_col := 0\<rparr>)) (drawn t)"
      using linefeed_drawn(1)[OF drawn_screen[OF d]] drawn_trans[OF d] by (auto intro: yields_mono)
    then show ?thesis using True drawn_screen by (auto intro!: then_drawn)
  qed (use assms in simp)
  have "yields ((if ?w = 2 then put_wide ch else put_narrow ch) t1) (drawn t1)" if "drawn t t1" for t1
    using put_wide_drawn put_narrow_drawn assms(2) drawn_screen[OF that] by simp
  from then_drawn[OF wrap this] show ?thesis
    using assms put_mark_drawn by (simp add: put_char_def Let_def char_ok_def)
qed

end
