(* ===== verification/TermSafe.thy ===== *)
theory TermSafe
  imports TermProps
begin

text \<open>
  The invariant of the terminal renderer is kept by every byte, and no assertion fails on a screen
  of at least two columns.
\<close>

section \<open>The parser\<close>

definition number_ok :: "int \<Rightarrow> bool" where
  "number_ok p \<longleftrightarrow> 0 \<le> p \<and> p \<le> 999999"

definition parser_ok :: "ts_render \<Rightarrow> bool" where
  "parser_ok t \<longleftrightarrow> length (params t) \<le> NBS_TS_RENDER_MAX_PARAMS \<and> list_all number_ok (params t) \<and> number_ok (param_val t)
     \<and> length (tab_stops t) = nat ((t_cols t + 7) div 8)
     \<and> (utf8_buf t \<noteq> [] \<longrightarrow> length (utf8_buf t) < utf8_expect t \<and> utf8_expect t \<le> 4 \<and> list_all printable (utf8_buf t))
     \<and> t_state t \<noteq> STATE_OSC_ESC \<and> t_state t \<noteq> STATE_DCS_ESC"

text \<open>
  The invariant of the emulator.  The two states that wait for the end of a string after \<open>ESC\<close>
  are never entered: \<open>ESC\<close> is handled before them.
\<close>

definition term_ok :: "ts_render \<Rightarrow> bool" where
  "term_ok t \<longleftrightarrow> screen_ok t \<and> parser_ok t"

text \<open>\<open>kept t t1\<close>: sound, of the same size and in the same mode.\<close>

definition kept :: "ts_render \<Rightarrow> ts_render \<Rightarrow> bool" where
  "kept t t1 \<longleftrightarrow> term_ok t1 \<and> t_rows t1 = t_rows t \<and> t_cols t1 = t_cols t \<and> preserve_sgr t1 = preserve_sgr t"

lemma kept_self [simp]: "term_ok t \<Longrightarrow> kept t t"
  by (simp add: kept_def)

lemma kept_trans: "kept t t1 \<Longrightarrow> kept t1 t2 \<Longrightarrow> kept t t2"
  by (simp add: kept_def)

lemma kept_term: "kept t t1 \<Longrightarrow> term_ok t1"
  by (simp add: kept_def)

lemma drawn_kept: "term_ok t \<Longrightarrow> drawn t t1 \<Longrightarrow> kept t t1"
  by (simp add: kept_def term_ok_def parser_ok_def drawn_def)

lemma drawn_yields_kept: "term_ok t \<Longrightarrow> yields r (drawn t) \<Longrightarrow> yields r (kept t)"
  by (erule yields_mono) (rule drawn_kept)

lemma then_kept:
  assumes "yields r (kept t)" "\<And>t1. kept t t1 \<Longrightarrow> yields (k t1) (kept t1)"
  shows "yields (and_then r k) (kept t)"
proof (rule yields_and_then[OF assms(1)])
  fix t1
  assume "kept t t1"
  then show "yields (k t1) (kept t)" using yields_mono[OF assms(2)] kept_trans by blast
qed

text \<open>Updates of the parser's part.\<close>

lemma screen_ok_parser [simp]:
  "screen_ok (t\<lparr>t_state := st\<rparr>) = screen_ok t" "screen_ok (t\<lparr>params := ps\<rparr>) = screen_ok t"
  "screen_ok (t\<lparr>param_val := v\<rparr>) = screen_ok t" "screen_ok (t\<lparr>param_has_val := b\<rparr>) = screen_ok t"
  "screen_ok (t\<lparr>intermediate := c\<rparr>) = screen_ok t" "screen_ok (t\<lparr>utf8_buf := u\<rparr>) = screen_ok t"
  "screen_ok (t\<lparr>utf8_expect := n\<rparr>) = screen_ok t" "screen_ok (t\<lparr>tab_stops := ts\<rparr>) = screen_ok t"
  "screen_ok (t\<lparr>active_style := s\<rparr>) = screen_ok t" "screen_ok (t\<lparr>saved_cursor_row := r\<rparr>) = screen_ok t"
  "screen_ok (t\<lparr>saved_cursor_col := r\<rparr>) = screen_ok t"
  by (simp_all add: screen_ok_def grid_of_def inside_def region_ok_def)

lemma clamp_bounds: "lo \<le> hi \<Longrightarrow> lo \<le> clamp v lo hi \<and> clamp v lo hi \<le> hi"
  by (simp add: clamp_def)

lemma csi_param_pos: "0 < d \<Longrightarrow> 0 < csi_param t i d"
  by (simp add: csi_param_def)

lemma erase_kept:
  assumes "screen_ok t"
  shows "yields (erase_display n t) (drawn t)" "yields (erase_line n t) (drawn t)" "yields (erase_chars k t) (drawn t)"
proof -
  note f = screen_facts[OF assms]
  have cols: "yields (erase_cols (cursor_row t) cs t) (painted t)" if "\<And>c. c \<in> set cs \<Longrightarrow> 0 \<le> c \<and> c < t_cols t" for cs
    by (rule erase_cols_painted[OF f(9)]) (use that f in \<open>auto simp: inside_def\<close>)
  have rows: "yields (each clear_row rs t1) (painted t1)" if "painted t t1" "\<And>r. r \<in> set rs \<Longrightarrow> 0 \<le> r \<and> r < t_rows t" for rs t1
    by (rule each_clear_row_painted) (use that painted_grid painted_fields in auto)
  have cols1: "yields (erase_cols (cursor_row t) cs t1) (painted t1)"
    if "painted t t1" "\<And>c. c \<in> set cs \<Longrightarrow> 0 \<le> c \<and> c < t_cols t" for cs t1
    by (rule erase_cols_painted[OF painted_grid[OF that(1)]])
       (use that f inside_painted[OF that(1)] in \<open>auto simp: inside_def\<close>)
  note self = painted_self[OF f(9)]
  show "yields (erase_display n t) (drawn t)"
    by (rule painted_yields_drawn[OF assms]) (use f self in \<open>auto simp: erase_display_def intro!: then_painted cols rows cols1\<close>)
  show "yields (erase_line n t) (drawn t)"
    by (rule painted_yields_drawn[OF assms]) (use f self in \<open>auto simp: erase_line_def intro!: cols clear_row_painted\<close>)
  show "yields (erase_chars k t) (drawn t)"
    by (rule painted_yields_drawn[OF assms]) (use f in \<open>auto simp: erase_chars_def intro!: cols\<close>)
qed

lemma copy_cell_painted:
  assumes "grid_of t" "inside t row c" "inside t row d"
  shows "yields (copy_cell row c d t) (painted t)"
  unfolding copy_cell_def
  by (rule yields_and_then[OF get_cell_ok]) (use assms in \<open>auto simp: grid_of_def intro!: set_cell_painted\<close>)

lemma shift_kept:
  assumes "screen_ok t" "0 < n"
  shows "yields (insert_chars n t) (drawn t)" "yields (delete_chars n t) (drawn t)"
proof -
  note f = screen_facts[OF assms(1)]
  let ?n = "if n > t_cols t - cursor_col t then t_cols t - cursor_col t else n"
  have n: "0 < ?n" "cursor_col t + ?n \<le> t_cols t" using assms(2) f by auto
  have here: "inside t1 (cursor_row t) c" if "painted t t1" "0 \<le> c" "c < t_cols t" for t1 c
    using that f painted_fields[OF that(1)] by (simp add: inside_def)
  have copy: "yields (each (\<lambda>c. copy_cell (cursor_row t) (g c) c) cs t) (painted t)"
    if "\<And>c. c \<in> set cs \<Longrightarrow> 0 \<le> c \<and> c < t_cols t \<and> 0 \<le> g c \<and> g c < t_cols t" for g cs
    by (rule each_painted[OF f(9)], rule copy_cell_painted[OF painted_grid here here]) (use that in auto)
  have clear: "yields (each (\<lambda>c. set_cell clear_cell (cursor_row t) c) cs t1) (painted t1)"
    if "painted t t1" "\<And>c. c \<in> set cs \<Longrightarrow> 0 \<le> c \<and> c < t_cols t" for cs t1
    by (rule each_painted[OF painted_grid[OF that(1)]], rule set_cell_yields[OF painted_grid here])
       (use that painted_trans[OF that(1)] in auto)
  show "yields (insert_chars n t) (drawn t)"
    unfolding insert_chars_def Let_def
    by (rule painted_yields_drawn[OF assms(1)], rule then_painted, rule copy, use n f in force, rule clear, assumption, use n f in force)
  show "yields (delete_chars n t) (drawn t)"
    unfolding delete_chars_def Let_def
    by (rule painted_yields_drawn[OF assms(1)], rule then_painted, rule copy, use n f in force, rule clear, assumption, use n f in force)
qed

lemma scroll_from_cursor_drawn:
  assumes "screen_ok t" "\<And>t1. grid_of t1 \<Longrightarrow> region_ok t1 \<Longrightarrow> yields (scroll t1) (painted t1)"
  shows "yields (scroll_from_cursor scroll t) (drawn t)"
proof (cases "scroll_top t \<le> cursor_row t \<and> cursor_row t \<le> scroll_bottom t")
  case True
  note f = screen_facts[OF assms(1)]
  let ?t = "t\<lparr>scroll_top := cursor_row t\<rparr>"
  have "grid_of ?t" "region_ok ?t" using f True by (simp_all add: grid_of_def region_ok_def)
  from assms(2)[OF this] obtain t1 where t1: "scroll ?t = Ret t1" "painted ?t t1" by (rule yieldsE)
  have "painted t (t1\<lparr>scroll_top := scroll_top t\<rparr>)" using t1(2) by (auto simp: painted_def)
  then show ?thesis using True t1(1) painted_drawn[OF assms(1)] by (simp add: scroll_from_cursor_def)
qed (use assms(1) in \<open>auto simp: scroll_from_cursor_def\<close>)

lemma length_set_tab [simp]:
  "length (set_tab_stop col tabs) = length tabs" "length (clear_tab_stop col tabs) = length tabs"
  by (simp_all add: set_tab_stop_def clear_tab_stop_def)

lemma region_drawn: "screen_ok t \<Longrightarrow> 0 \<le> a \<Longrightarrow> a \<le> b \<Longrightarrow> b < t_rows t \<Longrightarrow> drawn t (t\<lparr>scroll_top := a, scroll_bottom := b\<rparr>)"
  by (simp add: drawn_def screen_ok_def inside_def region_ok_def grid_of_def)

lemma home_drawn: "screen_ok t \<Longrightarrow> drawn t (move_to 0 0 t)"
  by (rule move_drawn(1)) (use screen_facts[of t] in \<open>simp_all add: inside_def\<close>)

lemma set_region_drawn:
  assumes "screen_ok t"
  shows "drawn t (set_region a b t)"
proof -
  let ?a = "clamp (a - 1) 0 (t_rows t - 1)" and ?b = "clamp (b - 1) 0 (t_rows t - 1)"
  have "0 \<le> ?a \<and> ?b \<le> t_rows t - 1"
    using clamp_bounds[of 0 "t_rows t - 1"] screen_facts[OF assms] by simp
  then have "drawn t (if ?a < ?b then t\<lparr>scroll_top := ?a, scroll_bottom := ?b\<rparr> else t)"
    using region_drawn[OF assms, of ?a ?b] assms by simp
  from drawn_trans[OF this home_drawn[OF drawn_screen[OF this]]] show ?thesis
    unfolding set_region_def Let_def .
qed

lemma finalize_kept: "term_ok t \<Longrightarrow> kept t (csi_finalize t)"
  by (simp add: csi_finalize_def kept_def term_ok_def parser_ok_def)

lemma conj_branch: "P \<Longrightarrow> Q \<Longrightarrow> if b then P else Q"
  by simp

lemma inside_iff: "0 \<le> r \<Longrightarrow> r < t_rows t \<Longrightarrow> 0 \<le> c \<Longrightarrow> c < t_cols t \<Longrightarrow> inside t r c"
  by (simp add: inside_def)

lemma csi_command_kept:
  assumes "term_ok t"
  shows "yields (csi_command b t) (kept t)"
proof -
  have s: "screen_ok t" using assms by (simp add: term_ok_def)
  note f = screen_facts[OF s]
  let ?n = "csi_param t 0 1"
  have n: "0 < ?n" by (rule csi_param_pos) simp
  have row: "0 \<le> clamp v (scroll_top t) (scroll_bottom t)" "clamp v (scroll_top t) (scroll_bottom t) < t_rows t"
    "0 \<le> clamp v 0 (t_rows t - 1)" "clamp v 0 (t_rows t - 1) < t_rows t"
    "0 \<le> clamp v 0 (t_cols t - 1)" "clamp v 0 (t_cols t - 1) < t_cols t" for v
    using clamp_bounds[of "scroll_top t" "scroll_bottom t" v] clamp_bounds[of 0 "t_rows t - 1" v]
      clamp_bounds[of 0 "t_cols t - 1" v] f by auto
  have zero: "0 \<le> (0::int)" "0 < t_cols t" using f by simp_all
  have move: "kept t (move_to r c t)" if "inside t r c" for r c
    by (rule drawn_kept[OF assms move_drawn(1)[OF s that]])
  have scr: "yields (scroll_from_cursor (scroll_down ?n) t) (kept t)" "yields (scroll_from_cursor (scroll_up ?n) t) (kept t)"
    "yields (scroll_up ?n t) (kept t)" "yields (scroll_down ?n t) (kept t)"
    by (rule drawn_yields_kept[OF assms], rule scroll_from_cursor_drawn[OF s], rule scroll_painted, assumption+, rule n)+
       (rule drawn_yields_kept[OF assms], rule painted_yields_drawn[OF s], rule scroll_painted[OF f(9,10) n])+
  note er = erase_kept[OF s, THEN drawn_yields_kept[OF assms]] shift_kept[OF s n, THEN drawn_yields_kept[OF assms]]
  have rest: "kept t (select_rendition t)" "kept t (clear_tabs k t)" for k
    using assms s by (simp_all add: select_rendition_def clear_tabs_def kept_def term_ok_def parser_ok_def)
  show ?thesis
    unfolding csi_command_def Let_def yields_if yields_simps
    by (intro conj_branch scr er rest kept_self assms drawn_kept[OF assms set_region_drawn[OF s]] move inside_iff row f zero)
qed

lemma dispatch_csi_kept: "term_ok t \<Longrightarrow> yields (dispatch_csi b t) (kept t)"
  using finalize_kept[of t] csi_command_kept[of "csi_finalize t" b] kept_trans[of t "csi_finalize t"] kept_term[of t "csi_finalize t"]
  by (auto simp: dispatch_csi_def Let_def intro: yields_mono)

section \<open>ESC sequences\<close>

lemma foldl_length: "(\<And>a x. length (f a x) = length a) \<Longrightarrow> length (foldl f a xs) = length a"
  by (induction xs arbitrary: a) auto

lemma init_tabs:
  "init_tab_stops t = t\<lparr>tab_stops := tab_stops (init_tab_stops t)\<rparr>"
  "length (tab_stops (init_tab_stops t)) = nat ((t_cols t + 7) div 8)"
proof -
  have l: "length (foldl (\<lambda>tabs col. if col mod 8 = 0 then set_tab_stop col tabs else tabs) tabs cs) = length tabs" for tabs :: "8 word list" and cs
    by (rule foldl_length) simp
  show "init_tab_stops t = t\<lparr>tab_stops := tab_stops (init_tab_stops t)\<rparr>"
    "length (tab_stops (init_tab_stops t)) = nat ((t_cols t + 7) div 8)"
    by (simp_all add: init_tab_stops_def l)
qed

lemma screen_ok_fresh:
  "grid_of t \<Longrightarrow> 0 < t_rows t \<Longrightarrow> 2 \<le> t_cols t \<Longrightarrow>
     screen_ok (t\<lparr>cursor_row := 0, cursor_col := 0, scroll_top := 0, scroll_bottom := t_rows t - 1\<rparr>)"
  by (simp add: screen_ok_def grid_of_def inside_def region_ok_def)

text \<open>The reset needs a screen of the right size only, not a sound one.\<close>

definition fresh :: "ts_render \<Rightarrow> ts_render \<Rightarrow> bool" where
  "fresh t t1 \<longleftrightarrow> term_ok t1 \<and> t_rows t1 = t_rows t \<and> t_cols t1 = t_cols t \<and> preserve_sgr t1 = preserve_sgr t
     \<and> cursor_row t1 = 0 \<and> cursor_col t1 = 0 \<and> t_state t1 = STATE_GROUND \<and> utf8_buf t1 = []
     \<and> \<not> pending_wrap t1"

lemma reset_fresh:
  assumes "grid_of t" "0 < t_rows t" "2 \<le> t_cols t"
  shows "yields (ts_render_reset t) (fresh t)"
  unfolding ts_render_reset_def
proof (rule yields_and_then[OF each_clear_row_painted[OF assms(1)]])
  show "\<And>r. r \<in> set [0..t_rows t - 1] \<Longrightarrow> 0 \<le> r \<and> r < t_rows t" by simp
  fix t1
  assume p: "painted t t1"
  note q = painted_fields[OF p]
  let ?u = "t1\<lparr>cursor_row := 0, cursor_col := 0, t_state := STATE_GROUND, params := [], param_val := 0,
         param_has_val := False, intermediate := nul, scroll_top := 0, scroll_bottom := t_rows t1 - 1,
         pending_wrap := False, saved_cursor_row := 0, saved_cursor_col := 0, utf8_buf := [], utf8_expect := 0,
         active_style := no_style\<rparr>"
  have s: "screen_ok ?u"
    using painted_grid[OF p] q assms(2,3) by (simp add: screen_ok_def grid_of_def inside_def region_ok_def)
  then have "term_ok (?u\<lparr>tab_stops := tab_stops (init_tab_stops ?u)\<rparr>)"
    using init_tabs(2)[of ?u] by (simp add: term_ok_def parser_ok_def number_ok_def)
  then show "yields (Ret (init_tab_stops ?u)) (fresh t)"
    unfolding yields_simps by (subst init_tabs(1)) (use q in \<open>simp add: fresh_def\<close>)
qed

lemma fresh_kept: "fresh t t1 \<Longrightarrow> kept t t1"
  by (simp add: fresh_def kept_def)

lemma kept_parser [simp]:
  "kept t t1 \<Longrightarrow> st \<noteq> STATE_OSC_ESC \<Longrightarrow> st \<noteq> STATE_DCS_ESC \<Longrightarrow> kept t (t1\<lparr>t_state := st\<rparr>)"
  "kept t t1 \<Longrightarrow> kept t (t1\<lparr>intermediate := c\<rparr>)"
  "kept t t1 \<Longrightarrow> kept t (t1\<lparr>utf8_buf := [], utf8_expect := 0\<rparr>)"
  by (simp_all add: kept_def term_ok_def parser_ok_def)

lemma term_screen: "term_ok t \<Longrightarrow> screen_ok t"
  by (simp add: term_ok_def)

lemma dispatch_esc_kept:
  assumes "term_ok t"
  shows "yields (dispatch_esc b t) (kept t)"
proof -
  note s = term_screen[OF assms]
  note f = screen_facts[OF s]
  have cr: "drawn t (t\<lparr>cursor_col := 0\<rparr>)" by (rule move_drawn(2)[OF s]) (use f in \<open>simp add: inside_def\<close>)
  have lf: "yields (do_linefeed t) (kept t)" "yields (do_reverse_linefeed t) (kept t)"
    "yields (do_linefeed (t\<lparr>cursor_col := 0\<rparr>)) (kept t)"
    using linefeed_drawn[OF s] linefeed_drawn(1)[OF drawn_screen[OF cr]] drawn_trans[OF cr] drawn_kept[OF assms]
    by (auto intro: yields_mono)
  have restore: "kept t (move_to (clamp r 0 (t_rows t - 1)) (clamp c 0 (t_cols t - 1)) t)" for r c
    by (rule drawn_kept[OF assms move_drawn(1)[OF s inside_iff]])
       (use clamp_bounds[of 0 "t_rows t - 1" r] clamp_bounds[of 0 "t_cols t - 1" c] f in auto)
  have rest: "kept t (t\<lparr>saved_cursor_row := cursor_row t, saved_cursor_col := cursor_col t\<rparr>)"
    "kept t (t\<lparr>tab_stops := set_tab_stop (cursor_col t) (tab_stops t)\<rparr>)"
    using assms by (simp_all add: kept_def term_ok_def parser_ok_def)
  have reset: "yields (ts_render_reset t) (kept t)"
    using reset_fresh[OF f(9)] fresh_kept f by (auto intro: yields_mono)
  show ?thesis
    unfolding dispatch_esc_def yields_if yields_simps if_distrib[of "kept t"]
    by (intro conj_branch lf restore rest reset kept_self assms)
qed

section \<open>Text\<close>

lemma next_tab_inside:
  assumes "screen_ok t"
  shows "0 \<le> next_tab t \<and> next_tab t < t_cols t"
proof (cases "List.find (is_tab_stop t) [cursor_col t + 1..t_cols t - 1]")
  case (Some c)
  then have "c \<in> set [cursor_col t + 1..t_cols t - 1]" by (auto simp: find_Some_iff)
  then show ?thesis using Some screen_facts[OF assms] by (simp add: next_tab_def)
qed (use screen_facts[OF assms] in \<open>simp add: next_tab_def\<close>)

lemma ascii_ok: "0x20 \<le> byte ch \<Longrightarrow> byte ch \<le> 0x7E \<Longrightarrow> char_ok [ch]"
  by (simp add: char_ok_def printable_def)

lemma if_branch: "(b \<Longrightarrow> P) \<Longrightarrow> (\<not> b \<Longrightarrow> Q) \<Longrightarrow> if b then P else Q"
  by simp

lemma process_ground_kept:
  assumes "term_ok t" "utf8_buf t = []"
  shows "yields (process_ground ch t) (kept t)"
proof -
  note s = term_screen[OF assms(1)]
  note f = screen_facts[OF s]
  have col: "kept t (t\<lparr>cursor_col := c, pending_wrap := False\<rparr>)" if "0 \<le> c \<and> c < t_cols t" for c
    by (rule drawn_kept[OF assms(1) move_drawn(3)[OF s]]) (use that f in \<open>simp add: inside_def\<close>)
  have cr: "drawn t (t\<lparr>cursor_col := 0, pending_wrap := False\<rparr>)"
    by (rule move_drawn(3)[OF s]) (use f in \<open>simp add: inside_def\<close>)
  have lf: "yields (do_linefeed (t\<lparr>cursor_col := 0, pending_wrap := False\<rparr>)) (kept t)"
    using linefeed_drawn(1)[OF drawn_screen[OF cr]] drawn_trans[OF cr] drawn_kept[OF assms(1)] by (auto intro: yields_mono)
  have put: "yields (put_char [ch] t) (kept t)" if "0x20 \<le> byte ch" "byte ch \<le> 0x7E"
    using drawn_yields_kept[OF assms(1) put_char_drawn[OF s ascii_ok[OF that]]] .
  have lead: "kept t (t\<lparr>utf8_buf := [ch], utf8_expect := n\<rparr>)" if "0xC2 \<le> byte ch" "2 \<le> n" "n \<le> 4" for n
    using that assms by (simp add: kept_def term_ok_def parser_ok_def printable_def)
  show ?thesis
    unfolding process_ground_def yields_if yields_simps if_distrib[of "kept t"]
    by (intro if_branch lf col next_tab_inside[OF s] put lead kept_self assms(1)) (use f(1,4,5) in simp_all)
qed

lemma and_le_nat: "a AND b \<le> (a::nat)"
  using AND_upper1[of "int a" "int b"] by (metis of_nat_0_le_iff of_nat_and_eq of_nat_le_iff)

lemma cont_printable: "byte ch AND 0xC0 = 0x80 \<Longrightarrow> printable ch"
  using and_le_nat[of "byte ch" "0xC0"] by (simp add: printable_def)

lemma utf8_cont_kept:
  assumes "term_ok t" "utf8_buf t \<noteq> []"
  shows "yields (process_utf8_cont ch t) (\<lambda>(used, t1). kept t t1 \<and> (\<not> used \<longrightarrow> utf8_buf t1 = []))"
proof (cases "byte ch AND 0xC0 = 0x80")
  case True
  let ?t = "t\<lparr>utf8_buf := utf8_buf t @ [ch]\<rparr>"
  have b: "length (utf8_buf t) < utf8_expect t" "utf8_expect t \<le> 4" "list_all printable (utf8_buf t)"
    using assms by (simp_all add: term_ok_def parser_ok_def)
  have full: "yields (put_char (utf8_buf ?t) ?t) (\<lambda>t2. kept t (t2\<lparr>utf8_buf := [], utf8_expect := 0\<rparr>))"
    if "length (utf8_buf ?t) = utf8_expect t"
  proof -
    have "yields (put_char (utf8_buf ?t) ?t) (drawn ?t)"
      by (rule put_char_drawn) (use assms b that cont_printable[OF True] in \<open>auto simp: term_ok_def char_ok_def\<close>)
    moreover have "kept t (t2\<lparr>utf8_buf := [], utf8_expect := 0\<rparr>)" if "drawn ?t t2" for t2
      using assms(1) that by (simp add: kept_def term_ok_def parser_ok_def drawn_def)
    ultimately show ?thesis by (rule yields_mono)
  qed
  have part: "kept t ?t" if "length (utf8_buf ?t) \<noteq> utf8_expect t"
    using that b assms(1) cont_printable[OF True] by (simp add: kept_def term_ok_def parser_ok_def)
  show ?thesis using full part True assms(2) by (auto simp: process_utf8_cont_def Let_def)
next
  case False
  then show ?thesis using assms by (simp add: process_utf8_cont_def)
qed

section \<open>Bytes\<close>

lemma to_ground_kept: "yields r (kept t) \<Longrightarrow> yields (to_ground r) (kept t)"
  by (auto simp: to_ground_def)

lemma state_esc_kept:
  assumes "term_ok t"
  shows "yields (state_esc ch t) (kept t)"
proof -
  have csi: "kept t (t\<lparr>t_state := STATE_CSI_PARAM, params := [], param_val := 0, param_has_val := False, intermediate := nul\<rparr>)"
    using assms by (simp add: kept_def term_ok_def parser_ok_def number_ok_def)
  have st: "kept t (t\<lparr>t_state := st, intermediate := ch\<rparr>)" "kept t (t\<lparr>t_state := st\<rparr>)"
    if "st \<noteq> STATE_OSC_ESC" "st \<noteq> STATE_DCS_ESC" for st
    using assms that by (simp_all add: kept_def term_ok_def parser_ok_def)
  show ?thesis
    unfolding state_esc_def yields_if yields_simps
    by (intro if_branch csi st to_ground_kept dispatch_esc_kept assms) simp_all
qed

lemma digit_value: "isdigit ch \<Longrightarrow> byte CHR ''0'' \<le> byte ch \<and> byte ch \<le> byte CHR ''0'' + 9"
  by (auto simp: isdigit_def byte_def)

lemma digit_kept:
  assumes "term_ok t" "isdigit ch"
  shows "kept t (t\<lparr>param_val := (if param_val t > 99999 then 99999 else param_val t * 10 + int (byte ch - byte CHR ''0'')),
     param_has_val := True\<rparr>)"
proof -
  let ?v = "if param_val t > 99999 then 99999 else param_val t * 10 + int (byte ch - byte CHR ''0'')"
  have "int (byte ch - byte CHR ''0'') \<le> 9" "0 \<le> int (byte ch - byte CHR ''0'')" using digit_value[OF assms(2)] by simp_all
  moreover have "0 \<le> param_val t" using assms(1) by (simp add: term_ok_def parser_ok_def number_ok_def)
  ultimately have "number_ok ?v" unfolding number_ok_def by (auto split: if_split)
  then show ?thesis using assms(1) by (simp add: kept_def term_ok_def parser_ok_def)
qed

lemma state_csi_kept:
  assumes "term_ok t"
  shows "yields (state_csi_param ch t) (kept t)"
proof -
  have num: "number_ok (if param_has_val t then param_val t else 0)" "length (params t) \<le> NBS_TS_RENDER_MAX_PARAMS"
    "list_all number_ok (params t)"
    using assms by (simp_all add: term_ok_def parser_ok_def number_ok_def)
  have "list_all number_ok (if length (params t) < NBS_TS_RENDER_MAX_PARAMS
          then params t @ [if param_has_val t then param_val t else 0] else params t)"
    "length (if length (params t) < NBS_TS_RENDER_MAX_PARAMS
          then params t @ [if param_has_val t then param_val t else 0] else params t) \<le> NBS_TS_RENDER_MAX_PARAMS"
    using num by simp_all
  then have sep: "kept t (t\<lparr>params := (if length (params t) < NBS_TS_RENDER_MAX_PARAMS
          then params t @ [if param_has_val t then param_val t else 0] else params t), param_val := 0, param_has_val := False\<rparr>)"
    using assms by (simp add: kept_def term_ok_def parser_ok_def number_ok_def)
  have st: "kept t (t\<lparr>intermediate := ch\<rparr>)" "kept t (t\<lparr>intermediate := ch, t_state := STATE_CSI_INTER\<rparr>)"
    "kept t (t\<lparr>t_state := STATE_GROUND\<rparr>)"
    using assms by (simp_all add: kept_def term_ok_def parser_ok_def)
  show ?thesis
    unfolding state_csi_param_def yields_if yields_simps
    by (intro if_branch digit_kept sep st to_ground_kept dispatch_csi_kept assms)
qed

lemma in_state_kept:
  assumes "term_ok t" "t_state t = STATE_GROUND \<longrightarrow> utf8_buf t = []" "ch \<noteq> esc"
  shows "yields (in_state ch t) (kept t)"
proof -
  have st: "kept t (t\<lparr>t_state := STATE_GROUND\<rparr>)" by (rule kept_parser(1)[OF kept_self[OF assms(1)]]) simp_all
  have not_reached: "t_state t \<noteq> STATE_OSC_ESC" "t_state t \<noteq> STATE_DCS_ESC"
    using assms(1) by (simp_all add: term_ok_def parser_ok_def)
  have inter: "yields (if is_intermediate ch then Ret t else if is_final 0x40 ch then to_ground (dispatch_csi ch t)
      else Ret (t\<lparr>t_state := STATE_GROUND\<rparr>)) (kept t)"
    unfolding yields_if yields_simps by (intro if_branch kept_self to_ground_kept dispatch_csi_kept st assms(1))
  show ?thesis
    unfolding in_state_def
    using assms process_ground_kept[OF assms(1)] state_esc_kept[OF assms(1)] state_csi_kept[OF assms(1)] inter st not_reached
    by (cases "t_state t") simp_all
qed

lemma process_byte_kept:
  assumes "term_ok t"
  shows "yields (process_byte ch t) (kept t)"
proof -
  have first: "yields (if t_state t = STATE_GROUND \<and> utf8_buf t \<noteq> [] then process_utf8_cont ch t else Ret (False, t))
     (\<lambda>(used, t1). kept t t1 \<and> (\<not> used \<longrightarrow> (t_state t1 = STATE_GROUND \<longrightarrow> utf8_buf t1 = [])))"
    using assms yields_mono[OF utf8_cont_kept[OF assms]] by (simp add: case_prod_beta)
  have second: "yields (if used then Ret t1 else if ch = esc then Ret (t1\<lparr>t_state := STATE_ESC, intermediate := nul\<rparr>)
      else in_state ch t1) (kept t)"
    if "kept t t1" "\<not> used \<longrightarrow> (t_state t1 = STATE_GROUND \<longrightarrow> utf8_buf t1 = [])" for used t1
    using that kept_term[OF that(1)] yields_mono[OF in_state_kept[OF kept_term[OF that(1)]] kept_trans[OF that(1)]] by simp
  show ?thesis
    unfolding process_byte_def
  proof (rule yields_and_then[OF first])
    fix x
    assume "case x of (used, t1) \<Rightarrow> kept t t1 \<and> (\<not> used \<longrightarrow> (t_state t1 = STATE_GROUND \<longrightarrow> utf8_buf t1 = []))"
    then show "yields (case x of (consumed, t1) \<Rightarrow> if consumed then Ret t1
        else if ch = esc then Ret (t1\<lparr>t_state := STATE_ESC, intermediate := nul\<rparr>) else in_state ch t1) (kept t)"
      using second[of "snd x" "fst x"] by (simp add: case_prod_beta)
  qed
qed

lemma feed_kept:
  assumes "term_ok t"
  shows "yields (ts_render_feed data t) (kept t)"
  unfolding ts_render_feed_def
proof (rule yields_each)
  show "kept t t" by (rule kept_self[OF assms])
  fix ch t1
  assume "kept t t1"
  then show "yields (process_byte ch t1) (kept t)"
    using yields_mono[OF process_byte_kept[OF kept_term]] kept_trans by blast
qed

lemma create_ok:
  assumes "0 < rows" "2 \<le> cols"
  shows "yields (ts_render_create rows cols)
    (\<lambda>t. term_ok t \<and> t_rows t = rows \<and> t_cols t = cols \<and> \<not> preserve_sgr t \<and> cursor_row t = 0 \<and> cursor_col t = 0
       \<and> t_state t = STATE_GROUND \<and> utf8_buf t = [] \<and> \<not> pending_wrap t)"
proof -
  have "grid rows cols (replicate (nat (rows * cols)) \<lparr>c_ch = [], c_len = 0, c_style = \<lparr>fg = 0, bg = 0, attrs = 0\<rparr>\<rparr>)"
    by (simp add: grid_def cell_ok_def list_all_iff)
  then show ?thesis
    unfolding ts_render_create_def yields_ASSERT using assms
    by (intro conjI yields_mono[OF reset_fresh]) (auto simp: grid_of_def fresh_def)
qed

end
