(* ===== verification/TermSnapshot.thy ===== *)
theory TermSnapshot
  imports TermSafe
begin

text \<open>
  The snapshot of the terminal renderer fits its buffer, and without styles it holds printable
  bytes and newlines only.
\<close>

unbundle bit_operations_syntax

section \<open>The bytes of a cell\<close>

definition clean :: "char \<Rightarrow> bool" where
  "clean c \<longleftrightarrow> printable c \<or> c = nl"

lemma byte_chr: "byte (chr_byte n) = take_bit 8 n"
  by (simp add: byte_def chr_byte_def take_bit_eq_mod)

lemma le_or_nat: "a \<le> a OR (b::nat)"
  using or_greater_eq[of "int b" "int a"] by (metis of_nat_0_le_iff of_nat_le_iff of_nat_or_eq)

lemma high_printable:
  assumes "0x80 \<le> a" "a < 256"
  shows "printable (chr_byte (a OR b))"
proof -
  have "take_bit 8 a = a" using assms(2) by (simp add: take_bit_nat_eq_self)
  then have "a \<le> take_bit 8 (a OR b)" using le_or_nat[of a "take_bit 8 b"] by (simp add: take_bit_or)
  then show ?thesis using assms(1) by (simp add: printable_def byte_chr)
qed

lemma encode_printable: "0x20 \<le> cp \<Longrightarrow> cp \<noteq> 0x7F \<Longrightarrow> list_all printable (encode_utf8 cp)"
  using high_printable[of "0xC0"] high_printable[of "0xE0"] high_printable[of "0xF0"] high_printable[of "0x80"]
  by (simp add: encode_utf8_def) (simp add: printable_def byte_chr take_bit_nat_eq_self)

lemma encode_length: "length (encode_utf8 cp) \<le> 4"
  by (simp add: encode_utf8_def)

lemma mirror_printable:
  assumes "nbs_ts_bidi_mirror cp \<noteq> cp"
  shows "list_all printable (encode_utf8 (nbs_ts_bidi_mirror cp))"
proof -
  have tab: "list_all (\<lambda>(a, b). 0x20 \<le> b \<and> b \<noteq> 0x7F) mirror_table" by (simp add: mirror_table_def)
  obtain e where e: "search_table mirror_from mirror_table cp = Some e" "nbs_ts_bidi_mirror cp = snd e"
    using assms by (auto simp: nbs_ts_bidi_mirror_def split: option.splits)
  then have "e \<in> set mirror_table" using mirror.search_Some by blast
  then have "0x20 \<le> snd e \<and> snd e \<noteq> 0x7F" using tab by (auto simp: list_all_iff)
  then show ?thesis using encode_printable e(2) by simp
qed

lemma cell_text_ok:
  assumes "cell_ok c"
  shows "list_all printable (cell_text c level)" "length (cell_text c level) \<le> 8"
  using assms mirror_printable encode_length[of "nbs_ts_bidi_mirror (cell_codepoint c)"]
  by (auto simp: cell_text_def Let_def cell_ok_def printable_def byte_def)

section \<open>The bytes of a style\<close>

text \<open>The uninitialised buffer of 48 bytes matters only when styles are printed.\<close>

definition junk_ok :: "bool \<Rightarrow> string \<Rightarrow> bool" where
  "junk_ok sgr junk \<longleftrightarrow> (sgr \<longrightarrow> length junk \<le> 47)"

lemma style_change_length: "junk_ok True junk \<Longrightarrow> length (style_change junk cur new) \<le> 54"
proof -
  assume j: "junk_ok True junk"
  have "length out \<le> 50" if "nbs_style_start junk new 64 = Some out" for out
    using that j style_params_length[of new] by (auto simp: nbs_style_start_def junk_ok_def Let_def split: if_splits)
  then show ?thesis by (auto simp: style_change_def nbs_style_reset_def split: option.splits)
qed

section \<open>Rows\<close>

definition cell_room :: "bool \<Rightarrow> nat" where
  "cell_room sgr = (if sgr then 62 else 8)"

lemma cells_room:
  assumes "junk_ok sgr junk" "\<forall>x \<in> set cls. cell_ok (fst x)" "length out + length cls * cell_room sgr < buf_size"
  shows "yields (snapshot_cells junk sgr buf_size cls cur out)
    (\<lambda>(out1, cur1). length out1 \<le> length out + length cls * cell_room sgr \<and> (cls = [] \<longrightarrow> cur1 = cur)
       \<and> (\<not> sgr \<longrightarrow> list_all clean out \<longrightarrow> list_all clean out1))"
  using assms
proof (induction junk sgr buf_size cls cur out rule: snapshot_cells.induct)
  case (2 junk sgr buf_size c level cls cur out)
  let ?out = "if sgr then out @ style_change junk cur (c_style c) else out" and ?text = "cell_text c level"
  have c: "cell_ok c" using 2(3) by simp
  have len: "length ?out + length ?text \<le> length out + cell_room sgr"
    using style_change_length[of junk cur "c_style c"] 2(2) cell_text_ok(2)[OF c, of level] by (cases sgr) (auto simp: cell_room_def)
  have fits: "length (?out @ ?text) + length cls * cell_room sgr < buf_size"
    using 2(4) len by simp
  have glyph: "list_all clean ?text" using cell_text_ok(1)[OF c, of level] by (auto simp: list_all_iff clean_def)
  have rest: "yields (snapshot_cells junk sgr buf_size cls (if sgr then c_style c else cur) (?out @ ?text))
    (\<lambda>(out1, cur1). length out1 \<le> length out + length ((c, level) # cls) * cell_room sgr \<and> ((c, level) # cls = [] \<longrightarrow> cur1 = cur)
       \<and> (\<not> sgr \<longrightarrow> list_all clean out \<longrightarrow> list_all clean out1))"
  proof (rule yields_mono[OF 2(1)[OF refl refl 2(2) _ fits]])
    show "\<forall>x\<in>set cls. cell_ok (fst x)" using 2(3) by simp
    fix x :: "string \<times> nbs_style"
    assume "case x of (out1, cur1) \<Rightarrow> length out1 \<le> length (?out @ ?text) + length cls * cell_room sgr
        \<and> (cls = [] \<longrightarrow> cur1 = (if sgr then c_style c else cur)) \<and> (\<not> sgr \<longrightarrow> list_all clean (?out @ ?text) \<longrightarrow> list_all clean out1)"
    then show "case x of (out1, cur1) \<Rightarrow> length out1 \<le> length out + length ((c, level) # cls) * cell_room sgr
        \<and> ((c, level) # cls = [] \<longrightarrow> cur1 = cur) \<and> (\<not> sgr \<longrightarrow> list_all clean out \<longrightarrow> list_all clean out1)"
      using len glyph by (cases x) auto
  qed
  show ?case using fits rest by (simp add: Let_def)
qed simp

lemma row_cells_ok: "grid_of t \<Longrightarrow> c \<in> set (logical_cells (row_cells row t)) \<Longrightarrow> cell_ok c"
  by (auto simp: logical_cells_def row_cells_def grid_of_def grid_def list_all_iff dest!: in_set_takeD in_set_dropD)

lemma row_cells_length: "length (logical_cells (row_cells row t)) \<le> nat (t_cols t)"
  unfolding logical_cells_def row_cells_def by (rule le_trans[OF length_filter_le]) simp

lemma visual_map_range:
  assumes "fst (nbs_ts_bidi_reorder_with_levels a b cps d) = Some vm"
  shows "length vm = length cps" "set vm = {0..<length cps}"
proof -
  have "mset vm = mset [0..<length cps]"
    using assms bidi_map_permutes[of a cps d "fst (nbs_ts_bidi_reorder a cps d)" vm]
    by (auto simp: nbs_ts_bidi_reorder_with_levels_def split: prod.splits)
  from mset_eq_length[OF this] mset_eq_setD[OF this] show "length vm = length cps" "set vm = {0..<length cps}" by simp_all
qed

definition row_room :: "ts_render \<Rightarrow> nat" where
  "row_room t = nat (t_cols t) * (NBS_TS_RENDER_CELL_BYTES + (if preserve_sgr t then 64 else 0)) + 1"

lemma row_yields:
  assumes "grid_of t" "0 < t_cols t" "junk_ok (preserve_sgr t) (sn_junk e)" "length out + row_room t < buf_size"
  shows "yields (snapshot_row e t buf_size row out)
    (\<lambda>out1. length out1 \<le> length out + row_room t \<and> (\<not> preserve_sgr t \<longrightarrow> list_all clean out \<longrightarrow> list_all clean out1))"
proof -
  let ?cs = "logical_cells (row_cells row t)" and ?w = "cell_room (preserve_sgr t)"
  let ?r = "nbs_ts_bidi_reorder_with_levels (sn_bidi e) (sn_types e) (map cell_codepoint ?cs) 0"
  let ?vm = "case fst ?r of Some vm \<Rightarrow> vm | None \<Rightarrow> []"
  let ?ls = "case snd ?r of Some ls \<Rightarrow> ls | None \<Rightarrow> map (sn_levels e) [0..<length ?cs]"
  let ?cls = "map (\<lambda>li. (?cs ! li, ?ls ! li)) ?vm"
  have vm: "length ?vm \<le> length ?cs" "set ?vm \<subseteq> {0..<length ?cs}"
    using visual_map_range[of "sn_bidi e" "sn_types e" "map cell_codepoint ?cs" 0] by (cases "fst ?r"; simp)+
  have ok: "\<forall>x \<in> set ?cls. cell_ok (fst x)" using vm(2) row_cells_ok[OF assms(1), of _ row] by auto
  have n: "length ?cls \<le> nat (t_cols t)" using vm(1) row_cells_length[of row t] by simp
  then have room: "length ?cls * ?w + (if preserve_sgr t then 4 else 0) + 1 \<le> row_room t"
    using assms(2) by (auto simp: row_room_def cell_room_def)
  have fits: "length out + length ?cls * ?w < buf_size" using room assms(4) by linarith
  show ?thesis
    unfolding snapshot_row_def Let_def
  proof (rule yields_and_then[OF cells_room[OF assms(3) ok fits]])
    fix x :: "string \<times> nbs_style"
    assume "case x of (out1, cur1) \<Rightarrow> length out1 \<le> length out + length ?cls * ?w \<and> (?cls = [] \<longrightarrow> cur1 = no_style)
       \<and> (\<not> preserve_sgr t \<longrightarrow> list_all clean out \<longrightarrow> list_all clean out1)"
    then show "yields (case x of (out1, cur) \<Rightarrow> Ret
            ((if preserve_sgr t \<and> cur \<noteq> no_style then out1 @ the (nbs_style_reset 64) else out1)
             @ (if row < t_rows t - 1 \<or> last_col (row_cells row t) \<ge> 0 then [nl] else [])))
        (\<lambda>out1. length out1 \<le> length out + row_room t \<and> (\<not> preserve_sgr t \<longrightarrow> list_all clean out \<longrightarrow> list_all clean out1))"
      using room by (cases x) (auto simp: nbs_style_reset_def clean_def)
  qed
qed

lemma rows_yields:
  assumes "grid_of t" "0 < t_cols t" "junk_ok (preserve_sgr t) (sn_junk e)" "length out + length rs * row_room t < buf_size"
  shows "yields (each (snapshot_row e t buf_size) rs out)
    (\<lambda>out1. length out1 \<le> length out + length rs * row_room t \<and> (\<not> preserve_sgr t \<longrightarrow> list_all clean out \<longrightarrow> list_all clean out1))"
  using assms(4)
proof (induction rs arbitrary: out)
  case (Cons row rs)
  have "length out + row_room t < buf_size" using Cons(2) by simp
  from row_yields[OF assms(1-3) this] show ?case
    unfolding each.simps
  proof (rule yields_and_then)
    fix out1 :: string
    assume o: "length out1 \<le> length out + row_room t \<and> (\<not> preserve_sgr t \<longrightarrow> list_all clean out \<longrightarrow> list_all clean out1)"
    then have "length out1 + length rs * row_room t < buf_size" using Cons(2) by simp
    from yields_mono[OF Cons(1)[OF this]] o
    show "yields (each (snapshot_row e t buf_size) rs out1)
      (\<lambda>out2. length out2 \<le> length out + length (row # rs) * row_room t
         \<and> (\<not> preserve_sgr t \<longrightarrow> list_all clean out \<longrightarrow> list_all clean out2))" by auto
  qed
qed simp

lemma trim_newlines_facts: "length (trim_newlines s) \<le> length s" "set (trim_newlines s) \<subseteq> set s"
  by (induction s rule: trim_newlines.induct) auto

lemma snapshot_size_rooms: "snapshot_size t = nat (t_rows t) * row_room t + 64"
  by (simp add: snapshot_size_def row_room_def)

lemma snapshot_yields:
  assumes "term_ok t" "junk_ok (preserve_sgr t) (sn_junk e)"
  shows "yields (ts_render_snapshot e t) (\<lambda>r. case r of None \<Rightarrow> \<not> sn_alloc e
     | Some text \<Rightarrow> length text + 64 \<le> snapshot_size t \<and> (\<not> preserve_sgr t \<longrightarrow> list_all clean text))"
proof -
  note f = screen_facts[OF term_screen[OF assms(1)]]
  have "length ([]::string) + length [0..t_rows t - 1] * row_room t < snapshot_size t"
    by (simp add: snapshot_size_rooms)
  from rows_yields[OF f(9) _ assms(2) this] f(1)
  have "yields (each (snapshot_row e t (snapshot_size t)) [0..t_rows t - 1] [])
     (\<lambda>out1. length out1 + 64 \<le> snapshot_size t \<and> (\<not> preserve_sgr t \<longrightarrow> list_all clean out1))"
    by (simp add: snapshot_size_rooms)
  then have "yields (and_then (each (snapshot_row e t (snapshot_size t)) [0..t_rows t - 1] [])
       (\<lambda>buf. Ret (Some (rev (trim_newlines (rev buf))))))
     (\<lambda>r. case r of None \<Rightarrow> False | Some text \<Rightarrow> length text + 64 \<le> snapshot_size t \<and> (\<not> preserve_sgr t \<longrightarrow> list_all clean text))"
  proof (rule yields_and_then)
    fix buf :: string
    assume "length buf + 64 \<le> snapshot_size t \<and> (\<not> preserve_sgr t \<longrightarrow> list_all clean buf)"
    then show "yields (Ret (Some (rev (trim_newlines (rev buf)))))
      (\<lambda>r. case r of None \<Rightarrow> False | Some text \<Rightarrow> length text + 64 \<le> snapshot_size t \<and> (\<not> preserve_sgr t \<longrightarrow> list_all clean text))"
      using trim_newlines_facts[of "rev buf"] by (auto simp: list_all_iff)
  qed
  then show ?thesis by (auto simp: ts_render_snapshot_def elim!: yields_mono split: option.splits)
qed

lemma each_append: "each f (xs @ ys) s = and_then (each f xs s) (each f ys)"
proof (induction xs arbitrary: s)
  case (Cons x xs)
  then show ?case by (cases "f x s") simp_all
qed simp

end
