(* ===== verification/TermRender.thy ===== *)
theory TermRender
  imports TermSnapshot
begin

text \<open>
  The properties of the terminal renderer (src/src/nbs-ts-render): what the command line prints,
  the invariant of the screen, the bound of the snapshot, what a screen of one column does, the
  sequences that leave no trace, the tables of characters and the order of a line.
\<close>

section \<open>The options\<close>

lemma parse_int_range: "parse_int_arg arg opt = Some (Some v) \<Longrightarrow> 0 < v \<and> v \<le> 10000"
  by (auto simp: parse_int_arg_def Let_def split: if_splits)

definition opts_ok :: "render_opts \<Rightarrow> bool" where
  "opts_ok ro \<longleftrightarrow> 0 < o_width ro \<and> o_width ro \<le> 10000 \<and> 0 < o_height ro \<and> o_height ro \<le> 10000"

text \<open>An option with its value in the next argument.\<close>

lemma spaced_range:
  assumes "opts_ok ro" "\<And>v. 0 < v \<and> v \<le> 10000 \<Longrightarrow> opts_ok (upd v)"
    "(case r of Some (Some n) \<Rightarrow> parse_args rest (upd n) | Some None \<Rightarrow> BadArgs | None \<Rightarrow> parse_args rest ro) = Render ro1"
    "\<And>n. r = Some (Some n) \<Longrightarrow> 0 < n \<and> n \<le> 10000"
    "\<And>ro. opts_ok ro \<Longrightarrow> parse_args rest ro = Render ro1 \<Longrightarrow> opts_ok ro1"
  shows "opts_ok ro1"
  using assms by (cases r) (auto split: option.splits)

lemma one_arg:
  assumes "(if h then Help
      else (case r1 of Some None \<Rightarrow> BadArgs | Some (Some v) \<Rightarrow> f1 v
      | None \<Rightarrow> (case r2 of Some None \<Rightarrow> BadArgs | Some (Some v) \<Rightarrow> f2 v
        | None \<Rightarrow> if b then x
            else if b1 then (case args of [] \<Rightarrow> BadArgs | v # rest \<Rightarrow> g1 v rest)
            else if b2 then (case args of [] \<Rightarrow> BadArgs | v # rest \<Rightarrow> g2 v rest)
            else BadArgs))) = Render ro1"
  shows "(\<exists>v. r1 = Some (Some v) \<and> f1 v = Render ro1) \<or> (\<exists>v. r2 = Some (Some v) \<and> f2 v = Render ro1) \<or> x = Render ro1
    \<or> (\<exists>v rest. args = v # rest \<and> g1 v rest = Render ro1) \<or> (\<exists>v rest. args = v # rest \<and> g2 v rest = Render ro1)"
  using assms by (auto split: if_splits option.splits list.splits)

lemma parse_args_range: "opts_ok ro \<Longrightarrow> parse_args args ro = Render ro1 \<Longrightarrow> opts_ok ro1"
proof (induction args arbitrary: ro rule: length_induct)
  case (1 args)
  have upd: "opts_ok (ro\<lparr>o_width := v\<rparr>)" "opts_ok (ro\<lparr>o_height := v\<rparr>)" "opts_ok (ro\<lparr>o_no_strip := b\<rparr>)"
    if "0 < v \<and> v \<le> 10000" for v b
    using 1(2) that by (simp_all add: opts_ok_def)
  show ?case
  proof (cases args)
    case Nil
    then show ?thesis using 1(2,3) by simp
  next
    case (Cons arg rest)
    have ih: "opts_ok ro1" if "opts_ok r" "parse_args ys r = Render ro1" "length ys \<le> length rest" for r ys
      using 1(1) that Cons by (metis le_imp_less_Suc length_Cons)
    consider v where "parse_int_arg arg ''--width='' = Some (Some v)" "parse_args rest (ro\<lparr>o_width := v\<rparr>) = Render ro1"
      | v where "parse_int_arg arg ''--height='' = Some (Some v)" "parse_args rest (ro\<lparr>o_height := v\<rparr>) = Render ro1"
      | "parse_args rest (ro\<lparr>o_no_strip := True\<rparr>) = Render ro1"
      | v ys where "rest = v # ys" "(case parse_int_arg (snprintf 64 (''--width='' @ v)) ''--width='' of
                     Some (Some n) \<Rightarrow> parse_args ys (ro\<lparr>o_width := n\<rparr>)
                   | Some None \<Rightarrow> BadArgs | None \<Rightarrow> parse_args ys ro) = Render ro1"
      | v ys where "rest = v # ys" "(case parse_int_arg (snprintf 64 (''--height='' @ v)) ''--height='' of
                     Some (Some n) \<Rightarrow> parse_args ys (ro\<lparr>o_height := n\<rparr>)
                   | Some None \<Rightarrow> BadArgs | None \<Rightarrow> parse_args ys ro) = Render ro1"
      using one_arg[OF 1(3)[unfolded Cons parse_args.simps]] by blast
    then show ?thesis
    proof cases
      case 1 then show ?thesis using ih[OF upd(1)[OF parse_int_range]] by blast
    next
      case 2 then show ?thesis using ih[OF upd(2)[OF parse_int_range]] by blast
    next
      case 3 then show ?thesis using ih[OF upd(3)[of 1]] by simp
    next
      case (4 v ys)
      then have ys: "length ys \<le> length rest" by simp
      show ?thesis by (rule spaced_range[OF \<open>opts_ok ro\<close> upd(1) 4(2)]) (assumption, rule parse_int_range, assumption, rule ih[OF _ _ ys])
    next
      case (5 v ys)
      then have ys: "length ys \<le> length rest" by simp
      show ?thesis by (rule spaced_range[OF \<open>opts_ok ro\<close> upd(2) 5(2)]) (assumption, rule parse_int_range, assumption, rule ih[OF _ _ ys])
    qed
  qed
qed

section \<open>What the command prints\<close>

lemma feed_chunks:
  assumes "term_ok t"
  shows "yields (each ts_render_feed chunks t) (kept t)"
proof (rule yields_each)
  show "kept t t" by (rule kept_self[OF assms])
  fix data t1
  assume "kept t t1"
  then show "yields (ts_render_feed data t1) (kept t)"
    using yields_mono[OF feed_kept[OF kept_term]] kept_trans by blast
qed

lemma preserve_ok: "term_ok t \<Longrightarrow> term_ok (ts_render_set_preserve_sgr b t)"
  by (simp add: ts_render_set_preserve_sgr_def term_ok_def screen_ok_def grid_of_def inside_def region_ok_def parser_ok_def)



text \<open>C23: The screen is an invariant.  On a screen of at least two columns no byte fails an assertion,
  and afterwards every cell holds at most eight printable bytes, the cursor and the scroll
  region are inside the screen, at most sixteen parameters of at most 999999 are stored and
  a partial multi-byte character is shorter than its announced length; the size is unchanged.\<close>
theorem feed_keeps_screen:
  assumes "0 < rows" "2 \<le> cols"
  shows "\<exists>t t1. ts_render_create rows cols = Ret t \<and> ts_render_feed data t = Ret t1
    \<and> length (cells t1) = nat (rows * cols) \<and> list_all cell_ok (cells t1)
    \<and> 0 \<le> cursor_row t1 \<and> cursor_row t1 < rows \<and> 0 \<le> cursor_col t1 \<and> cursor_col t1 < cols
    \<and> 0 \<le> scroll_top t1 \<and> scroll_top t1 \<le> scroll_bottom t1 \<and> scroll_bottom t1 < rows \<and> parser_ok t1"
proof -
  obtain t where t: "ts_render_create rows cols = Ret t" "term_ok t" "t_rows t = rows" "t_cols t = cols"
    using create_ok[OF assms] by (auto elim: yieldsE)
  obtain t1 where t1: "ts_render_feed data t = Ret t1" "kept t t1"
    using feed_kept[OF t(2), of data] by (auto elim: yieldsE)
  then have "term_ok t1" "t_rows t1 = rows" "t_cols t1 = cols" using t by (simp_all add: kept_def)
  then show ?thesis using t(1) t1(1) screen_facts[of t1] by (auto simp: term_ok_def grid_of_def grid_def)
qed

theorem feed_keeps_screen_witness:
  "\<exists>t t1. ts_render_create 1 2 = Ret t \<and> ts_render_feed (esc # ''[9;9Hx'') t = Ret t1
    \<and> length (cells t1) = nat (1 * 2) \<and> list_all cell_ok (cells t1)
    \<and> 0 \<le> cursor_row t1 \<and> cursor_row t1 < 1 \<and> 0 \<le> cursor_col t1 \<and> cursor_col t1 < 2
    \<and> 0 \<le> scroll_top t1 \<and> scroll_top t1 \<le> scroll_bottom t1 \<and> scroll_bottom t1 < 1 \<and> parser_ok t1"
  by (rule feed_keeps_screen) simp_all

section \<open>Sequences that leave no trace\<close>

text \<open>What can be seen of the screen, and where the cursor is.\<close>

definition same_screen :: "ts_render \<Rightarrow> ts_render \<Rightarrow> bool" where
  "same_screen t t1 \<longleftrightarrow> cells t1 = cells t \<and> cursor_row t1 = cursor_row t \<and> cursor_col t1 = cursor_col t
     \<and> pending_wrap t1 = pending_wrap t \<and> scroll_top t1 = scroll_top t \<and> scroll_bottom t1 = scroll_bottom t
     \<and> tab_stops t1 = tab_stops t \<and> saved_cursor_row t1 = saved_cursor_row t \<and> saved_cursor_col t1 = saved_cursor_col t
     \<and> preserve_sgr t1 = preserve_sgr t \<and> utf8_buf t1 = utf8_buf t"

lemma csi_bytes:
  assumes "t_state t = STATE_CSI_PARAM" "list_all (\<lambda>c. isdigit c \<or> c = CHR '';'') ps" "intermediate t = nul"
  shows "\<exists>t1. each process_byte ps t = Ret t1 \<and> same_screen t t1 \<and> t_state t1 = STATE_CSI_PARAM \<and> intermediate t1 = nul"
  using assms
proof (induction ps arbitrary: t)
  case (Cons c ps)
  obtain t1 where t1: "process_byte c t = Ret t1" "same_screen t t1" "t_state t1 = STATE_CSI_PARAM" "intermediate t1 = nul"
    using Cons(2-4) by (cases "isdigit c") (auto simp: process_byte_def in_state_def state_csi_param_def same_screen_def isdigit_def)
  from Cons(1)[OF t1(3) _ t1(4)] Cons(3) obtain t2 where
    "each process_byte ps t1 = Ret t2" "same_screen t1 t2" "t_state t2 = STATE_CSI_PARAM" "intermediate t2 = nul" by auto
  then show ?case using t1 by (simp add: same_screen_def)
qed (simp add: same_screen_def)

lemma osc_bytes:
  "t_state t = STATE_OSC \<Longrightarrow> list_all (\<lambda>c. c \<noteq> esc \<and> c \<noteq> CHR 0x07) ps \<Longrightarrow> each process_byte ps t = Ret t"
  by (induction ps) (simp_all add: process_byte_def in_state_def)

text \<open>Without \<open>--no-strip\<close> a colour or attribute sequence changes nothing of the screen, the
  cursor, the scroll region and the tab stops, and neither does an operating system command,
  with any payload up to its terminator.\<close>
theorem decoration_stripped:
  assumes "t_state t = STATE_GROUND" "utf8_buf t = []" "\<not> preserve_sgr t"
    "list_all (\<lambda>c. isdigit c \<or> c = CHR '';'') ps" "list_all (\<lambda>c. c \<noteq> esc \<and> c \<noteq> CHR 0x07) title"
  shows "(\<exists>t1. ts_render_feed (esc # ''['' @ ps @ ''m'') t = Ret t1 \<and> same_screen t t1 \<and> t_state t1 = STATE_GROUND)
    \<and> (\<exists>t1. ts_render_feed (esc # '']'' @ title @ [CHR 0x07]) t = Ret t1 \<and> same_screen t t1 \<and> t_state t1 = STATE_GROUND)"
proof
  let ?t = "t\<lparr>t_state := STATE_CSI_PARAM, params := [], param_val := 0, param_has_val := False, intermediate := nul\<rparr>"
  have start: "each process_byte (esc # ''['') t = Ret ?t"
    using assms(1,2) by (simp add: process_byte_def in_state_def state_esc_def)
  obtain t1 where t1: "each process_byte ps ?t = Ret t1" "same_screen ?t t1" "t_state t1 = STATE_CSI_PARAM" "intermediate t1 = nul"
    using csi_bytes[of ?t ps] assms(4) by auto
  have final: "process_byte CHR ''m'' t1 = Ret ((csi_finalize t1)\<lparr>t_state := STATE_GROUND\<rparr>)"
    using t1(2,3,4) assms(2,3)
    by (auto simp: process_byte_def in_state_def state_csi_param_def isdigit_def is_intermediate_def is_final_def byte_def
        to_ground_def dispatch_csi_def Let_def csi_command_def select_rendition_def csi_finalize_def same_screen_def)
  have "ts_render_feed (esc # ''['' @ ps @ ''m'') t = Ret ((csi_finalize t1)\<lparr>t_state := STATE_GROUND\<rparr>)"
    using each_append[of process_byte "esc # ''[''" "ps @ ''m''" t] start each_append[of process_byte ps "''m''" ?t] t1(1) final
    by (simp add: ts_render_feed_def)
  then show "\<exists>t1. ts_render_feed (esc # ''['' @ ps @ ''m'') t = Ret t1 \<and> same_screen t t1 \<and> t_state t1 = STATE_GROUND"
    using t1(2) by (auto simp: same_screen_def csi_finalize_def)
  have "ts_render_feed (esc # '']'' @ title @ [CHR 0x07]) t = Ret (t\<lparr>t_state := STATE_GROUND, intermediate := nul\<rparr>)"
    using each_append[of process_byte title "[CHR 0x07]"] osc_bytes[of "t\<lparr>intermediate := nul, t_state := STATE_OSC\<rparr>" title] assms
    by (simp add: ts_render_feed_def process_byte_def in_state_def state_esc_def)
  then show "\<exists>t1. ts_render_feed (esc # '']'' @ title @ [CHR 0x07]) t = Ret t1 \<and> same_screen t t1 \<and> t_state t1 = STATE_GROUND"
    by (auto simp: same_screen_def)
qed

theorem decoration_stripped_witness:
  "\<exists>t. ts_render_create 2 3 = Ret t
    \<and> (\<exists>t1. ts_render_feed (esc # ''['' @ ''1;31'' @ ''m'') t = Ret t1 \<and> same_screen t t1 \<and> t_state t1 = STATE_GROUND)
    \<and> (\<exists>t1. ts_render_feed (esc # '']'' @ ''0;x'' @ [CHR 0x07]) t = Ret t1 \<and> same_screen t t1 \<and> t_state t1 = STATE_GROUND)"
proof -
  obtain t where t: "ts_render_create 2 3 = Ret t" "t_state t = STATE_GROUND" "utf8_buf t = []" "\<not> preserve_sgr t"
    using create_ok[of 2 3] by (auto elim: yieldsE)
  show ?thesis using t(1) decoration_stripped[OF t(2-4), of "''1;31''" "''0;x''"] by (auto simp: isdigit_def)
qed

section \<open>The snapshot's buffer\<close>



section \<open>One column\<close>

lemma painted_after: "yields r (painted t) \<Longrightarrow> (\<And>t1. painted t t1 \<Longrightarrow> k t1 = Abort) \<Longrightarrow> and_then r k = Abort"
  by (cases r) auto

lemma abort_after: "(\<And>x. r = Ret x \<Longrightarrow> k x = Abort) \<Longrightarrow> and_then r k = Abort"
  by (cases r) auto

lemma outside_aborts: "t_cols t = 1 \<Longrightarrow> cursor_col t = 0 \<Longrightarrow> clear_wide_cell (cursor_row t) (cursor_col t + 1) t = Abort"
  by (simp add: clear_wide_cell_def get_cell_def cell_at_def ASSERT_MSG_def)

text \<open>The steps before the second cell keep the column.\<close>

definition thin :: "ts_render \<Rightarrow> bool" where
  "thin t \<longleftrightarrow> t_cols t = 1 \<and> cursor_col t = 0 \<and> grid_of t \<and> region_ok t \<and> inside t (cursor_row t) (cursor_col t)"

lemma thin_facts:
  "thin t \<Longrightarrow> t_cols t = 1" "thin t \<Longrightarrow> cursor_col t = 0" "thin t \<Longrightarrow> grid_of t" "thin t \<Longrightarrow> region_ok t"
  "thin t \<Longrightarrow> inside t (cursor_row t) (cursor_col t)"
  unfolding thin_def by blast+

lemma thin_update:
  "thin t \<Longrightarrow> 0 \<le> r \<Longrightarrow> r < t_rows t \<Longrightarrow> thin (t\<lparr>cursor_row := r\<rparr>)" "thin t \<Longrightarrow> thin (t\<lparr>cursor_col := 0\<rparr>)"
  "thin t \<Longrightarrow> thin (t\<lparr>pending_wrap := b\<rparr>)"
  by (auto simp: thin_def grid_of_def region_ok_def inside_def)

lemma painted_thin: "thin t \<Longrightarrow> painted t t1 \<Longrightarrow> thin t1"
  using painted_fields[of t t1] painted_grid[of t t1] by (simp add: thin_def inside_def region_ok_def)

lemma linefeed_thin: "thin t \<Longrightarrow> do_linefeed t = Ret t1 \<Longrightarrow> thin t1"
proof -
  assume t: "thin t" "do_linefeed t = Ret t1"
  have "yields (scroll_up 1 t) (painted t)" by (rule scroll_painted) (use t(1) in \<open>simp_all add: thin_def\<close>)
  moreover have "thin (t\<lparr>cursor_row := cursor_row t + 1\<rparr>)" if "cursor_row t < t_rows t - 1"
    by (rule thin_update(1)[OF t(1)]) (use that thin_facts(5)[OF t(1)] in \<open>simp_all add: inside_def\<close>)
  ultimately show "thin t1"
    using t painted_thin[OF t(1)] by (auto simp: do_linefeed_def split: if_splits)
qed

lemma put_wide_thin:
  assumes "thin t"
  shows "put_wide ch t = Abort"
proof -
  have set_thin: "thin t1" if "thin t" "set_cell clear_cell (cursor_row t) (cursor_col t) t = Ret t1" for t t1
    using set_cell_yields[OF thin_facts(3,5)[OF that(1)], of clear_cell] that painted_thin[OF that(1)] by simp
  have wide_thin: "thin t1" if "thin t" "clear_wide_cell (cursor_row t) (cursor_col t) t = Ret t1" for t t1
    using clear_wide_painted[OF thin_facts(3,5)[OF that(1)]] that painted_thin[OF that(1)] by simp
  have start: "thin t1" if "and_then (set_cell clear_cell (cursor_row t) (cursor_col t) t) (\<lambda>t1. do_linefeed (t1\<lparr>cursor_col := 0\<rparr>)) = Ret t1" for t1
    using that set_thin[OF assms] linefeed_thin[OF thin_update(2)] by (cases "set_cell clear_cell (cursor_row t) (cursor_col t) t") auto
  have second: "and_then (clear_wide_cell (cursor_row t1) (cursor_col t1) t1) (\<lambda>t2.
     and_then (clear_wide_cell (cursor_row t2) (cursor_col t2 + 1) t2) (k t2)) = Abort" if "thin t1" for t1 k
    by (rule abort_after) (use wide_thin[OF that] outside_aborts thin_facts(1,2) in auto)
  show ?thesis
    unfolding put_wide_def by (rule abort_after, rule second) (use start assms in \<open>auto split: if_splits\<close>)
qed

lemma create_thin:
  assumes "0 < rows"
  shows "yields (ts_render_create rows 1) thin"
  unfolding ts_render_create_def ts_render_reset_def yields_ASSERT
proof (intro conjI assms)
  let ?t = "\<lparr>t_rows = rows, t_cols = 1,
         cells = replicate (nat (rows * 1)) \<lparr>c_ch = [], c_len = 0, c_style = \<lparr>fg = 0, bg = 0, attrs = 0\<rparr>\<rparr>,
         cursor_row = 0, cursor_col = 0, t_state = STATE_GROUND, params = [], param_val = 0, param_has_val = False,
         intermediate = nul, scroll_top = 0, scroll_bottom = 0, pending_wrap = False, saved_cursor_row = 0,
         saved_cursor_col = 0, utf8_buf = [], utf8_expect = 0, tab_stops = replicate (nat ((1 + 7) div 8)) 0,
         preserve_sgr = False, active_style = \<lparr>fg = 0, bg = 0, attrs = 0\<rparr>\<rparr>"
  have g: "grid_of ?t" by (simp add: grid_of_def grid_def cell_ok_def list_all_iff)
  show "yields (and_then (each clear_row [0..t_rows ?t - 1] ?t) (\<lambda>t1.
       Ret (init_tab_stops (t1\<lparr>cursor_row := 0, cursor_col := 0, t_state := STATE_GROUND, params := [], param_val := 0,
         param_has_val := False, intermediate := nul, scroll_top := 0, scroll_bottom := t_rows t1 - 1,
         pending_wrap := False, saved_cursor_row := 0, saved_cursor_col := 0, utf8_buf := [], utf8_expect := 0,
         active_style := no_style\<rparr>)))) thin"
  proof (rule yields_and_then[OF each_clear_row_painted[OF g]])
    show "\<And>r. r \<in> set [0..t_rows ?t - 1] \<Longrightarrow> 0 \<le> r \<and> r < t_rows ?t" by simp
    fix t1
    assume p: "painted ?t t1"
    show "yields (Ret (init_tab_stops (t1\<lparr>cursor_row := 0, cursor_col := 0, t_state := STATE_GROUND, params := [], param_val := 0,
         param_has_val := False, intermediate := nul, scroll_top := 0, scroll_bottom := t_rows t1 - 1,
         pending_wrap := False, saved_cursor_row := 0, saved_cursor_col := 0, utf8_buf := [], utf8_expect := 0,
         active_style := no_style\<rparr>))) thin"
      unfolding yields_simps
      by (subst init_tabs(1)) (use assms painted_fields[OF p] painted_grid[OF p] in \<open>simp add: thin_def grid_of_def region_ok_def inside_def\<close>)
  qed
qed simp

text \<open>A screen of one column, which \<open>--width=1\<close> asks for and the option check accepts, cannot show a
  wide character: writing one fails an assertion and aborts the program.\<close>
theorem one_column_aborts:
  assumes "t_cols t = 1" "cursor_col t = 0" "grid_of t" "region_ok t" "0 \<le> cursor_row t" "cursor_row t < t_rows t"
    "0 < length ch" "length ch \<le> 4" "nbs_ts_wcwidth (utf8_to_codepoint ch (length ch)) = 2"
  shows "put_char ch t = Abort"
proof -
  have thin: "thin t" using assms by (simp add: thin_def inside_def)
  then have home: "thin (t\<lparr>cursor_col := 0\<rparr>)" by (rule thin_update(2))
  have "thin t1" if "and_then (do_linefeed (t\<lparr>cursor_col := 0\<rparr>)) (\<lambda>t1. Ret (t1\<lparr>pending_wrap := False\<rparr>)) = Ret t1" for t1
    using that linefeed_thin[OF home] thin_update(3) by (cases "do_linefeed (t\<lparr>cursor_col := 0\<rparr>)") auto
  then show ?thesis
    using assms(7-9) thin put_wide_thin unfolding put_char_def Let_def
    by (auto simp: ASSERT_MSG_def intro!: abort_after split: if_splits)
qed

theorem one_column_aborts_witness:
  "\<exists>t. ts_render_create 1 1 = Ret t \<and> put_char [CHR 0xE4, CHR 0xB8, CHR 0xAD] t = Abort"
proof -
  obtain t where t: "ts_render_create 1 1 = Ret t" "thin t"
    using create_thin[of 1] by (auto elim: yieldsE)
  note thin = thin_facts[OF t(2)]
  then have row: "0 \<le> cursor_row t" "cursor_row t < t_rows t" by (simp_all add: inside_def)
  have "utf8_to_codepoint [CHR 0xE4, CHR 0xB8, CHR 0xAD] (length [CHR 0xE4, CHR 0xB8, CHR 0xAD]) = 0x4E2D"
    by (simp add: utf8_to_codepoint_def byte_at_def)
  then have "nbs_ts_wcwidth (utf8_to_codepoint [CHR 0xE4, CHR 0xB8, CHR 0xAD] (length [CHR 0xE4, CHR 0xB8, CHR 0xAD])) = 2"
    unfolding nbs_ts_wcwidth_def in_ranges_def zero.search_find double.search_find
    by (simp add: covers_def zero_width_def double_width_def)
  from one_column_aborts[OF thin(1-4) row _ _ this] t(1) show ?thesis by auto
qed

section \<open>Characters\<close>

text \<open>The binary searches find what a linear search finds: the zero-width and wide ranges decide the
  width by membership, and the bidirectional type and the mirrored character are those of the
  first entry of the table for the character.\<close>
theorem tables_searched:
  "in_ranges cp zero_width = list_ex (\<lambda>(lo, hi). lo \<le> cp \<and> cp \<le> hi) zero_width
   \<and> in_ranges cp double_width = list_ex (\<lambda>(lo, hi). lo \<le> cp \<and> cp \<le> hi) double_width
   \<and> nbs_ts_bidi_type cp
       = (case List.find (\<lambda>(lo, hi, ty). lo \<le> cp \<and> cp \<le> hi) bidi_ranges of Some (lo, hi, ty) \<Rightarrow> ty | None \<Rightarrow> BIDI_L)
   \<and> nbs_ts_bidi_mirror cp = (case map_of mirror_table cp of Some m \<Rightarrow> m | None \<Rightarrow> cp)"
proof -
  have ex: "(List.find P xs \<noteq> None) = list_ex P xs" for P :: "nat \<times> nat \<Rightarrow> bool" and xs
    by (induction xs) auto
  have c: "covers (\<lambda>r. r) cp = (\<lambda>(lo, hi). lo \<le> cp \<and> cp \<le> hi)" "covers bidi_range cp = (\<lambda>(lo, hi, ty). lo \<le> cp \<and> cp \<le> hi)"
    by (auto simp: covers_def bidi_range_def)
  have m: "(case List.find (covers mirror_from cp) xs of Some (from_cp, to_cp) \<Rightarrow> to_cp | None \<Rightarrow> cp)
      = (case map_of xs cp of Some m \<Rightarrow> m | None \<Rightarrow> cp)" for xs
    by (induction xs) (auto simp: covers_def mirror_from_def)
  show ?thesis
    unfolding in_ranges_def nbs_ts_bidi_type_def nbs_ts_bidi_mirror_def zero.search_find double.search_find
      bidi.search_find mirror.search_find c ex m by simp
qed

text \<open>Every character of a line is shown exactly once.  The visual order that the bidirectional
  algorithm computes is a permutation of the characters, whatever they are, also when its
  allocations fail.\<close>
theorem bidi_order_permutes:
  assumes "codepoints \<noteq> []"
  shows "\<exists>visual_map. fst (nbs_ts_bidi_reorder_with_levels alloc alloc_types codepoints base_dir) = Some visual_map
     \<and> mset (map (\<lambda>li. codepoints ! li) visual_map) = mset codepoints"
proof -
  obtain p vm where r: "nbs_ts_bidi_reorder alloc codepoints base_dir = (p, Some vm)"
    using assms by (cases alloc) (auto simp: nbs_ts_bidi_reorder_def Let_def)
  have "mset (map (\<lambda>li. codepoints ! li) vm) = mset (map (\<lambda>li. codepoints ! li) [0..<length codepoints])"
    using bidi_map_permutes[OF r] by (simp only: mset_map)
  then show ?thesis using r by (simp add: nbs_ts_bidi_reorder_with_levels_def map_nth)
qed

theorem bidi_order_permutes_witness:
  "\<exists>visual_map. fst (nbs_ts_bidi_reorder_with_levels True True [0x05D0, 0x0031, 0x0041] 0) = Some visual_map
     \<and> mset (map (\<lambda>li. [0x05D0, 0x0031, 0x0041] ! li) visual_map) = mset [0x05D0, 0x0031, 0x0041 :: nat]"
  by (rule bidi_order_permutes) simp

end
