(* ===== verification/TermPlain.thy ===== *)
theory TermPlain
  imports TermSnapshot
begin

text \<open>
  Plain text through the terminal renderer: lines of ASCII text that fit the screen are printed
  as they are.
\<close>

section \<open>Pages\<close>

definition glyph :: "char \<Rightarrow> ts_cell" where
  "glyph ch = \<lparr>c_ch = [ch], c_len = 1, c_style = no_style\<rparr>"

definition blank :: ts_cell where
  "blank = \<lparr>c_ch = [], c_len = 0, c_style = no_style\<rparr>"

definition row_of :: "nat \<Rightarrow> string \<Rightarrow> ts_cell list" where
  "row_of n l = map glyph l @ replicate (n - length l) blank"

definition page_rows :: "nat \<Rightarrow> nat \<Rightarrow> string list \<Rightarrow> ts_cell list list" where
  "page_rows rows n ls = map (row_of n) ls @ replicate (rows - length ls) (row_of n [])"

definition page :: "nat \<Rightarrow> nat \<Rightarrow> string list \<Rightarrow> ts_cell list" where
  "page rows n ls = concat (page_rows rows n ls)"

lemma length_row_of: "length l \<le> n \<Longrightarrow> length (row_of n l) = n"
  by (simp add: row_of_def)

lemma length_page_rows: "length ls \<le> rows \<Longrightarrow> length (page_rows rows n ls) = rows"
  by (simp add: page_rows_def)

definition fits :: "nat \<Rightarrow> string list \<Rightarrow> bool" where
  "fits n ls \<longleftrightarrow> (\<forall>l \<in> set ls. length l \<le> n)"

lemma page_rows_lengths: "fits n ls \<Longrightarrow> x \<in> set (page_rows rows n ls) \<Longrightarrow> length x = n"
  by (auto simp: page_rows_def fits_def length_row_of)

lemma page_next_line: "length ls < rows \<Longrightarrow> page_rows rows n (ls @ [[]]) = page_rows rows n ls"
  by (simp add: page_rows_def Suc_diff_Suc flip: replicate_Suc)

text \<open>Positions in a list of rows of the same length.\<close>

lemma concat_nth:
  assumes "\<forall>x \<in> set rs. length x = n" "r < length rs" "c < n"
  shows "concat rs ! (r * n + c) = rs ! r ! c"
  using assms
proof (induction rs arbitrary: r)
  case (Cons x rs)
  then show ?case by (cases r) (simp_all add: nth_append add.assoc)
qed simp

lemma concat_update:
  assumes "\<forall>x \<in> set rs. length x = n" "r < length rs" "c < n"
  shows "(concat rs)[r * n + c := v] = concat (rs[r := (rs ! r)[c := v]])"
  using assms
proof (induction rs arbitrary: r)
  case (Cons x rs)
  then show ?case by (cases r) (simp_all add: list_update_append add.assoc)
qed simp

lemma concat_slice:
  assumes "\<forall>x \<in> set rs. length x = n" "r < length rs"
  shows "take n (drop (r * n) (concat rs)) = rs ! r"
  using assms
proof (induction rs arbitrary: r)
  case (Cons x rs)
  then show ?case by (cases r) simp_all
qed simp

lemma length_concat_rows: "\<forall>x \<in> set rs. length x = n \<Longrightarrow> length (concat rs) = length rs * n"
  by (induction rs) simp_all

section \<open>The width of a plain character\<close>

definition plain_char :: "char \<Rightarrow> bool" where
  "plain_char ch \<longleftrightarrow> 0x20 \<le> byte ch \<and> byte ch \<le> 0x7E"

lemma no_low_range:
  assumes "list_all (\<lambda>(lo, hi). 0x80 \<le> lo) tab" "cp < 0x7F"
  shows "List.find (covers (\<lambda>r. r) cp) tab = None"
  using assms by (induction tab) (auto simp: covers_def)

lemma plain_width: "plain_char ch \<Longrightarrow> nbs_ts_wcwidth (byte ch) = 1"
proof -
  assume p: "plain_char ch"
  have "list_all (\<lambda>(lo, hi). 0x80 \<le> lo) zero_width" "list_all (\<lambda>(lo, hi). 0x80 \<le> lo) double_width"
    by (simp_all add: zero_width_def double_width_def)
  then show ?thesis
    unfolding nbs_ts_wcwidth_def in_ranges_def zero.search_find double.search_find
    using p no_low_range[of _ "byte ch"] by (auto simp: plain_char_def)
qed

section \<open>Writing a line\<close>

text \<open>\<open>typed t rows n done cur\<close>: the screen shows the lines \<open>done\<close> and, before the cursor, \<open>cur\<close>.\<close>

definition typed :: "ts_render \<Rightarrow> nat \<Rightarrow> nat \<Rightarrow> string list \<Rightarrow> string \<Rightarrow> bool" where
  "typed t rows n ls cur \<longleftrightarrow> t_rows t = int rows \<and> t_cols t = int n \<and> cells t = page rows n (ls @ [cur])
     \<and> length ls < rows \<and> fits n (ls @ [cur]) \<and> 2 \<le> n
     \<and> cursor_row t = int (length ls) \<and> cursor_col t = (if length cur = n then int n - 1 else int (length cur))
     \<and> pending_wrap t = (length cur = n) \<and> t_state t = STATE_GROUND \<and> utf8_buf t = [] \<and> \<not> preserve_sgr t
     \<and> scroll_bottom t = int rows - 1"

lemma cell_at_int:
  "t_rows t = int rows \<Longrightarrow> t_cols t = int n \<Longrightarrow> r < rows \<Longrightarrow> c < n \<Longrightarrow> cell_at t (int r) (int c) = Ret (r * n + c)"
  by (simp add: cell_at_def ASSERT_MSG_def nat_int_add flip: of_nat_mult of_nat_add)

lemma clear_blank:
  assumes "t_rows t = int rows" "t_cols t = int n" "r < rows" "c < n" "cells t ! (r * n + c) = blank"
  shows "clear_wide_cell (int r) (int c) t = Ret t"
  using assms list_update_id[of "cells t" "r * n + c"]
  by (simp add: clear_wide_cell_def get_cell_def set_cell_def cell_at_int is_continuation_def clear_cell_def blank_def)

lemma typed_char:
  assumes "typed t rows n ls cur" "length cur < n" "plain_char ch"
  shows "\<exists>t1. process_byte ch t = Ret t1 \<and> typed t1 rows n ls (cur @ [ch])"
proof -
  let ?rs = "page_rows rows n (ls @ [cur])"
  let ?r = "length ls" and ?c = "length cur"
  have t: "t_rows t = int rows" "t_cols t = int n" "cells t = concat ?rs" "?r < rows" "fits n (ls @ [cur])" "2 \<le> n"
    "cursor_row t = int ?r" "cursor_col t = int ?c" "\<not> pending_wrap t" "t_state t = STATE_GROUND" "utf8_buf t = []"
    "\<not> preserve_sgr t" "scroll_bottom t = int rows - 1"
    using assms(1,2) by (auto simp: typed_def page_def)
  have rs: "\<forall>x \<in> set ?rs. length x = n" "?r < length ?rs"
    using page_rows_lengths[OF t(5)] t(4) length_page_rows[of "ls @ [cur]" rows n] by auto
  have row: "?rs ! ?r = row_of n cur" by (simp add: page_rows_def nth_append)
  have old: "cells t ! (?r * n + ?c) = blank"
    using concat_nth[OF rs assms(2)] t(3) row assms(2) by (simp add: row_of_def nth_append)
  have cell: "(row_of n cur)[?c := glyph ch] = row_of n (cur @ [ch])"
    using assms(2) by (simp add: row_of_def list_update_append Cons_replicate_eq flip: replicate_Suc)
      (metis Suc_diff_Suc list_update_code(2) replicate_Suc)
  have rows: "?rs[?r := row_of n (cur @ [ch])] = page_rows rows n (ls @ [cur @ [ch]])"
    by (simp add: page_rows_def list_update_append)
  have new: "(cells t)[?r * n + ?c := glyph ch] = page rows n (ls @ [cur @ [ch]])"
    using concat_update[OF rs assms(2), of "glyph ch"] by (simp add: t(3) row cell rows page_def)
  have put: "put_char [ch] t = Ret (let t2 = t\<lparr>cells := page rows n (ls @ [cur @ [ch]])\<rparr> in
      if int ?c \<ge> int n - 1 then t2\<lparr>pending_wrap := True\<rparr> else t2\<lparr>cursor_col := int ?c + 1\<rparr>)"
    using plain_width[OF assms(3)] clear_blank[OF t(1,2,4) assms(2) old] cell_at_int[OF t(1,2,4) assms(2)] old new t(2,7,8,9,12)
    by (simp add: put_char_def ASSERT_MSG_def utf8_to_codepoint_def byte_at_def byte_def put_narrow_def set_cell_def
        write_cell_def glyph_def blank_def Let_def)
  have "process_byte ch t = put_char [ch] t"
    using assms(3) t(10,11) by (auto simp: process_byte_def in_state_def process_ground_def plain_char_def byte_def)
  then show ?thesis
    using put t assms(2) by (auto simp: typed_def Let_def fits_def)
qed

lemma typed_newline:
  assumes "typed t rows n ls cur" "Suc (length ls) < rows"
  shows "\<exists>t1. process_byte nl t = Ret t1 \<and> typed t1 rows n (ls @ [cur]) []"
proof -
  have "process_byte nl t = Ret (t\<lparr>cursor_col := 0, pending_wrap := False, cursor_row := int (length ls) + 1\<rparr>)"
    using assms by (simp add: process_byte_def in_state_def process_ground_def byte_def do_linefeed_def typed_def)
  then show ?thesis
    using assms page_next_line[of "ls @ [cur]" rows n] by (auto simp: typed_def page_def fits_def)
qed

lemma typed_line:
  assumes "typed t rows n ls cur" "length (cur @ l) \<le> n" "list_all plain_char l"
  shows "\<exists>t1. each process_byte l t = Ret t1 \<and> typed t1 rows n ls (cur @ l)"
  using assms
proof (induction l arbitrary: t cur)
  case (Cons ch l)
  obtain t1 where t1: "process_byte ch t = Ret t1" "typed t1 rows n ls (cur @ [ch])"
    using typed_char[OF Cons(2)] Cons(3,4) by auto
  from Cons(1)[OF t1(2)] Cons(3,4) obtain t2 where "each process_byte l t1 = Ret t2" "typed t2 rows n ls (cur @ ch # l)" by auto
  then show ?case using t1(1) by simp
qed auto

section \<open>Writing lines\<close>

fun join_lines :: "string list \<Rightarrow> string" where
  "join_lines [] = []"
| "join_lines [l] = l"
| "join_lines (l # ls) = l @ nl # join_lines ls"

lemma typed_lines:
  assumes "typed t rows n shown []" "ls \<noteq> []" "length shown + length ls \<le> rows" "fits n ls" "list_all (list_all plain_char) ls"
  shows "\<exists>t1. each process_byte (join_lines ls) t = Ret t1 \<and> typed t1 rows n (shown @ butlast ls) (last ls)"
  using assms
proof (induction ls arbitrary: t shown rule: join_lines.induct)
  case (2 l)
  then show ?case using typed_line[of t rows n shown "[]" l] by (simp add: fits_def)
next
  case (3 l l1 ls)
  obtain t1 where t1: "each process_byte l t = Ret t1" "typed t1 rows n shown l"
    using typed_line[OF 3(2), of l] 3(5,6) by (auto simp: fits_def)
  obtain t2 where t2: "process_byte nl t1 = Ret t2" "typed t2 rows n (shown @ [l]) []"
    using typed_newline[OF t1(2)] 3(4) by auto
  obtain t3 where "each process_byte (join_lines (l1 # ls)) t2 = Ret t3"
    "typed t3 rows n ((shown @ [l]) @ butlast (l1 # ls)) (last (l1 # ls))"
    using 3(1)[OF t2(2)] 3(4-6) by (auto simp: fits_def)
  then show ?case using t1 t2 by (simp add: each_append)
qed simp

section \<open>A new screen is blank\<close>

text \<open>Cells that are blank stay blank, and those of the columns or rows cleared become so.\<close>

definition blanked :: "nat set \<Rightarrow> ts_render \<Rightarrow> ts_render \<Rightarrow> bool" where
  "blanked is t t1 \<longleftrightarrow> (\<exists>cs. t1 = t\<lparr>cells := cs\<rparr> \<and> length cs = length (cells t)
     \<and> (\<forall>i < length cs. cells t ! i = blank \<or> i \<in> is \<longrightarrow> cs ! i = blank))"

lemma blankedI:
  "length cs = length (cells t) \<Longrightarrow> (\<And>i. i < length cs \<Longrightarrow> cells t ! i = blank \<or> i \<in> is \<Longrightarrow> cs ! i = blank)
     \<Longrightarrow> blanked is t (t\<lparr>cells := cs\<rparr>)"
  by (auto simp: blanked_def)

lemma blanked_trans: "blanked a t t1 \<Longrightarrow> blanked b t1 t2 \<Longrightarrow> blanked (a \<union> b) t t2"
proof -
  assume "blanked a t t1" "blanked b t1 t2"
  obtain cs where c1: "t1 = t\<lparr>cells := cs\<rparr>" "length cs = length (cells t)"
    "\<And>i. i < length cs \<Longrightarrow> cells t ! i = blank \<or> i \<in> a \<Longrightarrow> cs ! i = blank"
    using \<open>blanked a t t1\<close> unfolding blanked_def by blast
  obtain ds where c2: "t2 = t1\<lparr>cells := ds\<rparr>" "length ds = length (cells t1)"
    "\<And>i. i < length ds \<Longrightarrow> cells t1 ! i = blank \<or> i \<in> b \<Longrightarrow> ds ! i = blank"
    using \<open>blanked b t1 t2\<close> unfolding blanked_def by blast
  have "blanked (a \<union> b) t (t\<lparr>cells := ds\<rparr>)" by (rule blankedI) (use c1 c2 in auto)
  then show "blanked (a \<union> b) t t2" using c1(1) c2(1) by simp
qed

lemma blanked_refl: "blanked {} t t"
proof -
  have "t = t\<lparr>cells := cells t\<rparr>" by simp
  then show ?thesis unfolding blanked_def by blast
qed

lemma blanked_each:
  assumes "\<And>x t1. x \<in> set xs \<Longrightarrow> t_rows t1 = t_rows t \<Longrightarrow> t_cols t1 = t_cols t \<Longrightarrow> length (cells t1) = length (cells t)
     \<Longrightarrow> yields (f x t1) (blanked (is x) t1)"
  shows "yields (each f xs t) (blanked (\<Union>x \<in> set xs. is x) t)"
  using assms
proof (induction xs arbitrary: t)
  case (Cons x xs)
  have first: "yields (f x t) (blanked (is x) t)" by (rule Cons(2)) simp_all
  show ?case
    unfolding each.simps
  proof (rule yields_and_then[OF first])
    fix t1
    assume b: "blanked (is x) t t1"
    then have s: "t_rows t1 = t_rows t" "t_cols t1 = t_cols t" "length (cells t1) = length (cells t)"
      by (auto simp: blanked_def)
    have "yields (each f xs t1) (blanked (\<Union>x \<in> set xs. is x) t1)"
      by (rule Cons(1)) (use Cons(2) s in simp)
    then show "yields (each f xs t1) (blanked (\<Union>x \<in> set (x # xs). is x) t)"
      using blanked_trans[OF b] by (auto elim: yields_mono)
  qed
qed (simp add: blanked_refl)

lemma set_blank:
  assumes "t_rows t = int rows" "t_cols t = int n" "r < rows" "c < n"
  shows "yields (set_cell clear_cell (int r) (int c) t) (blanked {r * n + c} t)"
proof -
  have "set_cell clear_cell (int r) (int c) t = Ret (t\<lparr>cells := (cells t)[r * n + c := blank]\<rparr>)"
    using assms by (simp add: set_cell_def cell_at_int clear_cell_def blank_def)
  moreover have "blanked {r * n + c} t (t\<lparr>cells := (cells t)[r * n + c := blank]\<rparr>)"
  proof (rule blankedI)
    show "(cells t)[r * n + c := blank] ! i = blank"
      if "i < length ((cells t)[r * n + c := blank])" "cells t ! i = blank \<or> i \<in> {r * n + c}" for i
      using that by (cases "i = r * n + c") simp_all
  qed simp
  ultimately show ?thesis by simp
qed

lemma ints_upto: "[0..int n - 1] = map int [0..<n]"
  by (rule nth_equalityI) simp_all

lemma row_blank:
  assumes "t_rows t = int rows" "t_cols t = int n" "r < rows"
  shows "yields (clear_row (int r) t) (blanked {r * n..<r * n + n} t)"
proof -
  have "yields (each (\<lambda>c. set_cell clear_cell (int r) c) [0..t_cols t - 1] t)
     (blanked (\<Union>c \<in> set [0..t_cols t - 1]. {r * n + nat c}) t)"
    by (rule blanked_each) (use assms set_blank[where rows = rows and n = n and r = r] in \<open>auto simp: ints_upto\<close>)
  moreover have "(\<Union>c \<in> set [0..t_cols t - 1]. {r * n + nat c}) = {r * n..<r * n + n}"
    using assms(2) by (auto simp: ints_upto image_iff) (metis le_add_diff_inverse nat_add_left_cancel_less nat_int atLeastLessThan_iff le0)
  ultimately show ?thesis by (simp add: clear_row_def)
qed

lemma rows_blank:
  assumes "t_rows t = int rows" "t_cols t = int n" "length (cells t) = rows * n"
  shows "yields (each clear_row [0..t_rows t - 1] t) (\<lambda>t1. t1 = t\<lparr>cells := replicate (rows * n) blank\<rparr>)"
proof -
  have "yields (each clear_row [0..t_rows t - 1] t) (blanked (\<Union>r \<in> set [0..t_rows t - 1]. {nat r * n..<nat r * n + n}) t)"
    by (rule blanked_each) (use assms row_blank[where rows = rows and n = n] in \<open>auto simp: ints_upto\<close>)
  moreover have "t1 = t\<lparr>cells := replicate (rows * n) blank\<rparr>"
    if b: "blanked (\<Union>r \<in> set [0..t_rows t - 1]. {nat r * n..<nat r * n + n}) t t1" for t1
  proof -
    have "i \<in> (\<Union>r \<in> set [0..t_rows t - 1]. {nat r * n..<nat r * n + n})" if "i < rows * n" for i
    proof -
      have "0 < n" using that by (cases n) simp_all
      then have "i div n < rows" "i div n * n \<le> i" "i < i div n * n + n"
        using that dividend_less_div_times[of n i] by (simp_all add: less_mult_imp_div_less add.commute)
      then show ?thesis using assms(1) by (auto simp: ints_upto intro!: bexI[of _ "i div n"])
    qed
    moreover obtain cs where cs: "t1 = t\<lparr>cells := cs\<rparr>" "length cs = rows * n"
      "\<And>i. i < length cs \<Longrightarrow> i \<in> (\<Union>r \<in> set [0..t_rows t - 1]. {nat r * n..<nat r * n + n}) \<Longrightarrow> cs ! i = blank"
      using b assms(3) unfolding blanked_def by auto
    ultimately have "cs = replicate (rows * n) blank" by (intro nth_equalityI) simp_all
    then show ?thesis using cs(1) by simp
  qed
  ultimately show ?thesis by (rule yields_mono)
qed

lemma blank_page: "page rows n [[]] = replicate (rows * n) blank" if "0 < rows"
proof -
  have "page_rows rows n [[]] = replicate rows (replicate n blank)"
    using that by (cases rows) (simp_all add: page_rows_def row_of_def)
  moreover have "concat (replicate k (replicate n blank)) = replicate (k * n) blank" for k
    by (induction k) (simp_all add: replicate_add)
  ultimately show ?thesis by (simp add: page_def)
qed

lemma create_typed:
  assumes "0 < rows" "2 \<le> n"
  shows "yields (ts_render_create (int rows) (int n)) (\<lambda>t. typed t rows n [] [])"
  unfolding ts_render_create_def ts_render_reset_def yields_ASSERT
proof (intro conjI)
  show "int rows > 0" "int n > 0" using assms by simp_all
  let ?t = "\<lparr>t_rows = int rows, t_cols = int n,
         cells = replicate (nat (int rows * int n)) \<lparr>c_ch = [], c_len = 0, c_style = \<lparr>fg = 0, bg = 0, attrs = 0\<rparr>\<rparr>,
         cursor_row = 0, cursor_col = 0, t_state = STATE_GROUND, params = [], param_val = 0, param_has_val = False,
         intermediate = nul, scroll_top = 0, scroll_bottom = 0, pending_wrap = False, saved_cursor_row = 0,
         saved_cursor_col = 0, utf8_buf = [], utf8_expect = 0, tab_stops = replicate (nat ((int n + 7) div 8)) 0,
         preserve_sgr = False, active_style = \<lparr>fg = 0, bg = 0, attrs = 0\<rparr>\<rparr>"
  have l: "length (cells ?t) = rows * n" by (simp add: nat_mult_distrib)
  show "yields (and_then (each clear_row [0..t_rows ?t - 1] ?t) (\<lambda>t1.
       Ret (init_tab_stops (t1\<lparr>cursor_row := 0, cursor_col := 0, t_state := STATE_GROUND, params := [], param_val := 0,
         param_has_val := False, intermediate := nul, scroll_top := 0, scroll_bottom := t_rows t1 - 1,
         pending_wrap := False, saved_cursor_row := 0, saved_cursor_col := 0, utf8_buf := [], utf8_expect := 0,
         active_style := no_style\<rparr>)))) (\<lambda>t. typed t rows n [] [])"
    by (rule yields_and_then[OF rows_blank[OF _ _ l]])
       (use assms blank_page[OF assms(1), of n] in \<open>simp_all add: typed_def fits_def init_tab_stops_def\<close>)
qed

section \<open>The snapshot of a page\<close>

definition shown_line :: "nat \<Rightarrow> string \<Rightarrow> bool" where
  "shown_line n l \<longleftrightarrow> length l \<le> n \<and> list_all plain_char l \<and> (l \<noteq> [] \<longrightarrow> last l \<noteq> sp)"

lemma prints_cells [simp]: "prints (glyph ch) = (ch \<noteq> sp)" "\<not> prints blank"
  by (auto simp: prints_def glyph_def blank_def is_continuation_def)

lemma last_col_row:
  assumes "shown_line n l"
  shows "last_col (row_of n l) = int (length l) - 1"
proof -
  have "dropWhile (\<lambda>c. \<not> prints c) (rev (row_of n l)) = dropWhile (\<lambda>c. \<not> prints c) (rev (map glyph l))"
    by (simp add: row_of_def dropWhile_append)
  also have "... = rev (map glyph l)"
    using assms by (cases l rule: rev_cases) (simp_all add: shown_line_def)
  finally show ?thesis by (simp add: last_col_def)
qed

lemma logical_row:
  assumes "shown_line n l"
  shows "logical_cells (row_of n l) = map glyph l"
  unfolding logical_cells_def last_col_row[OF assms]
  by (auto simp: row_of_def filter_id_conv is_continuation_def glyph_def)

lemma glyph_codepoint: "cell_codepoint (glyph ch) = byte ch"
  by (simp add: cell_codepoint_def glyph_def utf8_to_codepoint_def byte_at_def byte_def)

lemma glyph_text: "cell_text (glyph ch) 0 = [ch]"
  by (simp add: cell_text_def glyph_def)

lemma plain_cells:
  "snapshot_cells junk False buf_size (map (\<lambda>ch. (glyph ch, 0)) l) cur out = Ret r \<Longrightarrow> r = (out @ l, cur)"
proof (induction l arbitrary: out)
  case (Cons ch l)
  then have "snapshot_cells junk False buf_size (map (\<lambda>ch. (glyph ch, 0)) l) cur (out @ [ch]) = Ret r"
    by (simp add: Let_def glyph_text ASSERT_MSG_def split: if_splits)
  from Cons(1)[OF this] show ?case by simp
qed simp

lemma page_row_cells:
  assumes "t_cols t = int n" "cells t = page rows n ls" "length ls \<le> rows" "fits n ls" "r < rows"
  shows "row_cells (int r) t = (if r < length ls then row_of n (ls ! r) else row_of n [])"
proof -
  have "take n (drop (r * n) (concat (page_rows rows n ls))) = page_rows rows n ls ! r"
    by (rule concat_slice) (use assms page_rows_lengths length_page_rows in auto)
  then show ?thesis using assms by (simp add: row_cells_def page_def page_rows_def nth_append flip: of_nat_mult)
qed

lemma plain_row:
  assumes "row_cells row t = row_of n l" "shown_line n l" "\<not> preserve_sgr t" "sn_types e"
    "snapshot_row e t buf_size row out = Ret out1"
  shows "out1 = out @ l @ (if row < t_rows t - 1 \<or> l \<noteq> [] then [nl] else [])"
proof -
  have cps: "map cell_codepoint (map glyph l) = map byte l" by (simp add: glyph_codepoint)
  let ?r = "nbs_ts_bidi_reorder_with_levels (sn_bidi e) (sn_types e) (map byte l) 0"
  have cls: "map (\<lambda>li. (map glyph l ! li, (case snd ?r of Some ls \<Rightarrow> ls | None \<Rightarrow> map (sn_levels e) [0..<length (map glyph l)]) ! li))
      (case fst ?r of Some vm \<Rightarrow> vm | None \<Rightarrow> []) = map (\<lambda>ch. (glyph ch, 0)) l"
  proof (cases "l = []")
    case True
    then show ?thesis by (simp add: nbs_ts_bidi_reorder_with_levels_def nbs_ts_bidi_reorder_def)
  next
    case False
    have "list_all ltr_cp (map byte l)" using assms(2) low_ltr by (auto simp: shown_line_def list_all_iff plain_char_def)
    then show ?thesis
      using bidi_ltr[of "map byte l" "sn_bidi e"] False assms(4) by (auto intro!: nth_equalityI)
  qed
  have last: "last_col (row_cells row t) \<ge> 0 \<longleftrightarrow> l \<noteq> []" using last_col_row[OF assms(2)] assms(1) by (cases l) simp_all
  obtain p where p: "snapshot_cells (sn_junk e) False buf_size (map (\<lambda>ch. (glyph ch, 0)) l) no_style out = Ret p"
    "(case p of (o1, cur) \<Rightarrow> o1 @ (if row < t_rows t - 1 \<or> last_col (row_cells row t) \<ge> 0 then [nl] else [])) = out1"
    using assms(5) unfolding snapshot_row_def Let_def assms(1) logical_row[OF assms(2)] cps cls
    using assms(3) by (cases "snapshot_cells (sn_junk e) False buf_size (map (\<lambda>ch. (glyph ch, 0)) l) no_style out")
      (auto simp: case_prod_beta)
  show ?thesis using p plain_cells[OF p(1)] by (auto simp: last)
qed

definition line_at :: "string list \<Rightarrow> nat \<Rightarrow> string" where
  "line_at ls r = (if r < length ls then ls ! r else [])"

definition row_text :: "nat \<Rightarrow> string list \<Rightarrow> nat \<Rightarrow> string" where
  "row_text rows ls r = line_at ls r @ (if int r < int rows - 1 \<or> line_at ls r \<noteq> [] then [nl] else [])"

lemma plain_rows:
  assumes "t_rows t = int rows" "t_cols t = int n" "cells t = page rows n ls" "length ls \<le> rows" "\<forall>l \<in> set ls. shown_line n l"
    "\<not> preserve_sgr t" "sn_types e" "\<forall>r \<in> set rs. r < rows"
    "each (snapshot_row e t buf_size) (map int rs) out = Ret out1"
  shows "out1 = out @ concat (map (row_text rows ls) rs)"
  using assms(8,9)
proof (induction rs arbitrary: out)
  case (Cons r rs)
  have fit: "fits n ls" using assms(5) by (simp add: fits_def shown_line_def)
  obtain out2 where o: "snapshot_row e t buf_size (int r) out = Ret out2" "each (snapshot_row e t buf_size) (map int rs) out2 = Ret out1"
    using Cons(3) by (cases "snapshot_row e t buf_size (int r) out") auto
  have "row_cells (int r) t = row_of n (line_at ls r)"
    using page_row_cells[OF assms(2,3,4) fit] Cons(2) by (simp add: line_at_def)
  moreover have "shown_line n (line_at ls r)" using assms(5) by (simp add: line_at_def shown_line_def)
  ultimately have "out2 = out @ row_text rows ls r"
    using plain_row[OF _ _ assms(6,7) o(1)] assms(1) by (simp add: row_text_def)
  then show ?case using Cons(1)[OF _ o(2)] Cons(2) by simp
qed simp

lemma trim_replicate:
  "c \<noteq> nl \<Longrightarrow> trim_newlines (replicate k nl @ nl # c # cs) = nl # c # cs"
proof (induction k)
  case (Suc k)
  then show ?case by (cases k) simp_all
qed simp

lemma all_row_texts:
  assumes "ls \<noteq> []" "length ls \<le> rows" "last ls \<noteq> []"
  shows "concat (map (row_text rows ls) [0..<rows])
    = concat (map (\<lambda>l. l @ [nl]) ls) @ replicate (rows - length ls - 1) nl"
proof -
  have split: "[0..<rows] = [0..<length ls] @ [length ls..<rows]" using assms(2) by (metis le_add_diff_inverse upt_add_eq_append zero_le)
  have a: "map (row_text rows ls) [0..<length ls] = map (\<lambda>l. l @ [nl]) ls"
  proof (rule nth_equalityI)
    fix r
    assume "r < length (map (row_text rows ls) [0..<length ls])"
    then have r: "r < length ls" by simp
    have "int r < int rows - 1 \<or> ls ! r \<noteq> []"
    proof (cases "Suc r < rows")
      case False
      then have "r = length ls - 1" using r assms(2) by linarith
      then show ?thesis using assms(1,3) by (simp add: last_conv_nth)
    qed simp
    then show "map (row_text rows ls) [0..<length ls] ! r = map (\<lambda>l. l @ [nl]) ls ! r"
      using r by (simp add: row_text_def line_at_def)
  qed simp
  have "concat (map (row_text rows ls) [length ls..<m]) = replicate (if m = rows then rows - length ls - 1 else m - length ls) nl"
    if "length ls \<le> m" "m \<le> rows" for m
    using that
  proof (induction m)
    case (Suc m)
    show ?case
    proof (cases "length ls \<le> m")
      case True
      then have "concat (map (row_text rows ls) [length ls..<m]) = replicate (m - length ls) nl" using Suc by simp
      moreover have "row_text rows ls m = (if Suc m = rows then [] else [nl])" using True Suc by (auto simp: row_text_def line_at_def)
      ultimately show ?thesis using True by (auto simp: Suc_diff_le replicate_append_same)
    qed (use Suc in simp)
  qed (use assms in simp)
  from this[OF assms(2) order_refl] show ?thesis by (simp add: split a)
qed

lemma trim_page:
  assumes "ls \<noteq> []" "last ls \<noteq> []" "list_all plain_char (last ls)"
  shows "rev (trim_newlines (rev (concat (map (\<lambda>l. l @ [nl]) ls) @ replicate k nl))) = concat (map (\<lambda>l. l @ [nl]) ls)"
proof -
  obtain l0 l where l: "ls = l0 @ [l]" using assms(1) by (cases ls rule: rev_cases) auto
  obtain w c where w: "l = w @ [c]" using assms(2) l by (cases l rule: rev_cases) auto
  have "c \<noteq> nl" using assms(3) l w by (auto simp: plain_char_def byte_def)
  then show ?thesis unfolding l w by (simp add: trim_replicate)
qed

text \<open>C22: Plain text is printed as it is.  Lines of ASCII text that fit the screen, without spaces at their
  ends and the last of them not empty, written one after the other to a new screen, come back as
  these lines, each with its newline: the emulator, the bidirectional algorithm and the trimming of
  the snapshot together are the identity on them.\<close>
theorem render_plain_text:
  assumes "2 \<le> cols" "ls \<noteq> []" "length ls \<le> rows" "\<forall>l \<in> set ls. shown_line cols l" "last ls \<noteq> []"
    "sn_alloc e" "sn_types e"
  shows "\<exists>t t1. ts_render_create (int rows) (int cols) = Ret t \<and> ts_render_feed (join_lines ls) t = Ret t1
    \<and> ts_render_snapshot e t1 = Ret (Some (concat (map (\<lambda>l. l @ [nl]) ls)))"
proof -
  have pos: "0 < rows" using assms(2,3) by (cases ls) auto
  have fit: "fits cols ls" and plain: "list_all (list_all plain_char) ls"
    using assms(4) by (auto simp: fits_def shown_line_def list_all_iff)
  obtain t where t: "ts_render_create (int rows) (int cols) = Ret t" "typed t rows cols [] []"
    using create_typed[OF pos assms(1)] by (auto elim: yieldsE)
  obtain t1 where t1: "ts_render_feed (join_lines ls) t = Ret t1" "typed t1 rows cols (butlast ls) (last ls)"
    using typed_lines[OF t(2) assms(2) _ fit plain] assms(3) by (auto simp: ts_render_feed_def)
  have ok: "term_ok t1"
    using create_ok[of "int rows" "int cols"] feed_kept[of t "join_lines ls"] t(1) t1(1) pos assms(1) by (simp add: kept_def)
  have shape: "t_rows t1 = int rows" "t_cols t1 = int cols" "cells t1 = page rows cols ls" "\<not> preserve_sgr t1"
    using t1(2) assms(2) by (simp_all add: typed_def)
  obtain buf where buf: "each (snapshot_row e t1 (snapshot_size t1)) (map int [0..<rows]) [] = Ret buf"
    using rows_yields[of t1 e "[]" "map int [0..<rows]" "snapshot_size t1"] screen_facts[OF term_screen[OF ok]] shape
    by (auto simp: snapshot_size_rooms junk_ok_def elim: yieldsE)
  have "buf = concat (map (\<lambda>l. l @ [nl]) ls) @ replicate (rows - length ls - 1) nl"
    using plain_rows[OF shape(1-3) assms(3,4) shape(4) assms(7) _ buf] all_row_texts[OF assms(2,3,5)] by simp
  moreover have last: "list_all plain_char (last ls)" using plain assms(2) last_in_set[of ls] by (auto simp: list_all_iff)
  ultimately have "ts_render_snapshot e t1 = Ret (Some (concat (map (\<lambda>l. l @ [nl]) ls)))"
    using trim_page[OF assms(2,5) last] assms(6) buf shape(1)
    unfolding ts_render_snapshot_def by (simp add: ints_upto del: rev_append)
  then show ?thesis using t(1) t1(1) by blast
qed

theorem render_plain_text_witness:
  "\<exists>t t1. ts_render_create (int 3) (int 4) = Ret t \<and> ts_render_feed (join_lines [''a b'', [], ''(cd)'']) t = Ret t1
    \<and> ts_render_snapshot \<lparr>sn_alloc = True, sn_bidi = True, sn_types = True, sn_levels = (\<lambda>_. 0), sn_junk = []\<rparr> t1
        = Ret (Some (concat (map (\<lambda>l. l @ [nl]) [''a b'', [], ''(cd)''])))"
  by (rule render_plain_text) (simp_all add: shown_line_def plain_char_def byte_def)

end
