(* ===== verification/SideText.thy ===== *)
theory SideText
  imports Mentions "HOL-Library.Word"
begin

text \<open>
  The text functions of the sidecar: stripping a terminal's escape sequences
  (src/src/nbs-sidecar/strip_ansi.c), defusing mentions (mention_escape.c), recognising what the
  screen shows (detect.c) and the hash of the screen (hash.c).
\<close>

unbundle bit_operations_syntax

definition uchar :: "char \<Rightarrow> nat" where
  "uchar c = of_char c"

section \<open>Stripping escape sequences\<close>

text \<open>
  The function works in place with a read and a write pointer.  Here \<open>out\<close> is what was written
  and \<open>s\<close> what is left to read; of \<open>len\<close> bytes, \<open>len - length s\<close> are read.  The written part never
  reaches the unread one, which is the assertion of the loop.  The parameter of a sequence is a
  32-bit \<open>int\<close>.
\<close>

definition csi_middle :: "char \<Rightarrow> bool" where
  "csi_middle c \<longleftrightarrow> uchar c < 0x40 \<or> uchar c > 0x7E"

definition csi_digit :: "32 word \<times> bool \<Rightarrow> char \<Rightarrow> 32 word \<times> bool" where
  "csi_digit st c =
     (if isdigit c then (fst st * 10 + of_nat (uchar c - uchar (CHR ''0'')), True)
      else if c = CHR '';'' then (fst st, False) else st)"

text \<open>The spaces that a cursor movement to the right becomes; \<open>gap\<close> is the room before the next unread byte.\<close>

definition right_spaces :: "string \<Rightarrow> string \<Rightarrow> int \<Rightarrow> nat" where
  "right_spaces ps rest gap =
     (let (param, has_param) = foldl csi_digit (0, False) ps in
      if take 1 rest = ''C'' \<and> (has_param \<or> ps = []) then
        (let n0 = (if has_param then sint param else 1); n1 = (if n0 > gap then gap else n0);
             n2 = (if n1 > 8 then 8 else n1) in nat n2)
      else 0)"

fun osc_rest :: "string \<Rightarrow> string" where
  "osc_rest [] = []"
| "osc_rest (c # s) =
     (if c = CHR 0x07 then s
      else if c = CHR 0x1B \<and> take 1 s = [CHR 0x5C] then drop 1 s
      else osc_rest s)"

lemma length_osc_rest: "length (osc_rest s) \<le> length s"
  by (induction s) auto

definition control_byte :: "char \<Rightarrow> bool" where
  "control_byte c \<longleftrightarrow> uchar c < 0x20 \<and> c \<noteq> nl \<and> c \<noteq> CHR 0x09 \<or> uchar c = 0x7F"

definition is_lead :: "char \<Rightarrow> bool" where
  "is_lead c \<longleftrightarrow> 0xC2 \<le> uchar c \<and> uchar c \<le> 0xF4"

definition is_cont :: "char \<Rightarrow> bool" where
  "is_cont c \<longleftrightarrow> uchar c AND 0xC0 = 0x80"

definition expected_conts :: "char \<Rightarrow> nat" where
  "expected_conts c = (if uchar c \<le> 0xDF then 1 else if uchar c \<le> 0xEF then 2 else 3)"

function strip_loop :: "nat \<Rightarrow> string \<Rightarrow> string \<Rightarrow> string outcome" where
  "strip_loop len [] out = Ret out"
| "strip_loop len (c # s) out =
     ASSERT_MSG (length out \<le> len - length (c # s))
      (if c = CHR 0x1B then
         if take 1 s = ''['' then
           (let ps = takeWhile csi_middle (drop 1 s); rest = dropWhile csi_middle (drop 1 s);
                gap = int (len - length rest) + 1 - int (length out)
            in strip_loop len (drop 1 rest) (out @ replicate (right_spaces ps rest gap) sp))
         else if take 1 s = '']'' then strip_loop len (osc_rest (drop 1 s)) out
         else if s \<noteq> [] \<and> 0x20 \<le> uchar (hd s) \<and> uchar (hd s) \<le> 0x7E then strip_loop len (drop 1 s) out
         else strip_loop len s out
       else if control_byte c then strip_loop len s out
       else if is_lead c then
         (let conts = takeWhile is_cont (take (expected_conts c) s)
          in strip_loop len (drop (length conts) s) (out @ c # conts))
       else if 0x80 \<le> uchar c \<and> uchar c \<le> 0x9F then strip_loop len s out
       else strip_loop len s (out @ [c]))"
  by pat_completeness auto
termination
proof (relation "measure (\<lambda>(len, s, out). length s)", goal_cases)
  case (2 len c s out ps rest gap)
  have "length rest \<le> length s" unfolding 2(4) using length_dropWhile_le[of csi_middle "drop 1 s"] by simp
  then show ?case by simp
next
  case (3 len c s out)
  show ?case using length_osc_rest[of "drop 1 s"] by simp
qed auto

definition strip_ansi :: "string \<Rightarrow> string outcome" where
  "strip_ansi s =
     and_then (strip_loop (length (cstr s)) (cstr s) [])
       (\<lambda>out. ASSERT_MSG (length out \<le> length (cstr s)) (Ret out))"

text \<open>What may be left: newlines, tabs and bytes that are no control characters.\<close>

definition shown_byte :: "char \<Rightarrow> bool" where
  "shown_byte c \<longleftrightarrow> \<not> control_byte c"

lemma cont_shown: "is_cont c \<Longrightarrow> shown_byte c"
proof -
  have "uchar c AND 0xC0 \<le> uchar c"
    using AND_upper1[of "int (uchar c)" "0xC0"] by (metis of_nat_0_le_iff of_nat_and_eq of_nat_le_iff of_nat_numeral)
  then show "is_cont c \<Longrightarrow> shown_byte c" by (simp add: is_cont_def shown_byte_def control_byte_def)
qed

lemma right_spaces_gap: "0 \<le> gap \<Longrightarrow> int (right_spaces ps rest gap) \<le> gap"
  by (auto simp: right_spaces_def Let_def split: prod.splits)

lemma right_spaces_end: "right_spaces ps [] gap = 0"
  by (simp add: right_spaces_def split: prod.splits)

lemma spaces_shown: "list_all shown_byte (replicate n sp)"
  by (induction n) (simp_all add: shown_byte_def control_byte_def uchar_def)

lemma strip_loop_shown:
  assumes "length out + length s \<le> len" "list_all shown_byte out"
  shows "\<exists>out1. strip_loop len s out = Ret out1 \<and> length out1 \<le> len \<and> list_all shown_byte out1"
  using assms
proof (induction len s out rule: strip_loop.induct)
  case (2 len c s out)
  have ok: "length out \<le> len - length (c # s)" using 2(9) by simp
  show ?case
  proof (cases "c = CHR 0x1B")
    case esc: True
    consider (csi) "take 1 s = ''[''" | (osc) "take 1 s \<noteq> ''[''" "take 1 s = '']''"
      | (two) "take 1 s \<noteq> ''[''" "take 1 s \<noteq> '']''" "s \<noteq> [] \<and> 0x20 \<le> uchar (hd s) \<and> uchar (hd s) \<le> 0x7E"
      | (one) "take 1 s \<noteq> ''[''" "take 1 s \<noteq> '']''" "\<not> (s \<noteq> [] \<and> 0x20 \<le> uchar (hd s) \<and> uchar (hd s) \<le> 0x7E)"
      by blast
    then show ?thesis
    proof cases
      case csi
      let ?ps = "takeWhile csi_middle (drop 1 s)" and ?rest = "dropWhile csi_middle (drop 1 s)"
      let ?gap = "int (len - length ?rest) + 1 - int (length out)"
      let ?n = "right_spaces ?ps ?rest ?gap"
      have r: "length ?rest \<le> length s - 1" using length_dropWhile_le[of csi_middle "drop 1 s"] by simp
      have n: "int ?n \<le> ?gap" by (rule right_spaces_gap) (use 2(9) r in simp)
      have "length (out @ replicate ?n sp) + length (drop 1 ?rest) \<le> len"
      proof (cases "?rest = []")
        case True
        have "?n = 0" unfolding True by (rule right_spaces_end)
        then show ?thesis unfolding True using 2(9) by simp
      next
        case False
        then obtain d r1 where "?rest = d # r1" by (cases ?rest) auto
        then show ?thesis using n r 2(9) by simp
      qed
      moreover have "list_all shown_byte (out @ replicate ?n sp)"
        using 2(10) spaces_shown by simp
      ultimately show ?thesis using 2(1)[OF esc csi refl refl refl] esc csi ok by (simp add: Let_def ASSERT_MSG_def)
    next
      case osc
      have "length out + length (osc_rest (drop 1 s)) \<le> len" using length_osc_rest[of "drop 1 s"] 2(9) by simp
      then show ?thesis using 2(2)[OF esc osc _ 2(10)] esc osc ok by (simp add: ASSERT_MSG_def)
    next
      case two
      then show ?thesis using 2(3)[OF esc two _ 2(10)] esc ok 2(9) by (simp add: ASSERT_MSG_def)
    next
      case one
      then show ?thesis using 2(4)[OF esc one _ 2(10)] esc ok 2(9) by (auto simp: ASSERT_MSG_def)
    qed
  next
    case plain: False
    show ?thesis
    proof (cases "control_byte c")
      case True
      then show ?thesis using 2(5)[OF plain True _ 2(10)] plain ok 2(9) by (simp add: ASSERT_MSG_def)
    next
      case shown: False
      show ?thesis
      proof (cases "is_lead c")
        case True
        let ?cs = "takeWhile is_cont (take (expected_conts c) s)"
        have "length ?cs \<le> length s" using length_takeWhile_le[of is_cont "take (expected_conts c) s"] by simp
        then have "length (out @ c # ?cs) + length (drop (length ?cs) s) \<le> len" using 2(9) by simp
        moreover have "list_all shown_byte (out @ c # ?cs)"
          using 2(10) shown cont_shown by (auto simp: list_all_iff shown_byte_def dest: set_takeWhileD)
        ultimately show ?thesis using 2(6)[OF plain shown True refl] plain shown True ok by (simp add: Let_def ASSERT_MSG_def)
      next
        case other: False
        show ?thesis
        proof (cases "0x80 \<le> uchar c \<and> uchar c \<le> 0x9F")
          case True
          then show ?thesis using 2(7)[OF plain shown other True _ 2(10)] plain shown other ok 2(9) by (simp add: ASSERT_MSG_def)
        next
          case False
          moreover have "list_all shown_byte (out @ [c])" using 2(10) shown by (simp add: shown_byte_def list_all_iff)
          ultimately show ?thesis using 2(8)[OF plain shown other False] plain shown other ok 2(9) by (auto simp: ASSERT_MSG_def)
        qed
      qed
    qed
  qed
qed simp

section \<open>Defusing mentions\<close>

definition is_mention_handle_char :: "char \<Rightarrow> bool" where
  "is_mention_handle_char c \<longleftrightarrow> isalnum c \<or> c = CHR ''_'' \<or> c = CHR ''-''"

definition AT_REPLACEMENT :: char where
  "AT_REPLACEMENT = CHR ''#''"

definition sanitise_at_signs :: "string \<Rightarrow> string outcome" where
  "sanitise_at_signs content =
     (let out = map (\<lambda>c. if c = CHR ''@'' then AT_REPLACEMENT else c) (cstr content)
      in ASSERT_MSG (list_all (\<lambda>c. c \<noteq> CHR ''@'') out) (Ret out))"

definition needs_escape :: "char \<Rightarrow> string \<Rightarrow> bool" where
  "needs_escape c s \<longleftrightarrow> c = CHR ''@'' \<and> s \<noteq> [] \<and> is_mention_handle_char (hd s)"

fun count_escapes :: "string \<Rightarrow> nat" where
  "count_escapes [] = 0"
| "count_escapes (c # s) = (if needs_escape c s then 1 else 0) + count_escapes s"

fun escape_loop :: "string \<Rightarrow> string" where
  "escape_loop [] = []"
| "escape_loop (c # s) = c # (if needs_escape c s then [CHR 0x5C] else []) @ escape_loop s"

definition escape_mentions :: "bool \<Rightarrow> string \<Rightarrow> string outcome" where
  "escape_mentions alloc s =
     ASSERT_MSG alloc
      (ASSERT_MSG (length (escape_loop (cstr s)) = length (cstr s) + count_escapes (cstr s))
        (Ret (escape_loop (cstr s))))"

lemma escape_length: "length (escape_loop s) = length s + count_escapes s"
  by (induction s) auto

lemma escape_hd: "escape_loop s \<noteq> [] \<Longrightarrow> hd (escape_loop s) = hd s"
  by (cases s) auto

lemma escape_no_mentions: "mention_occurrences prev (escape_loop s) = []"
proof (induction s arbitrary: prev)
  case (Cons c s)
  have bs: "\<not> is_handle_char (CHR 0x5C)" by (simp add: is_handle_char_def isalnum_def isdigit_def)
  have quiet: "takeWhile is_handle_char (escape_loop s) = []" if "\<not> needs_escape c s" "c = CHR ''@''"
    using that escape_hd[of s] by (cases "escape_loop s"; cases s)
      (auto simp: needs_escape_def is_mention_handle_char_def is_handle_char_def)
  show ?case using Cons.IH bs quiet by (auto simp: Let_def)
qed simp

lemma no_at_no_mentions: "CHR ''@'' \<notin> set s \<Longrightarrow> mention_occurrences prev s = []"
  by (induction s arbitrary: prev) (auto simp: Let_def)

lemma sanitised_no_at: "CHR ''@'' \<notin> set (map (\<lambda>c. if c = CHR ''@'' then AT_REPLACEMENT else c) s)"
  by (auto simp: AT_REPLACEMENT_def)

text \<open>C25: What the sidecar posts mentions nobody.  Replacing the at signs and escaping the mentions
  both succeed, and in their results the chat's own scan for mentions finds none, so that
  a posted screen cannot trigger the sidecars again; the first keeps the length, the second
  only adds a backslash behind each at sign before a handle.\<close>
theorem posts_mention_nobody:
  assumes "0 < n"
  shows "\<exists>a b. sanitise_at_signs s = Ret a \<and> escape_mentions True s = Ret b
    \<and> bus_extract_mentions a n = Ret [] \<and> bus_extract_mentions b n = Ret []
    \<and> length a = length (cstr s) \<and> length b = length (cstr s) + count_escapes (cstr s)"
proof -
  let ?a = "map (\<lambda>c. if c = CHR ''@'' then AT_REPLACEMENT else c) (cstr s)"
  have "sanitise_at_signs s = Ret ?a"
  proof -
    have "list_all (\<lambda>c. c \<noteq> CHR ''@'') ?a" by (auto simp: list_all_iff AT_REPLACEMENT_def)
    then show ?thesis unfolding sanitise_at_signs_def Let_def ASSERT_MSG_def by (rule if_P)
  qed
  moreover have "escape_mentions True s = Ret (escape_loop (cstr s))"
    by (simp add: escape_mentions_def ASSERT_MSG_def escape_length)
  moreover have "bus_extract_mentions ?a n = Ret []" "bus_extract_mentions (escape_loop (cstr s)) n = Ret []"
    using no_at_no_mentions[OF sanitised_no_at] by (simp_all add: extract_mentions_collect[OF assms] escape_no_mentions)
  ultimately show ?thesis using escape_length by auto
qed

theorem posts_mention_nobody_witness:
  "\<exists>a b. sanitise_at_signs ''hi @bob'' = Ret a \<and> escape_mentions True ''hi @bob'' = Ret b
    \<and> bus_extract_mentions a 16 = Ret [] \<and> bus_extract_mentions b 16 = Ret []
    \<and> length a = length (cstr ''hi @bob'') \<and> length b = length (cstr ''hi @bob'') + count_escapes (cstr ''hi @bob'')"
  by (rule posts_mention_nobody) simp


section \<open>What the screen shows\<close>

datatype dialogue_type = DIALOGUE_NONE | DIALOGUE_PLAN_MODE | DIALOGUE_ASK_MODAL | DIALOGUE_PERMISSIONS | DIALOGUE_PROCEED

record dialogue_response =
  dr_option :: int
  dr_settle :: int

definition contains :: "string \<Rightarrow> string \<Rightarrow> bool" where
  "contains content pat \<longleftrightarrow> strstr pat content \<noteq> None"

definition detect_plan_mode :: "string \<Rightarrow> bool" where
  "detect_plan_mode content \<longleftrightarrow> contains content ''Would you like to proceed?''"

definition blank_char :: "char \<Rightarrow> bool" where
  "blank_char c \<longleftrightarrow> c = sp \<or> c = CHR 0x09"

definition option_line :: "string \<Rightarrow> bool" where
  "option_line l =
     (let p = dropWhile blank_char l;
          p1 = (if take 1 p = ''?'' \<or> take 1 p = ''>'' then drop 1 p else p);
          p2 = dropWhile blank_char p1
      in case p2 of c # d # _ \<Rightarrow> uchar (CHR ''1'') \<le> uchar c \<and> uchar c \<le> uchar (CHR ''4'') \<and> d = CHR ''.'' | _ \<Rightarrow> False)"

function option_lines :: "string \<Rightarrow> bool" where
  "option_lines p = (if p = [] then False else if option_line p then True else option_lines (drop 1 (dropWhile (\<lambda>c. c \<noteq> nl) p)))"
  by pat_completeness auto
termination
proof (relation "measure length", goal_cases)
  case (2 p)
  have "length (dropWhile (\<lambda>c. c \<noteq> nl) p) \<le> length p" by (rule length_dropWhile_le)
  then show ?case using 2(1) by (cases p) auto
qed simp

declare option_lines.simps [simp del]

definition detect_ask_modal :: "string \<Rightarrow> bool" where
  "detect_ask_modal content \<longleftrightarrow> contains content ''Type something.'' \<and> option_lines content"

definition detect_permissions :: "string \<Rightarrow> bool" where
  "detect_permissions content \<longleftrightarrow>
     contains content ''Do you want to proceed?'' \<and> contains content (''don'' @ [CHR 0x27] @ ''t ask again'')"

definition detect_proceed :: "string \<Rightarrow> bool" where
  "detect_proceed content \<longleftrightarrow>
     contains content ''Do you want to proceed?'' \<and> \<not> contains content (''don'' @ [CHR 0x27] @ ''t ask again'')"

definition detect_blocking_dialogue :: "string \<Rightarrow> dialogue_type \<times> dialogue_response option" where
  "detect_blocking_dialogue content =
     (if detect_plan_mode content then (DIALOGUE_PLAN_MODE, Some \<lparr>dr_option = 2, dr_settle = 5\<rparr>)
      else if detect_ask_modal content then (DIALOGUE_ASK_MODAL, Some \<lparr>dr_option = 1, dr_settle = 5\<rparr>)
      else if detect_permissions content then (DIALOGUE_PERMISSIONS, Some \<lparr>dr_option = 2, dr_settle = 2\<rparr>)
      else if detect_proceed content then (DIALOGUE_PROCEED, Some \<lparr>dr_option = 1, dr_settle = 2\<rparr>)
      else (DIALOGUE_NONE, None))"

definition detect_context_stress :: "string \<Rightarrow> bool" where
  "detect_context_stress content \<longleftrightarrow>
     contains content ''Compacting conversation'' \<or> contains content ''Conversation too long''
     \<or> contains content ''Prompt is too long'' \<or> contains content ''Error compacting conversation''"

definition prompt_utf8 :: string where
  "prompt_utf8 = [CHR 0xE2, CHR 0x9D, CHR 0xAF]"

definition detect_prompt_idle :: "string \<Rightarrow> bool" where
  "detect_prompt_idle content \<longleftrightarrow> content \<noteq> [] \<and> contains content prompt_utf8"

definition detect_prompt_ready :: "string \<Rightarrow> bool" where
  "detect_prompt_ready content \<longleftrightarrow>
     content \<noteq> [] \<and> (contains content prompt_utf8 \<or> contains content ''What should Claude do'')"

definition detect_prompt_not_trust :: "string \<Rightarrow> bool" where
  "detect_prompt_not_trust content \<longleftrightarrow>
     content \<noteq> [] \<and> contains content prompt_utf8 \<and> \<not> contains content ''trust this folder''"

definition detect_skill_failure :: "string \<Rightarrow> bool" where
  "detect_skill_failure content \<longleftrightarrow> contains content ''Unknown skill''"

section \<open>The hash of the screen\<close>

definition fnv1a_hash :: "string \<Rightarrow> 64 word" where
  "fnv1a_hash s = foldl (\<lambda>h c. (h XOR of_nat (uchar c)) * 1099511628211) 14695981039346656037 s"

end
