(* ===== verification/SideRegistry.thy ===== *)
theory SideRegistry
  imports ChatMain ChatBridge
begin

text \<open>
  The registry of the sidecar (src/src/nbs-sidecar/registry.c): a file of lines \<open>type:path\<close>, seeded
  from the directories of the framework and changed by the commands of a control inbox, which is
  read forward only.  Failing calls are fields of the environments; the log on stderr is not
  modelled.
\<close>

abbreviation (input) NBS_MAX_PATH :: nat where "NBS_MAX_PATH \<equiv> 4096"
abbreviation (input) NBS_MAX_FPATH :: nat where "NBS_MAX_FPATH \<equiv> 4608"
abbreviation (input) NBS_MAX_ENTRY :: nat where "NBS_MAX_ENTRY \<equiv> 4624"

section \<open>The file\<close>

text \<open>
  \<open>rg_partial\<close> is what reaches the file when appending fails, \<open>rg_flush\<close> what reaches the temporary
  file when it is closed, which the code does not check.
\<close>

record reg_env =
  rg_open_read :: bool
  rg_open_append :: bool
  rg_print :: bool
  rg_close :: bool
  rg_partial :: string
  rg_tmp :: bool
  rg_put :: "nat \<Rightarrow> bool"
  rg_flush :: "string \<Rightarrow> string"
  rg_rename :: bool

definition registry_lines :: "string \<Rightarrow> string list" where
  "registry_lines content = map (\<lambda>c. strip_newline (cstr c)) (fgets_all NBS_MAX_ENTRY content)"

definition read_registry :: "reg_env \<Rightarrow> path \<Rightarrow> fs \<Rightarrow> string option" where
  "read_registry e registry_path s = (if rg_open_read e then files s registry_path else None)"

definition registry_contains :: "reg_env \<Rightarrow> path \<Rightarrow> string \<Rightarrow> fs \<Rightarrow> bool" where
  "registry_contains e registry_path entry s =
     (case read_registry e registry_path s of None \<Rightarrow> False | Some c \<Rightarrow> entry \<in> set (registry_lines c))"

definition file_text :: "path \<Rightarrow> fs \<Rightarrow> string" where
  "file_text p s = (case files s p of None \<Rightarrow> [] | Some c \<Rightarrow> c)"

definition registry_append :: "reg_env \<Rightarrow> path \<Rightarrow> string \<Rightarrow> fs \<Rightarrow> int \<times> fs" where
  "registry_append e registry_path entry s =
     (if \<not> rg_open_append e then (-1, s)
      else if rg_print e \<and> rg_close e then (0, put_file registry_path (file_text registry_path s @ entry @ [nl]) s)
      else (-1, put_file registry_path (file_text registry_path s @ rg_partial e) s))"

text \<open>The lines that stay, as they were read.\<close>

definition kept_lines :: "string \<Rightarrow> string \<Rightarrow> string list" where
  "kept_lines entry content =
     filter (\<lambda>l. strip_newline l \<noteq> entry) (map cstr (fgets_all NBS_MAX_ENTRY content))"

definition registry_remove :: "reg_env \<Rightarrow> path \<Rightarrow> string \<Rightarrow> fs \<Rightarrow> int outcome \<times> fs" where
  "registry_remove e registry_path entry s =
     (case files s registry_path of
        None \<Rightarrow> (Ret 0, s)
      | Some c \<Rightarrow>
          if \<not> rg_open_read e then (Ret (-1), s)
          else if \<not> length registry_path + 7 < NBS_MAX_FPATH then (Abort, s)
          else if \<not> rg_tmp e then (Ret (-1), s)
          else (let kept = kept_lines entry c in
            if \<not> list_all (rg_put e) [0..<length kept] then (Ret (-1), s)
            else if \<not> rg_rename e then (Ret (-1), s)
            else (Ret 0, put_file registry_path (rg_flush e (concat kept)) s)))"

section \<open>Commands\<close>

text \<open>One \<open>%s\<close> of \<open>sscanf\<close> with a width: the word and the rest.\<close>

definition scan_word :: "nat \<Rightarrow> string \<Rightarrow> string \<times> string" where
  "scan_word width s =
     (let p = dropWhile isspace s; w = take width (takeWhile (\<lambda>c. \<not> isspace c) p) in (w, drop (length w) p))"

definition control_words :: "string \<Rightarrow> (string \<times> string) option" where
  "control_words line =
     (case scan_word 255 line of (verb, rest) \<Rightarrow>
        (let p = fst (scan_word 4095 rest) in if verb = [] \<or> p = [] then None else Some (verb, p)))"

definition register_entry :: "reg_env \<Rightarrow> path \<Rightarrow> string \<Rightarrow> fs \<Rightarrow> int outcome \<times> fs" where
  "register_entry e registry_path entry s =
     (if \<not> registry_contains e registry_path entry s
      then (case registry_append e registry_path entry s of (rc, s1) \<Rightarrow> (Ret rc, s1)) else (Ret 0, s))"

definition process_control_command :: "reg_env \<Rightarrow> string \<Rightarrow> path \<Rightarrow> fs \<Rightarrow> int outcome \<times> fs" where
  "process_control_command e line registry_path s =
     (case control_words line of
        None \<Rightarrow> (Ret 0, s)
      | Some (verb, p) \<Rightarrow>
          if verb = ''register-chat'' then register_entry e registry_path (''chat:'' @ p) s
          else if verb = ''unregister-chat'' then registry_remove e registry_path (''chat:'' @ p) s
          else if verb = ''register-bus'' then register_entry e registry_path (''bus:'' @ p) s
          else if verb = ''unregister-bus'' then registry_remove e registry_path (''bus:'' @ p) s
          else (Ret 0, s))"

section \<open>Seeding\<close>

definition str_ends_with :: "string \<Rightarrow> string \<Rightarrow> bool" where
  "str_ends_with s suf \<longleftrightarrow> length suf \<le> length s \<and> drop (length s - length suf) s = suf"

text \<open>
  \<open>sd_chats\<close>: the entries of the chat directory in the order of \<open>readdir\<close>, with whether \<open>stat\<close>
  finds a regular file; \<open>None\<close> when it cannot be opened.  \<open>sd_reg k\<close> is the environment of the
  \<open>k\<close>-th entry, \<open>sd_bus\<close> that of the bus.
\<close>

record seed_env =
  sd_open :: bool
  sd_chats :: "(string \<times> bool) list option"
  sd_events :: bool
  sd_reg :: "nat \<Rightarrow> reg_env"
  sd_bus :: reg_env

definition seeds_chat :: "string \<times> bool \<Rightarrow> bool" where
  "seeds_chat ent \<longleftrightarrow> take 1 (fst ent) \<noteq> ''.'' \<and> str_ends_with (fst ent) ''.chat''
     \<and> strstr ''-archive.'' (fst ent) = None"

fun seed_chats :: "seed_env \<Rightarrow> string \<Rightarrow> path \<Rightarrow> nat \<Rightarrow> (string \<times> bool) list \<Rightarrow> fs \<Rightarrow> int outcome \<times> fs" where
  "seed_chats e chat_dir registry_path k [] s = (Ret 0, s)"
| "seed_chats e chat_dir registry_path k (ent # ents) s =
     (if \<not> seeds_chat ent then seed_chats e chat_dir registry_path (Suc k) ents s
      else if \<not> length chat_dir + 1 + length (fst ent) < NBS_MAX_FPATH then (Abort, s)
      else if \<not> snd ent then seed_chats e chat_dir registry_path (Suc k) ents s
      else (case register_entry (sd_reg e k) registry_path (''chat:'' @ chat_dir @ ''/'' @ fst ent) s of
        (Abort, s1) \<Rightarrow> (Abort, s1)
      | (Ret rc, s1) \<Rightarrow> if rc \<noteq> 0 then (Ret (-1), s1) else seed_chats e chat_dir registry_path (Suc k) ents s1))"

definition registry_seed :: "seed_env \<Rightarrow> string \<Rightarrow> path \<Rightarrow> fs \<Rightarrow> int outcome \<times> fs" where
  "registry_seed e nbs_root registry_path s =
     (if \<not> sd_open e then (Ret (-1), s)
      else (let s1 = put_file registry_path (file_text registry_path s) s;
                chat_dir = nbs_root @ ''/.nbs/chat''; events_dir = nbs_root @ ''/.nbs/events'' in
        if \<not> length chat_dir < NBS_MAX_PATH then (Abort, s1)
        else (case (case sd_chats e of None \<Rightarrow> (Ret 0, s1) | Some ents \<Rightarrow> seed_chats e chat_dir registry_path 0 ents s1) of
          (Abort, s2) \<Rightarrow> (Abort, s2)
        | (Ret rc, s2) \<Rightarrow>
            if rc \<noteq> 0 then (Ret (-1), s2)
            else if \<not> length events_dir < NBS_MAX_PATH then (Abort, s2)
            else if \<not> sd_events e then (Ret 0, s2)
            else (case register_entry (sd_bus e) registry_path (''bus:'' @ events_dir) s2 of
              (Abort, s3) \<Rightarrow> (Abort, s3)
            | (Ret rc2, s3) \<Rightarrow> (Ret (if rc2 \<noteq> 0 then -1 else 0), s3)))))"

section \<open>The inbox\<close>

definition registry_count_lines :: "string \<Rightarrow> nat" where
  "registry_count_lines buf = length (filter (\<lambda>c. c = nl) buf) + (if buf \<noteq> [] \<and> last buf \<noteq> nl then 1 else 0)"

fun skip_lines :: "nat \<Rightarrow> string \<Rightarrow> string option" where
  "skip_lines 0 p = Some p"
| "skip_lines (Suc n) p = (case dropWhile (\<lambda>c. c \<noteq> nl) p of [] \<Rightarrow> None | _ # r \<Rightarrow> skip_lines n r)"

definition get_line_n :: "string \<Rightarrow> nat \<Rightarrow> nat \<Rightarrow> string option" where
  "get_line_n buf n out_size =
     (case skip_lines n buf of
        None \<Rightarrow> None
      | Some p \<Rightarrow> if p = [] \<and> n > 0 then None else Some (take (out_size - 1) (takeWhile (\<lambda>c. c \<noteq> nl) p)))"

definition strip_whitespace :: "string \<Rightarrow> string" where
  "strip_whitespace s =
     rstrip (\<lambda>c. c = sp \<or> c = CHR 0x09 \<or> c = cr \<or> c = nl) (dropWhile (\<lambda>c. c = sp \<or> c = CHR 0x09 \<or> c = cr) s)"

record inbox_env =
  ib_open :: bool
  ib_seek :: bool
  ib_alloc :: bool
  ib_read :: nat
  ib_cmd :: "nat \<Rightarrow> reg_env"

fun inbox_loop :: "inbox_env \<Rightarrow> string \<Rightarrow> path \<Rightarrow> nat list \<Rightarrow> int \<Rightarrow> fs \<Rightarrow> int outcome \<times> fs" where
  "inbox_loop e buf registry_path [] commands_processed s = (Ret commands_processed, s)"
| "inbox_loop e buf registry_path (i # is) commands_processed s =
     (case get_line_n buf i NBS_MAX_PATH of
        None \<Rightarrow> inbox_loop e buf registry_path is commands_processed s
      | Some line \<Rightarrow>
         (let stripped = strip_whitespace line in
          if stripped = [] \<or> hd stripped = CHR ''#'' then inbox_loop e buf registry_path is commands_processed s
          else (case process_control_command (ib_cmd e i) stripped registry_path s of
            (Abort, s1) \<Rightarrow> (Abort, s1)
          | (Ret cmd_rc, s1) \<Rightarrow>
              if cmd_rc < 0 then (Ret (-1), s1)
              else inbox_loop e buf registry_path is (if cmd_rc = 0 then commands_processed + 1 else commands_processed) s1)))"

text \<open>The result, the new line offset and the files.\<close>

definition registry_process_inbox :: "inbox_env \<Rightarrow> path \<Rightarrow> path \<Rightarrow> nat \<Rightarrow> fs \<Rightarrow> int outcome \<times> nat \<times> fs" where
  "registry_process_inbox e inbox_path registry_path inbox_line s =
     (case files s inbox_path of
        None \<Rightarrow> (Ret 0, inbox_line, s)
      | Some content \<Rightarrow>
          if \<not> ib_open e then (Ret (-1), inbox_line, s)
          else if \<not> ib_seek e then (Ret (-1), inbox_line, s)
          else if content = [] then (Ret 0, inbox_line, s)
          else if \<not> ib_alloc e then (Ret (-1), inbox_line, s)
          else (let buf = cstr (take (ib_read e) content); total_lines = registry_count_lines buf in
            if total_lines \<le> inbox_line then (Ret 0, inbox_line, s)
            else (case inbox_loop e buf registry_path [inbox_line..<total_lines] 0 s of
              (Abort, s1) \<Rightarrow> (Abort, inbox_line, s1)
            | (Ret rc, s1) \<Rightarrow> if rc < 0 then (Ret (-1), inbox_line, s1) else (Ret rc, total_lines, s1))))"

section \<open>Looking up\<close>

definition registry_find_first :: "reg_env \<Rightarrow> path \<Rightarrow> string \<Rightarrow> nat \<Rightarrow> fs \<Rightarrow> string option" where
  "registry_find_first e registry_path ty out_size s =
     (case read_registry e registry_path s of
        None \<Rightarrow> None
      | Some c \<Rightarrow>
         (case List.find (prefix (ty @ '':'')) (registry_lines c) of
            None \<Rightarrow> None
          | Some l \<Rightarrow> (let p = drop (length ty + 1) l in if length p \<ge> out_size then None else Some p)))"

text \<open>The callback says whether to stop; \<open>None\<close> when the registry cannot be read.\<close>

fun each_path :: "(path \<Rightarrow> bool) \<Rightarrow> (path \<Rightarrow> 'a \<Rightarrow> (bool \<times> 'a) outcome) \<Rightarrow> path list \<Rightarrow> 'a \<Rightarrow> 'a outcome" where
  "each_path exists callback [] st = Ret st"
| "each_path exists callback (p # ps) st =
     (if \<not> exists p then each_path exists callback ps st
      else and_then (callback p st) (\<lambda>(stop, st1). if stop then Ret st1 else each_path exists callback ps st1))"

definition registry_for_each ::
  "reg_env \<Rightarrow> path \<Rightarrow> string \<Rightarrow> (path \<Rightarrow> bool) \<Rightarrow> (path \<Rightarrow> 'a \<Rightarrow> (bool \<times> 'a) outcome) \<Rightarrow> 'a \<Rightarrow> fs \<Rightarrow> 'a option outcome" where
  "registry_for_each e registry_path ty exists callback st s =
     (case read_registry e registry_path s of
        None \<Rightarrow> Ret None
      | Some c \<Rightarrow>
          and_then (each_path exists callback
             (map (drop (length ty + 1)) (filter (prefix (ty @ '':'')) (registry_lines c))) st) (\<lambda>st1. Ret (Some st1)))"

end
