(* ===== verification/SideRegProps.thy ===== *)
theory SideRegProps
  imports SideRegistry
begin

text \<open>
  The registry as a list of entries: commands refine the addition and the removal of an entry,
  and the lines of the inbox are applied in order, each once.
\<close>

section \<open>The abstract registry\<close>

definition entry_ok :: "string \<Rightarrow> bool" where
  "entry_ok l \<longleftrightarrow> fits_line NBS_MAX_ENTRY l \<and> no_nul l"

definition add_entry :: "string \<Rightarrow> string list \<Rightarrow> string list" where
  "add_entry x ls = (if x \<in> set ls then ls else ls @ [x])"

definition apply_command :: "string \<Rightarrow> string list \<Rightarrow> string list" where
  "apply_command line ls =
     (case control_words line of
        None \<Rightarrow> ls
      | Some (verb, p) \<Rightarrow>
          if verb = ''register-chat'' then add_entry (''chat:'' @ p) ls
          else if verb = ''unregister-chat'' then filter (\<lambda>l. l \<noteq> ''chat:'' @ p) ls
          else if verb = ''register-bus'' then add_entry (''bus:'' @ p) ls
          else if verb = ''unregister-bus'' then filter (\<lambda>l. l \<noteq> ''bus:'' @ p) ls
          else ls)"

definition apply_line :: "string list \<Rightarrow> string \<Rightarrow> string list" where
  "apply_line ls l =
     (let t = strip_whitespace (take 4095 l) in if t = [] \<or> hd t = CHR ''#'' then ls else apply_command t ls)"

definition reg_ok :: "reg_env \<Rightarrow> bool" where
  "reg_ok e \<longleftrightarrow> rg_open_read e \<and> rg_open_append e \<and> rg_print e \<and> rg_close e \<and> rg_tmp e \<and> rg_put e = (\<lambda>_. True)
     \<and> rg_flush e = (\<lambda>t. t) \<and> rg_rename e"

definition holds :: "fs \<Rightarrow> path \<Rightarrow> string list \<Rightarrow> bool" where
  "holds s p ls \<longleftrightarrow> files s p = Some (unlines ls) \<and> list_all entry_ok ls"

section \<open>Lines of the file\<close>

lemma strip_newline_line: "strip_newline (l @ [nl]) = l"
  by (simp add: strip_newline_def)

lemma registry_chunks:
  assumes "list_all entry_ok ls"
  shows "map cstr (fgets_all NBS_MAX_ENTRY (unlines ls)) = map (\<lambda>l. l @ [nl]) ls"
proof -
  have "fgets_all NBS_MAX_ENTRY (unlines ls @ []) = map (\<lambda>l. l @ [nl]) ls @ fgets_all NBS_MAX_ENTRY []"
    by (rule fgets_all_lines) (use assms in \<open>auto simp: list_all_iff entry_ok_def\<close>)
  moreover have "cstr (l @ [nl]) = l @ [nl]" if "l \<in> set ls" for l
    by (rule cstr_id) (use assms that in \<open>auto simp: list_all_iff entry_ok_def no_nul_def\<close>)
  ultimately show ?thesis by simp
qed

lemma registry_lines_unlines: "list_all entry_ok ls \<Longrightarrow> registry_lines (unlines ls) = ls"
proof -
  assume a: "list_all entry_ok ls"
  have "registry_lines (unlines ls) = map strip_newline (map cstr (fgets_all NBS_MAX_ENTRY (unlines ls)))"
    by (simp add: registry_lines_def)
  then show ?thesis by (simp add: registry_chunks[OF a] strip_newline_line comp_def)
qed

lemma kept_unlines: "list_all entry_ok ls \<Longrightarrow> concat (kept_lines entry (unlines ls)) = unlines (filter (\<lambda>l. l \<noteq> entry) ls)"
  unfolding kept_lines_def by (simp only: registry_chunks) (simp add: filter_map comp_def strip_newline_line unlines_def)

section \<open>Commands refine the abstract ones\<close>

lemma put_same: "files s p = Some c \<Longrightarrow> put_file p c s = s"
  by (simp add: put_file_def fun_upd_idem)

lemma register_refines:
  assumes "reg_ok e" "holds s rp ls" "entry_ok x"
  shows "register_entry e rp x s = (Ret 0, put_file rp (unlines (add_entry x ls)) s)"
proof -
  have f: "files s rp = Some (unlines ls)" "registry_lines (unlines ls) = ls"
    using assms(2) registry_lines_unlines by (simp_all add: holds_def)
  have "registry_contains e rp x s = (x \<in> set ls)"
    using assms(1) f by (simp add: registry_contains_def read_registry_def reg_ok_def)
  then show ?thesis
    using assms(1) f(1) put_same[OF f(1)]
    by (simp add: register_entry_def registry_append_def file_text_def reg_ok_def add_entry_def)
qed

lemma remove_refines:
  assumes "reg_ok e" "holds s rp ls" "length rp + 7 < NBS_MAX_FPATH"
  shows "registry_remove e rp x s = (Ret 0, put_file rp (unlines (filter (\<lambda>l. l \<noteq> x) ls)) s)"
  using assms kept_unlines[of ls x] by (simp add: registry_remove_def holds_def reg_ok_def Let_def list_all_iff)

lemma scan_word_props:
  assumes "scan_word n s = (w, r)" "no_nul s"
  shows "length w \<le> n" "list_all (\<lambda>c. \<not> isspace c) w" "no_nul w" "no_nul r"
proof -
  let ?p = "dropWhile isspace s"
  have w: "w = take n (takeWhile (\<lambda>c. \<not> isspace c) ?p)" "r = drop (length w) ?p"
    using assms(1) by (auto simp: scan_word_def Let_def)
  show "length w \<le> n" by (simp add: w(1))
  show "list_all (\<lambda>c. \<not> isspace c) w"
    unfolding w(1) list_all_iff by (intro ballI, drule in_set_takeD, drule set_takeWhileD, erule conjunct2)
  have p: "no_nul ?p" using assms(2) unfolding no_nul_def by (meson set_dropWhileD)
  then show "no_nul w" unfolding w(1) no_nul_def by (meson in_set_takeD set_takeWhileD)
  show "no_nul r" using p unfolding w(2) no_nul_def by (meson in_set_dropD)
qed

lemma control_words_entry:
  assumes "control_words line = Some (verb, p)" "no_nul line"
  shows "entry_ok (''chat:'' @ p)" "entry_ok (''bus:'' @ p)"
proof -
  obtain v r where v: "scan_word 255 line = (v, r)" by fastforce
  obtain q r2 where q: "scan_word 4095 r = (q, r2)" by fastforce
  have p: "p = q" using assms(1) v q by (auto simp: control_words_def Let_def split: if_splits)
  have "no_nul r" using scan_word_props[OF v assms(2)] by simp
  from scan_word_props[OF q this] have "length p \<le> 4095" "list_all (\<lambda>c. \<not> isspace c) p" "no_nul p" by (simp_all add: p)
  moreover have "isspace nl" by (simp add: isspace_def)
  ultimately show "entry_ok (''chat:'' @ p)" "entry_ok (''bus:'' @ p)"
    by (auto simp: entry_ok_def fits_line_def no_nul_def list_all_iff)
qed

lemma apply_command_ok: "no_nul line \<Longrightarrow> list_all entry_ok ls \<Longrightarrow> list_all entry_ok (apply_command line ls)"
  using control_words_entry[of line]
  by (auto simp: apply_command_def add_entry_def list_all_iff split: option.splits)

lemma command_refines:
  assumes "reg_ok e" "holds s rp ls" "length rp + 7 < NBS_MAX_FPATH" "no_nul line"
  shows "process_control_command e line rp s = (Ret 0, put_file rp (unlines (apply_command line ls)) s)"
    "holds (put_file rp (unlines (apply_command line ls)) s) rp (apply_command line ls)"
proof -
  have same: "put_file rp (unlines ls) s = s" by (rule put_same) (use assms(2) in \<open>simp add: holds_def\<close>)
  show "process_control_command e line rp s = (Ret 0, put_file rp (unlines (apply_command line ls)) s)"
    using control_words_entry[OF _ assms(4)] register_refines[OF assms(1,2)] remove_refines[OF assms(1-3)] same
    by (auto simp: process_control_command_def apply_command_def split: option.splits)
  have "list_all entry_ok (apply_command line ls)"
    by (rule apply_command_ok[OF assms(4)]) (use assms(2) in \<open>simp add: holds_def\<close>)
  then show "holds (put_file rp (unlines (apply_command line ls)) s) rp (apply_command line ls)"
    by (simp add: holds_def)
qed

section \<open>The inbox line by line\<close>

lemma count_unlines: "list_all (\<lambda>l. nl \<notin> set l) ls \<Longrightarrow> registry_count_lines (unlines ls) = length ls"
proof -
  assume a: "list_all (\<lambda>l. nl \<notin> set l) ls"
  have "length (filter (\<lambda>c. c = nl) (unlines ls)) = length ls"
    using a by (induction ls) (auto simp: filter_empty_conv list_all_iff)
  moreover have "unlines ls = [] \<or> last (unlines ls) = nl" by (cases ls rule: rev_cases) auto
  ultimately show ?thesis by (auto simp: registry_count_lines_def)
qed

lemma drop_to_newline: "nl \<notin> set l \<Longrightarrow> dropWhile (\<lambda>c. c \<noteq> nl) (l @ nl # r) = nl # r"
  by (induction l) auto

lemma skip_unlines: "list_all (\<lambda>l. nl \<notin> set l) ls \<Longrightarrow> i \<le> length ls \<Longrightarrow> skip_lines i (unlines ls @ r) = Some (unlines (drop i ls) @ r)"
proof (induction i arbitrary: ls)
  case (Suc i)
  then obtain l ls' where "ls = l # ls'" by (cases ls) auto
  then show ?case using Suc by (simp add: drop_to_newline)
qed simp

lemma line_prefix: "nl \<notin> set l \<Longrightarrow> takeWhile (\<lambda>c. c \<noteq> nl) (l @ nl # r) = l"
  by (induction l) auto

lemma get_unlines:
  assumes "list_all (\<lambda>l. nl \<notin> set l) ls" "i < length ls"
  shows "get_line_n (unlines ls) i NBS_MAX_PATH = Some (take 4095 (ls ! i))"
proof -
  have "drop i ls = ls ! i # drop (Suc i) ls" by (rule Cons_nth_drop_Suc[symmetric]) (rule assms(2))
  moreover have "nl \<notin> set (ls ! i)" using assms by (simp add: list_all_length)
  ultimately show ?thesis using skip_unlines[OF assms(1), of i "[]"] assms(2) by (simp add: get_line_n_def line_prefix)
qed

lemma strip_no_nul: "no_nul l \<Longrightarrow> no_nul (strip_whitespace (take n l))"
  by (auto simp: strip_whitespace_def no_nul_def rstrip_def dest!: set_dropWhileD in_set_takeD)

lemma apply_no_line: "strip_whitespace (take 4095 l) = [] \<or> hd (strip_whitespace (take 4095 l)) = CHR ''#'' \<Longrightarrow> apply_line ls l = ls"
  by (simp add: apply_line_def Let_def)

text \<open>A line of the inbox as the loop expects it.\<close>

definition inbox_line_ok :: "string \<Rightarrow> bool" where
  "inbox_line_ok l \<longleftrightarrow> nl \<notin> set l \<and> no_nul l"

lemma inbox_loop_refines:
  assumes "list_all inbox_line_ok ls" "\<forall>i. reg_ok (ib_cmd e i)" "length rp + 7 < NBS_MAX_FPATH" "holds s rp regs"
    "set is \<subseteq> {0..<length ls}"
  shows "\<exists>n \<ge> k. inbox_loop e (unlines ls) rp is k s
      = (Ret n, put_file rp (unlines (foldl apply_line regs (map (\<lambda>i. ls ! i) is))) s)"
  using assms(4,5)
proof (induction "is" arbitrary: k s regs)
  case Nil
  then show ?case using put_same[of s rp "unlines regs"] by (auto simp: holds_def)
next
  case (Cons i "is")
  have i: "i < length ls" using Cons(3) by simp
  have nls: "list_all (\<lambda>l. nl \<notin> set l) ls" using assms(1) by (auto simp: list_all_iff inbox_line_ok_def)
  let ?t = "strip_whitespace (take 4095 (ls ! i))"
  have nul: "no_nul ?t" by (rule strip_no_nul) (use assms(1) i in \<open>simp add: list_all_length inbox_line_ok_def\<close>)
  show ?case
  proof (cases "?t = [] \<or> hd ?t = CHR ''#''")
    case True
    then show ?thesis using Cons(1)[OF Cons(2), of k] Cons(3) get_unlines[OF nls i] apply_no_line[OF True, of regs] by (simp add: Let_def)
  next
    case False
    let ?r = "apply_command ?t regs"
    have r: "apply_line regs (ls ! i) = ?r" using False by (simp add: apply_line_def Let_def)
    note c = command_refines[OF assms(2)[rule_format, of i] Cons(2) assms(3) nul]
    obtain n where n: "n \<ge> k + 1" "inbox_loop e (unlines ls) rp is (k + 1) (put_file rp (unlines ?r) s)
        = (Ret n, put_file rp (unlines (foldl apply_line ?r (map (\<lambda>i. ls ! i) is))) (put_file rp (unlines ?r) s))"
      using Cons(1)[OF c(2), of "k + 1"] Cons(3) by auto
    moreover have "put_file rp x (put_file rp y s) = put_file rp x s" for x y by (simp add: put_file_def)
    ultimately show ?thesis
      using False get_unlines[OF nls i] c(1) r by (intro exI[of _ n]) (simp add: Let_def)
  qed
qed

definition inbox_ok :: "inbox_env \<Rightarrow> nat \<Rightarrow> bool" where
  "inbox_ok e len \<longleftrightarrow> ib_open e \<and> ib_seek e \<and> ib_alloc e \<and> len \<le> ib_read e \<and> (\<forall>i. reg_ok (ib_cmd e i))"

lemma inbox_refines:
  assumes "inbox_ok e (length (unlines (old @ new)))" "files s ip = Some (unlines (old @ new))" "ip \<noteq> rp"
    "list_all inbox_line_ok (old @ new)" "length rp + 7 < NBS_MAX_FPATH" "holds s rp regs"
  shows "\<exists>n \<ge> 0. registry_process_inbox e ip rp (length old) s
    = (Ret n, length (old @ new), put_file rp (unlines (foldl apply_line regs new)) s)"
proof -
  let ?ls = "old @ new"
  let ?u = "unlines ?ls"
  have nul: "no_nul ?u"
    using assms(4) by (auto simp: inbox_line_ok_def list_all_iff)
  have take: "take (ib_read e) ?u = ?u" using assms(1) by (simp only: inbox_ok_def take_all)
  have buf: "cstr (take (ib_read e) ?u) = ?u"
    unfolding take by (rule cstr_id[OF nul])
  have cnt: "registry_count_lines ?u = length ?ls"
    by (rule count_unlines) (use assms(4) in \<open>auto simp: list_all_iff inbox_line_ok_def\<close>)
  have env: "ib_open e" "ib_seek e" "ib_alloc e" "\<And>i. reg_ok (ib_cmd e i)" using assms(1) by (simp_all add: inbox_ok_def)
  show ?thesis
  proof (cases "new = []")
    case True
    have "registry_process_inbox e ip rp (length old) s = (Ret 0, length old, s)"
      unfolding registry_process_inbox_def Let_def assms(2) option.case buf cnt using env True by simp
    moreover have "put_file rp (unlines regs) s = s" by (rule put_same) (use assms(6) in \<open>simp add: holds_def\<close>)
    ultimately show ?thesis using True by auto
  next
    case False
    have "map (\<lambda>i. ?ls ! i) [length old..<length ?ls] = new"
      by (rule nth_equalityI) (simp_all add: nth_append)
    then obtain n where n: "n \<ge> 0" "inbox_loop e ?u rp [length old..<length ?ls] 0 s
        = (Ret n, put_file rp (unlines (foldl apply_line regs new)) s)"
      using inbox_loop_refines[OF assms(4) _ assms(5,6), of e "[length old..<length ?ls]" 0] env(4) by auto
    have ne: "?u \<noteq> []" "\<not> length ?ls \<le> length old" using False by (cases new, simp_all)
    have "registry_process_inbox e ip rp (length old) s
      = (Ret n, length ?ls, put_file rp (unlines (foldl apply_line regs new)) s)"
      unfolding registry_process_inbox_def Let_def assms(2) option.case buf cnt n(2) prod.case outcome.case
      using env(1-3) ne n(1) by (simp only: if_True if_False not_True_eq_False not_False_eq_True not_less[symmetric])
    then show ?thesis using n(1) by blast
  qed
qed

section \<open>Reading the inbox twice\<close>

lemma skip_torn:
  assumes "list_all (\<lambda>l. nl \<notin> set l) ls" "nl \<notin> set part" "i \<le> length ls"
  shows "get_line_n (unlines ls @ part) i NBS_MAX_PATH = get_line_n (unlines (ls @ [part])) i NBS_MAX_PATH \<or> part = []"
proof (cases "i < length ls")
  case True
  then have "drop i ls = ls ! i # drop (Suc i) ls" "nl \<notin> set (ls ! i)"
    using assms(1) by (simp_all add: Cons_nth_drop_Suc list_all_length)
  then show ?thesis
    using skip_unlines[OF assms(1), of i part] skip_unlines[OF assms(1), of i "part @ [nl]"] True assms(3)
    by (simp add: get_line_n_def line_prefix)
next
  case False
  then have i: "i = length ls" using assms(3) by simp
  have w: "takeWhile (\<lambda>c. c \<noteq> nl) part = part" unfolding takeWhile_eq_all_conv using assms(2) by auto
  have s: "skip_lines i (unlines ls @ part) = Some part" "skip_lines i (unlines (ls @ [part])) = Some (part @ [nl])"
    using skip_unlines[OF assms(1), of i part] skip_unlines[OF assms(1), of i "part @ [nl]"] i by simp_all
  show ?thesis
    by (cases "part = []") (simp_all only: get_line_n_def s option.case w line_prefix[OF assms(2), of "[]"] simp_thms append_is_Nil_conv list.distinct if_False)
qed

lemma inbox_loop_cong:
  "(\<And>i. i \<in> set is \<Longrightarrow> get_line_n b i NBS_MAX_PATH = get_line_n b' i NBS_MAX_PATH)
    \<Longrightarrow> inbox_loop e b rp is k s = inbox_loop e b' rp is k s"
proof (induction "is" arbitrary: k s)
  case (Cons i "is")
  have "inbox_loop e b rp is k s = inbox_loop e b' rp is k s" for k s by (rule Cons.IH) (rule Cons.prems, simp)
  moreover have "get_line_n b i NBS_MAX_PATH = get_line_n b' i NBS_MAX_PATH" by (rule Cons.prems) simp
  ultimately show ?case by (simp only: inbox_loop.simps)
qed simp

lemma count_torn: "list_all (\<lambda>l. nl \<notin> set l) ls \<Longrightarrow> nl \<notin> set part \<Longrightarrow> part \<noteq> [] \<Longrightarrow>
  registry_count_lines (unlines ls @ part) = Suc (length ls)"
proof -
  assume a: "list_all (\<lambda>l. nl \<notin> set l) ls" "nl \<notin> set part" "part \<noteq> []"
  have "length (filter (\<lambda>c. c = nl) (unlines ls)) = length ls"
    using a(1) by (induction ls) (auto simp: filter_empty_conv list_all_iff)
  moreover have "filter (\<lambda>c. c = nl) part = []" using a(2) by (auto simp: filter_empty_conv)
  moreover have "last (unlines ls @ part) \<noteq> nl" using a(2,3) last_in_set[OF a(3)] by (metis last_appendR)
  ultimately show ?thesis using a(3) by (simp add: registry_count_lines_def)
qed

text \<open>Reading a buffer of text, whatever its last line is.\<close>

lemma inbox_run:
  assumes "ib_open e" "ib_seek e" "ib_alloc e" "files s ip = Some c" "length c \<le> ib_read e" "no_nul c" "c \<noteq> []"
    "registry_count_lines c = total_lines" "inbox_line < total_lines" "inbox_loop e c rp [inbox_line..<total_lines] 0 s = (Ret n, s1)" "n \<ge> 0"
  shows "registry_process_inbox e ip rp inbox_line s = (Ret n, total_lines, s1)"
proof -
  have b: "cstr (take (ib_read e) c) = c" using assms(5,6) by (simp add: cstr_id)
  show ?thesis
    unfolding registry_process_inbox_def Let_def assms(4) option.case b assms(8,10) prod.case outcome.case
    using assms(1-3,7,9,11) by (simp only: if_True if_False not_True_eq_False not_False_eq_True not_less[symmetric] not_le)
qed

lemma torn_refines:
  assumes "inbox_ok e (length (unlines ls @ part))" "files s ip = Some (unlines ls @ part)" "part \<noteq> []"
    "list_all inbox_line_ok (ls @ [part])" "length rp + 7 < NBS_MAX_FPATH" "holds s rp regs"
  shows "\<exists>n \<ge> 0. registry_process_inbox e ip rp (length ls) s
    = (Ret n, Suc (length ls), put_file rp (unlines (apply_line regs part)) s)"
proof -
  let ?c = "unlines ls @ part"
  let ?ls = "ls @ [part]"
  have nls: "list_all (\<lambda>l. nl \<notin> set l) ls" "nl \<notin> set part" and nul: "no_nul ?c"
    using assms(4) by (auto simp: list_all_iff inbox_line_ok_def)
  have "\<And>i. reg_ok (ib_cmd e i)" using assms(1) by (simp add: inbox_ok_def)
  then obtain n where n: "n \<ge> 0" "inbox_loop e (unlines ?ls) rp [length ls..<length ?ls] 0 s
      = (Ret n, put_file rp (unlines (foldl apply_line regs (map (\<lambda>i. ?ls ! i) [length ls..<length ?ls]))) s)"
    using inbox_loop_refines[OF assms(4) _ assms(5,6), of e "[length ls..<length ?ls]" 0] by auto
  have "inbox_loop e ?c rp [length ls..<length ?ls] 0 s = inbox_loop e (unlines ?ls) rp [length ls..<length ?ls] 0 s"
    using skip_torn[OF nls, of "length ls"] assms(3) by (intro inbox_loop_cong) auto
  then have l: "inbox_loop e ?c rp [length ls..<Suc (length ls)] 0 s = (Ret n, put_file rp (unlines (apply_line regs part)) s)"
    using n(2) by (simp add: nth_append)
  have "registry_process_inbox e ip rp (length ls) s = (Ret n, Suc (length ls), put_file rp (unlines (apply_line regs part)) s)"
    by (rule inbox_run[OF _ _ _ assms(2) _ nul _ count_torn[OF nls assms(3)] _ l n(1)]) (use assms(1,3) in \<open>simp_all add: inbox_ok_def\<close>)
  then show ?thesis using n(1) by blast
qed

lemma inbox_idle:
  assumes "ib_open e" "ib_seek e" "ib_alloc e" "files s ip = Some c" "length c \<le> ib_read e" "no_nul c"
    "registry_count_lines c \<le> inbox_line"
  shows "registry_process_inbox e ip rp inbox_line s = (Ret 0, inbox_line, s)"
proof -
  have b: "cstr (take (ib_read e) c) = c" using assms(5,6) by (simp add: cstr_id)
  show ?thesis
    unfolding registry_process_inbox_def Let_def assms(4) option.case b using assms(1-3,7) by simp
qed

lemma inbox_entries: "list_all inbox_line_ok ls \<Longrightarrow> list_all entry_ok regs \<Longrightarrow> list_all entry_ok (foldl apply_line regs ls)"
proof (induction ls arbitrary: regs)
  case (Cons l ls)
  have "no_nul (strip_whitespace (take 4095 l))" by (rule strip_no_nul) (use Cons(2) in \<open>simp add: inbox_line_ok_def\<close>)
  then have "list_all entry_ok (apply_line regs l)"
    using apply_command_ok Cons(3) by (simp add: apply_line_def Let_def)
  then show ?case using Cons by simp
qed simp

section \<open>Properties\<close>


text \<open>A command that is being written when the inbox is read is lost: the unfinished last line
  counts as a line and is applied as it stands, and once the writer has finished it the next
  call does nothing, so the command as it was meant never reaches the registry.\<close>

theorem torn_line_lost:
  assumes "inbox_ok e1 (length (unlines ls @ part))" "inbox_ok e2 (length (unlines (ls @ [part @ rest])))"
    and "files s ip = Some (unlines ls @ part)" "part \<noteq> []" "ip \<noteq> rp" "length rp + 7 < NBS_MAX_FPATH"
    and "list_all inbox_line_ok (ls @ [part @ rest])" "holds s rp regs"
    and "registry_process_inbox e1 ip rp (length ls) s = (r1, line1, s1)"
    and "registry_process_inbox e2 ip rp line1 (put_file ip (unlines (ls @ [part @ rest])) s1) = (r2, line2, s2)"
  shows "line2 = length ls + 1 \<and> files s2 rp = Some (unlines (apply_line regs part)) \<and> r2 = Ret 0"
proof -
  have lines: "list_all inbox_line_ok (ls @ [part])" "list_all inbox_line_ok ((ls @ [part @ rest]) @ [])"
    using assms(7) by (auto simp: inbox_line_ok_def)
  obtain n where n: "r1 = Ret n" "line1 = length (ls @ [part @ rest])" "s1 = put_file rp (unlines (apply_line regs part)) s"
    using torn_refines[OF assms(1,3,4) lines(1) assms(6,8)] assms(9) by auto
  let ?s = "put_file ip (unlines ((ls @ [part @ rest]) @ [])) s1"
  have nul: "no_nul (unlines (ls @ [part @ rest]))" "registry_count_lines (unlines (ls @ [part @ rest])) = length (ls @ [part @ rest])"
    using assms(7) count_unlines[of "ls @ [part @ rest]"] by (auto simp: list_all_iff inbox_line_ok_def)
  have "registry_process_inbox e2 ip rp line1 ?s = (Ret 0, line1, ?s)"
    by (rule inbox_idle[where c = "unlines (ls @ [part @ rest])"]) (use assms(2) nul n(2) in \<open>simp_all add: inbox_ok_def\<close>)
  then have "r2 = Ret 0" "line2 = line1" "s2 = ?s" using assms(10) by simp_all
  then show ?thesis using assms(5) n by simp
qed

section \<open>Witnesses\<close>

definition demo_reg :: reg_env where
  "demo_reg = \<lparr>rg_open_read = True, rg_open_append = True, rg_print = True, rg_close = True, rg_partial = [], rg_tmp = True,
     rg_put = \<lambda>_. True, rg_flush = \<lambda>t. t, rg_rename = True\<rparr>"

definition demo_inbox :: inbox_env where
  "demo_inbox = \<lparr>ib_open = True, ib_seek = True, ib_alloc = True, ib_read = 1000, ib_cmd = \<lambda>_. demo_reg\<rparr>"

definition demo_old :: string where "demo_old = ''# bob''"
definition demo_new :: string where "demo_new = ''register-bus /e''"
definition demo_later :: string where "demo_later = ''unregister-chat /c''"

definition demo_files :: "string \<Rightarrow> fs" where
  "demo_files inbox = put_file ''in'' inbox (put_file ''reg'' (unlines [''chat:/c'']) \<lparr>files = \<lambda>_. None, held = {}\<rparr>)"

lemma demo_inbox_ok: "n \<le> 1000 \<Longrightarrow> inbox_ok demo_inbox n"
  by (simp add: inbox_ok_def demo_inbox_def demo_reg_def reg_ok_def)

lemma demo_holds: "holds (demo_files inbox) ''reg'' [''chat:/c'']"
  by (simp add: holds_def demo_files_def entry_ok_def fits_line_def)

lemma demo_lines_ok: "inbox_line_ok demo_old" "inbox_line_ok demo_new" "inbox_line_ok demo_later" "inbox_line_ok ''register-''"
  by (simp_all add: inbox_line_ok_def demo_old_def demo_new_def demo_later_def)

lemma demo_lengths: "length demo_old = 5" "length demo_new = 15" "length demo_later = 18"
  by (simp_all add: demo_old_def demo_new_def demo_later_def)

lemma demo_files_in [simp]: "files (demo_files inbox) ''in'' = Some inbox"
  by (simp add: demo_files_def)


theorem torn_line_lost_witness:
  "\<exists>r1 line1 s1 line2 s2. registry_process_inbox demo_inbox ''in'' ''reg'' 0 (demo_files ''register-'') = (r1, line1, s1)
    \<and> registry_process_inbox demo_inbox ''in'' ''reg'' line1 (put_file ''in'' (unlines [demo_new]) s1) = (Ret 0, line2, s2)
    \<and> files s2 ''reg'' = Some (unlines (apply_line [''chat:/c''] ''register-''))"
proof -
  obtain r1 line1 s1 where 1: "registry_process_inbox demo_inbox ''in'' ''reg'' 0 (demo_files ''register-'') = (r1, line1, s1)"
    by (metis prod_cases3)
  obtain r2 line2 s2 where 2: "registry_process_inbox demo_inbox ''in'' ''reg'' line1 (put_file ''in'' (unlines [demo_new]) s1) = (r2, line2, s2)"
    by (metis prod_cases3)
  have "line2 = 1 \<and> files s2 ''reg'' = Some (unlines (apply_line [''chat:/c''] ''register-'')) \<and> r2 = Ret 0"
    using torn_line_lost[of demo_inbox "[]" "''register-''" demo_inbox "''bus /e''", OF _ _ _ _ _ _ _ demo_holds[of "''register-''"], of "''in''" r1 line1 s1 r2 line2 s2] 1 2
    by (simp add: demo_inbox_ok demo_lines_ok(4) demo_files_in demo_new_def inbox_line_ok_def)
  then show ?thesis using 1 2 by blast
qed

end
