(* ===== verification/SideExec.thy ===== *)
theory SideExec
  imports SideRegistry
begin

text \<open>
  How the sidecar runs the other programs (src/src/nbs-sidecar/exec_util.c): a child is run to its
  end and its output captured in a bounded buffer or dropped; and how the sidecar finds the
  programs, beside its own binary or on the path.
\<close>

section \<open>Running a program\<close>

text \<open>
  How a child ends, with what it wrote to its standard output.  A program that cannot be executed
  is a child that exits with 126 or 127.
\<close>

datatype child = Exited nat string | Killed string

fun child_output :: "child \<Rightarrow> string" where
  "child_output (Exited c out) = out"
| "child_output (Killed out) = out"

text \<open>\<open>xe_read = Some k\<close>: reading the pipe fails after \<open>k\<close> bytes; \<open>xe_wait\<close>: the child can be reaped.\<close>

record exec_env =
  xe_pipe :: bool
  xe_fork :: bool
  xe_read :: "nat option"
  xe_wait :: bool

fun exit_status :: "child \<Rightarrow> int" where
  "exit_status (Exited c out) = int (c mod 256)"
| "exit_status (Killed out) = -1"

text \<open>The result and the buffer as a C string.  What does not fit is read and dropped.\<close>

definition exec_capture :: "exec_env \<Rightarrow> child \<Rightarrow> nat \<Rightarrow> int \<times> string" where
  "exec_capture e ch out_size =
     (if \<not> xe_pipe e then (-1, [])
      else if \<not> xe_fork e then (-1, [])
      else (let out = take (out_size - 1) (child_output ch);
                failed = (case xe_read e of None \<Rightarrow> None | Some k \<Rightarrow> if k < length out then Some k else None);
                buf = cstr (case failed of None \<Rightarrow> out | Some k \<Rightarrow> take k out) in
        if \<not> xe_wait e then (-1, buf)
        else if failed \<noteq> None then (-1, buf)
        else (exit_status ch, buf)))"

definition exec_fire_and_forget :: "exec_env \<Rightarrow> child \<Rightarrow> int" where
  "exec_fire_and_forget e ch = (if \<not> xe_fork e then -1 else if \<not> xe_wait e then -1 else exit_status ch)"

definition exec_ok :: "exec_env \<Rightarrow> bool" where
  "exec_ok e \<longleftrightarrow> xe_pipe e \<and> xe_fork e \<and> xe_read e = None \<and> xe_wait e"

lemma exec_capture_ok: "exec_ok e \<Longrightarrow> exec_capture e ch n = (exit_status ch, cstr (take (n - 1) (child_output ch)))"
  by (simp add: exec_capture_def exec_ok_def Let_def)

lemma length_cstr: "length (cstr s) \<le> length s"
  by (simp add: cstr_def length_takeWhile_le)

text \<open>Captured lines read back.\<close>

lemma split_line: "nl \<notin> set l \<Longrightarrow> split_lines acc (l @ nl # r) = (acc @ l) # split_lines [] r"
  by (induction l arbitrary: acc) auto

lemma split_unlines: "(\<And>l. l \<in> set ls \<Longrightarrow> nl \<notin> set l) \<Longrightarrow> split_lines [] (unlines ls) = ls"
  by (induction ls) (simp_all add: split_line)

section \<open>Finding the programs\<close>

text \<open>
  \<open>self\<close> is what reading \<open>/proc/self/exe\<close> gives, \<open>None\<close> when it fails.  The first answer is kept
  for the life of the process.
\<close>

definition self_dir :: "string \<Rightarrow> string option" where
  "self_dir self =
     (if CHR ''/'' \<notin> set self then None else Some (rev (drop 1 (dropWhile (\<lambda>c. c \<noteq> CHR ''/'') (rev self)))))"

definition sibling :: "(path \<Rightarrow> bool) \<Rightarrow> string option \<Rightarrow> string \<Rightarrow> string" where
  "sibling runnable self name =
     (case self of None \<Rightarrow> name
      | Some s \<Rightarrow>
          if s = [] then name
          else (case self_dir (cstr (take 4095 s)) of None \<Rightarrow> name
            | Some dir \<Rightarrow>
                if length dir + (length name + 2) > 4096 then name
                else if \<not> runnable (dir @ CHR ''/'' # name) then name
                else dir @ CHR ''/'' # name))"

definition side_nbs_bus :: "(path \<Rightarrow> bool) \<Rightarrow> string option \<Rightarrow> string" where
  "side_nbs_bus runnable self = sibling runnable self ''nbs-bus''"

definition side_nbs_chat :: "(path \<Rightarrow> bool) \<Rightarrow> string option \<Rightarrow> string" where
  "side_nbs_chat runnable self = sibling runnable self ''nbs-chat''"

definition side_nbs_workers :: "(path \<Rightarrow> bool) \<Rightarrow> string option \<Rightarrow> string" where
  "side_nbs_workers runnable self = sibling runnable self ''nbs-workers''"

text \<open>Whatever the answer, the program has the wanted name: only its directory can change.\<close>

lemma sibling_name: "\<exists>dir. sibling runnable self name = dir @ name"
  by (auto simp: sibling_def split: option.splits intro: exI[of _ "[]"])

end
