(* ===== verification/SideBus.thy ===== *)
theory SideBus
  imports SideExec BusProps
begin

text \<open>
  The sidecar's side of the event bus (src/src/nbs-sidecar/bus_client.c).  Every operation runs
  the program \<open>nbs-bus\<close>; here it runs the model of that program with the arguments the client
  passes.  The log on stderr is not modelled.
\<close>

abbreviation (input) CMD_BUF_SIZE :: nat where "CMD_BUF_SIZE \<equiv> 65536"

type_synonym event_sort = "(bus_event \<Rightarrow> bus_event \<Rightarrow> int) \<Rightarrow> bus_event list \<Rightarrow> bus_event list"

section \<open>The program as a child\<close>

fun child_of :: "int outcome \<Rightarrow> string \<Rightarrow> child" where
  "child_of Abort out = Killed out"
| "child_of (Ret code) out = Exited (nat code) out"

text \<open>What a check or a read has written when it ends; of an aborted one nothing is used.\<close>

definition check_stdout :: "event_sort \<Rightarrow> bus_env \<Rightarrow> string \<Rightarrow> bus \<Rightarrow> string" where
  "check_stdout qsort be bus_dir b =
     (if verify_events_dir be bus_dir \<noteq> 0 then []
      else (case bus_check qsort be bus_dir None b of Abort \<Rightarrow> [] | Ret (rc, ls) \<Rightarrow> unlines ls))"

definition read_stdout :: "bus_env \<Rightarrow> string \<Rightarrow> string \<Rightarrow> bus \<Rightarrow> string" where
  "read_stdout be bus_dir event_file b =
     (if \<not> validate_event_file event_file \<or> verify_events_dir be bus_dir \<noteq> 0 then []
      else (case bus_read be bus_dir event_file b of Abort \<Rightarrow> [] | Ret (rc, out) \<Rightarrow> out))"

definition check_child :: "event_sort \<Rightarrow> bus_env \<Rightarrow> string \<Rightarrow> string \<Rightarrow> bus \<Rightarrow> child" where
  "check_child qsort be prog bus_dir b =
     child_of (fst (cmd_check qsort be [prog, ''check'', bus_dir] b)) (check_stdout qsort be bus_dir b)"

definition read_child :: "bus_env \<Rightarrow> string \<Rightarrow> string \<Rightarrow> string \<Rightarrow> bus \<Rightarrow> child" where
  "read_child be prog bus_dir event_file b =
     child_of (fst (cmd_read be [prog, ''read'', bus_dir, event_file] b)) (read_stdout be bus_dir event_file b)"

section \<open>The client\<close>

text \<open>
  The environment of the client: the program it runs and whether it can be executed, how running
  it goes for each operation, and the environment of the program.
\<close>

record bus_client =
  bc_prog :: string
  bc_exec :: bool
  bc_check :: exec_env
  bc_read :: "string \<Rightarrow> exec_env"
  bc_ack :: exec_env
  bc_bus :: bus_env
  bc_sort :: event_sort

definition executed :: "bus_client \<Rightarrow> child \<Rightarrow> child" where
  "executed c ch = (if bc_exec c then ch else Exited 127 [])"

definition run_check :: "bus_client \<Rightarrow> string \<Rightarrow> bus \<Rightarrow> int \<times> string" where
  "run_check c bus_dir b =
     exec_capture (bc_check c) (executed c (check_child (bc_sort c) (bc_bus c) (bc_prog c) bus_dir b)) CMD_BUF_SIZE"

text \<open>A run whose output is dropped: nothing happens when the program does not start.\<close>

definition run_forget :: "bus_client \<Rightarrow> (bus \<Rightarrow> int outcome \<times> bus) \<Rightarrow> bus \<Rightarrow> int \<times> bus" where
  "run_forget c program b =
     (if \<not> xe_fork (bc_ack c) then (-1, b)
      else if \<not> bc_exec c then (exec_fire_and_forget (bc_ack c) (Exited 127 []), b)
      else (case program b of (r, b1) \<Rightarrow> (exec_fire_and_forget (bc_ack c) (child_of r []), b1)))"

text \<open>The text between the first \<open>[\<close> and the next \<open>]\<close>; \<open>None\<close> when there is none or it is empty.\<close>

definition first_priority :: "string \<Rightarrow> string option" where
  "first_priority buf =
     (case dropWhile (\<lambda>c. c \<noteq> CHR ''['') buf of
        [] \<Rightarrow> None
      | _ # r \<Rightarrow>
          if CHR '']'' \<notin> set r then None
          else (let p = takeWhile (\<lambda>c. c \<noteq> CHR '']'') r in if p = [] then None else Some p))"

record check_result =
  cr_count :: nat
  cr_priority :: string
  cr_summary :: string

definition no_events :: "nat \<Rightarrow> check_result" where
  "no_events mp_size = \<lparr>cr_count = 0, cr_priority = snprintf mp_size ''none'', cr_summary = []\<rparr>"

definition bus_client_check ::
  "bus_client \<Rightarrow> string \<Rightarrow> nat \<Rightarrow> nat \<Rightarrow> bus \<Rightarrow> (int \<times> check_result) outcome" where
  "bus_client_check c bus_dir mp_size sum_size b =
     ASSERT_MSG (bus_dir \<noteq> [] \<and> mp_size > 0 \<and> sum_size > 0)
      (case run_check c bus_dir b of (rc, buf) \<Rightarrow>
        if rc < 0 then Ret (-1, no_events mp_size)
        else if rc \<noteq> 0 \<or> buf = [] then Ret (1, no_events mp_size)
        else (let count = registry_count_lines buf;
                  max_priority = (case first_priority buf of Some p \<Rightarrow> take (mp_size - 1) p | None \<Rightarrow> snprintf mp_size ''none'');
                  summary = snprintf sum_size (dec (int count) @ '' event(s) in '' @ bus_dir) in
          ASSERT_MSG (count > 0) (ASSERT_MSG (max_priority \<noteq> []) (ASSERT_MSG (summary \<noteq> [])
            (Ret (0, \<lparr>cr_count = count, cr_priority = max_priority, cr_summary = summary\<rparr>))))))"

text \<open>Any exit status of the program counts as success; then the payload is what it printed.\<close>

definition bus_client_read :: "bus_client \<Rightarrow> string \<Rightarrow> string \<Rightarrow> nat \<Rightarrow> bus \<Rightarrow> (int \<times> string) outcome" where
  "bus_client_read c bus_dir event_file payload_size b =
     ASSERT_MSG (bus_dir \<noteq> [] \<and> event_file \<noteq> [] \<and> payload_size > 0)
      (case exec_capture (bc_read c event_file) (executed c (read_child (bc_bus c) (bc_prog c) bus_dir event_file b)) payload_size of
         (rc, payload) \<Rightarrow> if rc < 0 then Ret (-1, payload) else Ret (0, payload))"

definition safe_event_file :: "string \<Rightarrow> bool" where
  "safe_event_file event_file \<longleftrightarrow> strstr ''..'' event_file = None \<and> CHR ''/'' \<notin> set event_file"

definition bus_client_ack :: "bus_client \<Rightarrow> string \<Rightarrow> string \<Rightarrow> bus \<Rightarrow> int outcome \<times> bus" where
  "bus_client_ack c bus_dir event_file b =
     (if \<not> (bus_dir \<noteq> [] \<and> event_file \<noteq> []) then (Abort, b)
      else if \<not> safe_event_file event_file then (Ret (-1), b)
      else (case run_forget c (cmd_ack (bc_bus c) [bc_prog c, ''ack'', bus_dir, event_file]) b of (rc, b1) \<Rightarrow>
        (Ret (if rc \<noteq> 0 then -1 else 0), b1)))"

definition bus_client_ack_event :: "bus_client \<Rightarrow> string \<Rightarrow> string \<Rightarrow> bus \<Rightarrow> int outcome \<times> bus" where
  "bus_client_ack_event c bus_dir event_file b =
     (if \<not> (bus_dir \<noteq> [] \<and> event_file \<noteq> []) then (Abort, b)
      else if \<not> safe_event_file event_file then (Ret (-1), b)
      else bus_client_ack c bus_dir event_file b)"

definition bus_client_publish ::
  "bus_client \<Rightarrow> string \<Rightarrow> string \<Rightarrow> string \<Rightarrow> string \<Rightarrow> string \<Rightarrow> bus \<Rightarrow> int outcome \<times> bus" where
  "bus_client_publish c bus_dir source ty priority payload b =
     (if \<not> (bus_dir \<noteq> [] \<and> source \<noteq> [] \<and> ty \<noteq> [] \<and> priority \<noteq> []) then (Abort, b)
      else (case run_forget c (cmd_publish (bc_bus c) [bc_prog c, ''publish'', bus_dir, source, ty, priority, payload]) b of (rc, b1) \<Rightarrow>
        (Ret (if rc \<noteq> 0 then -1 else 0), b1)))"

section \<open>Looking for an event\<close>

text \<open>The second field of a line of the listing, after the first space.\<close>

definition listed_file :: "string \<Rightarrow> string option" where
  "listed_file line =
     (if sp \<notin> set line then None
      else Some (takeWhile (\<lambda>c. c \<noteq> sp) (dropWhile (\<lambda>c. c = sp) (dropWhile (\<lambda>c. c \<noteq> sp) line))))"

text \<open>What one line gives: the file and its payload if it matches.\<close>

definition match_line ::
  "bus_client \<Rightarrow> string \<Rightarrow> string \<Rightarrow> string \<Rightarrow> bus \<Rightarrow> string \<Rightarrow> (string \<times> string) option outcome" where
  "match_line c bus_dir event_type at_handle b line =
     (if strstr event_type line = None then Ret None
      else (case listed_file line of
        None \<Rightarrow> Ret None
      | Some event_file \<Rightarrow>
          if length event_file \<ge> 1024 then Ret None
          else and_then (bus_client_read c bus_dir event_file CMD_BUF_SIZE b) (\<lambda>(rc, payload).
            Ret (if rc = 0 \<and> strstr at_handle payload \<noteq> None then Some (event_file, payload) else None))))"

fun match_lines ::
  "bus_client \<Rightarrow> string \<Rightarrow> string \<Rightarrow> string \<Rightarrow> bus \<Rightarrow> string list \<Rightarrow> (string \<times> string) option outcome" where
  "match_lines c bus_dir event_type at_handle b [] = Ret None"
| "match_lines c bus_dir event_type at_handle b (line # ls) =
     and_then (match_line c bus_dir event_type at_handle b line) (\<lambda>r.
       case r of Some m \<Rightarrow> Ret (Some m) | None \<Rightarrow> match_lines c bus_dir event_type at_handle b ls)"

text \<open>The result, the payload and the name of the event.\<close>

definition bus_client_check_typed ::
  "bus_client \<Rightarrow> string \<Rightarrow> string \<Rightarrow> string \<Rightarrow> nat \<Rightarrow> nat \<Rightarrow> bus \<Rightarrow> (int \<times> string \<times> string) outcome" where
  "bus_client_check_typed c bus_dir event_type target_handle payload_size event_file_size b =
     ASSERT_MSG (bus_dir \<noteq> [] \<and> event_type \<noteq> [] \<and> target_handle \<noteq> [])
      (ASSERT_MSG (length target_handle \<le> 253 \<and> payload_size > 0 \<and> event_file_size > 0)
        (case run_check c bus_dir b of (rc, buf) \<Rightarrow>
          if rc < 0 then Ret (-1, [], [])
          else if rc \<noteq> 0 \<or> buf = [] then Ret (1, [], [])
          else and_then (match_lines c bus_dir event_type (CHR ''@'' # target_handle) b (split_lines [] buf)) (\<lambda>r.
            case r of
              None \<Rightarrow> Ret (1, [], [])
            | Some (event_file, payload) \<Rightarrow>
                Ret (0, snprintf payload_size payload, if length event_file < event_file_size then event_file else []))))"

end
