(* ===== verification/SideBusProps.thy ===== *)
theory SideBusProps
  imports SideBus
begin

text \<open>
  What the sidecar finds on the bus: the listing of \<open>nbs-bus\<close> is read back as the events it
  lists, and the search for an event returns the first one, most urgent first, whose line
  contains the type and whose text contains the handle.
\<close>

section \<open>The listing read back\<close>

lemma priority_chars: "sp \<notin> set (bus_priority_to_str p)" "nl \<notin> set (bus_priority_to_str p)" "nul \<notin> set (bus_priority_to_str p)"
  by (cases p; simp)+

lemma listed_file_line:
  assumes "sp \<notin> set (ev_filename ev)" "ev_filename ev \<noteq> []"
  shows "listed_file (event_line age ev) = Some (ev_filename ev)"
proof -
  let ?p = "CHR ''['' # bus_priority_to_str (ev_priority ev) @ '']''"
  have line: "event_line age ev = ?p @ sp # ev_filename ev @ sp # CHR ''('' # age @ '')''" by (simp add: event_line_def)
  have "sp \<notin> set ?p" using priority_chars(1) by simp
  then have 1: "dropWhile (\<lambda>c. c \<noteq> sp) (?p @ sp # r) = sp # r" for r by (induction ?p) (auto simp: dropWhile_append)
  obtain x xs where f: "ev_filename ev = x # xs" "x \<noteq> sp" using assms by (cases "ev_filename ev") auto
  have 2: "dropWhile (\<lambda>c. c = sp) (sp # ev_filename ev @ r) = ev_filename ev @ r" for r using f by simp
  have 3: "takeWhile (\<lambda>c. c \<noteq> sp) (ev_filename ev @ sp # r) = ev_filename ev" for r
    using assms(1) by (induction "ev_filename ev" rule: list.induct) (auto simp: takeWhile_append)
  show ?thesis unfolding listed_file_def line 1 2 3 by simp
qed

lemma format_age_chars:
  assumes "format_age d n = Ret a"
  shows "nl \<notin> set a" "nul \<notin> set a"
  using assms by (auto simp: format_age_def Let_def outcome_simps dec_not_in isdigit_def split: if_splits)

lemma age_line_chars:
  assumes "nl \<notin> set (ev_filename ev)" "no_nul (ev_filename ev)"
  shows "nl \<notin> set (age_line now ev)" "no_nul (age_line now ev)"
  using assms priority_chars format_age_chars
  by (auto simp: age_line_def event_line_def no_nul_def split: outcome.splits)

section \<open>A bus on which nothing fails\<close>

definition plain_name :: "string \<Rightarrow> bool" where
  "plain_name f \<longleftrightarrow> validate_event_file f \<and> sp \<notin> set f \<and> nl \<notin> set f \<and> no_nul f"

fun plain_node :: "node \<Rightarrow> bool" where
  "plain_node Subdir = True"
| "plain_node (File t) = (no_nul t \<and> length t < 65535)"

definition plain_dir :: "dir \<Rightarrow> bool" where
  "plain_dir d \<longleftrightarrow> distinct (map fst d) \<and> (\<forall>x \<in> set d. is_event_name (fst x) \<longrightarrow> plain_name (fst x) \<and> plain_node (snd x))"

definition client_ok :: "bus_client \<Rightarrow> string \<Rightarrow> int \<Rightarrow> bool" where
  "client_ok c bus_dir now \<longleftrightarrow> exec_ok (bc_check c) \<and> (\<forall>f. exec_ok (bc_read c f)) \<and> bc_exec c \<and> qsort_ok (bc_sort c) event_compare
     \<and> be_isdir (bc_bus c) \<and> be_opendir (bc_bus c) \<and> (\<forall>n. be_alloc (bc_bus c) n) \<and> (\<forall>k. be_print (bc_bus c) k)
     \<and> (\<forall>f. be_open (bc_bus c) f \<and> \<not> be_ioerr (bc_bus c) f) \<and> be_now (bc_bus c) = Some now \<and> now \<le> LLONG_MAX
     \<and> bus_dir \<noteq> [] \<and> length bus_dir < BUS_MAX_PATH"

text \<open>The events in the order of the listing, and what a pending event contains.\<close>

definition listing :: "bus_client \<Rightarrow> string \<Rightarrow> bus \<Rightarrow> bus_event list" where
  "listing c bus_dir b = bc_sort c event_compare (events_of (bc_bus c) bus_dir (pending b))"

definition event_content :: "bus \<Rightarrow> string \<Rightarrow> string" where
  "event_content b f = (case map_of (pending b) f of Some (File t) \<Rightarrow> t | _ \<Rightarrow> [])"

definition listing_fits :: "bus_client \<Rightarrow> string \<Rightarrow> int \<Rightarrow> bus \<Rightarrow> bool" where
  "listing_fits c bus_dir now b \<longleftrightarrow> length (unlines (map (age_line now) (listing c bus_dir b))) < 65535"

definition typed_match :: "int \<Rightarrow> string \<Rightarrow> string \<Rightarrow> bus \<Rightarrow> bus_event \<Rightarrow> bool" where
  "typed_match now event_type handle b ev \<longleftrightarrow> strstr event_type (age_line now ev) \<noteq> None
     \<and> strstr (CHR ''@'' # handle) (event_content b (ev_filename ev)) \<noteq> None"

lemma listing_event:
  assumes "client_ok c bus_dir now" "plain_dir (pending b)" "ev \<in> set (listing c bus_dir b)"
  shows "\<exists>t. map_of (pending b) (ev_filename ev) = Some (File t) \<and> no_nul t \<and> length t < 65535"
    "plain_name (ev_filename ev)" "is_event_name (ev_filename ev)"
proof -
  have "mset (listing c bus_dir b) = mset (events_of (bc_bus c) bus_dir (pending b))"
    using assms(1) by (simp add: listing_def client_ok_def qsort_ok_def)
  then have "ev \<in> set (events_of (bc_bus c) bus_dir (pending b))" using assms(3) by (metis set_mset_mset)
  then obtain n x where x: "(n, x) \<in> set (pending b)" "scan_entry (bc_bus c) bus_dir (n, x) = Ret (Some ev)"
    unfolding events_of_iff by auto
  obtain t where t: "x = File t" "is_event_name n" using x(2) by (cases x) (auto simp: scan_entry_def scan_name_def ASSERT_MSG_def split: if_splits)
  have f: "ev_filename ev = n" using scan_entry_fits(2)[OF x(2)] by simp
  have p: "plain_name n" "plain_node (File t)" "map_of (pending b) n = Some (File t)"
    using assms(2) x(1) t by (auto simp: plain_dir_def)
  then show "\<exists>t. map_of (pending b) (ev_filename ev) = Some (File t) \<and> no_nul t \<and> length t < 65535" using f by simp
  show "plain_name (ev_filename ev)" "is_event_name (ev_filename ev)" using p f t by simp_all
qed

lemma run_check_listing:
  assumes "client_ok c bus_dir now" "plain_dir (pending b)" "clean_dir bus_dir (pending b)" "listing_fits c bus_dir now b"
  shows "run_check c bus_dir b = (0, unlines (map (age_line now) (listing c bus_dir b)))"
proof -
  let ?evs = "events_of (bc_bus c) bus_dir (pending b)"
  let ?ls = "map (age_line now) (listing c bus_dir b)"
  note ok = assms(1)[unfolded client_ok_def]
  have v: "verify_events_dir (bc_bus c) bus_dir = 0" using ok by (simp add: verify_events_dir_def)
  have s: "scan_events_dynamic (bc_bus c) bus_dir (pending b) = Ret (Some ?evs)"
    by (rule scan_events_dynamic_all) (use assms(3) ok in auto)
  have m: "set (listing c bus_dir b) = set ?evs"
    using ok unfolding listing_def qsort_ok_def by (metis set_mset_mset)
  have pos: "0 < ev_timestamp ev" if "ev \<in> set (listing c bus_dir b)" for ev
    using that m events_of_fit by (auto simp: event_fits_def)
  have p: "print_events (bc_bus c) now None (listing c bus_dir b) [] = Ret (0, ?ls)"
    using print_events_all[of "bc_bus c" now "listing c bus_dir b" None "[]"] pos ok by (simp add: skip_source_def)
  have chk: "bus_check (bc_sort c) (bc_bus c) bus_dir None b = Ret (0, ?ls)"
  proof (cases "?evs = []")
    case True
    then have "listing c bus_dir b = []" using m by simp
    then show ?thesis using ok s True by (simp add: bus_check_def)
  next
    case False
    then show ?thesis using ok s p by (simp add: bus_check_def now_us_def listing_def)
  qed
  have nul: "no_nul (unlines ?ls)"
    using listing_event(2)[OF assms(1,2)] age_line_chars(2) by (auto simp: plain_name_def)
  have "executed c (check_child (bc_sort c) (bc_bus c) (bc_prog c) bus_dir b) = Exited 0 (unlines ?ls)"
    using ok v chk by (simp add: executed_def check_child_def check_stdout_def cmd_check_def validate_handle_def)
  moreover have "cstr (take 65535 (unlines ?ls)) = unlines ?ls"
    using assms(4) nul by (simp add: listing_fits_def cstr_id)
  ultimately show ?thesis using ok by (simp add: run_check_def exec_capture_ok)
qed

lemma client_read_event:
  assumes "client_ok c bus_dir now" "plain_dir (pending b)" "clean_dir bus_dir (pending b)" "ev \<in> set (listing c bus_dir b)"
  shows "bus_client_read c bus_dir (ev_filename ev) CMD_BUF_SIZE b = Ret (0, event_content b (ev_filename ev))"
proof -
  let ?f = "ev_filename ev"
  note ok = assms(1)[unfolded client_ok_def]
  obtain t where t: "map_of (pending b) ?f = Some (File t)" "no_nul t" "length t < 65535" using listing_event(1)[OF assms(1,2,4)] by blast
  have v: "validate_event_file ?f" using listing_event(2)[OF assms(1,2,4)] by (simp add: plain_name_def)
  then have v2: "validate_event_filename ?f" by (simp add: validate_event_file_def validate_event_filename_def)
  have "(?f, File t) \<in> set (pending b)" using t(1) by (rule map_of_SomeD)
  then have "pending_path_ok bus_dir ?f"
    using assms(3) listing_event(3)[OF assms(1,2,4)] by (auto simp: clean_dir_def clean_name_def)
  then have "bus_read (bc_bus c) bus_dir ?f b = Ret (0, t)"
    using ok v2 t(1) copy_out_all[of "bc_bus c" 0 "[]" t] by (simp add: bus_read_def)
  moreover have "verify_events_dir (bc_bus c) bus_dir = 0" using ok by (simp add: verify_events_dir_def)
  ultimately have "executed c (read_child (bc_bus c) (bc_prog c) bus_dir ?f b) = Exited 0 t"
    using ok v by (simp add: executed_def read_child_def read_stdout_def cmd_read_def not_found_code_def)
  moreover have "?f \<noteq> []" using v by (simp add: validate_event_file_def)
  ultimately show ?thesis
    using ok t by (simp add: bus_client_read_def exec_capture_ok event_content_def cstr_id)
qed

lemma match_lines_find:
  assumes "client_ok c bus_dir now" "plain_dir (pending b)" "clean_dir bus_dir (pending b)" "set evs \<subseteq> set (listing c bus_dir b)"
  shows "match_lines c bus_dir event_type (CHR ''@'' # handle) b (map (age_line now) evs)
    = Ret (map_option (\<lambda>ev. (ev_filename ev, event_content b (ev_filename ev))) (List.find (typed_match now event_type handle b) evs))"
  using assms(4)
proof (induction evs)
  case (Cons ev evs)
  have ev: "ev \<in> set (listing c bus_dir b)" using Cons by simp
  have n: "plain_name (ev_filename ev)" by (rule listing_event(2)[OF assms(1,2) ev])
  obtain age where age: "age_line now ev = event_line age ev"
  proof -
    have "0 < ev_timestamp ev"
      using ev assms(1) events_of_fit unfolding listing_def client_ok_def qsort_ok_def event_fits_def by (metis set_mset_mset)
    then have "now - ev_timestamp ev \<le> LLONG_MAX" using assms(1) by (simp add: client_ok_def)
    then obtain a where "format_age (now - ev_timestamp ev) 32 = Ret a" using format_age_ok by blast
    then show thesis by (intro that) (simp add: age_line_def)
  qed
  have f: "listed_file (age_line now ev) = Some (ev_filename ev)"
    unfolding age by (rule listed_file_line) (use n in \<open>simp_all add: plain_name_def validate_event_file_def\<close>)
  have l: "length (ev_filename ev) < 1024" using n by (simp add: plain_name_def validate_event_file_def)
  have "match_line c bus_dir event_type (CHR ''@'' # handle) b (age_line now ev)
      = Ret (if typed_match now event_type handle b ev then Some (ev_filename ev, event_content b (ev_filename ev)) else None)"
    unfolding match_line_def f option.case client_read_event[OF assms(1-3) ev] using l
    by (simp add: typed_match_def)
  then show ?case using Cons by simp
qed simp

lemma typed_first:
  assumes "client_ok c bus_dir now" "plain_dir (pending b)" "clean_dir bus_dir (pending b)" "listing_fits c bus_dir now b"
    and "event_type \<noteq> []" "handle \<noteq> []" "length handle \<le> 253" "payload_size > 0"
  shows "bus_client_check_typed c bus_dir event_type handle payload_size 4096 b
    = Ret (case List.find (typed_match now event_type handle b) (listing c bus_dir b) of
        None \<Rightarrow> (1, [], [])
      | Some ev \<Rightarrow> (0, snprintf payload_size (event_content b (ev_filename ev)), ev_filename ev))"
proof (cases "listing c bus_dir b = []")
  case True
  then show ?thesis
    using assms run_check_listing[OF assms(1-4)] by (simp add: bus_client_check_typed_def client_ok_def)
next
  case False
  let ?ls = "map (age_line now) (listing c bus_dir b)"
  have "split_lines [] (unlines ?ls) = ?ls"
    using listing_event(2)[OF assms(1,2)] age_line_chars(1) by (intro split_unlines) (auto simp: plain_name_def)
  moreover have "unlines ?ls \<noteq> []" using False by (cases "listing c bus_dir b") simp_all
  moreover have "length (ev_filename ev) < 4096" if "List.find p (listing c bus_dir b) = Some ev" for p ev
    using listing_event(2)[OF assms(1,2), of ev] that by (auto simp: find_Some_iff plain_name_def validate_event_file_def)
  ultimately show ?thesis
    using assms run_check_listing[OF assms(1-4)] match_lines_find[OF assms(1-3) subset_refl, of event_type handle]
    by (simp add: bus_client_check_typed_def client_ok_def split: option.splits)
qed

section \<open>Properties\<close>


text \<open>A mention can be taken by someone else: the sidecar looks for its handle anywhere in the text
  of an event and not at whom the event is addressed to, so when the only event pending names
  two handles - or a handle that begins with the other - the sidecar that comes first gets it,
  its acknowledgement removes it, and the sidecar of the addressee finds nothing.\<close>

theorem mention_taken_by_other:
  assumes "client_ok c bus_dir now" "plain_dir (pending b)" "clean_dir bus_dir (pending b)" "listing_fits c bus_dir now b"
    and "pending b = [(f, File t)]" "scan_entry (bc_bus c) bus_dir (f, File t) = Ret (Some ev)"
    and "strstr ''chat-mention'' (age_line now ev) \<noteq> None" "strstr (CHR ''@'' # thief) t \<noteq> None" "strstr (CHR ''@'' # owner) t \<noteq> None"
    and "thief \<noteq> []" "length thief \<le> 253" "owner \<noteq> []" "length owner \<le> 253"
    and "exec_ok (bc_ack c)" "ack_good (bc_bus c) bus_dir f" "safe_event_file f"
  shows "\<exists>payload b'. bus_client_check_typed c bus_dir ''chat-mention'' owner 256 4096 b = Ret (0, payload, f)
    \<and> bus_client_check_typed c bus_dir ''chat-mention'' thief 256 4096 b = Ret (0, payload, f)
    \<and> bus_client_ack_event c bus_dir f b = (Ret 0, b')
    \<and> bus_client_check_typed c bus_dir ''chat-mention'' owner 256 4096 b' = Ret (1, [], [])"
proof -
  have fn: "ev_filename ev = f" using scan_entry_fits(2)[OF assms(6)] by simp
  have evs: "events_of (bc_bus c) bus_dir (pending b) = [ev]" using assms(5,6) by simp
  then have l: "listing c bus_dir b = [ev]"
    using assms(1) unfolding listing_def client_ok_def qsort_ok_def by (metis mset_single_iff mset.simps(1) mset.simps(2))
  have t: "event_content b f = t" using assms(5) by (simp add: event_content_def)
  have found: "bus_client_check_typed c bus_dir ''chat-mention'' h 256 4096 b = Ret (0, snprintf 256 t, f)"
    if "strstr (CHR ''@'' # h) t \<noteq> None" "h \<noteq> []" "length h \<le> 253" for h
    using typed_first[OF assms(1-4) _ that(2,3), of "''chat-mention''" 256] that(1) assms(7)
    by (simp add: l fn t typed_match_def del: strstr.simps)
  obtain b' where b': "bus_ack (bc_bus c) bus_dir f b = (Ret 0, b')" "map_of (pending b') = (map_of (pending b))(f := None)"
    using bus_ack_good[OF assms(15), of b] assms(5) by auto
  have empty: "pending b' = []" using b'(2) assms(5) by (simp add: map_of_eq_empty_iff)
  have v: "validate_event_file f" using listing_event(2)[OF assms(1,2), of ev] l fn by (simp add: plain_name_def)
  have ack: "bus_client_ack_event c bus_dir f b = (Ret 0, b')"
    using assms(1,14,16) v b'(1)
    by (simp add: bus_client_ack_event_def bus_client_ack_def run_forget_def cmd_ack_def client_ok_def exec_ok_def exec_fire_and_forget_def
        verify_events_dir_def not_found_code_def validate_event_file_def)
  have l': "listing c bus_dir b' = []"
    using assms(1) empty unfolding listing_def client_ok_def qsort_ok_def by (metis events_of_simps(1) mset_zero_iff)
  then have "bus_client_check_typed c bus_dir ''chat-mention'' owner 256 4096 b' = Ret (1, [], [])"
    using typed_first[OF assms(1) _ _ _ _ assms(12,13), of b' "''chat-mention''" 256] empty by (simp add: plain_dir_def listing_fits_def)
  then show ?thesis using found[OF assms(8,10,11)] found[OF assms(9,12,13)] ack by blast
qed

section \<open>Witnesses\<close>

definition demo_exec :: exec_env where
  "demo_exec = \<lparr>xe_pipe = True, xe_fork = True, xe_read = None, xe_wait = True\<rparr>"

definition demo_client :: bus_client where
  "demo_client = \<lparr>bc_prog = ''nbs-bus'', bc_exec = True, bc_check = demo_exec, bc_read = \<lambda>_. demo_exec, bc_ack = demo_exec,
     bc_bus = demo_bus_env 50, bc_sort = \<lambda>_. sort_key (\<lambda>ev. (ev_priority ev, ev_timestamp ev))\<rparr>"

definition demo_mention :: string where
  "demo_mention = event_text ''ann'' ''chat-mention-bob'' Normal demo_stamp (Some ''@bob from ann: ask @alice'')"

definition demo_mention_file :: string where
  "demo_mention_file = event_filename 40 ''ann'' ''chat-mention-bob'' 7"

definition demo_mention_bus :: bus where
  "demo_mention_bus = \<lparr>pending = [(demo_mention_file, File demo_mention)], processed = None\<rparr>"

lemma demo_client_ok: "client_ok demo_client ''ev'' 50"
  by (simp add: client_ok_def demo_client_def demo_exec_def exec_ok_def by_priority.insort_ok)

lemma demo_mention_size: "length demo_mention \<le> 200" "no_nul demo_mention" "plain_name demo_mention_file"
  by code_simp+

lemma demo_mention_ok: "plain_dir (pending demo_mention_bus)" "clean_dir ''ev'' (pending demo_mention_bus)"
proof -
  show "plain_dir (pending demo_mention_bus)" using demo_mention_size by (simp add: plain_dir_def demo_mention_bus_def)
  show "clean_dir ''ev'' (pending demo_mention_bus)" by code_simp
qed

definition demo_mention_event :: bus_event where
  "demo_mention_event = published_event (demo_bus_env 40) 40 ''ann'' ''chat-mention-bob'' Normal"

lemma demo_mention_scan: "scan_entry (bc_bus demo_client) ''ev'' (demo_mention_file, File demo_mention) = Ret (Some demo_mention_event)"
proof -
  have "bc_bus demo_client = demo_bus_env 50" by (simp add: demo_client_def)
  moreover have "scan_entry (demo_bus_env 50) ''ev'' (demo_mention_file, File demo_mention) = Ret (Some demo_mention_event)" by code_simp
  ultimately show ?thesis by simp
qed

lemma demo_mention_listing: "listing demo_client ''ev'' demo_mention_bus = [demo_mention_event]"
  using demo_mention_scan by (simp add: listing_def demo_mention_bus_def) (simp add: demo_client_def)

lemma demo_mention_fits: "listing_fits demo_client ''ev'' 50 demo_mention_bus"
proof -
  have "length (unlines (map (age_line 50) [demo_mention_event])) \<le> 100" by code_simp
  then show ?thesis by (simp add: listing_fits_def demo_mention_listing)
qed


theorem mention_taken_by_other_witness:
  "\<exists>b'. bus_client_ack_event demo_client ''ev'' demo_mention_file demo_mention_bus = (Ret 0, b')
    \<and> bus_client_check_typed demo_client ''ev'' ''chat-mention'' ''bob'' 256 4096 b' = Ret (1, [], [])"
proof -
  have "strstr ''chat-mention'' (age_line 50 demo_mention_event) \<noteq> None" "strstr ''@alice'' demo_mention \<noteq> None" "strstr ''@bob'' demo_mention \<noteq> None"
    "safe_event_file demo_mention_file" "ack_good (demo_bus_env 50) ''ev'' demo_mention_file" by code_simp+
  moreover have "exec_ok (bc_ack demo_client)" "bc_bus demo_client = demo_bus_env 50" by (simp_all add: demo_client_def demo_exec_def exec_ok_def)
  moreover have "pending demo_mention_bus = [(demo_mention_file, File demo_mention)]" by (simp add: demo_mention_bus_def)
  moreover have "(''alice'' :: string) \<noteq> []" "length ''alice'' \<le> 253" "(''bob'' :: string) \<noteq> []" "length ''bob'' \<le> 253" by simp_all
  ultimately show ?thesis
    using mention_taken_by_other[OF demo_client_ok demo_mention_ok demo_mention_fits _ demo_mention_scan, of "''alice''" "''bob''"] by metis
qed

end
