(* ===== verification/SideChat.thy ===== *)
theory SideChat
  imports SideExec "HOL-Library.Word"
begin

text \<open>
  The sidecar's view of the chats (src/src/nbs-sidecar/chat_client.c): it reads the chat file and
  the cursors itself, without the lock, to count the messages an agent has not read.  The log on
  stderr is not modelled.
\<close>

abbreviation (input) MAX_PATH_BUF :: nat where "MAX_PATH_BUF \<equiv> 4096"

text \<open>
  \<open>cc_chat\<close>, \<open>cc_again\<close>, \<open>cc_cursor\<close>: the file can be opened to count its messages, to look at
  them, and the cursors; \<open>cc_alloc k\<close>: memory for the \<open>k\<close>-th message.
\<close>

record chat_client =
  cc_chat :: "path \<Rightarrow> bool"
  cc_again :: "path \<Rightarrow> bool"
  cc_cursor :: "path \<Rightarrow> bool"
  cc_alloc :: "nat \<Rightarrow> bool"

definition open_text :: "bool \<Rightarrow> path \<Rightarrow> fs \<Rightarrow> string option" where
  "open_text can p s = (if can then files s p else None)"

section \<open>Counting and cursors\<close>

definition chat_client_count_messages :: "chat_client \<Rightarrow> path \<Rightarrow> fs \<Rightarrow> int outcome" where
  "chat_client_count_messages c chat_path s =
     ASSERT_MSG (chat_path \<noteq> [])
      (case open_text (cc_chat c chat_path) chat_path s of
         None \<Rightarrow> Ret (-1)
       | Some content \<Rightarrow> Ret (int (count_lines False (split_lines [] content))))"

text \<open>\<open>sscanf\<close> with \<open>%d\<close> as the C library does it: the conversion is that of \<open>strtol\<close>, the low 32 bits are stored.\<close>

definition sscanf_int :: "string \<Rightarrow> int option" where
  "sscanf_int s = (let r = strtoll s in if st_noconv r then None else Some (sint (word_of_int (st_val r) :: 32 word)))"

definition client_cursor_line :: "string \<Rightarrow> (string \<times> string) option" where
  "client_cursor_line chunk =
     (let line = strip_newline (cstr chunk) in
      if line = [] \<or> hd line = CHR ''#'' \<or> CHR ''='' \<notin> set line then None
      else Some (takeWhile (\<lambda>c. c \<noteq> CHR ''='') line, drop 1 (dropWhile (\<lambda>c. c \<noteq> CHR ''='') line)))"

definition clamp_cursor :: "int \<Rightarrow> int" where
  "clamp_cursor parsed = (if parsed < 0 then 0 else if parsed > INT_MAX - 1 then INT_MAX - 1 else parsed)"

definition chat_client_read_cursor :: "chat_client \<Rightarrow> path \<Rightarrow> string \<Rightarrow> fs \<Rightarrow> int outcome" where
  "chat_client_read_cursor c chat_path handle s =
     ASSERT_MSG (chat_path \<noteq> [] \<and> handle \<noteq> [])
      (ASSERT_MSG (length (chat_path @ ''.cursors'') < MAX_PATH_BUF)
        (case open_text (cc_cursor c chat_path) (chat_path @ ''.cursors'') s of
           None \<Rightarrow> Ret (-1)
         | Some content \<Rightarrow>
             (case List.find (\<lambda>e. fst e = handle) (List.map_filter client_cursor_line (fgets_all MAX_PATH_BUF content)) of
                None \<Rightarrow> Ret (-1)
              | Some (_, v) \<Rightarrow> Ret (case sscanf_int v of None \<Rightarrow> -1 | Some parsed \<Rightarrow> clamp_cursor parsed))))"

lemma client_cursor_range: "chat_client_read_cursor c p h s = Ret k \<Longrightarrow> -1 \<le> k \<and> k \<le> INT_MAX - 1"
  by (auto simp: chat_client_read_cursor_def ASSERT_MSG_def clamp_cursor_def split: if_splits option.splits)

section \<open>Who sent a message\<close>

text \<open>The sender: what precedes the first \<open>: \<close>, without the time after \<open>|\<close>, cut to the buffer.\<close>

definition extract_handle_from_decoded :: "string \<Rightarrow> nat \<Rightarrow> string option" where
  "extract_handle_from_decoded decoded handle_size =
     (case strstr '': '' decoded of
        None \<Rightarrow> None
      | Some (handle_part, _) \<Rightarrow> Some (take (handle_size - 1) (takeWhile (\<lambda>ch. ch \<noteq> CHR ''|'') handle_part)))"

text \<open>What a line of the chat says about its sender; a line that does not decode says nothing.\<close>

datatype sender = Skipped | Unparseable | From string

definition line_sender :: "bool \<Rightarrow> string \<Rightarrow> sender outcome" where
  "line_sender alloc line =
     ASSERT_MSG (length line < MAX_PATH_BUF * 16)
      (if length line mod 4 \<noteq> 0 then Ret Skipped
       else and_then (base64_decoded_size (length line)) (\<lambda>decoded_max.
         if \<not> alloc then Ret Skipped
         else and_then (base64_decode line decoded_max) (\<lambda>r. Ret (case r of
             Inl _ \<Rightarrow> Skipped
           | Inr decoded \<Rightarrow>
               (case extract_handle_from_decoded decoded 256 of None \<Rightarrow> Unparseable | Some h \<Rightarrow> From (cstr h))))))"

text \<open>The lines after the separator that are not empty.\<close>

fun after_separator :: "string list \<Rightarrow> string list" where
  "after_separator [] = []"
| "after_separator (line # ls) = (if cstr line = ''---'' then ls else after_separator ls)"

definition message_rows :: "string \<Rightarrow> string list" where
  "message_rows content = filter (\<lambda>l. l \<noteq> []) (after_separator (split_lines [] content))"

lemma count_rows: "count_lines b ls = length (filter (\<lambda>l. l \<noteq> []) (if b then ls else after_separator ls))"
  by (induction b ls rule: count_lines.induct) auto

section \<open>Messages of others\<close>

fun others_loop :: "chat_client \<Rightarrow> string \<Rightarrow> int \<Rightarrow> nat \<Rightarrow> string list \<Rightarrow> int \<Rightarrow> int outcome" where
  "others_loop c my_handle cursor i [] n = Ret n"
| "others_loop c my_handle cursor i (line # ls) n =
     (if int i \<le> cursor then others_loop c my_handle cursor (Suc i) ls n
      else and_then (line_sender (cc_alloc c i) line) (\<lambda>r.
        others_loop c my_handle cursor (Suc i) ls
          (case r of Skipped \<Rightarrow> n | Unparseable \<Rightarrow> n + 1 | From h \<Rightarrow> if h \<noteq> my_handle then n + 1 else n)))"

definition chat_client_count_unread_others :: "chat_client \<Rightarrow> path \<Rightarrow> string \<Rightarrow> int \<Rightarrow> fs \<Rightarrow> int outcome" where
  "chat_client_count_unread_others c chat_path my_handle cursor s =
     ASSERT_MSG (chat_path \<noteq> [] \<and> my_handle \<noteq> [])
      (case open_text (cc_again c chat_path) chat_path s of
         None \<Rightarrow> Ret (-1)
       | Some content \<Rightarrow>
           others_loop c my_handle (if cursor < -1 then -1 else cursor) 0
             (filter (\<lambda>l. \<not> list_all (\<lambda>ch. ch = sp) l) (message_rows content)) 0)"

section \<open>Unread messages of all chats\<close>

text \<open>\<open>basename\<close> of the C library.\<close>

definition basename :: "string \<Rightarrow> string" where
  "basename p =
     (let q = rstrip (\<lambda>ch. ch = CHR ''/'') p in
      if p = [] then ''.'' else if q = [] then ''/'' else rev (takeWhile (\<lambda>ch. ch \<noteq> CHR ''/'') (rev q)))"

record unread_ctx =
  uc_count :: int
  uc_chat :: bool
  uc_summary :: string
  uc_used :: nat

text \<open>\<open>snprintf\<close> behind what is there; the end moves only when everything fits.\<close>

definition append_summary :: "nat \<Rightarrow> string \<Rightarrow> unread_ctx \<Rightarrow> unread_ctx" where
  "append_summary sum_size name x =
     (let t = (if uc_used x > 0 then '', '' @ name else name); room = sum_size - uc_used x in
      if uc_used x > 0 \<and> \<not> uc_used x < sum_size - 2 then x
      else x\<lparr>uc_summary := take (uc_used x) (uc_summary x) @ take (room - 1) t,
             uc_used := (if length t < room then uc_used x + length t else uc_used x)\<rparr>)"

text \<open>The callback always continues.\<close>

definition check_unread_cb :: "chat_client \<Rightarrow> string \<Rightarrow> nat \<Rightarrow> fs \<Rightarrow> path \<Rightarrow> unread_ctx \<Rightarrow> unread_ctx outcome" where
  "check_unread_cb c handle sum_size s p x =
     (if strstr ''-archive.'' p \<noteq> None then Ret x
      else and_then (chat_client_count_messages c p s) (\<lambda>total.
        if total < 0 then Ret x
        else and_then (chat_client_read_cursor c p handle s) (\<lambda>cur0.
          let x1 = x\<lparr>uc_chat := True\<rparr>; cur1 = (if cur0 < 0 then 0 else cur0);
              cursor = (if total > 0 \<and> cur1 \<ge> total then total - 1 else cur1) in
          if total \<le> 0 \<or> total - 1 \<le> cursor then Ret x1
          else and_then (chat_client_count_unread_others c p handle cursor s) (\<lambda>n_unread.
            if n_unread \<le> 0 then Ret x1
            else ASSERT_MSG (uc_count x1 \<le> INT_MAX - n_unread)
              (ASSERT_MSG (length p < MAX_PATH_BUF)
                (Ret (append_summary sum_size (basename p) (x1\<lparr>uc_count := uc_count x1 + n_unread\<rparr>))))))))"

definition no_unread :: unread_ctx where
  "no_unread = \<lparr>uc_count = 0, uc_chat = False, uc_summary = [], uc_used = 0\<rparr>"

definition unread_summary :: "int \<Rightarrow> string \<Rightarrow> string" where
  "unread_summary n names = dec n @ '' unread in '' @ names"

text \<open>The result, the number and the summary; \<open>None\<close> stands for a registry that cannot be read.\<close>

definition chat_client_check_unread ::
  "chat_client \<Rightarrow> reg_env \<Rightarrow> path \<Rightarrow> string \<Rightarrow> nat \<Rightarrow> fs \<Rightarrow> (int \<times> int \<times> string) outcome" where
  "chat_client_check_unread c e registry_path handle sum_size s =
     ASSERT_MSG (registry_path \<noteq> [] \<and> handle \<noteq> [] \<and> sum_size > 0)
      (and_then (registry_for_each e registry_path ''chat'' (\<lambda>p. files s p \<noteq> None)
          (\<lambda>p x. and_then (check_unread_cb c handle sum_size s p x) (\<lambda>x1. Ret (False, x1))) no_unread s) (\<lambda>r.
        case r of
          None \<Rightarrow> Ret (-1, 0, [])
        | Some x \<Rightarrow>
            if uc_count x > 0
            then ASSERT_MSG (length (uc_summary x) < MAX_PATH_BUF)
              (let summary = unread_summary (uc_count x) (uc_summary x) in
               ASSERT_MSG (length summary < sum_size)
                (if \<not> uc_chat x then Ret (2, uc_count x, summary)
                 else ASSERT_MSG (summary \<noteq> []) (Ret (0, uc_count x, summary))))
            else if \<not> uc_chat x then Ret (2, uc_count x, uc_summary x)
            else Ret (1, uc_count x, uc_summary x)))"

section \<open>Only the sidecar spoke\<close>

record only_ctx =
  oc_unread :: bool
  oc_other :: bool

fun only_loop :: "chat_client \<Rightarrow> int \<Rightarrow> nat \<Rightarrow> string list \<Rightarrow> only_ctx \<Rightarrow> (bool \<times> only_ctx) outcome" where
  "only_loop c cursor i [] x = Ret (False, x)"
| "only_loop c cursor i (line # ls) x =
     (if int i \<le> cursor then only_loop c cursor (Suc i) ls x
      else and_then (line_sender (cc_alloc c i) line) (\<lambda>r.
        case r of
          Skipped \<Rightarrow> only_loop c cursor (Suc i) ls x
        | Unparseable \<Rightarrow> Ret (True, x\<lparr>oc_other := True\<rparr>)
        | From h \<Rightarrow> if h \<noteq> ''sidecar'' then Ret (True, x\<lparr>oc_other := True\<rparr>) else only_loop c cursor (Suc i) ls x))"

definition sidecar_only_cb :: "chat_client \<Rightarrow> string \<Rightarrow> fs \<Rightarrow> path \<Rightarrow> only_ctx \<Rightarrow> (bool \<times> only_ctx) outcome" where
  "sidecar_only_cb c handle s p x =
     and_then (chat_client_count_messages c p s) (\<lambda>total.
       if total < 0 then Ret (False, x)
       else and_then (chat_client_read_cursor c p handle s) (\<lambda>cur0.
         let cursor = (if cur0 < 0 then 0 else cur0); x1 = x\<lparr>oc_unread := True\<rparr> in
         if total \<le> 0 \<or> total - 1 \<le> cursor then Ret (False, x)
         else (case open_text (cc_again c p) p s of
             None \<Rightarrow> Ret (False, x1)
           | Some content \<Rightarrow> ASSERT_MSG (cursor < INT_MAX) (only_loop c cursor 0 (message_rows content) x1))))"

definition chat_client_are_unread_sidecar_only :: "chat_client \<Rightarrow> reg_env \<Rightarrow> path \<Rightarrow> string \<Rightarrow> fs \<Rightarrow> bool outcome" where
  "chat_client_are_unread_sidecar_only c e registry_path handle s =
     ASSERT_MSG (registry_path \<noteq> [] \<and> handle \<noteq> [])
      (and_then (registry_for_each e registry_path ''chat'' (\<lambda>p. files s p \<noteq> None) (sidecar_only_cb c handle s)
          \<lparr>oc_unread = False, oc_other = False\<rparr> s) (\<lambda>r.
        Ret (case r of None \<Rightarrow> False | Some x \<Rightarrow> oc_unread x \<and> \<not> oc_other x)))"

end
