(* ===== verification/SideChatProps.thy ===== *)
theory SideChatProps
  imports SideChat SideRegProps ChatUnread
begin

text \<open>
  What the sidecar counts: its own parser of the chat file agrees with the reader of the chat
  library on the messages, so the unread number is the number of messages of others after the
  cursor; and the two inputs on which it aborts.
\<close>

section \<open>The two parsers agree\<close>

lemma strstr_append: "strstr pat s = Some (a, b) \<Longrightarrow> strstr pat (s @ r) = Some (a, b @ r)"
proof (induction s arbitrary: a)
  case Nil
  then show ?case by (cases r) (simp_all split: if_splits)
next
  case (Cons c s)
  show ?case
  proof (cases "prefix pat (c # s)")
    case True
    then have "prefix pat ((c # s) @ r)" by (rule prefix_prefix)
    then show ?thesis using Cons.prems True by auto
  next
    case False
    then obtain a' where a: "strstr pat s = Some (a', b)" "a = c # a'" using Cons.prems by auto
    have "strstr pat (s @ r) = Some (a', b @ r)" by (rule Cons.IH[OF a(1)])
    moreover have "\<not> prefix pat ((c # s) @ r)"
    proof
      assume p: "prefix pat ((c # s) @ r)"
      have "prefix pat b" "s = a' @ b" using strstr_split[OF a(1)] by simp_all
      then have "length pat \<le> length (c # s)" using prefix_length_le[of pat b] by simp
      then have "prefix pat (c # s)" using p by (metis append_eq_append_conv2 prefix_def prefix_length_prefix prefixI)
      then show False using False by simp
    qed
    ultimately show ?thesis using a(2) by simp
  qed
qed

lemma cstr_rest: "\<exists>r. s = cstr s @ r"
  by (metis cstr_def takeWhile_dropWhile_id)

lemma parse_wire_sender:
  assumes "parse_wire decoded = Message m"
  shows "\<exists>h. extract_handle_from_decoded decoded 256 = Some h \<and> cstr h = m_handle m"
proof -
  obtain pre r where s: "strstr '': '' (cstr decoded) = Some (pre, r)"
    using assms by (cases "strstr '': '' (cstr decoded)") (auto simp: parse_wire_def simp del: strstr.simps)
  let ?h = "takeWhile (\<lambda>ch. ch \<noteq> CHR ''|'') pre"
  have pp: "fst (parse_prefix pre) = ?h"
  proof (cases "CHR ''|'' \<in> set pre")
    case False
    then have "\<forall>x \<in> set pre. x \<noteq> CHR ''|''" by auto
    then have eq: "?h = pre" by (simp only: takeWhile_eq_all_conv)
    show ?thesis using False by (simp add: parse_prefix_def eq)
  qed (simp add: parse_prefix_def Let_def)
  have h: "m_handle m = ?h" "length ?h < 64"
    using assms s pp by (auto simp: parse_wire_def Let_def split: prod.splits if_splits simp del: strstr.simps)
  obtain q where q: "decoded = cstr decoded @ q" using cstr_rest by blast
  have "strstr '': '' decoded = Some (pre, r @ q)" by (subst q) (rule strstr_append[OF s])
  moreover have "no_nul pre" using strstr_split[OF s] no_nul_cstr[of decoded] by simp
  then have "no_nul ?h" by (auto simp: no_nul_def dest: set_takeWhileD)
  ultimately show ?thesis using h by (simp add: extract_handle_from_decoded_def cstr_id del: strstr.simps)
qed

lemma line_sender_message:
  assumes "line_message l = Some m" "length l < 65536"
  shows "line_sender True l = Ret (From (m_handle m))"
proof -
  have d: "decode_line l = Msg m" using assms(1) by (simp add: line_message_def split: body_line.splits)
  then have m4: "length l mod 4 = 0" and np: "\<not> list_all (\<lambda>c. c = sp) l" by (auto simp: decode_line_def split: if_splits)
  have sz: "base64_decoded_size (length l) = Ret (length l div 4 * 3 + 3)"
    using m4 assms(2) by (simp add: base64_decoded_size_def)
  obtain dec where dec: "base64_decode l (length l div 4 * 3 + 3) = Ret (Inr dec)"
    using d m4 np by (simp add: decode_line_def sz split: outcome.splits sum.splits)
  have w: "parse_wire dec = Message m"
    using d m4 np dec by (simp add: decode_line_def sz split: wire_result.splits)
  obtain h where "extract_handle_from_decoded dec 256 = Some h" "cstr h = m_handle m" using parse_wire_sender[OF w] by blast
  then show ?thesis using assms(2) m4 sz dec by (simp add: line_sender_def)
qed

lemma line_sender_returns: "length l < 65536 \<Longrightarrow> line_sender alloc l \<noteq> Abort"
proof -
  assume l: "length l < 65536"
  have "base64_decode l (length l div 4 * 3 + 3) \<noteq> Abort" by (rule conjunct1[OF base64_decode_outcome]) (use l in simp_all)
  then show ?thesis using l
    by (cases "base64_decode l (length l div 4 * 3 + 3)") (simp_all add: line_sender_def base64_decoded_size_def)
qed

section \<open>The rows of a chat file\<close>

lemma rows_of_chat:
  assumes "is_chat_content c lw lt ps body"
  shows "message_rows c = body" "filter (\<lambda>l. \<not> list_all (\<lambda>ch. ch = sp) l) body = body"
proof -
  let ?fl = "file_lines lw lt (int (length c)) ps"
  have c: "c = unlines (?fl body)" and st: "list_all stored_line body" and hd: "header_ok lw lt ps"
    and len: "int (length c) \<le> LLONG_MAX"
    using assms unfolding is_chat_content_def by blast+
  have f: "no_nul lw" "no_nul lt" "no_nul ps" "no_nul (dec (int (length c)))"
    using hd by (simp_all add: header_ok_def field_ok_def)
  have "nl \<notin> set l" if "l \<in> set (?fl body)" for l
    using chat_lines_fit[OF hd _ len st that] by (simp add: fits_line_def)
  then have "split_lines [] (unlines (?fl body)) = ?fl body" by (rule split_unlines)
  then have rows: "split_lines [] c = ?fl body" using c by metis
  have "after_separator (?fl body) = body" using f by (simp add: file_lines_def cstr_id)
  moreover have "l \<noteq> [] \<and> \<not> list_all (\<lambda>ch. ch = sp) l" if "l \<in> set body" for l
    using st that unfolding list_all_iff stored_line_def by blast
  ultimately show "message_rows c = body" "filter (\<lambda>l. \<not> list_all (\<lambda>ch. ch = sp) l) body = body"
    unfolding message_rows_def rows by (simp_all add: filter_id_conv)
qed

section \<open>Counting the messages of others\<close>

definition others_after :: "string \<Rightarrow> int \<Rightarrow> chat_message list \<Rightarrow> nat" where
  "others_after h cursor ms = length (filter (\<lambda>m. m_handle m \<noteq> h) (drop (nat (cursor + 1)) ms))"

text \<open>Every line is a message, and short enough for the sidecar.\<close>

definition readable_rows :: "string list \<Rightarrow> bool" where
  "readable_rows body \<longleftrightarrow> (\<forall>l \<in> set body. line_message l \<noteq> None \<and> length l < 65536)"

lemma body_messages_plain: "readable_rows body \<Longrightarrow> body_messages body = map (\<lambda>l. the (line_message l)) body"
  by (induction body) (auto simp: readable_rows_def)

lemma others_loop_count:
  assumes "readable_rows ls" "\<And>k. cc_alloc c k"
  shows "others_loop c h cursor i ls n
    = Ret (n + int (length (filter (\<lambda>m. m_handle m \<noteq> h) (drop (nat (cursor + 1) - i) (map (\<lambda>l. the (line_message l)) ls)))))"
  using assms(1)
proof (induction ls arbitrary: i n)
  case (Cons l ls)
  obtain m where m: "line_message l = Some m" "length l < 65536" using Cons.prems by (auto simp: readable_rows_def)
  have ih: "readable_rows ls" using Cons.prems by (simp add: readable_rows_def)
  show ?case
  proof (cases "int i \<le> cursor")
    case True
    then have "nat (cursor + 1) - i = Suc (nat (cursor + 1) - Suc i)" by linarith
    then show ?thesis using True Cons.IH[OF ih] by simp
  next
    case False
    then have z: "nat (cursor + 1) - i = 0" "nat (cursor + 1) - Suc i = 0" by linarith+
    show ?thesis using False Cons.IH[OF ih, of "Suc i"] line_sender_message[OF m] assms(2) m(1) z by simp
  qed
qed simp

lemma count_others:
  assumes "files s p = Some c" "is_chat_content c lw lt ps body" "readable_rows body" "length body \<le> MAX_MESSAGES"
    and "cc_again cl p" "\<And>k. cc_alloc cl k" "p \<noteq> []" "h \<noteq> []"
  shows "chat_client_count_unread_others cl p h cursor s = Ret (int (others_after h cursor (chat_view p s)))"
proof -
  have v: "chat_view p s = map (\<lambda>l. the (line_message l)) body"
    using chat_view_content[OF assms(1,2,4)] body_messages_plain[OF assms(3)] by simp
  have "nat ((if cursor < -1 then -1 else cursor) + 1) = nat (cursor + 1)" by simp
  then show ?thesis
    using assms(1,5,7,8) others_loop_count[OF assms(3,6), of h "if cursor < -1 then -1 else cursor" 0 0]
    by (simp add: chat_client_count_unread_others_def open_text_def rows_of_chat[OF assms(2)] others_after_def v)
qed

lemma count_messages_chat:
  assumes "files s p = Some c" "is_chat_content c lw lt ps body" "readable_rows body" "length body \<le> MAX_MESSAGES" "cc_chat cl p" "p \<noteq> []"
  shows "chat_client_count_messages cl p s = Ret (int (length (chat_view p s)))"
proof -
  have "length (chat_view p s) = length body"
    using chat_view_content[OF assms(1,2,4)] body_messages_plain[OF assms(3)] by simp
  then show ?thesis
    using assms(1,5,6) rows_of_chat(1)[OF assms(2)]
    by (simp add: chat_client_count_messages_def open_text_def count_rows message_rows_def)
qed

section \<open>One chat\<close>

definition chat_ok :: "chat_client \<Rightarrow> fs \<Rightarrow> path \<Rightarrow> bool" where
  "chat_ok cl s p \<longleftrightarrow> (\<exists>c lw lt ps body. files s p = Some c \<and> is_chat_content c lw lt ps body \<and> readable_rows body
       \<and> length body \<le> MAX_MESSAGES)
     \<and> cc_chat cl p \<and> cc_again cl p \<and> p \<noteq> [] \<and> length p < 4088 \<and> strstr ''-archive.'' p = None"

text \<open>
  The cursor as the sidecar uses it: no cursor counts as message 0 read.  A cursor behind the end
  is moved to the last message, which changes nothing: all is read either way.
\<close>

definition used_cursor :: "chat_client \<Rightarrow> string \<Rightarrow> fs \<Rightarrow> path \<Rightarrow> int" where
  "used_cursor cl h s p = (case chat_client_read_cursor cl p h s of Ret k \<Rightarrow> max 0 k | Abort \<Rightarrow> 0)"

definition unread_at :: "chat_client \<Rightarrow> string \<Rightarrow> fs \<Rightarrow> path \<Rightarrow> nat" where
  "unread_at cl h s p = others_after h (used_cursor cl h s p) (chat_view p s)"

lemma read_cursor_returns: "length p < 4088 \<Longrightarrow> p \<noteq> [] \<Longrightarrow> h \<noteq> [] \<Longrightarrow> \<exists>k. chat_client_read_cursor cl p h s = Ret k"
  by (auto simp: chat_client_read_cursor_def split: option.splits)

lemma others_after_end: "int (length ms) \<le> cursor + 1 \<Longrightarrow> others_after h cursor ms = 0"
  by (simp add: others_after_def nat_le_iff le_nat_iff)

lemma check_unread_chat:
  assumes "chat_ok cl s p" "h \<noteq> []" "\<And>k. cc_alloc cl k" "uc_count x + int (unread_at cl h s p) \<le> INT_MAX"
  shows "check_unread_cb cl h sz s p x = Ret (if unread_at cl h s p = 0 then x\<lparr>uc_chat := True\<rparr>
    else append_summary sz (basename p) (x\<lparr>uc_chat := True, uc_count := uc_count x + int (unread_at cl h s p)\<rparr>))"
proof -
  obtain c lw lt ps body where c: "files s p = Some c" "is_chat_content c lw lt ps body" "readable_rows body" "length body \<le> MAX_MESSAGES"
    and ok: "cc_chat cl p" "cc_again cl p" "p \<noteq> []" "length p < 4088" "strstr ''-archive.'' p = None"
    using assms(1) unfolding chat_ok_def by blast
  let ?n = "length (chat_view p s)"
  obtain k where k: "chat_client_read_cursor cl p h s = Ret k" using read_cursor_returns[OF ok(4,3) assms(2)] by blast
  note total = count_messages_chat[OF c ok(1,3)]
  note others = count_others[OF c ok(2) assms(3) ok(3) assms(2)]
  let ?cur = "max 0 k"
  have u: "unread_at cl h s p = others_after h ?cur (chat_view p s)" by (simp add: unread_at_def used_cursor_def k)
  show ?thesis
  proof (cases "int ?n \<le> ?cur + 1")
    case True
    then show ?thesis using total k ok(5) u others_after_end[OF True]
      by (auto simp: check_unread_cb_def Let_def max_def simp del: strstr.simps)
  next
    case False
    then have l: "\<not> (int ?n \<le> 0 \<or> int ?n - 1 \<le> ?cur)" "\<not> ?cur \<ge> int ?n" by linarith+
    have m: "(if k < 0 then 0 else k) = ?cur" by simp
    show ?thesis
      using total k ok(4,5) u others[of ?cur] l assms(4)
      by (simp add: check_unread_cb_def Let_def m del: strstr.simps)
  qed
qed

section \<open>All chats of the registry\<close>

fun join_names :: "string list \<Rightarrow> string" where
  "join_names [] = []"
| "join_names [n] = n"
| "join_names (n # m # ns) = n @ '', '' @ join_names (m # ns)"

lemma join_names_snoc: "ns \<noteq> [] \<Longrightarrow> join_names (ns @ [n]) = join_names ns @ '', '' @ n"
  by (induction ns rule: join_names.induct) simp_all

lemma join_names_Nil: "(\<And>n. n \<in> set ns \<Longrightarrow> n \<noteq> []) \<Longrightarrow> join_names ns = [] \<longleftrightarrow> ns = []"
  by (cases ns rule: join_names.cases) simp_all

lemma basename_nonempty: "basename p \<noteq> []"
proof -
  let ?q = "rstrip (\<lambda>ch. ch = CHR ''/'') p"
  have r: "rev ?q = dropWhile (\<lambda>ch. ch = CHR ''/'') (rev p)" by (simp add: rstrip_def)
  have "takeWhile (\<lambda>ch. ch \<noteq> CHR ''/'') (rev ?q) \<noteq> []" if "?q \<noteq> []"
  proof -
    have ne: "dropWhile (\<lambda>ch. ch = CHR ''/'') (rev p) \<noteq> []" using that r by (metis rev_is_Nil_conv)
    then obtain y ys where y: "dropWhile (\<lambda>ch. ch = CHR ''/'') (rev p) = y # ys" by (meson list.exhaust)
    then have "y \<noteq> CHR ''/''" using hd_dropWhile[OF ne] by auto
    then have "takeWhile (\<lambda>ch. ch \<noteq> CHR ''/'') (y # ys) = y # takeWhile (\<lambda>ch. ch \<noteq> CHR ''/'') ys" by (rule takeWhile.simps(2)[THEN trans, OF if_P])
    then show ?thesis unfolding r y by (metis list.distinct(1))
  qed
  then show ?thesis by (simp add: basename_def Let_def)
qed

definition chats_total :: "chat_client \<Rightarrow> string \<Rightarrow> fs \<Rightarrow> path list \<Rightarrow> int" where
  "chats_total cl h s ps = (\<Sum>p\<leftarrow>ps. int (unread_at cl h s p))"

definition unread_names :: "chat_client \<Rightarrow> string \<Rightarrow> fs \<Rightarrow> path list \<Rightarrow> string list" where
  "unread_names cl h s ps = map basename (filter (\<lambda>p. unread_at cl h s p > 0) ps)"

text \<open>The context after some chats, as long as their names fit.\<close>

definition unread_state :: "chat_client \<Rightarrow> string \<Rightarrow> fs \<Rightarrow> path list \<Rightarrow> unread_ctx" where
  "unread_state cl h s ps =
     \<lparr>uc_count = chats_total cl h s ps, uc_chat = (ps \<noteq> []), uc_summary = join_names (unread_names cl h s ps),
      uc_used = length (join_names (unread_names cl h s ps))\<rparr>"

lemma chats_total_nonneg: "0 \<le> chats_total cl h s ps"
  unfolding chats_total_def by (rule sum_list_nonneg) auto

lemma append_fits:
  assumes "n \<noteq> []" "\<And>m. m \<in> set ns \<Longrightarrow> m \<noteq> []" "length (join_names (ns @ [n])) < sz" "uc_summary x = join_names ns" "uc_used x = length (join_names ns)"
  shows "append_summary sz n x = x\<lparr>uc_summary := join_names (ns @ [n]), uc_used := length (join_names (ns @ [n]))\<rparr>"
proof (cases "ns = []")
  case True
  then show ?thesis using assms by (simp add: append_summary_def Let_def)
next
  case False
  then have pos: "length (join_names ns) > 0" using join_names_Nil[OF assms(2)] by simp
  have l: "length (join_names ns) + 2 + length n < sz" using assms(3) join_names_snoc[OF False, of n] by simp
  moreover have "length n > 0" using assms(1) by simp
  ultimately have "length (join_names ns) < sz - 2" by linarith
  then show ?thesis using assms(4,5) pos l join_names_snoc[OF False, of n] by (simp add: append_summary_def Let_def)
qed

lemma join_names_prefix: "\<exists>r. join_names (ns @ ms) = join_names ns @ r"
proof (induction ms rule: rev_induct)
  case (snoc m ms)
  then obtain r where r: "join_names (ns @ ms) = join_names ns @ r" by blast
  show ?case
  proof (cases "ns @ ms = []")
    case False
    then have "join_names (ns @ ms @ [m]) = (join_names ns @ r) @ '', '' @ m" using join_names_snoc[OF False, of m] r by simp
    then show ?thesis by simp
  qed simp
qed simp

lemma each_unread:
  assumes "list_all (chat_ok cl s) ps" "h \<noteq> []" "\<And>k. cc_alloc cl k" "chats_total cl h s (qs @ ps) \<le> INT_MAX"
    "length (join_names (unread_names cl h s (qs @ ps))) < sz"
  shows "each_path (\<lambda>p. files s p \<noteq> None) (\<lambda>p x. and_then (check_unread_cb cl h sz s p x) (\<lambda>x1. Ret (False, x1))) ps (unread_state cl h s qs)
    = Ret (unread_state cl h s (qs @ ps))"
  using assms(1,4,5)
proof (induction ps arbitrary: qs)
  case (Cons p ps)
  let ?x = "unread_state cl h s qs"
  have ok: "chat_ok cl s p" "list_all (chat_ok cl s) ps" using Cons.prems(1) by simp_all
  have f: "files s p \<noteq> None" using ok(1) by (auto simp: chat_ok_def)
  have tot: "chats_total cl h s (qs @ p # ps) = chats_total cl h s qs + int (unread_at cl h s p) + chats_total cl h s ps"
    by (simp add: chats_total_def)
  have le: "uc_count ?x + int (unread_at cl h s p) \<le> INT_MAX"
    using Cons.prems(2) tot chats_total_nonneg[of cl h s ps] by (simp add: unread_state_def)
  have names: "unread_names cl h s (qs @ p # ps) = unread_names cl h s (qs @ [p]) @ unread_names cl h s ps"
    by (simp add: unread_names_def)
  have fit: "length (join_names (unread_names cl h s (qs @ [p]))) < sz"
    using Cons.prems(3) join_names_prefix[of "unread_names cl h s (qs @ [p])" "unread_names cl h s ps"] names by auto
  have "check_unread_cb cl h sz s p ?x = Ret (unread_state cl h s (qs @ [p]))"
  proof (cases "unread_at cl h s p = 0")
    case True
    then show ?thesis using check_unread_chat[OF ok(1) assms(2,3) le, of sz]
      by (simp add: unread_state_def chats_total_def unread_names_def)
  next
    case False
    let ?y = "?x\<lparr>uc_chat := True, uc_count := uc_count ?x + int (unread_at cl h s p)\<rparr>"
    have n: "unread_names cl h s (qs @ [p]) = unread_names cl h s qs @ [basename p]" using False by (simp add: unread_names_def)
    have "append_summary sz (basename p) ?y
        = ?y\<lparr>uc_summary := join_names (unread_names cl h s qs @ [basename p]), uc_used := length (join_names (unread_names cl h s qs @ [basename p]))\<rparr>"
      by (rule append_fits) (use fit n basename_nonempty in \<open>auto simp: unread_state_def unread_names_def\<close>)
    then show ?thesis using check_unread_chat[OF ok(1) assms(2,3) le, of sz] False n
      by (simp add: unread_state_def chats_total_def)
  qed
  then show ?case using Cons.IH[OF ok(2), of "qs @ [p]"] Cons.prems(2,3) f by simp
qed simp

lemma no_names: "chats_total cl h s ps = 0 \<Longrightarrow> unread_names cl h s ps = []"
proof (induction ps)
  case (Cons p ps)
  have "0 \<le> chats_total cl h s ps" by (rule chats_total_nonneg)
  with Cons show ?case by (simp add: chats_total_def unread_names_def)
qed (simp add: unread_names_def)

section \<open>Properties\<close>


text \<open>A long message stops every sidecar of the team: the chat accepts messages of up to 786000
  bytes and its reader returns them, but a sidecar that has to look at an unread message of
  49152 bytes or more aborts on its own assertion, whoever sent it.\<close>

theorem long_message_stops_sidecar:
  assumes "files s p = Some c" "is_chat_content c lw lt ps (b1 @ new_line sender t msg # b2)" "length (b1 @ new_line sender t msg # b2) \<le> MAX_MESSAGES"
    and "sendable sender t msg" "49152 \<le> length msg" "list_all (\<lambda>l. length l < 65536) b1" "cursor < int (length b1)"
    and "cc_again cl p" "p \<noteq> []" "h \<noteq> []"
  shows "chat_client_count_unread_others cl p h cursor s = Abort \<and> new_message sender t msg \<in> set (chat_view p s)"
proof -
  let ?l = "new_line sender t msg"
  have big: "\<not> length ?l < 65536"
    using assms(5) by (simp add: new_line_def length_encode_groups send_wire_def)
  have loop: "others_loop cl h cur i (b1 @ ?l # b2) n = Abort" if "cur < int i + int (length b1)" "list_all (\<lambda>l. length l < 65536) b1" for cur i n
    using that
  proof (induction b1 arbitrary: i n)
    case Nil
    then show ?case using big by (simp add: line_sender_def)
  next
    case (Cons l b1)
    then have "line_sender (cc_alloc cl i) l \<noteq> Abort" using line_sender_returns by simp
    then show ?case using Cons by (cases "line_sender (cc_alloc cl i) l") auto
  qed
  have "(if cursor < -1 then -1 else cursor) < int 0 + int (length b1)" using assms(7) by simp
  from loop[OF this assms(6), of 0]
  have "chat_client_count_unread_others cl p h cursor s = Abort"
    using assms(1,8-10) rows_of_chat[OF assms(2)] by (simp add: chat_client_count_unread_others_def open_text_def)
  moreover have "line_message ?l = Some (new_message sender t msg)" using decode_new_line[OF assms(4)] by (simp add: line_message_def)
  then have "new_message sender t msg \<in> set (chat_view p s)"
    using chat_view_content[OF assms(1,2,3)] by simp
  ultimately show ?thesis by simp
qed

text \<open>An agent that has never read a chat is not told of its first message: without a cursor the
  sidecar counts from message 0 as if it were read, although for the reader of the chat every
  message is unread then.\<close>

theorem first_message_unseen:
  assumes "chat_ok cl s p" "chat_client_read_cursor cl p h s = Ret (-1)" "h \<noteq> []" "\<And>k. cc_alloc cl k"
    and "chat_view p s = [m]" "m_handle m \<noteq> h" "uc_count x \<le> INT_MAX"
  shows "check_unread_cb cl h 256 s p x = Ret (x\<lparr>uc_chat := True\<rparr>) \<and> chat_client_count_unread_others cl p h (-1) s = Ret 1"
proof -
  have "unread_at cl h s p = 0" using assms(2,5) by (simp add: unread_at_def used_cursor_def others_after_def)
  moreover obtain c lw lt ps body where c: "files s p = Some c" "is_chat_content c lw lt ps body" "readable_rows body" "length body \<le> MAX_MESSAGES"
    and ok: "cc_again cl p" "p \<noteq> []"
    using assms(1) unfolding chat_ok_def by blast
  ultimately show ?thesis
    using check_unread_chat[OF assms(1,3,4), of x 256] assms(5-7) count_others[OF c ok(1) assms(4) ok(2) assms(3), of "-1"]
    by (simp add: others_after_def)
qed

section \<open>Witnesses\<close>

definition demo_chats :: chat_client where
  "demo_chats = \<lparr>cc_chat = \<lambda>_. True, cc_again = \<lambda>_. True, cc_cursor = \<lambda>_. True, cc_alloc = \<lambda>_. True\<rparr>"

definition team_fs :: "string list \<Rightarrow> fs" where
  "team_fs body = put_file ''a.chat'' (appended ''bob'' demo_time [] body) (put_file ''reg'' (unlines [''chat:a.chat'']) \<lparr>files = \<lambda>_. None, held = {}\<rparr>)"

lemma team_holds: "holds (team_fs body) ''reg'' [''chat:a.chat'']"
  by (simp add: holds_def team_fs_def put_file_def entry_ok_def fits_line_def)

lemma team_cursor: "chat_client_read_cursor demo_chats ''a.chat'' ''amy'' (team_fs body) = Ret (-1)"
  by (simp add: chat_client_read_cursor_def open_text_def demo_chats_def team_fs_def put_file_def)

lemma team_content:
  assumes "list_all stored_line body" "length body \<le> MAX_MESSAGES"
  shows "files (team_fs body) ''a.chat'' = Some (appended ''bob'' demo_time [] body)"
    "is_chat_content (appended ''bob'' demo_time [] body) ''bob'' demo_time (join_participants (update_participants [] ''bob'' MAX_PARTICIPANTS)) body"
  using chat_bytes_appended[OF _ demo_time_ok(1,2) demo_room assms] demo_sendable(1)
  by (simp_all add: team_fs_def put_file_def sendable_def)

lemma team_line: "length msg \<le> 100 \<Longrightarrow> no_nul msg \<Longrightarrow> stored_line (new_line ''bob'' 1000 msg) \<and> readable_rows [new_line ''bob'' 1000 msg]"
proof -
  assume m: "length msg \<le> 100" "no_nul msg"
  then have s: "sendable ''bob'' 1000 msg" using demo_sendable(1) by (simp add: sendable_def)
  have "length (dec 1000) \<le> 19" by (rule length_dec_int64) simp_all
  then have "length (new_line ''bob'' 1000 msg) < 65536" using m(1) by (simp add: new_line_def length_encode_groups send_wire_def)
  then show ?thesis using stored_new_line[OF s] decode_new_line[OF s] by (simp add: readable_rows_def line_message_def)
qed

lemma team_chat:
  assumes "list_all (\<lambda>m. length m \<le> 100 \<and> no_nul m) msgs" "length msgs \<le> 2"
  shows "chat_ok demo_chats (team_fs (map (new_line ''bob'' 1000) msgs)) ''a.chat''"
    "chat_view ''a.chat'' (team_fs (map (new_line ''bob'' 1000) msgs)) = map (new_message ''bob'' 1000) msgs"
proof -
  let ?body = "map (new_line ''bob'' 1000) msgs"
  have st: "list_all stored_line ?body" "readable_rows ?body"
    using assms(1) team_line by (auto simp: list_all_iff readable_rows_def)
  note c = team_content[OF st(1)]
  have len: "length ?body \<le> MAX_MESSAGES" using assms(2) by simp
  have "\<exists>c lw lt ps body. files (team_fs ?body) ''a.chat'' = Some c \<and> is_chat_content c lw lt ps body \<and> readable_rows body
       \<and> length body \<le> MAX_MESSAGES"
    by (rule exI, rule exI, rule exI, rule exI, rule exI, rule conjI, rule c(1)[OF len], rule conjI, rule c(2)[OF len], rule conjI, rule st(2), rule len)
  then show "chat_ok demo_chats (team_fs ?body) ''a.chat''"
    by (simp add: chat_ok_def demo_chats_def)
  have "sendable ''bob'' 1000 m" if "m \<in> set msgs" for m
    using that assms(1) demo_sendable(1) by (auto simp: sendable_def list_all_iff)
  then have "body_messages ?body = map (new_message ''bob'' 1000) msgs"
    by (induction msgs) (simp_all add: line_message_def decode_new_line)
  then show "chat_view ''a.chat'' (team_fs ?body) = map (new_message ''bob'' 1000) msgs"
    using chat_view_content[OF c(1)[OF len] c(2)[OF len]] len by simp
qed


theorem first_message_unseen_witness:
  "check_unread_cb demo_chats ''amy'' 256 (team_fs [new_line ''bob'' 1000 ''hi'']) ''a.chat'' no_unread = Ret (no_unread\<lparr>uc_chat := True\<rparr>)"
  using first_message_unseen[OF _ team_cursor, of "[new_line ''bob'' 1000 ''hi'']" "new_message ''bob'' 1000 ''hi''" no_unread] team_chat[of "[''hi'']"]
  by (simp add: demo_chats_def no_unread_def new_message_def)

theorem long_message_stops_sidecar_witness:
  "chat_client_count_unread_others demo_chats ''a.chat'' ''amy'' 0
     (team_fs [new_line ''bob'' 1000 ''hi'', new_line ''bob'' 1000 (replicate 49152 (CHR ''a''))]) = Abort"
proof -
  let ?long = "replicate 49152 (CHR ''a'')"
  have "no_nul ?long" by (simp add: no_nul_def)
  then have s: "sendable ''bob'' 1000 ?long" using demo_sendable(1) by (simp add: sendable_def)
  have l: "stored_line (new_line ''bob'' 1000 ''hi'')" "length (new_line ''bob'' 1000 ''hi'') < 65536"
    using team_line[of "''hi''"] by (auto simp: readable_rows_def)
  have body: "list_all stored_line ([new_line ''bob'' 1000 ''hi''] @ new_line ''bob'' 1000 ?long # [])" using l(1) stored_new_line[OF s] by simp
  show ?thesis
    using long_message_stops_sidecar[OF team_content[OF body] _ s, of 0 demo_chats "''amy''"] l(2) by (simp add: demo_chats_def)
qed

end
