(* ===== verification/SideTransport.thy ===== *)
theory SideTransport
  imports SideText TermSnapshot
begin

text \<open>
  The session a sidecar watches (src/src/nbs-sidecar/transport_ts.c): the log with what the program
  in the session wrote, the pipe for its input, the file with its process.  The debug log and the
  messages on stderr are not modelled.
\<close>

abbreviation (input) TS_MAX_PATH :: nat where "TS_MAX_PATH \<equiv> 4096"

section \<open>Setting up\<close>

record ts_ctx =
  tc_session_dir :: path
  tc_output_log :: path
  tc_input_fifo :: path
  tc_pid_path :: path

definition resolve_session_dir :: "string option \<Rightarrow> string \<Rightarrow> nat \<Rightarrow> path option" where
  "resolve_session_dir home handle bufsize =
     (case home of None \<Rightarrow> None
      | Some h \<Rightarrow>
          if h = [] then None
          else (let dir = h @ ''/.nbs-ts/sessions/'' @ handle in if length dir \<ge> bufsize then None else Some dir))"

text \<open>\<open>home\<close>: the variable HOME; \<open>is_dir\<close>: what \<open>stat\<close> says; \<open>alloc\<close>: memory for the context.\<close>

definition transport_ts_init :: "string option \<Rightarrow> (path \<Rightarrow> bool) \<Rightarrow> bool \<Rightarrow> string \<Rightarrow> ts_ctx option" where
  "transport_ts_init home is_dir alloc handle =
     (if handle = [] then None
      else if CHR ''/'' \<in> set handle \<or> strstr ''..'' handle \<noteq> None then None
      else (case resolve_session_dir home handle TS_MAX_PATH of
        None \<Rightarrow> None
      | Some session_dir \<Rightarrow>
          if \<not> is_dir session_dir then None
          else if \<not> alloc then None
          else if length session_dir \<ge> TS_MAX_PATH then None
          else if length (session_dir @ ''/output.log'') \<ge> TS_MAX_PATH then None
          else if length (session_dir @ ''/input.fifo'') \<ge> TS_MAX_PATH then None
          else if length (session_dir @ ''/pid'') \<ge> TS_MAX_PATH then None
          else Some \<lparr>tc_session_dir = session_dir, tc_output_log = session_dir @ ''/output.log'',
                     tc_input_fifo = session_dir @ ''/input.fifo'', tc_pid_path = session_dir @ ''/pid''\<rparr>))"

section \<open>Is the program alive\<close>

text \<open>The file with the process, as read: \<open>None\<close> when opening or reading fails.\<close>

definition read_pid :: "string option \<Rightarrow> int" where
  "read_pid content =
     (case content of None \<Rightarrow> -1
      | Some text \<Rightarrow>
         (let buf = take 31 text in
          if buf = [] then -1
          else (let s = cstr (if last buf = nl then butlast buf else buf); r = strtoll s in
            if st_erange r \<or> st_noconv r \<or> st_end r \<noteq> [] then -1
            else if st_val r \<le> 0 then -1
            else sint (word_of_int (st_val r) :: 32 word))))"

datatype kill_result = Signalled | NoProcess | NotPermitted

definition ts_is_alive :: "string option \<Rightarrow> (int \<Rightarrow> kill_result) \<Rightarrow> int" where
  "ts_is_alive content kill =
     (let pid = read_pid content in
      if pid \<le> 0 then -1 else (case kill pid of Signalled \<Rightarrow> 1 | NoProcess \<Rightarrow> 0 | NotPermitted \<Rightarrow> -1))"

section \<open>Sending\<close>

text \<open>What the calls of \<open>write\<close> do: take some bytes, are interrupted, or fail.\<close>

datatype write_call = Took nat | Interrupted | WriteError

record fifo_env =
  fe_open :: bool
  fe_getfl :: bool
  fe_setfl :: bool
  fe_start :: "nat option"
  fe_writes :: "write_call list"
  fe_end :: "nat option"

definition paste_start :: string where "paste_start = CHR 0x1B # ''[200~''"
definition paste_end :: string where "paste_end = CHR 0x1B # ''[201~''"

text \<open>
  The loop over the text: what the pipe got, and whether all of it; \<open>None\<close>: still writing when
  the calls given end.
\<close>

fun write_all :: "write_call list \<Rightarrow> string \<Rightarrow> (bool \<times> string) option" where
  "write_all calls [] = Some (True, [])"
| "write_all [] t = None"
| "write_all (Took n # calls) t =
     (case write_all calls (drop n t) of None \<Rightarrow> None | Some (ok, out) \<Rightarrow> Some (ok, take n t @ out))"
| "write_all (Interrupted # calls) t = write_all calls t"
| "write_all (WriteError # calls) t = Some (False, [])"

text \<open>The result and the bytes in the pipe; of the markers only a failing \<open>write\<close> is an error.\<close>

definition ts_send_text :: "fifo_env \<Rightarrow> string \<Rightarrow> (int \<times> string) option" where
  "ts_send_text e t =
     (if \<not> fe_open e then Some (-1, [])
      else if \<not> fe_getfl e then Some (-1, [])
      else if \<not> fe_setfl e then Some (-1, [])
      else (case fe_start e of
        None \<Rightarrow> Some (-1, [])
      | Some k \<Rightarrow>
         (case write_all (fe_writes e) t of
            None \<Rightarrow> None
          | Some (ok, out) \<Rightarrow>
              if \<not> ok then Some (-1, take k paste_start @ out)
              else (case fe_end e of
                None \<Rightarrow> Some (-1, take k paste_start @ out)
              | Some j \<Rightarrow> Some (0, take k paste_start @ out @ take j paste_end)))))"

definition key_bytes :: "string \<Rightarrow> string" where
  "key_bytes key = (if key = ''Enter'' then [cr] else if key = ''Escape'' then [CHR 0x1B] else key)"

definition ts_send_key :: "fifo_env \<Rightarrow> string \<Rightarrow> int \<times> string" where
  "ts_send_key e key =
     (let bytes = key_bytes key in
      if \<not> fe_open e then (-1, [])
      else if \<not> fe_getfl e then (-1, [])
      else if \<not> fe_setfl e then (-1, [])
      else (case fe_start e of None \<Rightarrow> (-1, []) | Some n \<Rightarrow> (if n \<noteq> length bytes then -1 else 0, take n bytes)))"

section \<open>Capturing the screen\<close>

definition screen_clear :: string where "screen_clear = CHR 0x1B # ''[2J''"

text \<open>The last place where \<open>pat\<close> starts.\<close>

fun last_place :: "string \<Rightarrow> nat \<Rightarrow> string \<Rightarrow> nat option" where
  "last_place pat i [] = None"
| "last_place pat i (c # s) =
     (case last_place pat (Suc i) s of Some k \<Rightarrow> Some k | None \<Rightarrow> if prefix pat (c # s) then Some i else None)"

text \<open>
  \<open>log\<close>: the log when its end was taken.  \<open>got\<close>: how many bytes \<open>pread\<close> returns of the part that is searched,
  \<open>None\<close> when it fails.
\<close>

definition find_last_screen_clear :: "bool \<Rightarrow> nat option \<Rightarrow> string \<Rightarrow> nat \<Rightarrow> nat option" where
  "find_last_screen_clear alloc got log max_scan =
     (if log = [] then None
      else (let scan = min max_scan (length log); scan_pos = length log - scan in
        if \<not> alloc then None
        else (case got of None \<Rightarrow> None
          | Some nr \<Rightarrow> last_place screen_clear scan_pos (take nr (drop scan_pos log)))))"

record capture_env =
  ce_open :: bool
  ce_scan_alloc :: bool
  ce_scan_read :: "nat option"
  ce_create :: bool
  ce_chunks :: "string \<Rightarrow> string list"
  ce_snapshot :: snapshot_env
  ce_empty :: bool

text \<open>
  Where rendering starts: the last clearing of the screen in the last MiB, else the last 64 KiB.
  \<open>ce_chunks\<close>: what the calls of \<open>pread\<close> return of the rest of the log.
\<close>

definition render_start :: "capture_env \<Rightarrow> string \<Rightarrow> nat" where
  "render_start e log =
     (case find_last_screen_clear (ce_scan_alloc e) (ce_scan_read e) log (1024 * 1024) of
        Some k \<Rightarrow> k
      | None \<Rightarrow> if length log > 65536 then length log - 65536 else 0)"

definition ts_capture :: "capture_env \<Rightarrow> string option \<Rightarrow> string option outcome" where
  "ts_capture e log_file =
     (case (if ce_open e then log_file else None) of
        None \<Rightarrow> Ret None
      | Some log \<Rightarrow>
          if log = [] then ASSERT_MSG (ce_empty e) (Ret (Some []))
          else and_then (ts_render_create 24 80) (\<lambda>t.
            if \<not> ce_create e then Ret None
            else and_then (each ts_render_feed (ce_chunks e (drop (render_start e log) log)) t) (\<lambda>t1.
              and_then (ts_render_snapshot (ce_snapshot e) t1) (\<lambda>out.
                case out of
                  None \<Rightarrow> ASSERT_MSG (ce_empty e) (Ret (Some []))
                | Some text \<Rightarrow> Ret (Some (cstr text))))))"

section \<open>Properties\<close>

lemma last_place_range: "last_place pat i s = Some k \<Longrightarrow> i \<le> k \<and> k < i + length s"
  by (induction s arbitrary: i) (fastforce split: option.splits if_splits)+

lemma last_place_found:
  "last_place pat i s = Some k \<Longrightarrow> prefix pat (drop (k - i) s) \<and> (\<forall>j. k < i + j \<and> j < length s \<longrightarrow> \<not> prefix pat (drop j s))"
proof (induction s arbitrary: i)
  case (Cons c s)
  show ?case
  proof (cases "last_place pat (Suc i) s")
    case None
    have "\<not> prefix pat (drop j s)" if "j < length s" for j
      using None that
    proof (induction s arbitrary: i j)
      case (Cons d s)
      then show ?case by (cases j) (auto split: option.splits if_splits)
    qed simp
    then show ?thesis using Cons.prems None by (auto simp: drop_Cons' split: if_splits)
  next
    case (Some k1)
    then have k: "k1 = k" using Cons.prems by simp
    note r = last_place_range[OF Some] and ih = Cons.IH[OF Some[unfolded k]]
    have "prefix pat (drop (k - i) (c # s))" using ih r k by (simp add: drop_Cons' Suc_diff_Suc)
    moreover have "\<not> prefix pat (drop j (c # s))" if "k < i + j" "j < length (c # s)" for j
      using ih r k that by (cases j) auto
    ultimately show ?thesis by blast
  qed
qed simp

text \<open>A search of everything that can be searched.\<close>

definition clear_in :: "string \<Rightarrow> nat \<Rightarrow> bool" where
  "clear_in log k \<longleftrightarrow> prefix screen_clear (drop k log)"

lemma found_clear:
  assumes "find_last_screen_clear True (Some max_scan) log max_scan = Some k"
  shows "clear_in log k" "\<And>j. k < j \<Longrightarrow> \<not> clear_in log j" "length log \<le> k + max_scan"
proof -
  define p where "p = length log - min max_scan (length log)"
  have p: "p \<le> length log" "length (drop p log) \<le> max_scan" by (auto simp: p_def)
  have l: "last_place screen_clear p (drop p log) = Some k"
    using assms p by (auto simp: find_last_screen_clear_def Let_def p_def split: if_splits)
  note r = last_place_range[OF l] and f = last_place_found[OF l]
  show "clear_in log k" using f r by (simp add: clear_in_def)
  show "length log \<le> k + max_scan" using r by (auto simp: p_def)
  fix j assume j: "k < j"
  show "\<not> clear_in log j"
  proof (cases "j < length log")
    case True
    then show ?thesis using f r j p(1) by (auto simp: clear_in_def dest!: spec[of _ "j - p"])
  qed (simp add: clear_in_def screen_clear_def)
qed

lemma feed_whole: "each ts_render_feed chunks t = ts_render_feed (concat chunks) t"
proof (induction chunks arbitrary: t)
  case (Cons c cs)
  then show ?case
    unfolding ts_render_feed_def each.simps concat.simps each_append by (cases "each process_byte c t") simp_all
qed (simp add: ts_render_feed_def)

lemma render_from_clear:
  assumes "ce_scan_alloc e" "ce_scan_read e = Some (1024 * 1024)" "clear_in log k" "length log \<le> k + 1024 * 1024"
    "\<And>j. k < j \<Longrightarrow> \<not> clear_in log j"
  shows "render_start e log = k"
proof -
  let ?n = "1024 * 1024 :: nat"
  have k: "k < length log" using assms(3) by (cases "k < length log") (simp_all add: clear_in_def screen_clear_def)
  define p where "p = length log - min ?n (length log)"
  have pk: "p \<le> k" using assms(4) k by (auto simp: p_def)
  have "last_place screen_clear p (drop p log) \<noteq> None"
  proof
    assume none: "last_place screen_clear p (drop p log) = None"
    have no: "last_place pat i s = None \<Longrightarrow> j < length s \<Longrightarrow> \<not> prefix pat (drop j s)" for pat i s j
    proof (induction s arbitrary: i j)
      case (Cons d s)
      then show ?case by (cases j) (auto split: option.splits if_splits)
    qed simp
    from no[OF none, of "k - p"] show False using assms(3) k pk by (simp add: clear_in_def)
  qed
  then obtain k1 where "last_place screen_clear p (drop p log) = Some k1" by auto
  then have f: "find_last_screen_clear True (Some ?n) log ?n = Some k1"
    using k by (auto simp: find_last_screen_clear_def Let_def p_def)
  have "k1 = k" using found_clear(1,2)[OF f] assms(3,5) by (metis linorder_neqE_nat)
  then show ?thesis using f assms(1,2) by (simp add: render_start_def)
qed

text \<open>C38: What the sidecar sees is the terminal's screen: however the reads split the log, it captures the
  rendering of what follows the last clearing of the screen, when that lies in the last MiB of the
  log.\<close>

theorem capture_from_last_clear:
  assumes "ce_open e" "ce_scan_alloc e" "ce_scan_read e = Some (1024 * 1024)" "ce_create e"
    "\<And>rest. concat (ce_chunks e rest) = rest"
    "clear_in log k" "length log \<le> k + 1024 * 1024" "\<And>j. k < j \<Longrightarrow> \<not> clear_in log j"
    "ts_render_create 24 80 = Ret t" "ts_render_feed (drop k log) t = Ret t1"
    "ts_render_snapshot (ce_snapshot e) t1 = Ret (Some screen)"
  shows "ts_capture e (Some log) = Ret (Some (cstr screen))"
proof -
  have "log \<noteq> []" using assms(6) by (auto simp: clear_in_def screen_clear_def)
  then show ?thesis
    using assms(1,4,5,9-11) render_from_clear[OF assms(2,3,6-8)]
    by (simp add: ts_capture_def feed_whole)
qed

text \<open>C39: No control byte of a program reaches the sidecar's eyes or, through a query, the chat: whatever
  the log holds, capturing never aborts while memory for an empty text is there, and what is
  captured is printable bytes and newlines.\<close>

theorem capture_clean:
  assumes "ce_empty e"
  shows "\<exists>r. ts_capture e log_file = Ret r \<and> (case r of None \<Rightarrow> True | Some screen \<Rightarrow> list_all clean screen)"
proof -
  let ?ok = "\<lambda>r. yields r (case_option True (list_all clean))"
  have cut: "list_all clean shown \<Longrightarrow> list_all clean (cstr shown)" for shown
    by (auto simp: cstr_def list_all_iff dest: set_takeWhileD)
  have snap: "?ok (and_then (ts_render_snapshot (ce_snapshot e) t1) (\<lambda>out.
      case out of None \<Rightarrow> ASSERT_MSG (ce_empty e) (Ret (Some [])) | Some text \<Rightarrow> Ret (Some (cstr text))))"
    if "term_ok t1" "\<not> preserve_sgr t1" for t1
    by (rule yields_and_then[OF snapshot_yields[OF that(1)]])
       (use that(2) assms cut in \<open>auto simp: junk_ok_def split: option.splits\<close>)
  have "?ok (ts_capture e log_file)"
  proof (cases "if ce_open e then log_file else None")
    case None
    then show ?thesis by (simp add: ts_capture_def)
  next
    case (Some log)
    have "?ok (and_then (ts_render_create 24 80) (\<lambda>t.
        if \<not> ce_create e then Ret None
        else and_then (each ts_render_feed (ce_chunks e (drop (render_start e log) log)) t) (\<lambda>t1.
          and_then (ts_render_snapshot (ce_snapshot e) t1) (\<lambda>out.
            case out of None \<Rightarrow> ASSERT_MSG (ce_empty e) (Ret (Some [])) | Some text \<Rightarrow> Ret (Some (cstr text))))))"
    proof (rule yields_and_then[OF create_ok], simp, simp)
      fix t :: ts_render
      assume t: "term_ok t \<and> t_rows t = 24 \<and> t_cols t = 80 \<and> \<not> preserve_sgr t \<and> cursor_row t = 0 \<and> cursor_col t = 0
        \<and> t_state t = STATE_GROUND \<and> utf8_buf t = [] \<and> \<not> pending_wrap t"
      then have ok: "term_ok t" "\<not> preserve_sgr t" by simp_all
      have "?ok (and_then (each ts_render_feed (ce_chunks e (drop (render_start e log) log)) t) (\<lambda>t1.
          and_then (ts_render_snapshot (ce_snapshot e) t1) (\<lambda>out.
            case out of None \<Rightarrow> ASSERT_MSG (ce_empty e) (Ret (Some [])) | Some text \<Rightarrow> Ret (Some (cstr text)))))"
        unfolding feed_whole by (rule yields_and_then[OF feed_kept[OF ok(1)]]) (use snap ok(2) in \<open>auto simp: kept_def\<close>)
      then show "?ok (if \<not> ce_create e then Ret None
        else and_then (each ts_render_feed (ce_chunks e (drop (render_start e log) log)) t) (\<lambda>t1.
          and_then (ts_render_snapshot (ce_snapshot e) t1) (\<lambda>out.
            case out of None \<Rightarrow> ASSERT_MSG (ce_empty e) (Ret (Some [])) | Some text \<Rightarrow> Ret (Some (cstr text)))))" by simp
    qed
    then show ?thesis using Some assms by (simp add: ts_capture_def)
  qed
  then show ?thesis by (rule yieldsE) (auto split: option.splits)
qed

lemma write_all_sent: "write_all calls t = Some (True, out) \<Longrightarrow> out = t"
  by (induction calls t arbitrary: out rule: write_all.induct) (auto split: option.splits)

lemma write_all_prefix: "write_all calls t = Some (ok, out) \<Longrightarrow> prefix out t"
proof (induction calls t arbitrary: out rule: write_all.induct)
  case (3 n calls v va)
  then obtain o1 where o: "write_all calls (drop n (v # va)) = Some (ok, o1)" "out = take n (v # va) @ o1"
    by (auto split: option.splits)
  then have "prefix o1 (drop n (v # va))" using 3(1) by blast
  then obtain r where "drop n (v # va) = o1 @ r" by (auto simp: prefix_def)
  then have "v # va = out @ r" using append_take_drop_id[of n "v # va"] o(2) by simp
  then show ?case by (simp add: prefix_def)
qed auto

text \<open>Text sent to a session arrives whole and as one paste: however the writes split or are
  interrupted, when sending succeeds the pipe got the opening marker, the text and the closing
  marker, and otherwise never more than a beginning of them.\<close>

theorem send_text_whole:
  assumes "ts_send_text e t = Some (rc, out)" "fe_start e = Some (length paste_start)" "fe_end e = Some (length paste_end)"
  shows "prefix out (paste_start @ t @ paste_end) \<and> (rc = 0 \<longrightarrow> out = paste_start @ t @ paste_end)"
proof -
  have "prefix (paste_start @ sent) (paste_start @ t @ paste_end)" if "write_all calls t = Some (ok, sent)" for calls ok sent
    using write_all_prefix[OF that] by (auto simp: prefix_def)
  then show ?thesis
    using assms write_all_sent[of "fe_writes e" t]
    by (auto simp: ts_send_text_def split: if_splits option.splits)
qed

subsection \<open>Witnesses\<close>

definition demo_capture :: capture_env where
  "demo_capture = \<lparr>ce_open = True, ce_scan_alloc = True, ce_scan_read = Some (1024 * 1024), ce_create = True, ce_chunks = (\<lambda>r. [take 3 r, drop 3 r]),
     ce_snapshot = \<lparr>sn_alloc = True, sn_bidi = True, sn_types = True, sn_levels = (\<lambda>_. 0), sn_junk = []\<rparr>, ce_empty = True\<rparr>"

theorem capture_from_last_clear_witness:
  "\<exists>screen. ts_capture demo_capture (Some (''old'' @ screen_clear @ ''hi'')) = Ret (Some screen)"
proof -
  let ?log = "''old'' @ screen_clear @ ''hi''"
  obtain t where t: "ts_render_create 24 80 = Ret t" "term_ok t" "\<not> preserve_sgr t"
    using create_ok[of 24 80] by (auto elim: yieldsE)
  obtain t1 where t1: "ts_render_feed (drop 3 ?log) t = Ret t1" "kept t t1"
    using feed_kept[OF t(2), of "drop 3 ?log"] by (rule yieldsE)
  then have "term_ok t1" "\<not> preserve_sgr t1" using t(3) by (simp_all add: kept_def)
  then obtain screen where s: "ts_render_snapshot (ce_snapshot demo_capture) t1 = Ret (Some screen)"
    using snapshot_yields[of t1 "ce_snapshot demo_capture"] by (auto simp: junk_ok_def demo_capture_def elim!: yieldsE split: option.splits)
  have later: "\<not> clear_in ?log j" if "3 < j" for j
  proof (cases "j < 9")
    case True
    then have "j \<in> {4, 5, 6, 7, 8}" using that by auto
    then show ?thesis by (auto simp: clear_in_def screen_clear_def)
  next
    case False
    then show ?thesis by (simp add: clear_in_def screen_clear_def)
  qed
  show ?thesis
    using capture_from_last_clear[OF _ _ _ _ _ _ _ later t(1) t1(1) s]
    by (simp add: demo_capture_def clear_in_def screen_clear_def)
qed

theorem capture_clean_witness:
  "\<exists>r. ts_capture demo_capture (Some (CHR 0x1B # ''[2Jhi'')) = Ret r \<and> (case r of None \<Rightarrow> True | Some screen \<Rightarrow> list_all clean screen)"
  by (rule capture_clean) (simp add: demo_capture_def)

theorem send_text_whole_witness:
  "let e = \<lparr>fe_open = True, fe_getfl = True, fe_setfl = True, fe_start = Some 6, fe_writes = [Took 1, Interrupted, Took 5], fe_end = Some 6\<rparr>
   in ts_send_text e ''hi'' = Some (0, paste_start @ ''hi'' @ paste_end)"
proof -
  let ?e = "\<lparr>fe_open = True, fe_getfl = True, fe_setfl = True, fe_start = Some 6, fe_writes = [Took 1, Interrupted, Took 5], fe_end = Some 6\<rparr>"
  have "\<exists>out. ts_send_text ?e ''hi'' = Some (0, out)" by (simp add: ts_send_text_def)
  then obtain out where o: "ts_send_text ?e ''hi'' = Some (0, out)" by blast
  then show ?thesis using send_text_whole[OF o] by (simp add: Let_def paste_start_def paste_end_def)
qed

end
