(* ===== verification/SideConfig.thy ===== *)
theory SideConfig
  imports SideText
begin

text \<open>
  The configuration of a sidecar (src/src/nbs-sidecar/sidecar.h) and how it comes about: the
  environment, the arguments, the checks of src/src/nbs-sidecar/main.c and those of
  \<open>sidecar_config_validate\<close>.  The usage text, the log file and the warnings are not modelled;
  ignoring signals is.
\<close>

abbreviation (input) SIDECAR_MAX_PATH :: nat where "SIDECAR_MAX_PATH \<equiv> 4096"
abbreviation (input) SIDECAR_MAX_HANDLE :: nat where "SIDECAR_MAX_HANDLE \<equiv> 64"
abbreviation (input) SIDECAR_MAX_CONTENT :: nat where "SIDECAR_MAX_CONTENT \<equiv> 32768"
abbreviation (input) SIDECAR_MAX_MESSAGE :: nat where "SIDECAR_MAX_MESSAGE \<equiv> 256"
abbreviation (input) SIDECAR_MAX_PROMPT :: nat where "SIDECAR_MAX_PROMPT \<equiv> 4096"
abbreviation (input) SIDECAR_EXIT_OK :: int where "SIDECAR_EXIT_OK \<equiv> 0"
abbreviation (input) SIDECAR_EXIT_ERROR :: int where "SIDECAR_EXIT_ERROR \<equiv> 1"
abbreviation (input) SIDECAR_EXIT_BAD_ARGS :: int where "SIDECAR_EXIT_BAD_ARGS \<equiv> 4"
abbreviation (input) ENV_INT_MAX :: int where "ENV_INT_MAX \<equiv> 100000"

record sidecar_config =
  sc_handle :: string
  sc_nbs_root :: string
  sc_session_name :: string
  sc_initial_prompt :: string
  sc_log_file :: string
  sc_bus_check_interval :: int
  sc_notify_cooldown :: int
  sc_startup_grace :: int
  sc_notify_fail_threshold :: int
  sc_flush_interval :: int
  sc_poll_interval :: int
  sc_fixup_interval :: int
  sc_librarian_interval :: int
  sc_pythia_interval :: int
  sc_shepard_interval :: int
  sc_remote_host :: string
  sc_remote_ssh_opts :: string

section \<open>Validation\<close>

definition handle_char :: "char \<Rightarrow> bool" where
  "handle_char c \<longleftrightarrow> isalnum c \<or> c = CHR ''_'' \<or> c = CHR ''-''"

definition sidecar_config_validate :: "sidecar_config \<Rightarrow> int" where
  "sidecar_config_validate cfg =
     (let bad_handle = (if sc_handle cfg = [] then True else list_ex (\<lambda>c. \<not> handle_char c) (sc_handle cfg));
          bad_root = (if sc_nbs_root cfg = [] then True else hd (sc_nbs_root cfg) \<noteq> CHR ''/'');
          ok = \<not> bad_handle \<and> \<not> bad_root
            \<and> \<not> sc_bus_check_interval cfg \<le> 0 \<and> \<not> sc_notify_fail_threshold cfg \<le> 0
            \<and> \<not> sc_notify_cooldown cfg < 0 \<and> \<not> sc_startup_grace cfg < 0
            \<and> \<not> sc_librarian_interval cfg < 0 \<and> \<not> sc_pythia_interval cfg < 0 \<and> \<not> sc_shepard_interval cfg < 0
      in if ok then 0 else -1)"

section \<open>The environment and the arguments\<close>

definition sanitise_for_display :: "nat \<Rightarrow> string \<Rightarrow> string" where
  "sanitise_for_display dst_size src =
     map (\<lambda>c. if 0x20 \<le> uchar c \<and> uchar c < 0x7F then c else CHR ''?'') (take (dst_size - 1) (cstr src))"

text \<open>A variable that is unset is like one that is empty.\<close>

type_synonym environ = "string \<Rightarrow> string"

definition env_int :: "environ \<Rightarrow> string \<Rightarrow> int \<Rightarrow> int" where
  "env_int env name default_val =
     (if env name = [] then default_val
      else (let r = strtoll (env name); v = st_val r in
        if st_end r \<noteq> [] \<or> st_erange r \<or> v < 0 \<or> v > ENV_INT_MAX then default_val
        else if v = 0 \<and> default_val > 0 then default_val
        else v))"

definition env_str :: "environ \<Rightarrow> string \<Rightarrow> nat \<Rightarrow> string" where
  "env_str env name buf_size = snprintf buf_size (env name)"

definition is_valid_handle :: "string \<Rightarrow> bool" where
  "is_valid_handle h \<longleftrightarrow> h \<noteq> [] \<and> length h < SIDECAR_MAX_HANDLE \<and> list_all handle_char h"

definition env_config :: "environ \<Rightarrow> sidecar_config" where
  "env_config env =
     \<lparr>sc_handle = env_str env ''NBS_HANDLE'' SIDECAR_MAX_HANDLE,
      sc_nbs_root = env_str env ''NBS_ROOT'' SIDECAR_MAX_PATH,
      sc_session_name = [],
      sc_initial_prompt = env_str env ''NBS_INITIAL_PROMPT'' SIDECAR_MAX_PROMPT,
      sc_log_file = [],
      sc_bus_check_interval = env_int env ''NBS_BUS_CHECK_INTERVAL'' 3,
      sc_notify_cooldown = env_int env ''NBS_NOTIFY_COOLDOWN'' 15,
      sc_startup_grace = env_int env ''NBS_STARTUP_GRACE'' 30,
      sc_notify_fail_threshold = env_int env ''NBS_NOTIFY_FAIL_THRESHOLD'' 5,
      sc_flush_interval = env_int env ''NBS_FLUSH_INTERVAL'' 60,
      sc_poll_interval = env_int env ''NBS_POLL_INTERVAL'' 0,
      sc_fixup_interval = env_int env ''NBS_FIXUP_INTERVAL'' (61 * 60),
      sc_librarian_interval = env_int env ''NBS_LIBRARIAN_INTERVAL'' (23 * 60),
      sc_pythia_interval = env_int env ''NBS_PYTHIA_INTERVAL'' (37 * 60),
      sc_shepard_interval = env_int env ''NBS_SHEPARD_INTERVAL'' (31 * 60),
      sc_remote_host = env_str env ''NBS_REMOTE_HOST'' 256,
      sc_remote_ssh_opts = env_str env ''NBS_REMOTE_SSH_OPTS'' 512\<rparr>"

text \<open>A value that does not fit its buffer is an error; \<open>Inl\<close> the exit code.\<close>

definition fit_arg :: "nat \<Rightarrow> string \<Rightarrow> (string \<Rightarrow> sidecar_config) \<Rightarrow> int + sidecar_config" where
  "fit_arg buf_size v set_field = (if length v \<ge> buf_size then Inl SIDECAR_EXIT_BAD_ARGS else Inr (set_field v))"

definition sidecar_arg :: "string \<Rightarrow> sidecar_config \<Rightarrow> int + sidecar_config" where
  "sidecar_arg a cfg =
     (if prefix ''--handle='' a then fit_arg SIDECAR_MAX_HANDLE (drop 9 a) (\<lambda>v. cfg\<lparr>sc_handle := v\<rparr>)
      else if prefix ''--root='' a then fit_arg SIDECAR_MAX_PATH (drop 7 a) (\<lambda>v. cfg\<lparr>sc_nbs_root := v\<rparr>)
      else if prefix ''--transport='' a then (if drop 12 a = ''ts'' then Inr cfg else Inl SIDECAR_EXIT_BAD_ARGS)
      else if prefix ''--session='' a then fit_arg 256 (drop 10 a) (\<lambda>v. cfg\<lparr>sc_session_name := v\<rparr>)
      else if prefix ''--initial-prompt='' a then fit_arg SIDECAR_MAX_PROMPT (drop 17 a) (\<lambda>v. cfg\<lparr>sc_initial_prompt := v\<rparr>)
      else if prefix ''--log='' a then fit_arg SIDECAR_MAX_PATH (drop 6 a) (\<lambda>v. cfg\<lparr>sc_log_file := v\<rparr>)
      else if a = ''--help'' \<or> a = ''-h'' then Inl SIDECAR_EXIT_OK
      else Inl SIDECAR_EXIT_BAD_ARGS)"

fun sidecar_args :: "string list \<Rightarrow> sidecar_config \<Rightarrow> int + sidecar_config" where
  "sidecar_args [] cfg = Inr cfg"
| "sidecar_args (a # as) cfg = (case sidecar_arg a cfg of Inl code \<Rightarrow> Inl code | Inr cfg1 \<Rightarrow> sidecar_args as cfg1)"

definition announced :: "sidecar_config \<Rightarrow> string" where
  "announced cfg = ''Your NBS handle is '' @ [CHR 0x27] @ sc_handle cfg @ [CHR 0x27] @ ''. ''"

text \<open>The handle goes before the prompt; a prompt that then would not fit stays as it is.\<close>

definition with_prompt :: "sidecar_config \<Rightarrow> int + sidecar_config" where
  "with_prompt cfg =
     (if sc_initial_prompt cfg = [] then
        (let p = announced cfg @ ''Load /nbs-teams-chat. Use this handle for all nbs-chat send commands.'' in
         if length p \<ge> SIDECAR_MAX_PROMPT then Inl SIDECAR_EXIT_BAD_ARGS else Inr (cfg\<lparr>sc_initial_prompt := p\<rparr>))
      else (let p = announced cfg @ sc_initial_prompt cfg in
         Inr (if length p < SIDECAR_MAX_PROMPT then cfg\<lparr>sc_initial_prompt := p\<rparr> else cfg)))"

text \<open>
  Everything before \<open>sidecar_run\<close>: the configuration to run with or the exit code.  \<open>exists\<close>:
  what \<open>access\<close> says of the root; \<open>hup\<close>, \<open>pipe\<close>: the signals can be ignored; \<open>reopen\<close>: the log file
  can be opened.
\<close>

record main_calls =
  mc_exists :: "path \<Rightarrow> bool"
  mc_hup :: bool
  mc_pipe :: bool
  mc_reopen :: "path \<Rightarrow> bool"

definition check_required :: "main_calls \<Rightarrow> sidecar_config \<Rightarrow> int + sidecar_config" where
  "check_required c cfg =
     (if sc_handle cfg = [] then Inl SIDECAR_EXIT_BAD_ARGS
      else if \<not> is_valid_handle (sc_handle cfg) then Inl SIDECAR_EXIT_BAD_ARGS
      else if sc_nbs_root cfg = [] then Inl SIDECAR_EXIT_BAD_ARGS
      else if hd (sc_nbs_root cfg) \<noteq> CHR ''/'' then Inl SIDECAR_EXIT_BAD_ARGS
      else if \<not> mc_exists c (sc_nbs_root cfg) then Inl SIDECAR_EXIT_BAD_ARGS
      else if sc_session_name cfg = [] then Inl SIDECAR_EXIT_BAD_ARGS
      else with_prompt cfg)"

definition timing_asserted :: "sidecar_config \<Rightarrow> bool" where
  "timing_asserted cfg \<longleftrightarrow>
     (sc_bus_check_interval cfg > 0 \<and> sc_bus_check_interval cfg < sc_notify_cooldown cfg)
     \<and> (sc_startup_grace cfg = 0 \<or> sc_startup_grace cfg \<ge> sc_bus_check_interval cfg)
     \<and> sc_fixup_interval cfg \<ge> 0 \<and> sc_librarian_interval cfg \<ge> 0 \<and> sc_pythia_interval cfg \<ge> 0 \<and> sc_shepard_interval cfg \<ge> 0"

definition sidecar_setup :: "main_calls \<Rightarrow> environ \<Rightarrow> string list \<Rightarrow> (int + sidecar_config) outcome" where
  "sidecar_setup c env args =
     (case sidecar_args args (env_config env) of
        Inl code \<Rightarrow> Ret (Inl code)
      | Inr cfg \<Rightarrow>
          ASSERT_MSG (timing_asserted cfg)
            (case check_required c cfg of
               Inl code \<Rightarrow> Ret (Inl code)
             | Inr cfg1 \<Rightarrow>
                 ASSERT_MSG (mc_hup c) (ASSERT_MSG (mc_pipe c)
                   (if sc_log_file cfg1 \<noteq> [] \<and> \<not> mc_reopen c (sc_log_file cfg1) then Ret (Inl SIDECAR_EXIT_ERROR)
                    else if sidecar_config_validate cfg1 \<noteq> 0 then Ret (Inl SIDECAR_EXIT_BAD_ARGS)
                    else Ret (Inr cfg1)))))"

section \<open>Properties\<close>

definition sane :: "sidecar_config \<Rightarrow> bool" where
  "sane cfg \<longleftrightarrow> 0 < sc_bus_check_interval cfg \<and> 0 < sc_notify_cooldown cfg \<and> 0 < sc_startup_grace cfg
     \<and> 0 < sc_notify_fail_threshold cfg \<and> 0 \<le> sc_poll_interval cfg
     \<and> (\<forall>v \<in> {sc_fixup_interval cfg, sc_librarian_interval cfg, sc_pythia_interval cfg, sc_shepard_interval cfg}. 0 < v)
     \<and> length (sc_nbs_root cfg) < SIDECAR_MAX_PATH \<and> length (sc_initial_prompt cfg) < SIDECAR_MAX_PROMPT"

lemma env_int_pos: "0 < d \<Longrightarrow> 0 < env_int env name d" and env_int_nonneg: "0 \<le> d \<Longrightarrow> 0 \<le> env_int env name d"
  by (auto simp: env_int_def Let_def)

lemma sane_env: "sane (env_config env)"
  by (auto simp: sane_def env_config_def env_str_def snprintf_def intro: env_int_pos env_int_nonneg)

lemma sane_arg: "sidecar_arg a cfg = Inr cfg1 \<Longrightarrow> sane cfg \<Longrightarrow> sane cfg1"
  by (auto simp: sidecar_arg_def fit_arg_def sane_def split: if_splits)

lemma sane_args: "sidecar_args as cfg = Inr cfg1 \<Longrightarrow> sane cfg \<Longrightarrow> sane cfg1"
  by (induction as cfg rule: sidecar_args.induct) (auto split: sum.splits dest: sane_arg)

text \<open>A configuration with another prompt that still fits.\<close>

definition reprompted :: "sidecar_config \<Rightarrow> sidecar_config \<Rightarrow> bool" where
  "reprompted cfg cfg1 \<longleftrightarrow> (\<exists>p. cfg1 = cfg\<lparr>sc_initial_prompt := p\<rparr> \<and> p \<noteq> [] \<and> length p < SIDECAR_MAX_PROMPT)"

lemma with_prompt_ok: "with_prompt cfg = Inr cfg1 \<Longrightarrow> sane cfg \<Longrightarrow> reprompted cfg cfg1"
proof -
  assume a: "with_prompt cfg = Inr cfg1" "sane cfg"
  consider p where "cfg1 = cfg\<lparr>sc_initial_prompt := p\<rparr>" "p \<noteq> []" "length p < SIDECAR_MAX_PROMPT" | "cfg1 = cfg" "sc_initial_prompt cfg \<noteq> []"
    using a(1) by (auto simp: with_prompt_def announced_def Let_def split: if_splits)
  then show ?thesis
  proof cases
    case 2
    then have "cfg1 = cfg\<lparr>sc_initial_prompt := sc_initial_prompt cfg\<rparr>" by simp
    then show ?thesis using 2 a(2) unfolding reprompted_def sane_def by blast
  qed (auto simp: reprompted_def)
qed



end
