(* ===== verification/SideTriggers.thy ===== *)
theory SideTriggers
  imports SideExec
begin

text \<open>
  The periodic triggers of the sidecars (src/src/nbs-sidecar/triggers.c): every sidecar looks once
  a minute whether a worker is due, and the sidecars of a team share one file with the time of
  the last run and one lock.  First the code of one sidecar, then the interleaving of all of
  them.
\<close>

section \<open>The four triggers\<close>

record trigger_periodic =
  tp_name :: string
  tp_ts_filename :: string
  tp_lock_filename :: string
  tp_role :: string
  tp_skill_file :: string
  tp_task_desc :: string
  tp_first_delay_secs :: int

definition TRIGGER_DESC_PYTHIA :: string where
  "TRIGGER_DESC_PYTHIA = ''Your handle is '' @ [CHR 0x27] @ ''pythia'' @ [CHR 0x27] @ '' '' @ [CHR 0xE2, CHR 0x80, CHR 0x94]
     @ '' use this for all nbs-chat send commands. Read the last 500 lines of .nbs/scribe/live-log.md ''
     @ ''(do NOT read the full file). Run the checkpoint procedure. ''
     @ ''Post assessment to chat as pythia. Then stop '' @ [CHR 0xE2, CHR 0x80, CHR 0x94] @ '' do not do anything else.''"

definition TRIGGER_DESC_SHEPARD :: string where
  "TRIGGER_DESC_SHEPARD = ''Your handle is '' @ [CHR 0x27] @ ''shepard'' @ [CHR 0x27] @ '' '' @ [CHR 0xE2, CHR 0x80, CHR 0x94]
     @ '' use this for all nbs-chat send commands. Check agent liveness by listing nbs-ts sessions ''
     @ ''and capturing panes. Read the last 20 chat messages directly ''
     @ ''(do NOT launch sub-agents). Post a brief assessment to chat as shepard. ''
     @ ''Then stop '' @ [CHR 0xE2, CHR 0x80, CHR 0x94] @ '' do not do anything else after posting.''"

definition TRIGGER_DESC_FIXUP :: string where
  "TRIGGER_DESC_FIXUP = ''Your handle is '' @ [CHR 0x27] @ ''fixup'' @ [CHR 0x27] @ '' '' @ [CHR 0xE2, CHR 0x80, CHR 0x94]
     @ '' use this for all nbs-chat send commands. Run /nbs-teams-fixup on all agents. ''
     @ ''Post summary to chat as fixup. Then stop '' @ [CHR 0xE2, CHR 0x80, CHR 0x94] @ '' do not do anything else after posting.''"

definition TRIGGER_DESC_LIBRARIAN :: string where
  "TRIGGER_DESC_LIBRARIAN = ''Your handle is '' @ [CHR 0x27] @ ''librarian'' @ [CHR 0x27] @ '' '' @ [CHR 0xE2, CHR 0x80, CHR 0x94]
     @ '' use this for all nbs-chat send commands. Read last 100 chat messages via nbs-chat read. ''
     @ ''Search scribe log for answers to questions or blockers the team is ''
     @ ''stuck on. Post findings with @team! tag as librarian. If scribe has nothing ''
     @ ''relevant, stay silent. Then stop '' @ [CHR 0xE2, CHR 0x80, CHR 0x94] @ '' do not do anything else.''"

definition TRIGGER_PYTHIA :: trigger_periodic where
  "TRIGGER_PYTHIA = \<lparr>tp_name = ''pythia'', tp_ts_filename = ''pythia-last-run'', tp_lock_filename = ''pythia.lock'',
     tp_role = ''pythia'', tp_skill_file = ''commands/nbs-pythia.md'', tp_task_desc = TRIGGER_DESC_PYTHIA,
     tp_first_delay_secs = 13 * 60\<rparr>"

definition TRIGGER_SHEPARD :: trigger_periodic where
  "TRIGGER_SHEPARD = \<lparr>tp_name = ''shepard'', tp_ts_filename = ''shepard-last-run'', tp_lock_filename = ''shepard.lock'',
     tp_role = ''shepard'', tp_skill_file = ''commands/nbs-shepard.md'', tp_task_desc = TRIGGER_DESC_SHEPARD,
     tp_first_delay_secs = 17 * 60\<rparr>"

definition TRIGGER_FIXUP :: trigger_periodic where
  "TRIGGER_FIXUP = \<lparr>tp_name = ''fixup'', tp_ts_filename = ''fixup-last-run'', tp_lock_filename = ''fixup.lock'',
     tp_role = ''fixup'', tp_skill_file = ''commands/nbs-fixup-auto.md'', tp_task_desc = TRIGGER_DESC_FIXUP,
     tp_first_delay_secs = 11 * 60\<rparr>"

definition TRIGGER_LIBRARIAN :: trigger_periodic where
  "TRIGGER_LIBRARIAN = \<lparr>tp_name = ''librarian'', tp_ts_filename = ''librarian-last-run'', tp_lock_filename = ''librarian.lock'',
     tp_role = ''librarian'', tp_skill_file = ''commands/nbs-librarian.md'', tp_task_desc = TRIGGER_DESC_LIBRARIAN,
     tp_first_delay_secs = 5 * 60\<rparr>"

section \<open>The file with the last run\<close>

record stamp_env =
  sp_mkstemp :: bool
  sp_fdopen :: bool
  sp_print :: bool
  sp_close :: bool
  sp_rename :: bool

definition nbs_file :: "string \<Rightarrow> string \<Rightarrow> path" where
  "nbs_file nbs_root name = nbs_root @ ''/.nbs/'' @ name"

text \<open>\<open>fscanf\<close> with \<open>%lld\<close>: 0 when the file is missing or holds no number.\<close>

definition read_last_run :: "bool \<Rightarrow> string \<Rightarrow> string \<Rightarrow> fs \<Rightarrow> int outcome" where
  "read_last_run can_open nbs_root ts_filename s =
     ASSERT_MSG (length (nbs_file nbs_root ts_filename) < 4096)
      (case (if can_open then files s (nbs_file nbs_root ts_filename) else None) of
         None \<Rightarrow> Ret 0
       | Some content \<Rightarrow> (let r = strtoll content in Ret (if st_noconv r then 0 else st_val r)))"

definition write_last_run :: "stamp_env \<Rightarrow> string \<Rightarrow> string \<Rightarrow> int \<Rightarrow> fs \<Rightarrow> unit outcome \<times> fs" where
  "write_last_run e nbs_root ts_filename when s =
     (let path = nbs_file nbs_root ts_filename in
      if \<not> length path < 4096 then (Abort, s)
      else if \<not> length path + 7 < 4096 then (Abort, s)
      else if \<not> sp_mkstemp e then (Ret (), s)
      else if \<not> sp_fdopen e then (Ret (), s)
      else if \<not> sp_print e then (Ret (), s)
      else if \<not> sp_close e then (Ret (), s)
      else if \<not> sp_rename e then (Ret (), s)
      else (Ret (), put_file path (dec when @ [nl]) s))"

section \<open>Is a worker running\<close>

text \<open>The second of the fields of a line, which tabs separate; \<open>None\<close> without a tab.\<close>

definition status_field :: "string \<Rightarrow> string option" where
  "status_field line =
     (if CHR 0x09 \<notin> set line then None
      else Some (takeWhile (\<lambda>c. c \<noteq> CHR 0x09) (drop 1 (dropWhile (\<lambda>c. c \<noteq> CHR 0x09) line))))"

text \<open>\<open>strtok_r\<close> at newlines gives the lines that are not empty.\<close>

definition list_alive :: "string \<Rightarrow> bool" where
  "list_alive out \<longleftrightarrow> list_ex (\<lambda>line. status_field line = Some ''alive'') (filter (\<lambda>l. l \<noteq> []) (split_lines [] out))"

text \<open>\<open>ls\<close>: what \<open>nbs-ts list\<close> prints for a name prefix.\<close>

definition worker_session_active :: "exec_env \<Rightarrow> (string \<Rightarrow> child) \<Rightarrow> string \<Rightarrow> bool" where
  "worker_session_active e ls role =
     (let prefix_arg = ''--name=nbs-'' @ role @ ''-worker-'' in
      if length prefix_arg \<ge> 128 then False
      else (case exec_capture e (ls prefix_arg) 8192 of (rc, out) \<Rightarrow> if rc \<noteq> 0 then False else list_alive out))"

section \<open>One check\<close>

text \<open>
  The environment of one check: the times of its four readings of the clock, which calls succeed,
  what the list of sessions says, and how the spawned program ends.
\<close>

record trig_env =
  te_now :: int
  te_ts_open :: bool
  te_seed :: stamp_env
  te_lock_open :: bool
  te_lock :: bool
  te_ts_open2 :: bool
  te_now2 :: int
  te_list :: exec_env
  te_sessions :: "string \<Rightarrow> child"
  te_now3 :: int
  te_stamp :: stamp_env
  te_workers :: string
  te_spawn :: exec_env
  te_child :: child

definition spawn_argv :: "string \<Rightarrow> string \<Rightarrow> trigger_periodic \<Rightarrow> string list" where
  "spawn_argv workers nbs_root t =
     [workers, ''spawn'', tp_role t, nbs_root, snprintf 4096 (''--skill='' @ tp_skill_file t), tp_task_desc t]"

text \<open>The result, the program started if any, and the files.\<close>

definition trigger_periodic_spawn ::
  "trig_env \<Rightarrow> string \<Rightarrow> trigger_periodic \<Rightarrow> fs \<Rightarrow> int outcome \<times> string list option \<times> fs" where
  "trigger_periodic_spawn e nbs_root t s =
     (if \<not> length (nbs_file nbs_root (tp_lock_filename t)) < 4096 then (Abort, None, s)
      else if \<not> te_lock_open e then (Ret (-1), None, s)
      else if \<not> te_lock e then (Ret 1, None, s)
      else (case read_last_run (te_ts_open2 e) nbs_root (tp_ts_filename t) s of
        Abort \<Rightarrow> (Abort, None, s)
      | Ret recheck \<Rightarrow>
          if recheck > 0 \<and> te_now2 e - recheck < 120 then (Ret 1, None, s)
          else if worker_session_active (te_list e) (te_sessions e) (tp_role t) then (Ret 1, None, s)
          else (case write_last_run (te_stamp e) nbs_root (tp_ts_filename t) (te_now3 e) s of
            (Abort, s1) \<Rightarrow> (Abort, None, s1)
          | (Ret _, s1) \<Rightarrow>
              (Ret (if exec_fire_and_forget (te_spawn e) (te_child e) = 0 then 0 else -1),
               if xe_fork (te_spawn e) then Some (spawn_argv (te_workers e) nbs_root t) else None, s1))))"

text \<open>Once the interval is over the result is 0, whatever the spawning said.\<close>

definition trigger_periodic_check ::
  "trig_env \<Rightarrow> string \<Rightarrow> int \<Rightarrow> trigger_periodic \<Rightarrow> fs \<Rightarrow> int outcome \<times> string list option \<times> fs" where
  "trigger_periodic_check e nbs_root interval_secs t s =
     (if \<not> interval_secs > 0 then (Abort, None, s)
      else (case read_last_run (te_ts_open e) nbs_root (tp_ts_filename t) s of
        Abort \<Rightarrow> (Abort, None, s)
      | Ret last_run \<Rightarrow>
          if last_run = 0 then
            (case write_last_run (te_seed e) nbs_root (tp_ts_filename t) (te_now e - interval_secs + tp_first_delay_secs t) s of
               (Abort, s1) \<Rightarrow> (Abort, None, s1)
             | (Ret _, s1) \<Rightarrow> (Ret 1, None, s1))
          else if te_now e - last_run < interval_secs then (Ret 1, None, s)
          else (case trigger_periodic_spawn e nbs_root t s of
            (Abort, r) \<Rightarrow> (Abort, r)
          | (Ret rc, r) \<Rightarrow> (Ret 0, r))))"

text \<open>What is written is read back.\<close>

lemma read_stamp:
  assumes "LLONG_MIN \<le> t" "t \<le> LLONG_MAX" "length (nbs_file root f) < 4096"
  shows "read_last_run True root f (put_file (nbs_file root f) (dec t @ [nl]) s) = Ret t"
proof -
  have "strtoll (dec t @ [nl]) = \<lparr>st_val = t, st_end = [nl], st_noconv = False, st_erange = False\<rparr>"
    by (rule strtoll_dec) (use assms in \<open>simp_all add: isdigit_def\<close>)
  then show ?thesis using assms(3) by (simp add: read_last_run_def put_file_def)
qed

section \<open>All sidecars together\<close>

text \<open>
  Every sidecar runs the check again and again; the steps of different sidecars interleave.
  A sidecar is idle, has seen no time and is about to write the first one, has seen that the
  interval is over, holds the lock, has read the time again, has decided to run, has read the
  clock for the new time, or has written it - or failed to - and is starting the worker.  \<open>rc_stamp\<close> is what
  \<open>read_last_run\<close> finds, \<open>rc_log\<close> the times written, the latest first.
\<close>

datatype trig_phase = Idle | Seeding int | Elapsed | Locked | Rechecked int | Cleared | Stamping int | Spawning

datatype stamp = Seeded int | Claimed int

record race =
  rc_now :: int
  rc_stamp :: int
  rc_holder :: "nat option"
  rc_phase :: "nat \<Rightarrow> trig_phase"
  rc_log :: "stamp list"

definition goes :: "nat \<Rightarrow> trig_phase \<Rightarrow> race \<Rightarrow> race" where
  "goes i ph r = r\<lparr>rc_phase := (rc_phase r)(i := ph)\<rparr>"

inductive trig_step :: "int \<Rightarrow> int \<Rightarrow> race \<Rightarrow> race \<Rightarrow> bool" for interval first_delay where
  tick: "rc_now r \<le> t \<Longrightarrow> trig_step interval first_delay r (r\<lparr>rc_now := t\<rparr>)"
| see_none: "rc_phase r i = Idle \<Longrightarrow> rc_stamp r = 0 \<Longrightarrow> trig_step interval first_delay r (goes i (Seeding (rc_now r)) r)"
| seed: "rc_phase r i = Seeding t \<Longrightarrow> v = t - interval + first_delay \<Longrightarrow>
    trig_step interval first_delay r (goes i Idle (r\<lparr>rc_stamp := v, rc_log := Seeded v # rc_log r\<rparr>))"
| see_due: "rc_phase r i = Idle \<Longrightarrow> rc_stamp r \<noteq> 0 \<Longrightarrow> rc_now r - rc_stamp r \<ge> interval \<Longrightarrow>
    trig_step interval first_delay r (goes i Elapsed r)"
| busy: "rc_phase r i = Elapsed \<Longrightarrow> rc_holder r \<noteq> None \<Longrightarrow> trig_step interval first_delay r (goes i Idle r)"
| lock: "rc_phase r i = Elapsed \<Longrightarrow> rc_holder r = None \<Longrightarrow>
    trig_step interval first_delay r (goes i Locked (r\<lparr>rc_holder := Some i\<rparr>))"
| reread: "rc_phase r i = Locked \<Longrightarrow> trig_step interval first_delay r (goes i (Rechecked (rc_stamp r)) r)"
| bail: "rc_phase r i = Rechecked v \<Longrightarrow> v > 0 \<and> rc_now r - v < 120 \<Longrightarrow>
    trig_step interval first_delay r (goes i Idle (r\<lparr>rc_holder := None\<rparr>))"
| clear: "rc_phase r i = Rechecked v \<Longrightarrow> \<not> (v > 0 \<and> rc_now r - v < 120) \<Longrightarrow>
    trig_step interval first_delay r (goes i Cleared r)"
| active: "rc_phase r i = Cleared \<Longrightarrow> trig_step interval first_delay r (goes i Idle (r\<lparr>rc_holder := None\<rparr>))"
| clock: "rc_phase r i = Cleared \<Longrightarrow> trig_step interval first_delay r (goes i (Stamping (rc_now r)) r)"
| claim: "rc_phase r i = Stamping t \<Longrightarrow>
    trig_step interval first_delay r (goes i Spawning (r\<lparr>rc_stamp := t, rc_log := Claimed t # rc_log r\<rparr>))"
| claim_fails: "rc_phase r i = Stamping t \<Longrightarrow> trig_step interval first_delay r (goes i Spawning r)"
| unlock: "rc_phase r i = Spawning \<Longrightarrow> trig_step interval first_delay r (goes i Idle (r\<lparr>rc_holder := None\<rparr>))"

inductive trig_reach :: "int \<Rightarrow> int \<Rightarrow> race \<Rightarrow> bool" for interval first_delay where
  start: "0 < rc_now r \<Longrightarrow> rc_holder r = None \<Longrightarrow> rc_phase r = (\<lambda>_. Idle) \<Longrightarrow> rc_log r = [] \<Longrightarrow> trig_reach interval first_delay r"
| step: "trig_reach interval first_delay r \<Longrightarrow> trig_step interval first_delay r r' \<Longrightarrow> trig_reach interval first_delay r'"

fun in_section :: "trig_phase \<Rightarrow> bool" where
  "in_section Idle = False"
| "in_section (Seeding _) = False"
| "in_section Elapsed = False"
| "in_section _ = True"

text \<open>The last time written, when a sidecar wrote it to run the worker.\<close>

fun last_claim :: "stamp list \<Rightarrow> int option" where
  "last_claim (Claimed c # log) = Some c"
| "last_claim _ = None"

fun apart :: "stamp list \<Rightarrow> bool" where
  "apart [] = True"
| "apart (Seeded v # log) = apart log"
| "apart (Claimed c # log) = ((case last_claim log of None \<Rightarrow> True | Some b \<Rightarrow> c - b \<ge> 120) \<and> apart log)"

fun phase_ok :: "race \<Rightarrow> trig_phase \<Rightarrow> bool" where
  "phase_ok r (Rechecked v) = (\<forall>c. last_claim (rc_log r) = Some c \<longrightarrow> v = c)"
| "phase_ok r Cleared = (\<forall>c. last_claim (rc_log r) = Some c \<longrightarrow> rc_now r - c \<ge> 120)"
| "phase_ok r (Stamping t) = (0 < t \<and> t \<le> rc_now r \<and> (\<forall>c. last_claim (rc_log r) = Some c \<longrightarrow> t - c \<ge> 120))"
| "phase_ok r _ = True"

definition trig_inv :: "race \<Rightarrow> bool" where
  "trig_inv r \<longleftrightarrow> 0 < rc_now r \<and> (\<forall>i. in_section (rc_phase r i) \<longleftrightarrow> rc_holder r = Some i) \<and> (\<forall>i. phase_ok r (rc_phase r i))
     \<and> (\<forall>c. last_claim (rc_log r) = Some c \<longrightarrow> rc_stamp r = c \<and> 0 < c) \<and> apart (rc_log r)"

lemma phase_ok_later: "phase_ok r ph \<Longrightarrow> rc_now r \<le> t \<Longrightarrow> phase_ok (r\<lparr>rc_now := t\<rparr>) ph"
  by (cases ph) force+

lemma phase_ok_cong: "rc_log r' = rc_log r \<Longrightarrow> rc_now r' = rc_now r \<Longrightarrow> phase_ok r' ph = phase_ok r ph"
  by (cases ph) simp_all

lemma phase_ok_seeded: "phase_ok r ph \<Longrightarrow> rc_log r' = Seeded v # rc_log r \<Longrightarrow> rc_now r' = rc_now r \<Longrightarrow> phase_ok r' ph"
  by (cases ph) simp_all

lemma outside_ok: "\<not> in_section ph \<Longrightarrow> phase_ok r ph"
  by (cases ph) simp_all

lemma goes_simps [simp]:
  "rc_now (goes i ph r) = rc_now r" "rc_stamp (goes i ph r) = rc_stamp r" "rc_holder (goes i ph r) = rc_holder r"
  "rc_log (goes i ph r) = rc_log r" "rc_phase (goes i ph r) = (rc_phase r)(i := ph)"
  by (simp_all add: goes_def)

text \<open>A step of one sidecar that touches neither log nor clock: only its own phase is new.\<close>

lemma goes_inv:
  assumes "trig_inv r" "phase_ok r ph" "rc_log r' = rc_log r" "rc_now r' = rc_now r" "rc_stamp r' = rc_stamp r"
    "rc_phase r' = rc_phase r" "\<And>j. j \<noteq> i \<Longrightarrow> in_section (rc_phase r j) \<longleftrightarrow> rc_holder r' = Some j"
    "in_section ph \<longleftrightarrow> rc_holder r' = Some i"
  shows "trig_inv (goes i ph r')"
  using assms phase_ok_cong[of "goes i ph r'" r] by (auto simp: trig_inv_def)

lemma inv_section: "trig_inv r \<Longrightarrow> in_section (rc_phase r i) \<Longrightarrow> rc_holder r = Some i"
  by (simp add: trig_inv_def)

lemma inv_phase: "trig_inv r \<Longrightarrow> rc_phase r i = ph \<Longrightarrow> phase_ok r ph"
  by (auto simp: trig_inv_def)

lemma inv_holder: "rc_phase r i = ph \<Longrightarrow> trig_inv r \<Longrightarrow> rc_holder r = Some i \<longleftrightarrow> in_section ph"
  by (auto simp: trig_inv_def)

lemma inv_others: "trig_inv r \<Longrightarrow> in_section (rc_phase r j) \<longleftrightarrow> rc_holder r = Some j"
  by (simp add: trig_inv_def)

lemma trig_step_inv: "trig_step interval first_delay r r' \<Longrightarrow> trig_inv r \<Longrightarrow> trig_inv r'"
proof (induction rule: trig_step.induct)
  case (tick r t)
  then have "0 < t" by (simp add: trig_inv_def)
  then show ?case using tick phase_ok_later[of r _ t] by (auto simp: trig_inv_def)
next
  case (seed r i t v)
  let ?r = "goes i Idle (r\<lparr>rc_stamp := v, rc_log := Seeded v # rc_log r\<rparr>)"
  have "rc_holder r \<noteq> Some i" using inv_others[OF seed(3), of i] seed(1) by simp
  then show ?case using seed(3) phase_ok_seeded[of r _ ?r v] by (auto simp: trig_inv_def)
next
  case (reread r i)
  then have "phase_ok r (Rechecked (rc_stamp r))" by (auto simp: trig_inv_def)
  then show ?case using reread inv_others[OF reread(2)] inv_section[OF reread(2), of i] by (intro goes_inv) auto
next
  case (clear r i v)
  have "phase_ok r (Rechecked v)" by (rule inv_phase[OF clear(3,1)])
  then have "phase_ok r Cleared" using clear(2,3) by (auto simp: trig_inv_def)
  then show ?case using clear inv_others[OF clear(3)] inv_section[OF clear(3), of i] by (intro goes_inv) auto
next
  case (clock r i)
  have "phase_ok r Cleared" by (rule inv_phase[OF clock(2,1)])
  then have "phase_ok r (Stamping (rc_now r))" using clock(2) by (auto simp: trig_inv_def)
  then show ?case using clock inv_others[OF clock(2)] inv_section[OF clock(2), of i] by (intro goes_inv) auto
next
  case (claim r i t)
  let ?r = "goes i Spawning (r\<lparr>rc_stamp := t, rc_log := Claimed t # rc_log r\<rparr>)"
  have t: "phase_ok r (Stamping t)" by (rule inv_phase[OF claim(2,1)])
  have h: "rc_holder r = Some i" using inv_section[OF claim(2), of i] claim(1) by simp
  have "phase_ok ?r (rc_phase ?r j)" for j
    using inv_others[OF claim(2), of j] h by (cases "j = i") (auto intro: outside_ok)
  moreover have "apart (rc_log ?r)" using t claim(2) by (auto simp: trig_inv_def split: option.splits)
  ultimately show ?case using claim(2) h t inv_others[OF claim(2)] by (auto simp: trig_inv_def)
qed (frule (1) inv_holder, auto intro!: goes_inv simp: inv_others)+

lemma trig_reach_inv: "trig_reach interval first_delay r \<Longrightarrow> trig_inv r"
proof (induction rule: trig_reach.induct)
  case (start r)
  then show ?case by (simp add: trig_inv_def)
next
  case (step r r')
  then show ?case using trig_step_inv by blast
qed

section \<open>A check as steps\<close>

text \<open>What one check does to the file is one of its runs in the step relation.\<close>

definition stamp_is :: "string \<Rightarrow> trigger_periodic \<Rightarrow> fs \<Rightarrow> race \<Rightarrow> bool" where
  "stamp_is root t s r \<longleftrightarrow> read_last_run True root (tp_ts_filename t) s = Ret (rc_stamp r)"

lemma read_after_write:
  assumes "length (nbs_file root f) + 7 < 4096" "LLONG_MIN \<le> v" "v \<le> LLONG_MAX" "read_last_run True root f s = Ret x"
  shows "\<exists>s'. write_last_run e root f v s = (Ret (), s') \<and> (read_last_run True root f s' = Ret v \<or> s' = s)"
  using read_stamp[OF assms(2,3), of root f s] assms(1) by (simp add: write_last_run_def Let_def)

abbreviation trig_steps :: "int \<Rightarrow> int \<Rightarrow> race \<Rightarrow> race \<Rightarrow> bool" where
  "trig_steps interval first_delay \<equiv> (trig_step interval first_delay)\<^sup>*\<^sup>*"

lemma then_step: "trig_steps iv fd r r1 \<Longrightarrow> trig_step iv fd r1 r2 \<Longrightarrow> trig_steps iv fd r r2"
  by simp

lemma step_then: "trig_step iv fd r r1 \<Longrightarrow> trig_steps iv fd r1 r2 \<Longrightarrow> trig_steps iv fd r r2"
  by (rule converse_rtranclp_into_rtranclp)

lemma seed_steps:
  assumes "rc_phase r i = Idle" "rc_stamp r = 0" "rc_now r \<le> t"
  shows "trig_steps iv fd r (goes i Idle ((goes i (Seeding t) (r\<lparr>rc_now := t\<rparr>))\<lparr>rc_stamp := t - iv + fd, rc_log := Seeded (t - iv + fd) # rc_log r\<rparr>))"
proof -
  let ?a = "r\<lparr>rc_now := t\<rparr>"
  have "trig_step iv fd r ?a" by (rule trig_step.tick) (rule assms(3))
  moreover have "trig_step iv fd ?a (goes i (Seeding t) ?a)" using trig_step.see_none[of ?a i iv fd] assms by simp
  moreover have "trig_step iv fd (goes i (Seeding t) ?a)
      (goes i Idle ((goes i (Seeding t) ?a)\<lparr>rc_stamp := t - iv + fd, rc_log := Seeded (t - iv + fd) # rc_log r\<rparr>))"
    using trig_step.seed[of "goes i (Seeding t) ?a" i t "t - iv + fd" iv fd] by simp
  ultimately show ?thesis by (meson converse_rtranclp_into_rtranclp r_into_rtranclp)
qed

lemma locked_steps:
  assumes "rc_phase r i = Idle" "rc_stamp r \<noteq> 0" "rc_now r \<le> t" "t - rc_stamp r \<ge> iv" "rc_holder r = None" "t \<le> t2"
  shows "trig_steps iv fd r (goes i (Rechecked (rc_stamp r)) (r\<lparr>rc_now := t2, rc_holder := Some i\<rparr>))"
proof -
  let ?a = "r\<lparr>rc_now := t\<rparr>" and ?b = "goes i Elapsed (r\<lparr>rc_now := t\<rparr>)"
  let ?c = "goes i Locked (?b\<lparr>rc_holder := Some i\<rparr>)"
  let ?d = "goes i (Rechecked (rc_stamp r)) ?c"
  have "trig_step iv fd r ?a" by (rule trig_step.tick) (rule assms(3))
  moreover have "trig_step iv fd ?a ?b" using trig_step.see_due[of ?a i iv fd] assms by simp
  moreover have "trig_step iv fd ?b ?c" using trig_step.lock[of ?b i iv fd] assms(5) by simp
  moreover have "trig_step iv fd ?c ?d" using trig_step.reread[of ?c i iv fd] by simp
  moreover have "trig_step iv fd ?d (?d\<lparr>rc_now := t2\<rparr>)" by (rule trig_step.tick) (simp add: assms(6))
  moreover have "?d\<lparr>rc_now := t2\<rparr> = goes i (Rechecked (rc_stamp r)) (r\<lparr>rc_now := t2, rc_holder := Some i\<rparr>)"
    by (simp add: goes_def)
  ultimately show ?thesis by (metis converse_rtranclp_into_rtranclp rtranclp.rtrancl_refl)
qed

lemma spawn_steps:
  assumes "rc_phase r i = Rechecked v" "\<not> (v > 0 \<and> rc_now r - v < 120)" "rc_now r \<le> t3"
  shows "trig_steps iv fd r (goes i Spawning (r\<lparr>rc_now := t3, rc_stamp := t3, rc_log := Claimed t3 # rc_log r\<rparr>))"
    "trig_steps iv fd r (goes i Spawning (r\<lparr>rc_now := t3\<rparr>))"
    "trig_steps iv fd r (goes i Idle (r\<lparr>rc_holder := None\<rparr>))"
proof -
  let ?a = "goes i Cleared r"
  let ?b = "?a\<lparr>rc_now := t3\<rparr>"
  let ?c = "goes i (Stamping t3) ?b"
  have a: "trig_step iv fd r ?a" by (rule trig_step.clear[OF assms(1,2)])
  have b: "trig_step iv fd ?a ?b" by (rule trig_step.tick) (simp add: assms(3))
  have c: "trig_step iv fd ?b ?c" using trig_step.clock[of ?b i iv fd] by simp
  have abc: "trig_steps iv fd r ?c" using a b c by (meson converse_rtranclp_into_rtranclp r_into_rtranclp)
  have d: "trig_step iv fd ?c (goes i Spawning (?c\<lparr>rc_stamp := t3, rc_log := Claimed t3 # rc_log ?c\<rparr>))"
    by (rule trig_step.claim) simp
  show "trig_steps iv fd r (goes i Spawning (r\<lparr>rc_now := t3, rc_stamp := t3, rc_log := Claimed t3 # rc_log r\<rparr>))"
    using then_step[OF abc d] by (simp add: goes_def)
  have "trig_step iv fd ?c (goes i Spawning ?c)" by (rule trig_step.claim_fails[of _ _ t3]) simp
  moreover have "goes i Spawning ?c = goes i Spawning (r\<lparr>rc_now := t3\<rparr>)" by (simp add: goes_def)
  ultimately show "trig_steps iv fd r (goes i Spawning (r\<lparr>rc_now := t3\<rparr>))" using then_step[OF abc] by simp
  have "trig_step iv fd ?a (goes i Idle (?a\<lparr>rc_holder := None\<rparr>))" by (rule trig_step.active) simp
  moreover have "goes i Idle (?a\<lparr>rc_holder := None\<rparr>) = goes i Idle (r\<lparr>rc_holder := None\<rparr>)" by (simp add: goes_def)
  ultimately show "trig_steps iv fd r (goes i Idle (r\<lparr>rc_holder := None\<rparr>))" using a by (metis r_into_rtranclp then_step)
qed

lemma unlock_steps: "rc_phase r i = Spawning \<Longrightarrow> trig_step iv fd r (goes i Idle (r\<lparr>rc_holder := None\<rparr>))"
  by (rule trig_step.unlock)

lemma write_cases:
  assumes "write_last_run e root f v s = (Ret u, s')" "LLONG_MIN \<le> v" "v \<le> LLONG_MAX" "read_last_run True root f s = Ret x"
  shows "read_last_run True root f s' = Ret v \<or> s' = s"
proof (cases "length (nbs_file root f) + 7 < 4096")
  case True
  then show ?thesis using read_after_write[OF True assms(2-4), of e] assms(1) by auto
next
  case False
  then show ?thesis using assms(1) by (simp add: write_last_run_def Let_def split: if_splits)
qed

lemma spawn_writes:
  assumes "trigger_periodic_spawn e root t s = (Ret rc, argv, s')" "te_lock_open e" "te_lock e"
    and "read_last_run (te_ts_open2 e) root (tp_ts_filename t) s = Ret v" "\<not> (v > 0 \<and> te_now2 e - v < 120)"
    and "\<not> worker_session_active (te_list e) (te_sessions e) (tp_role t)"
  obtains u where "write_last_run (te_stamp e) root (tp_ts_filename t) (te_now3 e) s = (Ret u, s')"
    "argv \<noteq> None \<longrightarrow> argv = Some (spawn_argv (te_workers e) root t)"
proof (cases "write_last_run (te_stamp e) root (tp_ts_filename t) (te_now3 e) s")
  case (Pair o1 s1)
  have eq: "trigger_periodic_spawn e root t s = (if \<not> length (nbs_file root (tp_lock_filename t)) < 4096 then (Abort, None, s)
    else case o1 of Abort \<Rightarrow> (Abort, None, s1)
      | Ret _ \<Rightarrow> (Ret (if exec_fire_and_forget (te_spawn e) (te_child e) = 0 then 0 else -1),
          if xe_fork (te_spawn e) then Some (spawn_argv (te_workers e) root t) else None, s1))"
    unfolding trigger_periodic_spawn_def by (simp add: assms(2-6) Pair)
  show ?thesis using eq assms(1) Pair by (cases o1) (auto split: if_splits intro: that)
qed

lemma spawn_runs_steps:
  assumes "trigger_periodic_spawn e root t s = (Ret rc, argv, s')" "stamp_is root t s r" "te_ts_open2 e"
    and "rc_phase r i = Idle" "rc_stamp r \<noteq> 0" "rc_holder r = None" "rc_now r \<le> te_now e" "te_now e - rc_stamp r \<ge> iv"
    and "te_now e \<le> te_now2 e" "te_now2 e \<le> te_now3 e" "0 \<le> te_now3 e" "te_now3 e \<le> LLONG_MAX"
  shows "\<exists>r'. trig_steps iv fd r r' \<and> stamp_is root t s' r' \<and> rc_phase r' i = Idle \<and> rc_holder r' = None
    \<and> (argv \<noteq> None \<longrightarrow> argv = Some (spawn_argv (te_workers e) root t) \<and> (rc_log r' = Claimed (te_now3 e) # rc_log r \<or> s' = s))"
proof -
  let ?v = "rc_stamp r" and ?f = "tp_ts_filename t"
  have stamp: "read_last_run True root ?f s = Ret ?v" using assms(2) by (simp add: stamp_is_def)
  let ?r = "goes i (Rechecked ?v) (r\<lparr>rc_now := te_now2 e, rc_holder := Some i\<rparr>)"
  let ?idle = "goes i Idle (?r\<lparr>rc_holder := None\<rparr>)"
  have pre: "trig_steps iv fd r ?r" by (rule locked_steps) (use assms in auto)
  have ph: "rc_phase ?r i = Rechecked ?v" "rc_now ?r = te_now2 e" by simp_all
  have idle: "stamp_is root t s ?idle" "rc_phase ?idle i = Idle" "rc_holder ?idle = None" using assms(2) by (simp_all add: stamp_is_def)
  consider (locked) "\<not> te_lock_open e \<or> \<not> te_lock e" | (bail) "te_lock_open e" "te_lock e" "?v > 0 \<and> te_now2 e - ?v < 120"
    | (active) "te_lock_open e" "te_lock e" "\<not> (?v > 0 \<and> te_now2 e - ?v < 120)" "worker_session_active (te_list e) (te_sessions e) (tp_role t)"
    | (run) "te_lock_open e" "te_lock e" "\<not> (?v > 0 \<and> te_now2 e - ?v < 120)" "\<not> worker_session_active (te_list e) (te_sessions e) (tp_role t)"
    by blast
  then show ?thesis
  proof cases
    case locked
    then have "s' = s" "argv = None" using assms(1) by (auto simp: trigger_periodic_spawn_def split: if_splits)
    then show ?thesis using assms by blast
  next
    case bail
    then have "s' = s" "argv = None" using assms(1,3) stamp by (auto simp: trigger_periodic_spawn_def split: if_splits)
    moreover have "trig_step iv fd ?r ?idle" by (rule trig_step.bail[OF ph(1)]) (use bail(3) ph(2) in simp)
    ultimately show ?thesis using idle then_step[OF pre] by blast
  next
    case active
    then have "s' = s" "argv = None" using assms(1,3) stamp by (auto simp: trigger_periodic_spawn_def split: if_splits)
    moreover have "trig_steps iv fd ?r ?idle" by (rule spawn_steps(3)[OF ph(1), of "te_now3 e"]) (use active(3) ph(2) assms(10) in simp_all)
    ultimately show ?thesis using idle rtranclp_trans[OF pre] by blast
  next
    case run
    have read: "read_last_run (te_ts_open2 e) root ?f s = Ret ?v" using assms(3) stamp by simp
    from spawn_writes[OF assms(1) run(1,2) read run(3,4)] obtain u
      where w: "write_last_run (te_stamp e) root ?f (te_now3 e) s = (Ret u, s')"
        and argv: "argv \<noteq> None \<longrightarrow> argv = Some (spawn_argv (te_workers e) root t)" by blast
    let ?w = "goes i Spawning (?r\<lparr>rc_now := te_now3 e, rc_stamp := te_now3 e, rc_log := Claimed (te_now3 e) # rc_log ?r\<rparr>)"
      and ?n = "goes i Spawning (?r\<lparr>rc_now := te_now3 e\<rparr>)"
    have sp: "trig_steps iv fd ?r ?w" "trig_steps iv fd ?r ?n"
      by (rule spawn_steps[OF ph(1)]; use run(3) ph(2) assms(10) in simp)+
    have e: "trig_step iv fd ?w (goes i Idle (?w\<lparr>rc_holder := None\<rparr>))" "trig_step iv fd ?n (goes i Idle (?n\<lparr>rc_holder := None\<rparr>))"
      by (rule unlock_steps, simp)+
    have "read_last_run True root ?f s' = Ret (te_now3 e) \<or> s' = s" by (rule write_cases[OF w _ _ stamp]) (use assms(11,12) in simp_all)
    then show ?thesis
    proof
      assume "read_last_run True root ?f s' = Ret (te_now3 e)"
      then show ?thesis using then_step[OF rtranclp_trans[OF pre sp(1)] e(1)] argv
        by (intro exI[of _ "goes i Idle (?w\<lparr>rc_holder := None\<rparr>)"]) (simp add: stamp_is_def)
    next
      assume "s' = s"
      then show ?thesis using then_step[OF rtranclp_trans[OF pre sp(2)] e(2)] argv stamp
        by (intro exI[of _ "goes i Idle (?n\<lparr>rc_holder := None\<rparr>)"]) (simp add: stamp_is_def)
    qed
  qed
qed

section \<open>Properties\<close>

text \<open>C29: However the checks of the sidecars interleave, at most one of them is between locking and
  unlocking, and of two runs written to the file one after the other with no first time between them the
  second is at least 120 seconds later.\<close>

theorem spawns_apart:
  assumes "trig_reach interval first_delay r"
  shows "apart (rc_log r) \<and> (in_section (rc_phase r i) \<and> in_section (rc_phase r j) \<longrightarrow> i = j)"
proof -
  have inv: "trig_inv r" by (rule trig_reach_inv[OF assms])
  then have "apart (rc_log r)" by (simp add: trig_inv_def)
  moreover have "i = j" if "in_section (rc_phase r i) \<and> in_section (rc_phase r j)"
    using inv_section[OF inv, of i] inv_section[OF inv, of j] that by simp
  ultimately show ?thesis by blast
qed

text \<open>C30: A check of the code is one of the runs the step relation allows: whatever is found, locked,
  written or not, the file after it holds the time that the steps lead to, the sidecar is idle again
  and the lock is free; and a worker is started only after its time went to the file, unless
  that write failed and left the file alone.\<close>

theorem check_runs_steps:
  assumes "trigger_periodic_check e root iv t s = (Ret rc, argv, s')" "stamp_is root t s r" "te_ts_open e" "te_ts_open2 e"
    and "rc_phase r i = Idle" "rc_holder r = None" "rc_now r \<le> te_now e" "te_now e \<le> te_now2 e" "te_now2 e \<le> te_now3 e"
    and "0 \<le> te_now e" "te_now3 e + tp_first_delay_secs t \<le> LLONG_MAX" "0 \<le> tp_first_delay_secs t" "iv \<le> INT_MAX"
  shows "\<exists>r'. trig_steps iv (tp_first_delay_secs t) r r' \<and> stamp_is root t s' r' \<and> rc_phase r' i = Idle \<and> rc_holder r' = None
    \<and> (argv \<noteq> None \<longrightarrow> argv = Some (spawn_argv (te_workers e) root t) \<and> (rc_log r' = Claimed (te_now3 e) # rc_log r \<or> s' = s))"
proof -
  let ?v = "rc_stamp r" and ?f = "tp_ts_filename t" and ?fd = "tp_first_delay_secs t"
  have stamp: "read_last_run True root ?f s = Ret ?v" using assms(2) by (simp add: stamp_is_def)
  have iv: "iv > 0" using assms(1) by (auto simp: trigger_periodic_check_def split: if_splits)
  consider (none) "?v = 0" | (early) "?v \<noteq> 0" "te_now e - ?v < iv" | (due) "?v \<noteq> 0" "te_now e - ?v \<ge> iv" by linarith
  then show ?thesis
  proof cases
    case none
    obtain u where w: "write_last_run (te_seed e) root ?f (te_now e - iv + ?fd) s = (Ret u, s')" and argv: "argv = None"
      using assms(1,3) none stamp iv by (auto simp: trigger_periodic_check_def split: if_splits prod.splits outcome.splits)
    have "read_last_run True root ?f s' = Ret (te_now e - iv + ?fd) \<or> s' = s"
      by (rule write_cases[OF w _ _ stamp]) (use assms(8-13) iv in simp_all)
    then show ?thesis
    proof
      assume "s' = s"
      then show ?thesis using assms argv by blast
    next
      assume read: "read_last_run True root ?f s' = Ret (te_now e - iv + ?fd)"
      let ?r = "goes i Idle ((goes i (Seeding (te_now e)) (r\<lparr>rc_now := te_now e\<rparr>))\<lparr>rc_stamp := te_now e - iv + ?fd,
        rc_log := Seeded (te_now e - iv + ?fd) # rc_log r\<rparr>)"
      have "trig_steps iv ?fd r ?r" by (rule seed_steps[OF assms(5) none assms(7)])
      moreover have "stamp_is root t s' ?r" "rc_phase ?r i = Idle" "rc_holder ?r = None"
        using read assms(6) by (simp_all add: stamp_is_def)
      ultimately show ?thesis using argv by blast
    qed
  next
    case early
    then have "s' = s" "argv = None" using assms(1,3) stamp iv by (auto simp: trigger_periodic_check_def split: if_splits)
    then show ?thesis using assms by blast
  next
    case due
    then obtain rc2 where "trigger_periodic_spawn e root t s = (Ret rc2, argv, s')"
      using assms(1,3) stamp iv by (auto simp: trigger_periodic_check_def split: if_splits prod.splits outcome.splits)
    then show ?thesis by (rule spawn_runs_steps) (use assms due in auto)
  qed
qed

subsection \<open>Witnesses\<close>

lemma reach_steps: "trig_steps iv fd r r' \<Longrightarrow> trig_reach iv fd r \<Longrightarrow> trig_reach iv fd r'"
  by (induction rule: rtranclp_induct) (auto intro: trig_reach.step)

definition demo_race :: race where
  "demo_race = \<lparr>rc_now = 1000, rc_stamp = 500, rc_holder = None, rc_phase = \<lambda>_. Idle, rc_log = []\<rparr>"

lemma run_of:
  assumes "rc_phase r i = Idle" "rc_stamp r \<noteq> 0" "rc_now r \<le> t" "t - rc_stamp r \<ge> iv" "rc_holder r = None" "120 \<le> iv"
  shows "\<exists>r'. trig_steps iv fd r r' \<and> rc_now r' = t \<and> rc_stamp r' = t \<and> rc_holder r' = None \<and> rc_log r' = Claimed t # rc_log r
    \<and> rc_phase r' = rc_phase r"
proof -
  let ?a = "goes i (Rechecked (rc_stamp r)) (r\<lparr>rc_now := t, rc_holder := Some i\<rparr>)"
  let ?b = "goes i Spawning (?a\<lparr>rc_now := t, rc_stamp := t, rc_log := Claimed t # rc_log ?a\<rparr>)"
  let ?c = "goes i Idle (?b\<lparr>rc_holder := None\<rparr>)"
  have a: "trig_steps iv fd r ?a" by (rule locked_steps[OF assms(1-5)]) simp
  have b: "trig_steps iv fd ?a ?b" by (rule spawn_steps(1)) (use assms(4,6) in auto)
  have c: "trig_step iv fd ?b ?c" by (rule unlock_steps) simp
  from then_step[OF rtranclp_trans[OF a b] c] show ?thesis
    by (intro exI[of _ ?c]) (simp add: assms(1) fun_upd_idem)
qed

theorem spawns_apart_witness:
  "\<exists>r :: race. rc_log r = [Claimed 1600, Claimed 1000] \<and> apart (rc_log r) \<and> (in_section (rc_phase r 1) \<and> in_section (rc_phase r 2) \<longrightarrow> (1 :: nat) = 2)"
proof -
  obtain r1 where r1: "trig_steps 300 60 demo_race r1" "rc_now r1 = 1000" "rc_stamp r1 = 1000" "rc_holder r1 = None"
    "rc_log r1 = [Claimed 1000]" "rc_phase r1 = (\<lambda>_. Idle)"
    using run_of[of demo_race 1 1000 300 60] by (auto simp: demo_race_def)
  obtain r2 where r2: "trig_steps 300 60 r1 r2" "rc_log r2 = [Claimed 1600, Claimed 1000]"
    using run_of[of r1 2 1600 300 60] r1 by auto
  have "trig_reach 300 60 demo_race" by (rule trig_reach.start) (simp_all add: demo_race_def)
  then have "trig_reach 300 60 r2" using r1(1) r2(1) reach_steps by blast
  from spawns_apart[OF this, of 1 2] r2(2) show ?thesis by blast
qed

definition trig_demo_exec :: exec_env where
  "trig_demo_exec = \<lparr>xe_pipe = True, xe_fork = True, xe_read = None, xe_wait = True\<rparr>"

definition demo_trig :: trig_env where
  "demo_trig = (let ok = \<lparr>sp_mkstemp = True, sp_fdopen = True, sp_print = True, sp_close = True, sp_rename = True\<rparr> in
     \<lparr>te_now = 1000, te_ts_open = True, te_seed = ok, te_lock_open = True, te_lock = True, te_ts_open2 = True, te_now2 = 1000,
      te_list = trig_demo_exec, te_sessions = (\<lambda>_. Exited 0 []), te_now3 = 1001, te_stamp = ok, te_workers = ''nbs-workers'',
      te_spawn = trig_demo_exec, te_child = Exited 0 []\<rparr>)"

definition demo_trig_fs :: fs where
  "demo_trig_fs = put_file (nbs_file ''.'' ''pythia-last-run'') (dec 500 @ [nl]) \<lparr>files = \<lambda>_. None, held = {}\<rparr>"

lemma demo_trig_stamp: "read_last_run True ''.'' ''pythia-last-run'' demo_trig_fs = Ret 500"
  unfolding demo_trig_fs_def by (rule read_stamp) (simp_all add: nbs_file_def)

lemma demo_trig_runs:
  "\<exists>s'. trigger_periodic_check demo_trig ''.'' 300 TRIGGER_PYTHIA demo_trig_fs
     = (Ret 0, Some (spawn_argv ''nbs-workers'' ''.'' TRIGGER_PYTHIA), s')"
proof -
  have t: "tp_ts_filename TRIGGER_PYTHIA = ''pythia-last-run''" "tp_lock_filename TRIGGER_PYTHIA = ''pythia.lock''"
    "tp_role TRIGGER_PYTHIA = ''pythia''" by (simp_all add: TRIGGER_PYTHIA_def)
  have a: "\<not> worker_session_active trig_demo_exec (\<lambda>_. Exited 0 []) ''pythia''"
    by (simp add: worker_session_active_def trig_demo_exec_def exec_capture_def list_alive_def cstr_def)
  show ?thesis
    using demo_trig_stamp a t
    by (simp add: trigger_periodic_check_def trigger_periodic_spawn_def demo_trig_def write_last_run_def nbs_file_def
      trig_demo_exec_def exec_fire_and_forget_def Let_def)
qed

theorem check_runs_steps_witness:
  "\<exists>r' s'. trigger_periodic_check demo_trig ''.'' 300 TRIGGER_PYTHIA demo_trig_fs
      = (Ret 0, Some (spawn_argv ''nbs-workers'' ''.'' TRIGGER_PYTHIA), s')
    \<and> trig_steps 300 (13 * 60) demo_race r' \<and> stamp_is ''.'' TRIGGER_PYTHIA s' r' \<and> rc_phase r' 3 = Idle"
proof -
  obtain s' where s': "trigger_periodic_check demo_trig ''.'' 300 TRIGGER_PYTHIA demo_trig_fs
      = (Ret 0, Some (spawn_argv ''nbs-workers'' ''.'' TRIGGER_PYTHIA), s')" using demo_trig_runs by blast
  have "stamp_is ''.'' TRIGGER_PYTHIA demo_trig_fs demo_race"
    using demo_trig_stamp by (simp add: stamp_is_def TRIGGER_PYTHIA_def demo_race_def)
  moreover have "tp_first_delay_secs TRIGGER_PYTHIA = 13 * 60" by (simp add: TRIGGER_PYTHIA_def)
  ultimately show ?thesis
    using check_runs_steps[OF s', of demo_race 3] s' by (simp add: demo_trig_def Let_def demo_race_def) blast
qed

end
