(* ===== verification/SideLoop.thy ===== *)
theory SideLoop
  imports SideConfig SideTriggers SideBus SideChat
begin

text \<open>
  The main loop of the sidecar (src/src/nbs-sidecar/sidecar.c), one tick after the other.  A tick is
  a sequence of stages, in the order of the code; a stage goes on, ends the tick (\<open>continue\<close>) or
  leaves the loop (\<open>break\<close>).  What the sidecar types into the session and which programs it runs is recorded
  in the order in which it happens; files and bus change as the programs change them.  Waiting
  (\<open>sleep\<close>), the logs and whether a text that was typed arrives are not modelled.
\<close>

section \<open>Paths\<close>

abbreviation (input) SIDECAR_EXT_PATH :: nat where "SIDECAR_EXT_PATH \<equiv> 4192"

definition build_registry_path :: "sidecar_config \<Rightarrow> path outcome" where
  "build_registry_path cfg =
     (let p = sc_nbs_root cfg @ ''/.nbs/control-registry-'' @ sc_handle cfg in ASSERT_MSG (length p < SIDECAR_EXT_PATH) (Ret p))"

definition build_inbox_path :: "sidecar_config \<Rightarrow> path outcome" where
  "build_inbox_path cfg =
     (let p = sc_nbs_root cfg @ ''/.nbs/control-inbox-'' @ sc_handle cfg in ASSERT_MSG (length p < SIDECAR_EXT_PATH) (Ret p))"

definition build_pid_marker_path :: "sidecar_config \<Rightarrow> path outcome" where
  "build_pid_marker_path cfg =
     (let p = sc_nbs_root cfg @ ''/.nbs/pids/sidecar-'' @ sc_handle cfg @ ''.pid'' in
      ASSERT_MSG (length p < SIDECAR_EXT_PATH) (Ret p))"

definition pause_path :: "sidecar_config \<Rightarrow> path" where
  "pause_path cfg = snprintf 8192 (sc_nbs_root cfg @ ''/.nbs/control-pause'')"

section \<open>The marker of the running sidecar\<close>

text \<open>
  \<open>pe_alive\<close>: \<open>kill\<close> with signal 0 succeeds; \<open>pe_cmdline\<close>: what is read of the arguments of a process,
  with their NULs; \<open>pe_kept\<close>: how much of the text reaches the file, which the code does not check.
\<close>

record pid_env =
  pe_pid :: int
  pe_read :: bool
  pe_alive :: "int \<Rightarrow> bool"
  pe_cmdline :: "int \<Rightarrow> string option"
  pe_tmp_open :: bool
  pe_kept :: nat
  pe_rename :: bool

definition pid_marker_write :: "pid_env \<Rightarrow> path \<Rightarrow> int \<Rightarrow> fs \<Rightarrow> int \<times> fs" where
  "pid_marker_write e p pid s =
     (let tmp = p @ ''.tmp'' in
      if length tmp \<ge> SIDECAR_MAX_PATH + 16 then (-1, s)
      else if \<not> pe_tmp_open e then (-1, s)
      else (let s1 = put_file tmp (take (pe_kept e) (dec pid @ [nl])) s in
        if \<not> pe_rename e then (-1, remove_file tmp s1) else (0, rename_file tmp p s1)))"

text \<open>The arguments of a process.\<close>

function cmdline_args :: "string \<Rightarrow> string list" where
  "cmdline_args s = (case dropWhile (\<lambda>c. c = nul) s of [] \<Rightarrow> [] | c # r \<Rightarrow> cstr (c # r) # cmdline_args (dropWhile (\<lambda>c. c \<noteq> nul) (c # r)))"
  by pat_completeness auto
termination
proof (relation "measure length", goal_cases)
  case (2 s c r)
  then have "c \<noteq> nul" using hd_dropWhile[of "\<lambda>c. c = nul" s] by (metis list.sel(1) list.discI)
  moreover have "length (c # r) \<le> length s" using 2 length_dropWhile_le[of "\<lambda>c. c = nul" s] by simp
  moreover have "length (dropWhile (\<lambda>c. c \<noteq> nul) r) \<le> length r" by (rule length_dropWhile_le)
  ultimately show ?case by simp
qed simp

declare cmdline_args.simps [simp del]

definition same_sidecar :: "string \<Rightarrow> string \<Rightarrow> bool" where
  "same_sidecar handle cmdline \<longleftrightarrow>
     list_ex (\<lambda>a. strstr ''nbs-sidecar'' a \<noteq> None) (cmdline_args cmdline)
     \<and> list_ex (\<lambda>a. a = snprintf (SIDECAR_MAX_HANDLE + 16) (''--handle='' @ handle)) (cmdline_args cmdline)"

definition marker_pid :: "bool \<Rightarrow> path \<Rightarrow> fs \<Rightarrow> int option option" where
  "marker_pid can p s = (case (if can then files s p else None) of None \<Rightarrow> None | Some text \<Rightarrow> Some (sscanf_int text))"

definition pid_marker_check :: "pid_env \<Rightarrow> path \<Rightarrow> string \<Rightarrow> fs \<Rightarrow> int \<times> fs" where
  "pid_marker_check e p handle s =
     (case marker_pid (pe_read e) p s of
        None \<Rightarrow> pid_marker_write e p (pe_pid e) s
      | Some None \<Rightarrow> pid_marker_write e p (pe_pid e) s
      | Some (Some other) \<Rightarrow>
          if other = pe_pid e then (0, s)
          else if pe_alive e other \<and> (case pe_cmdline e other of None \<Rightarrow> False | Some l \<Rightarrow> same_sidecar handle (take 4095 l)) then (1, s)
          else pid_marker_write e p (pe_pid e) s)"

definition pid_marker_remove :: "path \<Rightarrow> fs \<Rightarrow> fs" where
  "pid_marker_remove p s = remove_file p s"

section \<open>The state\<close>

record sidecar_state =
  ss_idle_seconds :: int
  ss_bus_check_counter :: int
  ss_last_content_hash :: "64 word"
  ss_sidecar_start_time :: int
  ss_last_notify_time :: int
  ss_last_poll_time :: int
  ss_last_fixup_check :: int
  ss_last_librarian_check :: int
  ss_last_pythia_check :: int
  ss_last_shepard_check :: int
  ss_notify_fail_count :: int
  ss_mention_detected :: bool
  ss_mention_payload :: string
  ss_bus_event_count :: int
  ss_bus_max_priority :: string
  ss_bus_event_summary :: string
  ss_chat_unread_count :: int
  ss_chat_unread_summary :: string
  ss_notify_message :: string
  ss_control_inbox_line :: nat
  ss_interrupt_retry_count :: int
  ss_cooldown_suppressed :: bool
  ss_startup_notify_sent :: bool
  ss_was_paused :: bool

datatype action = Typed string | Pressed string | Ran "string list"

text \<open>
  With the variables of \<open>sidecar_run\<close>: those that live as long as the loop, then those of one tick,
  then files, bus and what was done.
\<close>

record side = sidecar_state +
  sd_init_pending :: bool
  sd_init_deadline :: int
  sd_heartbeat :: int
  sd_reaper :: int
  sd_alive_errors :: int
  sd_paused :: bool
  sd_catchup :: bool
  sd_content :: string
  sd_fs :: fs
  sd_bus :: bus
  sd_out :: "action list"

text \<open>
  One tick's surroundings: the readings of the clock in the order of the code, what the captures of
  the screen give, and how files, programs and the session behave.  \<open>te_rounds\<close>: for every round of
  an interrupt the seconds since its start and the captures of its ten seconds.
\<close>

record tick_env =
  te_fs_others :: "fs \<Rightarrow> fs"
  te_bus_others :: "bus \<Rightarrow> bus"
  te_resume_now :: int
  te_hb_now :: int
  te_init_now :: int
  te_cd_now :: int
  te_wc_now :: int
  te_grace_now :: int
  te_cd2_now :: int
  te_notify_now :: int
  te_resume_screen :: "string option"
  te_query_screen :: "string option"
  te_init_screen :: "string option"
  te_screen :: "string option"
  te_fresh_screen :: "string option"
  te_verify_screens :: "string option list"
  te_rounds :: "(int \<times> string option list) list"
  te_session_dir :: "string option"
  te_option_typed :: bool
  te_is_alive :: int
  te_pids :: pid_env
  te_inbox :: inbox_env
  te_reg :: reg_env
  te_chat :: chat_client
  te_client :: bus_client
  te_path_bus :: bus_client
  te_chat_prog :: string
  te_chat_found :: bool
  te_chat_exec :: exec_env
  te_main :: "string \<Rightarrow> main_env"
  te_trig :: "string \<Rightarrow> trig_env"
  te_self :: "string option"

definition typed_in :: "string \<Rightarrow> side \<Rightarrow> side" where
  "typed_in t x = x\<lparr>sd_out := sd_out x @ [Typed t]\<rparr>"

definition pressed :: "string \<Rightarrow> side \<Rightarrow> side" where
  "pressed k x = x\<lparr>sd_out := sd_out x @ [Pressed k]\<rparr>"

definition ran :: "string list \<Rightarrow> side \<Rightarrow> side" where
  "ran argv x = x\<lparr>sd_out := sd_out x @ [Ran argv]\<rparr>"

definition registry_path :: "sidecar_config \<Rightarrow> path" where
  "registry_path cfg = (case build_registry_path cfg of Ret p \<Rightarrow> p | Abort \<Rightarrow> [])"

definition inbox_path :: "sidecar_config \<Rightarrow> path" where
  "inbox_path cfg = (case build_inbox_path cfg of Ret p \<Rightarrow> p | Abort \<Rightarrow> [])"

definition pid_marker_path :: "sidecar_config \<Rightarrow> path" where
  "pid_marker_path cfg = (case build_pid_marker_path cfg of Ret p \<Rightarrow> p | Abort \<Rightarrow> [])"

definition first_of :: "string \<Rightarrow> tick_env \<Rightarrow> sidecar_config \<Rightarrow> side \<Rightarrow> string option" where
  "first_of ty e cfg x = registry_find_first (te_reg e) (registry_path cfg) ty SIDECAR_MAX_PATH (sd_fs x)"

section \<open>Posting to the chat\<close>

text \<open>The program \<open>nbs-chat\<close>, whose model runs on the sidecar's files and bus.\<close>

definition run_chat :: "tick_env \<Rightarrow> string list \<Rightarrow> side \<Rightarrow> int \<times> side" where
  "run_chat e argv x =
     (let y = ran argv x in
      if \<not> xe_fork (te_chat_exec e) then (-1, x)
      else if \<not> te_chat_found e then (exec_fire_and_forget (te_chat_exec e) (Exited 127 []), y)
      else (case chat_main (te_main e (argv ! 1)) argv (sd_fs x) (sd_bus x) of (r, s1, b1) \<Rightarrow>
        (exec_fire_and_forget (te_chat_exec e) (child_of r []), y\<lparr>sd_fs := s1, sd_bus := b1\<rparr>)))"

definition chat_client_send :: "tick_env \<Rightarrow> path \<Rightarrow> string \<Rightarrow> string \<Rightarrow> side \<Rightarrow> int outcome \<times> side" where
  "chat_client_send e chat_path handle message x =
     (if \<not> (chat_path \<noteq> [] \<and> handle \<noteq> [] \<and> message \<noteq> []) then (Abort, x)
      else (case run_chat e [te_chat_prog e, ''send'', chat_path, handle, message] x of (rc, y) \<Rightarrow>
        (Ret (if rc = 0 then 0 else -1), y)))"

definition chat_client_error :: "tick_env \<Rightarrow> path \<Rightarrow> string \<Rightarrow> side \<Rightarrow> int outcome \<times> side" where
  "chat_client_error e chat_path message x =
     (if \<not> (chat_path \<noteq> [] \<and> message \<noteq> []) then (Abort, x)
      else (case run_chat e [te_chat_prog e, ''error'', chat_path, message] x of (rc, y) \<Rightarrow>
        (Ret (if rc = 0 then 0 else -1), y)))"

section \<open>Interrupts, queries, dialogues\<close>

text \<open>The text contains nothing of the chat.\<close>

definition build_notify_prompt :: string where
  "build_notify_prompt = ''Hey, you have messages to read in your chat.''"

text \<open>Whether a round saw a prompt before its minute was over.\<close>

fun interrupt_rounds :: "(int \<times> string option list) list \<Rightarrow> side \<Rightarrow> bool \<times> side" where
  "interrupt_rounds [] x = (False, x)"
| "interrupt_rounds ((elapsed, screens) # rs) x =
     (if elapsed \<ge> 60 then (False, x)
      else if list_ex (\<lambda>s. case s of None \<Rightarrow> False | Some content \<Rightarrow> detect_prompt_ready content) (take 10 screens)
      then (True, pressed ''Enter'' (typed_in build_notify_prompt (pressed ''Escape'' x)))
      else interrupt_rounds rs (pressed ''Escape'' x))"

definition handle_interrupt :: "tick_env \<Rightarrow> sidecar_config \<Rightarrow> side \<Rightarrow> int outcome \<times> side" where
  "handle_interrupt e cfg x =
     (case interrupt_rounds (te_rounds e) x of
        (True, y) \<Rightarrow> (Ret 0, y)
      | (False, y) \<Rightarrow>
         (case first_of ''chat'' e cfg y of
            None \<Rightarrow> (Ret (-1), y)
          | Some chat_path \<Rightarrow>
             (let msg = ''URGENT: @supervisor - agent unresponsive '' @ sc_handle cfg in
              if \<not> length msg < SIDECAR_MAX_MESSAGE then (Abort, y)
              else (case chat_client_send e chat_path ''sidecar'' msg y of
                (Abort, z) \<Rightarrow> (Abort, z)
              | (Ret _, z) \<Rightarrow> (Ret (-1), z)))))"

definition query_error :: "tick_env \<Rightarrow> sidecar_config \<Rightarrow> path \<Rightarrow> string \<Rightarrow> int \<Rightarrow> side \<Rightarrow> int outcome \<times> side" where
  "query_error e cfg chat_path reason rc x =
     (case chat_client_error e chat_path (snprintf 512 (sc_handle cfg @ ''? query: '' @ reason)) x of
        (Abort, y) \<Rightarrow> (Abort, y) | (Ret _, y) \<Rightarrow> (Ret rc, y))"

definition dash :: string where "dash = [CHR 0xE2, CHR 0x80, CHR 0x94]"

definition query_message :: "sidecar_config \<Rightarrow> string \<Rightarrow> string" where
  "query_message cfg rendered =
     (let pre = ''session output for '' @ sc_handle cfg @ '':'' @ [nl] in
      pre @ take (SIDECAR_MAX_CONTENT - length pre - 1) rendered)"

definition handle_query :: "tick_env \<Rightarrow> sidecar_config \<Rightarrow> side \<Rightarrow> int outcome \<times> side" where
  "handle_query e cfg x =
     (case first_of ''chat'' e cfg x of
        None \<Rightarrow> (Ret (-1), x)
      | Some chat_path \<Rightarrow>
          if te_session_dir e = None \<or> te_session_dir e = Some [] then
            query_error e cfg chat_path (''no nbs-ts session directory '' @ dash @ '' agent may not have started'') (-1) x
          else if te_query_screen e = None \<or> te_query_screen e = Some [] then
            query_error e cfg chat_path (''session has no visible output '' @ dash @ '' agent may be initialising or dead'') (-1) x
          else (case sanitise_at_signs (query_message cfg (the (te_query_screen e))) of
            Abort \<Rightarrow> (Abort, x)
          | Ret msg \<Rightarrow>
              (case chat_client_send e chat_path ''sidecar'' msg x of
                 (Abort, y) \<Rightarrow> (Abort, y)
               | (Ret rc, y) \<Rightarrow>
                   if rc \<noteq> 0 then query_error e cfg chat_path ''failed to post session output to chat'' rc y
                   else (Ret rc, y))))"

definition respond_dialogue :: "tick_env \<Rightarrow> dialogue_response \<Rightarrow> side \<Rightarrow> unit outcome \<times> side" where
  "respond_dialogue e resp x =
     (if \<not> (dr_option resp > 0 \<and> dr_option resp \<le> 9) then (Abort, x)
      else (let y = typed_in (snprintf 4 (dec (dr_option resp))) x in
        (Ret (), if \<not> te_option_typed e then y else pressed ''Enter'' y)))"

section \<open>Whether to notify\<close>

definition cooldown_is_active :: "sidecar_config \<Rightarrow> int \<Rightarrow> 'a sidecar_state_scheme \<Rightarrow> bool" where
  "cooldown_is_active cfg now x =
     (if ss_last_notify_time x = 0 then False else now - ss_last_notify_time x < sc_notify_cooldown cfg)"

definition mention_waits :: "'a sidecar_state_scheme \<Rightarrow> bool" where
  "mention_waits x \<longleftrightarrow> ss_mention_detected x \<and> ss_mention_payload x \<noteq> []"

definition mention_bypasses_cooldown :: "'a sidecar_state_scheme \<Rightarrow> bool" where
  "mention_bypasses_cooldown x \<longleftrightarrow> mention_waits x \<and> strstr ''from sidecar:'' (ss_mention_payload x) = None"

definition message_parts :: "'a sidecar_state_scheme \<Rightarrow> string" where
  "message_parts x =
     snprintf SIDECAR_MAX_MESSAGE
      (if ss_bus_event_summary x \<noteq> [] \<and> ss_chat_unread_summary x \<noteq> []
       then ss_bus_event_summary x @ ''. '' @ ss_chat_unread_summary x
       else ss_bus_event_summary x @ ss_chat_unread_summary x)"

text \<open>What is pending on the bus: 0 when there is something, and the state with what was found.\<close>

definition look_at_bus :: "tick_env \<Rightarrow> sidecar_config \<Rightarrow> side \<Rightarrow> (int \<times> side) outcome" where
  "look_at_bus e cfg x =
     (let x1 = x\<lparr>ss_bus_event_count := 0, ss_bus_max_priority := ''none'', ss_bus_event_summary := []\<rparr> in
      case first_of ''bus'' e cfg x of
        None \<Rightarrow> Ret (1, x1)
      | Some bus_dir \<Rightarrow>
          and_then (bus_client_check (te_client e) bus_dir 16 SIDECAR_MAX_MESSAGE (sd_bus x)) (\<lambda>(rc, r).
            Ret (if rc < 0 then 1 else rc,
                 x1\<lparr>ss_bus_event_count := int (cr_count r), ss_bus_max_priority := cr_priority r, ss_bus_event_summary := cr_summary r\<rparr>)))"

definition look_at_chats :: "tick_env \<Rightarrow> sidecar_config \<Rightarrow> side \<Rightarrow> (int \<times> side) outcome" where
  "look_at_chats e cfg x =
     and_then (chat_client_check_unread (te_chat e) (te_reg e) (registry_path cfg) (sc_handle cfg) SIDECAR_MAX_MESSAGE (sd_fs x)) (\<lambda>(rc, n, summary).
       Ret (if rc < 0 then 1 else rc, x\<lparr>ss_chat_unread_count := n, ss_chat_unread_summary := summary\<rparr>))"

definition compose_message :: "side \<Rightarrow> (bool \<times> side) outcome" where
  "compose_message x =
     (let y = (if mention_waits x
               then x\<lparr>ss_notify_message := ''MENTION: '' @ take (SIDECAR_MAX_MESSAGE - 10) (ss_mention_payload x),
                      ss_mention_detected := False, ss_mention_payload := []\<rparr>
               else x\<lparr>ss_notify_message := message_parts x\<rparr>)
      in ASSERT_MSG (ss_notify_message y \<noteq> []) (Ret (True, y)))"

text \<open>\<open>True\<close>: inject a notification (0 in the code).\<close>

definition should_inject_notify :: "tick_env \<Rightarrow> sidecar_config \<Rightarrow> side \<Rightarrow> (bool \<times> side) outcome" where
  "should_inject_notify e cfg x0 =
     (let x = x0\<lparr>ss_notify_message := []\<rparr> in
      if ss_sidecar_start_time x > 0 \<and> te_grace_now e - ss_sidecar_start_time x < sc_startup_grace cfg then Ret (False, x)
      else if \<not> ss_startup_notify_sent x then
        Ret (True, x\<lparr>ss_startup_notify_sent := True, ss_notify_message := ''sidecar startup catch-up'', ss_last_notify_time := te_grace_now e\<rparr>)
      else and_then (look_at_bus e cfg x) (\<lambda>(bus_rc, x1).
        and_then (look_at_chats e cfg x1) (\<lambda>(chat_rc, x2).
          if bus_rc \<noteq> 0 \<and> chat_rc \<noteq> 0 then Ret (False, x2)
          else and_then (if bus_rc \<noteq> 0 \<and> chat_rc = 0
                         then chat_client_are_unread_sidecar_only (te_chat e) (te_reg e) (registry_path cfg) (sc_handle cfg) (sd_fs x2)
                         else Ret False) (\<lambda>only_sidecar.
            if only_sidecar then Ret (False, x2)
            else if ss_bus_max_priority x2 \<noteq> ''critical'' \<and> \<not> mention_bypasses_cooldown x2 \<and> cooldown_is_active cfg (te_cd2_now e) x2
            then Ret (False, x2)
            else compose_message x2))))"

section \<open>The stages of a tick\<close>

datatype flow = Onward | NextTick | Leave int

type_synonym stage = "tick_env \<Rightarrow> sidecar_config \<Rightarrow> side \<Rightarrow> flow outcome \<times> side"

fun run_stages :: "stage list \<Rightarrow> stage" where
  "run_stages [] e cfg x = (Ret NextTick, x)"
| "run_stages (st # sts) e cfg x =
     (case st e cfg x of (Ret Onward, y) \<Rightarrow> run_stages sts e cfg y | r \<Rightarrow> r)"

definition stage_pause :: stage where
  "stage_pause e cfg x0 =
     (let x = x0\<lparr>sd_paused := False, sd_catchup := False\<rparr> in
      if files (sd_fs x) (pause_path cfg) = None then (Ret Onward, x)
      else (Ret (if \<not> sd_init_pending x then NextTick else Onward), x\<lparr>sd_paused := True, ss_was_paused := True\<rparr>))"

definition resume_msg :: string where
  "resume_msg = ''[NBS-SYSTEM-NOTIFICATION] Chat is resuming. Your cursor has been reset. The chat is NOT paused. ''
     @ ''Read your unread messages with nbs-chat read --unread=<your-handle> and resume work. ''
     @ ''[THIS MESSAGE WAS MACHINE GENERATED]''"

definition stage_resume :: stage where
  "stage_resume e cfg x0 =
     (if ss_was_paused x0 \<and> \<not> sd_paused x0 then
        (let x = x0\<lparr>ss_was_paused := False\<rparr> in
         case te_resume_screen e of
           Some content \<Rightarrow>
             if detect_prompt_not_trust content
             then (Ret Onward, (pressed ''Enter'' (typed_in resume_msg x))
                    \<lparr>ss_last_notify_time := te_resume_now e, ss_idle_seconds := 0, ss_last_content_hash := 0\<rparr>)
             else (Ret Onward, x)
         | None \<Rightarrow> (Ret Onward, x))
      else (Ret Onward, x0))"

definition stage_invariants :: stage where
  "stage_invariants e cfg x =
     (if \<not> (ss_idle_seconds x \<ge> 0 \<and> ss_bus_check_counter x \<ge> 0 \<and> ss_notify_fail_count x \<ge> 0) then (Abort, x) else (Ret Onward, x))"

definition stage_heartbeat :: stage where
  "stage_heartbeat e cfg x =
     (if te_hb_now e - sd_heartbeat x \<ge> 300 then
        (case pid_marker_check (te_pids e) (pid_marker_path cfg) (sc_handle cfg) (sd_fs x) of (rc, s1) \<Rightarrow>
           (Ret (if rc = 1 then Leave SIDECAR_EXIT_OK else Onward), x\<lparr>sd_heartbeat := te_hb_now e, sd_fs := s1\<rparr>))
      else (Ret Onward, x))"

definition stage_inbox :: stage where
  "stage_inbox e cfg x =
     (case registry_process_inbox (te_inbox e) (inbox_path cfg) (registry_path cfg) (ss_control_inbox_line x) (sd_fs x) of
        (Abort, n, s1) \<Rightarrow> (Abort, x\<lparr>ss_control_inbox_line := n, sd_fs := s1\<rparr>)
      | (Ret _, n, s1) \<Rightarrow> (Ret Onward, x\<lparr>ss_control_inbox_line := n, sd_fs := s1\<rparr>))"

text \<open>The first event of the type that names one of the handles: the directory, its name and what it says.\<close>

fun typed_event :: "string \<Rightarrow> string list \<Rightarrow> tick_env \<Rightarrow> string \<Rightarrow> side \<Rightarrow> (string \<times> string) option outcome" where
  "typed_event ty [] e bus_dir x = Ret None"
| "typed_event ty (h # hs) e bus_dir x =
     and_then (bus_client_check_typed (te_client e) bus_dir ty h SIDECAR_MAX_MESSAGE SIDECAR_MAX_PATH (sd_bus x)) (\<lambda>(rc, payload, event_file).
       if rc = 0 then Ret (Some (payload, event_file)) else typed_event ty hs e bus_dir x)"

definition ack_event :: "tick_env \<Rightarrow> string \<Rightarrow> string \<Rightarrow> side \<Rightarrow> unit outcome \<times> side" where
  "ack_event e bus_dir event_file x =
     (case bus_client_ack_event (te_client e) bus_dir event_file (sd_bus x) of (r, b1) \<Rightarrow>
       (and_then r (\<lambda>_. Ret ()), x\<lparr>sd_bus := b1\<rparr>))"

definition stage_query :: stage where
  "stage_query e cfg x =
     (case first_of ''bus'' e cfg x of
        None \<Rightarrow> (Ret Onward, x)
      | Some bus_dir \<Rightarrow>
         (case typed_event ''chat-query'' [sc_handle cfg] e bus_dir x of
            Abort \<Rightarrow> (Abort, x)
          | Ret None \<Rightarrow> (Ret Onward, x)
          | Ret (Some (payload, event_file)) \<Rightarrow>
             (case handle_query e cfg x of
                (Abort, y) \<Rightarrow> (Abort, y)
              | (Ret _, y) \<Rightarrow>
                 (case ack_event e bus_dir event_file y of (r, z) \<Rightarrow> (and_then r (\<lambda>_. Ret Onward), z)))))"

definition stage_init_prompt :: stage where
  "stage_init_prompt e cfg x =
     (if \<not> sd_init_pending x then (Ret Onward, x)
      else if te_init_now e > sd_init_deadline x then (Ret Onward, x\<lparr>sd_init_pending := False\<rparr>)
      else (case te_init_screen e of
          None \<Rightarrow> (Ret Onward, x)
        | Some content \<Rightarrow>
            if detect_prompt_not_trust content
            then (Ret Onward, (pressed ''Enter'' (typed_in (sc_initial_prompt cfg) x))\<lparr>sd_init_pending := False\<rparr>)
            else (Ret Onward, x)))"

definition stage_paused_skip :: stage where
  "stage_paused_skip e cfg x = (Ret (if sd_paused x then NextTick else Onward), x)"

definition stage_interrupt :: stage where
  "stage_interrupt e cfg x =
     (case first_of ''bus'' e cfg x of
        None \<Rightarrow> (Ret Onward, x)
      | Some bus_dir \<Rightarrow>
         (case typed_event ''chat-interrupt'' [sc_handle cfg, ''team''] e bus_dir x of
            Abort \<Rightarrow> (Abort, x)
          | Ret None \<Rightarrow> (Ret Onward, x\<lparr>ss_interrupt_retry_count := 0\<rparr>)
          | Ret (Some (payload, event_file)) \<Rightarrow>
             (case handle_interrupt e cfg x of
                (Abort, y) \<Rightarrow> (Abort, y)
              | (Ret rc, y) \<Rightarrow>
                 (let give_up = (ss_interrupt_retry_count y + 1 \<ge> 3);
                      r = (if rc = 0 \<or> give_up then ack_event e bus_dir event_file y else (Ret (), y)) in
                  case r of
                    (Abort, z) \<Rightarrow> (Abort, z)
                  | (Ret _, z) \<Rightarrow>
                     (Ret NextTick,
                      z\<lparr>ss_interrupt_retry_count := (if rc = 0 \<or> give_up then 0 else ss_interrupt_retry_count y + 1),
                        ss_idle_seconds := 0, ss_last_content_hash := 0\<rparr>)))))"

definition cap_payload :: "string \<Rightarrow> string" where
  "cap_payload payload =
     (if length payload \<ge> SIDECAR_MAX_MESSAGE then take (SIDECAR_MAX_MESSAGE - 4) payload @ ''...''
      else snprintf SIDECAR_MAX_MESSAGE payload)"

definition stage_mention :: stage where
  "stage_mention e cfg x =
     (case first_of ''bus'' e cfg x of
        None \<Rightarrow> (Ret Onward, x)
      | Some bus_dir \<Rightarrow>
         (case typed_event ''chat-mention'' [sc_handle cfg, ''team''] e bus_dir x of
            Abort \<Rightarrow> (Abort, x)
          | Ret None \<Rightarrow> (Ret Onward, x)
          | Ret (Some (payload, event_file)) \<Rightarrow>
             (case ack_event e bus_dir event_file (x\<lparr>ss_mention_detected := True, ss_mention_payload := cap_payload payload\<rparr>) of
                (r, y) \<Rightarrow> (and_then r (\<lambda>_. Ret Onward), y))))"

definition stage_alive :: stage where
  "stage_alive e cfg x =
     (if te_is_alive e = 0 then (Ret (Leave SIDECAR_EXIT_OK), x)
      else if te_is_alive e < 0 then
        (let x1 = x\<lparr>sd_alive_errors := sd_alive_errors x + 1\<rparr> in
         (Ret (if sd_alive_errors x1 \<ge> 60 then Leave SIDECAR_EXIT_OK else Onward), x1))
      else (Ret Onward, x\<lparr>sd_alive_errors := 0\<rparr>))"

definition stage_cooldown :: stage where
  "stage_cooldown e cfg x =
     (let cd_active = cooldown_is_active cfg (te_cd_now e) x in
      case chat_client_check_unread (te_chat e) (te_reg e) (registry_path cfg) (sc_handle cfg) SIDECAR_MAX_MESSAGE (sd_fs x) of
        Abort \<Rightarrow> (Abort, x)
      | Ret (ur_rc, unread_count, _) \<Rightarrow>
         (let has_unreads = (ur_rc = 0 \<and> unread_count > 0);
              x1 = (if has_unreads \<and> cd_active then x\<lparr>ss_cooldown_suppressed := True\<rparr> else x) in
          if ss_cooldown_suppressed x1 \<and> \<not> cd_active
          then (Ret Onward, x1\<lparr>sd_catchup := True, ss_cooldown_suppressed := False\<rparr>)
          else (Ret Onward, x1)))"

definition stage_capture :: stage where
  "stage_capture e cfg x = (case te_screen e of None \<Rightarrow> (Ret NextTick, x) | Some content \<Rightarrow> (Ret Onward, x\<lparr>sd_content := content\<rparr>))"

definition stage_poll :: stage where
  "stage_poll e cfg x =
     (if sc_poll_interval cfg > 0 \<and> te_wc_now e - ss_last_poll_time x \<ge> sc_poll_interval cfg
         \<and> fst (detect_blocking_dialogue (sd_content x)) = DIALOGUE_NONE \<and> \<not> detect_context_stress (sd_content x)
      then (Ret NextTick, (pressed ''Enter'' (typed_in ''/nbs-poll'' x))
              \<lparr>ss_last_poll_time := te_wc_now e, ss_idle_seconds := 0, ss_last_content_hash := 0\<rparr>)
      else (Ret Onward, x))"

definition run_trigger :: "tick_env \<Rightarrow> sidecar_config \<Rightarrow> trigger_periodic \<Rightarrow> int \<Rightarrow> side \<Rightarrow> unit outcome \<times> side" where
  "run_trigger e cfg t interval x =
     (case trigger_periodic_check (te_trig e (tp_name t)) (sc_nbs_root cfg) interval t (sd_fs x) of (r, argv, s1) \<Rightarrow>
       (and_then r (\<lambda>_. Ret ()), (case argv of None \<Rightarrow> x | Some a \<Rightarrow> ran a x)\<lparr>sd_fs := s1\<rparr>))"

definition stage_trigger :: "trigger_periodic \<Rightarrow> (sidecar_config \<Rightarrow> int) \<Rightarrow> (side \<Rightarrow> int) \<Rightarrow> (int \<Rightarrow> side \<Rightarrow> side) \<Rightarrow> stage" where
  "stage_trigger t interval_of last_check set_last e cfg x =
     (if interval_of cfg > 0 \<and> te_wc_now e - last_check x \<ge> 60
      then (case run_trigger e cfg t (interval_of cfg) (set_last (te_wc_now e) x) of (r, y) \<Rightarrow> (and_then r (\<lambda>_. Ret Onward), y))
      else (Ret Onward, x))"

definition trigger_stages :: "stage list" where
  "trigger_stages =
     [stage_trigger TRIGGER_FIXUP sc_fixup_interval ss_last_fixup_check (\<lambda>v x. x\<lparr>ss_last_fixup_check := v\<rparr>),
      stage_trigger TRIGGER_LIBRARIAN sc_librarian_interval ss_last_librarian_check (\<lambda>v x. x\<lparr>ss_last_librarian_check := v\<rparr>),
      stage_trigger TRIGGER_PYTHIA sc_pythia_interval ss_last_pythia_check (\<lambda>v x. x\<lparr>ss_last_pythia_check := v\<rparr>),
      stage_trigger TRIGGER_SHEPARD sc_shepard_interval ss_last_shepard_check (\<lambda>v x. x\<lparr>ss_last_shepard_check := v\<rparr>)]"

definition reaper_argv :: "string option \<Rightarrow> string \<Rightarrow> string list option" where
  "reaper_argv self nbs_root =
     (case self of None \<Rightarrow> None
      | Some s \<Rightarrow>
          if s = [] then None
          else (case self_dir (cstr (take 4095 s)) of None \<Rightarrow> None
            | Some dir \<Rightarrow>
                if length dir + 19 \<le> 4096 then Some [dir @ ''/nbs-oracle-reaper'', ''check'', nbs_root] else None))"

definition stage_reaper :: stage where
  "stage_reaper e cfg x =
     (if te_wc_now e - sd_reaper x \<ge> 10
      then (let x1 = x\<lparr>sd_reaper := te_wc_now e\<rparr> in
            (Ret Onward, case reaper_argv (te_self e) (sc_nbs_root cfg) of None \<Rightarrow> x1 | Some a \<Rightarrow> ran a x1))
      else (Ret Onward, x))"

text \<open>A dialogue is answered; \<open>None\<close>: there is none.\<close>

definition answer_dialogue :: "tick_env \<Rightarrow> side \<Rightarrow> (unit outcome \<times> side) option" where
  "answer_dialogue e x =
     (case detect_blocking_dialogue (sd_content x) of (d, resp) \<Rightarrow>
       if d = DIALOGUE_NONE then None
       else Some (respond_dialogue e (case resp of Some r \<Rightarrow> r | None \<Rightarrow> \<lparr>dr_option = 0, dr_settle = 0\<rparr>) x))"

definition stage_changed :: stage where
  "stage_changed e cfg x =
     (let current_hash = fnv1a_hash (sd_content x) in
      if current_hash = ss_last_content_hash x then (Ret Onward, x)
      else (let x1 = x\<lparr>ss_idle_seconds := 0, ss_bus_check_counter := 0, ss_last_content_hash := current_hash\<rparr> in
        case answer_dialogue e x1 of
          Some (r, y) \<Rightarrow> (and_then r (\<lambda>_. Ret NextTick), y\<lparr>ss_last_content_hash := 0\<rparr>)
        | None \<Rightarrow> (Ret (if \<not> sd_catchup x1 then NextTick else Onward), x1)))"

definition stage_dialogue :: stage where
  "stage_dialogue e cfg x =
     (case answer_dialogue e x of
        Some (r, y) \<Rightarrow> (and_then r (\<lambda>_. Ret NextTick), y\<lparr>ss_idle_seconds := 0, ss_last_content_hash := 0\<rparr>)
      | None \<Rightarrow> (Ret Onward, x))"

definition stage_count :: stage where
  "stage_count e cfg x =
     (Ret Onward, x\<lparr>ss_idle_seconds := (if ss_idle_seconds x < INT_MAX then ss_idle_seconds x + 1 else ss_idle_seconds x),
        ss_bus_check_counter := (if ss_bus_check_counter x < INT_MAX then ss_bus_check_counter x + 1 else ss_bus_check_counter x)\<rparr>)"

section \<open>Notifying\<close>

text \<open>All events of the bus are acknowledged, by the \<open>nbs-bus\<close> found on the PATH.\<close>

definition ack_all :: "tick_env \<Rightarrow> sidecar_config \<Rightarrow> side \<Rightarrow> side" where
  "ack_all e cfg x =
     (case first_of ''bus'' e cfg x of
        None \<Rightarrow> x
      | Some bus_dir \<Rightarrow>
         (case run_forget (te_path_bus e) (cmd_ack_all (bc_bus (te_path_bus e)) [''nbs-bus'', ''ack-all'', bus_dir]) (sd_bus x) of
            (_, b1) \<Rightarrow> x\<lparr>sd_bus := b1\<rparr>))"

definition fail_message :: "sidecar_config \<Rightarrow> int \<Rightarrow> string" where
  "fail_message cfg n =
     snprintf SIDECAR_MAX_MESSAGE (''Notification injection failed '' @ dec n @ '' consecutive times for '' @ sc_handle cfg
       @ '' '' @ dash @ '' agent may not be receiving messages. @supervisor please investigate.'')"

definition count_failure :: "tick_env \<Rightarrow> sidecar_config \<Rightarrow> side \<Rightarrow> unit outcome \<times> side" where
  "count_failure e cfg x =
     (let n = ss_notify_fail_count x + 1; x1 = x\<lparr>ss_notify_fail_count := n\<rparr> in
      if n \<ge> sc_notify_fail_threshold cfg then
        (case (case first_of ''chat'' e cfg x1 of
                 None \<Rightarrow> (Ret 0, x1) | Some fail_chat \<Rightarrow> chat_client_error e fail_chat (fail_message cfg n) x1) of
           (Abort, y) \<Rightarrow> (Abort, y)
         | (Ret _, y) \<Rightarrow> (Ret (), y\<lparr>ss_notify_fail_count := 0\<rparr>))
      else (Ret (), x1))"

text \<open>The text and Enter; the first capture that succeeds afterwards counts as success, whatever it shows.\<close>

definition inject :: "tick_env \<Rightarrow> sidecar_config \<Rightarrow> side \<Rightarrow> unit outcome \<times> side" where
  "inject e cfg x =
     (let y = (pressed ''Enter'' (typed_in build_notify_prompt x))\<lparr>ss_last_notify_time := te_notify_now e\<rparr> in
      if list_ex (\<lambda>v. v \<noteq> None) (take 3 (te_verify_screens e))
      then (Ret (), ack_all e cfg (y\<lparr>ss_notify_fail_count := 0\<rparr>))
      else count_failure e cfg y)"

definition quiet :: "side \<Rightarrow> side" where
  "quiet x = x\<lparr>ss_idle_seconds := 0, ss_last_content_hash := 0\<rparr>"

definition prompt_gone :: "tick_env \<Rightarrow> bool" where
  "prompt_gone e \<longleftrightarrow> (case te_fresh_screen e of None \<Rightarrow> False | Some fresh \<Rightarrow> \<not> detect_prompt_idle fresh)"

definition stage_notify :: stage where
  "stage_notify e cfg x0 =
     (if \<not> (ss_bus_check_counter x0 \<ge> sc_bus_check_interval cfg \<or> sd_catchup x0) then (Ret NextTick, x0)
      else (let x = x0\<lparr>ss_bus_check_counter := 0\<rparr> in
        if \<not> (detect_prompt_idle (sd_content x) \<or> sd_catchup x) then (Ret NextTick, x)
        else if detect_context_stress (sd_content x) then (Ret NextTick, quiet x)
        else (case should_inject_notify e cfg x of
          Abort \<Rightarrow> (Abort, x)
        | Ret (False, y) \<Rightarrow> (Ret NextTick, y)
        | Ret (True, y) \<Rightarrow>
            if prompt_gone e then (Ret NextTick, quiet y)
            else (case inject e cfg y of (r, z) \<Rightarrow> (and_then r (\<lambda>_. Ret NextTick), quiet z)))))"

section \<open>The loop\<close>

definition tick_stages :: "stage list" where
  "tick_stages =
     [stage_pause, stage_resume, stage_invariants, stage_heartbeat, stage_inbox, stage_query, stage_init_prompt, stage_paused_skip,
      stage_interrupt, stage_mention, stage_alive, stage_cooldown, stage_capture, stage_poll]
     @ trigger_stages @ [stage_reaper, stage_changed, stage_dialogue, stage_count, stage_notify]"

definition tick :: stage where
  "tick = run_stages tick_stages"

text \<open>Between two ticks the other processes change files and bus.\<close>

definition others :: "tick_env \<Rightarrow> side \<Rightarrow> side" where
  "others e x = x\<lparr>sd_fs := te_fs_others e (sd_fs x), sd_bus := te_bus_others e (sd_bus x)\<rparr>"

fun run_ticks :: "sidecar_config \<Rightarrow> tick_env list \<Rightarrow> side \<Rightarrow> flow outcome \<times> side" where
  "run_ticks cfg [] x = (Ret NextTick, x)"
| "run_ticks cfg (e # es) x =
     (case tick e cfg (others e x) of (Ret NextTick, y) \<Rightarrow> run_ticks cfg es y | r \<Rightarrow> r)"

record start_env =
  sa_seed :: seed_env
  sa_pids :: pid_env
  sa_deadline_now :: int
  sa_now :: int

definition initial_side :: "start_env \<Rightarrow> sidecar_config \<Rightarrow> fs \<Rightarrow> bus \<Rightarrow> side" where
  "initial_side e cfg s b =
     \<lparr>ss_idle_seconds = 0, ss_bus_check_counter = 0, ss_last_content_hash = 0, ss_sidecar_start_time = sa_now e, ss_last_notify_time = 0,
      ss_last_poll_time = sa_now e, ss_last_fixup_check = sa_now e, ss_last_librarian_check = sa_now e, ss_last_pythia_check = sa_now e,
      ss_last_shepard_check = sa_now e, ss_notify_fail_count = 0, ss_mention_detected = False, ss_mention_payload = [],
      ss_bus_event_count = 0, ss_bus_max_priority = [], ss_bus_event_summary = [], ss_chat_unread_count = 0,
      ss_chat_unread_summary = [], ss_notify_message = [], ss_control_inbox_line = 0, ss_interrupt_retry_count = 0,
      ss_cooldown_suppressed = False, ss_startup_notify_sent = False, ss_was_paused = False,
      sd_init_pending = (sc_initial_prompt cfg \<noteq> []), sd_init_deadline = sa_deadline_now e + 60, sd_heartbeat = sa_now e,
      sd_reaper = sa_now e, sd_alive_errors = 0, sd_paused = False, sd_catchup = False, sd_content = [],
      sd_fs = s, sd_bus = b, sd_out = []\<rparr>"

text \<open>Up to the loop: the exit code or the state to start with.\<close>

definition sidecar_start :: "start_env \<Rightarrow> sidecar_config \<Rightarrow> fs \<Rightarrow> bus \<Rightarrow> (int + side) outcome" where
  "sidecar_start e cfg s b =
     and_then (build_registry_path cfg) (\<lambda>reg. and_then (build_inbox_path cfg) (\<lambda>_.
       case registry_seed (sa_seed e) (sc_nbs_root cfg) reg s of
         (Abort, s1) \<Rightarrow> Abort
       | (Ret _, s1) \<Rightarrow> and_then (build_pid_marker_path cfg) (\<lambda>marker.
           case pid_marker_check (sa_pids e) marker (sc_handle cfg) s1 of (rc, s2) \<Rightarrow>
             if rc = 1 then Ret (Inl SIDECAR_EXIT_ERROR)
             else ASSERT_MSG (sa_now e > 0) (Ret (Inr (initial_side e cfg s2 b))))))"

text \<open>After the loop the marker goes, when it still is this sidecar's.\<close>

definition sidecar_stop :: "pid_env \<Rightarrow> sidecar_config \<Rightarrow> side \<Rightarrow> side" where
  "sidecar_stop e cfg x =
     (case marker_pid (pe_read e) (pid_marker_path cfg) (sd_fs x) of
        Some (Some p) \<Rightarrow> if p = pe_pid e then x\<lparr>sd_fs := pid_marker_remove (pid_marker_path cfg) (sd_fs x)\<rparr> else x
      | _ \<Rightarrow> x)"

text \<open>The exit code with the last state; \<open>None\<close>: still in the loop after these ticks.\<close>

definition sidecar_run :: "start_env \<Rightarrow> tick_env list \<Rightarrow> sidecar_config \<Rightarrow> fs \<Rightarrow> bus \<Rightarrow> (int \<times> side option) option outcome" where
  "sidecar_run e es cfg s b =
     and_then (sidecar_start e cfg s b) (\<lambda>start.
       case start of
         Inl code \<Rightarrow> Ret (Some (code, None))
       | Inr x \<Rightarrow>
          (case run_ticks cfg es x of
             (Abort, _) \<Rightarrow> Abort
           | (Ret (Leave code), y) \<Rightarrow> Ret (Some (code, Some (sidecar_stop (sa_pids e) cfg y)))
           | (Ret _, y) \<Rightarrow> Ret None))"

end
