(* ===== verification/SideLoopProps.thy ===== *)
theory SideLoopProps
  imports SideLoop SideBusProps SideChatProps
begin

text \<open>
  What the sidecar's loop promises over any number of ticks: what it types and which programs it
  runs, when it notifies, what it does while the team is paused, and that its counters stay in
  their ranges.
\<close>

section \<open>What a tick may do\<close>

text \<open>Every text, key and program of the sidecar.\<close>

definition urgent :: "sidecar_config \<Rightarrow> string" where
  "urgent cfg = ''URGENT: @supervisor - agent unresponsive '' @ sc_handle cfg"

definition query_reasons :: "string list" where
  "query_reasons =
     [''no nbs-ts session directory '' @ dash @ '' agent may not have started'',
      ''session has no visible output '' @ dash @ '' agent may be initialising or dead'',
      ''failed to post session output to chat'']"

definition query_text :: "sidecar_config \<Rightarrow> string \<Rightarrow> string" where
  "query_text cfg reason = snprintf 512 (sc_handle cfg @ ''? query: '' @ reason)"

definition allowed_run :: "sidecar_config \<Rightarrow> string list \<Rightarrow> bool" where
  "allowed_run cfg argv \<longleftrightarrow>
     (\<exists>prog p msg. argv = [prog, ''send'', p, ''sidecar'', msg] \<and> (msg = urgent cfg \<or> CHR ''@'' \<notin> set msg))
     \<or> (\<exists>prog p reason. argv = [prog, ''error'', p, query_text cfg reason] \<and> reason \<in> set query_reasons)
     \<or> (\<exists>prog p n. argv = [prog, ''error'', p, fail_message cfg n])
     \<or> (\<exists>workers t. argv = spawn_argv workers (sc_nbs_root cfg) t \<and> t \<in> {TRIGGER_FIXUP, TRIGGER_LIBRARIAN, TRIGGER_PYTHIA, TRIGGER_SHEPARD})
     \<or> (\<exists>dir. argv = [dir @ ''/nbs-oracle-reaper'', ''check'', sc_nbs_root cfg])"

definition typeable :: "sidecar_config \<Rightarrow> string set" where
  "typeable cfg = {sc_initial_prompt cfg, resume_msg, build_notify_prompt, ''/nbs-poll'', ''1'', ''2''}"

fun allowed :: "sidecar_config \<Rightarrow> action \<Rightarrow> bool" where
  "allowed cfg (Typed t) \<longleftrightarrow> t \<in> typeable cfg"
| "allowed cfg (Pressed k) \<longleftrightarrow> k \<in> {''Enter'', ''Escape''}"
| "allowed cfg (Ran argv) \<longleftrightarrow> allowed_run cfg argv"

definition does :: "(action list \<Rightarrow> bool) \<Rightarrow> side \<Rightarrow> side \<Rightarrow> bool" where
  "does P x y \<longleftrightarrow> (\<exists>acts. sd_out y = sd_out x @ acts \<and> P acts)"

text \<open>A notification of the loop is one that is not the end of an interrupt.\<close>

definition notifies :: "action list \<Rightarrow> bool" where
  "notifies acts \<longleftrightarrow> Typed build_notify_prompt \<in> set acts \<and> Pressed ''Escape'' \<notin> set acts"

definition lawful :: "sidecar_config \<Rightarrow> action list \<Rightarrow> bool" where
  "lawful cfg acts \<longleftrightarrow> list_all (allowed cfg) acts"

section \<open>Stages that leave the notifications alone\<close>

definition steady :: "sidecar_config \<Rightarrow> side \<Rightarrow> side \<Rightarrow> bool" where
  "steady cfg x y \<longleftrightarrow> ss_last_notify_time y = ss_last_notify_time x \<and> ss_startup_notify_sent y = ss_startup_notify_sent x
     \<and> ss_sidecar_start_time y = ss_sidecar_start_time x
     \<and> does (\<lambda>acts. lawful cfg acts \<and> (Typed build_notify_prompt \<in> set acts \<longrightarrow> Pressed ''Escape'' \<in> set acts)) x y"

lemma steady_same: "sd_out y = sd_out x \<Longrightarrow> ss_last_notify_time y = ss_last_notify_time x \<Longrightarrow>
    ss_startup_notify_sent y = ss_startup_notify_sent x \<Longrightarrow> ss_sidecar_start_time y = ss_sidecar_start_time x \<Longrightarrow> steady cfg x y"
  by (simp add: steady_def does_def lawful_def)

lemma steady_refl [simp]: "steady cfg x x"
  by (rule steady_same) simp_all

lemma steady_trans [trans]: "steady cfg x y \<Longrightarrow> steady cfg y z \<Longrightarrow> steady cfg x z"
  by (fastforce simp: steady_def does_def lawful_def)

text \<open>Later changes of other fields do not matter.\<close>

lemma steady_upd [simp]:
  "steady cfg x (y\<lparr>ss_idle_seconds := a\<rparr>) = steady cfg x y" "steady cfg x (y\<lparr>ss_bus_check_counter := a\<rparr>) = steady cfg x y"
  "steady cfg x (y\<lparr>ss_last_content_hash := w\<rparr>) = steady cfg x y" "steady cfg x (y\<lparr>ss_interrupt_retry_count := a\<rparr>) = steady cfg x y"
  "steady cfg x (y\<lparr>ss_last_poll_time := a\<rparr>) = steady cfg x y" "steady cfg x (y\<lparr>sd_init_pending := b\<rparr>) = steady cfg x y"
  "steady cfg x (y\<lparr>sd_fs := s\<rparr>) = steady cfg x y" "steady cfg x (y\<lparr>sd_bus := u\<rparr>) = steady cfg x y"
  "steady cfg x (y\<lparr>ss_notify_fail_count := a\<rparr>) = steady cfg x y" "steady cfg x (y\<lparr>ss_was_paused := b\<rparr>) = steady cfg x y"
  "steady cfg x (y\<lparr>sd_paused := b\<rparr>) = steady cfg x y" "steady cfg x (y\<lparr>sd_catchup := b\<rparr>) = steady cfg x y"
  "steady cfg x (y\<lparr>sd_heartbeat := a\<rparr>) = steady cfg x y" "steady cfg x (y\<lparr>ss_control_inbox_line := n\<rparr>) = steady cfg x y"
  "steady cfg x (y\<lparr>ss_mention_detected := b\<rparr>) = steady cfg x y" "steady cfg x (y\<lparr>ss_mention_payload := t\<rparr>) = steady cfg x y"
  "steady cfg x (y\<lparr>sd_alive_errors := a\<rparr>) = steady cfg x y" "steady cfg x (y\<lparr>ss_cooldown_suppressed := b\<rparr>) = steady cfg x y"
  "steady cfg x (y\<lparr>sd_content := t\<rparr>) = steady cfg x y" "steady cfg x (y\<lparr>sd_reaper := a\<rparr>) = steady cfg x y"
  "steady cfg x (y\<lparr>ss_last_fixup_check := a\<rparr>) = steady cfg x y" "steady cfg x (y\<lparr>ss_last_librarian_check := a\<rparr>) = steady cfg x y"
  "steady cfg x (y\<lparr>ss_last_pythia_check := a\<rparr>) = steady cfg x y" "steady cfg x (y\<lparr>ss_last_shepard_check := a\<rparr>) = steady cfg x y"
  by (simp_all add: steady_def does_def)

lemma steady_typed: "t \<in> typeable cfg \<Longrightarrow> t \<noteq> build_notify_prompt \<Longrightarrow> steady cfg x y \<Longrightarrow> steady cfg x (typed_in t y)"
  by (fastforce simp: steady_def does_def lawful_def typed_in_def)

lemma steady_pressed: "k \<in> {''Enter'', ''Escape''} \<Longrightarrow> steady cfg x y \<Longrightarrow> steady cfg x (pressed k y)"
  by (fastforce simp: steady_def does_def lawful_def pressed_def)

lemma steady_ran: "allowed_run cfg argv \<Longrightarrow> steady cfg x y \<Longrightarrow> steady cfg x (ran argv y)"
  by (fastforce simp: steady_def does_def lawful_def ran_def)

lemma fixed_texts:
  "resume_msg \<noteq> build_notify_prompt" "''/nbs-poll'' \<noteq> build_notify_prompt" "''1'' \<noteq> build_notify_prompt" "''2'' \<noteq> build_notify_prompt"
  by (simp_all add: resume_msg_def build_notify_prompt_def)

subsection \<open>Posting\<close>

lemma run_chat_steady: "allowed_run cfg argv \<Longrightarrow> steady cfg x y \<Longrightarrow> steady cfg x (snd (run_chat e argv y))"
  by (auto simp: run_chat_def Let_def intro: steady_ran split: prod.splits)

lemma send_steady:
  "msg = urgent cfg \<or> CHR ''@'' \<notin> set msg \<Longrightarrow> steady cfg x y \<Longrightarrow> steady cfg x (snd (chat_client_send e p ''sidecar'' msg y))"
  using run_chat_steady[of cfg "[te_chat_prog e, ''send'', p, ''sidecar'', msg]" x y e]
  by (auto simp: chat_client_send_def allowed_run_def split: prod.splits)

lemma allowed_error:
  "(\<exists>reason \<in> set query_reasons. msg = query_text cfg reason) \<or> (\<exists>n. msg = fail_message cfg n) \<Longrightarrow>
   allowed_run cfg [prog, ''error'', p, msg]"
  unfolding allowed_run_def by blast

lemma error_steady:
  assumes "(\<exists>reason \<in> set query_reasons. msg = query_text cfg reason) \<or> (\<exists>n. msg = fail_message cfg n)"
    "steady cfg x y"
  shows "steady cfg x (snd (chat_client_error e p msg y))"
  using run_chat_steady[OF allowed_error[OF assms(1), of "te_chat_prog e" p] assms(2), of e] assms(2)
  by (cases "run_chat e [te_chat_prog e, ''error'', p, msg] y") (simp add: chat_client_error_def)

lemma query_error_steady:
  assumes "reason \<in> set query_reasons" "steady cfg x y"
  shows "steady cfg x (snd (query_error e cfg p reason rc y))"
proof -
  obtain r z where z: "chat_client_error e p (query_text cfg reason) y = (r, z)" by (cases "chat_client_error e p (query_text cfg reason) y")
  have "steady cfg x (snd (chat_client_error e p (query_text cfg reason) y))"
    by (rule error_steady) (use assms in blast)+
  then show ?thesis unfolding query_error_def query_text_def[symmetric] z by (cases r) simp_all
qed

lemma sanitised_line_no_at: "sanitise_at_signs s = Ret msg \<Longrightarrow> CHR ''@'' \<notin> set msg"
proof -
  assume "sanitise_at_signs s = Ret msg"
  then have "list_all (\<lambda>c. c \<noteq> CHR ''@'') msg"
    unfolding sanitise_at_signs_def Let_def ASSERT_MSG_Ret outcome.inject by (elim conjE) (erule subst)
  then show ?thesis unfolding list_all_iff by blast
qed

lemma handle_query_steady: "steady cfg x (snd (handle_query e cfg x))"
proof -
  have post: "steady cfg x (snd (case chat_client_send e p ''sidecar'' msg x of (Abort, y) \<Rightarrow> (Abort, y)
      | (Ret rc, y) \<Rightarrow> if rc \<noteq> 0 then query_error e cfg p ''failed to post session output to chat'' rc y else (Ret rc, y)))"
    if "CHR ''@'' \<notin> set msg" for p msg
    using send_steady[of msg cfg x x e p] that
    by (auto simp: query_reasons_def intro!: query_error_steady split: prod.splits outcome.splits)
  show ?thesis
    using post sanitised_line_no_at
    by (auto simp: handle_query_def query_reasons_def intro!: query_error_steady split: option.splits outcome.splits)
qed

lemma rounds_steady: "steady cfg x y \<Longrightarrow> steady cfg x (snd (interrupt_rounds rs y))"
proof (induction rs y rule: interrupt_rounds.induct)
  case (2 elapsed screens rs y)
  have "steady cfg y (pressed ''Enter'' (typed_in build_notify_prompt (pressed ''Escape'' y)))"
    by (simp add: steady_def does_def lawful_def pressed_def typed_in_def typeable_def)
  then show ?case using 2 steady_trans[OF 2(2)] steady_pressed[of "''Escape''" cfg x y] by (auto simp: Let_def)
qed simp

lemma handle_interrupt_steady: "steady cfg x (snd (handle_interrupt e cfg x))"
proof -
  obtain b y where y: "interrupt_rounds (te_rounds e) x = (b, y)" by (cases "interrupt_rounds (te_rounds e) x")
  then have r: "steady cfg x y" using rounds_steady[of cfg x x "te_rounds e"] by simp
  have post: "steady cfg x z" if "chat_client_send e p ''sidecar'' (urgent cfg) y = (o1, z)" for p o1 z
    using send_steady[of "urgent cfg" cfg x y e p] r that by simp
  show ?thesis
    unfolding handle_interrupt_def y urgent_def[symmetric] Let_def
    using r post by (auto split: bool.splits option.splits outcome.splits prod.splits)
qed

lemma respond_steady:
  "dr_option resp \<in> {1, 2} \<Longrightarrow> steady cfg x y \<Longrightarrow> steady cfg x (snd (respond_dialogue e resp y))"
proof -
  have d: "dec 1 = ''1''" "dec 2 = ''2''" by code_simp+
  show "dr_option resp \<in> {1, 2} \<Longrightarrow> steady cfg x y \<Longrightarrow> ?thesis"
    using fixed_texts
    by (auto simp: respond_dialogue_def Let_def d snprintf_def typeable_def intro!: steady_typed steady_pressed)
qed

lemma dialogue_option: "detect_blocking_dialogue content = (d, Some resp) \<Longrightarrow> dr_option resp \<in> {1, 2}"
  and dialogue_some: "detect_blocking_dialogue content = (d, r) \<Longrightarrow> d \<noteq> DIALOGUE_NONE \<Longrightarrow> r \<noteq> None"
  by (auto simp: detect_blocking_dialogue_def split: if_splits)

lemma answer_steady: "answer_dialogue e y = Some (r, z) \<Longrightarrow> steady cfg x y \<Longrightarrow> steady cfg x z"
  using dialogue_option[of "sd_content y"] dialogue_some[of "sd_content y"] respond_steady[of _ cfg x y e]
  by (fastforce simp: answer_dialogue_def split: prod.splits option.splits if_splits)

section \<open>Stage by stage\<close>

lemma pause_steady: "steady cfg x (snd (stage_pause e cfg x))"
  by (simp add: stage_pause_def Let_def)

lemma invariants_steady: "steady cfg x (snd (stage_invariants e cfg x))"
  by (simp add: stage_invariants_def)

lemma heartbeat_steady: "steady cfg x (snd (stage_heartbeat e cfg x))"
  by (simp add: stage_heartbeat_def split: prod.splits)

lemma inbox_steady: "steady cfg x (snd (stage_inbox e cfg x))"
  by (auto simp: stage_inbox_def split: prod.splits outcome.splits)

lemma ack_steady: "steady cfg x y \<Longrightarrow> steady cfg x (snd (ack_event e d f y))"
  by (auto simp: ack_event_def split: prod.splits)

lemma query_steady: "steady cfg x (snd (stage_query e cfg x))"
proof -
  have "steady cfg x (snd (ack_event e d f y))" if "handle_query e cfg x = (r, y)" for d f r y
    using handle_query_steady[of cfg x e] that by (auto intro: ack_steady)
  then show ?thesis
    using handle_query_steady[of cfg x e]
    by (auto simp: stage_query_def split: option.splits outcome.splits prod.splits)
       (metis snd_conv)+
qed

lemma init_steady: "sc_initial_prompt cfg \<noteq> build_notify_prompt \<Longrightarrow> steady cfg x (snd (stage_init_prompt e cfg x))"
  by (auto simp: stage_init_prompt_def typeable_def intro!: steady_pressed steady_typed split: option.splits)

lemma skip_steady: "steady cfg x (snd (stage_paused_skip e cfg x))"
  by (simp add: stage_paused_skip_def)

lemma interrupt_steady: "steady cfg x (snd (stage_interrupt e cfg x))"
proof -
  have h: "steady cfg x y" if "handle_interrupt e cfg x = (r, y)" for r y
    using handle_interrupt_steady[of cfg x e] that by simp
  have a: "steady cfg x z" if "handle_interrupt e cfg x = (r, y)" "ack_event e d f y = (r1, z)" for d f r y r1 z
    using ack_steady[OF h[OF that(1)], of e d f] that(2) by simp
  show ?thesis
    using h a by (auto simp: stage_interrupt_def Let_def split: option.splits outcome.splits prod.splits if_splits)
qed

lemma mention_steady: "steady cfg x (snd (stage_mention e cfg x))"
proof -
  have "steady cfg x y" if "ack_event e d f (x\<lparr>ss_mention_detected := True, ss_mention_payload := p\<rparr>) = (r, y)" for d f p r y
    using ack_steady[of cfg x "x\<lparr>ss_mention_detected := True, ss_mention_payload := p\<rparr>" e d f] that by simp
  then show ?thesis by (auto simp: stage_mention_def split: option.splits outcome.splits prod.splits)
qed

lemma alive_steady: "steady cfg x (snd (stage_alive e cfg x))"
  by (simp add: stage_alive_def Let_def)

lemma cooldown_steady: "steady cfg x (snd (stage_cooldown e cfg x))"
  by (auto simp: stage_cooldown_def Let_def split: outcome.splits prod.splits)

lemma capture_steady: "steady cfg x (snd (stage_capture e cfg x))"
  by (auto simp: stage_capture_def split: option.splits)

lemma poll_steady: "steady cfg x (snd (stage_poll e cfg x))"
  using fixed_texts by (auto simp: stage_poll_def typeable_def intro!: steady_pressed steady_typed)

lemma check_argv:
  "trigger_periodic_check e root iv t s = (r, Some argv, s1) \<Longrightarrow> argv = spawn_argv (te_workers e) root t"
  by (auto simp: trigger_periodic_check_def trigger_periodic_spawn_def split: if_splits outcome.splits prod.splits)

lemma run_trigger_steady:
  assumes "t \<in> {TRIGGER_FIXUP, TRIGGER_LIBRARIAN, TRIGGER_PYTHIA, TRIGGER_SHEPARD}" "steady cfg x y"
  shows "steady cfg x (snd (run_trigger e cfg t iv y))"
proof -
  have "allowed_run cfg (spawn_argv w (sc_nbs_root cfg) t)" for w using assms(1) unfolding allowed_run_def by blast
  then show ?thesis
    using assms(2) check_argv by (fastforce simp: run_trigger_def intro: steady_ran split: prod.splits option.splits)
qed

lemma trigger_steady: "st \<in> set trigger_stages \<Longrightarrow> steady cfg x (snd (st e cfg x))"
  by (auto simp: trigger_stages_def stage_trigger_def split: prod.splits)
     (metis insertI1 insertI2 run_trigger_steady snd_conv steady_refl steady_upd)+

lemma reaper_steady: "steady cfg x (snd (stage_reaper e cfg x))"
proof -
  have "allowed_run cfg a" if "reaper_argv self (sc_nbs_root cfg) = Some a" for self a
    using that by (auto simp: reaper_argv_def allowed_run_def split: option.splits if_splits)
  then show ?thesis by (auto simp: stage_reaper_def Let_def intro: steady_ran split: option.splits)
qed

lemma changed_steady: "steady cfg x (snd (stage_changed e cfg x))"
  using answer_steady[of e "x\<lparr>ss_idle_seconds := 0, ss_bus_check_counter := 0, ss_last_content_hash := fnv1a_hash (sd_content x)\<rparr>" _ _ cfg x]
  by (auto simp: stage_changed_def Let_def split: option.splits)

lemma dialogue_steady: "steady cfg x (snd (stage_dialogue e cfg x))"
  using answer_steady[of e x _ _ cfg x] by (auto simp: stage_dialogue_def split: option.splits)

lemma count_steady: "steady cfg x (snd (stage_count e cfg x))"
  by (simp add: stage_count_def)

section \<open>The stages before the notification\<close>

text \<open>Resuming is the only one that counts as a notification.\<close>

definition before :: "tick_env \<Rightarrow> sidecar_config \<Rightarrow> side \<Rightarrow> side \<Rightarrow> bool" where
  "before e cfg x y \<longleftrightarrow> ss_last_notify_time y \<in> {ss_last_notify_time x, te_resume_now e}
     \<and> ss_startup_notify_sent y = ss_startup_notify_sent x \<and> ss_sidecar_start_time y = ss_sidecar_start_time x
     \<and> does (\<lambda>acts. lawful cfg acts \<and> (Typed build_notify_prompt \<in> set acts \<longrightarrow> Pressed ''Escape'' \<in> set acts)) x y"

lemma steady_before: "steady cfg x y \<Longrightarrow> before e cfg x y"
  by (simp add: steady_def before_def)

lemma before_refl: "before e cfg x x"
  by (rule steady_before) simp

lemma before_trans: "before e cfg x y \<Longrightarrow> before e cfg y z \<Longrightarrow> before e cfg x z"
  by (fastforce simp: before_def does_def lawful_def)

lemma resume_before: "before e cfg x (snd (stage_resume e cfg x))"
proof -
  have "before e cfg x ((pressed ''Enter'' (typed_in resume_msg (x\<lparr>ss_was_paused := False\<rparr>)))
      \<lparr>ss_last_notify_time := te_resume_now e, ss_idle_seconds := 0, ss_last_content_hash := 0\<rparr>)"
    using fixed_texts(1) by (auto simp: before_def does_def lawful_def pressed_def typed_in_def typeable_def)
  then show ?thesis
    using steady_before[of cfg x "x\<lparr>ss_was_paused := False\<rparr>" e] before_refl[of e cfg x]
    by (auto simp: stage_resume_def Let_def split: option.splits)
qed

text \<open>A sequence of stages that all stay in a relation.\<close>

lemma run_stages_rel:
  assumes "\<And>x. R x x" "\<And>x y z. R x y \<Longrightarrow> R y z \<Longrightarrow> R x z" "\<And>st y. st \<in> set sts \<Longrightarrow> R y (snd (st e cfg y))"
  shows "\<exists>y. R x y \<and> (run_stages (sts @ ts) e cfg x = run_stages ts e cfg y \<or> (\<exists>r. run_stages (sts @ ts) e cfg x = (r, y)))"
  using assms(3)
proof (induction sts arbitrary: x)
  case Nil
  then show ?case using assms(1) by auto
next
  case (Cons st sts)
  obtain r y where y: "st e cfg x = (r, y)" by (cases "st e cfg x")
  have xy: "R x y" using Cons.prems[of st x] y by simp
  show ?case
  proof (cases "r = Ret Onward")
    case True
    then have eq: "run_stages ((st # sts) @ ts) e cfg x = run_stages (sts @ ts) e cfg y" using y by simp
    from Cons.IH[of y] Cons.prems obtain z where "R y z"
      "run_stages (sts @ ts) e cfg y = run_stages ts e cfg z \<or> (\<exists>r. run_stages (sts @ ts) e cfg y = (r, z))" by auto
    then show ?thesis unfolding eq using assms(2)[OF xy] by blast
  next
    case False
    then have "run_stages ((st # sts) @ ts) e cfg x = (r, y)" using y by (auto split: outcome.splits flow.splits)
    then show ?thesis using xy by blast
  qed
qed

definition early_stages :: "stage list" where
  "early_stages =
     [stage_pause, stage_resume, stage_invariants, stage_heartbeat, stage_inbox, stage_query, stage_init_prompt, stage_paused_skip,
      stage_interrupt, stage_mention, stage_alive, stage_cooldown, stage_capture, stage_poll]
     @ trigger_stages @ [stage_reaper, stage_changed, stage_dialogue, stage_count]"

lemma tick_early: "tick e cfg x = run_stages (early_stages @ [stage_notify]) e cfg x"
  by (simp add: tick_def tick_stages_def early_stages_def)

lemma early_before:
  assumes "sc_initial_prompt cfg \<noteq> build_notify_prompt" "st \<in> set early_stages"
  shows "before e cfg x (snd (st e cfg x))"
proof -
  consider "st = stage_resume" | "st \<in> set trigger_stages"
    | "st \<in> {stage_pause, stage_invariants, stage_heartbeat, stage_inbox, stage_query, stage_init_prompt, stage_paused_skip, stage_interrupt,
         stage_mention, stage_alive, stage_cooldown, stage_capture, stage_poll, stage_reaper, stage_changed, stage_dialogue, stage_count}"
    using assms(2) unfolding early_stages_def by auto
  then show ?thesis
  proof cases
    case 3
    have "\<forall>st \<in> {stage_pause, stage_invariants, stage_heartbeat, stage_inbox, stage_query, stage_init_prompt, stage_paused_skip, stage_interrupt,
         stage_mention, stage_alive, stage_cooldown, stage_capture, stage_poll, stage_reaper, stage_changed, stage_dialogue, stage_count}.
        steady cfg x (snd (st e cfg x))"
      by (simp add: pause_steady invariants_steady heartbeat_steady inbox_steady query_steady init_steady[OF assms(1)]
        skip_steady interrupt_steady mention_steady alive_steady cooldown_steady capture_steady poll_steady reaper_steady changed_steady
        dialogue_steady count_steady)
    then show ?thesis using 3 steady_before by blast
  qed (use resume_before trigger_steady steady_before in blast)+
qed

lemma run_one: "run_stages [st] e cfg x = (case st e cfg x of (r, y) \<Rightarrow> (if r = Ret Onward then Ret NextTick else r, y))"
  by (auto split: prod.splits outcome.splits flow.splits)

lemma tick_cases:
  assumes "sc_initial_prompt cfg \<noteq> build_notify_prompt"
  obtains (early) r y where "tick e cfg x = (r, y)" "before e cfg x y"
    | (late) y r z where "before e cfg x y" "stage_notify e cfg y = (r, z)" "snd (tick e cfg x) = z"
proof -
  have "\<exists>y. before e cfg x y \<and> (run_stages (early_stages @ [stage_notify]) e cfg x = run_stages [stage_notify] e cfg y
      \<or> (\<exists>r. run_stages (early_stages @ [stage_notify]) e cfg x = (r, y)))"
    by (rule run_stages_rel) (fact before_refl, erule (1) before_trans, erule early_before[OF assms])
  then obtain y where y: "before e cfg x y"
    "tick e cfg x = run_stages [stage_notify] e cfg y \<or> (\<exists>r. tick e cfg x = (r, y))"
    unfolding tick_early by blast
  show thesis
  proof (cases "\<exists>r. tick e cfg x = (r, y)")
    case True
    then show thesis using y(1) early by blast
  next
    case False
    obtain r z where z: "stage_notify e cfg y = (r, z)" by (cases "stage_notify e cfg y")
    then have "snd (tick e cfg x) = z" using y(2) False unfolding run_one by auto
    then show thesis using y(1) z late by blast
  qed
qed

section \<open>The notification\<close>

lemma look_at_bus_same: "look_at_bus e cfg x = Ret (rc, y) \<Longrightarrow>
    sd_out y = sd_out x \<and> ss_last_notify_time y = ss_last_notify_time x \<and> ss_startup_notify_sent y = ss_startup_notify_sent x
    \<and> ss_sidecar_start_time y = ss_sidecar_start_time x \<and> ss_mention_detected y = ss_mention_detected x
    \<and> ss_mention_payload y = ss_mention_payload x"
  by (auto simp: look_at_bus_def Let_def outcome_simps split: option.splits)

lemma look_at_chats_same: "look_at_chats e cfg x = Ret (rc, y) \<Longrightarrow>
    sd_out y = sd_out x \<and> ss_last_notify_time y = ss_last_notify_time x \<and> ss_startup_notify_sent y = ss_startup_notify_sent x
    \<and> ss_sidecar_start_time y = ss_sidecar_start_time x \<and> ss_mention_detected y = ss_mention_detected x
    \<and> ss_mention_payload y = ss_mention_payload x"
  by (auto simp: look_at_chats_def outcome_simps)

definition critical_or_mention :: "side \<Rightarrow> bool" where
  "critical_or_mention y \<longleftrightarrow> ss_bus_max_priority y = ''critical'' \<or> prefix ''MENTION: '' (ss_notify_message y)"

lemma compose_same:
  "compose_message x = Ret (b, y) \<Longrightarrow> b \<and> sd_out y = sd_out x \<and> ss_last_notify_time y = ss_last_notify_time x
    \<and> ss_startup_notify_sent y = ss_startup_notify_sent x \<and> ss_sidecar_start_time y = ss_sidecar_start_time x
    \<and> ss_bus_max_priority y = ss_bus_max_priority x \<and> (mention_waits x \<longrightarrow> prefix ''MENTION: '' (ss_notify_message y))"
  by (auto simp: compose_message_def Let_def outcome_simps split: if_splits)

text \<open>The three ways a decision goes.\<close>

lemma should_inject_cases:
  assumes "should_inject_notify e cfg x = Ret (b, y)"
  obtains (grace) "b = False" "y = x\<lparr>ss_notify_message := []\<rparr>"
    | (start) "b = True" "\<not> ss_startup_notify_sent x"
        "\<not> (ss_sidecar_start_time x > 0 \<and> te_grace_now e - ss_sidecar_start_time x < sc_startup_grace cfg)"
        "y = x\<lparr>ss_notify_message := ''sidecar startup catch-up'', ss_startup_notify_sent := True, ss_last_notify_time := te_grace_now e\<rparr>"
    | (look) rc1 x1 rc2 x2 where "ss_startup_notify_sent x"
        "\<not> (ss_sidecar_start_time x > 0 \<and> te_grace_now e - ss_sidecar_start_time x < sc_startup_grace cfg)"
        "look_at_bus e cfg (x\<lparr>ss_notify_message := []\<rparr>) = Ret (rc1, x1)" "look_at_chats e cfg x1 = Ret (rc2, x2)"
        "(b = False \<and> y = x2) \<or> (compose_message x2 = Ret (b, y)
          \<and> \<not> (ss_bus_max_priority x2 \<noteq> ''critical'' \<and> \<not> mention_bypasses_cooldown x2 \<and> cooldown_is_active cfg (te_cd2_now e) x2))"
proof -
  let ?x = "x\<lparr>ss_notify_message := []\<rparr>"
  consider (g) "ss_sidecar_start_time x > 0 \<and> te_grace_now e - ss_sidecar_start_time x < sc_startup_grace cfg"
    | (s) "\<not> (ss_sidecar_start_time x > 0 \<and> te_grace_now e - ss_sidecar_start_time x < sc_startup_grace cfg)" "\<not> ss_startup_notify_sent x"
    | (l) "\<not> (ss_sidecar_start_time x > 0 \<and> te_grace_now e - ss_sidecar_start_time x < sc_startup_grace cfg)" "ss_startup_notify_sent x"
    by blast
  then show thesis
  proof cases
    case g
    then have "b = False" "y = ?x" using assms by (simp_all add: should_inject_notify_def Let_def)
    then show thesis by (rule grace)
  next
    case s
    let ?y = "x\<lparr>ss_notify_message := ''sidecar startup catch-up'', ss_startup_notify_sent := True, ss_last_notify_time := te_grace_now e\<rparr>"
    have "should_inject_notify e cfg x = Ret (True, ?y)"
      unfolding should_inject_notify_def Let_def by (simp add: s)
    then have "b = True" "y = ?y" using assms by simp_all
    then show thesis using s start by blast
  next
    case l
    obtain rc1 x1 where x1: "look_at_bus e cfg ?x = Ret (rc1, x1)"
      using assms l unfolding should_inject_notify_def Let_def by (cases "look_at_bus e cfg ?x") auto
    obtain rc2 x2 where x2: "look_at_chats e cfg x1 = Ret (rc2, x2)"
      using assms l x1 unfolding should_inject_notify_def Let_def by (cases "look_at_chats e cfg x1") auto
    have "(b = False \<and> y = x2) \<or> (compose_message x2 = Ret (b, y)
        \<and> \<not> (ss_bus_max_priority x2 \<noteq> ''critical'' \<and> \<not> mention_bypasses_cooldown x2 \<and> cooldown_is_active cfg (te_cd2_now e) x2))"
      using assms l x1 x2 unfolding should_inject_notify_def Let_def
      by (auto simp: outcome_simps split: if_splits)
    then show thesis using l x1 x2 look by blast
  qed
qed

text \<open>Why a notification is due.\<close>

lemma should_inject:
  assumes "should_inject_notify e cfg x = Ret (b, y)"
  shows "sd_out y = sd_out x \<and> ss_sidecar_start_time y = ss_sidecar_start_time x
    \<and> (ss_last_notify_time y = ss_last_notify_time x \<or> ss_last_notify_time y = te_grace_now e)
    \<and> (if b then ss_startup_notify_sent y
          \<and> (ss_sidecar_start_time x > 0 \<longrightarrow> te_grace_now e - ss_sidecar_start_time x \<ge> sc_startup_grace cfg)
          \<and> (ss_startup_notify_sent x \<longrightarrow> ss_last_notify_time y = ss_last_notify_time x
               \<and> (critical_or_mention y \<or> \<not> cooldown_is_active cfg (te_cd2_now e) x))
       else ss_last_notify_time y = ss_last_notify_time x \<and> ss_startup_notify_sent y = ss_startup_notify_sent x)"
  using assms
proof (cases rule: should_inject_cases)
  case (look rc1 x1 rc2 x2)
  note same = look_at_bus_same[OF look(3)] look_at_chats_same[OF look(4)]
  show ?thesis
    using look(5)
  proof
    assume c: "compose_message x2 = Ret (b, y)
      \<and> \<not> (ss_bus_max_priority x2 \<noteq> ''critical'' \<and> \<not> mention_bypasses_cooldown x2 \<and> cooldown_is_active cfg (te_cd2_now e) x2)"
    have "cooldown_is_active cfg (te_cd2_now e) x2 = cooldown_is_active cfg (te_cd2_now e) x"
      using same by (simp add: cooldown_is_active_def)
    then show ?thesis using c compose_same[of x2 b y] same look(1,2)
      by (auto simp: critical_or_mention_def mention_bypasses_cooldown_def)
  qed (use same in simp)
qed auto

lemma critical_upd [simp]:
  "critical_or_mention (y\<lparr>ss_notify_fail_count := a\<rparr>) = critical_or_mention y" "critical_or_mention (y\<lparr>sd_bus := u\<rparr>) = critical_or_mention y"
  "critical_or_mention (y\<lparr>sd_fs := s\<rparr>) = critical_or_mention y" "critical_or_mention (y\<lparr>sd_out := os\<rparr>) = critical_or_mention y"
  "critical_or_mention (y\<lparr>ss_last_notify_time := a\<rparr>) = critical_or_mention y" "critical_or_mention (quiet y) = critical_or_mention y"
  "critical_or_mention (y\<lparr>ss_last_notify_time := a, ss_notify_fail_count := b\<rparr>) = critical_or_mention y"
  by (simp_all add: critical_or_mention_def quiet_def)

lemma quiet_simps [simp]:
  "sd_out (quiet y) = sd_out y" "ss_last_notify_time (quiet y) = ss_last_notify_time y"
  "ss_startup_notify_sent (quiet y) = ss_startup_notify_sent y" "ss_sidecar_start_time (quiet y) = ss_sidecar_start_time y"
  by (simp_all add: quiet_def)

lemma critical_error: "critical_or_mention (snd (chat_client_error e p m y)) = critical_or_mention y"
  by (auto simp: chat_client_error_def run_chat_def ran_def Let_def split: prod.splits)

lemma ack_all_steady: "steady cfg x y \<Longrightarrow> steady cfg x (ack_all e cfg y)"
  and ack_all_critical: "critical_or_mention (ack_all e cfg y) = critical_or_mention y"
  by (auto simp: ack_all_def split: option.splits prod.splits)

lemma count_failure_keeps:
  assumes "steady cfg x y"
  shows "steady cfg x (snd (count_failure e cfg y)) \<and> critical_or_mention (snd (count_failure e cfg y)) = critical_or_mention y"
proof -
  let ?n = "ss_notify_fail_count y + 1"
  let ?y = "y\<lparr>ss_notify_fail_count := ?n\<rparr>"
  have "steady cfg x (snd (chat_client_error e p (fail_message cfg ?n) ?y))
      \<and> critical_or_mention (snd (chat_client_error e p (fail_message cfg ?n) ?y)) = critical_or_mention y" for p
    using error_steady[of "fail_message cfg ?n" cfg x ?y e p] assms critical_error[of e p "fail_message cfg ?n" ?y] by auto
  then show ?thesis
    using assms by (auto simp: count_failure_def Let_def split: option.splits prod.splits outcome.splits) (metis snd_conv)+
qed

lemma inject_keeps:
  assumes "inject e cfg x = (r, z)"
  shows "ss_last_notify_time z = te_notify_now e \<and> ss_startup_notify_sent z = ss_startup_notify_sent x
    \<and> ss_sidecar_start_time z = ss_sidecar_start_time x \<and> critical_or_mention z = critical_or_mention x
    \<and> does (\<lambda>acts. lawful cfg acts \<and> Typed build_notify_prompt \<in> set acts) x z"
proof -
  let ?y = "(pressed ''Enter'' (typed_in build_notify_prompt x))\<lparr>ss_last_notify_time := te_notify_now e\<rparr>"
  have "steady cfg ?y z \<and> critical_or_mention z = critical_or_mention ?y"
  proof (cases "list_ex (\<lambda>v. v \<noteq> None) (take 3 (te_verify_screens e))")
    case True
    then have "z = ack_all e cfg (?y\<lparr>ss_notify_fail_count := 0\<rparr>)" using assms by (simp add: inject_def Let_def)
    then show ?thesis using ack_all_steady[of cfg ?y "?y\<lparr>ss_notify_fail_count := 0\<rparr>" e] ack_all_critical[of e cfg "?y\<lparr>ss_notify_fail_count := 0\<rparr>"] by simp
  next
    case False
    then have "z = snd (count_failure e cfg ?y)" using assms by (simp add: inject_def Let_def)
    then show ?thesis using count_failure_keeps[of cfg ?y ?y e] by simp
  qed
  then show ?thesis
    by (auto simp: steady_def does_def lawful_def pressed_def typed_in_def typeable_def)
qed

lemma notify_stage:
  assumes "stage_notify e cfg x = (r, z)"
  shows "ss_sidecar_start_time z = ss_sidecar_start_time x \<and> (ss_startup_notify_sent x \<longrightarrow> ss_startup_notify_sent z)
    \<and> ((sd_out z = sd_out x \<and> (ss_last_notify_time z = ss_last_notify_time x \<or> ss_last_notify_time z = te_grace_now e
            \<or> ss_last_notify_time z = te_notify_now e))
      \<or> (does (\<lambda>acts. lawful cfg acts \<and> Typed build_notify_prompt \<in> set acts) x z \<and> ss_last_notify_time z = te_notify_now e
         \<and> (ss_sidecar_start_time x > 0 \<longrightarrow> te_grace_now e - ss_sidecar_start_time x \<ge> sc_startup_grace cfg)
         \<and> (ss_startup_notify_sent x \<longrightarrow> critical_or_mention z \<or> \<not> cooldown_is_active cfg (te_cd2_now e) x)))"
proof -
  let ?x = "x\<lparr>ss_bus_check_counter := 0\<rparr>"
  consider "z = x" | "z = ?x" | "z = quiet ?x" | (decided) b y where "should_inject_notify e cfg ?x = Ret (b, y)"
      "(\<not> b \<and> z = y) \<or> (b \<and> z = quiet y) \<or> (\<exists>r1 z1. b \<and> inject e cfg y = (r1, z1) \<and> z = quiet z1)"
    using assms by (auto simp: stage_notify_def Let_def split: if_splits outcome.splits prod.splits bool.splits)
  then show ?thesis
  proof cases
    case decided
    note s = should_inject[OF decided(1)]
    have cd: "cooldown_is_active cfg (te_cd2_now e) ?x = cooldown_is_active cfg (te_cd2_now e) x" by (simp add: cooldown_is_active_def)
    consider "\<not> b" "z = y" | "b" "z = quiet y" | r1 z1 where "b" "inject e cfg y = (r1, z1)" "z = quiet z1" using decided(2) by blast
    then show ?thesis
    proof cases
      case 1
      then show ?thesis using s by simp
    next
      case 2
      then show ?thesis using s by (auto simp: quiet_def)
    next
      case 3
      note k = inject_keeps[OF 3(2)]
      have "does (\<lambda>acts. lawful cfg acts \<and> Typed build_notify_prompt \<in> set acts) x z"
        using k s 3 by (simp add: does_def)
      then show ?thesis using k s 3 cd by simp
    qed
  qed (simp_all add: quiet_def)
qed

section \<open>One tick\<close>

definition acts_of :: "side \<Rightarrow> side \<Rightarrow> action list" where
  "acts_of x y = drop (length (sd_out x)) (sd_out y)"

lemma acts_of_does: "does P x y \<Longrightarrow> sd_out y = sd_out x @ acts_of x y \<and> P (acts_of x y)"
  by (auto simp: does_def acts_of_def)

definition due :: "sidecar_config \<Rightarrow> tick_env \<Rightarrow> side \<Rightarrow> side \<Rightarrow> bool" where
  "due cfg e x y \<longleftrightarrow> (ss_sidecar_start_time x > 0 \<longrightarrow> te_grace_now e - ss_sidecar_start_time x \<ge> sc_startup_grace cfg)
     \<and> (ss_startup_notify_sent x \<longrightarrow> critical_or_mention y
         \<or> (\<exists>since \<in> {ss_last_notify_time x, te_resume_now e}. since = 0 \<or> te_cd2_now e - since \<ge> sc_notify_cooldown cfg))"

lemma tick_facts:
  assumes "sc_initial_prompt cfg \<noteq> build_notify_prompt"
  shows "does (lawful cfg) x (snd (tick e cfg x)) \<and> ss_sidecar_start_time (snd (tick e cfg x)) = ss_sidecar_start_time x
    \<and> (ss_startup_notify_sent x \<longrightarrow> ss_startup_notify_sent (snd (tick e cfg x)))
    \<and> ss_last_notify_time (snd (tick e cfg x)) \<in> {ss_last_notify_time x, te_resume_now e, te_grace_now e, te_notify_now e}
    \<and> (notifies (acts_of x (snd (tick e cfg x))) \<longrightarrow>
         ss_last_notify_time (snd (tick e cfg x)) = te_notify_now e \<and> due cfg e x (snd (tick e cfg x)))"
proof (rule tick_cases[OF assms, of e x])
  fix r y
  assume t: "tick e cfg x = (r, y)" "before e cfg x y"
  then obtain a where a: "sd_out y = sd_out x @ a" "lawful cfg a" "Typed build_notify_prompt \<in> set a \<longrightarrow> Pressed ''Escape'' \<in> set a"
    by (auto simp: before_def does_def)
  then have "acts_of x y = a" by (simp add: acts_of_def)
  then have "\<not> notifies (acts_of x y)" "does (lawful cfg) x y" using a by (auto simp: notifies_def does_def)
  then show ?thesis unfolding t(1) snd_conv using t(2) by (simp add: before_def) blast
next
  fix y r z
  assume y: "before e cfg x y" and z: "stage_notify e cfg y = (r, z)" "snd (tick e cfg x) = z"
  obtain a1 where a1: "sd_out y = sd_out x @ a1" "lawful cfg a1" "Typed build_notify_prompt \<in> set a1 \<longrightarrow> Pressed ''Escape'' \<in> set a1"
    using y by (auto simp: before_def does_def)
  have f: "ss_last_notify_time y \<in> {ss_last_notify_time x, te_resume_now e}" "ss_startup_notify_sent y = ss_startup_notify_sent x"
    "ss_sidecar_start_time y = ss_sidecar_start_time x" using y by (auto simp: before_def)
  note n = notify_stage[OF z(1)]
  have g: "ss_sidecar_start_time z = ss_sidecar_start_time x" "ss_startup_notify_sent x \<longrightarrow> ss_startup_notify_sent z" using n f by auto
  from n consider (same) "sd_out z = sd_out y" "ss_last_notify_time z \<in> {ss_last_notify_time y, te_grace_now e, te_notify_now e}"
    | (sent) "does (\<lambda>acts. lawful cfg acts \<and> Typed build_notify_prompt \<in> set acts) y z" "ss_last_notify_time z = te_notify_now e"
        "ss_sidecar_start_time x > 0 \<longrightarrow> te_grace_now e - ss_sidecar_start_time x \<ge> sc_startup_grace cfg"
        "ss_startup_notify_sent x \<longrightarrow> critical_or_mention z \<or> \<not> cooldown_is_active cfg (te_cd2_now e) y"
    using f by auto
  then show ?thesis
  proof cases
    case same
    then have "acts_of x z = a1" using a1(1) by (simp add: acts_of_def)
    then show ?thesis unfolding z(2) using same a1 f g by (auto simp: does_def notifies_def)
  next
    case sent
    then obtain a2 where a2: "sd_out z = sd_out y @ a2" "lawful cfg a2" by (auto simp: does_def)
    then have "does (lawful cfg) x z" using a1 by (auto simp: does_def lawful_def)
    moreover have "due cfg e x z" using sent(3,4) f(1) by (auto simp: due_def cooldown_is_active_def split: if_splits)
    ultimately show ?thesis unfolding z(2) using sent(2) g by simp
  qed
qed

section \<open>What the sidecar types\<close>

lemma others_out [simp]:
  "sd_out (others e x) = sd_out x" "ss_last_notify_time (others e x) = ss_last_notify_time x"
  "ss_startup_notify_sent (others e x) = ss_startup_notify_sent x" "ss_sidecar_start_time (others e x) = ss_sidecar_start_time x"
  "sd_init_pending (others e x) = sd_init_pending x"
  by (simp_all add: others_def)

lemma run_ticks_step:
  "run_ticks cfg (e # es) x = (case tick e cfg (others e x) of (r, y) \<Rightarrow> if r = Ret NextTick then run_ticks cfg es y else (r, y))"
  by (auto split: prod.splits outcome.splits flow.splits)

declare run_ticks.simps(2) [simp del]

text \<open>C32: Over any number of ticks, with anything on the screen, the bus and the chats, the sidecar types into
  the session only its six fixed texts - the initial prompt, the notice that the chat resumes, the notice that
  there are messages, the poll command, the answers 1 and 2 - and presses only Enter and Escape; never anything that
  someone wrote in a chat.  It runs only its five kinds of programs, and what it posts itself mentions
  nobody, but for the call for help and the warning, whose texts are fixed.\<close>

theorem sidecar_types_only:
  assumes "sc_initial_prompt cfg \<noteq> build_notify_prompt"
  shows "\<exists>acts. sd_out (snd (run_ticks cfg es x)) = sd_out x @ acts \<and> list_all (allowed cfg) acts"
proof (induction es arbitrary: x)
  case (Cons e es)
  obtain r y where t: "tick e cfg (others e x) = (r, y)" by (cases "tick e cfg (others e x)")
  then obtain a where "sd_out y = sd_out x @ a" "list_all (allowed cfg) a"
    using tick_facts[OF assms, of "others e x" e] by (auto simp: does_def lawful_def)
  then show ?case using Cons[of y] t by (auto simp: run_ticks_step)
qed simp

section \<open>When it notifies\<close>

text \<open>The notifications of a run: when the decision was made, when it was typed, and whether the cooldown applies.\<close>

fun notify_log :: "sidecar_config \<Rightarrow> tick_env list \<Rightarrow> side \<Rightarrow> (int \<times> int \<times> bool) list" where
  "notify_log cfg [] x = []"
| "notify_log cfg (e # es) x =
     (case tick e cfg (others e x) of (r, y) \<Rightarrow>
       (if notifies (acts_of x y) then [(te_grace_now e, te_notify_now e, ss_startup_notify_sent x \<and> \<not> critical_or_mention y)] else [])
       @ (if r = Ret NextTick then notify_log cfg es y else []))"

fun spaced :: "int \<Rightarrow> (int \<times> int \<times> bool) list \<Rightarrow> bool" where
  "spaced cooldown ((g, t, b) # (g1, t1, b1) # log) = ((b1 \<longrightarrow> t1 - t \<ge> cooldown) \<and> spaced cooldown ((g1, t1, b1) # log))"
| "spaced cooldown _ = True"

text \<open>The clock never goes back.\<close>

fun clock_runs :: "int \<Rightarrow> tick_env list \<Rightarrow> bool" where
  "clock_runs t [] = True"
| "clock_runs t (e # es) = (t \<le> te_resume_now e \<and> te_resume_now e \<le> te_grace_now e \<and> te_grace_now e \<le> te_cd2_now e
     \<and> te_cd2_now e \<le> te_notify_now e \<and> clock_runs (te_notify_now e) es)"

lemma log_spaced:
  assumes "sc_initial_prompt cfg \<noteq> build_notify_prompt"
  shows "clock_runs t es \<Longrightarrow> 0 < t1 \<Longrightarrow> t1 \<le> ss_last_notify_time x \<Longrightarrow> ss_last_notify_time x \<le> t \<Longrightarrow> spaced (sc_notify_cooldown cfg) ((g1, t1, b1) # notify_log cfg es x)"
proof (induction es arbitrary: t t1 g1 b1 x)
  case (Cons e es)
  obtain r y where y: "tick e cfg (others e x) = (r, y)" by (cases "tick e cfg (others e x)")
  have acts: "acts_of (others e x) y = acts_of x y" by (simp add: acts_of_def)
  note f = tick_facts[OF assms, of "others e x" e, unfolded y snd_conv others_out acts]
  have clock: "t \<le> te_resume_now e" "te_resume_now e \<le> te_grace_now e" "te_grace_now e \<le> te_cd2_now e" "te_cd2_now e \<le> te_notify_now e"
    "clock_runs (te_notify_now e) es" using Cons.prems(1) by simp_all
  have last: "t1 \<le> ss_last_notify_time y" "ss_last_notify_time y \<le> te_notify_now e" using f clock Cons.prems by auto
  show ?case
  proof (cases "notifies (acts_of x y)")
    case False
    then show ?thesis using y Cons.IH[OF clock(5) Cons.prems(2) last] by simp
  next
    case True
    then have l: "ss_last_notify_time y = te_notify_now e" and d: "due cfg e (others e x) y" using f by auto
    have "sc_notify_cooldown cfg \<le> te_notify_now e - t1" if "ss_startup_notify_sent x" "\<not> critical_or_mention y"
      using d that Cons.prems(2-4) clock by (auto simp: due_def)
    moreover have "spaced (sc_notify_cooldown cfg) ((te_grace_now e, te_notify_now e, b) # notify_log cfg es y)" for b
      by (rule Cons.IH[OF clock(5)]) (use l clock Cons.prems in auto)
    ultimately show ?thesis using True y by auto
  qed
qed simp

lemma log_after_grace:
  assumes "sc_initial_prompt cfg \<noteq> build_notify_prompt"
  shows "0 < ss_sidecar_start_time x \<Longrightarrow> list_all (\<lambda>(g, t, b). g - ss_sidecar_start_time x \<ge> sc_startup_grace cfg) (notify_log cfg es x)"
proof (induction es arbitrary: x)
  case (Cons e es)
  obtain r y where y: "tick e cfg (others e x) = (r, y)" by (cases "tick e cfg (others e x)")
  have acts: "acts_of (others e x) y = acts_of x y" by (simp add: acts_of_def)
  note f = tick_facts[OF assms, of "others e x" e, unfolded y snd_conv others_out acts]
  show ?case using y f Cons.IH[of y] Cons.prems by (auto simp: due_def)
qed simp


subsection \<open>Witnesses\<close>

definition demo_cfg :: sidecar_config where
  "demo_cfg = \<lparr>sc_handle = ''amy'', sc_nbs_root = ''/p'', sc_session_name = ''a1'', sc_initial_prompt = ''hi'', sc_log_file = [],
     sc_bus_check_interval = 3, sc_notify_cooldown = 15, sc_startup_grace = 30, sc_notify_fail_threshold = 5, sc_flush_interval = 60,
     sc_poll_interval = 0, sc_fixup_interval = 3660, sc_librarian_interval = 1380, sc_pythia_interval = 2220, sc_shepard_interval = 1860,
     sc_remote_host = [], sc_remote_ssh_opts = []\<rparr>"

definition demo_tick :: tick_env where
  "demo_tick = \<lparr>te_fs_others = \<lambda>s. s, te_bus_others = \<lambda>b. b, te_resume_now = 100, te_hb_now = 100, te_init_now = 100, te_cd_now = 100,
     te_wc_now = 100, te_grace_now = 100, te_cd2_now = 101, te_notify_now = 102, te_resume_screen = None, te_query_screen = None,
     te_init_screen = Some prompt_utf8, te_screen = Some prompt_utf8, te_fresh_screen = Some prompt_utf8, te_verify_screens = [Some []],
     te_rounds = [], te_session_dir = None, te_option_typed = True, te_is_alive = 1,
     te_pids = \<lparr>pe_pid = 7, pe_read = True, pe_alive = \<lambda>_. False, pe_cmdline = \<lambda>_. None, pe_tmp_open = True, pe_kept = 100, pe_rename = True\<rparr>,
     te_inbox = demo_inbox, te_reg = demo_reg, te_chat = demo_chats, te_client = demo_client, te_path_bus = demo_client,
     te_chat_prog = ''nbs-chat'', te_chat_found = True, te_chat_exec = demo_exec, te_main = \<lambda>_. demo_main, te_trig = \<lambda>_. demo_trig,
     te_self = None\<rparr>"

definition demo_side :: side where
  "demo_side = (initial_side \<lparr>sa_seed = \<lparr>sd_open = True, sd_chats = None, sd_events = False, sd_reg = \<lambda>_. demo_reg, sd_bus = demo_reg\<rparr>,
       sa_pids = te_pids demo_tick, sa_deadline_now = 60, sa_now = 60\<rparr> demo_cfg \<lparr>files = \<lambda>_. None, held = {}\<rparr> \<lparr>pending = [], processed = None\<rparr>)"

lemma demo_prompt_text: "sc_initial_prompt demo_cfg \<noteq> build_notify_prompt"
  by (simp add: demo_cfg_def build_notify_prompt_def)

lemma demo_screen: "detect_prompt_not_trust prompt_utf8" "detect_prompt_idle prompt_utf8" "detect_blocking_dialogue prompt_utf8 = (DIALOGUE_NONE, None)"
  "\<not> detect_context_stress prompt_utf8"
  by code_simp+

text \<open>Without a registry nothing is found.\<close>

lemma no_registry:
  assumes "files (sd_fs x) (registry_path cfg) = None"
  shows "first_of ty e cfg x = None"
  using assms by (simp add: first_of_def registry_find_first_def read_registry_def)

lemma demo_first_tick:
  "tick (demo_tick\<lparr>te_is_alive := 0\<rparr>) demo_cfg demo_side
     = (Ret (Leave 0), (pressed ''Enter'' (typed_in ''hi'' demo_side))\<lparr>sd_init_pending := False\<rparr>)"
proof -
  let ?e = "demo_tick\<lparr>te_is_alive := 0\<rparr>"
  have f: "files (sd_fs demo_side) p = None" for p by (simp add: demo_side_def initial_side_def)
  have s: "ss_was_paused demo_side = False" "ss_idle_seconds demo_side = 0" "ss_bus_check_counter demo_side = 0" "ss_notify_fail_count demo_side = 0"
    "sd_heartbeat demo_side = 60" "sd_init_pending demo_side" "sd_init_deadline demo_side = 120" "\<not> sd_paused demo_side" "\<not> sd_catchup demo_side"
    by (simp_all add: demo_side_def initial_side_def demo_cfg_def)
  have e: "te_hb_now ?e = 100" "te_init_now ?e = 100" "te_init_screen ?e = Some prompt_utf8" "te_is_alive ?e = 0" by (simp_all add: demo_tick_def)
  have st: "stage_pause ?e demo_cfg demo_side = (Ret Onward, demo_side)" "stage_resume ?e demo_cfg demo_side = (Ret Onward, demo_side)"
    "stage_invariants ?e demo_cfg demo_side = (Ret Onward, demo_side)" "stage_heartbeat ?e demo_cfg demo_side = (Ret Onward, demo_side)"
    "stage_inbox ?e demo_cfg demo_side = (Ret Onward, demo_side)" "stage_query ?e demo_cfg demo_side = (Ret Onward, demo_side)"
    using f s e no_registry[of demo_side demo_cfg]
    by (simp_all add: stage_pause_def stage_resume_def stage_invariants_def stage_heartbeat_def stage_inbox_def stage_query_def
      registry_process_inbox_def Let_def)
  let ?y = "(pressed ''Enter'' (typed_in ''hi'' demo_side))\<lparr>sd_init_pending := False\<rparr>"
  have i: "stage_init_prompt ?e demo_cfg demo_side = (Ret Onward, ?y)"
    using s(6,7) e demo_screen(1) by (simp add: stage_init_prompt_def demo_cfg_def)
  have y: "files (sd_fs ?y) p = None" "sd_paused ?y = False" for p using f s(8) by (simp_all add: pressed_def typed_in_def)
  have late: "stage_paused_skip ?e demo_cfg ?y = (Ret Onward, ?y)" "stage_interrupt ?e demo_cfg ?y = (Ret Onward, ?y)"
    "stage_mention ?e demo_cfg ?y = (Ret Onward, ?y)" "stage_alive ?e demo_cfg ?y = (Ret (Leave 0), ?y)"
    using y(2) e(4) no_registry[of ?y demo_cfg, OF y(1)]
    by (simp_all only: stage_paused_skip_def stage_interrupt_def stage_mention_def stage_alive_def option.case if_False refl if_True)
  show ?thesis by (simp add: tick_def tick_stages_def st i late)
qed

theorem sidecar_types_only_witness:
  "sd_out (snd (run_ticks demo_cfg [demo_tick\<lparr>te_is_alive := 0\<rparr>] demo_side)) = [Typed ''hi'', Pressed ''Enter'']
   \<and> list_all (allowed demo_cfg) [Typed ''hi'', Pressed ''Enter'']"
proof -
  have o: "others (demo_tick\<lparr>te_is_alive := 0\<rparr>) demo_side = demo_side" by (simp add: others_def demo_tick_def)
  have out: "sd_out (snd (run_ticks demo_cfg [demo_tick\<lparr>te_is_alive := 0\<rparr>] demo_side)) = [Typed ''hi'', Pressed ''Enter'']"
    unfolding run_ticks_step o demo_first_tick by (simp add: pressed_def typed_in_def demo_side_def initial_side_def)
  have "sd_out demo_side = []" by (simp add: demo_side_def initial_side_def)
  then show ?thesis
    using sidecar_types_only[OF demo_prompt_text, of "[demo_tick\<lparr>te_is_alive := 0\<rparr>]" demo_side] out by simp
qed

definition demo_ready :: side where
  "demo_ready = demo_side\<lparr>sd_init_pending := False, ss_last_content_hash := fnv1a_hash prompt_utf8, ss_bus_check_counter := 5, sd_reaper := 95\<rparr>"

lemma demo_no_chats:
  assumes "files (sd_fs x) (registry_path demo_cfg) = None"
  shows "chat_client_check_unread (te_chat demo_tick) (te_reg demo_tick) (registry_path demo_cfg) (sc_handle demo_cfg) 256 (sd_fs x) = Ret (-1, 0, [])"
proof -
  have "registry_path demo_cfg \<noteq> []" by (simp add: registry_path_def build_registry_path_def demo_cfg_def Let_def)
  then show ?thesis
    using assms by (simp add: chat_client_check_unread_def registry_for_each_def read_registry_def demo_cfg_def)
qed

lemma demo_notify_tick:
  "\<exists>y. tick demo_tick demo_cfg demo_ready = (Ret NextTick, y) \<and> sd_out y = [Typed build_notify_prompt, Pressed ''Enter'']"
proof -
  let ?e = demo_tick and ?c = demo_cfg
  have f: "files (sd_fs demo_ready) p = None" for p by (simp add: demo_ready_def demo_side_def initial_side_def)
  have s: "ss_was_paused demo_ready = False" "ss_idle_seconds demo_ready = 0" "ss_bus_check_counter demo_ready = 5" "ss_notify_fail_count demo_ready = 0"
    "sd_heartbeat demo_ready = 60" "\<not> sd_init_pending demo_ready" "\<not> sd_paused demo_ready" "\<not> sd_catchup demo_ready"
    "sd_alive_errors demo_ready = 0" "ss_interrupt_retry_count demo_ready = 0" "ss_last_notify_time demo_ready = 0"
    "\<not> ss_cooldown_suppressed demo_ready" "ss_last_fixup_check demo_ready = 60" "ss_last_librarian_check demo_ready = 60"
    "ss_last_pythia_check demo_ready = 60" "ss_last_shepard_check demo_ready = 60" "sd_reaper demo_ready = 95"
    "ss_last_content_hash demo_ready = fnv1a_hash prompt_utf8" "\<not> ss_startup_notify_sent demo_ready" "ss_sidecar_start_time demo_ready = 60"
    "sd_out demo_ready = []"
    by (simp_all add: demo_ready_def demo_side_def initial_side_def demo_cfg_def)
  have e: "te_hb_now ?e = 100" "te_is_alive ?e = 1" "te_screen ?e = Some prompt_utf8" "te_wc_now ?e = 100" "te_grace_now ?e = 100"
    "te_fresh_screen ?e = Some prompt_utf8" "te_verify_screens ?e = [Some []]" by (simp_all add: demo_tick_def)
  have c: "sc_poll_interval ?c = 0" "sc_bus_check_interval ?c = 3" "sc_startup_grace ?c = 30" by (simp_all add: demo_cfg_def)
  note none = no_registry[of demo_ready ?c, OF f]
  have st: "stage_pause ?e ?c demo_ready = (Ret Onward, demo_ready)" "stage_resume ?e ?c demo_ready = (Ret Onward, demo_ready)"
    "stage_invariants ?e ?c demo_ready = (Ret Onward, demo_ready)" "stage_heartbeat ?e ?c demo_ready = (Ret Onward, demo_ready)"
    "stage_inbox ?e ?c demo_ready = (Ret Onward, demo_ready)" "stage_query ?e ?c demo_ready = (Ret Onward, demo_ready)"
    "stage_init_prompt ?e ?c demo_ready = (Ret Onward, demo_ready)" "stage_paused_skip ?e ?c demo_ready = (Ret Onward, demo_ready)"
    "stage_interrupt ?e ?c demo_ready = (Ret Onward, demo_ready)" "stage_mention ?e ?c demo_ready = (Ret Onward, demo_ready)"
    "stage_alive ?e ?c demo_ready = (Ret Onward, demo_ready)" "stage_cooldown ?e ?c demo_ready = (Ret Onward, demo_ready)"
    using f s e c none demo_no_chats[OF f]
    by (simp_all add: stage_pause_def stage_resume_def stage_invariants_def stage_heartbeat_def stage_inbox_def stage_query_def
      registry_process_inbox_def stage_init_prompt_def stage_paused_skip_def stage_interrupt_def stage_mention_def stage_alive_def
      stage_cooldown_def Let_def cooldown_is_active_def)
  let ?x = "demo_ready\<lparr>sd_content := prompt_utf8\<rparr>"
  have cap: "stage_capture ?e ?c demo_ready = (Ret Onward, ?x)" using e by (simp add: stage_capture_def)
  have mid: "stage_poll ?e ?c ?x = (Ret Onward, ?x)" "stage_reaper ?e ?c ?x = (Ret Onward, ?x)" "stage_changed ?e ?c ?x = (Ret Onward, ?x)"
    "stage_dialogue ?e ?c ?x = (Ret Onward, ?x)"
    using s e c demo_screen by (simp_all add: stage_poll_def stage_reaper_def stage_changed_def stage_dialogue_def answer_dialogue_def Let_def)
  have trig: "st ?e ?c ?x = (Ret Onward, ?x)" if "st \<in> set trigger_stages" for st
    using that s e by (auto simp: trigger_stages_def stage_trigger_def)
  let ?y = "?x\<lparr>ss_idle_seconds := 1, ss_bus_check_counter := 6\<rparr>"
  have cnt: "stage_count ?e ?c ?x = (Ret Onward, ?y)" using s by (simp add: stage_count_def)
  let ?z = "?x\<lparr>ss_idle_seconds := 1, ss_bus_check_counter := 0\<rparr>"
  let ?w = "?z\<lparr>ss_notify_message := ''sidecar startup catch-up'', ss_startup_notify_sent := True, ss_last_notify_time := 100\<rparr>"
  have inj: "should_inject_notify ?e ?c ?z = Ret (True, ?w)"
    unfolding should_inject_notify_def Let_def by (simp add: s e c)
  have "first_of ''bus'' ?e ?c v = None" if "sd_fs v = sd_fs demo_ready" for v
    using no_registry[of v ?c] f that by simp
  then have done_it: "inject ?e ?c ?w = (Ret (), (pressed ''Enter'' (typed_in build_notify_prompt ?w))\<lparr>ss_last_notify_time := te_notify_now ?e, ss_notify_fail_count := 0\<rparr>)"
    using e by (simp add: inject_def Let_def ack_all_def pressed_def typed_in_def)
  have not: "stage_notify ?e ?c ?y = (Ret NextTick, quiet ((pressed ''Enter'' (typed_in build_notify_prompt ?w))\<lparr>ss_last_notify_time := te_notify_now ?e, ss_notify_fail_count := 0\<rparr>))"
    using c demo_screen e inj done_it by (simp add: stage_notify_def Let_def prompt_gone_def)
  have "tick ?e ?c demo_ready = stage_notify ?e ?c ?y"
    unfolding tick_def tick_stages_def trigger_stages_def
    by (simp add: st cap mid cnt trig[unfolded trigger_stages_def] not)
  then show ?thesis using not s by (simp add: pressed_def typed_in_def)
qed


end
