(* ===== verification/SideLoopState.thy ===== *)
theory SideLoopState
  imports SideLoopProps
begin

text \<open>
  The state of the sidecar's loop: its counters and buffers stay in range, it is silent while the
  team is paused, and one sidecar at most stays for a handle.
\<close>

section \<open>Counters and buffers\<close>

definition in_range :: "sidecar_config \<Rightarrow> side \<Rightarrow> bool" where
  "in_range cfg x \<longleftrightarrow> 0 \<le> ss_idle_seconds x \<and> ss_idle_seconds x \<le> INT_MAX \<and> 0 \<le> ss_bus_check_counter x \<and> ss_bus_check_counter x \<le> INT_MAX
     \<and> 0 \<le> ss_notify_fail_count x \<and> ss_notify_fail_count x < sc_notify_fail_threshold cfg
     \<and> 0 \<le> ss_interrupt_retry_count x \<and> ss_interrupt_retry_count x < 3 \<and> 0 \<le> sd_alive_errors x \<and> sd_alive_errors x < 60
     \<and> length (ss_mention_payload x) < SIDECAR_MAX_MESSAGE \<and> length (ss_notify_message x) < SIDECAR_MAX_MESSAGE"

definition goes_on :: "flow outcome \<Rightarrow> bool" where
  "goes_on r \<longleftrightarrow> r = Ret Onward \<or> r = Ret NextTick"

text \<open>What programs, files and the terminal do to the state leaves the counters alone.\<close>

lemma range_upd [simp]:
  "in_range cfg (x\<lparr>sd_out := os\<rparr>) = in_range cfg x" "in_range cfg (x\<lparr>sd_fs := s\<rparr>) = in_range cfg x"
  "in_range cfg (x\<lparr>sd_bus := u\<rparr>) = in_range cfg x" "in_range cfg (typed_in t x) = in_range cfg x"
  "in_range cfg (pressed t x) = in_range cfg x" "in_range cfg (ran argv x) = in_range cfg x"
  "in_range cfg (x\<lparr>ss_was_paused := b\<rparr>) = in_range cfg x" "in_range cfg (x\<lparr>sd_paused := b\<rparr>) = in_range cfg x"
  "in_range cfg (x\<lparr>sd_catchup := b\<rparr>) = in_range cfg x" "in_range cfg (x\<lparr>sd_heartbeat := a\<rparr>) = in_range cfg x"
  "in_range cfg (x\<lparr>ss_last_notify_time := a\<rparr>) = in_range cfg x" "in_range cfg (x\<lparr>ss_last_content_hash := w\<rparr>) = in_range cfg x"
  "in_range cfg (x\<lparr>ss_control_inbox_line := n\<rparr>) = in_range cfg x" "in_range cfg (x\<lparr>sd_init_pending := b\<rparr>) = in_range cfg x"
  "in_range cfg (x\<lparr>ss_mention_detected := b\<rparr>) = in_range cfg x" "in_range cfg (x\<lparr>ss_cooldown_suppressed := b\<rparr>) = in_range cfg x"
  "in_range cfg (x\<lparr>sd_content := t\<rparr>) = in_range cfg x" "in_range cfg (x\<lparr>ss_last_poll_time := a\<rparr>) = in_range cfg x"
  "in_range cfg (x\<lparr>ss_last_fixup_check := a\<rparr>) = in_range cfg x" "in_range cfg (x\<lparr>ss_last_librarian_check := a\<rparr>) = in_range cfg x"
  "in_range cfg (x\<lparr>ss_last_pythia_check := a\<rparr>) = in_range cfg x" "in_range cfg (x\<lparr>ss_last_shepard_check := a\<rparr>) = in_range cfg x"
  "in_range cfg (x\<lparr>sd_reaper := a\<rparr>) = in_range cfg x" "in_range cfg (x\<lparr>ss_startup_notify_sent := b\<rparr>) = in_range cfg x"
  "in_range cfg (x\<lparr>ss_bus_event_count := a\<rparr>) = in_range cfg x" "in_range cfg (x\<lparr>ss_bus_max_priority := t\<rparr>) = in_range cfg x"
  "in_range cfg (x\<lparr>ss_bus_event_summary := t\<rparr>) = in_range cfg x" "in_range cfg (x\<lparr>ss_chat_unread_count := a\<rparr>) = in_range cfg x"
  "in_range cfg (x\<lparr>ss_chat_unread_summary := t\<rparr>) = in_range cfg x" "in_range cfg (others e x) = in_range cfg x"
  by (simp_all add: in_range_def typed_in_def pressed_def ran_def others_def)

lemma range_zero:
  "in_range cfg x \<Longrightarrow> in_range cfg (x\<lparr>ss_idle_seconds := 0\<rparr>)" "in_range cfg x \<Longrightarrow> in_range cfg (x\<lparr>ss_bus_check_counter := 0\<rparr>)"
  "in_range cfg x \<Longrightarrow> in_range cfg (x\<lparr>ss_notify_fail_count := 0\<rparr>)" "in_range cfg x \<Longrightarrow> in_range cfg (x\<lparr>ss_interrupt_retry_count := 0\<rparr>)"
  "in_range cfg x \<Longrightarrow> in_range cfg (x\<lparr>sd_alive_errors := 0\<rparr>)" "in_range cfg x \<Longrightarrow> in_range cfg (quiet x)"
  by (simp_all add: in_range_def quiet_def)

text \<open>Programs and answers touch only files, bus and what was done.\<close>

definition inner :: "side \<Rightarrow> side" where
  "inner x = x\<lparr>sd_fs := \<lparr>files = \<lambda>_. None, held = {}\<rparr>, sd_bus := \<lparr>pending = [], processed = None\<rparr>, sd_out := []\<rparr>"

definition outside :: "side \<Rightarrow> side \<Rightarrow> bool" where
  "outside x y \<longleftrightarrow> inner x = inner y"

lemma inner_fail: "inner (x\<lparr>ss_notify_fail_count := a\<rparr>) = (inner x)\<lparr>ss_notify_fail_count := a\<rparr>"
  by (simp add: inner_def)

lemma outside_refl [simp]: "outside x x"
  by (simp add: outside_def)

lemma outside_trans: "outside x y \<Longrightarrow> outside y z \<Longrightarrow> outside x z"
  by (simp add: outside_def)

lemma outside_upd [simp]: "outside x (y\<lparr>sd_bus := b\<rparr>) = outside x y" "outside x (typed_in t y) = outside x y"
  "outside x (pressed t y) = outside x y" "outside x (ran a y) = outside x y" "outside x (y\<lparr>sd_fs := s\<rparr>) = outside x y"
  "outside (typed_in t x) y = outside x y" "outside (pressed t x) y = outside x y"
  by (simp_all add: outside_def inner_def typed_in_def pressed_def ran_def)

lemma outside_range: "outside x y \<Longrightarrow> in_range cfg y = in_range cfg x"
proof -
  have "in_range cfg z = in_range cfg (inner z)" for z by (simp add: in_range_def inner_def)
  then show "outside x y \<Longrightarrow> ?thesis" unfolding outside_def by metis
qed

lemma outside_retry: "outside x y \<Longrightarrow> ss_interrupt_retry_count y = ss_interrupt_retry_count x"
proof -
  have "ss_interrupt_retry_count z = ss_interrupt_retry_count (inner z)" for z by (simp add: inner_def)
  then show "outside x y \<Longrightarrow> ?thesis" unfolding outside_def by metis
qed

lemma run_chat_outside: "run_chat e argv x = (r, y) \<Longrightarrow> outside x y"
  by (auto simp: run_chat_def Let_def split: if_splits prod.splits)

lemma send_outside: "chat_client_send e p h m x = (r, y) \<Longrightarrow> outside x y"
  by (auto simp: chat_client_send_def split: if_splits prod.splits dest: run_chat_outside)

lemma error_outside: "chat_client_error e p m x = (r, y) \<Longrightarrow> outside x y"
  by (auto simp: chat_client_error_def split: if_splits prod.splits dest: run_chat_outside)

lemma query_error_outside: "query_error e cfg p m rc x = (r, y) \<Longrightarrow> outside x y"
  by (auto simp: query_error_def split: prod.splits outcome.splits dest: error_outside)

lemma handle_query_outside: "handle_query e cfg x = (r, y) \<Longrightarrow> outside x y"
  by (auto simp: handle_query_def split: option.splits outcome.splits prod.splits if_splits
      dest: query_error_outside send_outside intro: outside_trans)

lemma rounds_outside: "interrupt_rounds rs x = (b, y) \<Longrightarrow> outside x y"
  by (induction rs x rule: interrupt_rounds.induct) (auto split: if_splits)

lemma handle_interrupt_outside: "handle_interrupt e cfg x = (r, y) \<Longrightarrow> outside x y"
  by (auto simp: handle_interrupt_def Let_def split: prod.splits bool.splits option.splits outcome.splits if_splits
      dest: rounds_outside send_outside intro: outside_trans)

lemma ack_outside: "ack_event e d f x = (r, y) \<Longrightarrow> outside x y"
  by (auto simp: ack_event_def split: prod.splits)

lemma answer_outside: "answer_dialogue e x = Some (r, y) \<Longrightarrow> outside x y"
  by (auto simp: answer_dialogue_def respond_dialogue_def Let_def split: prod.splits option.splits if_splits)

lemma ack_all_outside: "outside x (ack_all e cfg x)"
  by (auto simp: ack_all_def split: option.splits prod.splits)

lemma trigger_outside: "run_trigger e cfg t iv x = (r, y) \<Longrightarrow> outside x y"
  by (auto simp: run_trigger_def split: prod.splits option.splits)

subsection \<open>Stage by stage\<close>

lemma range_stage:
  assumes "in_range cfg x"
  shows "r = stage_pause e cfg x \<Longrightarrow> in_range cfg (snd r)" "r = stage_resume e cfg x \<Longrightarrow> in_range cfg (snd r)"
    "r = stage_invariants e cfg x \<Longrightarrow> in_range cfg (snd r)" "r = stage_heartbeat e cfg x \<Longrightarrow> in_range cfg (snd r)"
    "r = stage_inbox e cfg x \<Longrightarrow> in_range cfg (snd r)" "r = stage_init_prompt e cfg x \<Longrightarrow> in_range cfg (snd r)"
    "r = stage_paused_skip e cfg x \<Longrightarrow> in_range cfg (snd r)" "r = stage_cooldown e cfg x \<Longrightarrow> in_range cfg (snd r)"
    "r = stage_capture e cfg x \<Longrightarrow> in_range cfg (snd r)" "r = stage_poll e cfg x \<Longrightarrow> in_range cfg (snd r)"
    "r = stage_reaper e cfg x \<Longrightarrow> in_range cfg (snd r)"
  using assms range_zero(1)[of cfg]
  by (auto simp: stage_pause_def stage_resume_def stage_invariants_def stage_heartbeat_def stage_inbox_def stage_init_prompt_def
      stage_paused_skip_def stage_cooldown_def stage_capture_def stage_poll_def stage_reaper_def Let_def
      split: prod.splits option.splits outcome.splits if_splits)

lemma range_query: "in_range cfg x \<Longrightarrow> in_range cfg (snd (stage_query e cfg x))"
  by (auto simp: stage_query_def split: option.splits outcome.splits prod.splits)
     (metis ack_outside handle_query_outside outside_range)+

lemma range_interrupt:
  assumes "in_range cfg x" "goes_on (fst (stage_interrupt e cfg x))"
  shows "in_range cfg (snd (stage_interrupt e cfg x))"
proof (cases "first_of ''bus'' e cfg x")
  case None
  then show ?thesis using assms(1) by (simp add: stage_interrupt_def)
next
  case (Some d)
  note st = stage_interrupt_def[of e cfg x] Some option.case
  show ?thesis
  proof (cases "typed_event ''chat-interrupt'' [sc_handle cfg, ''team''] e d x")
    case (Ret m)
    show ?thesis
    proof (cases m)
      case None
      then show ?thesis using Ret range_zero(4)[OF assms(1)] unfolding st by simp
    next
      case m: (Some pf)
      obtain pl f where pf: "pf = (pl, f)" by (cases pf)
      obtain r1 y where y: "handle_interrupt e cfg x = (r1, y)" by (cases "handle_interrupt e cfg x")
      show ?thesis
      proof (cases r1)
        case r1: (Ret rc)
        let ?b = "rc = 0 \<or> ss_interrupt_retry_count y + 1 \<ge> 3"
        obtain r2 z where z: "(if ?b then ack_event e d f y else (Ret (), y)) = (r2, z)" by (cases "if ?b then ack_event e d f y else (Ret (), y)")
        have "outside x y" by (rule handle_interrupt_outside[OF y])
        moreover have "outside y z" using z ack_outside[of e d f y] by (auto split: if_splits)
        ultimately have o: "outside x z" "ss_interrupt_retry_count y = ss_interrupt_retry_count x" using outside_trans outside_retry by blast+
        have iz: "in_range cfg z" using outside_range[OF o(1)] assms(1) by blast
        have eq: "stage_interrupt e cfg x = (case (r2, z) of (Abort, z) \<Rightarrow> (Abort, z)
            | (Ret _, z) \<Rightarrow> (Ret NextTick, z\<lparr>ss_interrupt_retry_count := (if ?b then 0 else ss_interrupt_retry_count y + 1),
                ss_idle_seconds := 0, ss_last_content_hash := 0\<rparr>))"
          unfolding st Ret m pf outcome.case option.case prod.case y r1 Let_def z ..
        show ?thesis
        proof (cases r2)
          case (Ret u)
          then show ?thesis unfolding eq using iz o(2) assms(1) by (auto simp: in_range_def)
        qed (use assms(2) eq in \<open>simp add: goes_on_def\<close>)
      qed (use assms(2) Ret m pf y in \<open>simp add: st goes_on_def\<close>)
    qed
  qed (use assms(2) in \<open>simp add: st goes_on_def\<close>)
qed

lemma cap_length: "length (cap_payload p) < SIDECAR_MAX_MESSAGE"
  by (auto simp: cap_payload_def snprintf_def)

lemma range_mention: "in_range cfg x \<Longrightarrow> in_range cfg (snd (stage_mention e cfg x))"
proof -
  assume r: "in_range cfg x"
  have "in_range cfg (x\<lparr>ss_mention_detected := True, ss_mention_payload := cap_payload p\<rparr>)" for p
    using r cap_length by (simp add: in_range_def)
  then have "in_range cfg y" if "ack_event e d f (x\<lparr>ss_mention_detected := True, ss_mention_payload := cap_payload p\<rparr>) = (o1, y)" for d f p o1 y
    using outside_range[OF ack_outside[OF that]] by simp
  then show ?thesis using r by (auto simp: stage_mention_def split: option.splits outcome.splits prod.splits)
qed

lemma range_alive: "in_range cfg x \<Longrightarrow> goes_on (fst (stage_alive e cfg x)) \<Longrightarrow> in_range cfg (snd (stage_alive e cfg x))"
  by (auto simp: stage_alive_def Let_def in_range_def goes_on_def split: if_splits)

lemma range_run_trigger: "in_range cfg x \<Longrightarrow> in_range cfg (snd (run_trigger e cfg t iv x))"
  using outside_range[OF trigger_outside, of e cfg t iv x _ _ cfg] by (cases "run_trigger e cfg t iv x") simp

lemma range_trigger: "st \<in> set trigger_stages \<Longrightarrow> in_range cfg x \<Longrightarrow> in_range cfg (snd (st e cfg x))"
  by (auto simp: trigger_stages_def stage_trigger_def range_run_trigger case_prod_beta)

lemma range_changed: "in_range cfg x \<Longrightarrow> in_range cfg (snd (stage_changed e cfg x))"
proof -
  assume r: "in_range cfg x"
  let ?x = "x\<lparr>ss_idle_seconds := 0, ss_bus_check_counter := 0, ss_last_content_hash := fnv1a_hash (sd_content x)\<rparr>"
  have x: "in_range cfg ?x" using r by (simp add: in_range_def)
  show ?thesis
  proof (cases "answer_dialogue e ?x")
    case None
    then show ?thesis using r x by (simp add: stage_changed_def Let_def)
  next
    case (Some p)
    then obtain r1 y where y: "answer_dialogue e ?x = Some (r1, y)" by (cases p) simp
    have "in_range cfg y" using outside_range[OF answer_outside[OF y]] x by blast
    then show ?thesis using r y by (simp add: stage_changed_def Let_def)
  qed
qed

lemma range_dialogue: "in_range cfg x \<Longrightarrow> in_range cfg (snd (stage_dialogue e cfg x))"
proof (cases "answer_dialogue e x")
  case (Some p)
  assume r: "in_range cfg x"
  obtain r1 y where y: "answer_dialogue e x = Some (r1, y)" using Some by (cases p) simp
  have "in_range cfg y" using outside_range[OF answer_outside[OF y]] r by blast
  then show ?thesis using y range_zero(1)[of cfg y] by (simp add: stage_dialogue_def)
qed (simp add: stage_dialogue_def)

lemma range_count: "in_range cfg x \<Longrightarrow> in_range cfg (snd (stage_count e cfg x))"
  by (auto simp: stage_count_def in_range_def)

lemma compose_range:
  assumes "compose_message x = Ret (b, y)" "in_range cfg x"
  shows "in_range cfg y"
proof (cases "mention_waits x")
  case True
  then have y: "y = x\<lparr>ss_notify_message := ''MENTION: '' @ take (SIDECAR_MAX_MESSAGE - 10) (ss_mention_payload x),
      ss_mention_detected := False, ss_mention_payload := []\<rparr>"
    using assms(1) unfolding compose_message_def Let_def if_P[OF True] ASSERT_MSG_Ret outcome.inject prod.inject by (elim conjE) (erule sym)
  have "length (''MENTION: '' @ take (SIDECAR_MAX_MESSAGE - 10) p) < SIDECAR_MAX_MESSAGE" for p :: string
    unfolding length_append length_take by simp
  then show ?thesis using assms(2) unfolding y in_range_def by simp
next
  case False
  then have y: "y = x\<lparr>ss_notify_message := message_parts x\<rparr>"
    using assms(1) unfolding compose_message_def Let_def if_not_P[OF False] ASSERT_MSG_Ret outcome.inject prod.inject by (elim conjE) (erule sym)
  have "length (message_parts x) < SIDECAR_MAX_MESSAGE" unfolding message_parts_def snprintf_def by simp
  then show ?thesis using assms(2) unfolding y in_range_def by simp
qed

lemma look_range:
  "look_at_bus e cfg x = Ret (rc, y) \<Longrightarrow> in_range cfg y = in_range cfg x"
  "look_at_chats e cfg x = Ret (rc, y) \<Longrightarrow> in_range cfg y = in_range cfg x"
  by (auto simp: look_at_bus_def look_at_chats_def Let_def outcome_simps split: option.splits)

lemma should_inject_range:
  assumes "should_inject_notify e cfg x = Ret (b, y)" "in_range cfg x"
  shows "in_range cfg y"
  using assms(1)
proof (cases rule: should_inject_cases)
  case (look rc1 x1 rc2 x2)
  have "in_range cfg (x\<lparr>ss_notify_message := []\<rparr>)" using assms(2) by (simp add: in_range_def)
  then have "in_range cfg x2" using look_range(1)[OF look(3)] look_range(2)[OF look(4)] by blast
  then show ?thesis using look(5) compose_range by blast
qed (use assms(2) in \<open>simp_all add: in_range_def\<close>)

lemma inject_range:
  assumes "in_range cfg x" "0 < sc_notify_fail_threshold cfg" "inject e cfg x = (Ret u, z)"
  shows "in_range cfg z"
proof -
  let ?y = "(pressed ''Enter'' (typed_in build_notify_prompt x))\<lparr>ss_last_notify_time := te_notify_now e\<rparr>"
  have y: "in_range cfg ?y" using assms(1) by simp
  show ?thesis
  proof (cases "list_ex (\<lambda>v. v \<noteq> None) (take 3 (te_verify_screens e))")
    case True
    then have "z = ack_all e cfg (?y\<lparr>ss_notify_fail_count := 0\<rparr>)" using assms(3) by (simp add: inject_def Let_def)
    then show ?thesis using outside_range[OF ack_all_outside] range_zero(3)[OF y] by blast
  next
    case False
    let ?n = "ss_notify_fail_count ?y + 1"
    let ?c = "?y\<lparr>ss_notify_fail_count := ?n\<rparr>"
    have f: "count_failure e cfg ?y = (Ret u, z)" using False assms(3) by (simp add: inject_def Let_def)
    show ?thesis
    proof (cases "?n \<ge> sc_notify_fail_threshold cfg")
      case True
      then obtain r1 w where w: "(case first_of ''chat'' e cfg ?c of None \<Rightarrow> (Ret 0, ?c)
          | Some fail_chat \<Rightarrow> chat_client_error e fail_chat (fail_message cfg ?n) ?c) = (Ret r1, w)" "z = w\<lparr>ss_notify_fail_count := 0\<rparr>"
        using f unfolding count_failure_def Let_def by (auto split: prod.splits outcome.splits)
      then have "outside ?c w" using error_outside by (auto split: option.splits)
      then have "inner (w\<lparr>ss_notify_fail_count := 0\<rparr>) = inner (?c\<lparr>ss_notify_fail_count := 0\<rparr>)"
        unfolding outside_def by (metis inner_fail)
      then have "outside (?y\<lparr>ss_notify_fail_count := 0\<rparr>) z" using w(2) by (simp add: outside_def)
      then show ?thesis using outside_range range_zero(3)[OF y] by blast
    next
      case False
      then have "z = ?c" using f by (simp add: count_failure_def Let_def)
      then show ?thesis using False y by (simp add: in_range_def)
    qed
  qed
qed

lemma range_notify:
  assumes "in_range cfg x" "0 < sc_notify_fail_threshold cfg" "goes_on (fst (stage_notify e cfg x))"
  shows "in_range cfg (snd (stage_notify e cfg x))"
proof -
  let ?x = "x\<lparr>ss_bus_check_counter := 0\<rparr>"
  have x: "in_range cfg ?x" by (rule range_zero(2)[OF assms(1)])
  obtain r z where z: "stage_notify e cfg x = (r, z)" by (cases "stage_notify e cfg x")
  have r: "r \<noteq> Abort" using assms(3) z by (auto simp: goes_on_def)
  consider "z \<in> {x, ?x, quiet ?x}" | (decided) b y where "should_inject_notify e cfg ?x = Ret (b, y)"
      "z = y \<or> z = quiet y \<or> (\<exists>r1 z1. inject e cfg y = (r1, z1) \<and> and_then r1 (\<lambda>_. Ret NextTick) \<noteq> Abort \<and> z = quiet z1)"
    using z r by (auto simp: stage_notify_def Let_def split: if_splits outcome.splits prod.splits bool.splits)
  then have "in_range cfg z"
  proof cases
    case 1
    then show ?thesis using assms(1) x range_zero(6)[OF x] by auto
  next
    case decided
    note y = should_inject_range[OF decided(1) x]
    have "in_range cfg z1" if "inject e cfg y = (r1, z1)" "and_then r1 (\<lambda>_. Ret NextTick) \<noteq> Abort" for r1 z1
      using that inject_range[OF y assms(2)] by (cases r1) auto
    then show ?thesis using decided(2) y range_zero(6) by blast
  qed
  then show ?thesis using z by simp
qed

section \<open>The invariant of the loop\<close>

lemma early_range:
  assumes "st \<in> set tick_stages" "0 < sc_notify_fail_threshold cfg" "in_range cfg x" "goes_on (fst (st e cfg x))"
  shows "in_range cfg (snd (st e cfg x))"
proof -
  consider "st \<in> set trigger_stages"
    | "st \<in> {stage_pause, stage_resume, stage_invariants, stage_heartbeat, stage_inbox, stage_init_prompt, stage_paused_skip, stage_cooldown,
         stage_capture, stage_poll, stage_reaper}"
    | "st \<in> {stage_query, stage_interrupt, stage_mention, stage_alive, stage_changed, stage_dialogue, stage_count, stage_notify}"
    using assms(1) unfolding tick_stages_def by auto
  then show ?thesis
  proof cases
    case 1
    then show ?thesis using range_trigger assms(3) by blast
  next
    case 2
    note f = range_stage[OF assms(3) refl]
    show ?thesis using 2 f by auto
  next
    case 3
    then show ?thesis using range_query[OF assms(3)] range_interrupt[OF assms(3)] range_mention[OF assms(3)] range_alive[OF assms(3)]
      range_changed[OF assms(3)] range_dialogue[OF assms(3)] range_count[OF assms(3)] range_notify[OF assms(3,2)] assms(4) by auto
  qed
qed

lemma run_stages_range:
  assumes "0 < sc_notify_fail_threshold cfg"
  shows "set sts \<subseteq> set tick_stages \<Longrightarrow> in_range cfg x \<Longrightarrow> goes_on (fst (run_stages sts e cfg x)) \<Longrightarrow> in_range cfg (snd (run_stages sts e cfg x))"
proof (induction sts arbitrary: x)
  case (Cons st sts)
  obtain r y where y: "st e cfg x = (r, y)" by (cases "st e cfg x")
  have st: "st \<in> set tick_stages" using Cons.prems(1) by simp
  show ?case
  proof (cases "r = Ret Onward")
    case True
    then have "in_range cfg y" using early_range[OF st assms Cons.prems(2), of e] y by (simp add: goes_on_def)
    then show ?thesis using Cons True y by simp
  next
    case False
    then have "run_stages (st # sts) e cfg x = (r, y)" using y by (auto split: outcome.splits flow.splits)
    then show ?thesis using early_range[OF st assms Cons.prems(2), of e] y Cons.prems(3) by simp
  qed
qed simp

text \<open>C35: The state of the loop stays well formed: over any number of ticks the idle time and the check counter are
  between 0 and the largest int, fewer notifications are counted as failed than the threshold, fewer
  than three interrupts are retried, and the stored mention and the message fit their 256-byte
  buffers; so the assertions that open every tick never fail.\<close>

theorem loop_state_ok:
  assumes "0 < sc_notify_fail_threshold cfg" "in_range cfg x" "run_ticks cfg es x = (Ret NextTick, y)"
  shows "in_range cfg y \<and> fst (stage_invariants e cfg y) = Ret Onward"
proof -
  have "in_range cfg y"
    using assms(2,3)
  proof (induction es arbitrary: x)
    case (Cons e es)
    obtain r z where z: "tick e cfg (others e x) = (r, z)" by (cases "tick e cfg (others e x)")
    then have r: "r = Ret NextTick" "run_ticks cfg es z = (Ret NextTick, y)"
      using Cons.prems(2) by (auto simp: run_ticks_step split: if_splits)
    have "in_range cfg z"
      using run_stages_range[OF assms(1), of tick_stages "others e x" e] z r(1) Cons.prems(1) by (simp add: tick_def goes_on_def)
    then show ?case using Cons.IH r(2) by blast
  qed simp
  then show ?thesis by (simp add: stage_invariants_def in_range_def)
qed

lemma initial_range: "0 < sc_notify_fail_threshold cfg \<Longrightarrow> in_range cfg (initial_side e cfg s b)"
  by (simp add: in_range_def initial_side_def)

section \<open>While the team is paused\<close>

lemma paused_tick:
  assumes "files (sd_fs x) (pause_path cfg) \<noteq> None" "\<not> sd_init_pending x"
  shows "tick e cfg x = (Ret NextTick, x\<lparr>sd_paused := True, sd_catchup := False, ss_was_paused := True\<rparr>)"
proof -
  have "stage_pause e cfg x = (Ret NextTick, x\<lparr>sd_paused := True, sd_catchup := False, ss_was_paused := True\<rparr>)"
    using assms by (auto simp: stage_pause_def Let_def)
  then show ?thesis by (simp add: tick_def tick_stages_def)
qed

text \<open>C36: A paused team is left alone: as long as every tick finds the file that pauses the team, and the initial
  prompt is not waiting, the sidecar types nothing, runs nothing, changes neither the files nor the bus,
  and is ready to say that the chat resumes.\<close>

theorem paused_silent:
  assumes "\<forall>e \<in> set es. te_fs_others e = (\<lambda>s. s) \<and> te_bus_others e = (\<lambda>b. b)" "files (sd_fs x) (pause_path cfg) \<noteq> None" "\<not> sd_init_pending x"
  shows "\<exists>y. run_ticks cfg es x = (Ret NextTick, y) \<and> sd_out y = sd_out x \<and> sd_fs y = sd_fs x \<and> sd_bus y = sd_bus x
    \<and> (es \<noteq> [] \<longrightarrow> ss_was_paused y)"
  using assms
proof (induction es arbitrary: x)
  case (Cons e es)
  let ?y = "x\<lparr>sd_paused := True, sd_catchup := False, ss_was_paused := True\<rparr>"
  have o: "others e x = x" using Cons.prems(1) by (simp add: others_def)
  have t: "run_ticks cfg (e # es) x = run_ticks cfg es ?y"
    using paused_tick[OF Cons.prems(2,3), of e] by (simp add: run_ticks_step o)
  have "\<exists>y. run_ticks cfg es ?y = (Ret NextTick, y) \<and> sd_out y = sd_out ?y \<and> sd_fs y = sd_fs ?y \<and> sd_bus y = sd_bus ?y
    \<and> (es \<noteq> [] \<longrightarrow> ss_was_paused y)"
    by (rule Cons.IH) (use Cons.prems in simp_all)
  then obtain y where y: "run_ticks cfg es ?y = (Ret NextTick, y)" "sd_out y = sd_out x" "sd_fs y = sd_fs x" "sd_bus y = sd_bus x"
    "es \<noteq> [] \<longrightarrow> ss_was_paused y" by auto
  have "ss_was_paused y"
  proof (cases es)
    case Nil
    then show ?thesis using y(1) by auto
  qed (use y(5) in simp)
  then show ?case using t y(1-4) by auto
qed simp

section \<open>One sidecar for a handle\<close>

lemma sscanf_marker: "INT_MIN \<le> n \<Longrightarrow> n \<le> INT_MAX \<Longrightarrow> sscanf_int (dec n @ [nl]) = Some n"
proof -
  assume n: "INT_MIN \<le> n" "n \<le> INT_MAX"
  have r: "strtoll (dec n @ [nl]) = \<lparr>st_val = n, st_end = [nl], st_noconv = False, st_erange = False\<rparr>"
    by (rule strtoll_dec) (use n in \<open>simp_all add: isdigit_def\<close>)
  have "sint (word_of_int n :: 32 word) = n" using n by (simp add: sint_sbintrunc' signed_take_bit_int_eq_self)
  then show ?thesis by (simp add: sscanf_int_def r)
qed

lemma marker_written:
  assumes "pid_marker_write e p (pe_pid e) s = (0, s1)" "0 \<le> pe_pid e" "pe_pid e \<le> INT_MAX" "20 \<le> pe_kept e"
  shows "marker_pid True p s1 = Some (Some (pe_pid e))"
proof -
  have "length (dec (pe_pid e) @ [nl]) \<le> 20" using length_dec_bound[of "pe_pid e" 19] assms(2,3) by simp
  then have "take (pe_kept e) (dec (pe_pid e) @ [nl]) = dec (pe_pid e) @ [nl]" using assms(4) by (simp only: take_all)
  then have "s1 = rename_file (p @ ''.tmp'') p (put_file (p @ ''.tmp'') (dec (pe_pid e) @ [nl]) s)"
    using assms(1) by (simp add: pid_marker_write_def Let_def split: if_splits)
  then have "files s1 p = Some (dec (pe_pid e) @ [nl])" by (simp add: rename_file_def put_file_def)
  then show ?thesis using sscanf_marker[of "pe_pid e"] assms(2,3) by (simp add: marker_pid_def)
qed

text \<open>C34: Of two sidecars for one handle one goes: when the first has passed its check and its marker could be
  written, the second, while the first lives and shows its handle, finds the conflict and changes nothing,
  and the first still passes every later check.\<close>

theorem one_sidecar:
  assumes "pid_marker_check ea p handle s = (0, s1)" "0 \<le> pe_pid ea" "pe_pid ea \<le> INT_MAX" "20 \<le> pe_kept ea" "pe_read ea"
    and "pe_pid eb \<noteq> pe_pid ea" "pe_read eb" "pe_alive eb (pe_pid ea)" "pe_cmdline eb (pe_pid ea) = Some l" "same_sidecar handle (take 4095 l)"
  shows "pid_marker_check eb p handle s1 = (1, s1) \<and> pid_marker_check ea p handle s1 = (0, s1)"
proof -
  have "marker_pid True p s1 = Some (Some (pe_pid ea))"
  proof (cases "pid_marker_write ea p (pe_pid ea) s = (0, s1)")
    case True
    then show ?thesis using marker_written assms(2-4) by blast
  next
    case False
    then have "marker_pid True p s = Some (Some (pe_pid ea))" "s1 = s"
      using assms(1,5) by (auto simp: pid_marker_check_def split: option.splits if_splits)
    then show ?thesis by simp
  qed
  then show ?thesis using assms(5-10) by (simp add: pid_marker_check_def)
qed

section \<open>A mention that gets lost\<close>


section \<open>Witnesses\<close>

theorem loop_state_ok_witness:
  "\<exists>y. run_ticks demo_cfg [demo_tick] demo_ready = (Ret NextTick, y) \<and> in_range demo_cfg y \<and> fst (stage_invariants demo_tick demo_cfg y) = Ret Onward"
proof -
  obtain y where y: "tick demo_tick demo_cfg demo_ready = (Ret NextTick, y)" using demo_notify_tick by blast
  have "others demo_tick demo_ready = demo_ready" by (simp add: others_def demo_tick_def)
  then have r: "run_ticks demo_cfg [demo_tick] demo_ready = (Ret NextTick, y)" using y by (simp add: run_ticks_step)
  have "in_range demo_cfg demo_ready" by (simp add: demo_ready_def demo_side_def initial_side_def in_range_def demo_cfg_def)
  from loop_state_ok[OF _ this r, of demo_tick] show ?thesis using r by (simp add: demo_cfg_def)
qed

theorem paused_silent_witness:
  "\<exists>y. run_ticks demo_cfg [demo_tick, demo_tick] (demo_ready\<lparr>sd_fs := put_file (pause_path demo_cfg) [] (sd_fs demo_ready)\<rparr>) = (Ret NextTick, y)
     \<and> sd_out y = [] \<and> ss_was_paused y"
proof -
  let ?x = "demo_ready\<lparr>sd_fs := put_file (pause_path demo_cfg) [] (sd_fs demo_ready)\<rparr>"
  have "\<forall>e \<in> set [demo_tick, demo_tick]. te_fs_others e = (\<lambda>s. s) \<and> te_bus_others e = (\<lambda>b. b)" by (simp add: demo_tick_def)
  moreover have "files (sd_fs ?x) (pause_path demo_cfg) \<noteq> None" "\<not> sd_init_pending ?x" "sd_out ?x = []"
    by (simp_all add: put_file_def demo_ready_def demo_side_def initial_side_def)
  ultimately show ?thesis using paused_silent[of "[demo_tick, demo_tick]" ?x demo_cfg] by auto
qed

theorem one_sidecar_witness:
  "let ea = te_pids demo_tick; l = ''nbs-sidecar'' @ [nul] @ ''--handle=amy'' @ [nul];
       eb = ea\<lparr>pe_pid := 8, pe_alive := \<lambda>_. True, pe_cmdline := \<lambda>_. Some l\<rparr>; s1 = snd (pid_marker_check ea ''m'' ''amy'' \<lparr>files = \<lambda>_. None, held = {}\<rparr>)
   in pid_marker_check eb ''m'' ''amy'' s1 = (1, s1) \<and> pid_marker_check ea ''m'' ''amy'' s1 = (0, s1)"
proof -
  let ?ea = "te_pids demo_tick" and ?l = "''nbs-sidecar'' @ [nul] @ ''--handle=amy'' @ [nul]" and ?s = "\<lparr>files = \<lambda>_. None, held = {}\<rparr>"
  let ?eb = "?ea\<lparr>pe_pid := 8, pe_alive := \<lambda>_. True, pe_cmdline := \<lambda>_. Some ?l\<rparr>"
  have e: "pe_pid ?ea = 7" "pe_kept ?ea = 100" "pe_read ?ea" "pe_tmp_open ?ea" "pe_rename ?ea" by (simp_all add: demo_tick_def)
  have c: "pid_marker_check ?ea ''m'' ''amy'' ?s = (0, snd (pid_marker_check ?ea ''m'' ''amy'' ?s))"
    using e by (simp add: pid_marker_check_def marker_pid_def pid_marker_write_def Let_def)
  have "same_sidecar ''amy'' (take 4095 ?l)" by code_simp
  from one_sidecar[OF c, of ?eb, OF _ _ _ e(3) _ _ _ _ this] show ?thesis unfolding Let_def using e by simp
qed

definition demo_mentioned :: side where
  "demo_mentioned = demo_ready\<lparr>sd_content := prompt_utf8, ss_startup_notify_sent := True, ss_mention_detected := True,
     ss_mention_payload := ''@amy from ann: x'', sd_fs := put_file (registry_path demo_cfg) (unlines [''bus:ev'']) (sd_fs demo_ready),
     sd_bus := demo_mention_bus\<rparr>"

lemma demo_bus_check:
  "\<exists>r. bus_client_check demo_client ''ev'' 16 256 demo_mention_bus = Ret (0, r)"
proof -
  have run: "run_check demo_client ''ev'' demo_mention_bus = (0, unlines [age_line 50 demo_mention_event])"
    using run_check_listing[OF demo_client_ok demo_mention_ok demo_mention_fits] by (simp add: demo_mention_listing)
  have "registry_count_lines (unlines [age_line 50 demo_mention_event]) = 1" "unlines [age_line 50 demo_mention_event] \<noteq> []"
    "case first_priority (unlines [age_line 50 demo_mention_event]) of Some p \<Rightarrow> take 15 p \<noteq> [] | None \<Rightarrow> True" by code_simp+
  then show ?thesis unfolding bus_client_check_def run prod.case Let_def
    by (auto simp: snprintf_def split: option.splits)
qed

lemma should_inject_composes:
  assumes "te_grace_now e - ss_sidecar_start_time x \<ge> sc_startup_grace cfg" "ss_startup_notify_sent x"
    and "look_at_bus e cfg (x\<lparr>ss_notify_message := []\<rparr>) = Ret (0, x1)" "look_at_chats e cfg x1 = Ret (c, x2)"
    and "\<not> cooldown_is_active cfg (te_cd2_now e) x2"
  shows "should_inject_notify e cfg x = compose_message x2"
  using assms by (simp add: should_inject_notify_def Let_def)


end
