(* ===== verification/Spec2Isabelle.thy ===== *)
theory Spec2Isabelle
  imports ChatUnread HubProps TermRender TermPlain SideText SideRegProps SideBusProps SideChatProps SideTransport SideLoopState
begin

text \<open>
  The chat file of the framework.
\<close>

end
